(* ===== verification/Gateway_Prelude.thy ===== *)
theory Gateway_Prelude
  imports Main "HOL-Library.AList" "HOL-Library.Word" "HOL-Library.Char_ord"
    "HOL-Library.List_Lexorder" "HOL-Library.Product_Lexorder"
begin

text \<open>
  Shared vocabulary of the development: the machine-integer operations and the time types
  that the gateway's Rust sources use, the model of \<open>HashMap\<close> as an association list with
  distinct keys, the panic result type, and the two interfaces (locales) that the stateful
  components instantiate: a keyed store and a transition system with an invariant.
\<close>

section \<open>Collections of rewrite rules\<close>

named_theorems u_arith \<open>saturating and wrapping integer operations\<close>
named_theorems store_simps \<open>laws of the association-list store\<close>

section \<open>Machine integers and time\<close>

text \<open>
  Unsigned Rust integers are natural numbers with the width written out at the operations
  whose result depends on it. A \<open>Duration\<close> is a number of nanoseconds and an \<open>Instant\<close> is
  the number of nanoseconds since the process clock's origin. Adding a duration to an
  instant is plain addition: the clock's own range (64-bit signed seconds) is not modelled.
\<close>

type_synonym duration = nat
type_synonym instant = nat
type_synonym byte = "8 word"

definition u32_max :: nat where
  "u32_max = 2 ^ 32 - 1"

definition u64_max :: nat where
  "u64_max = 2 ^ 64 - 1"

definition u128_max :: nat where
  "u128_max = 2 ^ 128 - 1"

definition u32_saturating_add :: "nat \<Rightarrow> nat \<Rightarrow> nat" where
  "u32_saturating_add a b = min (a + b) u32_max"

definition u64_saturating_add :: "nat \<Rightarrow> nat \<Rightarrow> nat" where
  "u64_saturating_add a b = min (a + b) u64_max"

definition u64_wrapping_add :: "nat \<Rightarrow> nat \<Rightarrow> nat" where
  "u64_wrapping_add a b = (a + b) mod 2 ^ 64"

definition u128_saturating_mul :: "nat \<Rightarrow> nat \<Rightarrow> nat" where
  "u128_saturating_mul a b = min (a * b) u128_max"

definition duration_max :: duration where
  "duration_max = u64_max * 1000000000 + 999999999"

definition duration_saturating_add :: "duration \<Rightarrow> duration \<Rightarrow> duration" where
  "duration_saturating_add a b = min (a + b) duration_max"

definition from_millis :: "nat \<Rightarrow> duration" where
  "from_millis n = n * 1000000"

definition from_secs :: "nat \<Rightarrow> duration" where
  "from_secs n = n * 1000000000"

definition as_millis :: "duration \<Rightarrow> nat" where
  "as_millis d = d div 1000000"

definition as_secs :: "duration \<Rightarrow> nat" where
  "as_secs d = d div 1000000000"

definition subsec_nanos :: "duration \<Rightarrow> nat" where
  "subsec_nanos d = d mod 1000000000"

text \<open>\<open>Instant::saturating_duration_since\<close> stops at zero, as subtraction on \<open>nat\<close> does.\<close>

definition saturating_duration_since :: "instant \<Rightarrow> instant \<Rightarrow> duration" where
  "saturating_duration_since later earlier = later - earlier"

lemma saturating_duration_since_0 [simp]:
  "saturating_duration_since u n = 0 \<longleftrightarrow> u \<le> n"
  by (simp add: saturating_duration_since_def)

lemma saturating_duration_since_pos [simp]:
  "0 < saturating_duration_since u n \<longleftrightarrow> n < u"
  by (simp add: saturating_duration_since_def)

lemma u64_wrapping_succ_less [u_arith]: "u64_wrapping_add n 1 \<le> u64_max"
proof -
  have "(n + 1) mod 2 ^ 64 < (2::nat) ^ 64" by (rule mod_less_divisor) simp
  then show ?thesis by (simp add: u64_wrapping_add_def u64_max_def)
qed

lemma u64_wrapping_succ_small [u_arith]: "n < u64_max \<Longrightarrow> u64_wrapping_add n 1 = n + 1"
  by (simp add: u64_wrapping_add_def u64_max_def)

lemma u32_saturating_add_le [u_arith]: "u32_saturating_add a b \<le> u32_max"
  by (simp add: u32_saturating_add_def)

lemma u32_saturating_add_mono [u_arith]:
  "a \<le> u32_max \<Longrightarrow> a \<le> u32_saturating_add a b"
  by (simp add: u32_saturating_add_def)

section \<open>Panics\<close>

text \<open>
  A Rust \<open>expect\<close> or an indexing out of range unwinds. The model returns the message on the
  left of a sum instead of a result, so that the absence of a panic is a theorem.
\<close>

datatype panic = Panic string

type_synonym 'a outcome_or_panic = "panic + 'a"

fun bind_ok :: "'e + 'a \<Rightarrow> ('a \<Rightarrow> 'e + 'b) \<Rightarrow> 'e + 'b" where
  "bind_ok (Inl e) f = Inl e"
| "bind_ok (Inr x) f = f x"

lemma bind_ok_Inr_iff:
  "bind_ok m f = Inr y \<longleftrightarrow> (\<exists>x. m = Inr x \<and> f x = Inr y)"
  by (cases m) auto

lemma bind_ok_Inl_iff:
  "bind_ok m f = Inl e \<longleftrightarrow> m = Inl e \<or> (\<exists>x. m = Inr x \<and> f x = Inl e)"
  by (cases m) auto

definition expect :: "string \<Rightarrow> 'a option \<Rightarrow> 'a outcome_or_panic" where
  "expect msg v = (case v of None \<Rightarrow> Inl (Panic msg) | Some x \<Rightarrow> Inr x)"

lemma expect_Some [simp]: "expect msg (Some x) = Inr x"
  by (simp add: expect_def)

lemma expect_None [simp]: "expect msg None = Inl (Panic msg)"
  by (simp add: expect_def)

section \<open>Optional deadlines\<close>

text \<open>\<open>Option::is_some_and\<close> and \<open>Option::is_none_or\<close>.\<close>

definition is_some_and :: "'a option \<Rightarrow> ('a \<Rightarrow> bool) \<Rightarrow> bool" where
  "is_some_and v p = (case v of None \<Rightarrow> False | Some x \<Rightarrow> p x)"

definition is_none_or :: "'a option \<Rightarrow> ('a \<Rightarrow> bool) \<Rightarrow> bool" where
  "is_none_or v p = (case v of None \<Rightarrow> True | Some x \<Rightarrow> p x)"

lemma is_some_and_simps [simp]:
  "is_some_and None p = False" "is_some_and (Some x) p = p x"
  by (simp_all add: is_some_and_def)

lemma is_none_or_simps [simp]:
  "is_none_or None p = True" "is_none_or (Some x) p = p x"
  by (simp_all add: is_none_or_def)

lemma is_some_and_iff: "is_some_and v p \<longleftrightarrow> (\<exists>x. v = Some x \<and> p x)"
  by (cases v) auto

lemma is_none_or_iff: "is_none_or v p \<longleftrightarrow> (\<forall>x. v = Some x \<longrightarrow> p x)"
  by (cases v) auto

text \<open>\<open>Option::filter\<close> and \<open>Option::or\<close>.\<close>

definition filter_option :: "('a \<Rightarrow> bool) \<Rightarrow> 'a option \<Rightarrow> 'a option" where
  "filter_option p v = (case v of None \<Rightarrow> None | Some x \<Rightarrow> if p x then Some x else None)"

definition or_else :: "'a option \<Rightarrow> 'a option \<Rightarrow> 'a option" where
  "or_else v w = (case v of None \<Rightarrow> w | Some x \<Rightarrow> Some x)"

lemma filter_option_Some [simp]: "filter_option p v = Some x \<longleftrightarrow> v = Some x \<and> p x"
  by (auto simp: filter_option_def split: option.splits)

lemma filter_option_None: "filter_option p v = None \<longleftrightarrow> is_none_or v (\<lambda>x. \<not> p x)"
  by (auto simp: filter_option_def is_none_or_def split: option.splits)

text \<open>\<open>Iterator::find_map\<close>.\<close>

fun find_map :: "('a \<Rightarrow> 'b option) \<Rightarrow> 'a list \<Rightarrow> 'b option" where
  "find_map f [] = None"
| "find_map f (x # xs) = (case f x of Some y \<Rightarrow> Some y | None \<Rightarrow> find_map f xs)"

lemma find_map_Some: "find_map f xs = Some y \<Longrightarrow> \<exists>x\<in>set xs. f x = Some y"
  by (induction xs) (auto split: option.splits)

lemma find_map_None: "find_map f xs = None \<longleftrightarrow> (\<forall>x\<in>set xs. f x = None)"
  by (induction xs) (auto split: option.splits)

section \<open>Hash maps\<close>

text \<open>
  A \<open>HashMap\<close> is an association list with distinct keys. Its order stands for the hash
  map's iteration order, which Rust leaves unspecified; \<open>len\<close> is the length of the list.
\<close>

type_synonym ('k, 'v) hashmap = "('k \<times> 'v) list"

definition hm_ok :: "('k, 'v) hashmap \<Rightarrow> bool" where
  "hm_ok m = distinct (map fst m)"

definition hm_keys :: "('k, 'v) hashmap \<Rightarrow> 'k list" where
  "hm_keys m = map fst m"

definition hm_contains :: "('k, 'v) hashmap \<Rightarrow> 'k \<Rightarrow> bool" where
  "hm_contains m k = (map_of m k \<noteq> None)"

definition hm_modify :: "'k \<Rightarrow> ('v \<Rightarrow> 'v) \<Rightarrow> ('k, 'v) hashmap \<Rightarrow> ('k, 'v) hashmap" where
  "hm_modify k f m = (case map_of m k of None \<Rightarrow> m | Some v \<Rightarrow> AList.update k (f v) m)"

definition hm_entry_or :: "'k \<Rightarrow> 'v \<Rightarrow> ('k, 'v) hashmap \<Rightarrow> 'v" where
  "hm_entry_or k d m = (case map_of m k of None \<Rightarrow> d | Some v \<Rightarrow> v)"

definition hm_map_values :: "('v \<Rightarrow> 'v) \<Rightarrow> ('k, 'v) hashmap \<Rightarrow> ('k, 'v) hashmap" where
  "hm_map_values f m = map (\<lambda>(k, v). (k, f v)) m"

definition hm_retain :: "('k \<Rightarrow> 'v \<Rightarrow> bool) \<Rightarrow> ('k, 'v) hashmap \<Rightarrow> ('k, 'v) hashmap" where
  "hm_retain p m = filter (\<lambda>(k, v). p k v) m"

lemma hm_ok_Nil [simp]: "hm_ok []"
  by (simp add: hm_ok_def)

lemma hm_ok_update [simp]: "hm_ok m \<Longrightarrow> hm_ok (AList.update k v m)"
  by (simp add: hm_ok_def distinct_update)

lemma hm_ok_delete [simp]: "hm_ok m \<Longrightarrow> hm_ok (AList.delete k m)"
  by (simp add: hm_ok_def distinct_delete)

lemma hm_ok_modify [simp]: "hm_ok m \<Longrightarrow> hm_ok (hm_modify k f m)"
  by (simp add: hm_modify_def split: option.split)

lemma fst_hm_map_values [simp]: "map fst (hm_map_values f m) = map fst m"
  by (simp add: hm_map_values_def case_prod_unfold)

lemma hm_ok_map_values [simp]: "hm_ok (hm_map_values f m) = hm_ok m"
  by (simp add: hm_ok_def)

lemma hm_ok_retain [simp]: "hm_ok m \<Longrightarrow> hm_ok (hm_retain p m)"
  unfolding hm_ok_def hm_retain_def by (rule distinct_map_filter)

lemma map_of_hm_map_values [simp, store_simps]:
  "map_of (hm_map_values f m) k = map_option f (map_of m k)"
  by (induction m) (auto simp: hm_map_values_def)

lemma map_of_hm_retain [store_simps]:
  assumes "hm_ok m"
  shows "map_of (hm_retain p m) k =
    (case map_of m k of None \<Rightarrow> None | Some v \<Rightarrow> if p k v then Some v else None)"
  using assms
proof (induction m)
  case Nil
  then show ?case by (simp add: hm_retain_def)
next
  case (Cons kv m)
  obtain k' v' where kv: "kv = (k', v')" by (cases kv)
  with Cons.prems have "map_of m k' = None" and ok: "hm_ok m"
    by (auto simp: hm_ok_def map_of_eq_None_iff)
  with Cons.IH [OF ok] show ?case
    by (auto simp: kv hm_retain_def split: option.splits)
qed

lemma map_of_update [simp, store_simps]:
  "map_of (AList.update k v m) k' = (if k' = k then Some v else map_of m k')"
  by (simp add: update_conv)

lemma map_of_delete [simp, store_simps]:
  "map_of (AList.delete k m) k' = (if k' = k then None else map_of m k')"
  by (simp add: delete_conv)

lemma map_of_hm_modify [store_simps]:
  "map_of (hm_modify k f m) k' =
    (if k' = k then map_option f (map_of m k) else map_of m k')"
  by (auto simp: hm_modify_def split: option.split)

lemma length_update:
  "length (AList.update k v m) = (if map_of m k = None then Suc (length m) else length m)"
  by (induction m) auto

lemma length_hm_modify [simp]: "length (hm_modify k f m) = length m"
  by (simp add: hm_modify_def length_update split: option.split)

lemma length_hm_map_values [simp]: "length (hm_map_values f m) = length m"
  by (simp add: hm_map_values_def)

lemma map_fst_update:
  "map fst (AList.update k v m) = (if map_of m k = None then map fst m @ [k] else map fst m)"
  by (induction m) auto

lemma map_fst_hm_modify [simp]: "map fst (hm_modify k f m) = map fst m"
  by (simp add: hm_modify_def map_fst_update split: option.split)

lemma map_fst_delete: "map fst (AList.delete k m) = filter (\<lambda>x. x \<noteq> k) (map fst m)"
  by (induction m) auto

lemma hm_entry_or_update [simp]:
  "map_of m k = Some v \<Longrightarrow> hm_entry_or k d m = v"
  "map_of m k = None \<Longrightarrow> hm_entry_or k d m = d"
  by (simp_all add: hm_entry_or_def)

lemma filter_delete_distinct:
  assumes "distinct ks" "k \<in> set ks" "p k"
  shows "Suc (length (filter p (filter (\<lambda>x. x \<noteq> k) ks))) = length (filter p ks)"
  using assms by (induction ks) (auto simp: filter_id_conv intro!: arg_cong [where f = length] filter_cong)

lemma length_hm_retain_le: "length (hm_retain p m) \<le> length m"
  by (simp add: hm_retain_def)

section \<open>Selection by key\<close>

text \<open>
  \<open>Iterator::min_by_key\<close> returns the first of several least elements and
  \<open>Iterator::max_by_key\<close> the last of several greatest ones.
\<close>

fun min_by_key :: "('a \<Rightarrow> 'b::linorder) \<Rightarrow> 'a list \<Rightarrow> 'a option" where
  "min_by_key f [] = None"
| "min_by_key f (x # xs) =
    (case min_by_key f xs of None \<Rightarrow> Some x | Some y \<Rightarrow> if f x \<le> f y then Some x else Some y)"

fun max_by_key :: "('a \<Rightarrow> 'b::linorder) \<Rightarrow> 'a list \<Rightarrow> 'a option" where
  "max_by_key f [] = None"
| "max_by_key f (x # xs) =
    (case max_by_key f xs of None \<Rightarrow> Some x | Some y \<Rightarrow> if f y < f x then Some x else Some y)"

lemma min_by_key_None_iff [simp]: "min_by_key f xs = None \<longleftrightarrow> xs = []"
  by (cases xs) (auto split: option.split)

lemma max_by_key_None_iff [simp]: "max_by_key f xs = None \<longleftrightarrow> xs = []"
  by (cases xs) (auto split: option.split)

lemma min_by_key_SomeD:
  "min_by_key f xs = Some y \<Longrightarrow> y \<in> set xs \<and> (\<forall>x\<in>set xs. f y \<le> f x)"
proof (induction xs arbitrary: y)
  case Nil
  then show ?case by simp
next
  case (Cons x xs)
  show ?case
  proof (cases "min_by_key f xs")
    case None
    with Cons.prems show ?thesis by simp
  next
    case (Some z)
    with Cons.IH have "z \<in> set xs" "\<forall>x\<in>set xs. f z \<le> f x" by blast+
    with Cons.prems Some show ?thesis by (fastforce split: if_splits)
  qed
qed

lemma max_by_key_SomeD:
  "max_by_key f xs = Some y \<Longrightarrow> y \<in> set xs \<and> (\<forall>x\<in>set xs. f x \<le> f y)"
proof (induction xs arbitrary: y)
  case Nil
  then show ?case by simp
next
  case (Cons x xs)
  show ?case
  proof (cases "max_by_key f xs")
    case None
    with Cons.prems show ?thesis by simp
  next
    case (Some z)
    with Cons.IH have "z \<in> set xs" "\<forall>x\<in>set xs. f x \<le> f z" by blast+
    with Cons.prems Some show ?thesis by (fastforce split: if_splits)
  qed
qed

section \<open>The store interface\<close>

definition hm_all :: "('v \<Rightarrow> bool) \<Rightarrow> ('k, 'v) hashmap \<Rightarrow> bool" where
  "hm_all p m = list_all (\<lambda>(k, v). p v) m"

lemma hm_all_Nil [simp]: "hm_all p []"
  by (simp add: hm_all_def)

lemma hm_all_mem: "hm_all p m \<Longrightarrow> (k, v) \<in> set m \<Longrightarrow> p v"
  by (auto simp: hm_all_def list_all_iff)

lemma hm_all_get: "hm_all p m \<Longrightarrow> map_of m k = Some v \<Longrightarrow> p v"
  by (rule hm_all_mem) (auto dest: map_of_SomeD)

lemma hm_all_update: "hm_all p m \<Longrightarrow> p v \<Longrightarrow> hm_all p (AList.update k v m)"
  by (induction m) (auto simp: hm_all_def)

lemma hm_all_delete: "hm_all p m \<Longrightarrow> hm_all p (AList.delete k m)"
  by (induction m) (auto simp: hm_all_def)

lemma hm_all_map_values:
  "hm_all p m \<Longrightarrow> (\<And>v. p v \<Longrightarrow> p (f v)) \<Longrightarrow> hm_all p (hm_map_values f m)"
  by (induction m) (auto simp: hm_all_def hm_map_values_def)

lemma hm_all_retain: "hm_all p m \<Longrightarrow> hm_all p (hm_retain q m)"
  by (auto simp: hm_all_def hm_retain_def list_all_iff)

text \<open>
  What the registries rely on: a store answers a lookup with the last value put under the
  key, forgets deleted keys, and a property of all stored values survives every write of a
  value that has it.
\<close>

locale keyed_store =
  fixes get :: "'s \<Rightarrow> 'k \<Rightarrow> 'v option"
    and put :: "'k \<Rightarrow> 'v \<Rightarrow> 's \<Rightarrow> 's"
    and del :: "'k \<Rightarrow> 's \<Rightarrow> 's"
    and all :: "('v \<Rightarrow> bool) \<Rightarrow> 's \<Rightarrow> bool"
    and ok :: "'s \<Rightarrow> bool"
  assumes get_put: "get (put k v s) k' = (if k' = k then Some v else get s k')"
    and get_del: "get (del k s) k' = (if k' = k then None else get s k')"
    and all_get: "all p s \<Longrightarrow> get s k = Some v \<Longrightarrow> p v"
    and all_put: "all p s \<Longrightarrow> p v \<Longrightarrow> all p (put k v s)"
    and all_del: "all p s \<Longrightarrow> all p (del k s)"
    and ok_put: "ok s \<Longrightarrow> ok (put k v s)"
    and ok_del: "ok s \<Longrightarrow> ok (del k s)"
begin

definition modify :: "'k \<Rightarrow> ('v \<Rightarrow> 'v) \<Rightarrow> 's \<Rightarrow> 's" where
  "modify k f s = (case get s k of None \<Rightarrow> s | Some v \<Rightarrow> put k (f v) s)"

lemma get_modify:
  "get (modify k f s) k' = (if k' = k then map_option f (get s k) else get s k')"
  by (auto simp: modify_def get_put split: option.split)

lemma all_modify:
  assumes "all p s" and "\<And>v. get s k = Some v \<Longrightarrow> p v \<Longrightarrow> p (f v)"
  shows "all p (modify k f s)"
  using assms by (auto simp: modify_def intro: all_put dest: all_get split: option.split)

lemma ok_modify: "ok s \<Longrightarrow> ok (modify k f s)"
  by (auto simp: modify_def intro: ok_put split: option.split)

lemma put_frame: "k' \<noteq> k \<Longrightarrow> get (put k v s) k' = get s k'"
  by (simp add: get_put)

lemma modify_frame: "k' \<noteq> k \<Longrightarrow> get (modify k f s) k' = get s k'"
  by (simp add: get_modify)

lemma modify_missing: "get s k = None \<Longrightarrow> modify k f s = s"
  by (simp add: modify_def)

end

interpretation hm: keyed_store map_of AList.update AList.delete hm_all hm_ok
  by unfold_locales (auto intro: hm_all_update hm_all_delete dest: hm_all_get)

lemma hm_modify_eq: "hm_modify k f m = hm.modify k f m"
  by (simp add: hm_modify_def hm.modify_def)

lemmas hm_all_modify = hm.all_modify [folded hm_modify_eq]

section \<open>Transition systems with an invariant\<close>

inductive reachable :: "('s \<Rightarrow> bool) \<Rightarrow> ('o \<Rightarrow> 's \<Rightarrow> 's \<Rightarrow> bool) \<Rightarrow> 's \<Rightarrow> bool"
  for init step where
  reach_init: "init s \<Longrightarrow> reachable init step s"
| reach_step: "reachable init step s \<Longrightarrow> step l s t \<Longrightarrow> reachable init step t"

locale invariant_system =
  fixes init :: "'s \<Rightarrow> bool"
    and step :: "'o \<Rightarrow> 's \<Rightarrow> 's \<Rightarrow> bool"
    and inv :: "'s \<Rightarrow> bool"
  assumes inv_init: "init s \<Longrightarrow> inv s"
    and inv_step: "inv s \<Longrightarrow> step l s t \<Longrightarrow> inv t"
begin

lemma reachable_inv: "reachable init step s \<Longrightarrow> inv s"
  by (induction rule: reachable.induct) (auto intro: inv_init inv_step)

end

end
