(* ===== verification/Route_Health_Types.thy ===== *)
theory Route_Health_Types
  imports Gateway_Prelude
begin

text \<open>
  The vocabulary of route health (\<open>src/src/state/types.rs\<close>, \<open>src/src/state/route_health.rs\<close>):
  failure classes, the identities of keys, routes and aggregates, the health state kept per
  identity with its observers and mutators, leases and outcomes. Record fields carry a short
  prefix (\<open>hs_\<close> for the health state, \<open>hl_\<close> for a lease, and so on) because the Rust structs
  share field names.
\<close>

section \<open>Failure classes and protocols\<close>

datatype route_failure_class =
    CapacityUnavailable
  | ConcurrencySaturated
  | TransientServer
  | Transport
  | RateLimited
  | KeyQuota
  | Credentials
  | ModelUnsupported
  | FeatureUnsupported
  | ProtocolUnsupported
  | RequestRejected
  | EdgeProxyError

definition failure_class_all :: "route_failure_class list" where
  "failure_class_all =
    [CapacityUnavailable, ConcurrencySaturated, TransientServer, Transport, RateLimited,
     KeyQuota, Credentials, ModelUnsupported, FeatureUnsupported, ProtocolUnsupported,
     RequestRejected, EdgeProxyError]"

fun is_temporary :: "route_failure_class \<Rightarrow> bool" where
  "is_temporary CapacityUnavailable = True"
| "is_temporary ConcurrencySaturated = True"
| "is_temporary TransientServer = True"
| "is_temporary Transport = True"
| "is_temporary RateLimited = True"
| "is_temporary KeyQuota = True"
| "is_temporary EdgeProxyError = True"
| "is_temporary _ = False"

fun class_as_str :: "route_failure_class \<Rightarrow> string" where
  "class_as_str CapacityUnavailable = ''capacity_unavailable''"
| "class_as_str ConcurrencySaturated = ''concurrency_saturated''"
| "class_as_str TransientServer = ''transient_server''"
| "class_as_str Transport = ''transport''"
| "class_as_str RateLimited = ''rate_limited''"
| "class_as_str KeyQuota = ''key_quota''"
| "class_as_str Credentials = ''credentials''"
| "class_as_str ModelUnsupported = ''model_unsupported''"
| "class_as_str FeatureUnsupported = ''feature_unsupported''"
| "class_as_str ProtocolUnsupported = ''protocol_unsupported''"
| "class_as_str RequestRejected = ''request_rejected''"
| "class_as_str EdgeProxyError = ''edge_proxy_error''"

datatype wire_protocol = ChatCompletions | Responses | Messages

lemma class_as_str_inj: "class_as_str c = class_as_str d \<longleftrightarrow> c = d"
  by (cases c; cases d) simp_all

lemma failure_class_all_complete: "set failure_class_all = UNIV" "distinct failure_class_all"
proof -
  show "set failure_class_all = UNIV"
  proof (intro equalityI subset_UNIV subsetI)
    fix c
    show "c \<in> set failure_class_all" by (cases c) (simp_all add: failure_class_all_def)
  qed
  show "distinct failure_class_all" by (simp add: failure_class_all_def)
qed

section \<open>Identities\<close>

record key_health_key =
  kk_upstream_id :: string
  kk_key_fingerprint :: string

record route_health_key =
  rk_upstream_id :: string
  rk_key_fingerprint :: string
  rk_runtime_model_slug :: string
  rk_protocol :: wire_protocol

record route_set_aggregate_key =
  ak_upstream_id :: string
  ak_runtime_model_slug :: string
  ak_protocol :: wire_protocol

section \<open>Results, leases and outcomes\<close>

datatype 'a route_availability =
    Ready 'a
  | Cooling route_failure_class duration "nat option"
  | HalfOpenBusy route_failure_class duration "nat option"

fun is_ready :: "'a route_availability \<Rightarrow> bool" where
  "is_ready (Ready _) = True"
| "is_ready _ = False"

record route_recovery =
  rr_class :: route_failure_class
  rr_retry_after :: duration
  rr_half_open_remaining :: "duration option"

record health_lease =
  hl_route :: route_health_key
  hl_key :: key_health_key
  hl_key_generation :: "nat option"
  hl_route_generation :: "nat option"
  hl_route_state_generation :: "nat option"
  hl_half_open :: bool

record failure_context =
  fc_upstream_status :: "nat option"
  fc_repeat_within_request :: bool
  fc_sole_candidate :: bool
  fc_capacity_sole_route :: bool
  fc_shared_host_failure_domain :: bool

text \<open>
  The two Rust variants \<open>RouteFailure\<close> and \<open>RouteFailureWithRetry\<close> share the five trailing
  fields, which are grouped in \<open>failure_context\<close>.
\<close>

datatype route_outcome =
    Success
  | RouteFailure route_failure_class failure_context
  | RouteFailureWithRetry route_failure_class duration failure_context
  | KeyFailure route_failure_class
  | KeyFailureWithRetry route_failure_class duration
  | UncertainRouteFailure route_failure_class
  | Cancelled

section \<open>Health state\<close>

record health_state =
  hs_consecutive_failures :: nat
  hs_last_failure_class :: "route_failure_class option"
  hs_last_failure_status :: "nat option"
  hs_last_failure_at :: "instant option"
  hs_cooldown_until :: "instant option"
  hs_half_open_generation :: "nat option"
  hs_half_open_expires_at :: "instant option"
  hs_half_open_exclusive_until :: "instant option"
  hs_last_early_probe_at :: "instant option"
  hs_state_generation :: nat
  hs_last_access :: instant

definition half_open_busy_retry :: duration where
  "half_open_busy_retry = from_secs 1"

definition health_state_new :: "instant \<Rightarrow> health_state" where
  "health_state_new now =
    \<lparr>hs_consecutive_failures = 0, hs_last_failure_class = None, hs_last_failure_status = None,
     hs_last_failure_at = None, hs_cooldown_until = None, hs_half_open_generation = None,
     hs_half_open_expires_at = None, hs_half_open_exclusive_until = None,
     hs_last_early_probe_at = None, hs_state_generation = 0, hs_last_access = now\<rparr>"

definition is_active :: "health_state \<Rightarrow> instant \<Rightarrow> bool" where
  "is_active s now =
    (hs_half_open_generation s \<noteq> None \<and> is_some_and (hs_half_open_expires_at s) (\<lambda>e. e > now))"

definition is_cooling :: "health_state \<Rightarrow> instant \<Rightarrow> bool" where
  "is_cooling s now = is_some_and (hs_cooldown_until s) (\<lambda>u. u > now)"

definition hs_retry_after :: "health_state \<Rightarrow> instant \<Rightarrow> duration" where
  "hs_retry_after s now =
    (case hs_cooldown_until s of None \<Rightarrow> 0 | Some u \<Rightarrow> saturating_duration_since u now)"

definition hs_clear :: "health_state \<Rightarrow> instant \<Rightarrow> health_state" where
  "hs_clear s now =
    s\<lparr>hs_consecutive_failures := 0, hs_last_failure_class := None,
      hs_last_failure_status := None, hs_last_failure_at := None, hs_cooldown_until := None,
      hs_half_open_generation := None, hs_half_open_expires_at := None,
      hs_half_open_exclusive_until := None, hs_last_early_probe_at := None,
      hs_last_access := now\<rparr>"

definition is_clear :: "health_state \<Rightarrow> bool" where
  "is_clear s =
    (hs_consecutive_failures s = 0 \<and> hs_last_failure_class s = None
     \<and> hs_last_failure_status s = None \<and> hs_last_failure_at s = None
     \<and> hs_cooldown_until s = None \<and> hs_half_open_generation s = None
     \<and> hs_half_open_expires_at s = None \<and> hs_half_open_exclusive_until s = None
     \<and> hs_last_early_probe_at s = None)"

definition drop_half_open :: "health_state \<Rightarrow> health_state" where
  "drop_half_open s =
    s\<lparr>hs_half_open_generation := None, hs_half_open_expires_at := None,
      hs_half_open_exclusive_until := None\<rparr>"

definition release_half_open :: "health_state \<Rightarrow> nat option \<Rightarrow> instant \<Rightarrow> health_state" where
  "release_half_open s generation now =
    (if generation \<noteq> None \<and> hs_half_open_generation s = generation
     then (drop_half_open s)\<lparr>hs_last_access := now\<rparr>
     else s\<lparr>hs_last_access := now\<rparr>)"

definition half_open_remaining :: "health_state \<Rightarrow> instant \<Rightarrow> duration" where
  "half_open_remaining s now =
    (case hs_half_open_expires_at s of None \<Rightarrow> 0
     | Some e \<Rightarrow> saturating_duration_since e now)"

definition half_open_exclusive_remaining :: "health_state \<Rightarrow> instant \<Rightarrow> duration" where
  "half_open_exclusive_remaining s now =
    (case hs_half_open_exclusive_until s of None \<Rightarrow> half_open_remaining s now
     | Some u \<Rightarrow> saturating_duration_since u now)"

definition half_open_busy_wait :: "health_state \<Rightarrow> instant \<Rightarrow> duration" where
  "half_open_busy_wait s now =
    max (min (half_open_remaining s now) (half_open_exclusive_remaining s now))
        half_open_busy_retry"

record health_state_snapshot =
  sn_consecutive_failures :: nat
  sn_last_failure_class :: "route_failure_class option"
  sn_cooldown_remaining :: duration
  sn_half_open :: bool
  sn_half_open_remaining :: duration

definition health_snapshot :: "health_state \<Rightarrow> instant \<Rightarrow> health_state_snapshot" where
  "health_snapshot s now =
    (let half_open = hs_half_open_generation s \<noteq> None
           \<and> is_some_and (hs_half_open_expires_at s) (\<lambda>e. e > now)
     in \<lparr>sn_consecutive_failures = hs_consecutive_failures s,
         sn_last_failure_class = hs_last_failure_class s,
         sn_cooldown_remaining = hs_retry_after s now,
         sn_half_open = half_open,
         sn_half_open_remaining = (if half_open then half_open_busy_wait s now else 0)\<rparr>)"

definition health_state_recovery :: "health_state \<Rightarrow> instant \<Rightarrow> route_recovery option" where
  "health_state_recovery s now =
    (case hs_last_failure_class s of
       None \<Rightarrow> None
     | Some class \<Rightarrow>
         (case hs_cooldown_until s of
            None \<Rightarrow> None
          | Some _ \<Rightarrow>
              if is_active s now
              then Some \<lparr>rr_class = class, rr_retry_after = half_open_busy_retry,
                         rr_half_open_remaining = Some (half_open_busy_wait s now)\<rparr>
              else Some \<lparr>rr_class = class, rr_retry_after = hs_retry_after s now,
                         rr_half_open_remaining = None\<rparr>))"

section \<open>The health-state invariant\<close>

text \<open>
  What the \<open>expect\<close> calls of the registry take for granted: an entry with a cooldown or with
  a half-open lease has a recorded failure class, and a half-open lease has its two deadlines.
\<close>

definition hs_inv :: "health_state \<Rightarrow> bool" where
  "hs_inv s =
    ((hs_cooldown_until s \<noteq> None \<longrightarrow> hs_last_failure_class s \<noteq> None)
     \<and> (hs_half_open_generation s \<noteq> None \<longrightarrow>
          hs_last_failure_class s \<noteq> None \<and> hs_half_open_expires_at s \<noteq> None
          \<and> hs_half_open_exclusive_until s \<noteq> None))"

lemmas hs_defs =
  is_active_def is_cooling_def hs_retry_after_def hs_clear_def is_clear_def drop_half_open_def
  release_half_open_def health_state_new_def hs_inv_def

lemma hs_inv_new [simp]: "hs_inv (health_state_new now)"
  by (simp add: hs_defs)

lemma hs_inv_clear [simp]: "hs_inv (hs_clear s now)"
  by (simp add: hs_defs)

lemma hs_inv_drop_half_open [simp]: "hs_inv s \<Longrightarrow> hs_inv (drop_half_open s)"
  by (simp add: hs_defs)

lemma hs_inv_release_half_open [simp]: "hs_inv s \<Longrightarrow> hs_inv (release_half_open s g now)"
  by (simp add: hs_defs)

lemma hs_inv_last_access [simp]: "hs_inv (s\<lparr>hs_last_access := now\<rparr>) = hs_inv s"
  by (simp add: hs_defs)

lemma is_clear_hs_clear: "is_clear (hs_clear s now)"
  by (simp add: hs_defs)

lemma retry_after_pos_iff_cooling: "0 < hs_retry_after s now \<longleftrightarrow> is_cooling s now"
  by (simp add: hs_defs split: option.split)

lemma clear_not_blocking:
  "is_clear s \<Longrightarrow> \<not> is_cooling s now \<and> \<not> is_active s now \<and> hs_retry_after s now = 0"
  by (simp add: hs_defs)

end
