(* ===== verification/Route_Cooldown.thy ===== *)
theory Route_Cooldown
  imports Route_Health_Types
begin

text \<open>
  The cooldown curves of \<open>src/src/state/route_health.rs\<close>: which failure classes cool, how a
  failure streak escalates, and how long a route or a key then stays unavailable. SHA-256
  (the \<open>sha2\<close> crate) is the parameter \<open>sha\<close>; its only documented property the code relies on
  is the digest length of 32 bytes.
\<close>

section \<open>Constants and class predicates\<close>

definition capacity_route_base :: duration where
  "capacity_route_base = from_secs 15"

definition edge_proxy_route_base :: duration where
  "edge_proxy_route_base = from_secs 3"

definition edge_proxy_route_max :: duration where
  "edge_proxy_route_max = from_secs 15"

definition default_rate_limit_base :: duration where
  "default_rate_limit_base = from_secs 30"

definition route_cooldown_max :: duration where
  "route_cooldown_max = from_secs (5 * 60)"

definition credential_key_base :: duration where
  "credential_key_base = from_secs (15 * 60)"

definition key_cooldown_max :: duration where
  "key_cooldown_max = from_secs (60 * 60)"

definition model_quarantine_base :: duration where
  "model_quarantine_base = from_secs (15 * 60)"

definition model_quarantine_max :: duration where
  "model_quarantine_max = from_secs (60 * 60)"

definition failure_streak_reset :: duration where
  "failure_streak_reset = from_secs (10 * 60)"

definition legacy_local_admission_safety_margin :: duration where
  "legacy_local_admission_safety_margin = from_secs 60"

definition route_half_open_failure_step_cap :: nat where
  "route_half_open_failure_step_cap = 5"

definition default_concurrency_probe_delays_ms :: "nat list" where
  "default_concurrency_probe_delays_ms = [100, 200, 400, 800, 1000, 2000]"

lemmas cooldown_consts =
  capacity_route_base_def edge_proxy_route_base_def edge_proxy_route_max_def
  default_rate_limit_base_def route_cooldown_max_def credential_key_base_def
  key_cooldown_max_def model_quarantine_base_def model_quarantine_max_def from_secs_def

fun is_shared_host_domain_class :: "route_failure_class \<Rightarrow> bool" where
  "is_shared_host_domain_class TransientServer = True"
| "is_shared_host_domain_class EdgeProxyError = True"
| "is_shared_host_domain_class _ = False"

fun route_failure_has_cooldown :: "route_failure_class \<Rightarrow> bool" where
  "route_failure_has_cooldown CapacityUnavailable = True"
| "route_failure_has_cooldown ConcurrencySaturated = True"
| "route_failure_has_cooldown TransientServer = True"
| "route_failure_has_cooldown Transport = True"
| "route_failure_has_cooldown RateLimited = True"
| "route_failure_has_cooldown KeyQuota = True"
| "route_failure_has_cooldown ModelUnsupported = True"
| "route_failure_has_cooldown EdgeProxyError = True"
| "route_failure_has_cooldown _ = False"

fun key_failure_has_cooldown :: "route_failure_class \<Rightarrow> bool" where
  "key_failure_has_cooldown Credentials = True"
| "key_failure_has_cooldown KeyQuota = True"
| "key_failure_has_cooldown _ = False"

fun is_capacity_class :: "route_failure_class \<Rightarrow> bool" where
  "is_capacity_class RateLimited = True"
| "is_capacity_class KeyQuota = True"
| "is_capacity_class _ = False"

section \<open>Streak escalation\<close>

definition failure_step ::
  "health_state \<Rightarrow> route_failure_class \<Rightarrow> instant \<Rightarrow> bool \<Rightarrow> nat \<Rightarrow> bool \<Rightarrow> nat" where
  "failure_step s class now repeat_within_request max_step shared_host_failure_domain =
    (let max_step = max max_step 1 in
     if class = EdgeProxyError
        \<or> (shared_host_failure_domain \<and> is_shared_host_domain_class class)
     then 1
     else if is_some_and (hs_last_failure_at s)
               (\<lambda>last. saturating_duration_since now last > failure_streak_reset)
             \<or> hs_last_failure_class s \<noteq> Some class
     then 1
     else if repeat_within_request then max (hs_consecutive_failures s) 1
     else (let escalated = max (u32_saturating_add (hs_consecutive_failures s) 1) 1 in
           if hs_half_open_generation s \<noteq> None \<and> class \<noteq> ConcurrencySaturated
           then min (min escalated route_half_open_failure_step_cap) max_step
           else if hs_half_open_generation s \<noteq> None then escalated
           else min escalated max_step))"

section \<open>Jittered exponential backoff\<close>

text \<open>\<open>u64::from_be_bytes\<close> and \<open>u32::to_be_bytes\<close>.\<close>

definition u64_from_be_bytes :: "byte list \<Rightarrow> nat" where
  "u64_from_be_bytes bs = foldl (\<lambda>acc b. acc * 256 + unat b) 0 bs"

definition u32_to_be_bytes :: "nat \<Rightarrow> byte list" where
  "u32_to_be_bytes n =
    [of_nat (n div 2 ^ 24), of_nat (n div 2 ^ 16), of_nat (n div 2 ^ 8), of_nat n]"

definition as_bytes :: "string \<Rightarrow> byte list" where
  "as_bytes s = map (\<lambda>c. of_nat (of_char c)) s"

definition jittered_backoff ::
  "(byte list \<Rightarrow> byte list) \<Rightarrow> duration \<Rightarrow> nat \<Rightarrow> duration \<Rightarrow> byte list \<Rightarrow> duration" where
  "jittered_backoff sha base step maxd material =
    (let exponent = min (step - 1) 16;
         multiplier = 2 ^ exponent;
         nanos = u128_saturating_mul base multiplier;
         digest = sha material;
         jitter_percent = 80 + u64_from_be_bytes (take 8 digest) mod 41;
         jittered = min (u128_saturating_mul nanos jitter_percent div 100) maxd
     in min jittered u64_max)"

fun wire_protocol_identity :: "wire_protocol \<Rightarrow> byte list" where
  "wire_protocol_identity ChatCompletions = as_bytes ''chat_completions''"
| "wire_protocol_identity Responses = as_bytes ''responses''"
| "wire_protocol_identity Messages = as_bytes ''messages''"

definition route_jitter_material ::
  "route_health_key \<Rightarrow> route_failure_class \<Rightarrow> nat \<Rightarrow> byte list" where
  "route_jitter_material route class step =
    as_bytes ''chat2responses:route-health:v1'' @ [0]
    @ as_bytes (rk_upstream_id route) @ [0]
    @ as_bytes (rk_key_fingerprint route) @ [0]
    @ as_bytes (rk_runtime_model_slug route) @ [0]
    @ wire_protocol_identity (rk_protocol route) @ [0]
    @ as_bytes (class_as_str class) @ [0]
    @ u32_to_be_bytes step"

definition key_jitter_material ::
  "key_health_key \<Rightarrow> route_failure_class \<Rightarrow> nat \<Rightarrow> byte list" where
  "key_jitter_material key class step =
    as_bytes ''chat2responses:key-health:v1'' @ [0]
    @ as_bytes (kk_upstream_id key) @ [0]
    @ as_bytes (kk_key_fingerprint key) @ [0]
    @ as_bytes (class_as_str class) @ [0]
    @ u32_to_be_bytes step"

section \<open>Cooldown of a route and of a key\<close>

fun route_cooldown_bounds ::
  "route_failure_class \<Rightarrow> duration \<Rightarrow> duration \<Rightarrow> duration \<times> duration" where
  "route_cooldown_bounds CapacityUnavailable tbase tmax = (capacity_route_base, route_cooldown_max)"
| "route_cooldown_bounds RateLimited tbase tmax = (default_rate_limit_base, route_cooldown_max)"
| "route_cooldown_bounds KeyQuota tbase tmax = (default_rate_limit_base, route_cooldown_max)"
| "route_cooldown_bounds ModelUnsupported tbase tmax = (model_quarantine_base, model_quarantine_max)"
| "route_cooldown_bounds EdgeProxyError tbase tmax = (edge_proxy_route_base, edge_proxy_route_max)"
| "route_cooldown_bounds _ tbase tmax = (tbase, tmax)"

definition route_cooldown ::
  "(byte list \<Rightarrow> byte list) \<Rightarrow> route_failure_class \<Rightarrow> nat \<Rightarrow> route_health_key \<Rightarrow> duration \<Rightarrow>
   duration \<Rightarrow> duration" where
  "route_cooldown sha class step route tbase tmax =
    (let (base, maxd) = route_cooldown_bounds class tbase tmax
     in jittered_backoff sha base step maxd (route_jitter_material route class step))"

definition sequence_delay :: "duration list \<Rightarrow> nat \<Rightarrow> duration" where
  "sequence_delay delays step =
    (let index = step - 1 in
     if index < length delays then delays ! index
     else if delays \<noteq> [] then last delays
     else from_millis 1)"

definition route_cooldown_with_concurrency_delays ::
  "(byte list \<Rightarrow> byte list) \<Rightarrow> route_failure_class \<Rightarrow> nat \<Rightarrow> route_health_key \<Rightarrow>
   duration list \<Rightarrow> duration \<Rightarrow> duration \<Rightarrow> duration" where
  "route_cooldown_with_concurrency_delays sha class step route delays tbase tmax =
    (if class = ConcurrencySaturated then min (sequence_delay delays step) route_cooldown_max
     else route_cooldown sha class step route tbase tmax)"

fun has_descent :: "nat list \<Rightarrow> bool" where
  "has_descent (a # b # xs) = (a > b \<or> has_descent (b # xs))"
| "has_descent _ = False"

definition normalize_concurrency_probe_delays :: "nat list \<Rightarrow> duration list" where
  "normalize_concurrency_probe_delays vals =
    (let vals = (if vals = [] \<or> list_ex (\<lambda>v. v = 0 \<or> v > 60000) vals \<or> has_descent vals
                   then default_concurrency_probe_delays_ms else vals)
     in map from_millis vals)"

definition legacy_local_admission_cooldown_threshold :: "duration list \<Rightarrow> duration" where
  "legacy_local_admission_cooldown_threshold delays =
    duration_saturating_add
      (if delays = [] then from_secs 1 else Max (set delays))
      legacy_local_admission_safety_margin"

definition key_cooldown ::
  "(byte list \<Rightarrow> byte list) \<Rightarrow> route_failure_class \<Rightarrow> nat \<Rightarrow> key_health_key \<Rightarrow> duration \<Rightarrow>
   duration \<Rightarrow> duration" where
  "key_cooldown sha class step key maxd credentials_first_strike =
    (let base = (if class = Credentials \<and> step = 1 then credentials_first_strike
                 else if class = Credentials then credential_key_base
                 else default_rate_limit_base)
     in jittered_backoff sha base step maxd (key_jitter_material key class step))"

definition duration_millis_saturating :: "duration \<Rightarrow> nat" where
  "duration_millis_saturating d = min (as_millis d) u64_max"

definition route_cooldown_schedule_ms ::
  "(byte list \<Rightarrow> byte list) \<Rightarrow> route_health_key \<Rightarrow> route_failure_class \<Rightarrow> duration list \<Rightarrow>
   duration \<Rightarrow> duration \<Rightarrow> nat list" where
  "route_cooldown_schedule_ms sha route class delays tbase tmax =
    map (\<lambda>step. duration_millis_saturating
      (route_cooldown_with_concurrency_delays sha class step route delays tbase tmax)) [1..<18]"

definition key_cooldown_schedule_ms ::
  "(byte list \<Rightarrow> byte list) \<Rightarrow> key_health_key \<Rightarrow> route_failure_class \<Rightarrow> duration \<Rightarrow> nat list" where
  "key_cooldown_schedule_ms sha key class first_strike =
    (let maxd = (if class = Credentials then key_cooldown_max else route_cooldown_max)
     in map (\<lambda>step. duration_millis_saturating
               (key_cooldown sha class step key maxd first_strike)) [1..<18])"

definition concurrency_probe_schedule_ms :: "duration list \<Rightarrow> nat list" where
  "concurrency_probe_schedule_ms delays =
    map (\<lambda>step. duration_millis_saturating (sequence_delay delays step)) [1..<18]"

section \<open>Bounds of the curves\<close>

lemma jitter_percent_bounds:
  "80 \<le> 80 + n mod (41::nat)" "80 + n mod (41::nat) \<le> 120"
  using mod_less_divisor [of 41 n] by simp_all

lemma jittered_backoff_le_max: "jittered_backoff sha base step maxd material \<le> maxd"
  by (simp add: jittered_backoff_def Let_def min.coboundedI1)

text \<open>
  Below the caps the backoff is the exponential value scaled by 80\% to 120\%, so it never
  drops under four fifths of the base.
\<close>

lemma jittered_backoff_ge:
  assumes base: "base \<le> duration_max" and maxd: "80 * base div 100 \<le> maxd"
    and small: "80 * base div 100 \<le> u64_max"
  shows "80 * base div 100 \<le> jittered_backoff sha base step maxd material"
proof -
  let ?m = "2 ^ min (step - 1) (16::nat) :: nat"
  let ?j = "80 + u64_from_be_bytes (take 8 (sha material)) mod 41"
  have m: "1 \<le> ?m" by simp
  have big: "base * 120 \<le> u128_max"
    using base by (simp add: duration_max_def u64_max_def u128_max_def)
  have n: "base \<le> u128_saturating_mul base ?m"
    using m big by (simp add: u128_saturating_mul_def)
  have "80 * base \<le> u128_saturating_mul (u128_saturating_mul base ?m) ?j"
  proof -
    have "80 * base \<le> ?j * u128_saturating_mul base ?m"
      using n by (intro mult_le_mono) simp_all
    then show ?thesis
      using big unfolding u128_saturating_mul_def [of "u128_saturating_mul base ?m" ?j]
      by (simp add: mult.commute)
  qed
  then have "80 * base div 100 \<le> u128_saturating_mul (u128_saturating_mul base ?m) ?j div 100"
    by (rule div_le_mono)
  then show ?thesis
    using maxd small by (simp add: jittered_backoff_def Let_def)
qed

definition route_cooldown_ceiling :: "route_failure_class \<Rightarrow> duration \<Rightarrow> duration" where
  "route_cooldown_ceiling class tmax =
    (if class = ConcurrencySaturated then route_cooldown_max
     else snd (route_cooldown_bounds class 0 tmax))"

lemma snd_route_cooldown_bounds:
  "snd (route_cooldown_bounds class b tmax) = snd (route_cooldown_bounds class 0 tmax)"
  by (cases "class") simp_all

lemma route_cooldown_le_ceiling:
  "route_cooldown_with_concurrency_delays sha class step route delays tbase tmax
     \<le> route_cooldown_ceiling class tmax"
proof (cases "class = ConcurrencySaturated")
  case True
  then show ?thesis
    by (simp add: route_cooldown_with_concurrency_delays_def route_cooldown_ceiling_def)
next
  case False
  have "route_cooldown sha class step route tbase tmax
      \<le> snd (route_cooldown_bounds class tbase tmax)"
    by (simp add: route_cooldown_def case_prod_unfold Let_def jittered_backoff_le_max)
  with False show ?thesis
    by (simp add: route_cooldown_with_concurrency_delays_def route_cooldown_ceiling_def
        snd_route_cooldown_bounds [of "class" tbase])
qed

lemma failure_step_ge_1: "1 \<le> failure_step s class now rep m shared"
  by (simp add: failure_step_def Let_def route_half_open_failure_step_cap_def)

lemma normalize_delays_nonempty [simp]: "normalize_concurrency_probe_delays vals \<noteq> []"
  by (simp add: normalize_concurrency_probe_delays_def default_concurrency_probe_delays_ms_def)

lemma no_descent_sorted: "\<not> has_descent xs \<longleftrightarrow> sorted xs"
proof (induction xs rule: has_descent.induct)
  case (1 a b xs)
  then show ?case by (fastforce simp: not_less)
qed simp_all

lemma normalize_delays_sorted: "sorted (normalize_concurrency_probe_delays vals)"
proof -
  have m: "sorted (map from_millis xs)" if "sorted xs" for xs
    using that by (simp add: sorted_iff_nth_mono from_millis_def)
  show ?thesis
    using no_descent_sorted [of vals]
    by (auto simp: normalize_concurrency_probe_delays_def Let_def intro!: m)
      (simp_all add: default_concurrency_probe_delays_ms_def)
qed

lemma normalize_delays_range:
  assumes "d \<in> set (normalize_concurrency_probe_delays vals)"
  shows "from_millis 1 \<le> d" "d \<le> from_millis 60000"
  using assms
  by (auto simp: normalize_concurrency_probe_delays_def default_concurrency_probe_delays_ms_def
      list_ex_iff from_millis_def Let_def not_less split: if_splits)

lemma sequence_delay_in: "delays \<noteq> [] \<Longrightarrow> sequence_delay delays step \<in> set delays"
  by (simp add: sequence_delay_def Let_def)

lemma sequence_delay_mono:
  assumes "sorted delays" "i \<le> j"
  shows "sequence_delay delays i \<le> sequence_delay delays j"
proof (cases "delays = []")
  case True
  then show ?thesis by (simp add: sequence_delay_def)
next
  case False
  have l: "delays ! k \<le> last delays" if "k < length delays" for k
    using that assms(1) False by (simp add: last_conv_nth sorted_nth_mono)
  show ?thesis
    using assms False l by (auto simp: sequence_delay_def Let_def intro!: sorted_nth_mono)
qed

end
