(* ===== verification/Route_Health_Registry.thy ===== *)
theory Route_Health_Registry
  imports Route_Cooldown
begin

text \<open>
  The process-local route health registry (\<open>src/src/state/route_health.rs\<close>,
  \<open>RouteHealthRegistry\<close>): admission with half-open leases, the outcomes that open and close
  cooldowns, the bounded tables with their eviction, and the read-only views. Every method
  takes the instant that the Rust code reads with \<open>Instant::now()\<close> as an argument. The hash
  map iteration order is the order of the association list.
\<close>

section \<open>State\<close>

record aggregate_state =
  ag_consecutive_failures :: nat
  ag_last_failure_class :: "route_failure_class option"
  ag_last_failure_at :: "instant option"
  ag_cooldown_until :: "instant option"
  ag_last_access :: instant

record route_health_registry =
  rg_routes :: "(route_health_key, health_state) hashmap"
  rg_keys :: "(key_health_key, health_state) hashmap"
  rg_aggregates :: "(route_set_aggregate_key, aggregate_state) hashmap"
  rg_route_capacity :: nat
  rg_per_upstream_capacity :: nat
  rg_next_generation :: nat
  rg_concurrency_probe_delays :: "duration list"
  rg_transient_route_cooldown_base :: duration
  rg_transient_route_cooldown_max :: duration
  rg_transient_route_cooldown_max_step :: nat
  rg_half_open_ttl :: duration
  rg_half_open_exclusive_window :: duration
  rg_credentials_first_strike :: duration
  rg_capacity_failure_cooldown_enabled :: bool
  rg_enforcement_enabled :: bool
  rg_cooldown_skipped_total :: "(string, nat) hashmap"

section \<open>Construction and tuning\<close>

record route_health_tuning =
  tn_concurrency_probe_delays_ms :: "nat list"
  tn_transient_route_cooldown_base_seconds :: nat
  tn_transient_route_cooldown_max_seconds :: nat
  tn_transient_route_cooldown_max_step :: nat
  tn_half_open_ttl_seconds :: nat
  tn_half_open_exclusive_window_ms :: nat
  tn_credentials_first_strike_seconds :: nat
  tn_capacity_failure_cooldown_enabled :: bool
  tn_route_health_enforcement_enabled :: bool

definition clamp_step :: "nat \<Rightarrow> nat" where
  "clamp_step n = max 1 (min n 8)"

definition new_with_runtime_tuning_and_enforcement ::
  "nat \<Rightarrow> nat \<Rightarrow> route_health_tuning \<Rightarrow> route_health_registry" where
  "new_with_runtime_tuning_and_enforcement route_capacity per_upstream_capacity t =
    (let base_seconds = max (tn_transient_route_cooldown_base_seconds t) 1;
         max_seconds = max (tn_transient_route_cooldown_max_seconds t) base_seconds
     in \<lparr>rg_routes = [], rg_keys = [], rg_aggregates = [],
         rg_route_capacity = max route_capacity 1,
         rg_per_upstream_capacity = max per_upstream_capacity 1,
         rg_next_generation = 0,
         rg_concurrency_probe_delays =
           normalize_concurrency_probe_delays (tn_concurrency_probe_delays_ms t),
         rg_transient_route_cooldown_base = from_secs base_seconds,
         rg_transient_route_cooldown_max = from_secs max_seconds,
         rg_transient_route_cooldown_max_step = clamp_step (tn_transient_route_cooldown_max_step t),
         rg_half_open_ttl = from_secs (max (tn_half_open_ttl_seconds t) 1),
         rg_half_open_exclusive_window = from_millis (tn_half_open_exclusive_window_ms t),
         rg_credentials_first_strike = from_secs (max (tn_credentials_first_strike_seconds t) 1),
         rg_capacity_failure_cooldown_enabled = tn_capacity_failure_cooldown_enabled t,
         rg_enforcement_enabled = tn_route_health_enforcement_enabled t,
         rg_cooldown_skipped_total = []\<rparr>)"

definition default_tuning :: route_health_tuning where
  "default_tuning =
    \<lparr>tn_concurrency_probe_delays_ms = default_concurrency_probe_delays_ms,
     tn_transient_route_cooldown_base_seconds = 5,
     tn_transient_route_cooldown_max_seconds = 5 * 60,
     tn_transient_route_cooldown_max_step = 2,
     tn_half_open_ttl_seconds = 300,
     tn_half_open_exclusive_window_ms = 3000,
     tn_credentials_first_strike_seconds = 60,
     tn_capacity_failure_cooldown_enabled = False,
     tn_route_health_enforcement_enabled = True\<rparr>"

definition new_with_concurrency_probe_delays ::
  "nat \<Rightarrow> nat \<Rightarrow> nat list \<Rightarrow> route_health_registry" where
  "new_with_concurrency_probe_delays route_capacity per_upstream_capacity delays_ms =
    new_with_runtime_tuning_and_enforcement route_capacity per_upstream_capacity
      (default_tuning\<lparr>tn_concurrency_probe_delays_ms := delays_ms\<rparr>)"

definition registry_new :: "nat \<Rightarrow> nat \<Rightarrow> route_health_registry" where
  "registry_new route_capacity per_upstream_capacity =
    new_with_concurrency_probe_delays route_capacity per_upstream_capacity
      default_concurrency_probe_delays_ms"

definition registry_default :: route_health_registry where
  "registry_default = registry_new 16384 4096"

definition cap_deadline :: "instant \<Rightarrow> instant option \<Rightarrow> instant option" where
  "cap_deadline limit d = (if is_some_and d (\<lambda>u. u > limit) then Some limit else d)"

definition update_runtime_tuning ::
  "route_health_registry \<Rightarrow> route_health_tuning \<Rightarrow> instant \<Rightarrow> route_health_registry" where
  "update_runtime_tuning r t now =
    (let base = from_secs (max (tn_transient_route_cooldown_base_seconds t) 1);
         maxd = from_secs (max (max (tn_transient_route_cooldown_max_seconds t)
                                   (tn_transient_route_cooldown_base_seconds t)) 1);
         half_open_ttl = from_secs (max (tn_half_open_ttl_seconds t) 1);
         window = from_millis (tn_half_open_exclusive_window_ms t);
         cap_half_open = (\<lambda>s. s\<lparr>
           hs_half_open_expires_at := cap_deadline (now + half_open_ttl) (hs_half_open_expires_at s),
           hs_half_open_exclusive_until :=
             cap_deadline (now + window) (hs_half_open_exclusive_until s)\<rparr>);
         cap_cooldown = (\<lambda>s.
           if hs_last_failure_class s = Some TransientServer
           then s\<lparr>hs_cooldown_until := cap_deadline (now + maxd) (hs_cooldown_until s)\<rparr>
           else s)
     in r\<lparr>rg_concurrency_probe_delays :=
            normalize_concurrency_probe_delays (tn_concurrency_probe_delays_ms t),
          rg_transient_route_cooldown_base := base,
          rg_transient_route_cooldown_max := maxd,
          rg_transient_route_cooldown_max_step := clamp_step (tn_transient_route_cooldown_max_step t),
          rg_half_open_ttl := half_open_ttl,
          rg_half_open_exclusive_window := window,
          rg_credentials_first_strike := from_secs (max (tn_credentials_first_strike_seconds t) 1),
          rg_capacity_failure_cooldown_enabled := tn_capacity_failure_cooldown_enabled t,
          rg_enforcement_enabled := tn_route_health_enforcement_enabled t,
          rg_routes := hm_map_values (\<lambda>s. cap_half_open (cap_cooldown s)) (rg_routes r),
          rg_keys := hm_map_values cap_half_open (rg_keys r)\<rparr>)"

definition set_route_health_enforcement_enabled ::
  "route_health_registry \<Rightarrow> bool \<Rightarrow> route_health_registry" where
  "set_route_health_enforcement_enabled r enabled = r\<lparr>rg_enforcement_enabled := enabled\<rparr>"

section \<open>Half-open generations\<close>

definition next_generation :: "route_health_registry \<Rightarrow> nat \<times> route_health_registry" where
  "next_generation r =
    (let g = max (u64_wrapping_add (rg_next_generation r) 1) 1
     in (g, r\<lparr>rg_next_generation := g\<rparr>))"

definition can_reserve_half_open :: "health_state \<Rightarrow> instant \<Rightarrow> bool" where
  "can_reserve_half_open s now =
    (hs_last_failure_class s \<noteq> None
     \<and> is_some_and (hs_cooldown_until s) (\<lambda>u. u \<le> now)
     \<and> (hs_half_open_generation s = None
         \<or> is_none_or (hs_half_open_expires_at s) (\<lambda>e. e \<le> now)))"

definition open_half_open ::
  "nat \<Rightarrow> duration \<Rightarrow> duration \<Rightarrow> instant \<Rightarrow> health_state \<Rightarrow> health_state" where
  "open_half_open g ttl window now s =
    s\<lparr>hs_half_open_generation := Some g,
      hs_half_open_expires_at := Some (now + ttl),
      hs_half_open_exclusive_until := Some (now + window),
      hs_last_access := now\<rparr>"

definition reserve_expired_half_open_key ::
  "route_health_registry \<Rightarrow> key_health_key \<Rightarrow> instant \<Rightarrow> nat option \<times> route_health_registry" where
  "reserve_expired_half_open_key r key now =
    (if \<not> is_some_and (map_of (rg_keys r) key) (\<lambda>s. can_reserve_half_open s now)
     then (None, r)
     else (let (g, r') = next_generation r in
       (Some g, r'\<lparr>rg_keys := hm_modify key
          (open_half_open g (rg_half_open_ttl r') (rg_half_open_exclusive_window r') now)
          (rg_keys r')\<rparr>)))"

definition reserve_expired_half_open_route ::
  "route_health_registry \<Rightarrow> route_health_key \<Rightarrow> instant \<Rightarrow> nat option \<times> route_health_registry" where
  "reserve_expired_half_open_route r route now =
    (if \<not> is_some_and (map_of (rg_routes r) route) (\<lambda>s. can_reserve_half_open s now)
     then (None, r)
     else (let (g, r') = next_generation r in
       (Some g, r'\<lparr>rg_routes := hm_modify route
          (open_half_open g (rg_half_open_ttl r') (rg_half_open_exclusive_window r') now)
          (rg_routes r')\<rparr>)))"

section \<open>Admission\<close>

text \<open>
  The block that \<open>reserve\<close> runs on the key's state and again on the route's state: a cooling
  entry or an exclusively held half-open lease ends the call with an unavailable answer, an
  expired lease is dropped. The result is the entry's new state and the early answer, if any.
\<close>

definition admission_gate ::
  "string \<Rightarrow> string \<Rightarrow> instant \<Rightarrow> health_state \<Rightarrow>
   (health_state \<times> health_lease route_availability option) outcome_or_panic" where
  "admission_gate cooling_msg half_open_msg now s0 =
    (let s = s0\<lparr>hs_last_access := now\<rparr> in
     if is_cooling s now
     then bind_ok (expect cooling_msg (hs_last_failure_class s))
       (\<lambda>class. Inr (s, Some (Cooling class (hs_retry_after s now) (hs_last_failure_status s))))
     else if hs_half_open_generation s \<noteq> None
     then (if is_none_or (hs_half_open_expires_at s) (\<lambda>e. e \<le> now)
           then Inr (drop_half_open s, None)
           else if is_some_and (hs_half_open_exclusive_until s) (\<lambda>u. u > now)
           then bind_ok (expect half_open_msg (hs_last_failure_class s))
             (\<lambda>class. Inr (s, Some (HalfOpenBusy class half_open_busy_retry
                                      (hs_last_failure_status s))))
           else Inr (s, None))
     else Inr (s, None))"

definition touch_entries ::
  "route_health_registry \<Rightarrow> route_health_key \<Rightarrow> key_health_key \<Rightarrow> instant \<Rightarrow>
   route_health_registry" where
  "touch_entries r route key now =
    r\<lparr>rg_keys := hm_modify key (\<lambda>s. s\<lparr>hs_last_access := now\<rparr>) (rg_keys r),
      rg_routes := hm_modify route (\<lambda>s. s\<lparr>hs_last_access := now\<rparr>) (rg_routes r)\<rparr>"

definition passthrough_lease ::
  "route_health_registry \<Rightarrow> route_health_key \<Rightarrow> key_health_key \<Rightarrow> health_lease" where
  "passthrough_lease r route key =
    \<lparr>hl_route = route, hl_key = key, hl_key_generation = None, hl_route_generation = None,
     hl_route_state_generation = map_option hs_state_generation (map_of (rg_routes r) route),
     hl_half_open = False\<rparr>"

definition gate_key ::
  "route_health_registry \<Rightarrow> key_health_key \<Rightarrow> instant \<Rightarrow>
   (route_health_registry \<times> health_lease route_availability option) outcome_or_panic" where
  "gate_key r key now =
    (case map_of (rg_keys r) key of
       None \<Rightarrow> Inr (r, None)
     | Some s \<Rightarrow>
         bind_ok (admission_gate ''cooling key health must retain its failure class''
                    ''half-open key health must retain its failure class'' now s)
           (\<lambda>(s', early). Inr (r\<lparr>rg_keys := AList.update key s' (rg_keys r)\<rparr>, early)))"

definition gate_route ::
  "route_health_registry \<Rightarrow> route_health_key \<Rightarrow> instant \<Rightarrow>
   (route_health_registry \<times> health_lease route_availability option) outcome_or_panic" where
  "gate_route r route now =
    (case map_of (rg_routes r) route of
       None \<Rightarrow> Inr (r, None)
     | Some s \<Rightarrow>
         bind_ok (admission_gate ''cooling route health must retain its failure class''
                    ''half-open route health must retain its failure class'' now s)
           (\<lambda>(s', early). Inr (r\<lparr>rg_routes := AList.update route s' (rg_routes r)\<rparr>, early)))"

definition grant_lease ::
  "route_health_registry \<Rightarrow> route_health_key \<Rightarrow> key_health_key \<Rightarrow> instant \<Rightarrow>
   health_lease \<times> route_health_registry" where
  "grant_lease r route key now =
    (let route_state_generation = map_option hs_state_generation (map_of (rg_routes r) route);
         (key_generation, r1) = reserve_expired_half_open_key r key now;
         (route_generation, r2) = reserve_expired_half_open_route r1 route now
     in (\<lparr>hl_route = route, hl_key = key, hl_key_generation = key_generation,
          hl_route_generation = route_generation,
          hl_route_state_generation = route_state_generation,
          hl_half_open = (key_generation \<noteq> None \<or> route_generation \<noteq> None)\<rparr>, r2))"

definition reserve ::
  "route_health_registry \<Rightarrow> route_health_key \<Rightarrow> key_health_key \<Rightarrow> instant \<Rightarrow>
   (health_lease route_availability \<times> route_health_registry) outcome_or_panic" where
  "reserve r route key now =
    (if \<not> rg_enforcement_enabled r
     then (let r' = touch_entries r route key now
           in Inr (Ready (passthrough_lease r' route key), r'))
     else bind_ok (gate_key r key now) (\<lambda>(r1, early).
       case early of
         Some answer \<Rightarrow> Inr (answer, r1)
       | None \<Rightarrow> bind_ok (gate_route r1 route now) (\<lambda>(r2, early).
           case early of
             Some answer \<Rightarrow> Inr (answer, r2)
           | None \<Rightarrow> (let (lease, r3) = grant_lease r2 route key now
                      in Inr (Ready lease, r3)))))"

section \<open>The last-resort early probe\<close>

text \<open>
  \<open>reserve_route_health_probe\<close> unwraps the route's failure class before it looks at the
  cooldown, exactly as the source does.
\<close>

definition probe_key_gate ::
  "route_health_registry \<Rightarrow> key_health_key \<Rightarrow> instant \<Rightarrow>
   (route_health_registry \<times> health_lease route_availability option) outcome_or_panic" where
  "probe_key_gate r key now =
    (case map_of (rg_keys r) key of
       None \<Rightarrow> Inr (r, None)
     | Some s0 \<Rightarrow>
         (let s = s0\<lparr>hs_last_access := now\<rparr>;
              r' = r\<lparr>rg_keys := AList.update key s (rg_keys r)\<rparr>
          in if is_cooling s now
             then bind_ok (expect ''cooling key health must retain its failure class''
                             (hs_last_failure_class s))
               (\<lambda>class. Inr (r', Some (Cooling class (hs_retry_after s now)
                                         (hs_last_failure_status s))))
             else if is_active s now
             then bind_ok (expect ''half-open key health must retain its failure class''
                             (hs_last_failure_class s))
               (\<lambda>class. Inr (r', Some (HalfOpenBusy class half_open_busy_retry
                                         (hs_last_failure_status s))))
             else Inr (r', None)))"

definition early_probe_refusal ::
  "health_state \<Rightarrow> route_failure_class \<Rightarrow> instant \<Rightarrow> health_lease route_availability option" where
  "early_probe_refusal s class now =
    (if is_active s now
     then Some (HalfOpenBusy class half_open_busy_retry (hs_last_failure_status s))
     else if \<not> is_cooling s now
     then Some (Cooling class 0 (hs_last_failure_status s))
     else (case hs_last_early_probe_at s of
             None \<Rightarrow> None
           | Some last_probe \<Rightarrow>
               (let elapsed = saturating_duration_since now last_probe in
                if elapsed < half_open_busy_retry
                then Some (HalfOpenBusy class (max (half_open_busy_retry - elapsed) (from_millis 1))
                             (hs_last_failure_status s))
                else None)))"

definition open_early_probe ::
  "nat \<Rightarrow> instant option \<Rightarrow> duration \<Rightarrow> duration \<Rightarrow> instant \<Rightarrow> health_state \<Rightarrow> health_state" where
  "open_early_probe g cooldown_until ttl window now s =
    s\<lparr>hs_half_open_generation := Some g,
      hs_half_open_expires_at := Some (now + ttl),
      hs_half_open_exclusive_until :=
        Some (min (max (case cooldown_until of None \<Rightarrow> now | Some u \<Rightarrow> u) (now + window))
                  (now + ttl)),
      hs_last_early_probe_at := Some now\<rparr>"

definition grant_early_probe ::
  "route_health_registry \<Rightarrow> route_health_key \<Rightarrow> key_health_key \<Rightarrow> health_state \<Rightarrow> instant \<Rightarrow>
   health_lease \<times> route_health_registry" where
  "grant_early_probe r route key s now =
    (let (key_generation, r1) = reserve_expired_half_open_key r key now;
         (route_generation, r2) = next_generation r1
     in (\<lparr>hl_route = route, hl_key = key, hl_key_generation = key_generation,
          hl_route_generation = Some route_generation,
          hl_route_state_generation = Some (hs_state_generation s),
          hl_half_open = True\<rparr>,
         r2\<lparr>rg_routes := hm_modify route
              (open_early_probe route_generation (hs_cooldown_until s) (rg_half_open_ttl r2)
                 (rg_half_open_exclusive_window r2) now) (rg_routes r2)\<rparr>))"

definition reserve_route_health_probe ::
  "route_health_registry \<Rightarrow> route_health_key \<Rightarrow> key_health_key \<Rightarrow> instant \<Rightarrow>
   (health_lease route_availability \<times> route_health_registry) outcome_or_panic" where
  "reserve_route_health_probe r route key now =
    (if \<not> rg_enforcement_enabled r
     then (let r' = touch_entries r route key now
           in Inr (Ready (passthrough_lease r' route key), r'))
     else bind_ok (probe_key_gate r key now) (\<lambda>(r1, early).
       case early of
         Some answer \<Rightarrow> Inr (answer, r1)
       | None \<Rightarrow>
           (case map_of (rg_routes r1) route of
              None \<Rightarrow> Inr (Cooling TransientServer 0 None, r1)
            | Some s0 \<Rightarrow>
                (let s = s0\<lparr>hs_last_access := now\<rparr>;
                     r2 = r1\<lparr>rg_routes := AList.update route s (rg_routes r1)\<rparr>
                 in bind_ok (expect ''cooling route health must retain its failure class''
                               (hs_last_failure_class s))
                   (\<lambda>class.
                      case early_probe_refusal s class now of
                        Some answer \<Rightarrow> Inr (answer, r2)
                      | None \<Rightarrow> (let (lease, r3) = grant_early_probe r2 route key s now
                                 in Inr (Ready lease, r3)))))))"

section \<open>Bounded tables\<close>

definition count_upstream :: "('k \<Rightarrow> string) \<Rightarrow> string \<Rightarrow> ('k, 'v) hashmap \<Rightarrow> nat" where
  "count_upstream upstream_of u m = length (filter (\<lambda>k. upstream_of k = u) (hm_keys m))"

definition key_eviction_candidate ::
  "route_health_registry \<Rightarrow> key_health_key \<Rightarrow> bool \<Rightarrow> instant \<Rightarrow>
   (key_health_key \<times> health_state) option" where
  "key_eviction_candidate r key upstream_full now =
    min_by_key (\<lambda>(k, s). (is_cooling s now, hs_last_access s))
      (filter (\<lambda>(k, s). \<not> is_active s now)
        (filter (\<lambda>(k, s). \<not> upstream_full \<or> kk_upstream_id k = kk_upstream_id key)
          (rg_keys r)))"

definition ensure_key_capacity ::
  "route_health_registry \<Rightarrow> key_health_key \<Rightarrow> instant \<Rightarrow> bool \<times> route_health_registry" where
  "ensure_key_capacity r key now =
    (if hm_contains (rg_keys r) key then (True, r)
     else
       (let upstream_count = count_upstream kk_upstream_id (kk_upstream_id key) (rg_keys r);
            global_full = length (rg_keys r) \<ge> rg_route_capacity r;
            upstream_full = upstream_count \<ge> rg_per_upstream_capacity r
        in if \<not> global_full \<and> \<not> upstream_full then (True, r)
           else (case key_eviction_candidate r key upstream_full now of
                   Some (candidate, _) \<Rightarrow>
                     (True, r\<lparr>rg_keys := AList.delete candidate (rg_keys r)\<rparr>)
                 | None \<Rightarrow> (False, r))))"

definition route_eviction_candidate ::
  "route_health_registry \<Rightarrow> route_health_key \<Rightarrow> bool \<Rightarrow> instant \<Rightarrow>
   (route_health_key \<times> health_state) option" where
  "route_eviction_candidate r route upstream_full now =
    (let scoped = filter (\<lambda>(k, s). \<not> is_active s now)
           (filter (\<lambda>(k, s). \<not> upstream_full \<or> rk_upstream_id k = rk_upstream_id route)
             (rg_routes r))
     in case min_by_key (\<lambda>(k, s). hs_last_access s)
               (filter (\<lambda>(k, s). \<not> is_cooling s now) scoped) of
          Some c \<Rightarrow> Some c
        | None \<Rightarrow> min_by_key (\<lambda>(k, s). hs_last_access s) scoped)"

definition ensure_route_capacity ::
  "route_health_registry \<Rightarrow> route_health_key \<Rightarrow> instant \<Rightarrow> bool \<times> route_health_registry" where
  "ensure_route_capacity r route now =
    (if hm_contains (rg_routes r) route then (True, r)
     else
       (let upstream_count = count_upstream rk_upstream_id (rk_upstream_id route) (rg_routes r);
            global_full = length (rg_routes r) \<ge> rg_route_capacity r;
            upstream_full = upstream_count \<ge> rg_per_upstream_capacity r
        in if global_full \<or> upstream_full
           then (case route_eviction_candidate r route upstream_full now of
                   None \<Rightarrow> (False, r)
                 | Some (candidate, _) \<Rightarrow>
                     (True, r\<lparr>rg_routes := AList.delete candidate (rg_routes r)\<rparr>))
           else (True, r)))"

section \<open>Clearing and releasing\<close>

definition clear_route ::
  "route_health_registry \<Rightarrow> route_health_key \<Rightarrow> instant \<Rightarrow> route_health_registry" where
  "clear_route r route now =
    r\<lparr>rg_routes := hm_modify route (\<lambda>s. hs_clear s now) (rg_routes r)\<rparr>"

definition clear_key ::
  "route_health_registry \<Rightarrow> key_health_key \<Rightarrow> instant \<Rightarrow> route_health_registry" where
  "clear_key r key now =
    r\<lparr>rg_keys := hm_modify key (\<lambda>s. hs_clear s now) (rg_keys r)\<rparr>"

definition owns_observation :: "health_lease \<Rightarrow> health_state \<Rightarrow> bool" where
  "owns_observation lease s =
    ((hl_route_generation lease \<noteq> None
        \<and> hs_half_open_generation s = hl_route_generation lease)
     \<or> (hl_route_generation lease = None
        \<and> hl_route_state_generation lease = Some (hs_state_generation s)))"

definition clear_route_for_success ::
  "route_health_registry \<Rightarrow> health_lease \<Rightarrow> instant \<Rightarrow> route_health_registry" where
  "clear_route_for_success r lease now =
    r\<lparr>rg_routes := hm_modify (hl_route lease)
        (\<lambda>s. if owns_observation lease s then hs_clear s now else s) (rg_routes r)\<rparr>"

definition release_route_lease ::
  "route_health_registry \<Rightarrow> route_health_key \<Rightarrow> nat option \<Rightarrow> instant \<Rightarrow>
   route_health_registry" where
  "release_route_lease r route generation now =
    r\<lparr>rg_routes := hm_modify route (\<lambda>s. release_half_open s generation now) (rg_routes r)\<rparr>"

definition release_key_lease ::
  "route_health_registry \<Rightarrow> key_health_key \<Rightarrow> nat option \<Rightarrow> instant \<Rightarrow>
   route_health_registry" where
  "release_key_lease r key generation now =
    r\<lparr>rg_keys := hm_modify key (\<lambda>s. release_half_open s generation now) (rg_keys r)\<rparr>"

definition holds_concurrency_probe :: "health_lease \<Rightarrow> health_state \<Rightarrow> bool" where
  "holds_concurrency_probe lease s =
    (hs_last_failure_class s = Some ConcurrencySaturated
     \<and> hl_route_generation lease \<noteq> None
     \<and> hs_half_open_generation s = hl_route_generation lease)"

definition reapply_concurrency_probe_delay ::
  "route_health_registry \<Rightarrow> health_lease \<Rightarrow> instant \<Rightarrow> bool \<times> route_health_registry" where
  "reapply_concurrency_probe_delay r lease now =
    (case map_of (rg_routes r) (hl_route lease) of
       None \<Rightarrow> (False, r)
     | Some s \<Rightarrow>
         if holds_concurrency_probe lease s
         then (let delay = sequence_delay (rg_concurrency_probe_delays r)
                             (hs_consecutive_failures s)
               in (True, r\<lparr>rg_routes := AList.update (hl_route lease)
                    ((drop_half_open s)\<lparr>hs_cooldown_until := Some (now + delay),
                                       hs_last_access := now\<rparr>) (rg_routes r)\<rparr>))
         else (False, r))"

definition remove_cleared_route_and_key ::
  "route_health_registry \<Rightarrow> route_health_key \<Rightarrow> key_health_key \<Rightarrow> route_health_registry" where
  "remove_cleared_route_and_key r route key =
    r\<lparr>rg_routes := (if is_some_and (map_of (rg_routes r) route) is_clear
                     then AList.delete route (rg_routes r) else rg_routes r),
      rg_keys := (if is_some_and (map_of (rg_keys r) key) is_clear
                   then AList.delete key (rg_keys r) else rg_keys r)\<rparr>"

section \<open>Observed failures\<close>

definition count_cooldown_skip :: "route_health_registry \<Rightarrow> string \<Rightarrow> route_health_registry" where
  "count_cooldown_skip r upstream_id =
    r\<lparr>rg_cooldown_skipped_total := AList.update upstream_id
        (hm_entry_or upstream_id 0 (rg_cooldown_skipped_total r) + 1)
        (rg_cooldown_skipped_total r)\<rparr>"

definition observe_capacity_route_failure_at ::
  "route_health_registry \<Rightarrow> route_health_key \<Rightarrow> route_failure_class \<Rightarrow> nat option \<Rightarrow> instant \<Rightarrow>
   route_health_registry" where
  "observe_capacity_route_failure_at r route class upstream_status now =
    (let (fits, r1) = ensure_route_capacity r route now in
     if \<not> fits then r1
     else (let r2 = count_cooldown_skip r1 (rk_upstream_id route);
               s = hm_entry_or route (health_state_new now) (rg_routes r2)
           in r2\<lparr>rg_routes := AList.update route
                  (s\<lparr>hs_last_failure_class := Some class,
                     hs_last_failure_status := upstream_status,
                     hs_last_failure_at := Some now,
                     hs_last_access := now\<rparr>) (rg_routes r2)\<rparr>))"

definition observe_capacity_key_failure_at ::
  "route_health_registry \<Rightarrow> key_health_key \<Rightarrow> route_failure_class \<Rightarrow> instant \<Rightarrow>
   route_health_registry" where
  "observe_capacity_key_failure_at r key class now =
    (let (fits, r1) = ensure_key_capacity r key now in
     if \<not> fits then r1
     else (let r2 = count_cooldown_skip r1 (kk_upstream_id key);
               s = hm_entry_or key (health_state_new now) (rg_keys r2)
           in r2\<lparr>rg_keys := AList.update key
                  (s\<lparr>hs_last_failure_class := Some class,
                     hs_last_failure_at := Some now,
                     hs_last_access := now\<rparr>) (rg_keys r2)\<rparr>))"

definition effective_cooldown ::
  "route_failure_class \<Rightarrow> duration option \<Rightarrow> duration \<Rightarrow> duration" where
  "effective_cooldown class retry_after local =
    (case retry_after of
       None \<Rightarrow> local
     | Some explicit \<Rightarrow> if class = ConcurrencySaturated then explicit else max explicit local)"

definition record_route_failure ::
  "(byte list \<Rightarrow> byte list) \<Rightarrow> route_health_registry \<Rightarrow> route_health_key \<Rightarrow> route_failure_class \<Rightarrow>
   duration option \<Rightarrow> nat option \<Rightarrow> instant \<Rightarrow> bool \<Rightarrow> bool \<Rightarrow> health_state \<Rightarrow> health_state" where
  "record_route_failure sha r route class retry_after upstream_status now effective_repeat
     shared_host_failure_domain s =
    (let shared_host = (shared_host_failure_domain \<and> is_shared_host_domain_class class);
         step = failure_step s class now effective_repeat
                  (rg_transient_route_cooldown_max_step r) shared_host;
         local = route_cooldown_with_concurrency_delays sha
                   (if shared_host then EdgeProxyError else class) step route
                   (rg_concurrency_probe_delays r) (rg_transient_route_cooldown_base r)
                   (rg_transient_route_cooldown_max r);
         cooldown = effective_cooldown class retry_after local
     in s\<lparr>hs_state_generation := max (u64_wrapping_add (hs_state_generation s) 1) 1,
          hs_consecutive_failures := step,
          hs_last_failure_class := Some class,
          hs_last_failure_status := upstream_status,
          hs_last_failure_at := Some now,
          hs_half_open_generation := None,
          hs_half_open_expires_at := None,
          hs_half_open_exclusive_until := None,
          hs_last_access := now,
          hs_cooldown_until := Some (now + cooldown)\<rparr>)"

definition observe_route_failure_at ::
  "(byte list \<Rightarrow> byte list) \<Rightarrow> route_health_registry \<Rightarrow> route_health_key \<Rightarrow> route_failure_class \<Rightarrow>
   duration option \<Rightarrow> instant \<Rightarrow> failure_context \<Rightarrow> route_health_registry" where
  "observe_route_failure_at sha r route class retry_after now ctx =
    (if \<not> route_failure_has_cooldown class then clear_route r route now
     else if is_capacity_class class
             \<and> (\<not> rg_capacity_failure_cooldown_enabled r \<or> fc_capacity_sole_route ctx)
     then observe_capacity_route_failure_at r route class (fc_upstream_status ctx) now
     else (let (fits, r1) = ensure_route_capacity r route now in
           if \<not> fits then r1
           else (let s = hm_entry_or route (health_state_new now) (rg_routes r1)
                 in r1\<lparr>rg_routes := AList.update route
                      (record_route_failure sha r1 route class retry_after
                         (fc_upstream_status ctx) now
                         (fc_repeat_within_request ctx \<or> fc_sole_candidate ctx)
                         (fc_shared_host_failure_domain ctx) s) (rg_routes r1)\<rparr>)))"

definition record_key_failure ::
  "(byte list \<Rightarrow> byte list) \<Rightarrow> route_health_registry \<Rightarrow> key_health_key \<Rightarrow> route_failure_class \<Rightarrow>
   duration option \<Rightarrow> instant \<Rightarrow> health_state \<Rightarrow> health_state" where
  "record_key_failure sha r key class retry_after now s =
    (let step = failure_step s class now False (rg_transient_route_cooldown_max_step r) False;
         maxd = (if class = Credentials then key_cooldown_max else route_cooldown_max);
         local = key_cooldown sha class step key maxd (rg_credentials_first_strike r);
         cooldown = (case retry_after of None \<Rightarrow> local | Some explicit \<Rightarrow> max explicit local)
     in s\<lparr>hs_consecutive_failures := step,
          hs_last_failure_class := Some class,
          hs_last_failure_at := Some now,
          hs_half_open_generation := None,
          hs_half_open_expires_at := None,
          hs_half_open_exclusive_until := None,
          hs_last_access := now,
          hs_cooldown_until := Some (now + cooldown)\<rparr>)"

definition observe_key_failure_at ::
  "(byte list \<Rightarrow> byte list) \<Rightarrow> route_health_registry \<Rightarrow> key_health_key \<Rightarrow> route_failure_class \<Rightarrow>
   duration option \<Rightarrow> instant \<Rightarrow> route_health_registry" where
  "observe_key_failure_at sha r key class retry_after now =
    (if \<not> key_failure_has_cooldown class then clear_key r key now
     else if is_capacity_class class \<and> \<not> rg_capacity_failure_cooldown_enabled r
     then observe_capacity_key_failure_at r key class now
     else (let (fits, r1) = ensure_key_capacity r key now in
           if \<not> fits then r1
           else (let s = hm_entry_or key (health_state_new now) (rg_keys r1)
                 in r1\<lparr>rg_keys := AList.update key
                      (record_key_failure sha r1 key class retry_after now s) (rg_keys r1)\<rparr>)))"

definition plain_context :: "bool \<Rightarrow> failure_context" where
  "plain_context shared_host_failure_domain =
    \<lparr>fc_upstream_status = None, fc_repeat_within_request = False, fc_sole_candidate = False,
     fc_capacity_sole_route = False,
     fc_shared_host_failure_domain = shared_host_failure_domain\<rparr>"

definition observe_route_failure ::
  "(byte list \<Rightarrow> byte list) \<Rightarrow> route_health_registry \<Rightarrow> route_health_key \<Rightarrow> route_failure_class \<Rightarrow>
   duration option \<Rightarrow> bool \<Rightarrow> instant \<Rightarrow> route_health_registry" where
  "observe_route_failure sha r route class retry_after shared_host_failure_domain now =
    observe_route_failure_at sha r route class retry_after now
      (plain_context shared_host_failure_domain)"

definition observe_key_failure ::
  "(byte list \<Rightarrow> byte list) \<Rightarrow> route_health_registry \<Rightarrow> key_health_key \<Rightarrow> route_failure_class \<Rightarrow>
   duration option \<Rightarrow> instant \<Rightarrow> route_health_registry" where
  "observe_key_failure sha r key class retry_after now =
    observe_key_failure_at sha r key class retry_after now"

definition clear_route_health ::
  "route_health_registry \<Rightarrow> route_health_key \<Rightarrow> instant \<Rightarrow> route_health_registry" where
  "clear_route_health r route now = clear_route r route now"

section \<open>Finishing a lease\<close>

fun finish ::
  "(byte list \<Rightarrow> byte list) \<Rightarrow> route_health_registry \<Rightarrow> health_lease \<Rightarrow> instant \<Rightarrow> route_outcome \<Rightarrow>
   route_health_registry" where
  "finish sha r lease now Success =
    (let r1 = clear_route_for_success r lease now
     in if hl_key_generation lease \<noteq> None then clear_key r1 (hl_key lease) now
        else release_key_lease r1 (hl_key lease) (hl_key_generation lease) now)"
| "finish sha r lease now (RouteFailure class ctx) =
    observe_route_failure_at sha
      (release_key_lease r (hl_key lease) (hl_key_generation lease) now)
      (hl_route lease) class None now ctx"
| "finish sha r lease now (RouteFailureWithRetry class retry_after ctx) =
    observe_route_failure_at sha
      (release_key_lease r (hl_key lease) (hl_key_generation lease) now)
      (hl_route lease) class (Some retry_after) now ctx"
| "finish sha r lease now (KeyFailure class) =
    observe_key_failure_at sha
      (release_route_lease r (hl_route lease) (hl_route_generation lease) now)
      (hl_key lease) class None now"
| "finish sha r lease now (KeyFailureWithRetry class retry_after) =
    observe_key_failure_at sha
      (release_route_lease r (hl_route lease) (hl_route_generation lease) now)
      (hl_key lease) class (Some retry_after) now"
| "finish sha r lease now (UncertainRouteFailure class) =
    (let r1 = release_key_lease r (hl_key lease) (hl_key_generation lease) now;
         (reapplied, r2) = reapply_concurrency_probe_delay r1 lease now
     in if reapplied then r2
        else observe_route_failure_at sha r2 (hl_route lease) class None now
               (plain_context False))"
| "finish sha r lease now Cancelled =
    (let (reapplied, r1) = reapply_concurrency_probe_delay r lease now;
         r2 = (if reapplied then r1
               else release_route_lease r1 (hl_route lease) (hl_route_generation lease) now)
     in release_key_lease r2 (hl_key lease) (hl_key_generation lease) now)"

section \<open>Aggregates and retention\<close>

definition observe_route_set_failure ::
  "route_health_registry \<Rightarrow> route_set_aggregate_key \<Rightarrow> route_failure_class \<Rightarrow> duration option \<Rightarrow>
   instant \<Rightarrow> route_health_registry" where
  "observe_route_set_failure r aggregate class retry_after now =
    (let full = length (rg_aggregates r) \<ge> rg_route_capacity r
                \<and> \<not> hm_contains (rg_aggregates r) aggregate;
         victim = min_by_key (\<lambda>(k, s). ag_last_access s) (rg_aggregates r)
     in if full \<and> victim = None then r
        else
          (let table = (case victim of
                          Some (k, _) \<Rightarrow> if full then AList.delete k (rg_aggregates r)
                                         else rg_aggregates r
                        | None \<Rightarrow> rg_aggregates r);
               s = hm_entry_or aggregate
                     \<lparr>ag_consecutive_failures = 0, ag_last_failure_class = None,
                      ag_last_failure_at = None, ag_cooldown_until = None,
                      ag_last_access = now\<rparr> table;
               step = (if is_some_and (ag_last_failure_at s)
                            (\<lambda>last. saturating_duration_since now last \<le> failure_streak_reset)
                          \<and> ag_last_failure_class s = Some class
                       then max (u32_saturating_add (ag_consecutive_failures s) 1) 1
                       else 1)
           in r\<lparr>rg_aggregates := AList.update aggregate
                  \<lparr>ag_consecutive_failures = step, ag_last_failure_class = Some class,
                   ag_last_failure_at = Some now,
                   ag_cooldown_until = map_option (\<lambda>d. now + d) retry_after,
                   ag_last_access = now\<rparr> table\<rparr>))"

definition retain_routes ::
  "route_health_registry \<Rightarrow> (route_health_key \<Rightarrow> bool) \<Rightarrow> (key_health_key \<Rightarrow> bool) \<Rightarrow>
   (route_set_aggregate_key \<Rightarrow> bool) \<Rightarrow> instant \<Rightarrow> route_health_registry" where
  "retain_routes r route_is_current key_is_current aggregate_is_current now =
    r\<lparr>rg_routes := hm_retain (\<lambda>k s. route_is_current k \<or> is_active s now) (rg_routes r),
      rg_keys := hm_retain (\<lambda>k s. key_is_current k \<or> is_active s now) (rg_keys r),
      rg_aggregates := hm_retain (\<lambda>k s. aggregate_is_current k) (rg_aggregates r)\<rparr>"

section \<open>Views\<close>

definition route_health_snapshot ::
  "route_health_registry \<Rightarrow> route_health_key \<Rightarrow> instant \<Rightarrow> health_state_snapshot option" where
  "route_health_snapshot r route now =
    map_option (\<lambda>s. health_snapshot s now) (map_of (rg_routes r) route)"

definition key_health_snapshot ::
  "route_health_registry \<Rightarrow> key_health_key \<Rightarrow> instant \<Rightarrow> health_state_snapshot option" where
  "key_health_snapshot r key now =
    map_option (\<lambda>s. health_snapshot s now) (map_of (rg_keys r) key)"

definition route_set_health_snapshot ::
  "route_health_registry \<Rightarrow> route_set_aggregate_key \<Rightarrow> instant \<Rightarrow> health_state_snapshot option" where
  "route_set_health_snapshot r aggregate now =
    map_option (\<lambda>s. \<lparr>sn_consecutive_failures = ag_consecutive_failures s,
        sn_last_failure_class = ag_last_failure_class s,
        sn_cooldown_remaining =
          (case ag_cooldown_until s of None \<Rightarrow> 0 | Some u \<Rightarrow> saturating_duration_since u now),
        sn_half_open = False, sn_half_open_remaining = 0\<rparr>)
      (map_of (rg_aggregates r) aggregate)"

definition key_of_route :: "route_health_key \<Rightarrow> key_health_key" where
  "key_of_route route =
    \<lparr>kk_upstream_id = rk_upstream_id route, kk_key_fingerprint = rk_key_fingerprint route\<rparr>"

definition recovery_key :: "route_recovery \<Rightarrow> nat \<times> string" where
  "recovery_key rec = (rr_retry_after rec, class_as_str (rr_class rec))"

definition option_list :: "'a option \<Rightarrow> 'a list" where
  "option_list v = (case v of None \<Rightarrow> [] | Some x \<Rightarrow> [x])"

definition temporary_recovery_for_route ::
  "route_health_registry \<Rightarrow> route_health_key \<Rightarrow> instant \<Rightarrow> route_recovery option" where
  "temporary_recovery_for_route r route now =
    (let recoveries = List.map_filter (\<lambda>s. health_state_recovery s now)
           (option_list (map_of (rg_keys r) (key_of_route route))
            @ option_list (map_of (rg_routes r) route))
     in if recoveries = [] \<or> list_ex (\<lambda>rec. \<not> is_temporary (rr_class rec)) recoveries
        then None
        else max_by_key recovery_key recoveries)"

definition earliest_temporary_recovery ::
  "route_health_registry \<Rightarrow> route_health_key list \<Rightarrow> instant \<Rightarrow> route_recovery option" where
  "earliest_temporary_recovery r routes now =
    min_by_key recovery_key
      (List.map_filter (\<lambda>route. temporary_recovery_for_route r route now) routes)"

record route_health_detail_dto =
  dt_upstream_id :: string
  dt_key_fingerprint :: string
  dt_runtime_model_slug :: string
  dt_protocol :: wire_protocol
  dt_cooldown_until_unix :: "nat option"
  dt_cooldown_remaining_ms :: nat
  dt_half_open :: bool
  dt_consecutive_failures :: nat
  dt_last_failure_class :: "string option"
  dt_last_failure_status :: "nat option"

definition route_health_detail_snapshots ::
  "route_health_registry \<Rightarrow> instant \<Rightarrow> nat \<Rightarrow> route_health_detail_dto list" where
  "route_health_detail_snapshots r now unix_seconds =
    map (\<lambda>(route, s).
      let cooldown_remaining = hs_retry_after s now in
      \<lparr>dt_upstream_id = rk_upstream_id route,
       dt_key_fingerprint = rk_key_fingerprint route,
       dt_runtime_model_slug = rk_runtime_model_slug route,
       dt_protocol = rk_protocol route,
       dt_cooldown_until_unix =
         (if cooldown_remaining \<noteq> 0
          then Some (u64_saturating_add unix_seconds (max (as_secs cooldown_remaining) 1))
          else None),
       dt_cooldown_remaining_ms = min (as_millis cooldown_remaining) u64_max,
       dt_half_open = (hs_half_open_generation s \<noteq> None
         \<and> is_some_and (hs_half_open_expires_at s) (\<lambda>e. e > now)),
       dt_consecutive_failures = hs_consecutive_failures s,
       dt_last_failure_class = map_option class_as_str (hs_last_failure_class s),
       dt_last_failure_status = hs_last_failure_status s\<rparr>) (rg_routes r)"

definition cooldown_skipped_total :: "route_health_registry \<Rightarrow> string \<Rightarrow> nat" where
  "cooldown_skipped_total r upstream_id = hm_entry_or upstream_id 0 (rg_cooldown_skipped_total r)"

end
