(* ===== verification/Bounded_Table.thy ===== *)
theory Bounded_Table
  imports Route_Health_Registry
begin

text \<open>
  The shape the route and key tables share: a hash map with a global bound and a bound per
  upstream, into which an entry is inserted after \<open>ensure_route_capacity\<close> or
  \<open>ensure_key_capacity\<close> made room for it.
\<close>

definition table_ok :: "('k \<Rightarrow> string) \<Rightarrow> nat \<Rightarrow> nat \<Rightarrow> ('k, 'v) hashmap \<Rightarrow> bool" where
  "table_ok up cap per m =
    (hm_ok m \<and> length m \<le> cap \<and> (\<forall>k\<in>set (hm_keys m). count_upstream up (up k) m \<le> per))"

definition has_room :: "('k \<Rightarrow> string) \<Rightarrow> nat \<Rightarrow> nat \<Rightarrow> 'k \<Rightarrow> ('k, 'v) hashmap \<Rightarrow> bool" where
  "has_room up cap per k m =
    (table_ok up cap per m
     \<and> (hm_contains m k \<or> (length m < cap \<and> count_upstream up (up k) m < per)))"

lemma count_upstream_keys_cong:
  "map fst m = map fst m' \<Longrightarrow> count_upstream up u m = count_upstream up u m'"
  by (simp add: count_upstream_def hm_keys_def)

lemma count_upstream_absent:
  "u \<notin> up ` set (hm_keys m) \<Longrightarrow> count_upstream up u m = 0"
  by (auto simp: count_upstream_def filter_empty_conv)

lemma table_ok_count: "table_ok up cap per m \<Longrightarrow> count_upstream up u m \<le> per"
  by (cases "u \<in> up ` set (hm_keys m)") (auto simp: table_ok_def count_upstream_absent)

lemma table_okI:
  "hm_ok m \<Longrightarrow> length m \<le> cap \<Longrightarrow> (\<And>u. count_upstream up u m \<le> per) \<Longrightarrow> table_ok up cap per m"
  by (simp add: table_ok_def)

lemma table_ok_Nil [simp]: "table_ok up cap per []"
  by (simp add: table_ok_def hm_keys_def)

lemma table_ok_same_keys:
  assumes "table_ok up cap per m" and "map fst m' = map fst m"
  shows "table_ok up cap per m'"
proof (rule table_okI)
  show "hm_ok m'" using assms by (simp add: table_ok_def hm_ok_def)
  have "length m' = length m" using assms(2) by (metis length_map)
  then show "length m' \<le> cap" using assms(1) by (simp add: table_ok_def)
  show "count_upstream up u m' \<le> per" for u
    using table_ok_count [OF assms(1)] count_upstream_keys_cong [OF assms(2)] by simp
qed

lemma table_ok_modify [simp]: "table_ok up cap per m \<Longrightarrow> table_ok up cap per (hm_modify k f m)"
  by (rule table_ok_same_keys) simp_all

lemma table_ok_map_values [simp]:
  "table_ok up cap per m \<Longrightarrow> table_ok up cap per (hm_map_values f m)"
  by (rule table_ok_same_keys) simp_all

lemma table_ok_update_present:
  "table_ok up cap per m \<Longrightarrow> map_of m k \<noteq> None \<Longrightarrow> table_ok up cap per (AList.update k v m)"
  by (rule table_ok_same_keys) (auto simp: map_fst_update)

lemma length_filter_filter_le: "length (filter p (filter q xs)) \<le> length (filter p xs)"
  by (induction xs) auto

lemma count_upstream_filter_le:
  "count_upstream up u (filter q m) \<le> count_upstream up u m"
proof (induction m)
  case Nil
  then show ?case by simp
next
  case (Cons a m)
  then show ?case by (auto simp: count_upstream_def hm_keys_def)
qed

lemma delete_as_filter: "AList.delete k m = filter (\<lambda>(k', v). k \<noteq> k') m"
  by (simp add: AList.delete_eq)

lemma table_ok_filter: "table_ok up cap per m \<Longrightarrow> table_ok up cap per (filter q m)"
proof (rule table_okI)
  assume a: "table_ok up cap per m"
  then show "hm_ok (filter q m)" by (simp add: table_ok_def hm_ok_def distinct_map_filter)
  show "length (filter q m) \<le> cap"
    using a length_filter_le [of q m] by (simp add: table_ok_def del: length_filter_le)
  show "count_upstream up u (filter q m) \<le> per" for u
    using count_upstream_filter_le [of up u q m] table_ok_count [OF a, of u] by simp
qed

lemma table_ok_delete [simp]: "table_ok up cap per m \<Longrightarrow> table_ok up cap per (AList.delete k m)"
  by (simp add: delete_as_filter table_ok_filter)

lemma table_ok_retain [simp]: "table_ok up cap per m \<Longrightarrow> table_ok up cap per (hm_retain p m)"
  by (simp add: hm_retain_def table_ok_filter)

lemma has_room_update:
  assumes "has_room up cap per k m"
  shows "table_ok up cap per (AList.update k v m)"
proof (cases "map_of m k")
  case (Some w)
  with assms show ?thesis by (simp add: has_room_def table_ok_update_present)
next
  case None
  with assms have ok: "table_ok up cap per m" and len: "length m < cap"
    and cnt: "count_upstream up (up k) m < per"
    by (simp_all add: has_room_def hm_contains_def)
  show ?thesis
  proof (rule table_okI)
    show "hm_ok (AList.update k v m)" using ok by (simp add: table_ok_def)
    show "length (AList.update k v m) \<le> cap" using len None by (simp add: length_update)
    show "count_upstream up u (AList.update k v m) \<le> per" for u
      using None cnt table_ok_count [OF ok, of u]
      by (auto simp: count_upstream_def hm_keys_def map_fst_update)
  qed
qed

lemma has_room_present: "table_ok up cap per m \<Longrightarrow> hm_contains m k \<Longrightarrow> has_room up cap per k m"
  and has_room_free: "table_ok up cap per m \<Longrightarrow> length m < cap \<Longrightarrow>
    count_upstream up (up k) m < per \<Longrightarrow> has_room up cap per k m"
  by (simp_all add: has_room_def)

text \<open>Deleting one entry that counts against a bound makes room under that bound.\<close>

lemma evict_makes_room:
  assumes ok: "table_ok up cap per m" and pos: "0 < cap" "0 < per"
    and absent: "\<not> hm_contains m k"
    and cand: "map_of m c = Some s"
    and scope: "count_upstream up (up k) m \<ge> per \<Longrightarrow> up c = up k"
  shows "has_room up cap per k (AList.delete c m)"
proof -
  have c: "c \<in> set (map fst m)" using cand by (auto simp: image_iff dest!: map_of_SomeD intro: rev_bexI)
  have d: "distinct (map fst m)" using ok by (simp add: table_ok_def hm_ok_def)
  have "Suc (length (filter (\<lambda>_. True) (map fst (AList.delete c m)))) = length (filter (\<lambda>_. True) (map fst m))"
    unfolding map_fst_delete by (rule filter_delete_distinct [OF d c]) simp
  then have len: "length (AList.delete c m) < cap"
    using ok by (simp add: table_ok_def)
  have cnt: "count_upstream up (up k) (AList.delete c m) < per"
  proof (cases "count_upstream up (up k) m < per")
    case True
    then show ?thesis
      unfolding delete_as_filter by (rule order_le_less_trans [OF count_upstream_filter_le])
  next
    case False
    then have "up c = up k" by (simp add: scope)
    then have "Suc (count_upstream up (up k) (AList.delete c m)) = count_upstream up (up k) m"
      unfolding count_upstream_def hm_keys_def map_fst_delete
      by (intro filter_delete_distinct [OF d c]) simp
    then show ?thesis using table_ok_count [OF ok, of "up k"] by simp
  qed
  show ?thesis using ok len cnt by (simp add: has_room_def)
qed

end
