(* ===== verification/Route_Health_Invariants.thy ===== *)
theory Route_Health_Invariants
  imports Bounded_Table
begin

text \<open>
  The registry invariant and its preservation by every operation of
  \<open>src/src/state/route_health.rs\<close>, by way of one lemma per operation, and the resulting
  transition system.
\<close>

section \<open>The invariant\<close>

definition reg_inv :: "route_health_registry \<Rightarrow> bool" where
  "reg_inv r =
    (0 < rg_route_capacity r \<and> 0 < rg_per_upstream_capacity r
     \<and> table_ok rk_upstream_id (rg_route_capacity r) (rg_per_upstream_capacity r) (rg_routes r)
     \<and> table_ok kk_upstream_id (rg_route_capacity r) (rg_per_upstream_capacity r) (rg_keys r)
     \<and> hm_all hs_inv (rg_routes r) \<and> hm_all hs_inv (rg_keys r)
     \<and> hm_ok (rg_aggregates r) \<and> length (rg_aggregates r) \<le> rg_route_capacity r
     \<and> rg_concurrency_probe_delays r \<noteq> []
     \<and> 1 \<le> rg_transient_route_cooldown_max_step r \<and> rg_transient_route_cooldown_max_step r \<le> 8)"

lemma reg_invD:
  assumes "reg_inv r"
  shows "hm_ok (rg_routes r)" "hm_ok (rg_keys r)" "hm_all hs_inv (rg_routes r)"
    "hm_all hs_inv (rg_keys r)"
    "table_ok rk_upstream_id (rg_route_capacity r) (rg_per_upstream_capacity r) (rg_routes r)"
    "table_ok kk_upstream_id (rg_route_capacity r) (rg_per_upstream_capacity r) (rg_keys r)"
    "0 < rg_route_capacity r" "0 < rg_per_upstream_capacity r"
  using assms by (simp_all add: reg_inv_def table_ok_def)

text \<open>
  The two ways an operation writes: a table is replaced by one that keeps the bounds and
  whose entries keep the entry invariant.
\<close>

lemma reg_inv_routes:
  "reg_inv r \<Longrightarrow>
   table_ok rk_upstream_id (rg_route_capacity r) (rg_per_upstream_capacity r) m \<Longrightarrow>
   hm_all hs_inv m \<Longrightarrow> reg_inv (r\<lparr>rg_routes := m\<rparr>)"
  by (simp add: reg_inv_def)

lemma reg_inv_keys:
  "reg_inv r \<Longrightarrow>
   table_ok kk_upstream_id (rg_route_capacity r) (rg_per_upstream_capacity r) m \<Longrightarrow>
   hm_all hs_inv m \<Longrightarrow> reg_inv (r\<lparr>rg_keys := m\<rparr>)"
  by (simp add: reg_inv_def)

lemma reg_inv_modify_route:
  assumes "reg_inv r" and "\<And>s. map_of (rg_routes r) k = Some s \<Longrightarrow> hs_inv s \<Longrightarrow> hs_inv (f s)"
  shows "reg_inv (r\<lparr>rg_routes := hm_modify k f (rg_routes r)\<rparr>)"
  using assms by (intro reg_inv_routes) (auto intro: hm_all_modify dest: reg_invD)

lemma reg_inv_modify_key:
  assumes "reg_inv r" and "\<And>s. map_of (rg_keys r) k = Some s \<Longrightarrow> hs_inv s \<Longrightarrow> hs_inv (f s)"
  shows "reg_inv (r\<lparr>rg_keys := hm_modify k f (rg_keys r)\<rparr>)"
  using assms by (intro reg_inv_keys) (auto intro: hm_all_modify dest: reg_invD)

lemma reg_inv_update_route:
  assumes "reg_inv r" "map_of (rg_routes r) k \<noteq> None" "hs_inv s"
  shows "reg_inv (r\<lparr>rg_routes := AList.update k s (rg_routes r)\<rparr>)"
  using assms by (intro reg_inv_routes table_ok_update_present hm_all_update) (auto dest: reg_invD)

lemma reg_inv_update_key:
  assumes "reg_inv r" "map_of (rg_keys r) k \<noteq> None" "hs_inv s"
  shows "reg_inv (r\<lparr>rg_keys := AList.update k s (rg_keys r)\<rparr>)"
  using assms by (intro reg_inv_keys table_ok_update_present hm_all_update) (auto dest: reg_invD)

lemma reg_inv_insert_route:
  assumes "reg_inv r"
    and "has_room rk_upstream_id (rg_route_capacity r) (rg_per_upstream_capacity r) k (rg_routes r)"
    and "hs_inv s"
  shows "reg_inv (r\<lparr>rg_routes := AList.update k s (rg_routes r)\<rparr>)"
  using assms by (intro reg_inv_routes has_room_update hm_all_update) (auto dest: reg_invD)

lemma reg_inv_insert_key:
  assumes "reg_inv r"
    and "has_room kk_upstream_id (rg_route_capacity r) (rg_per_upstream_capacity r) k (rg_keys r)"
    and "hs_inv s"
  shows "reg_inv (r\<lparr>rg_keys := AList.update k s (rg_keys r)\<rparr>)"
  using assms by (intro reg_inv_keys has_room_update hm_all_update) (auto dest: reg_invD)

section \<open>Construction and tuning\<close>

lemma reg_inv_new: "reg_inv (new_with_runtime_tuning_and_enforcement c p t)"
  by (simp add: reg_inv_def new_with_runtime_tuning_and_enforcement_def Let_def clamp_step_def
      normalize_delays_nonempty less_max_iff_disj)

lemma cap_deadline_None [simp]: "cap_deadline l d = None \<longleftrightarrow> d = None"
  by (auto simp: cap_deadline_def is_some_and_iff)

lemma reg_inv_update_runtime_tuning: "reg_inv r \<Longrightarrow> reg_inv (update_runtime_tuning r t now)"
  unfolding reg_inv_def update_runtime_tuning_def Let_def
  by (auto simp: clamp_step_def hs_inv_def normalize_delays_nonempty intro!: hm_all_map_values)

lemma reg_inv_set_enforcement:
  "reg_inv r \<Longrightarrow> reg_inv (set_route_health_enforcement_enabled r b)"
  by (simp add: reg_inv_def set_route_health_enforcement_enabled_def)

section \<open>Admission\<close>

lemma next_generation_simps [simp]:
  "rg_routes (snd (next_generation r)) = rg_routes r"
  "rg_keys (snd (next_generation r)) = rg_keys r"
  "rg_half_open_ttl (snd (next_generation r)) = rg_half_open_ttl r"
  "rg_half_open_exclusive_window (snd (next_generation r)) = rg_half_open_exclusive_window r"
  by (simp_all add: next_generation_def Let_def)

lemma reg_inv_next_generation [simp]: "reg_inv (snd (next_generation r)) = reg_inv r"
  by (simp add: next_generation_def Let_def reg_inv_def)

lemma hs_inv_open_half_open:
  "hs_last_failure_class s \<noteq> None \<Longrightarrow> hs_inv (open_half_open g ttl w now s)"
  by (simp add: open_half_open_def hs_inv_def)

lemma reg_inv_reserve_expired_key:
  "reg_inv r \<Longrightarrow> reg_inv (snd (reserve_expired_half_open_key r key now))"
  unfolding reserve_expired_half_open_key_def
  by (auto simp: case_prod_unfold Let_def is_some_and_iff can_reserve_half_open_def
      intro!: reg_inv_modify_key [where r = "snd (next_generation r)", simplified] hs_inv_open_half_open)

lemma reg_inv_reserve_expired_route:
  "reg_inv r \<Longrightarrow> reg_inv (snd (reserve_expired_half_open_route r route now))"
  unfolding reserve_expired_half_open_route_def
  by (auto simp: case_prod_unfold Let_def is_some_and_iff can_reserve_half_open_def
      intro!: reg_inv_modify_route [where r = "snd (next_generation r)", simplified] hs_inv_open_half_open)

lemma reg_inv_grant_lease: "reg_inv r \<Longrightarrow> reg_inv (snd (grant_lease r route key now))"
  by (simp add: grant_lease_def case_prod_unfold Let_def reg_inv_reserve_expired_key
      reg_inv_reserve_expired_route)

lemma admission_gate_ok:
  assumes "hs_inv s"
  shows "\<exists>s' early. admission_gate m1 m2 now s = Inr (s', early) \<and> hs_inv s'"
  using assms
  by (auto simp: admission_gate_def Let_def hs_inv_def is_cooling_def is_some_and_iff
      drop_half_open_def)

lemma gate_key_ok:
  assumes "reg_inv r"
  shows "\<exists>r' early. gate_key r key now = Inr (r', early) \<and> reg_inv r'"
proof (cases "map_of (rg_keys r) key")
  case None
  then show ?thesis using assms by (simp add: gate_key_def)
next
  case (Some s)
  with assms have "hs_inv s" by (metis hm_all_get reg_invD(4))
  then obtain s' early where "admission_gate ''cooling key health must retain its failure class''
      ''half-open key health must retain its failure class'' now s = Inr (s', early)" "hs_inv s'"
    using admission_gate_ok by blast
  then show ?thesis using Some assms by (simp add: gate_key_def reg_inv_update_key)
qed

lemma gate_route_ok:
  assumes "reg_inv r"
  shows "\<exists>r' early. gate_route r route now = Inr (r', early) \<and> reg_inv r'"
proof (cases "map_of (rg_routes r) route")
  case None
  then show ?thesis using assms by (simp add: gate_route_def)
next
  case (Some s)
  with assms have "hs_inv s" by (metis hm_all_get reg_invD(3))
  then obtain s' early where "admission_gate ''cooling route health must retain its failure class''
      ''half-open route health must retain its failure class'' now s = Inr (s', early)" "hs_inv s'"
    using admission_gate_ok by blast
  then show ?thesis using Some assms by (simp add: gate_route_def reg_inv_update_route)
qed

lemma reg_inv_touch_entries [simp]: "reg_inv r \<Longrightarrow> reg_inv (touch_entries r route key now)"
  using reg_inv_modify_key [where f = "\<lambda>s. s\<lparr>hs_last_access := now\<rparr>" and k = key and r = r]
    reg_inv_modify_route [where f = "\<lambda>s. s\<lparr>hs_last_access := now\<rparr>" and k = route
      and r = "r\<lparr>rg_keys := hm_modify key (\<lambda>s. s\<lparr>hs_last_access := now\<rparr>) (rg_keys r)\<rparr>"]
  by (simp add: touch_entries_def)

lemma reserve_ok:
  assumes "reg_inv r"
  shows "\<exists>answer r'. reserve r route key now = Inr (answer, r') \<and> reg_inv r'"
proof (cases "rg_enforcement_enabled r")
  case False
  then show ?thesis using assms by (simp add: reserve_def Let_def)
next
  case True
  obtain r1 early where k: "gate_key r key now = Inr (r1, early)" "reg_inv r1"
    using gate_key_ok [OF assms] by blast
  obtain r2 early2 where g: "gate_route r1 route now = Inr (r2, early2)" "reg_inv r2"
    using gate_route_ok [OF k(2)] by blast
  show ?thesis
    using True k g reg_inv_grant_lease [OF g(2)]
    by (cases early; cases early2) (auto simp: reserve_def Let_def case_prod_unfold)
qed

section \<open>The early probe\<close>

lemma probe_key_gate_ok:
  assumes "reg_inv r"
  shows "\<exists>r' early. probe_key_gate r key now = Inr (r', early) \<and> reg_inv r'
    \<and> rg_routes r' = rg_routes r"
proof (cases "map_of (rg_keys r) key")
  case None
  then show ?thesis using assms by (simp add: probe_key_gate_def)
next
  case (Some s)
  with assms have i: "hs_inv s" by (metis hm_all_get reg_invD(4))
  have "reg_inv (r\<lparr>rg_keys := AList.update key (s\<lparr>hs_last_access := now\<rparr>) (rg_keys r)\<rparr>)"
    using assms Some i by (intro reg_inv_update_key) auto
  with Some i show ?thesis
    by (auto simp: probe_key_gate_def Let_def hs_inv_def is_cooling_def is_active_def is_some_and_iff)
qed

lemma hs_inv_open_early_probe:
  "hs_last_failure_class s \<noteq> None \<Longrightarrow> hs_inv (open_early_probe g c ttl w now s)"
  by (simp add: open_early_probe_def hs_inv_def)

lemma reserve_expired_key_routes [simp]:
  "rg_routes (snd (reserve_expired_half_open_key r key now)) = rg_routes r"
  by (simp add: reserve_expired_half_open_key_def case_prod_unfold Let_def)

lemma reg_inv_grant_early_probe:
  assumes "reg_inv r" "map_of (rg_routes r) route = Some s" "hs_last_failure_class s \<noteq> None"
  shows "reg_inv (snd (grant_early_probe r route key s now))"
  unfolding grant_early_probe_def case_prod_unfold Let_def snd_conv
  using assms
  by (intro reg_inv_modify_route)
    (auto simp: reg_inv_reserve_expired_key intro: hs_inv_open_early_probe)

lemma reg_inv_reserve_probe:
  assumes "reg_inv r" "reserve_route_health_probe r route key now = Inr (answer, r')"
  shows "reg_inv r'"
proof (cases "rg_enforcement_enabled r")
  case False
  then show ?thesis using assms by (auto simp: reserve_route_health_probe_def Let_def)
next
  case True
  obtain r1 early where k: "probe_key_gate r key now = Inr (r1, early)" "reg_inv r1"
      "rg_routes r1 = rg_routes r"
    using probe_key_gate_ok [OF assms(1)] by blast
  show ?thesis
  proof (cases "early = None \<and> map_of (rg_routes r1) route \<noteq> None")
    case False
    with True k assms(2) show ?thesis
      by (auto simp: reserve_route_health_probe_def Let_def split: option.splits)
  next
    case early: True
    then obtain s0 where s0: "map_of (rg_routes r1) route = Some s0" by blast
    define s where "s = s0\<lparr>hs_last_access := now\<rparr>"
    define r2 where "r2 = r1\<lparr>rg_routes := AList.update route s (rg_routes r1)\<rparr>"
    have "hs_inv s" using s0 k(2) unfolding s_def by (metis hm_all_get reg_invD(3) hs_inv_last_access)
    then have r2: "reg_inv r2" unfolding r2_def using s0 k(2) by (intro reg_inv_update_route) auto
    have m: "map_of (rg_routes r2) route = Some s" by (simp add: r2_def)
    have b: "bind_ok (expect ''cooling route health must retain its failure class'' (hs_last_failure_class s))
        (\<lambda>class. case early_probe_refusal s class now of Some answer \<Rightarrow> Inr (answer, r2)
            | None \<Rightarrow> (let (lease, r3) = grant_early_probe r2 route key s now in Inr (Ready lease, r3)))
      = Inr (answer, r')"
      using True k(1) early s0 assms(2) unfolding s_def r2_def
      by (simp add: reserve_route_health_probe_def Let_def)
    show ?thesis
      using b r2 reg_inv_grant_early_probe [OF r2 m, where key = key and now = now]
      by (auto simp: bind_ok_Inr_iff expect_def Let_def case_prod_unfold split: option.splits)
  qed
qed

section \<open>Eviction\<close>

lemma ensure_key_capacity_cases:
  assumes "ensure_key_capacity r key now = (fits, r')" "reg_inv r"
  obtains (present) "fits" "r' = r" "hm_contains (rg_keys r) key"
  | (room) "fits" "r' = r" "length (rg_keys r) < rg_route_capacity r"
      "count_upstream kk_upstream_id (kk_upstream_id key) (rg_keys r) < rg_per_upstream_capacity r"
  | (refused) "\<not> fits" "r' = r"
  | (evict) c s where "fits" "r' = r\<lparr>rg_keys := AList.delete c (rg_keys r)\<rparr>"
      "\<not> hm_contains (rg_keys r) key" "map_of (rg_keys r) c = Some s" "\<not> is_active s now"
      "rg_per_upstream_capacity r \<le> count_upstream kk_upstream_id (kk_upstream_id key) (rg_keys r)
         \<Longrightarrow> kk_upstream_id c = kk_upstream_id key"
proof -
  have cand: "map_of (rg_keys r) c = Some s \<and> \<not> is_active s now
      \<and> (full \<longrightarrow> kk_upstream_id c = kk_upstream_id key)"
    if "key_eviction_candidate r key full now = Some (c, s)" for full c s
  proof -
    have "(c, s) \<in> set (rg_keys r) \<and> \<not> is_active s now
      \<and> (full \<longrightarrow> kk_upstream_id c = kk_upstream_id key)"
      using that by (auto simp: key_eviction_candidate_def dest!: min_by_key_SomeD)
    then show ?thesis using reg_invD(2) [OF assms(2)] by (simp add: hm_ok_def)
  qed
  show ?thesis
    using assms(1)
    by (auto simp: ensure_key_capacity_def Let_def not_le dest: cand
        intro: that split: if_splits option.splits prod.splits)
qed

lemma ensure_route_capacity_cases:
  assumes "ensure_route_capacity r route now = (fits, r')" "reg_inv r"
  obtains (present) "fits" "r' = r" "hm_contains (rg_routes r) route"
  | (room) "fits" "r' = r" "length (rg_routes r) < rg_route_capacity r"
      "count_upstream rk_upstream_id (rk_upstream_id route) (rg_routes r) < rg_per_upstream_capacity r"
  | (refused) "\<not> fits" "r' = r"
  | (evict) c s where "fits" "r' = r\<lparr>rg_routes := AList.delete c (rg_routes r)\<rparr>"
      "\<not> hm_contains (rg_routes r) route" "map_of (rg_routes r) c = Some s" "\<not> is_active s now"
      "rg_per_upstream_capacity r \<le> count_upstream rk_upstream_id (rk_upstream_id route) (rg_routes r)
         \<Longrightarrow> rk_upstream_id c = rk_upstream_id route"
proof -
  have cand: "map_of (rg_routes r) c = Some s \<and> \<not> is_active s now
      \<and> (full \<longrightarrow> rk_upstream_id c = rk_upstream_id route)"
    if "route_eviction_candidate r route full now = Some (c, s)" for full c s
  proof -
    have "(c, s) \<in> set (rg_routes r) \<and> \<not> is_active s now
      \<and> (full \<longrightarrow> rk_upstream_id c = rk_upstream_id route)"
      using that by (auto simp: route_eviction_candidate_def Let_def
          dest!: min_by_key_SomeD split: option.splits)
    then show ?thesis using reg_invD(1) [OF assms(2)] by (simp add: hm_ok_def)
  qed
  show ?thesis
    using assms(1)
    by (auto simp: ensure_route_capacity_def Let_def not_le dest: cand
        intro: that split: if_splits option.splits prod.splits)
qed

lemma ensure_key_capacity_ok:
  assumes "reg_inv r" "ensure_key_capacity r key now = (fits, r')"
  shows "reg_inv r'"
    "fits \<Longrightarrow> has_room kk_upstream_id (rg_route_capacity r') (rg_per_upstream_capacity r') key (rg_keys r')"
    "map_of (rg_keys r) k = Some s \<Longrightarrow> is_active s now \<Longrightarrow> map_of (rg_keys r') k = Some s"
    "rg_routes r' = rg_routes r"
proof -
  note inv = reg_invD [OF assms(1)]
  show "reg_inv r'" using assms(2,1)
    by (cases rule: ensure_key_capacity_cases) (use inv in \<open>auto intro: reg_inv_keys hm_all_delete assms(1)\<close>)
  show "has_room kk_upstream_id (rg_route_capacity r') (rg_per_upstream_capacity r') key (rg_keys r')" if fits
    using assms(2,1) that
    by (cases rule: ensure_key_capacity_cases)
      (use inv in \<open>auto intro: evict_makes_room has_room_present has_room_free\<close>)
  show "map_of (rg_keys r') k = Some s" if "map_of (rg_keys r) k = Some s" "is_active s now"
    using assms(2,1) that by (cases rule: ensure_key_capacity_cases) auto
  show "rg_routes r' = rg_routes r"
    using assms(2,1) by (cases rule: ensure_key_capacity_cases) auto
qed

lemma ensure_route_capacity_ok:
  assumes "reg_inv r" "ensure_route_capacity r route now = (fits, r')"
  shows "reg_inv r'"
    "fits \<Longrightarrow> has_room rk_upstream_id (rg_route_capacity r') (rg_per_upstream_capacity r') route (rg_routes r')"
    "map_of (rg_routes r) k = Some s \<Longrightarrow> is_active s now \<Longrightarrow> map_of (rg_routes r') k = Some s"
    "rg_keys r' = rg_keys r"
proof -
  note inv = reg_invD [OF assms(1)]
  show "reg_inv r'" using assms(2,1)
    by (cases rule: ensure_route_capacity_cases) (use inv in \<open>auto intro: reg_inv_routes hm_all_delete assms(1)\<close>)
  show "has_room rk_upstream_id (rg_route_capacity r') (rg_per_upstream_capacity r') route (rg_routes r')" if fits
    using assms(2,1) that
    by (cases rule: ensure_route_capacity_cases)
      (use inv in \<open>auto intro: evict_makes_room has_room_present has_room_free\<close>)
  show "map_of (rg_routes r') k = Some s" if "map_of (rg_routes r) k = Some s" "is_active s now"
    using assms(2,1) that by (cases rule: ensure_route_capacity_cases) auto
  show "rg_keys r' = rg_keys r"
    using assms(2,1) by (cases rule: ensure_route_capacity_cases) auto
qed

section \<open>Clearing, releasing and recording\<close>

lemma reg_inv_clear_route: "reg_inv r \<Longrightarrow> reg_inv (clear_route r route now)"
  unfolding clear_route_def by (rule reg_inv_modify_route) simp_all

lemma reg_inv_clear_key: "reg_inv r \<Longrightarrow> reg_inv (clear_key r key now)"
  unfolding clear_key_def by (rule reg_inv_modify_key) simp_all

lemma reg_inv_clear_route_for_success: "reg_inv r \<Longrightarrow> reg_inv (clear_route_for_success r lease now)"
  unfolding clear_route_for_success_def by (rule reg_inv_modify_route) simp_all

lemma reg_inv_release_route_lease: "reg_inv r \<Longrightarrow> reg_inv (release_route_lease r route g now)"
  unfolding release_route_lease_def by (rule reg_inv_modify_route) simp_all

lemma reg_inv_release_key_lease: "reg_inv r \<Longrightarrow> reg_inv (release_key_lease r key g now)"
  unfolding release_key_lease_def by (rule reg_inv_modify_key) simp_all

lemma reg_inv_reapply:
  "reg_inv r \<Longrightarrow> reg_inv (snd (reapply_concurrency_probe_delay r lease now))"
  by (auto simp: reapply_concurrency_probe_delay_def holds_concurrency_probe_def Let_def hs_inv_def
      drop_half_open_def intro!: reg_inv_update_route split: option.split)

lemma reg_inv_remove_cleared: "reg_inv r \<Longrightarrow> reg_inv (remove_cleared_route_and_key r route key)"
  by (auto simp: remove_cleared_route_and_key_def reg_inv_def intro: hm_all_delete)

lemma reg_inv_count_skip [simp]: "reg_inv (count_cooldown_skip r u) = reg_inv r"
  by (simp add: count_cooldown_skip_def reg_inv_def)

lemma count_skip_tables [simp]:
  "rg_routes (count_cooldown_skip r u) = rg_routes r"
  "rg_keys (count_cooldown_skip r u) = rg_keys r"
  "rg_route_capacity (count_cooldown_skip r u) = rg_route_capacity r"
  "rg_per_upstream_capacity (count_cooldown_skip r u) = rg_per_upstream_capacity r"
  by (simp_all add: count_cooldown_skip_def)

lemma hs_inv_note_failure:
  "hs_inv s \<Longrightarrow> hs_inv (s\<lparr>hs_last_failure_class := Some c, hs_last_failure_status := u,
     hs_last_failure_at := a, hs_last_access := t\<rparr>)"
  "hs_inv s \<Longrightarrow> hs_inv (s\<lparr>hs_last_failure_class := Some c, hs_last_failure_at := a,
     hs_last_access := t\<rparr>)"
  by (simp_all add: hs_inv_def)

lemma hs_inv_record_route_failure: "hs_inv (record_route_failure sha r route c ra us now er sh s)"
  by (simp add: record_route_failure_def hs_inv_def Let_def)

lemma hs_inv_record_key_failure: "hs_inv (record_key_failure sha r key c ra now s)"
  by (simp add: record_key_failure_def hs_inv_def Let_def)

lemma hs_inv_entry_or:
  "hm_all hs_inv m \<Longrightarrow> hs_inv (hm_entry_or k (health_state_new now) m)"
  by (auto simp: hm_entry_or_def intro: hm_all_get split: option.split)

lemma reg_inv_observe_capacity_route:
  assumes "reg_inv r"
  shows "reg_inv (observe_capacity_route_failure_at r route c us now)"
proof -
  obtain fits r1 where e: "ensure_route_capacity r route now = (fits, r1)" by force
  note ok = ensure_route_capacity_ok [OF assms e]
  show ?thesis
    using ok(1,2) reg_invD(3) [OF ok(1)]
    by (auto simp: observe_capacity_route_failure_at_def e Let_def
        intro!: reg_inv_insert_route [where r = "count_cooldown_skip r1 (rk_upstream_id route)", simplified]
          hs_inv_note_failure hs_inv_entry_or)
qed

lemma reg_inv_observe_capacity_key:
  assumes "reg_inv r"
  shows "reg_inv (observe_capacity_key_failure_at r key c now)"
proof -
  obtain fits r1 where e: "ensure_key_capacity r key now = (fits, r1)" by force
  note ok = ensure_key_capacity_ok [OF assms e]
  show ?thesis
    using ok(1,2) reg_invD(4) [OF ok(1)]
    by (auto simp: observe_capacity_key_failure_at_def e Let_def
        intro!: reg_inv_insert_key [where r = "count_cooldown_skip r1 (kk_upstream_id key)", simplified]
          hs_inv_note_failure hs_inv_entry_or)
qed

lemma reg_inv_observe_route_failure_at:
  assumes "reg_inv r"
  shows "reg_inv (observe_route_failure_at sha r route c ra now ctx)"
proof -
  obtain fits r1 where e: "ensure_route_capacity r route now = (fits, r1)" by force
  note ok = ensure_route_capacity_ok [OF assms e]
  show ?thesis
    using assms ok(1,2)
    by (auto simp: observe_route_failure_at_def e Let_def
        intro!: reg_inv_insert_route hs_inv_record_route_failure reg_inv_clear_route
          reg_inv_observe_capacity_route)
qed

lemma reg_inv_observe_key_failure_at:
  assumes "reg_inv r"
  shows "reg_inv (observe_key_failure_at sha r key c ra now)"
proof -
  obtain fits r1 where e: "ensure_key_capacity r key now = (fits, r1)" by force
  note ok = ensure_key_capacity_ok [OF assms e]
  show ?thesis
    using assms ok(1,2)
    by (auto simp: observe_key_failure_at_def e Let_def
        intro!: reg_inv_insert_key hs_inv_record_key_failure reg_inv_clear_key
          reg_inv_observe_capacity_key)
qed

lemmas reg_inv_lease_ops =
  reg_inv_clear_key reg_inv_clear_route_for_success reg_inv_release_key_lease
  reg_inv_release_route_lease reg_inv_observe_route_failure_at reg_inv_observe_key_failure_at
  reg_inv_reapply

lemma reg_inv_finish: "reg_inv r \<Longrightarrow> reg_inv (finish sha r lease now outcome)"
  by (cases outcome) (auto simp: Let_def case_prod_unfold intro!: reg_inv_lease_ops)

lemma reg_inv_insert_aggregate:
  "reg_inv r \<Longrightarrow> hm_ok t \<Longrightarrow>
   length t < rg_route_capacity r \<or> length t \<le> rg_route_capacity r \<and> hm_contains t a \<Longrightarrow>
   reg_inv (r\<lparr>rg_aggregates := AList.update a s t\<rparr>)"
  by (auto simp: reg_inv_def length_update hm_contains_def)

lemma length_delete_present:
  "(k, s) \<in> set m \<Longrightarrow> length (AList.delete k m) < length m"
  unfolding AList.delete_eq by (rule length_filter_less) auto

lemma reg_inv_observe_route_set_failure:
  assumes "reg_inv r"
  shows "reg_inv (observe_route_set_failure r aggregate c ra now)"
proof -
  have inv: "hm_ok (rg_aggregates r)" "length (rg_aggregates r) \<le> rg_route_capacity r"
    using assms by (simp_all add: reg_inv_def)
  show ?thesis
  proof (cases "length (rg_aggregates r) \<ge> rg_route_capacity r
      \<and> \<not> hm_contains (rg_aggregates r) aggregate")
    case False
    with assms inv have "reg_inv (r\<lparr>rg_aggregates := AList.update aggregate s (rg_aggregates r)\<rparr>)" for s
      by (auto intro: reg_inv_insert_aggregate)
    with False show ?thesis
      by (auto simp: observe_route_set_failure_def Let_def simp del: min_by_key_None_iff
          split: option.split)
  next
    case full: True
    show ?thesis
    proof (cases "min_by_key (\<lambda>(k, s). ag_last_access s) (rg_aggregates r)")
      case None
      with full assms show ?thesis by (simp add: observe_route_set_failure_def)
    next
      case (Some v)
      obtain k s where v: "v = (k, s)" by (cases v)
      with min_by_key_SomeD [OF Some] have "(k, s) \<in> set (rg_aggregates r)" by simp
      from length_delete_present [OF this] inv
      have "length (AList.delete k (rg_aggregates r)) < rg_route_capacity r" by simp
      with full assms inv Some v show ?thesis
        by (simp add: observe_route_set_failure_def Let_def reg_inv_insert_aggregate)
    qed
  qed
qed

lemma reg_inv_retain: "reg_inv r \<Longrightarrow> reg_inv (retain_routes r p q a now)"
  by (auto simp: reg_inv_def retain_routes_def intro: hm_all_retain le_trans [OF length_hm_retain_le])

section \<open>The registry as a transition system\<close>

text \<open>
  The operations other parts of the gateway call on the shared registry, in any order and with
  any arguments; a lease handed to \<open>finish\<close> may be stale or made up. A call that panics is not
  a step.
\<close>

datatype registry_op =
    OpReserve route_health_key key_health_key instant
  | OpReserveProbe route_health_key key_health_key instant
  | OpFinish health_lease instant route_outcome
  | OpObserveRoute route_health_key route_failure_class "duration option" bool instant
  | OpObserveKey key_health_key route_failure_class "duration option" instant
  | OpObserveRouteSet route_set_aggregate_key route_failure_class "duration option" instant
  | OpClearRoute route_health_key instant
  | OpRemoveCleared route_health_key key_health_key
  | OpRetain "route_health_key list" "key_health_key list" "route_set_aggregate_key list" instant
  | OpTune route_health_tuning instant
  | OpEnforce bool

inductive registry_step ::
  "(byte list \<Rightarrow> byte list) \<Rightarrow> registry_op \<Rightarrow> route_health_registry \<Rightarrow> route_health_registry \<Rightarrow> bool"
  for sha where
  step_reserve: "reserve r route key now = Inr (answer, r') \<Longrightarrow>
    registry_step sha (OpReserve route key now) r r'"
| step_probe: "reserve_route_health_probe r route key now = Inr (answer, r') \<Longrightarrow>
    registry_step sha (OpReserveProbe route key now) r r'"
| step_finish: "registry_step sha (OpFinish lease now outcome) r (finish sha r lease now outcome)"
| step_route: "registry_step sha (OpObserveRoute route c ra shared now) r
    (observe_route_failure sha r route c ra shared now)"
| step_key: "registry_step sha (OpObserveKey key c ra now) r (observe_key_failure sha r key c ra now)"
| step_set: "registry_step sha (OpObserveRouteSet a c ra now) r
    (observe_route_set_failure r a c ra now)"
| step_clear: "registry_step sha (OpClearRoute route now) r (clear_route_health r route now)"
| step_remove: "registry_step sha (OpRemoveCleared route key) r
    (remove_cleared_route_and_key r route key)"
| step_retain: "registry_step sha (OpRetain routes keys aggregates now) r
    (retain_routes r (\<lambda>k. k \<in> set routes) (\<lambda>k. k \<in> set keys) (\<lambda>k. k \<in> set aggregates) now)"
| step_tune: "registry_step sha (OpTune t now) r (update_runtime_tuning r t now)"
| step_enforce: "registry_step sha (OpEnforce b) r (set_route_health_enforcement_enabled r b)"

inductive registry_init :: "route_health_registry \<Rightarrow> bool" where
  "registry_init (new_with_runtime_tuning_and_enforcement c p t)"

inductive_cases registry_initE: "registry_init r"

lemma reg_inv_step:
  assumes "reg_inv r" "registry_step sha op r r'"
  shows "reg_inv r'"
  using assms(2,1)
proof (cases rule: registry_step.cases)
  case (step_reserve route key now answer)
  then show ?thesis using reserve_ok [OF assms(1), of route key now] by auto
qed (auto simp: observe_route_failure_def observe_key_failure_def clear_route_health_def
    intro: reg_inv_reserve_probe reg_inv_finish reg_inv_observe_route_failure_at
      reg_inv_observe_key_failure_at reg_inv_observe_route_set_failure reg_inv_clear_route
      reg_inv_remove_cleared reg_inv_retain reg_inv_update_runtime_tuning reg_inv_set_enforcement)

interpretation registry: invariant_system registry_init "registry_step sha" reg_inv for sha
  by unfold_locales (auto elim: registry_initE simp: reg_inv_new intro: reg_inv_step)

end
