(* ===== verification/Route_Health_Admission.thy ===== *)
theory Route_Health_Admission
  imports Route_Health_Invariants
begin

text \<open>
  What \<open>reserve\<close> promises its callers: a specification of the admission decision that looks
  only at the two health entries, the refinement of \<open>reserve\<close> to it, and the effect of a
  granted half-open lease on the entries.
\<close>

section \<open>The admission specification\<close>

definition blocking :: "instant \<Rightarrow> health_state \<Rightarrow> health_lease route_availability option" where
  "blocking now s =
    (case hs_last_failure_class s of
       None \<Rightarrow> None
     | Some c \<Rightarrow>
         if is_cooling s now then Some (Cooling c (hs_retry_after s now) (hs_last_failure_status s))
         else if is_active s now \<and> is_some_and (hs_half_open_exclusive_until s) (\<lambda>u. u > now)
         then Some (HalfOpenBusy c half_open_busy_retry (hs_last_failure_status s))
         else None)"

definition entry_blocking ::
  "instant \<Rightarrow> health_state option \<Rightarrow> health_lease route_availability option" where
  "entry_blocking now e = (case e of None \<Rightarrow> None | Some s \<Rightarrow> blocking now s)"

lemma entry_blocking_simps [simp]:
  "entry_blocking now None = None" "entry_blocking now (Some s) = blocking now s"
  by (simp_all add: entry_blocking_def)

lemma blocking_not_ready: "blocking now s = Some a \<Longrightarrow> \<not> is_ready a"
  by (auto simp: blocking_def split: option.splits if_splits)

lemma entry_blocking_not_ready: "entry_blocking now e = Some a \<Longrightarrow> \<not> is_ready a"
  by (cases e) (auto dest: blocking_not_ready)

section \<open>The two gates\<close>

definition gated :: "instant \<Rightarrow> health_state \<Rightarrow> health_state" where
  "gated now s0 =
    (let s = s0\<lparr>hs_last_access := now\<rparr> in
     if \<not> is_cooling s now \<and> hs_half_open_generation s \<noteq> None \<and> \<not> is_active s now
     then drop_half_open s else s)"

lemma admission_gate_spec:
  assumes "hs_inv s"
  shows "admission_gate m1 m2 now s = Inr (gated now s, blocking now s)"
proof (cases "hs_last_failure_class s")
  case None
  with assms have "hs_cooldown_until s = None" "hs_half_open_generation s = None"
    by (auto simp: hs_inv_def)
  with None show ?thesis
    by (simp add: admission_gate_def gated_def blocking_def is_cooling_def)
next
  case (Some c)
  have a: "is_none_or (hs_half_open_expires_at s) (\<lambda>e. e \<le> now) \<longleftrightarrow>
      \<not> is_some_and (hs_half_open_expires_at s) (\<lambda>e. e > now)"
    by (cases "hs_half_open_expires_at s") auto
  show ?thesis
  proof (cases "is_cooling s now")
    case True
    then show ?thesis using Some
      by (simp add: admission_gate_def gated_def blocking_def is_cooling_def hs_retry_after_def)
  next
    case False
    then show ?thesis using Some
      by (simp add: admission_gate_def gated_def blocking_def is_cooling_def is_active_def a Let_def)
  qed
qed

lemma gate_key_spec:
  assumes "reg_inv r"
  shows "gate_key r key now =
    Inr (r\<lparr>rg_keys := hm_modify key (gated now) (rg_keys r)\<rparr>,
         entry_blocking now (map_of (rg_keys r) key))"
  using assms hm_all_get [OF reg_invD(4) [OF assms], of key]
  by (auto simp: gate_key_def admission_gate_spec hm_modify_def split: option.split)

lemma gate_route_spec:
  assumes "reg_inv r"
  shows "gate_route r route now =
    Inr (r\<lparr>rg_routes := hm_modify route (gated now) (rg_routes r)\<rparr>,
         entry_blocking now (map_of (rg_routes r) route))"
  using assms hm_all_get [OF reg_invD(3) [OF assms], of route]
  by (auto simp: gate_route_def admission_gate_spec hm_modify_def split: option.split)

lemma hs_inv_gated: "hs_inv s \<Longrightarrow> hs_inv (gated now s)"
  by (simp add: gated_def Let_def)

definition gated_registry ::
  "route_health_registry \<Rightarrow> route_health_key \<Rightarrow> key_health_key \<Rightarrow> instant \<Rightarrow> route_health_registry" where
  "gated_registry r route key now =
    r\<lparr>rg_keys := hm_modify key (gated now) (rg_keys r),
      rg_routes := hm_modify route (gated now) (rg_routes r)\<rparr>"

lemma reserve_unfold:
  assumes "reg_inv r" "rg_enforcement_enabled r"
  shows "reserve r route key now =
    Inr (case entry_blocking now (map_of (rg_keys r) key) of
           Some a \<Rightarrow> (a, r\<lparr>rg_keys := hm_modify key (gated now) (rg_keys r)\<rparr>)
         | None \<Rightarrow> (case entry_blocking now (map_of (rg_routes r) route) of
             Some a \<Rightarrow> (a, gated_registry r route key now)
           | None \<Rightarrow> (let (lease, r') = grant_lease (gated_registry r route key now) route key now
                      in (Ready lease, r'))))"
proof -
  have "reg_inv (r\<lparr>rg_keys := hm_modify key (gated now) (rg_keys r)\<rparr>)"
    using assms(1) by (rule reg_inv_modify_key) (rule hs_inv_gated)
  with assms show ?thesis
    by (simp add: reserve_def gate_key_spec gate_route_spec gated_registry_def case_prod_unfold Let_def
        split: option.split)
qed

section \<open>A granted lease\<close>

lemma grant_lease_route_entry:
  assumes "grant_lease r route key now = (lease, r')"
  shows "map_of (rg_routes r') route =
    (case hl_route_generation lease of
       None \<Rightarrow> map_of (rg_routes r) route
     | Some g \<Rightarrow> map_option (open_half_open g (rg_half_open_ttl r) (rg_half_open_exclusive_window r) now)
         (map_of (rg_routes r) route))"
    and "hl_route_generation lease \<noteq> None \<longleftrightarrow>
      is_some_and (map_of (rg_routes r) route) (\<lambda>s. can_reserve_half_open s now)"
    and "hl_route_state_generation lease = map_option hs_state_generation (map_of (rg_routes r) route)"
    and "hl_route lease = route" "hl_key lease = key"
    and "rg_enforcement_enabled r' = rg_enforcement_enabled r"
proof -
  note defs = grant_lease_def reserve_expired_half_open_route_def reserve_expired_half_open_key_def
    next_generation_def Let_def case_prod_unfold map_of_hm_modify
  have r': "r' = snd (grant_lease r route key now)" and lease: "lease = fst (grant_lease r route key now)"
    using assms by simp_all
  show "map_of (rg_routes r') route =
    (case hl_route_generation lease of
       None \<Rightarrow> map_of (rg_routes r) route
     | Some g \<Rightarrow> map_option (open_half_open g (rg_half_open_ttl r) (rg_half_open_exclusive_window r) now)
         (map_of (rg_routes r) route))"
    unfolding r' lease by (simp add: defs split: option.split)
  show "hl_route_generation lease \<noteq> None \<longleftrightarrow>
      is_some_and (map_of (rg_routes r) route) (\<lambda>s. can_reserve_half_open s now)"
    unfolding lease by (simp add: defs split: option.split)
  show "hl_route_state_generation lease = map_option hs_state_generation (map_of (rg_routes r) route)"
    unfolding lease by (simp add: defs split: option.split)
  show "hl_route lease = route" "hl_key lease = key"
    unfolding lease by (simp_all add: defs)
  show "rg_enforcement_enabled r' = rg_enforcement_enabled r"
    unfolding r' by (simp add: defs split: option.split)
qed

lemma gated_keeps [simp]:
  "hs_last_failure_class (gated now s) = hs_last_failure_class s"
  "hs_cooldown_until (gated now s) = hs_cooldown_until s"
  "hs_state_generation (gated now s) = hs_state_generation s"
  "hs_consecutive_failures (gated now s) = hs_consecutive_failures s"
  by (simp_all add: gated_def Let_def drop_half_open_def)

lemma blocking_open_half_open:
  assumes "hs_last_failure_class s = Some c" "is_some_and (hs_cooldown_until s) (\<lambda>u. u \<le> now)"
    and "now \<le> t" "t < now + w" "w \<le> ttl"
  shows "blocking t (open_half_open g ttl w now s)
    = Some (HalfOpenBusy c half_open_busy_retry (hs_last_failure_status s))"
  using assms
  by (auto simp: blocking_def open_half_open_def is_cooling_def is_active_def is_some_and_iff)

lemma reserve_half_open_entry:
  assumes inv: "reg_inv r" and enf: "rg_enforcement_enabled r"
    and res: "reserve r route key now = Inr (Ready lease, r')"
    and gen: "hl_route_generation lease = Some g"
  obtains s c where "map_of (rg_routes r) route = Some s" "hs_last_failure_class s = Some c"
    "is_some_and (hs_cooldown_until s) (\<lambda>u. u \<le> now)"
    "map_of (rg_routes r') route =
      Some (open_half_open g (rg_half_open_ttl r) (rg_half_open_exclusive_window r) now (gated now s))"
    "rg_enforcement_enabled r'"
proof -
  have nb: "entry_blocking now (map_of (rg_keys r) key) = None"
    "entry_blocking now (map_of (rg_routes r) route) = None"
    and g: "grant_lease (gated_registry r route key now) route key now = (lease, r')"
    using res unfolding reserve_unfold [OF inv enf]
    by (auto simp: case_prod_unfold prod_eq_iff Let_def dest: entry_blocking_not_ready
        split: option.splits)
  note e = grant_lease_route_entry [OF g]
  from e(2) gen obtain s where s: "map_of (rg_routes r) route = Some s"
    and c: "can_reserve_half_open (gated now s) now"
    by (auto simp: is_some_and_iff gated_registry_def map_of_hm_modify)
  from c obtain cl where "hs_last_failure_class s = Some cl"
    "is_some_and (hs_cooldown_until s) (\<lambda>u. u \<le> now)"
    by (auto simp: can_reserve_half_open_def)
  then show ?thesis
    using that [OF s] e(1) e(6) gen s enf
    by (simp add: gated_registry_def map_of_hm_modify)
qed

lemma reserve_step_inv: "reg_inv r \<Longrightarrow> reserve r route key now = Inr (a, r') \<Longrightarrow> reg_inv r'"
  using reserve_ok [of r route key now] by auto

lemma reserve_lease_identity:
  assumes inv: "reg_inv r" and res: "reserve r route key now = Inr (Ready lease, r')"
  shows "hl_route lease = route \<and> (hl_route_generation lease = None \<longrightarrow>
    hl_route_state_generation lease = map_option hs_state_generation (map_of (rg_routes r') route))"
proof (cases "rg_enforcement_enabled r")
  case False
  with res show ?thesis
    by (auto simp: reserve_def Let_def passthrough_lease_def touch_entries_def map_of_hm_modify)
next
  case True
  have g: "grant_lease (gated_registry r route key now) route key now = (lease, r')"
    using res unfolding reserve_unfold [OF inv True]
    by (auto simp: case_prod_unfold prod_eq_iff Let_def dest: entry_blocking_not_ready
        split: option.splits)
  show ?thesis using grant_lease_route_entry [OF g] by auto
qed

lemma reserve_absent_key:
  assumes inv: "reg_inv r" and res: "reserve r route key now = Inr (a, r')"
    and key: "map_of (rg_keys r) key = None"
  shows "rg_keys r' = rg_keys r"
proof -
  have m: "hm_modify key f (rg_keys r) = rg_keys r" for f
    using key by (simp add: hm_modify_def)
  show ?thesis
  proof (cases "rg_enforcement_enabled r")
    case False
    with res m show ?thesis by (auto simp: reserve_def Let_def touch_entries_def)
  next
    case True
    with res key m show ?thesis unfolding reserve_unfold [OF inv True]
      by (auto simp: gated_registry_def grant_lease_def Let_def case_prod_unfold
          reserve_expired_half_open_key_def reserve_expired_half_open_route_def split: option.splits)
  qed
qed

lemma reserve_clear_route:
  assumes "reg_inv r" "rg_enforcement_enabled r" "map_of (rg_keys r) key = None"
    and "map_of (rg_routes r) route = Some s" "is_clear s"
  shows "\<exists>lease r'. reserve r route key t = Inr (Ready lease, r') \<and> \<not> hl_half_open lease"
  unfolding reserve_unfold [OF assms(1,2)] using assms(3-)
  by (simp add: blocking_def is_clear_def grant_lease_def Let_def case_prod_unfold gated_registry_def
      reserve_expired_half_open_key_def reserve_expired_half_open_route_def
      can_reserve_half_open_def map_of_hm_modify)

section \<open>Recording a failure\<close>

text \<open>A class that cools, outside the observe-only treatment of capacity failures.\<close>

definition cools :: "route_health_registry \<Rightarrow> route_failure_class \<Rightarrow> failure_context \<Rightarrow> bool" where
  "cools r c ctx =
    (route_failure_has_cooldown c
     \<and> \<not> (is_capacity_class c \<and> (\<not> rg_capacity_failure_cooldown_enabled r \<or> fc_capacity_sole_route ctx)))"

lemma ensure_route_capacity_entry:
  assumes "reg_inv r" "ensure_route_capacity r route now = (fits, r')"
  shows "map_of (rg_routes r') route = map_of (rg_routes r) route"
    "rg_enforcement_enabled r' = rg_enforcement_enabled r"
    "rg_transient_route_cooldown_max r' = rg_transient_route_cooldown_max r"
    "rg_half_open_ttl r' = rg_half_open_ttl r"
    "rg_half_open_exclusive_window r' = rg_half_open_exclusive_window r"
  using assms(2,1)
  by (cases rule: ensure_route_capacity_cases; auto simp: hm_contains_def)+

lemma observe_route_failure_entry:
  assumes inv: "reg_inv r" and c: "cools r c ctx" and fits: "fst (ensure_route_capacity r route now)"
  obtains r1 s where
    "map_of (rg_routes (observe_route_failure_at sha r route c ra now ctx)) route =
       Some (record_route_failure sha r1 route c ra (fc_upstream_status ctx) now
         (fc_repeat_within_request ctx \<or> fc_sole_candidate ctx) (fc_shared_host_failure_domain ctx) s)"
    "s = hm_entry_or route (health_state_new now) (rg_routes r)"
    "rg_transient_route_cooldown_max r1 = rg_transient_route_cooldown_max r"
    "rg_enforcement_enabled (observe_route_failure_at sha r route c ra now ctx)
      = rg_enforcement_enabled r"
    "rg_keys (observe_route_failure_at sha r route c ra now ctx) = rg_keys r"
proof -
  obtain r1 where e: "ensure_route_capacity r route now = (True, r1)"
    using fits by (cases "ensure_route_capacity r route now") auto
  note en = ensure_route_capacity_entry [OF inv e] ensure_route_capacity_ok(4) [OF inv e]
  then have eq: "hm_entry_or route (health_state_new now) (rg_routes r1)
      = hm_entry_or route (health_state_new now) (rg_routes r)" by (simp add: hm_entry_or_def)
  have o: "observe_route_failure_at sha r route c ra now ctx =
     r1\<lparr>rg_routes := AList.update route
       (record_route_failure sha r1 route c ra (fc_upstream_status ctx) now
         (fc_repeat_within_request ctx \<or> fc_sole_candidate ctx) (fc_shared_host_failure_domain ctx)
         (hm_entry_or route (health_state_new now) (rg_routes r))) (rg_routes r1)\<rparr>"
    using c e eq unfolding observe_route_failure_at_def cools_def
    by (auto simp: Let_def)
  show ?thesis by (rule that [of r1]) (use en in \<open>simp_all add: o\<close>)
qed

lemma record_route_failure_fields [simp]:
  "hs_last_failure_class (record_route_failure sha r route c ra us now er sh s) = Some c"
  "hs_last_failure_status (record_route_failure sha r route c ra us now er sh s) = us"
  "hs_half_open_generation (record_route_failure sha r route c ra us now er sh s) = None"
  "hs_state_generation (record_route_failure sha r route c ra us now er sh s)
     = max (u64_wrapping_add (hs_state_generation s) 1) 1"
  by (simp_all add: record_route_failure_def Let_def)

lemma generation_moves: "max (u64_wrapping_add g 1) 1 \<noteq> g"
proof -
  have less: "u64_wrapping_add g 1 < 2 ^ 64"
    unfolding u64_wrapping_add_def by (rule mod_less_divisor) simp
  consider "g < 2 ^ 64 - 1" | "g = 2 ^ 64 - 1" | "2 ^ 64 \<le> g" by linarith
  then show ?thesis
  proof cases
    case 3
    with less show ?thesis by (simp add: max_def)
  qed (simp_all add: u64_wrapping_add_def)
qed

lemma record_route_failure_deadline:
  obtains d where
    "hs_cooldown_until (record_route_failure sha r route c ra us now er sh s) = Some (now + d)"
    "d \<le> max (case ra of None \<Rightarrow> 0 | Some e \<Rightarrow> e)
            (if sh \<and> is_shared_host_domain_class c then edge_proxy_route_max
             else route_cooldown_ceiling c (rg_transient_route_cooldown_max r))"
    "\<And>e. ra = Some e \<Longrightarrow> e \<le> d"
    "c \<noteq> ConcurrencySaturated \<Longrightarrow> ra = None \<Longrightarrow> sh = False \<Longrightarrow>
       d = route_cooldown sha c (hs_consecutive_failures (record_route_failure sha r route c ra us now er sh s))
             route (rg_transient_route_cooldown_base r) (rg_transient_route_cooldown_max r)"
proof -
  let ?shared = "sh \<and> is_shared_host_domain_class c"
  let ?step = "failure_step s c now er (rg_transient_route_cooldown_max_step r) ?shared"
  let ?c = "if ?shared then EdgeProxyError else c"
  let ?local = "route_cooldown_with_concurrency_delays sha ?c ?step route
     (rg_concurrency_probe_delays r) (rg_transient_route_cooldown_base r) (rg_transient_route_cooldown_max r)"
  have l: "?local \<le> route_cooldown_ceiling ?c (rg_transient_route_cooldown_max r)"
    by (rule route_cooldown_le_ceiling)
  have edge: "route_cooldown_ceiling EdgeProxyError m = edge_proxy_route_max" for m
    by (simp add: route_cooldown_ceiling_def)
  show ?thesis
  proof (rule that [of "effective_cooldown c ra ?local"])
    show "effective_cooldown c ra ?local \<le> max (case ra of None \<Rightarrow> 0 | Some e \<Rightarrow> e)
        (if ?shared then edge_proxy_route_max
         else route_cooldown_ceiling c (rg_transient_route_cooldown_max r))"
      using l by (auto simp: effective_cooldown_def edge le_max_iff_disj split: option.split if_splits)
  qed (simp_all add: record_route_failure_def Let_def effective_cooldown_def
        route_cooldown_with_concurrency_delays_def)
qed

end
