(* ===== verification/Route_Health_Properties.thy ===== *)
theory Route_Health_Properties
  imports Route_Health_Admission
begin

text \<open>
  The properties of the route health registry. They speak of every registry that some sequence
  of the gateway's calls can produce, except where the statement itself names a weaker premise.
\<close>

section \<open>A concrete registry for the witnesses\<close>

definition sample_route :: route_health_key where
  "sample_route = \<lparr>rk_upstream_id = ''u1'', rk_key_fingerprint = ''k1'',
     rk_runtime_model_slug = ''gpt'', rk_protocol = Responses\<rparr>"

definition sample_key :: key_health_key where
  "sample_key = key_of_route sample_route"

definition sample_registry :: route_health_registry where
  "sample_registry =
    observe_route_failure (\<lambda>_. []) registry_default sample_route TransientServer None False 0"

lemma registry_default_fields:
  "rg_routes registry_default = []" "rg_keys registry_default = []"
  "rg_route_capacity registry_default = 16384" "rg_per_upstream_capacity registry_default = 4096"
  "rg_next_generation registry_default = 0"
  "rg_concurrency_probe_delays registry_default =
     map from_millis default_concurrency_probe_delays_ms"
  "rg_transient_route_cooldown_base registry_default = from_secs 5"
  "rg_transient_route_cooldown_max registry_default = from_secs 300"
  "rg_transient_route_cooldown_max_step registry_default = 2"
  "rg_half_open_ttl registry_default = from_secs 300"
  "rg_half_open_exclusive_window registry_default = from_millis 3000"
  "\<not> rg_capacity_failure_cooldown_enabled registry_default"
  "rg_enforcement_enabled registry_default"
  by (simp_all add: registry_default_def registry_new_def new_with_concurrency_probe_delays_def
      new_with_runtime_tuning_and_enforcement_def default_tuning_def Let_def clamp_step_def
      normalize_concurrency_probe_delays_def default_concurrency_probe_delays_ms_def)

lemma sample_cooldown:
  "route_cooldown (\<lambda>_. []) TransientServer (Suc 0) route (from_secs 5) (from_secs 300) = 4000000000"
  by (simp add: route_cooldown_def jittered_backoff_def u128_saturating_mul_def
      u64_from_be_bytes_def u128_max_def u64_max_def from_secs_def)

lemmas reserve_eval =
  reserve_def gate_key_def gate_route_def admission_gate_def grant_lease_def
  reserve_expired_half_open_key_def reserve_expired_half_open_route_def can_reserve_half_open_def
  is_cooling_def next_generation_def hm_modify_def open_half_open_def

definition sample_entry :: health_state where
  "sample_entry = \<lparr>hs_consecutive_failures = 1, hs_last_failure_class = Some TransientServer,
     hs_last_failure_status = None, hs_last_failure_at = Some 0,
     hs_cooldown_until = Some 4000000000, hs_half_open_generation = None,
     hs_half_open_expires_at = None, hs_half_open_exclusive_until = None,
     hs_last_early_probe_at = None, hs_state_generation = 1, hs_last_access = 0\<rparr>"

lemma sample_record:
  "record_route_failure (\<lambda>_. []) registry_default sample_route TransientServer None None 0 False False
     (health_state_new 0) = sample_entry"
  by (simp add: record_route_failure_def failure_step_def health_state_new_def
      registry_default_fields effective_cooldown_def route_cooldown_with_concurrency_delays_def
      sample_cooldown sample_entry_def u64_wrapping_add_def)

lemma sample_registry_eq:
  "sample_registry = registry_default\<lparr>rg_routes := [(sample_route, sample_entry)]\<rparr>"
  by (simp add: sample_registry_def observe_route_failure_def observe_route_failure_at_def
      plain_context_def ensure_route_capacity_def registry_default_fields hm_contains_def
      count_upstream_def hm_keys_def sample_record)

lemma registry_default_reachable:
  "reachable registry_init (registry_step sha) registry_default"
  by (simp add: registry_default_def registry_new_def new_with_concurrency_probe_delays_def
      reach_init registry_init.intros)

lemma sample_registry_reachable:
  "reachable registry_init (registry_step (\<lambda>_. [])) sample_registry"
  unfolding sample_registry_def
  by (rule reach_step [OF registry_default_reachable step_route])

lemmas registry_inv = registry.reachable_inv

section \<open>Safety of every reachable registry\<close>



text \<open>
  C2. \<open>reserve\<close> decides as the specification says, and it always returns: it never hits one of
  its \<open>expect\<close> calls. The key entry is consulted first, then the route entry; a blocking entry
  gives the answer, and with no blocking entry the caller is admitted.
\<close>

theorem reserve_refines_admission:
  assumes "reachable registry_init (registry_step sha) r" "rg_enforcement_enabled r"
  shows "\<exists>answer r'. reserve r route key now = Inr (answer, r')
    \<and> (case entry_blocking now (map_of (rg_keys r) key) of
         Some a \<Rightarrow> answer = a
       | None \<Rightarrow> (case entry_blocking now (map_of (rg_routes r) route) of
           Some a \<Rightarrow> answer = a
         | None \<Rightarrow> is_ready answer))"
  unfolding reserve_unfold [OF registry_inv [OF assms(1)] assms(2)]
  by (auto simp: case_prod_unfold Let_def split: option.split)

theorem reserve_refines_admission_witness:
  "rg_enforcement_enabled sample_registry
   \<and> (\<exists>answer r'. reserve sample_registry sample_route sample_key 1 = Inr (answer, r'))"
proof -
  have e: "rg_enforcement_enabled sample_registry"
    by (simp add: sample_registry_eq registry_default_fields)
  show ?thesis
    using e reserve_refines_admission [OF sample_registry_reachable e,
        of sample_route sample_key 1] by blast
qed


definition sample_lease :: health_lease where
  "sample_lease = \<lparr>hl_route = sample_route, hl_key = sample_key, hl_key_generation = None,
     hl_route_generation = Some 1, hl_route_state_generation = Some 1, hl_half_open = True\<rparr>"

definition sample_half_open :: route_health_registry where
  "sample_half_open = snd (projr (reserve sample_registry sample_route sample_key (from_secs 100)))"

lemma sample_half_open_reserve:
  "reserve sample_registry sample_route sample_key (from_secs 100) = Inr (Ready sample_lease, sample_half_open)"
  by (simp add: sample_half_open_def sample_registry_eq sample_entry_def sample_lease_def
      registry_default_fields reserve_eval u64_wrapping_add_def Let_def from_secs_def)

lemma sample_half_open_eq:
  "sample_half_open = registry_default\<lparr>rg_next_generation := 1,
     rg_routes := [(sample_route, open_half_open 1 (from_secs 300) (from_millis 3000) (from_secs 100)
       sample_entry)]\<rparr>"
  by (simp add: sample_half_open_def sample_registry_eq sample_entry_def
      registry_default_fields reserve_eval u64_wrapping_add_def Let_def from_secs_def)


text \<open>
  With enforcement switched off \<open>reserve\<close> admits every route without a half-open lease and
  changes nothing but access times: no cooldown, streak or lease of any entry moves.
\<close>

theorem passthrough_admits:
  assumes "\<not> rg_enforcement_enabled r"
  shows "\<exists>lease r'. reserve r route key now = Inr (Ready lease, r')
    \<and> \<not> hl_half_open lease \<and> hl_key_generation lease = None \<and> hl_route_generation lease = None
    \<and> (\<forall>k. map_option (\<lambda>s. s\<lparr>hs_last_access := 0\<rparr>) (map_of (rg_routes r') k)
           = map_option (\<lambda>s. s\<lparr>hs_last_access := 0\<rparr>) (map_of (rg_routes r) k))
    \<and> (\<forall>k. map_option (\<lambda>s. s\<lparr>hs_last_access := 0\<rparr>) (map_of (rg_keys r') k)
           = map_option (\<lambda>s. s\<lparr>hs_last_access := 0\<rparr>) (map_of (rg_keys r) k))"
  using assms
  by (simp add: reserve_def Let_def passthrough_lease_def touch_entries_def map_of_hm_modify
      option.map_comp comp_def)

theorem passthrough_admits_witness:
  "\<not> rg_enforcement_enabled (set_route_health_enforcement_enabled sample_registry False)
   \<and> (\<exists>lease r'. reserve (set_route_health_enforcement_enabled sample_registry False)
        sample_route sample_key 0 = Inr (Ready lease, r') \<and> \<not> hl_half_open lease)"
proof -
  have e: "\<not> rg_enforcement_enabled (set_route_health_enforcement_enabled sample_registry False)"
    by (simp add: set_route_health_enforcement_enabled_def)
  show ?thesis using e passthrough_admits [OF e, of sample_route sample_key 0] by blast
qed

section \<open>The cooldown cycle\<close>






text \<open>
  A success reported under a lease that was taken before a newer failure of the route does
  not erase that failure: the entry is exactly what the failure left.
\<close>

theorem stale_success_keeps_failure:
  assumes reach: "reachable registry_init (registry_step sha) r"
    and res: "reserve r route key t0 = Inr (Ready lease, r')"
    and c: "cools r' c ctx" and fits: "fst (ensure_route_capacity r' route now)"
  shows "map_of (rg_routes (finish sha (observe_route_failure_at sha r' route c ra now ctx) lease t1 Success)) route
    = map_of (rg_routes (observe_route_failure_at sha r' route c ra now ctx)) route"
proof -
  let ?r = "observe_route_failure_at sha r' route c ra now ctx"
  note inv = registry_inv [OF reach]
  note inv' = reserve_step_inv [OF inv res]
  obtain r1 s where e: "map_of (rg_routes ?r) route =
       Some (record_route_failure sha r1 route c ra (fc_upstream_status ctx) now
         (fc_repeat_within_request ctx \<or> fc_sole_candidate ctx) (fc_shared_host_failure_domain ctx) s)"
    (is "_ = Some ?s") and s: "s = hm_entry_or route (health_state_new now) (rg_routes r')"
    using observe_route_failure_entry [OF inv' c fits] by metis
  have lease: "hl_route lease = route \<and> (hl_route_generation lease = None \<longrightarrow>
      hl_route_state_generation lease = map_option hs_state_generation (map_of (rg_routes r') route))"
    by (rule reserve_lease_identity [OF inv res])
  have "\<not> owns_observation lease ?s"
  proof (cases "map_of (rg_routes r') route")
    case None
    with lease show ?thesis by (auto simp: owns_observation_def)
  next
    case (Some s')
    with s have "hs_state_generation s = hs_state_generation s'" by simp
    with Some lease show ?thesis
      using generation_moves [of "hs_state_generation s'"] by (auto simp: owns_observation_def)
  qed
  with e lease show ?thesis
    by (auto simp: clear_route_for_success_def clear_key_def release_key_lease_def Let_def
        map_of_hm_modify)
qed

lemma sample_fits:
  "cools sample_half_open TransientServer ctx"
  "fst (ensure_route_capacity sample_half_open sample_route now)"
proof -
  show "fst (ensure_route_capacity sample_half_open sample_route now)"
    by (simp add: sample_half_open_eq ensure_route_capacity_def hm_contains_def)
qed (simp add: cools_def)

theorem stale_success_keeps_failure_witness:
  "reserve sample_registry sample_route sample_key (from_secs 100) = Inr (Ready sample_lease, sample_half_open)
   \<and> map_of (rg_routes (finish (\<lambda>_. []) (observe_route_failure_at (\<lambda>_. []) sample_half_open sample_route
        TransientServer None (from_secs 101) (plain_context False)) sample_lease (from_secs 102) Success))
        sample_route
    = map_of (rg_routes (observe_route_failure_at (\<lambda>_. []) sample_half_open sample_route
        TransientServer None (from_secs 101) (plain_context False))) sample_route"
  using sample_half_open_reserve
    stale_success_keeps_failure [OF sample_registry_reachable sample_half_open_reserve sample_fits,
      where ra = None and now = "from_secs 101" and ctx = "plain_context False"]
  by blast

text \<open>
  The holder of a half-open lease that reports success closes the cycle: the route's entry is
  cleared, and the next caller is admitted with an ordinary lease.
\<close>

theorem probe_success_restores_route:
  assumes reach: "reachable registry_init (registry_step sha) r" and enf: "rg_enforcement_enabled r"
    and res: "reserve r route key now = Inr (Ready lease, r')"
    and gen: "hl_route_generation lease \<noteq> None"
    and key: "map_of (rg_keys r) key = None"
  shows "\<exists>s lease' r''. map_of (rg_routes (finish sha r' lease t1 Success)) route = Some s \<and> is_clear s
    \<and> reserve (finish sha r' lease t1 Success) route key t2 = Inr (Ready lease', r'')
    \<and> \<not> hl_half_open lease'"
proof -
  let ?r = "finish sha r' lease t1 Success"
  note inv = registry_inv [OF reach]
  obtain g where g: "hl_route_generation lease = Some g" using gen by blast
  obtain s where s: "map_of (rg_routes r') route =
        Some (open_half_open g (rg_half_open_ttl r) (rg_half_open_exclusive_window r) now (gated now s))"
      (is "_ = Some ?h") and enf': "rg_enforcement_enabled r'"
    by (rule reserve_half_open_entry [OF inv enf res g])
  have lease: "hl_route lease = route" using reserve_lease_identity [OF inv res] by blast
  have keys: "rg_keys r' = rg_keys r" using reserve_absent_key [OF inv res key] .
  have "owns_observation lease ?h" using g by (simp add: owns_observation_def open_half_open_def)
  then have e: "map_of (rg_routes ?r) route = Some (hs_clear ?h t1)"
    using s lease by (simp add: clear_route_for_success_def clear_key_def release_key_lease_def
        Let_def map_of_hm_modify)
  have inv': "reg_inv ?r" using reserve_step_inv [OF inv res] by (rule reg_inv_finish)
  have enf'': "rg_enforcement_enabled ?r"
    using enf' by (simp add: clear_route_for_success_def clear_key_def release_key_lease_def Let_def)
  have lk: "map_of (rg_keys ?r) key = None"
    using key keys by (auto simp: clear_route_for_success_def clear_key_def release_key_lease_def
        Let_def map_of_hm_modify)
  have "\<exists>lease' r''. reserve ?r route key t2 = Inr (Ready lease', r'') \<and> \<not> hl_half_open lease'"
    by (rule reserve_clear_route [OF inv' enf'' lk e is_clear_hs_clear])
  then show ?thesis using e is_clear_hs_clear by blast
qed

theorem probe_success_restores_route_witness:
  "hl_route_generation sample_lease \<noteq> None
   \<and> (\<exists>lease' r''. reserve (finish (\<lambda>_. []) sample_half_open sample_lease (from_secs 101) Success)
        sample_route sample_key (from_secs 102) = Inr (Ready lease', r'') \<and> \<not> hl_half_open lease')"
proof -
  have g: "hl_route_generation sample_lease \<noteq> None" by (simp add: sample_lease_def)
  have "map_of (rg_keys sample_registry) sample_key = None" "rg_enforcement_enabled sample_registry"
    by (simp_all add: sample_registry_eq registry_default_fields)
  with probe_success_restores_route [OF sample_registry_reachable _ sample_half_open_reserve g,
      where ?t1.0 = "from_secs 101" and ?t2.0 = "from_secs 102"]
  show ?thesis using g by blast
qed

section \<open>Capacity failures and eviction\<close>

text \<open>
  A rate-limit or quota failure that the configuration treats as observe-only changes the
  admission state of no route: every entry that is present afterwards either kept its cooldown,
  streak, generation and half-open lease, or is the fresh entry of the failing route, which has
  neither a cooldown nor a lease.
\<close>

theorem capacity_failure_observe_only:
  assumes "reachable registry_init (registry_step sha) r" "is_capacity_class c"
    and "\<not> rg_capacity_failure_cooldown_enabled r \<or> fc_capacity_sole_route ctx"
    and "map_of (rg_routes (observe_route_failure_at sha r route c ra now ctx)) k = Some s'"
  shows "(\<exists>s. map_of (rg_routes r) k = Some s
      \<and> hs_cooldown_until s' = hs_cooldown_until s
      \<and> hs_consecutive_failures s' = hs_consecutive_failures s
      \<and> hs_half_open_generation s' = hs_half_open_generation s
      \<and> hs_half_open_expires_at s' = hs_half_open_expires_at s
      \<and> hs_half_open_exclusive_until s' = hs_half_open_exclusive_until s)
    \<or> (k = route \<and> map_of (rg_routes r) k = None \<and> hs_cooldown_until s' = None
      \<and> hs_half_open_generation s' = None \<and> hs_consecutive_failures s' = 0)"
proof -
  obtain fits r1 where e: "ensure_route_capacity r route now = (fits, r1)" by force
  note inv = registry_inv [OF assms(1)]
  have has: "route_failure_has_cooldown c" using assms(2) by (cases c) auto
  have sub: "map_of (rg_routes r) k = Some s" if "map_of (rg_routes r1) k = Some s" for k s
    using e inv that by (cases rule: ensure_route_capacity_cases) (auto split: if_splits)
  show ?thesis
  proof (cases fits)
    case False
    with assms e has show ?thesis
      by (auto simp: observe_route_failure_at_def observe_capacity_route_failure_at_def dest!: sub)
  next
    case True
    with assms e has ensure_route_capacity_entry(1) [OF inv e] show ?thesis
      by (cases "map_of (rg_routes r) route")
        (auto simp: observe_route_failure_at_def observe_capacity_route_failure_at_def Let_def
          health_state_new_def dest!: sub split: if_splits)
  qed
qed

definition rate_limited_sample :: route_health_registry where
  "rate_limited_sample = observe_route_failure_at (\<lambda>_. []) sample_registry sample_route RateLimited None 5
     (plain_context False)"

theorem capacity_failure_observe_only_witness:
  "\<exists>s'. map_of (rg_routes rate_limited_sample) sample_route = Some s'
     \<and> hs_last_failure_class s' = Some RateLimited
     \<and> ((\<exists>s. map_of (rg_routes sample_registry) sample_route = Some s
            \<and> hs_cooldown_until s' = hs_cooldown_until s)
         \<or> map_of (rg_routes sample_registry) sample_route = None)"
proof -
  have m: "map_of (rg_routes rate_limited_sample) sample_route
      = Some (sample_entry\<lparr>hs_last_failure_class := Some RateLimited, hs_last_failure_at := Some 5,
                hs_last_access := 5\<rparr>)"
    by (simp add: rate_limited_sample_def observe_route_failure_at_def sample_registry_eq
        registry_default_fields observe_capacity_route_failure_at_def ensure_route_capacity_def
        hm_contains_def count_cooldown_skip_def plain_context_def sample_entry_def)
  have d: "\<not> rg_capacity_failure_cooldown_enabled sample_registry"
    by (simp add: sample_registry_eq registry_default_fields)
  show ?thesis
    using capacity_failure_observe_only [OF sample_registry_reachable _ _
        m [unfolded rate_limited_sample_def]] d m by auto
qed

text \<open>
  Making room for a new route entry never drops the entry of a route whose half-open lease is
  still running, and never drops anything when the table has room: a failure observed on one
  route leaves every other entry either untouched or evicted while idle.
\<close>

theorem eviction_spares_active_routes:
  assumes "reachable registry_init (registry_step sha) r"
    and "map_of (rg_routes r) k = Some s" "k \<noteq> route"
    and "is_active s now \<or> hm_contains (rg_routes r) route
      \<or> (length (rg_routes r) < rg_route_capacity r
          \<and> count_upstream rk_upstream_id (rk_upstream_id route) (rg_routes r) < rg_per_upstream_capacity r)"
  shows "map_of (rg_routes (observe_route_failure_at sha r route c ra now ctx)) k = Some s"
proof -
  note inv = registry_inv [OF assms(1)]
  obtain fits r1 where e: "ensure_route_capacity r route now = (fits, r1)" by force
  have keep: "map_of (rg_routes r1) k = Some s"
    using assms(4)
  proof (elim disjE)
    assume "is_active s now"
    then show ?thesis by (rule ensure_route_capacity_ok(3) [OF inv e assms(2)])
  next
    assume "hm_contains (rg_routes r) route"
    with e assms(2) show ?thesis by (auto simp: ensure_route_capacity_def)
  next
    assume "length (rg_routes r) < rg_route_capacity r
          \<and> count_upstream rk_upstream_id (rk_upstream_id route) (rg_routes r) < rg_per_upstream_capacity r"
    with e assms(2) show ?thesis by (auto simp: ensure_route_capacity_def not_le split: if_splits)
  qed
  show ?thesis
    using assms(2,3) keep e
    by (auto simp: observe_route_failure_at_def clear_route_def observe_capacity_route_failure_at_def
        Let_def map_of_hm_modify)
qed

theorem eviction_spares_active_routes_witness:
  "map_of (rg_routes sample_registry) sample_route = Some sample_entry
   \<and> map_of (rg_routes (observe_route_failure_at (\<lambda>_. []) sample_registry
        (sample_route\<lparr>rk_key_fingerprint := ''k2''\<rparr>) Transport None 9 (plain_context False))) sample_route
     = Some sample_entry"
proof -
  have m: "map_of (rg_routes sample_registry) sample_route = Some sample_entry"
    by (simp add: sample_registry_eq)
  show ?thesis
    using m eviction_spares_active_routes [OF sample_registry_reachable m,
        of "sample_route\<lparr>rk_key_fingerprint := ''k2''\<rparr>" 9 Transport None "plain_context False"]
    by (simp add: sample_registry_eq registry_default_fields sample_route_def count_upstream_def hm_keys_def)
qed

section \<open>Recovery and the early probe\<close>

text \<open>
  \<open>earliest_temporary_recovery\<close> answers with the recovery of one of the given routes, that
  recovery is temporary, and no given route that can recover has an earlier one.
\<close>

theorem earliest_recovery_minimal:
  assumes "earliest_temporary_recovery r routes now = Some rec"
  shows "\<exists>route\<in>set routes. temporary_recovery_for_route r route now = Some rec
    \<and> is_temporary (rr_class rec)
    \<and> (\<forall>route'\<in>set routes. \<forall>rec'. temporary_recovery_for_route r route' now = Some rec' \<longrightarrow>
         rr_retry_after rec \<le> rr_retry_after rec')"
proof -
  from min_by_key_SomeD [OF assms [unfolded earliest_temporary_recovery_def]]
  obtain route where r: "route \<in> set routes" "temporary_recovery_for_route r route now = Some rec"
    and least: "\<And>route' rec'. route' \<in> set routes \<Longrightarrow>
      temporary_recovery_for_route r route' now = Some rec' \<Longrightarrow> recovery_key rec \<le> recovery_key rec'"
    by (force simp: map_filter_def)
  from r(2) have "is_temporary (rr_class rec)"
    by (auto simp: temporary_recovery_for_route_def Let_def list_ex_iff dest!: max_by_key_SomeD
        split: if_splits)
  moreover have "recovery_key rec \<le> recovery_key rec' \<Longrightarrow> rr_retry_after rec \<le> rr_retry_after rec'" for rec'
    by (auto simp: recovery_key_def less_eq_prod_def)
  ultimately show ?thesis using r least by blast
qed

theorem earliest_recovery_minimal_witness:
  "\<exists>rec. earliest_temporary_recovery sample_registry [sample_route] 1000000000 = Some rec
     \<and> rr_retry_after rec = 3000000000 \<and> is_temporary (rr_class rec)"
proof -
  have e: "earliest_temporary_recovery sample_registry [sample_route] 1000000000
      = Some \<lparr>rr_class = TransientServer, rr_retry_after = 3000000000, rr_half_open_remaining = None\<rparr>"
    by (simp add: earliest_temporary_recovery_def temporary_recovery_for_route_def sample_registry_eq
        registry_default_fields option_list_def map_filter_def health_state_recovery_def
        sample_entry_def is_active_def hs_retry_after_def saturating_duration_since_def Let_def)
  show ?thesis using e earliest_recovery_minimal [OF e] by auto
qed

lemma probe_key_gate_spec:
  assumes "reg_inv r"
  shows "probe_key_gate r key now = Inr (r', early) \<Longrightarrow>
    rg_routes r' = rg_routes r \<and> reg_inv r' \<and> (early = None \<longleftrightarrow> \<not> is_some_and (map_of (rg_keys r) key) (\<lambda>s. is_cooling s now \<or> is_active s now))
    \<and> rg_half_open_ttl r' = rg_half_open_ttl r \<and> rg_enforcement_enabled r' = rg_enforcement_enabled r
    \<and> (\<forall>a. early = Some a \<longrightarrow> \<not> is_ready a)"
  using probe_key_gate_ok [OF assms, of key now]
  by (auto simp: probe_key_gate_def Let_def is_cooling_def is_active_def expect_def
      split: option.splits if_splits)

text \<open>
  The last-resort probe panics exactly when enforcement is on, the key is neither cooling nor
  leased, and the route's entry exists without a failure class. The code's comments say a route
  with nothing left to probe is refused, but it unwraps the failure class before it tests the
  cooldown, and a successful request leaves exactly such a cleared entry behind.
\<close>

theorem early_probe_panic_iff:
  assumes "reachable registry_init (registry_step sha) r"
  shows "(\<exists>e. reserve_route_health_probe r route key now = Inl e) \<longleftrightarrow>
    rg_enforcement_enabled r
    \<and> \<not> is_some_and (map_of (rg_keys r) key) (\<lambda>s. is_cooling s now \<or> is_active s now)
    \<and> is_some_and (map_of (rg_routes r) route) (\<lambda>s. hs_last_failure_class s = None)"
proof -
  note inv = registry_inv [OF assms]
  obtain r1 early where g: "probe_key_gate r key now = Inr (r1, early)"
    using probe_key_gate_ok [OF inv] by blast
  note spec = probe_key_gate_spec [OF inv g]
  show ?thesis
  proof (cases "rg_enforcement_enabled r")
    case False
    then show ?thesis by (simp add: reserve_route_health_probe_def Let_def)
  next
    case True
    with g spec show ?thesis
      by (auto simp: reserve_route_health_probe_def Let_def case_prod_unfold expect_def bind_ok_Inl_iff
          split: option.splits)
  qed
qed

definition sample_recovered :: route_health_registry where
  "sample_recovered = finish (\<lambda>_. []) sample_half_open sample_lease (from_secs 101) Success"

theorem early_probe_panic_iff_witness:
  "\<exists>e. reserve_route_health_probe sample_recovered sample_route sample_key (from_secs 102) = Inl e"
proof -
  have r: "reachable registry_init (registry_step (\<lambda>_. [])) sample_recovered"
    unfolding sample_recovered_def
    by (rule reach_step [OF reach_step [OF sample_registry_reachable
          step_reserve [OF sample_half_open_reserve]] step_finish])
  have "map_of (rg_keys sample_recovered) sample_key = None" "rg_enforcement_enabled sample_recovered"
    "is_some_and (map_of (rg_routes sample_recovered) sample_route) (\<lambda>s. hs_last_failure_class s = None)"
    by (simp_all add: sample_recovered_def sample_half_open_eq sample_lease_def Let_def
        clear_route_for_success_def release_key_lease_def registry_default_fields hm_modify_def
        owns_observation_def open_half_open_def hs_clear_def)
  then show ?thesis by (simp add: early_probe_panic_iff [OF r])
qed

lemma grant_early_probe_entry:
  assumes "grant_early_probe r route key s now = (lease, r')" "map_of (rg_routes r) route = Some s"
  shows "\<exists>g. hl_route_generation lease = Some g \<and> map_of (rg_routes r') route =
      Some (open_early_probe g (hs_cooldown_until s) (rg_half_open_ttl r) (rg_half_open_exclusive_window r) now s)
    \<and> rg_enforcement_enabled r' = rg_enforcement_enabled r"
  using assms
  by (auto simp: grant_early_probe_def reserve_expired_half_open_key_def next_generation_def Let_def
        case_prod_unfold map_of_hm_modify split: if_splits)

lemma probe_ready_entry:
  assumes inv: "reg_inv r" and enf: "rg_enforcement_enabled r"
    and res: "reserve_route_health_probe r route key now = Inr (Ready lease, r')"
  obtains s c g w where "map_of (rg_routes r) route = Some s" "is_cooling s now" "\<not> is_active s now"
    "hs_last_failure_class s = Some c"
    "map_of (rg_routes r') route = Some (open_early_probe g (hs_cooldown_until s) (rg_half_open_ttl r) w now
        (s\<lparr>hs_last_access := now\<rparr>))"
    "hl_route_generation lease = Some g" "rg_enforcement_enabled r'"
proof -
  obtain r1 early where g: "probe_key_gate r key now = Inr (r1, early)"
    using probe_key_gate_ok [OF inv] by blast
  note spec = probe_key_gate_spec [OF inv g]
  have early: "early = None"
    using enf res spec by (cases early) (auto simp: reserve_route_health_probe_def g)
  with enf res spec obtain s where s: "map_of (rg_routes r) route = Some s"
    by (cases "map_of (rg_routes r) route") (auto simp: reserve_route_health_probe_def g)
  let ?s = "s\<lparr>hs_last_access := now\<rparr>"
  let ?r2 = "r1\<lparr>rg_routes := AList.update route ?s (rg_routes r1)\<rparr>"
  have b: "bind_ok (expect ''cooling route health must retain its failure class'' (hs_last_failure_class ?s))
      (\<lambda>c. case early_probe_refusal ?s c now of Some answer \<Rightarrow> Inr (answer, ?r2)
         | None \<Rightarrow> (let (lease, r3) = grant_early_probe ?r2 route key ?s now in Inr (Ready lease, r3)))
    = Inr (Ready lease, r')"
    using enf res early spec s unfolding reserve_route_health_probe_def g Let_def
    by simp
  then obtain c where c: "hs_last_failure_class s = Some c" "early_probe_refusal ?s c now = None"
    and gr: "grant_early_probe ?r2 route key ?s now = (lease, r')"
    by (auto simp: bind_ok_Inr_iff expect_def Let_def case_prod_unfold prod_eq_iff early_probe_refusal_def
        split: option.splits if_splits)
  have "is_cooling s now" "\<not> is_active s now"
    using c(2) by (auto simp: early_probe_refusal_def is_cooling_def is_active_def split: if_splits)
  moreover obtain g where "hl_route_generation lease = Some g" "map_of (rg_routes r') route =
      Some (open_early_probe g (hs_cooldown_until s) (rg_half_open_ttl r) (rg_half_open_exclusive_window r1) now ?s)"
    "rg_enforcement_enabled r'"
    using grant_early_probe_entry [OF gr] spec enf by auto
  ultimately show ?thesis by (intro that [OF s _ _ c(1)])
qed

text \<open>
  The last-resort probe is single-flight: it is granted only on a cooling route without a
  running lease, and until the granted lease expires every further probe of the route is refused.
\<close>

theorem early_probe_single_flight:
  assumes reach: "reachable registry_init (registry_step sha) r" and enf: "rg_enforcement_enabled r"
    and res: "reserve_route_health_probe r route key now = Inr (Ready lease, r')"
    and t: "t < now + rg_half_open_ttl r"
  shows "is_some_and (map_of (rg_routes r) route) (\<lambda>s. is_cooling s now \<and> \<not> is_active s now)
    \<and> (\<exists>answer r''. reserve_route_health_probe r' route key' t = Inr (answer, r'') \<and> \<not> is_ready answer)"
proof -
  note inv = registry_inv [OF reach]
  note inv' = reg_inv_reserve_probe [OF inv res]
  obtain s c g w where s: "map_of (rg_routes r) route = Some s" "is_cooling s now" "\<not> is_active s now"
    "hs_last_failure_class s = Some c"
    "map_of (rg_routes r') route = Some (open_early_probe g (hs_cooldown_until s) (rg_half_open_ttl r) w now
        (s\<lparr>hs_last_access := now\<rparr>))" (is "_ = Some ?s")
    and enf': "rg_enforcement_enabled r'"
    by (rule probe_ready_entry [OF inv enf res])
  obtain r1 early where g: "probe_key_gate r' key' t = Inr (r1, early)"
    using probe_key_gate_ok [OF inv'] by blast
  note spec = probe_key_gate_spec [OF inv' g]
  have a: "is_active (?s\<lparr>hs_last_access := t\<rparr>) t" "hs_last_failure_class ?s = Some c"
    using t s(4) by (simp_all add: is_active_def open_early_probe_def)
  have "\<exists>answer r''. reserve_route_health_probe r' route key' t = Inr (answer, r'') \<and> \<not> is_ready answer"
    using enf' g spec s(5) a
    by (cases early) (auto simp: reserve_route_health_probe_def Let_def early_probe_refusal_def)
  with s(1-3) show ?thesis by simp
qed

theorem early_probe_single_flight_witness:
  "\<exists>lease r'. reserve_route_health_probe sample_registry sample_route sample_key 1 = Inr (Ready lease, r')
     \<and> (\<exists>answer r''. reserve_route_health_probe r' sample_route sample_key 2 = Inr (answer, r'')
          \<and> \<not> is_ready answer)"
proof -
  have e: "rg_enforcement_enabled sample_registry" "2 < 1 + rg_half_open_ttl sample_registry"
    by (simp_all add: sample_registry_eq registry_default_fields from_secs_def)
  have "\<exists>lease r'. reserve_route_health_probe sample_registry sample_route sample_key 1 = Inr (Ready lease, r')"
    by (simp add: reserve_route_health_probe_def sample_registry_eq registry_default_fields
        probe_key_gate_def sample_entry_def early_probe_refusal_def is_active_def is_cooling_def Let_def
        case_prod_unfold)
  then show ?thesis using early_probe_single_flight [OF sample_registry_reachable e(1) _ e(2)] by blast
qed

end
