(* ===== verification/Route_Health_Permit.thy ===== *)
theory Route_Health_Permit
  imports Route_Health_Properties
begin

text \<open>
  The permit a request holds while it uses a route (\<open>RouteHealthPermit\<close> in
  \<open>src/src/state/route_health.rs\<close>) with the process-local backend, and the summary the
  administration views compute from the registry. A permit ends by \<open>finish\<close>, by being dropped,
  or is settled at the first semantic output and then lives on without a lease. The Redis
  backend talks to a server through scripts and is not modelled.
\<close>

section \<open>Permits\<close>

datatype permit_backend =
    LocalBackend health_lease
  | SettledBackend route_health_key key_health_key

record route_health_permit =
  pm_backend :: "permit_backend option"

definition new_local :: "health_lease \<Rightarrow> route_health_permit" where
  "new_local lease = \<lparr>pm_backend = Some (LocalBackend lease)\<rparr>"

definition permit_is_half_open :: "route_health_permit \<Rightarrow> bool" where
  "permit_is_half_open p = is_some_and (pm_backend p)
    (\<lambda>b. case b of LocalBackend lease \<Rightarrow> hl_half_open lease | SettledBackend _ _ \<Rightarrow> False)"

definition permit_route :: "route_health_permit \<Rightarrow> route_health_key option" where
  "permit_route p = map_option
    (\<lambda>b. case b of LocalBackend lease \<Rightarrow> hl_route lease | SettledBackend route _ \<Rightarrow> route)
    (pm_backend p)"

text \<open>A failure after the first semantic output is observed without a lease.\<close>

fun observe_settled ::
  "(byte list \<Rightarrow> byte list) \<Rightarrow> route_health_registry \<Rightarrow> route_health_key \<Rightarrow> key_health_key \<Rightarrow>
   instant \<Rightarrow> route_outcome \<Rightarrow> route_health_registry" where
  "observe_settled sha r route key now Success = r"
| "observe_settled sha r route key now Cancelled = r"
| "observe_settled sha r route key now (RouteFailure class ctx) =
    observe_route_failure sha r route class None (fc_shared_host_failure_domain ctx) now"
| "observe_settled sha r route key now (RouteFailureWithRetry class retry_after ctx) =
    observe_route_failure sha r route class (Some retry_after)
      (fc_shared_host_failure_domain ctx) now"
| "observe_settled sha r route key now (KeyFailure class) =
    observe_key_failure sha r key class None now"
| "observe_settled sha r route key now (KeyFailureWithRetry class retry_after) =
    observe_key_failure sha r key class (Some retry_after) now"
| "observe_settled sha r route key now (UncertainRouteFailure class) =
    observe_route_failure sha r route class None False now"

definition permit_finish ::
  "(byte list \<Rightarrow> byte list) \<Rightarrow> route_health_registry \<Rightarrow> route_health_permit \<Rightarrow> instant \<Rightarrow>
   route_outcome \<Rightarrow> route_health_registry" where
  "permit_finish sha r p now outcome =
    (case pm_backend p of
       None \<Rightarrow> r
     | Some (LocalBackend lease) \<Rightarrow> finish sha r lease now outcome
     | Some (SettledBackend route key) \<Rightarrow> observe_settled sha r route key now outcome)"

definition settle_healthy ::
  "(byte list \<Rightarrow> byte list) \<Rightarrow> route_health_registry \<Rightarrow> route_health_permit \<Rightarrow> instant \<Rightarrow>
   route_health_registry \<times> route_health_permit" where
  "settle_healthy sha r p now =
    (case pm_backend p of
       None \<Rightarrow> (r, p)
     | Some (LocalBackend lease) \<Rightarrow>
         (remove_cleared_route_and_key (finish sha r lease now Success) (hl_route lease) (hl_key lease),
          p\<lparr>pm_backend := Some (SettledBackend (hl_route lease) (hl_key lease))\<rparr>)
     | Some (SettledBackend route key) \<Rightarrow> (r, p))"

text \<open>
  \<open>Drop\<close>: a live permit is cancelled on the runtime, if one is running; the argument
  \<open>runtime_running\<close> is the answer of \<open>Handle::try_current\<close> and \<open>now\<close> the instant at which the
  spawned task runs.
\<close>

definition permit_drop ::
  "(byte list \<Rightarrow> byte list) \<Rightarrow> route_health_registry \<Rightarrow> route_health_permit \<Rightarrow> bool \<Rightarrow> instant \<Rightarrow>
   route_health_registry" where
  "permit_drop sha r p runtime_running now =
    (case pm_backend p of
       None \<Rightarrow> r
     | Some (SettledBackend _ _) \<Rightarrow> r
     | Some (LocalBackend lease) \<Rightarrow>
         if \<not> runtime_running then r else finish sha r lease now Cancelled)"

section \<open>Summaries\<close>

record route_health_snapshot_dto =
  sd_healthy_routes :: nat
  sd_cooldown_routes :: nat
  sd_half_open_routes :: nat
  sd_legacy_local_admission_poisoned_routes :: nat
  sd_earliest_retry_after_seconds :: "nat option"
  sd_failure_classes :: "(string, nat) hashmap"

definition duration_seconds_ceil :: "duration \<Rightarrow> nat" where
  "duration_seconds_ceil d =
    u64_saturating_add (as_secs d) (if subsec_nanos d > 0 then 1 else 0)"

definition increment_failure_class ::
  "route_health_snapshot_dto \<Rightarrow> route_failure_class option \<Rightarrow> route_health_snapshot_dto" where
  "increment_failure_class snapshot class =
    (case class of
       None \<Rightarrow> snapshot
     | Some c \<Rightarrow> snapshot\<lparr>sd_failure_classes := AList.update (class_as_str c)
         (hm_entry_or (class_as_str c) 0 (sd_failure_classes snapshot) + 1)
         (sd_failure_classes snapshot)\<rparr>)"

definition summarize_route ::
  "(route_health_key \<Rightarrow> health_state_snapshot option) \<Rightarrow> (key_health_key \<Rightarrow> health_state_snapshot option) \<Rightarrow>
   route_health_key \<Rightarrow> route_health_snapshot_dto \<Rightarrow> route_health_snapshot_dto" where
  "summarize_route route_snapshot key_snapshot route snapshot =
    (let key_state = key_snapshot (key_of_route route);
         route_state = route_snapshot route
     in case or_else (filter_option sn_half_open key_state) (filter_option sn_half_open route_state) of
          Some s \<Rightarrow> increment_failure_class
            (snapshot\<lparr>sd_half_open_routes := sd_half_open_routes snapshot + 1\<rparr>) (sn_last_failure_class s)
        | None \<Rightarrow>
            (case or_else (filter_option (\<lambda>s. sn_cooldown_remaining s > 0) key_state)
                          (filter_option (\<lambda>s. sn_cooldown_remaining s > 0) route_state) of
               Some s \<Rightarrow>
                 (let snapshot1 = increment_failure_class
                        (snapshot\<lparr>sd_cooldown_routes := sd_cooldown_routes snapshot + 1\<rparr>)
                        (sn_last_failure_class s);
                      retry_after = duration_seconds_ceil (sn_cooldown_remaining s)
                  in snapshot1\<lparr>sd_earliest_retry_after_seconds :=
                       Some (case sd_earliest_retry_after_seconds snapshot1 of
                               None \<Rightarrow> retry_after | Some current \<Rightarrow> min current retry_after)\<rparr>)
             | None \<Rightarrow> snapshot\<lparr>sd_healthy_routes := sd_healthy_routes snapshot + 1\<rparr>))"

definition summarize_route_health_routes ::
  "route_health_key list \<Rightarrow> (route_health_key \<Rightarrow> health_state_snapshot option) \<Rightarrow>
   (key_health_key \<Rightarrow> health_state_snapshot option) \<Rightarrow> route_health_snapshot_dto" where
  "summarize_route_health_routes routes route_snapshot key_snapshot =
    foldl (\<lambda>snapshot route. summarize_route route_snapshot key_snapshot route snapshot)
      \<lparr>sd_healthy_routes = 0, sd_cooldown_routes = 0, sd_half_open_routes = 0,
       sd_legacy_local_admission_poisoned_routes = 0, sd_earliest_retry_after_seconds = None,
       sd_failure_classes = map (\<lambda>c. (class_as_str c, 0)) failure_class_all\<rparr>
      routes"

text \<open>\<open>upstream_snapshot\<close>, with the enumerated routes of the upstream as an argument.\<close>

definition upstream_snapshot ::
  "route_health_registry \<Rightarrow> route_health_key list \<Rightarrow> instant \<Rightarrow> route_health_snapshot_dto" where
  "upstream_snapshot r routes now =
    (let legacy_threshold =
           legacy_local_admission_cooldown_threshold (rg_concurrency_probe_delays r);
         poisoned = length (filter (\<lambda>s.
             hs_last_failure_class s = Some ConcurrencySaturated
             \<and> hs_last_failure_status s = None
             \<and> hs_retry_after s now > legacy_threshold)
           (List.map_filter (\<lambda>route. map_of (rg_routes r) route) routes))
     in (summarize_route_health_routes routes
          (\<lambda>route. map_option (\<lambda>s. health_snapshot s now) (map_of (rg_routes r) route))
          (\<lambda>key. map_option (\<lambda>s. health_snapshot s now) (map_of (rg_keys r) key)))
        \<lparr>sd_legacy_local_admission_poisoned_routes := poisoned\<rparr>)"

section \<open>Permits keep the registry invariant\<close>

lemma reg_inv_observe_settled: "reg_inv r \<Longrightarrow> reg_inv (observe_settled sha r route key now outcome)"
  by (cases outcome) (simp_all add: observe_route_failure_def observe_key_failure_def
      reg_inv_observe_route_failure_at reg_inv_observe_key_failure_at)

lemma reg_inv_permit_finish: "reg_inv r \<Longrightarrow> reg_inv (permit_finish sha r p now outcome)"
  by (auto simp: permit_finish_def reg_inv_finish reg_inv_observe_settled split: option.split permit_backend.split)

lemma reg_inv_settle: "reg_inv r \<Longrightarrow> reg_inv (fst (settle_healthy sha r p now))"
  by (auto simp: settle_healthy_def reg_inv_finish reg_inv_remove_cleared simp del: finish.simps split: option.split permit_backend.split)

lemma reg_inv_drop: "reg_inv r \<Longrightarrow> reg_inv (permit_drop sha r p run now)"
  by (auto simp: permit_drop_def reg_inv_finish simp del: finish.simps split: option.split permit_backend.split)

section \<open>Properties\<close>

text \<open>
  A permit uses its lease at most once. After \<open>settle_healthy\<close> the permit keeps its route, it
  no longer counts as half-open, settling again changes nothing, and neither a success, a
  cancellation nor a drop touches the registry.
\<close>

theorem settled_permit_is_inert:
  assumes "settle_healthy sha r p now = (r', p')" "pm_backend p \<noteq> None"
  shows "permit_route p' = permit_route p \<and> \<not> permit_is_half_open p'
    \<and> settle_healthy sha r'' p' t = (r'', p')
    \<and> permit_finish sha r'' p' t Success = r'' \<and> permit_finish sha r'' p' t Cancelled = r''
    \<and> permit_drop sha r'' p' running t = r''"
proof -
  obtain route key where p': "pm_backend p' = Some (SettledBackend route key)"
    "permit_route p = Some route"
    using assms by (auto simp: settle_healthy_def permit_route_def split: permit_backend.splits)
  moreover have "permit_route p' = Some route" using p'(1) by (simp add: permit_route_def)
  ultimately show ?thesis
    by (simp add: settle_healthy_def permit_is_half_open_def permit_finish_def permit_drop_def)
qed

theorem settled_permit_is_inert_witness:
  "pm_backend (new_local sample_lease) \<noteq> None
   \<and> permit_finish (\<lambda>_. []) sample_registry
        (snd (settle_healthy (\<lambda>_. []) sample_half_open (new_local sample_lease) 5)) 6 Cancelled
      = sample_registry"
proof -
  obtain r' p' where s: "settle_healthy (\<lambda>_. []) sample_half_open (new_local sample_lease) 5 = (r', p')"
    by force
  have n: "pm_backend (new_local sample_lease) \<noteq> None" by (simp add: new_local_def)
  show ?thesis using n settled_permit_is_inert [OF s n] s by simp
qed

lemma settle_owner_removes:
  assumes "is_some_and (map_of (rg_routes r) (hl_route lease)) (owns_observation lease)"
  shows "map_of (rg_routes (fst (settle_healthy sha r (new_local lease) now))) (hl_route lease) = None"
  using assms
  by (auto simp: is_some_and_iff settle_healthy_def new_local_def remove_cleared_route_and_key_def
        clear_route_for_success_def clear_key_def release_key_lease_def Let_def map_of_hm_modify
        is_clear_hs_clear)

lemma new_entry_step: "failure_step (health_state_new t) c now rep m sh = 1"
  by (simp add: failure_step_def health_state_new_def Let_def)

text \<open>
  When the lease still owns the observation of its route, settling removes the route's entry,
  and a failure of a cooling class that the settled permit reports later starts a new streak at
  one, as if the route had never failed.
\<close>

theorem settled_failure_restarts_streak:
  assumes reach: "reachable registry_init (registry_step sha) r"
    and own: "is_some_and (map_of (rg_routes r) (hl_route lease)) (owns_observation lease)"
    and settle: "settle_healthy sha r (new_local lease) now = (r', p')"
    and c: "cools r' c (plain_context (fc_shared_host_failure_domain ctx))"
    and fits: "fst (ensure_route_capacity r' (hl_route lease) t)"
  shows "map_of (rg_routes r') (hl_route lease) = None
    \<and> (\<exists>s. map_of (rg_routes (permit_finish sha r' p' t (RouteFailure c ctx))) (hl_route lease) = Some s
         \<and> hs_consecutive_failures s = 1 \<and> hs_last_failure_class s = Some c
         \<and> (\<exists>d. hs_cooldown_until s = Some (t + d)))"
proof -
  have inv: "reg_inv r'" using reg_inv_settle [OF registry_inv [OF reach]] settle by (metis fst_conv)
  have gone: "map_of (rg_routes r') (hl_route lease) = None"
    using settle_owner_removes [OF own] settle by (metis fst_conv)
  have p': "pm_backend p' = Some (SettledBackend (hl_route lease) (hl_key lease))"
    using settle by (auto simp: settle_healthy_def new_local_def)
  have f: "permit_finish sha r' p' t (RouteFailure c ctx) = observe_route_failure_at sha r' (hl_route lease) c
      None t (plain_context (fc_shared_host_failure_domain ctx))"
    using p' by (simp add: permit_finish_def observe_route_failure_def)
  obtain r1 s where e: "map_of (rg_routes (permit_finish sha r' p' t (RouteFailure c ctx))) (hl_route lease) =
       Some (record_route_failure sha r1 (hl_route lease) c None None t False (fc_shared_host_failure_domain ctx) s)"
     "s = hm_entry_or (hl_route lease) (health_state_new t) (rg_routes r')"
    by (rule observe_route_failure_entry [OF inv c fits, where sha = sha and ra = None])
      (use f in \<open>simp add: plain_context_def\<close>)
  obtain d where d: "hs_cooldown_until (record_route_failure sha r1 (hl_route lease) c None None t False
      (fc_shared_host_failure_domain ctx) s) = Some (t + d)"
    by (rule record_route_failure_deadline)
  have "hs_consecutive_failures (record_route_failure sha r1 (hl_route lease) c None None t False
      (fc_shared_host_failure_domain ctx) s) = 1"
    using gone e(2) by (simp add: record_route_failure_def Let_def new_entry_step)
  with gone e(1) d show ?thesis by simp
qed

theorem settled_failure_restarts_streak_witness:
  "\<exists>r' p'. settle_healthy (\<lambda>_. []) sample_half_open (new_local sample_lease) (from_secs 101) = (r', p')
     \<and> (\<exists>s. map_of (rg_routes (permit_finish (\<lambda>_. []) r' p' (from_secs 102)
            (RouteFailure Transport (plain_context False)))) sample_route = Some s
          \<and> hs_consecutive_failures s = 1)"
proof -
  let ?r = "fst (settle_healthy (\<lambda>_. []) sample_half_open (new_local sample_lease) (from_secs 101))"
  have reach: "reachable registry_init (registry_step (\<lambda>_. [])) sample_half_open"
    by (rule reach_step [OF sample_registry_reachable step_reserve [OF sample_half_open_reserve]])
  have own: "is_some_and (map_of (rg_routes sample_half_open) (hl_route sample_lease)) (owns_observation sample_lease)"
    by (simp add: sample_half_open_eq sample_lease_def owns_observation_def open_half_open_def)
  have e: "?r = registry_default\<lparr>rg_next_generation := 1, rg_routes := []\<rparr>"
    by (simp add: settle_healthy_def new_local_def sample_half_open_eq sample_lease_def
        remove_cleared_route_and_key_def clear_route_for_success_def release_key_lease_def
        registry_default_fields hm_modify_def owns_observation_def open_half_open_def is_clear_hs_clear)
  have "cools ?r Transport (plain_context (fc_shared_host_failure_domain (plain_context False)))"
    "fst (ensure_route_capacity ?r (hl_route sample_lease) (from_secs 102))"
    by (simp_all add: e cools_def ensure_route_capacity_def registry_default_fields hm_contains_def
        count_upstream_def hm_keys_def)
  note streak = settled_failure_restarts_streak [OF reach own surjective_pairing this]
  have "hl_route sample_lease = sample_route" by (simp add: sample_lease_def)
  with streak show ?thesis by (metis surjective_pairing)
qed

section \<open>The summary counts every route once\<close>

lemma increment_failure_class_counts [simp]:
  "sd_healthy_routes (increment_failure_class s c) = sd_healthy_routes s"
  "sd_half_open_routes (increment_failure_class s c) = sd_half_open_routes s"
  "sd_cooldown_routes (increment_failure_class s c) = sd_cooldown_routes s"
  by (simp_all add: increment_failure_class_def split: option.split)

lemma summarize_route_total:
  "sd_healthy_routes (summarize_route rs ks route s) + sd_half_open_routes (summarize_route rs ks route s)
     + sd_cooldown_routes (summarize_route rs ks route s)
   = Suc (sd_healthy_routes s + sd_half_open_routes s + sd_cooldown_routes s)"
  by (simp add: summarize_route_def Let_def split: option.split)

lemma summarize_foldl_total:
  "sd_healthy_routes (foldl (\<lambda>s route. summarize_route rs ks route s) s routes)
     + sd_half_open_routes (foldl (\<lambda>s route. summarize_route rs ks route s) s routes)
     + sd_cooldown_routes (foldl (\<lambda>s route. summarize_route rs ks route s) s routes)
   = length routes + (sd_healthy_routes s + sd_half_open_routes s + sd_cooldown_routes s)"
  by (induction routes arbitrary: s) (simp_all add: summarize_route_total)

text \<open>
  The summary of an upstream's routes puts every route in exactly one of the three states, so
  the healthy, half-open and cooling counts add up to the number of routes.
\<close>

theorem upstream_snapshot_partition:
  "sd_healthy_routes (upstream_snapshot r routes now) + sd_half_open_routes (upstream_snapshot r routes now)
     + sd_cooldown_routes (upstream_snapshot r routes now) = length routes"
  by (simp add: upstream_snapshot_def Let_def summarize_route_health_routes_def summarize_foldl_total)

end
