(* ===== verification/Account_Concurrency.thy ===== *)
theory Account_Concurrency
  imports Route_Cooldown
begin

text \<open>
  Recovery of an upstream account that reported too many concurrent requests
  (\<open>src/src/state/account_concurrency.rs\<close>): requests queue up per account, the head of the queue
  probes the account alone, and the outcome of the probe opens or closes the account. Parameters
  stand for what the code draws from outside: \<open>hash\<close> for the standard library's default hasher
  (an unspecified function of key and generation) and a token argument where the code draws a
  fresh UUID. The registry's two locks serialise the operations, so each is one state change.
\<close>

section \<open>Data\<close>

record account_concurrency_key =
  aq_upstream_id :: string
  aq_key_fingerprint :: string

record account_wait_ticket =
  wt_account :: account_concurrency_key
  wt_request_id :: string
  wt_downstream_id :: string
  wt_downstream_lease_id :: string
  wt_generation :: nat
  wt_registered_at_ms :: nat
  wt_registration_token :: string

record account_probe_lease =
  pl_account :: account_concurrency_key
  pl_request_id :: string
  pl_generation :: nat
  pl_owner_token :: string
  pl_expires_at_ms :: nat

datatype account_probe_outcome =
    ConcurrencyRejected "duration option"
  | Accepted
  | AttemptFailed
  | ProbeCancelled

datatype probe_decision =
    Granted account_probe_lease
  | Wait duration

record account_concurrency_tuning =
  ct_probe_delays :: "duration list"
  ct_jitter_max :: duration
  ct_waiter_budget :: duration
  ct_waiter_ttl :: duration
  ct_probe_ttl :: duration
  ct_renewal_interval :: duration
  ct_idle_retention :: duration

record account_concurrency_snapshot =
  as_generation :: nat
  as_waiters :: nat
  as_probe_in_flight :: bool
  as_saturated :: bool
  as_retry_after :: duration

datatype account_lease_error = LeaseMissing | StaleGeneration | NotOwner | LeaseExpired

record ticket_record =
  tr_ticket :: account_wait_ticket
  tr_logical_deadline :: instant
  tr_lease_deadline :: instant

record probe_record =
  pr_lease :: account_probe_lease
  pr_expires_at :: instant

record account_state =
  st_generation :: nat
  st_rejection_count :: nat
  st_cooldown_until :: "instant option"
  st_explicit_retry_after_until :: "instant option"
  st_tickets :: "ticket_record list"
  st_probe :: "probe_record option"
  st_saturated :: bool
  st_last_access :: instant

record account_registry =
  cr_tuning :: account_concurrency_tuning
  cr_origin :: instant
  cr_accounts :: "(account_concurrency_key, account_state) hashmap"

type_synonym account_hash = "account_concurrency_key \<Rightarrow> nat \<Rightarrow> nat"

definition fifo_poll_interval :: duration where
  "fifo_poll_interval = from_millis 100"

definition tuning_from_config :: "nat list \<Rightarrow> nat \<Rightarrow> nat \<Rightarrow> account_concurrency_tuning" where
  "tuning_from_config probe_delays_ms recovery_max_wait_ms response_header_timeout_seconds =
    \<lparr>ct_probe_delays = normalize_concurrency_probe_delays probe_delays_ms,
     ct_jitter_max = from_millis 100,
     ct_waiter_budget = from_millis recovery_max_wait_ms,
     ct_waiter_ttl = from_millis (u64_saturating_add recovery_max_wait_ms 60000),
     ct_probe_ttl = from_secs (u64_saturating_add response_header_timeout_seconds 60),
     ct_renewal_interval = from_secs 30,
     ct_idle_retention = from_secs 600\<rparr>"

definition snapshot_default :: account_concurrency_snapshot where
  "snapshot_default =
    \<lparr>as_generation = 0, as_waiters = 0, as_probe_in_flight = False, as_saturated = False,
     as_retry_after = 0\<rparr>"

definition account_state_new :: "instant \<Rightarrow> account_state" where
  "account_state_new now =
    \<lparr>st_generation = 0, st_rejection_count = 0, st_cooldown_until = None,
     st_explicit_retry_after_until = None, st_tickets = [], st_probe = None,
     st_saturated = False, st_last_access = now\<rparr>"

section \<open>Helpers\<close>

definition ticket_identity_matches :: "account_wait_ticket \<Rightarrow> account_wait_ticket \<Rightarrow> bool" where
  "ticket_identity_matches left right =
    (wt_request_id left = wt_request_id right
     \<and> wt_downstream_id left = wt_downstream_id right
     \<and> wt_downstream_lease_id left = wt_downstream_lease_id right
     \<and> wt_registered_at_ms left = wt_registered_at_ms right
     \<and> wt_registration_token left = wt_registration_token right)"

definition ticket_matches :: "account_wait_ticket \<Rightarrow> account_wait_ticket \<Rightarrow> bool" where
  "ticket_matches left right =
    (ticket_identity_matches left right \<and> wt_generation left = wt_generation right)"

definition validate_probe ::
  "account_state \<Rightarrow> account_probe_lease \<Rightarrow> account_lease_error + unit" where
  "validate_probe s lease =
    (if st_generation s \<noteq> pl_generation lease then Inl StaleGeneration
     else case st_probe s of
            None \<Rightarrow> Inl LeaseMissing
          | Some p \<Rightarrow>
              if pl_owner_token (pr_lease p) \<noteq> pl_owner_token lease then Inl NotOwner
              else if pl_request_id (pr_lease p) \<noteq> pl_request_id lease then Inl NotOwner
              else Inr ())"

definition instant_ms :: "account_registry \<Rightarrow> instant \<Rightarrow> nat" where
  "instant_ms g t = min (as_millis (saturating_duration_since t (cr_origin g))) u64_max"

definition jitter :: "account_hash \<Rightarrow> account_concurrency_tuning \<Rightarrow> account_concurrency_key \<Rightarrow> nat \<Rightarrow> duration" where
  "jitter hash t key generation =
    (let max_ms = min (as_millis (ct_jitter_max t)) u64_max in
     if max_ms = 0 then 0
     else from_millis (hash key generation mod u64_saturating_add max_ms 1))"

definition default_retry_after :: "account_concurrency_tuning \<Rightarrow> duration" where
  "default_retry_after t =
    (case ct_probe_delays t of [] \<Rightarrow> ct_renewal_interval t | d # _ \<Rightarrow> d)"

definition account_retry_after :: "account_state \<Rightarrow> instant \<Rightarrow> duration" where
  "account_retry_after s now =
    (case (st_explicit_retry_after_until s, st_cooldown_until s) of
       (None, None) \<Rightarrow> 0
     | (Some e, None) \<Rightarrow> saturating_duration_since e now
     | (None, Some c) \<Rightarrow> saturating_duration_since c now
     | (Some e, Some c) \<Rightarrow> max (saturating_duration_since e now) (saturating_duration_since c now))"

definition prune_tickets :: "instant \<Rightarrow> ticket_record list \<Rightarrow> ticket_record list" where
  "prune_tickets now = filter (\<lambda>t. now < tr_logical_deadline t \<and> now < tr_lease_deadline t)"

definition prune_account :: "instant \<Rightarrow> account_state \<Rightarrow> account_state" where
  "prune_account now s0 =
    (let s1 = s0\<lparr>st_tickets := prune_tickets now (st_tickets s0)\<rparr>;
         s2 = (if is_some_and (st_probe s1) (\<lambda>p. now \<ge> pr_expires_at p)
               then s1\<lparr>st_probe := None,
                       st_generation := u64_saturating_add (st_generation s1) 1,
                       st_last_access := now\<rparr>
               else s1);
         s3 = (if is_some_and (st_explicit_retry_after_until s2) (\<lambda>d. now \<ge> d)
               then s2\<lparr>st_explicit_retry_after_until := None\<rparr> else s2)
     in if is_some_and (st_cooldown_until s3) (\<lambda>d. now \<ge> d)
        then s3\<lparr>st_cooldown_until := None\<rparr> else s3)"

text \<open>
  \<open>apply_rejection\<close> indexes the delay schedule, which panics on an empty schedule. The registry
  is built with a schedule that is never empty, which the invariant records.
\<close>

definition apply_rejection ::
  "account_hash \<Rightarrow> account_concurrency_tuning \<Rightarrow> account_concurrency_key \<Rightarrow> duration option \<Rightarrow>
   instant \<Rightarrow> bool \<Rightarrow> account_state \<Rightarrow> account_state outcome_or_panic" where
  "apply_rejection hash t key retry_after now advance_generation s0 =
    (let s1 = (if advance_generation
               then s0\<lparr>st_generation := u64_saturating_add (st_generation s0) 1\<rparr> else s0);
         schedule_index = min (st_rejection_count s1) (length (ct_probe_delays t) - 1);
         local_delay = duration_saturating_add (ct_probe_delays t ! schedule_index)
                         (jitter hash t key (st_generation s1));
         local_deadline = now + local_delay;
         explicit = (case retry_after of
                       None \<Rightarrow> st_explicit_retry_after_until s1
                     | Some d \<Rightarrow> Some (case st_explicit_retry_after_until s1 of
                                         None \<Rightarrow> now + d
                                       | Some current \<Rightarrow> max current (now + d)))
     in if length (ct_probe_delays t) \<le> schedule_index then Inl (Panic ''index out of bounds'')
        else Inr (s1\<lparr>st_saturated := True,
           st_rejection_count := u64_saturating_add (st_rejection_count s1) 1,
           st_explicit_retry_after_until := explicit,
           st_cooldown_until := Some (case explicit of
                                        None \<Rightarrow> local_deadline
                                      | Some e \<Rightarrow> max e local_deadline),
           st_last_access := now\<rparr>))"

section \<open>Operations\<close>

definition account_registry_new :: "account_concurrency_tuning \<Rightarrow> instant \<Rightarrow> account_registry" where
  "account_registry_new t now =
    \<lparr>cr_tuning = (if ct_probe_delays t = [] then t\<lparr>ct_probe_delays := [from_millis 100]\<rparr> else t),
     cr_origin = now, cr_accounts = []\<rparr>"

definition put_account ::
  "account_concurrency_key \<Rightarrow> account_state \<Rightarrow> account_registry \<Rightarrow> account_registry" where
  "put_account key s g = g\<lparr>cr_accounts := AList.update key s (cr_accounts g)\<rparr>"

definition account_update_runtime_tuning ::
  "account_registry \<Rightarrow> nat list \<Rightarrow> nat \<Rightarrow> instant \<Rightarrow> account_registry" where
  "account_update_runtime_tuning g delays_ms recovery_max_wait_ms now =
    (let budget = from_millis (max recovery_max_wait_ms 1);
         ttl = duration_saturating_add budget (from_secs 60);
         cap = (\<lambda>r. r\<lparr>tr_logical_deadline := min (tr_logical_deadline r) (now + budget),
                     tr_lease_deadline := min (tr_lease_deadline r) (now + ttl)\<rparr>)
     in g\<lparr>cr_tuning := (cr_tuning g)
            \<lparr>ct_probe_delays := normalize_concurrency_probe_delays delays_ms,
             ct_waiter_budget := budget, ct_waiter_ttl := ttl\<rparr>,
          cr_accounts := hm_map_values (\<lambda>s. s\<lparr>st_tickets := map cap (st_tickets s)\<rparr>)
                           (cr_accounts g)\<rparr>)"

definition reject ::
  "account_hash \<Rightarrow> account_registry \<Rightarrow> account_concurrency_key \<Rightarrow> duration option \<Rightarrow> instant \<Rightarrow>
   account_registry outcome_or_panic" where
  "reject hash g key retry_after now =
    (let s = prune_account now (hm_entry_or key (account_state_new now) (cr_accounts g));
         advance_generation = (st_probe s = None)
     in bind_ok (apply_rejection hash (cr_tuning g) key retry_after now advance_generation s)
          (\<lambda>s'. Inr (put_account key s' g)))"

definition enqueue_ticket ::
  "account_registry \<Rightarrow> account_concurrency_key \<Rightarrow> string \<Rightarrow> string \<Rightarrow> string \<Rightarrow> string \<Rightarrow> instant \<Rightarrow>
   account_state \<Rightarrow> account_wait_ticket \<times> account_state" where
  "enqueue_ticket g key request_id downstream_id downstream_lease_id token now s =
    (let ticket = \<lparr>wt_account = key, wt_request_id = request_id, wt_downstream_id = downstream_id,
                   wt_downstream_lease_id = downstream_lease_id, wt_generation = st_generation s,
                   wt_registered_at_ms = instant_ms g now, wt_registration_token = token\<rparr>
     in (ticket,
         s\<lparr>st_tickets := filter (\<lambda>r. wt_request_id (tr_ticket r) \<noteq> request_id) (st_tickets s)
             @ [\<lparr>tr_ticket = ticket,
                 tr_logical_deadline = now + ct_waiter_budget (cr_tuning g),
                 tr_lease_deadline = now + ct_waiter_ttl (cr_tuning g)\<rparr>],
           st_last_access := now\<rparr>))"

definition register_waiter ::
  "account_registry \<Rightarrow> account_concurrency_key \<Rightarrow> string \<Rightarrow> string \<Rightarrow> string \<Rightarrow> string \<Rightarrow> instant \<Rightarrow>
   account_wait_ticket \<times> account_registry" where
  "register_waiter g key request_id downstream_id downstream_lease_id token now =
    (let s = prune_account now (hm_entry_or key (account_state_new now) (cr_accounts g));
         (ticket, s') = enqueue_ticket g key request_id downstream_id downstream_lease_id token now s
     in (ticket, put_account key s' g))"

definition register_waiter_if_saturated ::
  "account_registry \<Rightarrow> account_concurrency_key \<Rightarrow> string \<Rightarrow> string \<Rightarrow> string \<Rightarrow> string \<Rightarrow> instant \<Rightarrow>
   account_wait_ticket option \<times> account_registry" where
  "register_waiter_if_saturated g key request_id downstream_id downstream_lease_id token now =
    (case map_of (cr_accounts g) key of
       None \<Rightarrow> (None, g)
     | Some s0 \<Rightarrow>
         (let s = prune_account now s0 in
          if \<not> st_saturated s then (None, put_account key s g)
          else (let (ticket, s') =
                      enqueue_ticket g key request_id downstream_id downstream_lease_id token now s
                in (Some ticket, put_account key s' g))))"

definition cancel_waiter ::
  "account_registry \<Rightarrow> account_wait_ticket \<Rightarrow> instant \<Rightarrow> account_registry" where
  "cancel_waiter g ticket now =
    (case map_of (cr_accounts g) (wt_account ticket) of
       None \<Rightarrow> g
     | Some s \<Rightarrow> put_account (wt_account ticket)
         (s\<lparr>st_tickets := filter (\<lambda>r. \<not> ticket_matches (tr_ticket r) ticket) (st_tickets s),
            st_last_access := now\<rparr>) g)"

fun update_first :: "('a \<Rightarrow> bool) \<Rightarrow> ('a \<Rightarrow> 'a) \<Rightarrow> 'a list \<Rightarrow> 'a list" where
  "update_first p f [] = []"
| "update_first p f (x # xs) = (if p x then f x # xs else x # update_first p f xs)"

definition renew_waiter ::
  "account_registry \<Rightarrow> account_wait_ticket \<Rightarrow> instant \<Rightarrow>
   (account_lease_error + unit) \<times> account_registry" where
  "renew_waiter g ticket now =
    (case map_of (cr_accounts g) (wt_account ticket) of
       None \<Rightarrow> (Inl LeaseMissing, g)
     | Some s0 \<Rightarrow>
         (let s = prune_account now s0;
              g' = put_account (wt_account ticket) s g
          in case find (\<lambda>r. ticket_identity_matches (tr_ticket r) ticket) (st_tickets s) of
               None \<Rightarrow> (Inl LeaseMissing, g')
             | Some r \<Rightarrow>
                 if wt_generation (tr_ticket r) \<noteq> wt_generation ticket then (Inl StaleGeneration, g')
                 else if now \<ge> tr_logical_deadline r \<or> now \<ge> tr_lease_deadline r
                 then (Inl LeaseExpired, g')
                 else (Inr (), put_account (wt_account ticket)
                   (s\<lparr>st_tickets := update_first (\<lambda>r. ticket_identity_matches (tr_ticket r) ticket)
                        (\<lambda>r. r\<lparr>tr_lease_deadline := now + ct_waiter_ttl (cr_tuning g)\<rparr>) (st_tickets s),
                      st_last_access := now\<rparr>) g)))"

fun position :: "('a \<Rightarrow> bool) \<Rightarrow> 'a list \<Rightarrow> nat option" where
  "position p [] = None"
| "position p (x # xs) = (if p x then Some 0 else map_option Suc (position p xs))"

definition grant_probe ::
  "account_registry \<Rightarrow> account_wait_ticket \<Rightarrow> string \<Rightarrow> instant \<Rightarrow> account_state \<Rightarrow>
   (probe_decision \<times> account_state) outcome_or_panic" where
  "grant_probe g ticket token now s =
    (case st_tickets s of
       [] \<Rightarrow> Inl (Panic ''head waiter disappeared while granting probe'')
     | r # rest \<Rightarrow>
         (let expires_at = now + ct_probe_ttl (cr_tuning g);
              lease = \<lparr>pl_account = wt_account ticket, pl_request_id = wt_request_id (tr_ticket r),
                       pl_generation = st_generation s, pl_owner_token = token,
                       pl_expires_at_ms = instant_ms g expires_at\<rparr>
          in Inr (Granted lease,
              s\<lparr>st_tickets := rest,
                st_probe := Some \<lparr>pr_lease = lease, pr_expires_at = expires_at\<rparr>,
                st_last_access := now\<rparr>)))"

definition try_probe ::
  "account_registry \<Rightarrow> account_wait_ticket \<Rightarrow> string \<Rightarrow> instant \<Rightarrow>
   (probe_decision \<times> account_registry) outcome_or_panic" where
  "try_probe g ticket token now =
    (case map_of (cr_accounts g) (wt_account ticket) of
       None \<Rightarrow> Inr (Wait (default_retry_after (cr_tuning g)), g)
     | Some s0 \<Rightarrow>
         (let s = prune_account now s0;
              g' = put_account (wt_account ticket) s g
          in case position (\<lambda>r. ticket_identity_matches (tr_ticket r) ticket) (st_tickets s) of
               None \<Rightarrow> Inr (Wait (default_retry_after (cr_tuning g)), g')
             | Some pos \<Rightarrow>
                 if wt_generation (tr_ticket (st_tickets s ! pos)) \<noteq> wt_generation ticket
                 then Inr (Wait (default_retry_after (cr_tuning g)), g')
                 else if pos \<noteq> 0 then Inr (Wait fifo_poll_interval, g')
                 else case st_probe s of
                   Some p \<Rightarrow> Inr (Wait (saturating_duration_since (pr_expires_at p) now), g')
                 | None \<Rightarrow>
                     if account_retry_after s now \<noteq> 0 then Inr (Wait (account_retry_after s now), g')
                     else bind_ok (grant_probe g ticket token now s)
                       (\<lambda>(decision, s'). Inr (decision, put_account (wt_account ticket) s' g))))"

definition renew_probe ::
  "account_registry \<Rightarrow> account_probe_lease \<Rightarrow> instant \<Rightarrow>
   (account_lease_error + unit) \<times> account_registry" where
  "renew_probe g lease now =
    (case map_of (cr_accounts g) (pl_account lease) of
       None \<Rightarrow> (Inl LeaseMissing, g)
     | Some s0 \<Rightarrow>
         (let s = prune_account now s0 in
          case validate_probe s lease of
            Inl e \<Rightarrow> (Inl e, put_account (pl_account lease) s g)
          | Inr _ \<Rightarrow>
              (let expires_at = now + ct_probe_ttl (cr_tuning g)
               in (Inr (), put_account (pl_account lease)
                    (s\<lparr>st_probe := map_option (\<lambda>p. p\<lparr>pr_expires_at := expires_at,
                          pr_lease := (pr_lease p)\<lparr>pl_expires_at_ms := instant_ms g expires_at\<rparr>\<rparr>)
                          (st_probe s),
                       st_last_access := now\<rparr>) g))))"

fun apply_probe_outcome ::
  "account_hash \<Rightarrow> account_concurrency_tuning \<Rightarrow> account_concurrency_key \<Rightarrow> instant \<Rightarrow>
   account_probe_outcome \<Rightarrow> account_state \<Rightarrow> account_state outcome_or_panic" where
  "apply_probe_outcome hash t key now (ConcurrencyRejected retry_after) s =
    apply_rejection hash t key retry_after now True s"
| "apply_probe_outcome hash t key now Accepted s =
    Inr (s\<lparr>st_cooldown_until := None, st_explicit_retry_after_until := None,
           st_rejection_count := 0, st_saturated := False\<rparr>)"
| "apply_probe_outcome hash t key now AttemptFailed s = Inr s"
| "apply_probe_outcome hash t key now ProbeCancelled s = Inr s"

definition finish_probe ::
  "account_hash \<Rightarrow> account_registry \<Rightarrow> account_probe_lease \<Rightarrow> account_probe_outcome \<Rightarrow> instant \<Rightarrow>
   ((account_lease_error + unit) \<times> account_registry) outcome_or_panic" where
  "finish_probe hash g lease outcome now =
    (case map_of (cr_accounts g) (pl_account lease) of
       None \<Rightarrow> Inr (Inl LeaseMissing, g)
     | Some s0 \<Rightarrow>
         (let s = prune_account now s0 in
          case validate_probe s lease of
            Inl e \<Rightarrow> Inr (Inl e, put_account (pl_account lease) s g)
          | Inr _ \<Rightarrow>
              bind_ok (apply_probe_outcome hash (cr_tuning g) (pl_account lease) now outcome
                         (s\<lparr>st_probe := None, st_last_access := now\<rparr>))
                (\<lambda>s'. Inr (Inr (), put_account (pl_account lease) s' g))))"

definition account_snapshot ::
  "account_registry \<Rightarrow> account_concurrency_key \<Rightarrow> instant \<Rightarrow>
   account_concurrency_snapshot \<times> account_registry" where
  "account_snapshot g key now =
    (case map_of (cr_accounts g) key of
       None \<Rightarrow> (snapshot_default, g)
     | Some s0 \<Rightarrow>
         (let s = prune_account now s0 in
          (\<lparr>as_generation = st_generation s, as_waiters = length (st_tickets s),
            as_probe_in_flight = (st_probe s \<noteq> None), as_saturated = st_saturated s,
            as_retry_after = account_retry_after s now\<rparr>, put_account key s g)))"

definition keep_account :: "account_concurrency_tuning \<Rightarrow> instant \<Rightarrow> account_state \<Rightarrow> bool" where
  "keep_account t now s =
    (account_retry_after s now > 0 \<or> st_tickets s \<noteq> [] \<or> st_probe s \<noteq> None
     \<or> saturating_duration_since now (st_last_access s) \<le> ct_idle_retention t)"

definition prune_idle :: "account_registry \<Rightarrow> instant \<Rightarrow> nat \<times> account_registry" where
  "prune_idle g now =
    (let pruned = hm_map_values (prune_account now) (cr_accounts g);
         kept = hm_retain (\<lambda>_ s. keep_account (cr_tuning g) now s) pruned
     in (length pruned - length kept, g\<lparr>cr_accounts := kept\<rparr>))"

definition entry_count :: "account_registry \<Rightarrow> nat" where
  "entry_count g = length (cr_accounts g)"

section \<open>The account invariant\<close>

text \<open>
  A queue holds at most one ticket per request; a probe in flight carries the account's current
  generation; an explicit retry deadline never outlives the cooldown it is part of.
\<close>

definition account_inv :: "account_state \<Rightarrow> bool" where
  "account_inv s =
    (distinct (map (wt_request_id \<circ> tr_ticket) (st_tickets s))
     \<and> is_none_or (st_probe s) (\<lambda>p. pl_generation (pr_lease p) = st_generation s)
     \<and> is_none_or (st_explicit_retry_after_until s)
         (\<lambda>e. is_some_and (st_cooldown_until s) (\<lambda>c. e \<le> c)))"

definition account_registry_inv :: "account_registry \<Rightarrow> bool" where
  "account_registry_inv g =
    (ct_probe_delays (cr_tuning g) \<noteq> [] \<and> hm_ok (cr_accounts g) \<and> hm_all account_inv (cr_accounts g))"

lemma account_inv_new [simp]: "account_inv (account_state_new now)"
  by (simp add: account_inv_def account_state_new_def)

definition past :: "instant \<Rightarrow> instant option \<Rightarrow> instant option" where
  "past now d = (if is_some_and d (\<lambda>t. now \<ge> t) then None else d)"

definition probe_expired :: "instant \<Rightarrow> account_state \<Rightarrow> bool" where
  "probe_expired now s = is_some_and (st_probe s) (\<lambda>p. now \<ge> pr_expires_at p)"

lemma prune_account_fields [simp]:
  "st_tickets (prune_account now s) = prune_tickets now (st_tickets s)"
  "st_probe (prune_account now s) = (if probe_expired now s then None else st_probe s)"
  "st_generation (prune_account now s) =
     (if probe_expired now s then u64_saturating_add (st_generation s) 1 else st_generation s)"
  "st_explicit_retry_after_until (prune_account now s) = past now (st_explicit_retry_after_until s)"
  "st_cooldown_until (prune_account now s) = past now (st_cooldown_until s)"
  "st_saturated (prune_account now s) = st_saturated s"
  "st_rejection_count (prune_account now s) = st_rejection_count s"
  by (simp_all add: prune_account_def Let_def past_def probe_expired_def)

lemma account_inv_prune:
  assumes "account_inv s"
  shows "account_inv (prune_account now s)"
proof -
  have "distinct (map (wt_request_id \<circ> tr_ticket) (prune_tickets now (st_tickets s)))"
    unfolding prune_tickets_def using assms by (intro distinct_map_filter) (simp add: account_inv_def)
  moreover have "is_none_or (past now (st_explicit_retry_after_until s))
      (\<lambda>e. is_some_and (past now (st_cooldown_until s)) (\<lambda>c. e \<le> c))"
    using assms
    by (cases "st_explicit_retry_after_until s"; cases "st_cooldown_until s")
      (auto simp: account_inv_def past_def)
  moreover have "is_none_or (if probe_expired now s then None else st_probe s)
      (\<lambda>p. pl_generation (pr_lease p) =
        (if probe_expired now s then u64_saturating_add (st_generation s) 1 else st_generation s))"
    using assms by (simp add: account_inv_def)
  ultimately show ?thesis unfolding account_inv_def prune_account_fields by blast
qed

lemma account_inv_apply_rejection:
  assumes "account_inv s" "apply_rejection hash t key ra now adv s = Inr s'"
    and "adv \<longrightarrow> st_probe s = None"
  shows "account_inv s'"
  using assms
  by (cases ra; cases "st_explicit_retry_after_until s"; cases "st_probe s"; cases adv)
    (auto simp: account_inv_def apply_rejection_def Let_def split: if_splits)

lemma apply_rejection_total:
  "ct_probe_delays t \<noteq> [] \<Longrightarrow> \<exists>s'. apply_rejection hash t key ra now adv s = Inr s'"
  by (simp add: apply_rejection_def Let_def not_le min_less_iff_disj)

lemma account_registry_inv_put:
  "account_registry_inv g \<Longrightarrow> account_inv s \<Longrightarrow> account_registry_inv (put_account key s g)"
  by (simp add: account_registry_inv_def put_account_def hm_all_update)

lemma account_inv_get:
  "account_registry_inv g \<Longrightarrow> map_of (cr_accounts g) key = Some s \<Longrightarrow> account_inv s"
  by (auto simp: account_registry_inv_def dest: hm_all_get)

lemma account_inv_entry:
  "account_registry_inv g \<Longrightarrow> account_inv (hm_entry_or key (account_state_new now) (cr_accounts g))"
  by (auto simp: hm_entry_or_def dest: account_inv_get split: option.split)

lemma account_inv_enqueue:
  assumes "account_inv s"
  shows "account_inv (snd (enqueue_ticket g key req d dl token now s))"
proof -
  have "distinct (map (wt_request_id \<circ> tr_ticket) (filter (\<lambda>r. wt_request_id (tr_ticket r) \<noteq> req) (st_tickets s)))"
    using assms by (intro distinct_map_filter) (simp add: account_inv_def)
  with assms show ?thesis by (auto simp: enqueue_ticket_def Let_def account_inv_def)
qed

lemma map_update_first:
  "(\<And>x. h (f x) = h x) \<Longrightarrow> map h (update_first p f xs) = map h xs"
  by (induction xs) auto

lemma account_inv_tickets:
  "account_inv s \<Longrightarrow> distinct (map (wt_request_id \<circ> tr_ticket) ts) \<Longrightarrow>
   account_inv (s\<lparr>st_tickets := ts, st_last_access := now\<rparr>)"
  "account_inv s \<Longrightarrow> distinct (map (wt_request_id \<circ> tr_ticket) ts) \<Longrightarrow>
   account_inv (s\<lparr>st_tickets := ts\<rparr>)"
  by (simp_all add: account_inv_def)

lemma inv_reject:
  assumes "account_registry_inv g"
  shows "\<exists>g'. reject hash g key ra now = Inr g' \<and> account_registry_inv g'"
proof -
  let ?s = "prune_account now (hm_entry_or key (account_state_new now) (cr_accounts g))"
  have s: "account_inv ?s" using assms by (intro account_inv_prune account_inv_entry)
  obtain s' where s': "apply_rejection hash (cr_tuning g) key ra now (st_probe ?s = None) ?s = Inr s'"
    using apply_rejection_total [of "cr_tuning g"] assms by (metis account_registry_inv_def)
  have "account_inv s'" using s s' by (rule account_inv_apply_rejection) simp
  then show ?thesis
    using assms s' unfolding reject_def Let_def by (simp add: account_registry_inv_put)
qed

lemma inv_register:
  "account_registry_inv g \<Longrightarrow> account_registry_inv (snd (register_waiter g key req d dl token now))"
  by (simp add: register_waiter_def Let_def case_prod_unfold account_registry_inv_put
      account_inv_enqueue account_inv_prune account_inv_entry)

lemma inv_register_if:
  assumes "account_registry_inv g"
  shows "account_registry_inv (snd (register_waiter_if_saturated g key req d dl token now))"
proof (cases "map_of (cr_accounts g) key")
  case None
  then show ?thesis using assms by (simp add: register_waiter_if_saturated_def)
next
  case (Some s)
  from account_inv_prune [OF account_inv_get [OF assms Some]] show ?thesis
    using assms Some
    by (simp add: register_waiter_if_saturated_def Let_def case_prod_unfold account_registry_inv_put
        account_inv_enqueue)
qed

lemma inv_cancel: "account_registry_inv g \<Longrightarrow> account_registry_inv (cancel_waiter g ticket now)"
  by (auto simp: cancel_waiter_def account_inv_def distinct_map_filter
      intro!: account_registry_inv_put dest: account_inv_get split: option.split)

lemma inv_renew_waiter:
  assumes "account_registry_inv g"
  shows "account_registry_inv (snd (renew_waiter g ticket now))"
proof (cases "map_of (cr_accounts g) (wt_account ticket)")
  case None
  then show ?thesis using assms by (simp add: renew_waiter_def)
next
  case (Some s)
  have i: "account_inv (prune_account now s)"
    using account_inv_prune [OF account_inv_get [OF assms Some]] .
  have d: "distinct (map (wt_request_id \<circ> tr_ticket) (update_first p
      (\<lambda>r. r\<lparr>tr_lease_deadline := x\<rparr>) (prune_tickets now (st_tickets s))))" for p x
    using i by (subst map_update_first) (simp_all add: account_inv_def)
  show ?thesis
    using assms Some i d
    by (auto simp: renew_waiter_def Let_def intro!: account_registry_inv_put account_inv_tickets
        split: option.split)
qed

lemma position_0: "position p xs = Some 0 \<longleftrightarrow> (\<exists>x ys. xs = x # ys \<and> p x)"
  by (cases xs) auto

lemma position_Some: "position p xs = Some i \<Longrightarrow> i < length xs \<and> p (xs ! i)"
  by (induction xs arbitrary: i) (auto split: if_splits)

text \<open>The whole decision of \<open>try_probe\<close> on an existing account.\<close>

lemma try_probe_cases:
  assumes "map_of (cr_accounts g) (wt_account ticket) = Some s0"
    and s_def: "s = prune_account now s0"
  shows "(\<exists>d. try_probe g ticket token now = Inr (Wait d, put_account (wt_account ticket) s g))
    \<or> (\<exists>r rest. st_tickets s = r # rest \<and> ticket_identity_matches (tr_ticket r) ticket
        \<and> wt_generation (tr_ticket r) = wt_generation ticket \<and> st_probe s = None
        \<and> account_retry_after s now = 0
        \<and> try_probe g ticket token now =
          (let lease = \<lparr>pl_account = wt_account ticket, pl_request_id = wt_request_id (tr_ticket r),
              pl_generation = st_generation s, pl_owner_token = token,
              pl_expires_at_ms = instant_ms g (now + ct_probe_ttl (cr_tuning g))\<rparr>
           in Inr (Granted lease, put_account (wt_account ticket)
             (s\<lparr>st_tickets := rest, st_probe := Some \<lparr>pr_lease = lease,
                pr_expires_at = now + ct_probe_ttl (cr_tuning g)\<rparr>, st_last_access := now\<rparr>) g)))"
proof (cases "position (\<lambda>r. ticket_identity_matches (tr_ticket r) ticket) (st_tickets s)")
  case None
  with assms show ?thesis by (simp add: try_probe_def Let_def)
next
  case (Some pos)
  show ?thesis
  proof (cases "wt_generation (tr_ticket (st_tickets s ! pos)) = wt_generation ticket \<and> pos = 0
      \<and> st_probe s = None \<and> account_retry_after s now = 0")
    case False
    with Some assms(1) show ?thesis unfolding s_def
      by (auto simp: try_probe_def Let_def split: option.splits)
  next
    case True
    with Some obtain r rest where t: "st_tickets s = r # rest" "ticket_identity_matches (tr_ticket r) ticket"
      using position_0 by metis
    have tp: "try_probe g ticket token now = bind_ok (grant_probe g ticket token now s)
        (\<lambda>(decision, s'). Inr (decision, put_account (wt_account ticket) s' g))"
      using True Some assms(1) by (auto simp: try_probe_def Let_def simp flip: s_def)
    show ?thesis
      by (rule disjI2, intro exI [of _ r] exI [of _ rest])
        (use t True in \<open>auto simp: tp grant_probe_def Let_def\<close>)
  qed
qed

lemma account_inv_grant:
  assumes "account_inv s" "st_tickets s = r # rest"
  shows "account_inv (s\<lparr>st_tickets := rest,
    st_probe := Some \<lparr>pr_lease = \<lparr>pl_account = a, pl_request_id = q, pl_generation = st_generation s,
      pl_owner_token = tk, pl_expires_at_ms = ms\<rparr>, pr_expires_at = e\<rparr>, st_last_access := now\<rparr>)"
  using assms by (simp add: account_inv_def)

lemma inv_try_probe:
  assumes "account_registry_inv g"
  shows "\<exists>decision g'. try_probe g ticket token now = Inr (decision, g') \<and> account_registry_inv g'"
proof (cases "map_of (cr_accounts g) (wt_account ticket)")
  case None
  then show ?thesis using assms by (simp add: try_probe_def)
next
  case (Some s0)
  define s where "s = prune_account now s0"
  have i: "account_inv s"
    unfolding s_def using account_inv_prune [OF account_inv_get [OF assms Some]] .
  from try_probe_cases [OF Some s_def, where token = token] show ?thesis
    using assms i by (auto simp: Let_def intro!: account_registry_inv_put account_inv_grant)
qed

lemma inv_renew_probe:
  assumes "account_registry_inv g"
  shows "account_registry_inv (snd (renew_probe g lease now))"
proof (cases "map_of (cr_accounts g) (pl_account lease)")
  case None
  then show ?thesis using assms by (simp add: renew_probe_def)
next
  case (Some s0)
  define s where "s = prune_account now s0"
  have i: "account_inv s"
    unfolding s_def using account_inv_prune [OF account_inv_get [OF assms Some]] .
  have "account_inv (s\<lparr>st_probe := map_option (\<lambda>p. p\<lparr>pr_expires_at := e,
      pr_lease := (pr_lease p)\<lparr>pl_expires_at_ms := ms\<rparr>\<rparr>) (st_probe s), st_last_access := now\<rparr>)" for e ms
    using i by (cases "st_probe s") (simp_all add: account_inv_def)
  with Some assms i show ?thesis unfolding s_def
    by (simp add: renew_probe_def Let_def account_registry_inv_put split: sum.split)
qed

lemma apply_probe_outcome_ok:
  assumes "ct_probe_delays t \<noteq> []" "account_inv s" "st_probe s = None"
  shows "\<exists>s'. apply_probe_outcome hash t key now outcome s = Inr s' \<and> account_inv s' \<and> st_probe s' = None"
proof (cases outcome)
  case (ConcurrencyRejected ra)
  obtain s' where s': "apply_rejection hash t key ra now True s = Inr s'"
    using apply_rejection_total [OF assms(1)] by blast
  have "account_inv s'" using assms(2) s' by (rule account_inv_apply_rejection) (use assms(3) in simp)
  moreover have "st_probe s' = None"
    using s' assms(3) by (auto simp: apply_rejection_def Let_def split: if_splits)
  ultimately show ?thesis using s' ConcurrencyRejected by simp
qed (use assms in \<open>simp_all add: account_inv_def\<close>)

lemma finish_probe_cases:
  assumes "account_registry_inv g" "map_of (cr_accounts g) (pl_account lease) = Some s0"
  shows "(\<exists>e. validate_probe (prune_account now s0) lease = Inl e
       \<and> finish_probe hash g lease outcome now =
          Inr (Inl e, put_account (pl_account lease) (prune_account now s0) g))
    \<or> (\<exists>s'. validate_probe (prune_account now s0) lease = Inr () \<and> account_inv s' \<and> st_probe s' = None
       \<and> apply_probe_outcome hash (cr_tuning g) (pl_account lease) now outcome
           (prune_account now s0\<lparr>st_probe := None, st_last_access := now\<rparr>) = Inr s'
       \<and> finish_probe hash g lease outcome now = Inr (Inr (), put_account (pl_account lease) s' g))"
proof (cases "validate_probe (prune_account now s0) lease")
  case (Inl e)
  with assms show ?thesis by (simp add: finish_probe_def Let_def)
next
  case (Inr u)
  let ?s = "prune_account now s0\<lparr>st_probe := None, st_last_access := now\<rparr>"
  have "account_inv ?s"
    using account_inv_prune [OF account_inv_get [OF assms], of now] by (simp add: account_inv_def)
  then obtain s' where "apply_probe_outcome hash (cr_tuning g) (pl_account lease) now outcome ?s = Inr s'"
      "account_inv s'" "st_probe s' = None"
    using apply_probe_outcome_ok [of "cr_tuning g" ?s hash "pl_account lease" now outcome] assms(1)
    by (auto simp: account_registry_inv_def)
  with Inr assms(2) show ?thesis by (simp add: finish_probe_def Let_def)
qed

lemma inv_finish_probe:
  assumes "account_registry_inv g"
  shows "\<exists>res g'. finish_probe hash g lease outcome now = Inr (res, g') \<and> account_registry_inv g'"
proof (cases "map_of (cr_accounts g) (pl_account lease)")
  case None
  then show ?thesis using assms by (simp add: finish_probe_def)
next
  case (Some s0)
  from finish_probe_cases [OF assms Some, of now hash outcome] show ?thesis
    using assms account_inv_prune [OF account_inv_get [OF assms Some]]
    by (auto simp: account_registry_inv_put)
qed

lemma inv_snapshot:
  "account_registry_inv g \<Longrightarrow> account_registry_inv (snd (account_snapshot g key now))"
  by (auto simp: account_snapshot_def Let_def intro!: account_registry_inv_put account_inv_prune
      dest: account_inv_get split: option.split)

lemma inv_prune_idle: "account_registry_inv g \<Longrightarrow> account_registry_inv (snd (prune_idle g now))"
  by (auto simp: account_registry_inv_def prune_idle_def Let_def
      intro!: hm_all_retain hm_all_map_values account_inv_prune)

lemma inv_tuning:
  assumes "account_registry_inv g"
  shows "account_registry_inv (account_update_runtime_tuning g ds w now)"
proof -
  have "account_inv (s\<lparr>st_tickets := map (\<lambda>r. r\<lparr>tr_logical_deadline := min (tr_logical_deadline r) a,
      tr_lease_deadline := min (tr_lease_deadline r) b\<rparr>) (st_tickets s)\<rparr>)" if "account_inv s" for s a b
    using that by (intro account_inv_tickets) (simp_all add: account_inv_def comp_def)
  with assms show ?thesis
    by (simp add: account_registry_inv_def account_update_runtime_tuning_def Let_def hm_all_map_values)
qed

lemma inv_new: "account_registry_inv (account_registry_new t now)"
  by (simp add: account_registry_inv_def account_registry_new_def)

section \<open>The registry as a transition system\<close>

datatype account_op =
    AReject account_concurrency_key "duration option" instant
  | ARegister account_concurrency_key string string string string instant
  | ARegisterIfSaturated account_concurrency_key string string string string instant
  | ACancel account_wait_ticket instant
  | ARenewWaiter account_wait_ticket instant
  | ATryProbe account_wait_ticket string instant
  | ARenewProbe account_probe_lease instant
  | AFinishProbe account_probe_lease account_probe_outcome instant
  | ASnapshot account_concurrency_key instant
  | APruneIdle instant
  | ATune "nat list" nat instant

inductive account_step :: "account_hash \<Rightarrow> account_op \<Rightarrow> account_registry \<Rightarrow> account_registry \<Rightarrow> bool"
  for hash where
  a_reject: "reject hash g key ra now = Inr g' \<Longrightarrow> account_step hash (AReject key ra now) g g'"
| a_register: "register_waiter g key q d l token now = (ticket, g') \<Longrightarrow>
    account_step hash (ARegister key q d l token now) g g'"
| a_register_if: "register_waiter_if_saturated g key q d l token now = (ticket, g') \<Longrightarrow>
    account_step hash (ARegisterIfSaturated key q d l token now) g g'"
| a_cancel: "account_step hash (ACancel ticket now) g (cancel_waiter g ticket now)"
| a_renew_waiter: "renew_waiter g ticket now = (res, g') \<Longrightarrow>
    account_step hash (ARenewWaiter ticket now) g g'"
| a_try_probe: "try_probe g ticket token now = Inr (decision, g') \<Longrightarrow>
    account_step hash (ATryProbe ticket token now) g g'"
| a_renew_probe: "renew_probe g lease now = (res, g') \<Longrightarrow>
    account_step hash (ARenewProbe lease now) g g'"
| a_finish: "finish_probe hash g lease outcome now = Inr (res, g') \<Longrightarrow>
    account_step hash (AFinishProbe lease outcome now) g g'"
| a_snapshot: "account_snapshot g key now = (snap, g') \<Longrightarrow> account_step hash (ASnapshot key now) g g'"
| a_prune: "prune_idle g now = (n, g') \<Longrightarrow> account_step hash (APruneIdle now) g g'"
| a_tune: "account_step hash (ATune ds w now) g (account_update_runtime_tuning g ds w now)"

inductive account_init :: "account_registry \<Rightarrow> bool" where
  "account_init (account_registry_new t now)"

lemma account_step_inv:
  assumes "account_registry_inv g" "account_step hash op g g'"
  shows "account_registry_inv g'"
  using assms(2,1)
proof (cases rule: account_step.cases)
  case (a_reject key ra now)
  then show ?thesis using inv_reject [OF assms(1), of hash key ra now] by auto
next
  case (a_try_probe ticket token now decision)
  then show ?thesis using inv_try_probe [OF assms(1), of ticket token now] by auto
next
  case (a_finish lease outcome now res)
  then show ?thesis using inv_finish_probe [OF assms(1), of hash lease outcome now] by auto
qed (use assms(1) in \<open>metis snd_conv inv_register inv_register_if inv_renew_waiter inv_renew_probe
      inv_snapshot inv_prune_idle inv_cancel inv_tuning\<close>)+

interpretation account: invariant_system account_init "account_step hash" account_registry_inv for hash
  by unfold_locales (auto elim: account_init.cases simp: inv_new intro: account_step_inv)

end
