(* ===== verification/Account_Properties.thy ===== *)
theory Account_Properties
  imports Account_Concurrency
begin

text \<open>
  What the account concurrency registry promises: it never panics, probes are granted in queue
  order and one at a time, a granted lease stays usable until it expires and is used once, an
  explicit retry delay is honoured, and pruning keeps live accounts.
\<close>

lemmas account_registry_invariant = account.reachable_inv

section \<open>A concrete registry for the witnesses\<close>

definition sample_tuning :: account_concurrency_tuning where
  "sample_tuning = tuning_from_config [100, 200] 5000 30"

definition sample_account :: account_concurrency_key where
  "sample_account = \<lparr>aq_upstream_id = ''u1'', aq_key_fingerprint = ''k1''\<rparr>"

definition sample_accounts :: account_registry where
  "sample_accounts = snd (register_waiter (account_registry_new sample_tuning 0) sample_account ''r1'' ''d'' ''l'' ''tok'' 0)"

definition sample_ticket :: account_wait_ticket where
  "sample_ticket = fst (register_waiter (account_registry_new sample_tuning 0) sample_account ''r1'' ''d'' ''l'' ''tok'' 0)"

lemma sample_accounts_reachable: "reachable account_init (account_step hash) sample_accounts"
  unfolding sample_accounts_def
proof (rule reach_step)
  show "reachable account_init (account_step hash) (account_registry_new sample_tuning 0)"
    by (rule reach_init) (rule account_init.intros)
  show "account_step hash (ARegister sample_account ''r1'' ''d'' ''l'' ''tok'' 0)
      (account_registry_new sample_tuning 0)
      (snd (register_waiter (account_registry_new sample_tuning 0) sample_account ''r1'' ''d'' ''l'' ''tok'' 0))"
    by (rule a_register) (rule surjective_pairing)
qed

lemma sample_ticket_eq:
  "sample_ticket = \<lparr>wt_account = sample_account, wt_request_id = ''r1'', wt_downstream_id = ''d'',
     wt_downstream_lease_id = ''l'', wt_generation = 0, wt_registered_at_ms = 0,
     wt_registration_token = ''tok''\<rparr>"
  by (simp add: sample_ticket_def register_waiter_def Let_def enqueue_ticket_def account_registry_new_def
      account_state_new_def instant_ms_def saturating_duration_since_def as_millis_def probe_expired_def)

definition sample_account_state :: account_state where
  "sample_account_state =
    \<lparr>st_generation = 0, st_rejection_count = 0, st_cooldown_until = None,
     st_explicit_retry_after_until = None,
     st_tickets = [\<lparr>tr_ticket = sample_ticket, tr_logical_deadline = from_millis 5000,
                    tr_lease_deadline = from_millis 65000\<rparr>],
     st_probe = None, st_saturated = False, st_last_access = 0\<rparr>"

lemma sample_accounts_eq:
  "sample_accounts = \<lparr>cr_tuning = sample_tuning, cr_origin = 0, cr_accounts = [(sample_account, sample_account_state)]\<rparr>"
  by (simp add: sample_accounts_def register_waiter_def Let_def enqueue_ticket_def account_registry_new_def
      account_state_new_def instant_ms_def saturating_duration_since_def as_millis_def put_account_def
      sample_account_state_def sample_ticket_eq sample_tuning_def tuning_from_config_def u64_saturating_add_def
      u64_max_def prune_account_def prune_tickets_def)

definition sample_probe_lease :: account_probe_lease where
  "sample_probe_lease = \<lparr>pl_account = sample_account, pl_request_id = ''r1'', pl_generation = 0,
     pl_owner_token = ''own'', pl_expires_at_ms = 90001\<rparr>"

definition sample_probing :: account_registry where
  "sample_probing = snd (projr (try_probe sample_accounts sample_ticket ''own'' (from_millis 1)))"

lemma sample_grant:
  "try_probe sample_accounts sample_ticket ''own'' (from_millis 1) = Inr (Granted sample_probe_lease, sample_probing)"
  by (simp add: sample_probing_def try_probe_def sample_accounts_eq sample_account_state_def sample_ticket_eq
      prune_account_def prune_tickets_def Let_def from_millis_def ticket_identity_matches_def
      account_retry_after_def grant_probe_def sample_probe_lease_def instant_ms_def sample_tuning_def
      tuning_from_config_def u64_saturating_add_def u64_max_def from_secs_def saturating_duration_since_def
      as_millis_def)

section \<open>Properties\<close>

text \<open>
  C32. In every reachable registry the three operations that could panic (the delay schedule is
  indexed, the head of the queue is unwrapped) return, a queue holds one ticket per request, and
  a probe in flight carries the account's current generation.
\<close>

theorem account_registry_sound:
  assumes "reachable account_init (account_step hash) g"
  shows "(\<exists>g'. reject hash g key ra now = Inr g') \<and> (\<exists>d g'. try_probe g ticket token now = Inr (d, g'))
    \<and> (\<exists>e g'. finish_probe hash g lease outcome now = Inr (e, g'))
    \<and> (\<forall>a s. map_of (cr_accounts g) a = Some s \<longrightarrow>
         distinct (map (wt_request_id \<circ> tr_ticket) (st_tickets s))
         \<and> (\<forall>p. st_probe s = Some p \<longrightarrow> pl_generation (pr_lease p) = st_generation s))"
proof -
  note inv = account_registry_invariant [OF assms]
  have "account_inv s" if "map_of (cr_accounts g) a = Some s" for a s
    using account_inv_get [OF inv that] .
  then show ?thesis
    using inv_reject [OF inv, of hash key ra now] inv_try_probe [OF inv, of ticket token now]
      inv_finish_probe [OF inv, of hash lease outcome now]
    by (auto simp: account_inv_def is_none_or_iff)
qed

theorem account_registry_sound_witness:
  "reachable account_init (account_step (\<lambda>_ _. 7)) sample_accounts
   \<and> (\<exists>g'. reject (\<lambda>_ _. 7) sample_accounts sample_account (Some 5) 3 = Inr g')"
  using sample_accounts_reachable account_registry_sound [OF sample_accounts_reachable] by blast

text \<open>
  A probe is granted exactly to the ticket at the head of the queue that expired tickets have
  left, when no probe is in flight and no delay remains: the queue is first in, first out, and
  the head is never held back without one of these reasons.
\<close>

theorem probe_granted_iff:
  assumes "reachable account_init (account_step hash) g"
    and "map_of (cr_accounts g) (wt_account ticket) = Some s"
  shows "(\<exists>lease g'. try_probe g ticket token now = Inr (Granted lease, g')) \<longleftrightarrow>
    (\<exists>r rest. prune_tickets now (st_tickets s) = r # rest
       \<and> ticket_identity_matches (tr_ticket r) ticket \<and> wt_generation (tr_ticket r) = wt_generation ticket)
    \<and> is_none_or (st_probe s) (\<lambda>p. pr_expires_at p \<le> now)
    \<and> account_retry_after (prune_account now s) now = 0"
proof -
  have probe: "st_probe (prune_account now s) = None \<longleftrightarrow> is_none_or (st_probe s) (\<lambda>p. pr_expires_at p \<le> now)"
    by (cases "st_probe s") (simp_all add: probe_expired_def)
  have "(\<exists>lease g'. try_probe g ticket token now = Inr (Granted lease, g')) \<longleftrightarrow>
    (\<exists>r rest. st_tickets (prune_account now s) = r # rest
       \<and> ticket_identity_matches (tr_ticket r) ticket \<and> wt_generation (tr_ticket r) = wt_generation ticket)
    \<and> st_probe (prune_account now s) = None \<and> account_retry_after (prune_account now s) now = 0"
    (is "?granted \<longleftrightarrow> ?head \<and> ?idle")
  proof
    assume ?granted
    then show "?head \<and> ?idle"
      using try_probe_cases [OF assms(2) refl, where now = now and token = token] by auto
  next
    assume h: "?head \<and> ?idle"
    then show ?granted
      using assms(2) by (auto simp: try_probe_def Let_def grant_probe_def)
  qed
  then show ?thesis unfolding probe by simp
qed

theorem probe_granted_iff_witness:
  "\<exists>lease g'. try_probe sample_accounts sample_ticket ''own'' (from_millis 1) = Inr (Granted lease, g')"
proof -
  have m: "map_of (cr_accounts sample_accounts) (wt_account sample_ticket) = Some sample_account_state"
    by (simp add: sample_accounts_eq sample_ticket_eq)
  show ?thesis
    unfolding probe_granted_iff [OF sample_accounts_reachable [of "\<lambda>_ _. 0"] m]
    by (simp add: sample_account_state_def prune_tickets_def from_millis_def ticket_identity_matches_def
        account_retry_after_def past_def)
qed


lemma granted_state:
  assumes "try_probe g ticket token now = Inr (Granted lease, g')"
  obtains s p where "map_of (cr_accounts g') (wt_account ticket) = Some s" "st_probe s = Some p"
    "pr_lease p = lease" "pr_expires_at p = now + ct_probe_ttl (cr_tuning g)"
    "pl_account lease = wt_account ticket" "pl_generation lease = st_generation s"
    "pl_owner_token lease = token"
proof (cases "map_of (cr_accounts g) (wt_account ticket)")
  case None
  with assms show ?thesis by (simp add: try_probe_def)
next
  case (Some s0)
  define s where "s = prune_account now s0"
  from try_probe_cases [OF Some s_def, where token = token] show ?thesis
  proof (elim disjE exE conjE)
    fix d
    assume "try_probe g ticket token now = Inr (Wait d, put_account (wt_account ticket) s g)"
    with assms show ?thesis by simp
  next
    fix r rest
    let ?l = "\<lparr>pl_account = wt_account ticket, pl_request_id = wt_request_id (tr_ticket r),
              pl_generation = st_generation s, pl_owner_token = token,
              pl_expires_at_ms = instant_ms g (now + ct_probe_ttl (cr_tuning g))\<rparr>"
    assume "try_probe g ticket token now = (let lease = ?l
           in Inr (Granted lease, put_account (wt_account ticket)
             (s\<lparr>st_tickets := rest, st_probe := Some \<lparr>pr_lease = lease,
                pr_expires_at = now + ct_probe_ttl (cr_tuning g)\<rparr>, st_last_access := now\<rparr>) g))"
    with assms have "lease = ?l" "g' = put_account (wt_account ticket)
             (s\<lparr>st_tickets := rest, st_probe := Some \<lparr>pr_lease = ?l,
                pr_expires_at = now + ct_probe_ttl (cr_tuning g)\<rparr>, st_last_access := now\<rparr>) g"
      by (auto simp: Let_def)
    then show ?thesis
      by (intro that [of "s\<lparr>st_tickets := rest, st_probe := Some \<lparr>pr_lease = ?l,
          pr_expires_at = now + ct_probe_ttl (cr_tuning g)\<rparr>, st_last_access := now\<rparr>"
          "\<lparr>pr_lease = ?l, pr_expires_at = now + ct_probe_ttl (cr_tuning g)\<rparr>"])
        (simp_all add: put_account_def)
  qed
qed



lemma reject_state:
  assumes "reject hash g key ra now = Inr g'"
  obtains s where "map_of (cr_accounts g') key = Some s" "st_saturated s" "cr_tuning g' = cr_tuning g"
    "\<And>d. ra = Some d \<Longrightarrow> is_some_and (st_cooldown_until s) (\<lambda>c. now + d \<le> c)"
proof -
  let ?s = "prune_account now (hm_entry_or key (account_state_new now) (cr_accounts g))"
  obtain s' where s': "apply_rejection hash (cr_tuning g) key ra now (st_probe ?s = None) ?s = Inr s'"
    and g': "g' = put_account key s' g"
    using assms unfolding reject_def Let_def bind_ok_Inr_iff by auto
  show ?thesis
  proof (rule that [of s'])
    show "st_saturated s'"
      using s' by (auto simp: apply_rejection_def Let_def split: if_splits)
    show "is_some_and (st_cooldown_until s') (\<lambda>c. now + d \<le> c)" if "ra = Some d" for d
      using s' that by (auto simp: apply_rejection_def Let_def split: if_splits option.splits)
  qed (simp_all add: g' put_account_def)
qed

text \<open>
  An explicit retry delay is honoured: after a rejection that names one, no ticket of the
  account is granted a probe before it has passed.
\<close>

theorem retry_after_honoured:
  assumes "reject hash g (wt_account ticket) (Some d) now = Inr g'" "t < now + d"
  shows "\<exists>w g''. try_probe g' ticket token t = Inr (Wait w, g'')"
proof -
  obtain s where s: "map_of (cr_accounts g') (wt_account ticket) = Some s"
    and c: "is_some_and (st_cooldown_until s) (\<lambda>c. now + d \<le> c)"
    using reject_state [OF assms(1)] by blast
  have "0 < account_retry_after (prune_account t s) t"
    using c assms(2)
    by (auto simp: account_retry_after_def past_def is_some_and_iff less_max_iff_disj split: option.splits)
  then show ?thesis
    using try_probe_cases [OF s refl, where now = t and token = token] by auto
qed

theorem retry_after_honoured_witness:
  "\<exists>g'. reject (\<lambda>_ _. 7) sample_accounts sample_account (Some (from_secs 2)) (from_millis 1) = Inr g'
     \<and> (\<exists>w g''. try_probe g' sample_ticket ''own'' (from_millis 1500) = Inr (Wait w, g''))"
proof -
  obtain g' where g': "reject (\<lambda>_ _. 7) sample_accounts (wt_account sample_ticket) (Some (from_secs 2)) (from_millis 1) = Inr g'"
    using inv_reject [OF account_registry_invariant [OF sample_accounts_reachable]] by blast
  have "from_millis 1500 < from_millis 1 + from_secs 2" by (simp add: from_millis_def from_secs_def)
  from retry_after_honoured [OF g' this] g' show ?thesis by (auto simp: sample_ticket_eq)
qed

section \<open>The life of a lease\<close>

text \<open>
  Calls other requests make while a probe is in flight: everything but the two operations that
  name the probe's own lease.
\<close>

fun interferes :: "account_op \<Rightarrow> bool" where
  "interferes (ARenewProbe _ _) = False"
| "interferes (AFinishProbe _ _ _) = False"
| "interferes _ = True"

fun op_time :: "account_op \<Rightarrow> instant" where
  "op_time (AReject _ _ t) = t"
| "op_time (ARegister _ _ _ _ _ t) = t"
| "op_time (ARegisterIfSaturated _ _ _ _ _ t) = t"
| "op_time (ACancel _ t) = t"
| "op_time (ARenewWaiter _ t) = t"
| "op_time (ATryProbe _ _ t) = t"
| "op_time (ARenewProbe _ t) = t"
| "op_time (AFinishProbe _ _ t) = t"
| "op_time (ASnapshot _ t) = t"
| "op_time (APruneIdle t) = t"
| "op_time (ATune _ _ t) = t"

inductive interference :: "account_hash \<Rightarrow> instant \<Rightarrow> account_registry \<Rightarrow> account_registry \<Rightarrow> bool"
  for hash deadline where
  i_refl: "interference hash deadline g g"
| i_step: "interference hash deadline g g' \<Longrightarrow> account_step hash op g' g'' \<Longrightarrow> interferes op \<Longrightarrow>
    op_time op < deadline \<Longrightarrow> interference hash deadline g g''"

definition holds_probe :: "account_concurrency_key \<Rightarrow> probe_record \<Rightarrow> account_registry \<Rightarrow> bool" where
  "holds_probe key p g = is_some_and (map_of (cr_accounts g) key)
     (\<lambda>s. st_probe s = Some p \<and> st_generation s = pl_generation (pr_lease p))"

lemma holds_probe_put:
  "holds_probe key p g \<Longrightarrow> (k = key \<Longrightarrow> st_probe s = Some p \<and> st_generation s = pl_generation (pr_lease p)) \<Longrightarrow>
   holds_probe key p (put_account k s g)"
  by (auto simp: holds_probe_def put_account_def)

lemma prune_keeps_probe:
  assumes "st_probe s = Some p" "t < pr_expires_at p"
  shows "st_probe (prune_account t s) = Some p" "st_generation (prune_account t s) = st_generation s"
  using assms by (simp_all add: probe_expired_def)

lemma apply_rejection_probe:
  "apply_rejection hash t key ra now False s = Inr s' \<Longrightarrow> st_probe s' = st_probe s \<and> st_generation s' = st_generation s"
  by (auto simp: apply_rejection_def Let_def split: if_splits)

lemma holds_probeE:
  assumes "holds_probe key p g"
  obtains s where "map_of (cr_accounts g) key = Some s" "st_probe s = Some p"
    "st_generation s = pl_generation (pr_lease p)"
  using assms by (auto simp: holds_probe_def is_some_and_iff)

lemma holds_probeD:
  "holds_probe key p g \<Longrightarrow> map_of (cr_accounts g) key = Some s \<Longrightarrow>
   st_probe s = Some p \<and> st_generation s = pl_generation (pr_lease p)"
  by (simp add: holds_probe_def)

lemma holds_probe_entry:
  assumes "holds_probe key p g"
  shows "st_probe (hm_entry_or key d (cr_accounts g)) = Some p"
    "st_generation (hm_entry_or key d (cr_accounts g)) = pl_generation (pr_lease p)"
  using assms by (auto simp: holds_probe_def is_some_and_iff)

lemma holds_probe_other: "holds_probe key p g \<Longrightarrow> k \<noteq> key \<Longrightarrow> holds_probe key p (put_account k s g)"
  by (rule holds_probe_put) simp_all

lemma holds_probe_reject:
  assumes h: "holds_probe key p g" and r: "reject hash g k ra t = Inr g'" and t: "t < pr_expires_at p"
  shows "holds_probe key p g'"
proof -
  obtain s where s: "map_of (cr_accounts g) key = Some s" "st_probe s = Some p"
    "st_generation s = pl_generation (pr_lease p)" using h by (rule holds_probeE)
  let ?s = "prune_account t (hm_entry_or k (account_state_new t) (cr_accounts g))"
  obtain s' where s': "apply_rejection hash (cr_tuning g) k ra t (st_probe ?s = None) ?s = Inr s'"
    and g': "g' = put_account k s' g"
    using r unfolding reject_def Let_def bind_ok_Inr_iff by auto
  show ?thesis
    unfolding g'
  proof (rule holds_probe_put [OF h])
    assume "k = key"
    then have k: "?s = prune_account t s" using s by simp
    with prune_keeps_probe [OF s(2) t] have e: "(st_probe ?s = None) = False"
      by (simp del: prune_account_fields)
    from s' have "apply_rejection hash (cr_tuning g) k ra t False ?s = Inr s'" unfolding e .
    from apply_rejection_probe [OF this] prune_keeps_probe [OF s(2) t] s(3) k
    show "st_probe s' = Some p \<and> st_generation s' = pl_generation (pr_lease p)"
      by (simp del: prune_account_fields)
  qed
qed

lemma enqueue_keeps_probe:
  "st_probe (snd (enqueue_ticket g key q d l tk now s)) = st_probe s"
  "st_generation (snd (enqueue_ticket g key q d l tk now s)) = st_generation s"
  by (simp_all add: enqueue_ticket_def Let_def)

lemma holds_probe_register:
  assumes "holds_probe key p g" "t < pr_expires_at p"
  shows "holds_probe key p (snd (register_waiter g k q d l tk t))"
  using assms
  by (auto simp: register_waiter_def Let_def case_prod_unfold enqueue_keeps_probe holds_probe_entry
      prune_keeps_probe simp del: prune_account_fields intro!: holds_probe_put)

lemma holds_probe_register_if:
  assumes "holds_probe key p g" "t < pr_expires_at p"
  shows "holds_probe key p (snd (register_waiter_if_saturated g k q d l tk t))"
  using assms
  by (auto dest: holds_probeD simp: register_waiter_if_saturated_def Let_def case_prod_unfold
      enqueue_keeps_probe prune_keeps_probe simp del: prune_account_fields intro!: holds_probe_put
      split: option.split)

lemma holds_probe_cancel:
  assumes "holds_probe key p g"
  shows "holds_probe key p (cancel_waiter g ticket t)"
  using assms
  by (auto dest: holds_probeD simp: cancel_waiter_def intro!: holds_probe_put split: option.split)

lemma holds_probe_renew_waiter:
  assumes "holds_probe key p g" "t < pr_expires_at p"
  shows "holds_probe key p (snd (renew_waiter g ticket t))"
  using assms
  by (auto dest: holds_probeD simp: renew_waiter_def Let_def prune_keeps_probe
      simp del: prune_account_fields(2,3) intro!: holds_probe_put split: option.split)

lemma holds_probe_try:
  assumes h: "holds_probe key p g" and t: "t < pr_expires_at p"
    and tp: "try_probe g ticket tk t = Inr (decision, g')"
  shows "holds_probe key p g'"
proof (cases "map_of (cr_accounts g) (wt_account ticket)")
  case None
  with tp h show ?thesis by (simp add: try_probe_def)
next
  case (Some s0)
  show ?thesis
  proof (cases "wt_account ticket = key")
    case True
    with h Some have s0: "st_probe s0 = Some p" "st_generation s0 = pl_generation (pr_lease p)"
      by (auto elim: holds_probeE)
    from try_probe_cases [OF Some refl, where now = t and token = tk] tp prune_keeps_probe [OF s0(1) t]
    have "g' = put_account (wt_account ticket) (prune_account t s0) g" by auto
    with h s0 prune_keeps_probe [OF s0(1) t] show ?thesis by (simp add: holds_probe_put del: prune_account_fields)
  next
    case False
    from try_probe_cases [OF Some refl, where now = t and token = tk] tp
    obtain s' where "g' = put_account (wt_account ticket) s' g" by (auto simp: Let_def)
    with h False show ?thesis by (simp add: holds_probe_other)
  qed
qed

lemma holds_probe_snapshot:
  assumes "holds_probe key p g" "t < pr_expires_at p"
  shows "holds_probe key p (snd (account_snapshot g k t))"
  using assms
  by (auto dest: holds_probeD simp: account_snapshot_def Let_def prune_keeps_probe
      simp del: prune_account_fields(2,3) intro!: holds_probe_put split: option.split)

lemma holds_probe_prune_idle:
  assumes "account_registry_inv g" "holds_probe key p g" "t < pr_expires_at p"
  shows "holds_probe key p (snd (prune_idle g t))"
proof -
  obtain s where s: "map_of (cr_accounts g) key = Some s" "st_probe s = Some p"
    "st_generation s = pl_generation (pr_lease p)" using assms(2) by (rule holds_probeE)
  have "hm_ok (hm_map_values (prune_account t) (cr_accounts g))"
    using assms(1) by (simp add: account_registry_inv_def)
  then show ?thesis
    using s prune_keeps_probe [OF s(2) assms(3)]
    by (simp add: holds_probe_def prune_idle_def Let_def map_of_hm_retain keep_account_def
        del: prune_account_fields)
qed

lemma holds_probe_tune:
  assumes "holds_probe key p g"
  shows "holds_probe key p (account_update_runtime_tuning g ds w t)"
  using assms by (auto simp: holds_probe_def is_some_and_iff account_update_runtime_tuning_def Let_def)

lemma holds_probe_step:
  assumes inv: "account_registry_inv g" and h: "holds_probe key p g" and st: "account_step hash op g g'"
    and op: "interferes op" "op_time op < pr_expires_at p"
  shows "holds_probe key p g'"
  using st
proof (cases rule: account_step.cases)
  case (a_reject k ra now)
  then show ?thesis using h op by (auto intro: holds_probe_reject)
next
  case (a_try_probe ticket token now decision)
  then show ?thesis using h op by (auto intro: holds_probe_try)
next
  case (a_register k q d l token now ticket)
  then show ?thesis using holds_probe_register [OF h, of now k q d l token] op by simp
next
  case (a_register_if k q d l token now ticket)
  then show ?thesis using holds_probe_register_if [OF h, of now k q d l token] op by simp
next
  case (a_renew_waiter ticket now res)
  then show ?thesis using holds_probe_renew_waiter [OF h, of now ticket] op by simp
next
  case (a_snapshot k now snap)
  then show ?thesis using holds_probe_snapshot [OF h, of now k] op by simp
next
  case (a_prune now n)
  then show ?thesis using holds_probe_prune_idle [OF inv h, of now] op by simp
qed (use h op in \<open>auto intro: holds_probe_cancel holds_probe_tune\<close>)

lemma holds_probe_interference:
  assumes "interference hash deadline g g'" "account_registry_inv g" "holds_probe key p g"
    and "deadline \<le> pr_expires_at p"
  shows "holds_probe key p g' \<and> account_registry_inv g'"
  using assms
  by (induction rule: interference.induct) (auto intro: holds_probe_step account_step_inv)

text \<open>
  A granted lease cannot be lost to other requests. Whatever they do before the lease expires
  (rejections, registrations, cancellations, renewals, attempts to probe, pruning, retuning), its
  holder can still finish the probe, and reporting the account as accepted reopens it: no longer
  saturated, no delay, no probe in flight.
\<close>

theorem granted_lease_survives:
  assumes reach: "reachable account_init (account_step hash) g"
    and grant: "try_probe g ticket token now = Inr (Granted lease, g1)"
    and others: "interference hash (now + ct_probe_ttl (cr_tuning g)) g1 g2"
    and t: "t < now + ct_probe_ttl (cr_tuning g)"
  shows "\<exists>g3 s. finish_probe hash g2 lease Accepted t = Inr (Inr (), g3)
    \<and> map_of (cr_accounts g3) (wt_account ticket) = Some s
    \<and> \<not> st_saturated s \<and> st_probe s = None \<and> account_retry_after s t' = 0"
proof -
  note inv = account_registry_invariant [OF reach]
  have inv1: "account_registry_inv g1" using inv_try_probe [OF inv, of ticket token now] grant by auto
  obtain s p where s: "map_of (cr_accounts g1) (wt_account ticket) = Some s" "st_probe s = Some p"
    "pr_lease p = lease" "pr_expires_at p = now + ct_probe_ttl (cr_tuning g)"
    "pl_account lease = wt_account ticket" "pl_generation lease = st_generation s"
    by (rule granted_state [OF grant])
  have h: "holds_probe (wt_account ticket) p g1" using s by (simp add: holds_probe_def)
  from holds_probe_interference [OF others inv1 h] s(4)
  have h2: "holds_probe (wt_account ticket) p g2" and inv2: "account_registry_inv g2" by simp_all
  obtain s2 where s2: "map_of (cr_accounts g2) (wt_account ticket) = Some s2" "st_probe s2 = Some p"
    "st_generation s2 = pl_generation (pr_lease p)" using h2 by (rule holds_probeE)
  have v: "validate_probe (prune_account t s2) lease = Inr ()"
    using prune_keeps_probe [OF s2(2), of t] t s(3,4) s2(3) by (simp add: validate_probe_def del: prune_account_fields)
  show ?thesis
    using v s2(1) s(5)
    by (simp add: finish_probe_def Let_def put_account_def account_retry_after_def)
qed

lemma sample_probing_ttl: "ct_probe_ttl (cr_tuning sample_accounts) = from_secs 90"
  by (simp add: sample_accounts_eq sample_tuning_def tuning_from_config_def u64_saturating_add_def u64_max_def)

lemma sample_interference:
  "\<exists>g2. reject (\<lambda>_ _. 7) sample_probing sample_account None (from_millis 5) = Inr g2
    \<and> interference (\<lambda>_ _. 7) (from_millis 1 + from_secs 90) sample_probing g2"
proof -
  have "account_registry_inv sample_probing"
    using inv_try_probe [OF account_registry_invariant [OF sample_accounts_reachable],
        of sample_ticket "''own''" "from_millis 1"] sample_grant by simp
  then obtain g2 where r: "reject (\<lambda>_ _. 7) sample_probing sample_account None (from_millis 5) = Inr g2"
    using inv_reject by blast
  have "interference (\<lambda>_ _. 7) (from_millis 1 + from_secs 90) sample_probing g2"
    by (rule i_step [OF i_refl a_reject [OF r]]) (simp_all add: from_millis_def from_secs_def)
  with r show ?thesis by blast
qed

theorem granted_lease_survives_witness:
  "\<exists>g2. reject (\<lambda>_ _. 7) sample_probing sample_account None (from_millis 5) = Inr g2
     \<and> (\<exists>g3. finish_probe (\<lambda>_ _. 7) g2 sample_probe_lease Accepted (from_secs 1) = Inr (Inr (), g3))"
proof -
  obtain g2 where r: "reject (\<lambda>_ _. 7) sample_probing sample_account None (from_millis 5) = Inr g2"
    and i: "interference (\<lambda>_ _. 7) (from_millis 1 + from_secs 90) sample_probing g2"
    using sample_interference by blast
  have "from_secs 1 < from_millis 1 + from_secs 90" by (simp add: from_millis_def from_secs_def)
  with granted_lease_survives [OF sample_accounts_reachable sample_grant, of "\<lambda>_ _. 7" g2 "from_secs 1"] i r
  show ?thesis unfolding sample_probing_ttl by blast
qed

text \<open>
  A lease is used once: after a successful \<open>finish_probe\<close> the same lease is refused, whatever
  its next outcome and time.
\<close>

theorem probe_lease_used_once:
  assumes reach: "reachable account_init (account_step hash) g"
    and fin: "finish_probe hash g lease outcome now = Inr (Inr (), g')"
  shows "\<exists>e g''. finish_probe hash g' lease outcome' t = Inr (Inl e, g'')"
proof -
  note inv = account_registry_invariant [OF reach]
  obtain s0 where s0: "map_of (cr_accounts g) (pl_account lease) = Some s0"
    using fin by (cases "map_of (cr_accounts g) (pl_account lease)") (simp_all add: finish_probe_def)
  from finish_probe_cases [OF inv s0, of now hash outcome] fin
  obtain s' where s': "map_of (cr_accounts g') (pl_account lease) = Some s'" "st_probe s' = None"
    by (auto simp: put_account_def)
  have "st_probe (prune_account t s') = None" using s'(2) by simp
  then have "\<exists>e. validate_probe (prune_account t s') lease = Inl e"
    by (simp add: validate_probe_def del: prune_account_fields)
  with s'(1) show ?thesis by (auto simp: finish_probe_def Let_def)
qed

lemma sample_probing_reachable: "reachable account_init (account_step hash) sample_probing"
proof (rule reach_step)
  show "reachable account_init (account_step hash) sample_accounts" by (rule sample_accounts_reachable)
  show "account_step hash (ATryProbe sample_ticket ''own'' (from_millis 1)) sample_accounts sample_probing"
    by (rule a_try_probe) (rule sample_grant)
qed

theorem probe_lease_used_once_witness:
  "\<exists>g3. finish_probe (\<lambda>_ _. 7) sample_probing sample_probe_lease AttemptFailed (from_secs 1) = Inr (Inr (), g3)
     \<and> (\<exists>e g4. finish_probe (\<lambda>_ _. 7) g3 sample_probe_lease Accepted (from_secs 2) = Inr (Inl e, g4))"
proof -
  obtain s p where s: "map_of (cr_accounts sample_probing) sample_account = Some s" "st_probe s = Some p"
    "pr_lease p = sample_probe_lease" "pr_expires_at p = from_millis 1 + from_secs 90"
    "pl_generation sample_probe_lease = st_generation s"
    by (rule granted_state [OF sample_grant]) (simp add: sample_ticket_eq sample_probing_ttl)
  have "validate_probe (prune_account (from_secs 1) s) sample_probe_lease = Inr ()"
    using s by (simp add: validate_probe_def probe_expired_def from_millis_def from_secs_def)
  with s(1) obtain g3 where
    f: "finish_probe (\<lambda>_ _. 7) sample_probing sample_probe_lease AttemptFailed (from_secs 1) = Inr (Inr (), g3)"
    by (auto simp: finish_probe_def Let_def sample_probe_lease_def)
  from probe_lease_used_once [OF sample_probing_reachable f] f show ?thesis by blast
qed

text \<open>
  Pruning idle accounts never drops one that still has a waiter, a probe in flight or a delay
  to serve after expired parts are removed, and it reports how many accounts it dropped.
\<close>

theorem prune_idle_keeps_live:
  assumes reach: "reachable account_init (account_step hash) g"
    and s: "map_of (cr_accounts g) key = Some s" and pr: "prune_idle g now = (n, g')"
  shows "n = entry_count g - entry_count g' \<and> entry_count g' \<le> entry_count g
    \<and> (prune_tickets now (st_tickets s) \<noteq> [] \<or> is_some_and (st_probe s) (\<lambda>p. now < pr_expires_at p)
         \<or> is_some_and (st_cooldown_until s) (\<lambda>c. now < c)
       \<longrightarrow> map_of (cr_accounts g') key = Some (prune_account now s))"
proof -
  have ok: "hm_ok (hm_map_values (prune_account now) (cr_accounts g))"
    using account_registry_invariant [OF reach] by (simp add: account_registry_inv_def)
  have "keep_account (cr_tuning g) now (prune_account now s)"
    if "prune_tickets now (st_tickets s) \<noteq> [] \<or> is_some_and (st_probe s) (\<lambda>p. now < pr_expires_at p)
         \<or> is_some_and (st_cooldown_until s) (\<lambda>c. now < c)"
    using that
    by (auto simp: keep_account_def probe_expired_def is_some_and_iff past_def account_retry_after_def
        less_max_iff_disj split: option.split)
  then show ?thesis
    using pr s by (auto simp: prune_idle_def Let_def entry_count_def map_of_hm_retain [OF ok]
        le_trans [OF length_hm_retain_le])
qed

theorem prune_idle_keeps_live_witness:
  "map_of (cr_accounts sample_accounts) sample_account = Some sample_account_state
   \<and> prune_tickets (from_secs 1) (st_tickets sample_account_state) \<noteq> []
   \<and> map_of (cr_accounts (snd (prune_idle sample_accounts (from_secs 1)))) sample_account
      = Some (prune_account (from_secs 1) sample_account_state)"
proof -
  have m: "map_of (cr_accounts sample_accounts) sample_account = Some sample_account_state"
    by (simp add: sample_accounts_eq)
  have p: "prune_tickets (from_secs 1) (st_tickets sample_account_state) \<noteq> []"
    by (simp add: sample_account_state_def prune_tickets_def from_secs_def from_millis_def)
  show ?thesis
    using m p prune_idle_keeps_live [OF sample_accounts_reachable [of "\<lambda>_ _. 0"] m surjective_pairing, of "from_secs 1"]
    by blast
qed

end
