(* ===== verification/Probe_Queue.thy ===== *)
theory Probe_Queue
  imports Route_Health_Types
begin

text \<open>
  The queue of capability probes (\<open>src/src/capabilities/probe_queue.rs\<close>): jobs are deduplicated
  by their profile key, started in queue order under a global limit and a limit per upstream, and
  bounded in number. A job carries a compiled configuration whose representation the queue never
  looks into; it is the type parameter, and its \<open>digest()\<close> is the argument \<open>digest\<close>. Ordered sets
  are sets, ordered maps are association lists.
\<close>

section \<open>Data\<close>

record dialect_profile_key =
  dk_upstream_id :: string
  dk_key_fingerprint :: string
  dk_runtime_model_slug :: string
  dk_protocol :: wire_protocol

datatype probe_reason = ConfigurationChanged | ModelDiscovered | ScheduledRefresh | DialectError | Manual

definition is_automatic :: "probe_reason \<Rightarrow> bool" where
  "is_automatic r = (r \<noteq> Manual)"

datatype probe_mode = FullMode | ReasoningMode

record probe_configuration_binding =
  pb_configuration_fingerprint :: string
  pb_configuration_digest :: string
  pb_configuration_schema_version :: nat
  pb_configuration_revision :: nat
  pb_probe_schema_version :: nat

record 'p probe_job =
  pj_key :: dialect_profile_key
  pj_exposed_model_slugs :: "string set"
  pj_reason :: probe_reason
  pj_mode :: probe_mode
  pj_configuration :: probe_configuration_binding
  pj_plan_configuration :: 'p

datatype 'p probe_queue_enqueue_outcome =
    Enqueued
  | Unchanged
  | Replaced "'p probe_job"

record 'p probe_job_batch =
  bt_jobs :: "'p probe_job list"
  bt_mode :: probe_mode

definition batch_new :: "'p probe_job list \<Rightarrow> 'p probe_job_batch" where
  "batch_new jobs =
    \<lparr>bt_jobs = jobs, bt_mode = (case jobs of [] \<Rightarrow> FullMode | job # _ \<Rightarrow> pj_mode job)\<rparr>"

definition batch_single :: "'p probe_job \<Rightarrow> 'p probe_job_batch" where
  "batch_single job = \<lparr>bt_jobs = [job], bt_mode = pj_mode job\<rparr>"

definition batch_with_mode :: "probe_mode \<Rightarrow> 'p probe_job_batch \<Rightarrow> 'p probe_job_batch" where
  "batch_with_mode m b =
    \<lparr>bt_jobs = map (\<lambda>job. job\<lparr>pj_mode := m\<rparr>) (bt_jobs b), bt_mode = m\<rparr>"

record 'p probe_queue_state =
  pq_pending :: "'p probe_job list"
  pq_known :: "dialect_profile_key set"
  pq_active :: "dialect_profile_key set"
  pq_active_jobs :: "(dialect_profile_key, 'p probe_job) hashmap"
  pq_active_by_upstream :: "(string, nat) hashmap"
  pq_max_global :: nat
  pq_max_per_upstream :: nat
  pq_max_jobs :: nat

section \<open>Operations\<close>

definition probe_queue_new :: "nat \<Rightarrow> nat \<Rightarrow> nat \<Rightarrow> 'p probe_queue_state" where
  "probe_queue_new max_global max_per_upstream max_jobs =
    \<lparr>pq_pending = [], pq_known = {}, pq_active = {}, pq_active_jobs = [], pq_active_by_upstream = [],
     pq_max_global = max max_global 1, pq_max_per_upstream = max max_per_upstream 1,
     pq_max_jobs = max max_jobs 1\<rparr>"

definition same_job_configuration :: "('p \<Rightarrow> string) \<Rightarrow> 'p probe_job \<Rightarrow> 'p probe_job \<Rightarrow> bool" where
  "same_job_configuration digest left right =
    (pj_configuration left = pj_configuration right
     \<and> digest (pj_plan_configuration left) = digest (pj_plan_configuration right))"

definition is_full :: "'p probe_queue_state \<Rightarrow> bool" where
  "is_full q = (card (pq_active q) + length (pq_pending q) \<ge> pq_max_jobs q)"

text \<open>Writing through the \<open>iter_mut().find(..)\<close> reference: the first job with the key is replaced.\<close>

fun replace_pending :: "dialect_profile_key \<Rightarrow> 'p probe_job \<Rightarrow> 'p probe_job list \<Rightarrow> 'p probe_job list" where
  "replace_pending key job [] = []"
| "replace_pending key job (x # xs) =
    (if pj_key x = key then job # xs else x # replace_pending key job xs)"

definition enqueue_with_outcome ::
  "('p \<Rightarrow> string) \<Rightarrow> 'p probe_queue_state \<Rightarrow> 'p probe_job \<Rightarrow>
   ('p probe_job + 'p probe_queue_enqueue_outcome) \<times> 'p probe_queue_state" where
  "enqueue_with_outcome digest q job =
    (if pj_key job \<in> pq_known q
     then
       (case find (\<lambda>pending. pj_key pending = pj_key job) (pq_pending q) of
          Some pending \<Rightarrow>
            if same_job_configuration digest pending job
            then (Inr Unchanged, q\<lparr>pq_pending := replace_pending (pj_key job)
                   (pending\<lparr>pj_exposed_model_slugs :=
                      pj_exposed_model_slugs pending \<union> pj_exposed_model_slugs job\<rparr>) (pq_pending q)\<rparr>)
            else (Inr (Replaced pending),
                  q\<lparr>pq_pending := replace_pending (pj_key job) job (pq_pending q)\<rparr>)
        | None \<Rightarrow>
            if pj_key job \<in> pq_active q
            then (if is_some_and (map_of (pq_active_jobs q) (pj_key job))
                       (\<lambda>active. same_job_configuration digest active job
                          \<and> pj_exposed_model_slugs job \<subseteq> pj_exposed_model_slugs active)
                  then (Inr Unchanged, q)
                  else if card (pq_active q) + length (pq_pending q) \<ge> pq_max_jobs q
                  then (Inl job, q)
                  else (Inr Enqueued, q\<lparr>pq_pending := pq_pending q @ [job]\<rparr>))
            else (Inr Unchanged, q))
     else if card (pq_active q) + length (pq_pending q) \<ge> pq_max_jobs q
     then (Inl job, q)
     else (Inr Enqueued, q\<lparr>pq_known := insert (pj_key job) (pq_known q),
                           pq_pending := pq_pending q @ [job]\<rparr>))"

definition enqueue :: "('p \<Rightarrow> string) \<Rightarrow> 'p probe_queue_state \<Rightarrow> 'p probe_job \<Rightarrow> bool \<times> 'p probe_queue_state" where
  "enqueue digest q job =
    (let (outcome, q') = enqueue_with_outcome digest q job
     in ((case outcome of Inr Enqueued \<Rightarrow> True | _ \<Rightarrow> False), q'))"

text \<open>The loop of \<open>enqueue_batch_with_outcome\<close>: remaining jobs, replaced jobs, queue.\<close>

fun enqueue_jobs ::
  "('p \<Rightarrow> string) \<Rightarrow> 'p probe_queue_state \<Rightarrow> 'p probe_job list \<Rightarrow> 'p probe_job list \<Rightarrow>
   'p probe_job list \<times> 'p probe_job list \<times> 'p probe_queue_state" where
  "enqueue_jobs digest q replaced [] = ([], replaced, q)"
| "enqueue_jobs digest q replaced (job # jobs) =
    (case enqueue_with_outcome digest q job of
       (Inr (Replaced discarded), q') \<Rightarrow> enqueue_jobs digest q' (replaced @ [discarded]) jobs
     | (Inr _, q') \<Rightarrow> enqueue_jobs digest q' replaced jobs
     | (Inl job', q') \<Rightarrow> (job' # jobs, replaced, q'))"

definition enqueue_batch_with_outcome ::
  "('p \<Rightarrow> string) \<Rightarrow> 'p probe_queue_state \<Rightarrow> 'p probe_job_batch \<Rightarrow>
   'p probe_job_batch \<times> 'p probe_job list \<times> 'p probe_queue_state" where
  "enqueue_batch_with_outcome digest q batch =
    (let (remaining, replaced, q') = enqueue_jobs digest q [] (bt_jobs batch)
     in (batch_new remaining, replaced, q'))"

definition enqueue_batch ::
  "('p \<Rightarrow> string) \<Rightarrow> 'p probe_queue_state \<Rightarrow> 'p probe_job_batch \<Rightarrow> 'p probe_job_batch \<times> 'p probe_queue_state" where
  "enqueue_batch digest q batch =
    (let (remaining, replaced, q') = enqueue_batch_with_outcome digest q batch in (remaining, q'))"

definition has_reasoning_job :: "'p probe_queue_state \<Rightarrow> bool" where
  "has_reasoning_job q =
    (list_ex (\<lambda>job. pj_mode job = ReasoningMode) (pq_pending q)
     \<or> list_ex (\<lambda>(k, job). pj_mode job = ReasoningMode) (pq_active_jobs q))"

definition set_limits :: "'p probe_queue_state \<Rightarrow> nat \<Rightarrow> nat \<Rightarrow> 'p probe_queue_state" where
  "set_limits q max_global max_per_upstream =
    q\<lparr>pq_max_global := max max_global 1, pq_max_per_upstream := max max_per_upstream 1\<rparr>"

definition clear_pending :: "'p probe_queue_state \<Rightarrow> 'p probe_job list \<times> 'p probe_queue_state" where
  "clear_pending q = (pq_pending q, q\<lparr>pq_pending := [], pq_known := pq_active q\<rparr>)"

definition upstream_active :: "'p probe_queue_state \<Rightarrow> string \<Rightarrow> nat" where
  "upstream_active q u = hm_entry_or u 0 (pq_active_by_upstream q)"

definition startable :: "'p probe_queue_state \<Rightarrow> 'p probe_job \<Rightarrow> bool" where
  "startable q job =
    (pj_key job \<notin> pq_active q
     \<and> upstream_active q (dk_upstream_id (pj_key job)) < pq_max_per_upstream q)"

text \<open>\<open>position\<close> and \<open>remove\<close>: the first startable job and the queue without it.\<close>

fun take_first :: "('a \<Rightarrow> bool) \<Rightarrow> 'a list \<Rightarrow> ('a \<times> 'a list) option" where
  "take_first p [] = None"
| "take_first p (x # xs) =
    (if p x then Some (x, xs) else map_option (\<lambda>(y, ys). (y, x # ys)) (take_first p xs))"

definition start_next :: "'p probe_queue_state \<Rightarrow> 'p probe_job option \<times> 'p probe_queue_state" where
  "start_next q =
    (if card (pq_active q) \<ge> pq_max_global q then (None, q)
     else case take_first (startable q) (pq_pending q) of
            None \<Rightarrow> (None, q)
          | Some (job, rest) \<Rightarrow>
              (Some job,
               q\<lparr>pq_pending := rest,
                 pq_active := insert (pj_key job) (pq_active q),
                 pq_active_jobs := AList.update (pj_key job) job (pq_active_jobs q),
                 pq_active_by_upstream := AList.update (dk_upstream_id (pj_key job))
                   (upstream_active q (dk_upstream_id (pj_key job)) + 1) (pq_active_by_upstream q)\<rparr>))"

definition release_upstream :: "string \<Rightarrow> (string, nat) hashmap \<Rightarrow> (string, nat) hashmap" where
  "release_upstream u m =
    (case map_of m u of
       None \<Rightarrow> m
     | Some count \<Rightarrow> if count - 1 = 0 then AList.delete u m else AList.update u (count - 1) m)"

definition probe_finish :: "'p probe_queue_state \<Rightarrow> dialect_profile_key \<Rightarrow> 'p probe_queue_state" where
  "probe_finish q key =
    (let q1 = (if key \<in> pq_active q
               then q\<lparr>pq_active := pq_active q - {key},
                      pq_active_jobs := AList.delete key (pq_active_jobs q),
                      pq_active_by_upstream :=
                        release_upstream (dk_upstream_id key) (pq_active_by_upstream q)\<rparr>
               else q)
     in if \<not> list_ex (\<lambda>pending. pj_key pending = key) (pq_pending q1)
        then q1\<lparr>pq_known := pq_known q1 - {key}\<rparr> else q1)"

section \<open>The queue invariant\<close>

definition active_count :: "dialect_profile_key set \<Rightarrow> string \<Rightarrow> nat" where
  "active_count A u = card {k \<in> A. dk_upstream_id k = u}"

definition queue_inv :: "'p probe_queue_state \<Rightarrow> bool" where
  "queue_inv q =
    (finite (pq_active q)
     \<and> pq_known q = pq_active q \<union> pj_key ` set (pq_pending q)
     \<and> distinct (map pj_key (pq_pending q))
     \<and> dom (map_of (pq_active_jobs q)) = pq_active q
     \<and> (\<forall>k job. map_of (pq_active_jobs q) k = Some job \<longrightarrow> pj_key job = k)
     \<and> (\<forall>u. upstream_active q u = active_count (pq_active q) u)
     \<and> card (pq_active q) + length (pq_pending q) \<le> pq_max_jobs q
     \<and> 1 \<le> pq_max_global q \<and> 1 \<le> pq_max_per_upstream q \<and> 1 \<le> pq_max_jobs q)"

lemma queue_inv_new: "queue_inv (probe_queue_new a b c)"
  by (simp add: queue_inv_def probe_queue_new_def upstream_active_def active_count_def)

lemma find_pending_Some:
  "find p xs = Some x \<Longrightarrow> x \<in> set xs \<and> p x"
  by (auto simp: find_Some_iff)

lemma map_key_replace:
  "pj_key job = key \<Longrightarrow> map pj_key (replace_pending key job xs) = map pj_key xs"
  by (induction xs) auto

lemma set_key_replace:
  "pj_key job = key \<Longrightarrow> pj_key ` set (replace_pending key job xs) = pj_key ` set xs"
  by (metis list.set_map map_key_replace)

lemma queue_inv_replace:
  assumes "queue_inv q" "pj_key job = key"
  shows "queue_inv (q\<lparr>pq_pending := replace_pending key job (pq_pending q)\<rparr>)"
proof -
  have "length (replace_pending key job (pq_pending q)) = length (pq_pending q)"
    using map_key_replace [OF assms(2)] by (metis length_map)
  with assms show ?thesis
    by (simp add: queue_inv_def upstream_active_def map_key_replace set_key_replace)
qed

lemma queue_inv_push:
  assumes "queue_inv q" "pj_key job \<notin> pj_key ` set (pq_pending q)"
    and "card (pq_active q) + length (pq_pending q) < pq_max_jobs q"
  shows "queue_inv (q\<lparr>pq_known := insert (pj_key job) (pq_known q), pq_pending := pq_pending q @ [job]\<rparr>)"
  using assms by (auto simp: queue_inv_def upstream_active_def)

lemma queue_inv_enqueue:
  assumes "queue_inv q" "enqueue_with_outcome digest q job = (res, q')"
  shows "queue_inv q'"
proof (cases "pj_key job \<in> pq_known q")
  case False
  then have "pj_key job \<notin> pj_key ` set (pq_pending q)" using assms(1) by (auto simp: queue_inv_def)
  with False assms queue_inv_push [OF assms(1) this] show ?thesis
    by (auto simp: enqueue_with_outcome_def split: if_splits)
next
  case known: True
  show ?thesis
  proof (cases "find (\<lambda>pending. pj_key pending = pj_key job) (pq_pending q)")
    case (Some pending)
    then have "pj_key pending = pj_key job" by (auto dest: find_pending_Some)
    with known Some assms show ?thesis
      by (auto simp: enqueue_with_outcome_def intro!: queue_inv_replace split: if_splits)
  next
    case None
    then have "pj_key job \<notin> pj_key ` set (pq_pending q)" by (auto simp: find_None_iff)
    from queue_inv_push [OF assms(1) this] known None assms show ?thesis
      by (auto simp: enqueue_with_outcome_def insert_absorb split: if_splits)
  qed
qed

lemma take_first_Some:
  "take_first p xs = Some (x, rest) \<Longrightarrow>
   \<exists>ys zs. xs = ys @ x # zs \<and> rest = ys @ zs \<and> p x \<and> (\<forall>y\<in>set ys. \<not> p y)"
proof (induction xs arbitrary: rest)
  case Nil
  then show ?case by simp
next
  case (Cons a xs)
  show ?case
  proof (cases "p a")
    case True
    with Cons.prems show ?thesis by (intro exI [of _ "[]"] exI [of _ xs]) auto
  next
    case False
    with Cons.prems obtain r where r: "rest = a # r" "take_first p xs = Some (x, r)" by auto
    from Cons.IH [OF r(2)] obtain ys zs where "xs = ys @ x # zs" "r = ys @ zs" "p x" "\<forall>y\<in>set ys. \<not> p y"
      by blast
    with False r(1) show ?thesis by (intro exI [of _ "a # ys"] exI [of _ zs]) auto
  qed
qed

lemma take_first_None: "take_first p xs = None \<longleftrightarrow> (\<forall>x\<in>set xs. \<not> p x)"
  by (induction xs) auto

lemma start_next_cases:
  assumes "start_next q = (res, q')"
  obtains (limit) "res = None" "q' = q" "pq_max_global q \<le> card (pq_active q)"
  | (blocked) "res = None" "q' = q" "\<forall>job\<in>set (pq_pending q). \<not> startable q job"
  | (started) job ys zs where "res = Some job" "card (pq_active q) < pq_max_global q"
      "pq_pending q = ys @ job # zs" "startable q job" "\<forall>y\<in>set ys. \<not> startable q y"
      "q' = q\<lparr>pq_pending := ys @ zs,
                 pq_active := insert (pj_key job) (pq_active q),
                 pq_active_jobs := AList.update (pj_key job) job (pq_active_jobs q),
                 pq_active_by_upstream := AList.update (dk_upstream_id (pj_key job))
                   (upstream_active q (dk_upstream_id (pj_key job)) + 1) (pq_active_by_upstream q)\<rparr>"
proof (cases "pq_max_global q \<le> card (pq_active q)")
  case True
  with assms that(1) show ?thesis by (auto simp: start_next_def)
next
  case lim: False
  show ?thesis
  proof (cases "take_first (startable q) (pq_pending q)")
    case None
    with lim assms that(2) show ?thesis by (auto simp: start_next_def take_first_None)
  next
    case (Some jr)
    obtain job rest where jr: "jr = (job, rest)" by (cases jr)
    with Some obtain ys zs where "pq_pending q = ys @ job # zs" "rest = ys @ zs" "startable q job"
      "\<forall>y\<in>set ys. \<not> startable q y" by (auto dest: take_first_Some)
    with lim assms Some jr that(3) show ?thesis by (auto simp: start_next_def)
  qed
qed

lemma active_count_insert:
  assumes "finite A" "k \<notin> A"
  shows "active_count (insert k A) u = (if dk_upstream_id k = u then 1 else 0) + active_count A u"
proof -
  have "{x \<in> insert k A. dk_upstream_id x = u}
      = (if dk_upstream_id k = u then insert k {x \<in> A. dk_upstream_id x = u} else {x \<in> A. dk_upstream_id x = u})"
    by auto
  with assms show ?thesis by (simp add: active_count_def)
qed

lemma upstream_active_update:
  "upstream_active (q\<lparr>pq_active_by_upstream := AList.update u n m\<rparr>) u' = (if u' = u then n else hm_entry_or u' 0 m)"
  by (simp add: upstream_active_def hm_entry_or_def)

lemma queue_inv_start_next:
  assumes "queue_inv q" "start_next q = (res, q')"
  shows "queue_inv q'"
  using assms(2)
proof (cases rule: start_next_cases)
  case (started job ys zs)
  from started(4) have new: "pj_key job \<notin> pq_active q" by (simp add: startable_def)
  have fin: "finite (pq_active q)" using assms(1) by (simp add: queue_inv_def)
  have ua: "upstream_active q' u = active_count (pq_active q') u" for u
    using assms(1) unfolding started(6)
    by (auto simp: queue_inv_def upstream_active_def hm_entry_or_def active_count_insert [OF fin new])
  have dom: "dom (map_of (pq_active_jobs q')) = pq_active q'"
    using assms(1) unfolding started(6) by (auto simp: queue_inv_def dom_def split: if_splits)
  have keys: "\<forall>k j. map_of (pq_active_jobs q') k = Some j \<longrightarrow> pj_key j = k"
    using assms(1) unfolding started(6) by (auto simp: queue_inv_def)
  have known: "pq_known q' = pq_active q' \<union> pj_key ` set (pq_pending q')"
    using assms(1) started(3) by (auto simp: queue_inv_def started(6))
  have dist: "distinct (map pj_key (pq_pending q'))"
    using assms(1) started(3) by (auto simp: queue_inv_def started(6))
  have size: "card (pq_active q') + length (pq_pending q') \<le> pq_max_jobs q'"
    using assms(1) started(3) new fin by (simp add: queue_inv_def started(6))
  have lim: "finite (pq_active q')" "1 \<le> pq_max_global q'" "1 \<le> pq_max_per_upstream q'" "1 \<le> pq_max_jobs q'"
    using fin assms(1) unfolding started(6) queue_inv_def by simp_all
  show ?thesis unfolding queue_inv_def using known dist dom keys ua size lim by blast
qed (use assms in auto)

lemma release_upstream_count:
  "hm_entry_or u' 0 (release_upstream u m) = (if u' = u then hm_entry_or u 0 m - 1 else hm_entry_or u' 0 m)"
  by (auto simp: release_upstream_def hm_entry_or_def split: option.split)

lemma queue_inv_deactivate:
  assumes inv: "queue_inv q" and k: "key \<in> pq_active q" and nk: "known = pq_active q - {key} \<union> pj_key ` set (pq_pending q)"
  shows "queue_inv (q\<lparr>pq_active := pq_active q - {key}, pq_active_jobs := AList.delete key (pq_active_jobs q),
     pq_active_by_upstream := release_upstream (dk_upstream_id key) (pq_active_by_upstream q),
     pq_known := known\<rparr>)" (is "queue_inv ?q")
proof -
  have fin: "finite (pq_active q - {key})" and ins: "insert key (pq_active q - {key}) = pq_active q"
    using inv k by (auto simp: queue_inv_def)
  have cu: "active_count (pq_active q) u =
      (if dk_upstream_id key = u then 1 else 0) + active_count (pq_active q - {key}) u" for u
    using active_count_insert [OF fin, of key u] unfolding ins by simp
  have ua: "upstream_active ?q u = active_count (pq_active ?q) u" for u
    using inv cu [of u] by (auto simp: queue_inv_def upstream_active_def release_upstream_count)
  have c: "card (pq_active q - {key}) \<le> card (pq_active q)"
    using inv by (intro card_mono) (auto simp: queue_inv_def)
  have dom: "dom (map_of (pq_active_jobs ?q)) = pq_active ?q"
    using inv by (auto simp: queue_inv_def dom_def split: if_splits)
  have keys: "\<forall>k j. map_of (pq_active_jobs ?q) k = Some j \<longrightarrow> pj_key j = k"
    using inv by (auto simp: queue_inv_def)
  show ?thesis
    using inv ua dom keys c nk unfolding queue_inv_def by auto
qed

lemma queue_inv_finish:
  assumes "queue_inv q"
  shows "queue_inv (probe_finish q key)"
proof (cases "key \<in> pq_active q")
  case True
  let ?known = "if list_ex (\<lambda>pending. pj_key pending = key) (pq_pending q) then pq_known q else pq_known q - {key}"
  have "?known = pq_active q - {key} \<union> pj_key ` set (pq_pending q)"
    using assms True by (auto simp: queue_inv_def list_ex_iff)
  from queue_inv_deactivate [OF assms True this] True show ?thesis
    by (simp add: probe_finish_def Let_def split: if_splits)
next
  case False
  with assms show ?thesis
    by (auto simp: probe_finish_def Let_def queue_inv_def list_ex_iff upstream_active_def)
qed

lemma queue_inv_clear: "queue_inv q \<Longrightarrow> queue_inv (snd (clear_pending q))"
  by (simp add: clear_pending_def queue_inv_def upstream_active_def)

lemma queue_inv_set_limits: "queue_inv q \<Longrightarrow> queue_inv (set_limits q a b)"
  by (simp add: set_limits_def queue_inv_def upstream_active_def)

section \<open>The queue as a transition system\<close>

datatype 'p queue_op =
    QEnqueue "'p probe_job"
  | QStart
  | QFinish dialect_profile_key
  | QClear
  | QLimits nat nat

inductive queue_step :: "('p \<Rightarrow> string) \<Rightarrow> 'p queue_op \<Rightarrow> 'p probe_queue_state \<Rightarrow> 'p probe_queue_state \<Rightarrow> bool"
  for digest where
  q_enqueue: "enqueue_with_outcome digest q job = (res, q') \<Longrightarrow> queue_step digest (QEnqueue job) q q'"
| q_start: "start_next q = (res, q') \<Longrightarrow> queue_step digest QStart q q'"
| q_finish: "queue_step digest (QFinish key) q (probe_finish q key)"
| q_clear: "clear_pending q = (jobs, q') \<Longrightarrow> queue_step digest QClear q q'"
| q_limits: "queue_step digest (QLimits a b) q (set_limits q a b)"

inductive queue_init :: "'p probe_queue_state \<Rightarrow> bool" where
  "queue_init (probe_queue_new a b c)"

lemma queue_step_inv: "queue_inv q \<Longrightarrow> queue_step digest op q q' \<Longrightarrow> queue_inv q'"
  by (erule queue_step.cases)
    (auto intro: queue_inv_enqueue queue_inv_start_next queue_inv_finish queue_inv_set_limits
      dest: queue_inv_clear simp: clear_pending_def)

interpretation queue: invariant_system queue_init "queue_step digest" queue_inv for digest
  by unfold_locales (auto elim: queue_init.cases simp: queue_inv_new intro: queue_step_inv)

section \<open>Properties\<close>

text \<open>
  C34. In every reachable queue the number of running and waiting jobs stays within the job bound,
  a key is known exactly while it runs or waits, no two waiting jobs share a key, and the counter
  per upstream is the number of its running jobs.
\<close>

theorem queue_bounded:
  assumes "reachable queue_init (queue_step digest) q"
  shows "card (pq_active q) + length (pq_pending q) \<le> pq_max_jobs q
    \<and> pq_known q = pq_active q \<union> pj_key ` set (pq_pending q)
    \<and> distinct (map pj_key (pq_pending q))
    \<and> (\<forall>u. upstream_active q u = card {k \<in> pq_active q. dk_upstream_id k = u})"
  using queue.reachable_inv [OF assms] by (simp add: queue_inv_def active_count_def)

definition sample_job :: "string \<Rightarrow> unit probe_job" where
  "sample_job model = \<lparr>pj_key = \<lparr>dk_upstream_id = ''u'', dk_key_fingerprint = ''k'',
      dk_runtime_model_slug = model, dk_protocol = Responses\<rparr>,
    pj_exposed_model_slugs = {model}, pj_reason = Manual, pj_mode = FullMode,
    pj_configuration = \<lparr>pb_configuration_fingerprint = ''f'', pb_configuration_digest = ''d'',
      pb_configuration_schema_version = 1, pb_configuration_revision = 1, pb_probe_schema_version = 1\<rparr>,
    pj_plan_configuration = ()\<rparr>"

definition sample_queue :: "unit probe_queue_state" where
  "sample_queue = snd (enqueue_with_outcome (\<lambda>_. ''x'') (probe_queue_new 2 1 3) (sample_job ''m''))"

lemma sample_queue_eq:
  "sample_queue = (probe_queue_new 2 1 3)\<lparr>pq_known := {pj_key (sample_job ''m'')}, pq_pending := [sample_job ''m'']\<rparr>"
  by (simp add: sample_queue_def enqueue_with_outcome_def probe_queue_new_def)

lemma sample_queue_reachable: "reachable queue_init (queue_step (\<lambda>_. ''x'')) sample_queue"
proof (rule reach_step)
  show "reachable queue_init (queue_step (\<lambda>_. ''x'')) (probe_queue_new 2 1 3)"
    by (rule reach_init) (rule queue_init.intros)
  show "queue_step (\<lambda>_. ''x'') (QEnqueue (sample_job ''m'')) (probe_queue_new 2 1 3) sample_queue"
    unfolding sample_queue_def by (rule q_enqueue) (rule surjective_pairing)
qed

theorem queue_bounded_witness:
  "length (pq_pending sample_queue) = 1 \<and> card (pq_active sample_queue) + length (pq_pending sample_queue) \<le> 3"
  using queue_bounded [OF sample_queue_reachable] by (simp add: sample_queue_eq probe_queue_new_def)

lemma replace_pending_mem:
  "find (\<lambda>x. pj_key x = key) xs = Some y \<Longrightarrow> job \<in> set (replace_pending key job xs)"
  by (induction xs) (auto split: if_splits)

text \<open>
  An accepted job is served: whenever \<open>enqueue_with_outcome\<close> does not hand the job back, some
  waiting or running job has its key and configuration and exposes at least its models. In
  particular the branch for a known key that neither waits nor runs is never taken.
\<close>

theorem accepted_job_is_served:
  assumes "reachable queue_init (queue_step digest) q"
    and "enqueue_with_outcome digest q job = (Inr outcome, q')"
  shows "\<exists>j. (j \<in> set (pq_pending q') \<or> map_of (pq_active_jobs q') (pj_key job) = Some j)
    \<and> pj_key j = pj_key job \<and> same_job_configuration digest j job
    \<and> pj_exposed_model_slugs job \<subseteq> pj_exposed_model_slugs j"
proof -
  note inv = queue.reachable_inv [OF assms(1)]
  have self: "same_job_configuration digest job job" by (simp add: same_job_configuration_def)
  show ?thesis
  proof (cases "pj_key job \<in> pq_known q")
    case False
    with assms(2) self show ?thesis by (auto simp: enqueue_with_outcome_def split: if_splits)
  next
    case known: True
    show ?thesis
    proof (cases "find (\<lambda>pending. pj_key pending = pj_key job) (pq_pending q)")
      case (Some pending)
      then have k: "pj_key pending = pj_key job" by (auto dest: find_pending_Some)
      show ?thesis
      proof (cases "same_job_configuration digest pending job")
        case True
        let ?j = "pending\<lparr>pj_exposed_model_slugs := pj_exposed_model_slugs pending \<union> pj_exposed_model_slugs job\<rparr>"
        have "same_job_configuration digest ?j job" using True by (simp add: same_job_configuration_def)
        with True Some known assms(2) k replace_pending_mem [OF Some, of ?j] show ?thesis
          by (intro exI [of _ ?j]) (auto simp: enqueue_with_outcome_def)
      next
        case False
        with Some known assms(2) self replace_pending_mem [OF Some, of job] show ?thesis
          by (intro exI [of _ job]) (auto simp: enqueue_with_outcome_def)
      qed
    next
      case None
      then have "pj_key job \<notin> pj_key ` set (pq_pending q)" by (auto simp: find_None_iff)
      with inv known have act: "pj_key job \<in> pq_active q" by (auto simp: queue_inv_def)
      with inv have "pj_key job \<in> dom (map_of (pq_active_jobs q))" by (simp add: queue_inv_def)
      then obtain a where "map_of (pq_active_jobs q) (pj_key job) = Some a" by blast
      moreover from this inv have "pj_key a = pj_key job" by (simp add: queue_inv_def)
      ultimately have "map_of (pq_active_jobs q) (pj_key job) = Some a" "pj_key a = pj_key job" .
      with None known act assms(2) self show ?thesis
        by (auto simp: enqueue_with_outcome_def split: if_splits)
    qed
  qed
qed

theorem accepted_job_is_served_witness:
  "\<exists>outcome q'. enqueue_with_outcome (\<lambda>_. ''x'') sample_queue (sample_job ''m'') = (Inr outcome, q')
     \<and> (\<exists>j. (j \<in> set (pq_pending q') \<or> map_of (pq_active_jobs q') (pj_key (sample_job ''m'')) = Some j)
          \<and> pj_key j = pj_key (sample_job ''m''))"
proof -
  obtain q' where e: "enqueue_with_outcome (\<lambda>_. ''x'') sample_queue (sample_job ''m'') = (Inr Unchanged, q')"
    by (simp add: enqueue_with_outcome_def sample_queue_eq same_job_configuration_def)
  from accepted_job_is_served [OF sample_queue_reachable e] e show ?thesis by blast
qed

text \<open>
  \<open>start_next\<close> starts the first waiting job that may run, never one whose key already runs, and
  keeps the global limit and the limit per upstream; it starts nothing only when the global limit
  is reached or no waiting job may run.
\<close>

theorem start_next_respects_limits:
  assumes "reachable queue_init (queue_step digest) q" "start_next q = (res, q')"
  shows "case res of
      None \<Rightarrow> q' = q \<and> (pq_max_global q \<le> card (pq_active q)
                        \<or> (\<forall>job\<in>set (pq_pending q). \<not> startable q job))
    | Some job \<Rightarrow>
        (\<exists>ys zs. pq_pending q = ys @ job # zs \<and> pq_pending q' = ys @ zs \<and> (\<forall>y\<in>set ys. \<not> startable q y))
        \<and> pj_key job \<notin> pq_active q \<and> pq_active q' = insert (pj_key job) (pq_active q)
        \<and> card (pq_active q') \<le> pq_max_global q
        \<and> card {k \<in> pq_active q'. dk_upstream_id k = dk_upstream_id (pj_key job)} \<le> pq_max_per_upstream q"
  using assms(2)
proof (cases rule: start_next_cases)
  case (started job ys zs)
  note inv = queue.reachable_inv [OF assms(1)]
  have fin: "finite (pq_active q)" using inv by (simp add: queue_inv_def)
  have new: "pj_key job \<notin> pq_active q" using started(4) by (simp add: startable_def)
  have act: "pq_active q' = insert (pj_key job) (pq_active q)" by (simp add: started(6))
  have "active_count (pq_active q) (dk_upstream_id (pj_key job)) < pq_max_per_upstream q"
    using started(4) inv by (simp add: startable_def queue_inv_def)
  then have "active_count (pq_active q') (dk_upstream_id (pj_key job)) \<le> pq_max_per_upstream q"
    unfolding act by (simp add: active_count_insert [OF fin new])
  moreover have "card (pq_active q') \<le> pq_max_global q"
    unfolding act using fin new started(2) by simp
  ultimately show ?thesis
    using started new act by (auto simp: active_count_def)
qed (use assms in auto)

theorem start_next_respects_limits_witness:
  "\<exists>q'. start_next sample_queue = (Some (sample_job ''m''), q') \<and> card (pq_active q') \<le> pq_max_global sample_queue"
proof -
  obtain q' where e: "start_next sample_queue = (Some (sample_job ''m''), q')"
    by (simp add: start_next_def sample_queue_eq probe_queue_new_def startable_def upstream_active_def)
  from start_next_respects_limits [OF sample_queue_reachable e] e show ?thesis by auto
qed

lemma enqueue_known:
  assumes "enqueue_with_outcome digest q job = (Inr outcome, q')"
  shows "insert (pj_key job) (pq_known q) \<subseteq> pq_known q'"
  using assms by (auto simp: enqueue_with_outcome_def split: if_splits option.splits)

lemma enqueue_refused:
  assumes "enqueue_with_outcome digest q job = (Inl job', q')"
  shows "job' = job \<and> q' = q \<and> is_full q'"
  using assms by (auto simp: enqueue_with_outcome_def is_full_def split: if_splits option.splits)

lemma enqueue_jobs_spec:
  "enqueue_jobs digest q replaced jobs = (remaining, replaced', q') \<Longrightarrow>
   \<exists>done. jobs = done @ remaining \<and> pq_known q \<union> pj_key ` set done \<subseteq> pq_known q'
     \<and> (remaining \<noteq> [] \<longrightarrow> is_full q')"
proof (induction jobs arbitrary: q replaced)
  case Nil
  then show ?case by simp
next
  case (Cons job jobs)
  obtain res q1 where e: "enqueue_with_outcome digest q job = (res, q1)" by force
  show ?case
  proof (cases res)
    case (Inl job')
    with e enqueue_refused [of digest q job job' q1] Cons.prems show ?thesis
      by (intro exI [of _ "[]"]) auto
  next
    case (Inr outcome)
    have "\<exists>rep. enqueue_jobs digest q1 rep jobs = (remaining, replaced', q')"
      using Cons.prems e Inr by (cases outcome) auto
    with Cons.IH obtain "done" where "jobs = done @ remaining"
      "pq_known q1 \<union> pj_key ` set done \<subseteq> pq_known q'" "remaining \<noteq> [] \<longrightarrow> is_full q'"
      by blast
    with enqueue_known [of digest q job outcome q1] e Inr show ?thesis
      by (intro exI [of _ "job # done"]) auto
  qed
qed

text \<open>
  Enqueueing a batch loses no job: what is handed back is exactly the part of the batch from
  the first job the queue refused, it is handed back only when the queue is full, and the queue
  knows the key of every job before it.
\<close>

theorem batch_enqueue_loses_nothing:
  assumes "enqueue_batch_with_outcome digest q batch = (remaining, replaced, q')"
  shows "\<exists>accepted. bt_jobs batch = accepted @ bt_jobs remaining \<and> pj_key ` set accepted \<subseteq> pq_known q'
    \<and> (bt_jobs remaining \<noteq> [] \<longrightarrow> is_full q')"
proof -
  have "enqueue_jobs digest q [] (bt_jobs batch) = (bt_jobs remaining, replaced, q')"
    using assms
    by (cases "enqueue_jobs digest q [] (bt_jobs batch)")
      (auto simp: enqueue_batch_with_outcome_def batch_new_def)
  from enqueue_jobs_spec [OF this] show ?thesis by blast
qed

theorem batch_enqueue_loses_nothing_witness:
  "\<exists>remaining replaced q' accepted.
     enqueue_batch_with_outcome (\<lambda>_. ''x'') (probe_queue_new 2 1 1)
       (batch_new [sample_job ''m'', sample_job ''n'']) = (remaining, replaced, q')
     \<and> [sample_job ''m'', sample_job ''n''] = accepted @ bt_jobs remaining
     \<and> pj_key ` set accepted \<subseteq> pq_known q'"
proof -
  obtain remaining replaced q' where e: "enqueue_batch_with_outcome (\<lambda>_. ''x'') (probe_queue_new 2 1 1)
       (batch_new [sample_job ''m'', sample_job ''n'']) = (remaining, replaced, q')"
    by (metis prod_cases3)
  from batch_enqueue_loses_nothing [OF e] e show ?thesis by (auto simp: batch_new_def)
qed

end
