(* ===== verification/Rust_Strings.thy ===== *)
theory Rust_Strings
  imports Gateway_Prelude "HOL-Library.Sublist"
begin

text \<open>
  The string operations of Rust's standard library that the components use. A string is the list
  of its UTF-8 bytes: \<open>len\<close> counts bytes, \<open>split_at\<close> panics inside a character, and \<open>trim\<close> removes
  the encodings of the characters with the Unicode \<open>White_Space\<close> property.
\<close>

section \<open>Trimming and case folding\<close>

definition whitespace_encodings :: "string list" where
  "whitespace_encodings =
    [[CHR 0x09], [CHR 0x0A], [CHR 0x0B], [CHR 0x0C], [CHR 0x0D], [CHR 0x20],
     [CHR 0xC2, CHR 0x85], [CHR 0xC2, CHR 0xA0], [CHR 0xE1, CHR 0x9A, CHR 0x80],
     [CHR 0xE2, CHR 0x80, CHR 0x80], [CHR 0xE2, CHR 0x80, CHR 0x81],
     [CHR 0xE2, CHR 0x80, CHR 0x82], [CHR 0xE2, CHR 0x80, CHR 0x83],
     [CHR 0xE2, CHR 0x80, CHR 0x84], [CHR 0xE2, CHR 0x80, CHR 0x85],
     [CHR 0xE2, CHR 0x80, CHR 0x86], [CHR 0xE2, CHR 0x80, CHR 0x87],
     [CHR 0xE2, CHR 0x80, CHR 0x88], [CHR 0xE2, CHR 0x80, CHR 0x89],
     [CHR 0xE2, CHR 0x80, CHR 0x8A], [CHR 0xE2, CHR 0x80, CHR 0xA8],
     [CHR 0xE2, CHR 0x80, CHR 0xA9], [CHR 0xE2, CHR 0x80, CHR 0xAF],
     [CHR 0xE2, CHR 0x81, CHR 0x9F], [CHR 0xE3, CHR 0x80, CHR 0x80]]"

function strip_prefixes :: "string list \<Rightarrow> string \<Rightarrow> string" where
  "strip_prefixes ws s =
    (case find (\<lambda>w. w \<noteq> [] \<and> prefix w s) ws of
       None \<Rightarrow> s
     | Some w \<Rightarrow> strip_prefixes ws (drop (length w) s))"
  by pat_completeness auto
termination
proof (relation "measure (length \<circ> snd)", goal_cases)
  case 1
  then show ?case by simp
next
  case (2 ws s w)
  then have "w \<noteq> []" "prefix w s" by (auto simp: find_Some_iff)
  then show ?case by (auto simp: prefix_def)
qed

declare strip_prefixes.simps [simp del]

definition trim_start :: "string \<Rightarrow> string" where
  "trim_start s = strip_prefixes whitespace_encodings s"

definition trim_end :: "string \<Rightarrow> string" where
  "trim_end s = rev (strip_prefixes (map rev whitespace_encodings) (rev s))"

definition trim :: "string \<Rightarrow> string" where
  "trim s = trim_end (trim_start s)"

definition ascii_lower :: "char \<Rightarrow> char" where
  "ascii_lower c = (if CHR ''A'' \<le> c \<and> c \<le> CHR ''Z'' then char_of ((of_char c :: nat) + 32) else c)"

definition to_ascii_lowercase :: "string \<Rightarrow> string" where
  "to_ascii_lowercase s = map ascii_lower s"

text \<open>\<open>str::is_char_boundary\<close>: not inside the encoding of a character.\<close>

definition is_char_boundary :: "string \<Rightarrow> nat \<Rightarrow> bool" where
  "is_char_boundary s i =
    (i = 0 \<or> i = length s \<or> (i < length s \<and> \<not> (CHR 0x80 \<le> s ! i \<and> s ! i \<le> CHR 0xBF)))"

definition split_at :: "string \<Rightarrow> nat \<Rightarrow> (string \<times> string) outcome_or_panic" where
  "split_at s i =
    (if is_char_boundary s i then Inr (take i s, drop i s)
     else Inl (Panic ''failed to slice string''))"

section \<open>Well-formed UTF-8\<close>

text \<open>
  The number of bytes of the character a byte sequence starts with, following the table of
  well-formed sequences of the Unicode standard: no overlong forms, no surrogates, nothing
  beyond U+10FFFF. \<open>str::from_utf8\<close> accepts exactly the sequences of such characters.
\<close>

definition in_range :: "char \<Rightarrow> char \<Rightarrow> char \<Rightarrow> bool" where
  "in_range lo hi c = (lo \<le> c \<and> c \<le> hi)"

definition continuation :: "char \<Rightarrow> bool" where
  "continuation = in_range (CHR 0x80) (CHR 0xBF)"

fun utf8_char_length :: "string \<Rightarrow> nat option" where
  "utf8_char_length [] = None"
| "utf8_char_length (a # s) =
    (if a \<le> CHR 0x7F then Some 1
     else if in_range (CHR 0xC2) (CHR 0xDF) a
     then (case s of b # _ \<Rightarrow> if continuation b then Some 2 else None | _ \<Rightarrow> None)
     else if in_range (CHR 0xE0) (CHR 0xEF) a
     then (case s of
             b # c # _ \<Rightarrow>
               if continuation c
                  \<and> (if a = CHR 0xE0 then in_range (CHR 0xA0) (CHR 0xBF) b
                     else if a = CHR 0xED then in_range (CHR 0x80) (CHR 0x9F) b
                     else continuation b)
               then Some 3 else None
           | _ \<Rightarrow> None)
     else if in_range (CHR 0xF0) (CHR 0xF4) a
     then (case s of
             b # c # d # _ \<Rightarrow>
               if continuation c \<and> continuation d
                  \<and> (if a = CHR 0xF0 then in_range (CHR 0x90) (CHR 0xBF) b
                     else if a = CHR 0xF4 then in_range (CHR 0x80) (CHR 0x8F) b
                     else continuation b)
               then Some 4 else None
           | _ \<Rightarrow> None)
     else None)"

lemma utf8_char_length_pos: "utf8_char_length s = Some n \<Longrightarrow> 0 < n \<and> s \<noteq> []"
  by (cases s) (auto split: if_splits list.splits)

function utf8_valid :: "string \<Rightarrow> bool" where
  "utf8_valid s =
    (if s = [] then True
     else case utf8_char_length s of None \<Rightarrow> False | Some n \<Rightarrow> utf8_valid (drop n s))"
  by pat_completeness auto
termination
  by (relation "measure length") (auto dest: utf8_char_length_pos)

declare utf8_valid.simps [simp del]

lemma utf8_valid_Nil [simp]: "utf8_valid []"
  by (simp add: utf8_valid.simps)

section \<open>Splitting\<close>

text \<open>\<open>str::split\<close> with a character: the pieces between its occurrences, at least one.\<close>

fun split_on :: "char \<Rightarrow> string \<Rightarrow> string list" where
  "split_on c [] = [[]]"
| "split_on c (x # xs) =
    (if x = c then [] # split_on c xs
     else case split_on c xs of [] \<Rightarrow> [[x]] | p # ps \<Rightarrow> (x # p) # ps)"

text \<open>\<open>str::split_once\<close>: around the first occurrence.\<close>

fun split_once :: "char \<Rightarrow> string \<Rightarrow> (string \<times> string) option" where
  "split_once c [] = None"
| "split_once c (x # xs) =
    (if x = c then Some ([], xs) else map_option (\<lambda>(a, b). (x # a, b)) (split_once c xs))"

definition strip_suffix_char :: "char \<Rightarrow> string \<Rightarrow> string option" where
  "strip_suffix_char c s = (if s \<noteq> [] \<and> last s = c then Some (butlast s) else None)"

definition strip_prefix_char :: "char \<Rightarrow> string \<Rightarrow> string option" where
  "strip_prefix_char c s = (case s of x # xs \<Rightarrow> if x = c then Some xs else None | [] \<Rightarrow> None)"

definition unwrap_or :: "'a option \<Rightarrow> 'a \<Rightarrow> 'a" where
  "unwrap_or v d = (case v of None \<Rightarrow> d | Some x \<Rightarrow> x)"

lemma unwrap_or_None [simp]: "unwrap_or None d = d"
  and unwrap_or_Some [simp]: "unwrap_or (Some x) d = x"
  by (simp_all add: unwrap_or_def)

text \<open>\<open>[String]::join\<close>.\<close>

fun join :: "string \<Rightarrow> string list \<Rightarrow> string" where
  "join sep [] = []"
| "join sep [x] = x"
| "join sep (x # y # zs) = x @ sep @ join sep (y # zs)"

end
