(* ===== verification/Model_Identity.thy ===== *)
theory Model_Identity
  imports Rust_Strings
begin

text \<open>
  Model names and their equivalence (\<open>src/src/state/model_identity.rs\<close>, the subagent suffix of
  \<open>src/src/state.rs\<close> and the name resolution of \<open>src/src/state/model_catalog.rs\<close>).
\<close>

section \<open>Canonical names\<close>

definition canonical_model_id :: "string \<Rightarrow> string" where
  "canonical_model_id model = to_ascii_lowercase (trim model)"

definition model_identity_key_with :: "string \<Rightarrow> bool \<Rightarrow> string" where
  "model_identity_key_with model case_insensitive =
    (if case_insensitive then canonical_model_id model else trim model)"

definition models_equivalent :: "string \<Rightarrow> string \<Rightarrow> bool" where
  "models_equivalent a b =
    (trim a \<noteq> [] \<and> trim b \<noteq> [] \<and> canonical_model_id (trim a) = canonical_model_id (trim b))"

definition models_equivalent_with :: "string \<Rightarrow> string \<Rightarrow> bool \<Rightarrow> bool" where
  "models_equivalent_with a b case_insensitive =
    (model_identity_key_with a case_insensitive \<noteq> []
     \<and> model_identity_key_with a case_insensitive = model_identity_key_with b case_insensitive)"

definition canonical_subagent_base_model_id ::
  "string \<Rightarrow> string \<Rightarrow> string option outcome_or_panic" where
  "canonical_subagent_base_model_id model0 subagent_suffix =
    (let model = trim model0 in
     if model = [] then Inr None
     else if length model < length subagent_suffix then Inr None
     else bind_ok (split_at model (length model - length subagent_suffix)) (\<lambda>(base, suffix).
       if base = [] \<or> suffix \<noteq> subagent_suffix then Inr None
       else Inr (Some (canonical_model_id base))))"

definition find_equivalent_stored :: "string list \<Rightarrow> string \<Rightarrow> bool \<Rightarrow> string option" where
  "find_equivalent_stored stored model case_insensitive =
    (if case_insensitive
     then (let canonical = canonical_model_id model in
           if canonical = [] then None
           else find (\<lambda>candidate. trim candidate \<noteq> [] \<and> canonical_model_id candidate = canonical) stored)
     else (let model = trim model in
           if model = [] then None else find (\<lambda>candidate. trim candidate = model) stored))"

definition codex_subagent_model_variant_suffix :: string where
  "codex_subagent_model_variant_suffix = ''-fast-preview''"

definition codex_subagent_base_model :: "string \<Rightarrow> string option outcome_or_panic" where
  "codex_subagent_base_model model0 =
    (let model = trim model0 in
     if length model < length codex_subagent_model_variant_suffix then Inr None
     else bind_ok (split_at model (length model - length codex_subagent_model_variant_suffix))
       (\<lambda>(base, suffix).
          Inr (if base \<noteq> [] \<and> suffix = codex_subagent_model_variant_suffix then Some base else None)))"

section \<open>Alias rules\<close>

record model_alias_rule =
  ar_canonical :: string
  ar_aliases :: "string list"

datatype alias_rule_error =
    EmptyCanonical
  | EmptyAlias nat
  | CanonicalBecomesEmpty string
  | CanonicalIsAlias string
  | AliasBecomesEmpty string
  | AliasIsCanonical string
  | AliasInTwoRules string string string

fun first_empty_alias :: "nat \<Rightarrow> string list \<Rightarrow> nat option" where
  "first_empty_alias i [] = None"
| "first_empty_alias i (a # as) = (if trim a = [] then Some i else first_empty_alias (i + 1) as)"

definition validate_self :: "model_alias_rule \<Rightarrow> alias_rule_error + unit" where
  "validate_self rule =
    (if trim (ar_canonical rule) = [] then Inl EmptyCanonical
     else case first_empty_alias 0 (ar_aliases rule) of
            Some i \<Rightarrow> Inl (EmptyAlias i)
          | None \<Rightarrow> Inr ())"

record model_alias_registry =
  al_rules :: "model_alias_rule list"
  al_alias_to_canonical :: "(string, string) hashmap"

text \<open>The loop over the aliases of one rule.\<close>

fun register_aliases ::
  "model_alias_rule \<Rightarrow> string set \<Rightarrow> (string, string) hashmap \<Rightarrow> string list \<Rightarrow>
   alias_rule_error + (string, string) hashmap" where
  "register_aliases rule seen m [] = Inr m"
| "register_aliases rule seen m (alias # aliases) =
    (let alias_key = canonical_model_id alias in
     if alias_key = [] then Inl (AliasBecomesEmpty alias)
     else if alias_key \<in> seen then Inl (AliasIsCanonical alias)
     else case map_of m alias_key of
            Some existing \<Rightarrow>
              if canonical_model_id existing \<noteq> canonical_model_id (ar_canonical rule)
              then Inl (AliasInTwoRules alias existing (ar_canonical rule))
              else register_aliases rule seen m aliases
          | None \<Rightarrow> register_aliases rule seen (AList.update alias_key (ar_canonical rule) m) aliases)"

fun register_rules ::
  "string set \<Rightarrow> (string, string) hashmap \<Rightarrow> model_alias_rule list \<Rightarrow>
   alias_rule_error + (string, string) hashmap" where
  "register_rules seen m [] = Inr m"
| "register_rules seen m (rule # rules) =
    bind_ok (validate_self rule) (\<lambda>_.
      let canonical_key = canonical_model_id (ar_canonical rule) in
      if canonical_key = [] then Inl (CanonicalBecomesEmpty (ar_canonical rule))
      else if hm_contains m canonical_key then Inl (CanonicalIsAlias (ar_canonical rule))
      else bind_ok (register_aliases rule (insert canonical_key seen) m (ar_aliases rule))
        (\<lambda>m'. register_rules (insert canonical_key seen) m' rules))"

definition from_rules :: "model_alias_rule list \<Rightarrow> alias_rule_error + model_alias_registry" where
  "from_rules rules =
    bind_ok (register_rules {} [] rules)
      (\<lambda>m. Inr \<lparr>al_rules = rules, al_alias_to_canonical = m\<rparr>)"

definition resolve_alias :: "model_alias_registry \<Rightarrow> string \<Rightarrow> string option" where
  "resolve_alias reg model =
    (let key = canonical_model_id model in
     if key = [] then None else map_of (al_alias_to_canonical reg) key)"

definition matches_canonical :: "model_alias_registry \<Rightarrow> string \<Rightarrow> string \<Rightarrow> bool" where
  "matches_canonical reg model canonical =
    (let model_key = canonical_model_id model;
         canonical_key = canonical_model_id canonical
     in if model_key = [] \<or> canonical_key = [] then False
        else if model_key = canonical_key then True
        else case map_of (al_alias_to_canonical reg) model_key of
               Some resolved \<Rightarrow> canonical_model_id resolved = canonical_key
             | None \<Rightarrow> False)"

definition all_spellings_for_canonical :: "model_alias_registry \<Rightarrow> string \<Rightarrow> string list" where
  "all_spellings_for_canonical reg canonical =
    (let canonical_key = canonical_model_id canonical in
     if canonical_key = [] then []
     else canonical_key # map fst (filter (\<lambda>(alias_key, resolved). canonical_model_id resolved = canonical_key)
       (al_alias_to_canonical reg)))"

section \<open>Catalog name resolution\<close>

text \<open>The part of \<open>ModelCatalog\<close> that resolves names: its alias registry and explicit labels.\<close>

record model_catalog =
  mc_aliases :: model_alias_registry
  mc_explicit_labels :: "string set"

datatype model_id = ModelId string

definition resolve_group_model_id :: "model_catalog \<Rightarrow> string \<Rightarrow> model_id" where
  "resolve_group_model_id cat name0 =
    (let name = trim name0;
         key = canonical_model_id name
     in if key \<in> mc_explicit_labels cat then ModelId key
        else ModelId (canonical_model_id
               (case resolve_alias (mc_aliases cat) name of Some c \<Rightarrow> c | None \<Rightarrow> name)))"

definition resolve_public_model_id :: "model_catalog \<Rightarrow> string \<Rightarrow> model_id outcome_or_panic" where
  "resolve_public_model_id cat name =
    bind_ok (codex_subagent_base_model name)
      (\<lambda>base. Inr (resolve_group_model_id cat (trim (case base of Some b \<Rightarrow> b | None \<Rightarrow> name))))"

definition normalize_request_name :: "model_catalog \<Rightarrow> string \<Rightarrow> string" where
  "normalize_request_name cat name =
    (if canonical_model_id name \<in> mc_explicit_labels cat then name
     else case resolve_alias (mc_aliases cat) name of Some c \<Rightarrow> c | None \<Rightarrow> name)"

definition allows_legacy :: "model_catalog \<Rightarrow> string list \<Rightarrow> string \<Rightarrow> bool outcome_or_panic" where
  "allows_legacy cat allowed name =
    (if allowed = [] \<or> list_ex (\<lambda>v. trim v = ''*'') allowed then Inr True
     else bind_ok (resolve_public_model_id cat name) (\<lambda>requested.
       Inr (requested \<noteq> ModelId [] \<and>
         list_ex (\<lambda>v. let v' = trim v in
           v' \<noteq> [] \<and> v' \<noteq> ''__none__'' \<and> resolve_group_model_id cat v' = requested) allowed)))"

section \<open>Trimming and folding\<close>

lemma strip_no_prefix: "find (\<lambda>w. w \<noteq> [] \<and> prefix w (strip_prefixes ws s)) ws = None"
proof (induction ws s rule: strip_prefixes.induct)
  case (1 ws s)
  show ?case
  proof (cases "find (\<lambda>w. w \<noteq> [] \<and> prefix w s) ws")
    case None
    then show ?thesis by (simp add: strip_prefixes.simps [of ws s])
  next
    case (Some w)
    with 1 show ?thesis by (simp add: strip_prefixes.simps [of ws s])
  qed
qed

lemma strip_id: "find (\<lambda>w. w \<noteq> [] \<and> prefix w s) ws = None \<Longrightarrow> strip_prefixes ws s = s"
  by (subst strip_prefixes.simps) simp

lemma strip_idem: "strip_prefixes ws (strip_prefixes ws s) = strip_prefixes ws s"
  by (rule strip_id [OF strip_no_prefix])

lemma strip_suffix: "suffix (strip_prefixes ws s) s"
proof (induction ws s rule: strip_prefixes.induct)
  case (1 ws s)
  show ?case
  proof (cases "find (\<lambda>w. w \<noteq> [] \<and> prefix w s) ws")
    case None
    then show ?thesis by (simp add: strip_prefixes.simps [of ws s])
  next
    case (Some w)
    with 1 have "suffix (strip_prefixes ws (drop (length w) s)) (drop (length w) s)" by blast
    then show ?thesis
      using Some suffix_drop suffix_order.trans by (fastforce simp: strip_prefixes.simps [of ws s])
  qed
qed

lemma trim_end_prefix: "prefix (trim_end s) s"
  using strip_suffix [of "map rev whitespace_encodings" "rev s"]
  by (simp add: trim_end_def suffix_to_prefix)

lemma trim_idem [simp]: "trim (trim s) = trim s"
proof -
  have "find (\<lambda>w. w \<noteq> [] \<and> prefix w (trim_end (trim_start s))) whitespace_encodings = None"
    using strip_no_prefix [of whitespace_encodings s] trim_end_prefix [of "trim_start s"]
    by (auto simp: find_None_iff trim_start_def intro: prefix_order.trans)
  then have "trim_start (trim_end (trim_start s)) = trim_end (trim_start s)"
    unfolding trim_start_def by (rule strip_id)
  moreover have "trim_end (trim_end t) = trim_end t" for t
    by (simp add: trim_end_def strip_idem)
  ultimately show ?thesis by (simp add: trim_def)
qed

lemma of_char_lower:
  "(of_char (ascii_lower c) :: nat) =
    (if 65 \<le> (of_char c :: nat) \<and> (of_char c :: nat) \<le> 90 then of_char c + 32 else of_char c)"
  by (simp add: ascii_lower_def less_eq_char_def)

lemma ascii_lower_eq_iff:
  assumes "\<not> (65 \<le> (of_char c :: nat) \<and> (of_char c :: nat) \<le> 90)"
    and "\<not> (97 \<le> (of_char c :: nat) \<and> (of_char c :: nat) \<le> 122)"
  shows "ascii_lower x = c \<longleftrightarrow> x = c"
proof -
  have "ascii_lower x = c \<longleftrightarrow> (of_char (ascii_lower x) :: nat) = of_char c"
    by (simp add: of_char_eq_iff)
  also have "\<dots> \<longleftrightarrow> (of_char x :: nat) = of_char c"
    using assms unfolding of_char_lower by auto
  finally show ?thesis by (simp add: of_char_eq_iff)
qed

lemma ascii_lower_idem [simp]: "ascii_lower (ascii_lower c) = ascii_lower c"
proof -
  have "(of_char (ascii_lower (ascii_lower c)) :: nat) = of_char (ascii_lower c)"
    unfolding of_char_lower by simp
  then show ?thesis by (simp add: of_char_eq_iff)
qed

lemma lowercase_idem [simp]: "to_ascii_lowercase (to_ascii_lowercase s) = to_ascii_lowercase s"
  by (simp add: to_ascii_lowercase_def)

lemma prefix_map_fixed:
  "(\<And>c x. c \<in> set w \<Longrightarrow> f x = c \<longleftrightarrow> x = c) \<Longrightarrow> prefix w (map f s) \<longleftrightarrow> prefix w s"
proof (induction w arbitrary: s)
  case Nil
  then show ?case by simp
next
  case (Cons c w)
  then show ?case by (cases s) (auto simp: eq_commute [of c])
qed

definition caseless :: "string \<Rightarrow> bool" where
  "caseless w = list_all (\<lambda>c. \<not> (65 \<le> (of_char c :: nat) \<and> (of_char c :: nat) \<le> 90)
     \<and> \<not> (97 \<le> (of_char c :: nat) \<and> (of_char c :: nat) \<le> 122)) w"

lemma caseless_whitespace: "list_all caseless whitespace_encodings"
  by (simp add: whitespace_encodings_def caseless_def)

lemma prefix_lower: "caseless w \<Longrightarrow> prefix w (map ascii_lower s) \<longleftrightarrow> prefix w s"
  by (rule prefix_map_fixed) (auto simp: caseless_def list_all_iff ascii_lower_eq_iff)

lemma strip_lower:
  assumes "list_all caseless ws"
  shows "strip_prefixes ws (map ascii_lower s) = map ascii_lower (strip_prefixes ws s)"
  using assms
proof (induction ws s rule: strip_prefixes.induct)
  case (1 ws s)
  have eq: "find (\<lambda>w. w \<noteq> [] \<and> prefix w (map ascii_lower s)) ws = find (\<lambda>w. w \<noteq> [] \<and> prefix w s) ws"
    using "1.prems" by (intro find_cong) (auto simp: list_all_iff prefix_lower)
  show ?case
  proof (cases "find (\<lambda>w. w \<noteq> [] \<and> prefix w s) ws")
    case None
    then show ?thesis by (simp add: strip_prefixes.simps [of ws s] strip_id eq)
  next
    case (Some w)
    have "strip_prefixes ws (map ascii_lower s) = strip_prefixes ws (drop (length w) (map ascii_lower s))"
      by (subst strip_prefixes.simps) (simp add: eq Some)
    also have "\<dots> = map ascii_lower (strip_prefixes ws (drop (length w) s))"
      using "1.IH" [OF Some "1.prems"] by (simp add: drop_map)
    finally show ?thesis by (simp add: strip_prefixes.simps [of ws s] Some)
  qed
qed

lemma trim_lower: "trim (to_ascii_lowercase s) = to_ascii_lowercase (trim s)"
proof -
  have "list_all caseless (map rev whitespace_encodings)"
    using caseless_whitespace by (simp add: list_all_iff caseless_def)
  then show ?thesis
    using strip_lower [OF caseless_whitespace] strip_lower
    by (simp add: trim_def trim_start_def trim_end_def to_ascii_lowercase_def rev_map)
qed

lemma canonical_idem [simp]: "canonical_model_id (canonical_model_id m) = canonical_model_id m"
  by (simp add: canonical_model_id_def trim_lower)

lemma canonical_trim [simp]: "canonical_model_id (trim m) = canonical_model_id m"
  by (simp add: canonical_model_id_def)

lemma canonical_empty [simp]: "canonical_model_id m = [] \<longleftrightarrow> trim m = []"
  by (simp add: canonical_model_id_def to_ascii_lowercase_def)

lemma identity_key_empty: "model_identity_key_with m ci = [] \<longleftrightarrow> trim m = []"
  by (simp add: model_identity_key_with_def)

section \<open>Properties\<close>

text \<open>
  Model equivalence is a partial equivalence for either setting of the case switch, with
  exactly the blank names outside it; exact equivalence implies the case-insensitive one, and
  the two spellings of the case-insensitive test agree.
\<close>

theorem model_equivalence_laws:
  "(models_equivalent_with a a ci \<longleftrightarrow> trim a \<noteq> [])
   \<and> (models_equivalent_with a b ci \<longrightarrow> models_equivalent_with b a ci)
   \<and> (models_equivalent_with a b ci \<and> models_equivalent_with b c ci \<longrightarrow> models_equivalent_with a c ci)
   \<and> (models_equivalent_with a b False \<longrightarrow> models_equivalent_with a b True)
   \<and> (models_equivalent a b \<longleftrightarrow> models_equivalent_with a b True)"
proof -
  have "models_equivalent_with a b False \<longrightarrow> models_equivalent_with a b True"
    by (auto simp: models_equivalent_with_def model_identity_key_with_def) (metis canonical_trim)
  moreover have "models_equivalent a b \<longleftrightarrow> models_equivalent_with a b True"
    unfolding models_equivalent_def models_equivalent_with_def model_identity_key_with_def
    by (metis canonical_empty canonical_trim)
  moreover have "models_equivalent_with a a ci \<longleftrightarrow> trim a \<noteq> []"
    by (simp add: models_equivalent_with_def identity_key_empty)
  moreover have "models_equivalent_with a b ci \<longrightarrow> models_equivalent_with b a ci"
    "models_equivalent_with a b ci \<and> models_equivalent_with b c ci \<longrightarrow> models_equivalent_with a c ci"
    unfolding models_equivalent_with_def by metis+
  ultimately show ?thesis by blast
qed

lemma trim_eval_glm: "trim ''GLM'' = ''GLM''" "trim ''glm'' = ''glm''"
  by (simp_all add: trim_def trim_start_def trim_end_def strip_prefixes.simps whitespace_encodings_def)

theorem model_equivalence_laws_witness:
  "models_equivalent_with ''GLM'' ''glm'' True \<and> models_equivalent_with ''glm'' ''GLM'' True"
proof -
  have "models_equivalent_with ''GLM'' ''glm'' True"
    unfolding models_equivalent_with_def model_identity_key_with_def canonical_model_id_def trim_eval_glm
    by code_simp
  with model_equivalence_laws [of "''GLM''" True "''glm''"] show ?thesis by blast
qed

text \<open>
  \<open>find_equivalent_stored\<close> returns the first stored spelling that is equivalent to the
  requested name under the case switch, for either branch of its code.
\<close>

theorem find_equivalent_stored_spec:
  "find_equivalent_stored stored model ci = find (\<lambda>c. models_equivalent_with c model ci) stored"
proof (cases "trim model = []")
  case True
  then have "\<not> models_equivalent_with c model ci" for c
    unfolding models_equivalent_with_def by (metis identity_key_empty)
  then have "find (\<lambda>c. models_equivalent_with c model ci) stored = None" by (simp add: find_None_iff)
  with True show ?thesis by (simp add: find_equivalent_stored_def Let_def)
next
  case False
  have eq: "models_equivalent_with c model ci \<longleftrightarrow> (if ci then trim c \<noteq> [] \<and> canonical_model_id c = canonical_model_id model
      else trim c = trim model)" for c
    using False by (auto simp: models_equivalent_with_def model_identity_key_with_def)
  show ?thesis using False by (simp add: find_equivalent_stored_def Let_def eq)
qed

section \<open>Alias registries\<close>

definition avoids :: "string set \<Rightarrow> (string, string) hashmap \<Rightarrow> bool" where
  "avoids seen m = (\<forall>k\<in>seen. map_of m k = None)"

definition aliases_resolve :: "model_alias_rule \<Rightarrow> string list \<Rightarrow> (string, string) hashmap \<Rightarrow> bool" where
  "aliases_resolve rule aliases m =
    (\<forall>al\<in>set aliases. trim al \<noteq> [] \<and> (\<exists>c. map_of m (canonical_model_id al) = Some c
       \<and> canonical_model_id c = canonical_model_id (ar_canonical rule)))"

lemma map_leD: "f \<subseteq>\<^sub>m g \<Longrightarrow> f k = Some v \<Longrightarrow> g k = Some v"
  unfolding map_le_def by (metis domI)

lemma aliases_resolve_mono:
  "aliases_resolve rule aliases m \<Longrightarrow> map_of m \<subseteq>\<^sub>m map_of m' \<Longrightarrow> aliases_resolve rule aliases m'"
  unfolding aliases_resolve_def by (metis map_leD)

lemma register_aliases_ok:
  assumes "register_aliases rule seen m aliases = Inr m'" "avoids seen m"
  shows "avoids seen m' \<and> map_of m \<subseteq>\<^sub>m map_of m' \<and> aliases_resolve rule aliases m'
    \<and> (\<forall>k c. map_of m' k = Some c \<longrightarrow> map_of m k = Some c \<or> c = ar_canonical rule)"
  using assms
proof (induction aliases arbitrary: m)
  case Nil
  then show ?case by (simp add: aliases_resolve_def)
next
  case (Cons al aliases)
  let ?k = "canonical_model_id al"
  have k: "?k \<notin> seen" "trim al \<noteq> []" using Cons.prems(1) by (auto simp: Let_def split: if_splits)
  show ?case
  proof (cases "map_of m ?k")
    case None
    let ?m = "AList.update ?k (ar_canonical rule) m"
    have "register_aliases rule seen ?m aliases = Inr m'"
      using Cons.prems(1) None by (auto simp: Let_def split: if_splits)
    moreover have "avoids seen ?m" using Cons.prems(2) k by (auto simp: avoids_def)
    ultimately have ih: "avoids seen m'" "map_of ?m \<subseteq>\<^sub>m map_of m'" "aliases_resolve rule aliases m'"
      "\<forall>k c. map_of m' k = Some c \<longrightarrow> map_of ?m k = Some c \<or> c = ar_canonical rule"
      using Cons.IH by blast+
    have le: "map_of m \<subseteq>\<^sub>m map_of ?m" using None by (auto simp: map_le_def)
    have "map_of m' ?k = Some (ar_canonical rule)" by (rule map_leD [OF ih(2)]) simp
    moreover have "\<forall>k c. map_of m' k = Some c \<longrightarrow> map_of m k = Some c \<or> c = ar_canonical rule"
      using ih(4) by (metis map_of_update option.inject)
    ultimately show ?thesis
      using ih(1,3) map_le_trans [OF le ih(2)] k by (simp add: aliases_resolve_def)
  next
    case (Some c)
    then have c: "canonical_model_id c = canonical_model_id (ar_canonical rule)"
      and "register_aliases rule seen m aliases = Inr m'"
      using Cons.prems(1) by (auto simp: Let_def split: if_splits)
    with Cons.IH Cons.prems(2) have ih: "avoids seen m'" "map_of m \<subseteq>\<^sub>m map_of m'" "aliases_resolve rule aliases m'"
      "\<forall>k c. map_of m' k = Some c \<longrightarrow> map_of m k = Some c \<or> c = ar_canonical rule"
      by blast+
    have "map_of m' ?k = Some c" using map_leD [OF ih(2) Some] .
    with ih c k show ?thesis by (simp add: aliases_resolve_def)
  qed
qed

lemma register_rules_Cons:
  assumes "register_rules seen m (rule # rules) = Inr m'"
  obtains m1 where "trim (ar_canonical rule) \<noteq> []" "map_of m (canonical_model_id (ar_canonical rule)) = None"
    "register_aliases rule (insert (canonical_model_id (ar_canonical rule)) seen) m (ar_aliases rule) = Inr m1"
    "register_rules (insert (canonical_model_id (ar_canonical rule)) seen) m1 rules = Inr m'"
  using assms unfolding register_rules.simps bind_ok_Inr_iff Let_def
  by (auto simp: hm_contains_def bind_ok_Inr_iff split: if_splits)

lemma register_rules_ok:
  assumes "register_rules seen m rules = Inr m'" "avoids seen m"
  shows "avoids (seen \<union> (canonical_model_id \<circ> ar_canonical) ` set rules) m'
    \<and> map_of m \<subseteq>\<^sub>m map_of m'
    \<and> (\<forall>k c. map_of m' k = Some c \<longrightarrow> map_of m k = Some c \<or> c \<in> ar_canonical ` set rules)
    \<and> (\<forall>rule\<in>set rules. trim (ar_canonical rule) \<noteq> [] \<and> aliases_resolve rule (ar_aliases rule) m')"
  using assms
proof (induction rules arbitrary: seen m)
  case Nil
  then show ?case by simp
next
  case (Cons rule rules)
  let ?k = "canonical_model_id (ar_canonical rule)"
  obtain m1 where r: "trim (ar_canonical rule) \<noteq> []" "map_of m ?k = None"
    "register_aliases rule (insert ?k seen) m (ar_aliases rule) = Inr m1"
    "register_rules (insert ?k seen) m1 rules = Inr m'"
    using Cons.prems(1) by (rule register_rules_Cons)
  have "avoids (insert ?k seen) m" using Cons.prems(2) r(2) by (simp add: avoids_def)
  with register_aliases_ok [OF r(3)] have a: "avoids (insert ?k seen) m1" "map_of m \<subseteq>\<^sub>m map_of m1"
    "aliases_resolve rule (ar_aliases rule) m1"
    "\<forall>k c. map_of m1 k = Some c \<longrightarrow> map_of m k = Some c \<or> c = ar_canonical rule"
    by blast+
  from Cons.IH [OF r(4) a(1)] have ih: "avoids (insert ?k seen \<union> (canonical_model_id \<circ> ar_canonical) ` set rules) m'"
    "map_of m1 \<subseteq>\<^sub>m map_of m'"
    "\<forall>k c. map_of m' k = Some c \<longrightarrow> map_of m1 k = Some c \<or> c \<in> ar_canonical ` set rules"
    "\<forall>rule\<in>set rules. trim (ar_canonical rule) \<noteq> [] \<and> aliases_resolve rule (ar_aliases rule) m'"
    by blast+
  show ?case
    using ih(1) map_le_trans [OF a(2) ih(2)] a(4) ih(3,4) aliases_resolve_mono [OF a(3) ih(2)] r(1)
    by (simp add: insert_commute) blast
qed

text \<open>
  A registry that passes validation is consistent: every alias of every rule resolves to that
  rule's canonical name up to case folding, no canonical name is itself an alias, and what an
  alias resolves to is the canonical name of some rule and resolves no further.
\<close>

theorem alias_registry_consistent:
  assumes "from_rules rules = Inr reg"
  shows "(\<forall>rule\<in>set rules. \<forall>al\<in>set (ar_aliases rule).
        (\<exists>c. resolve_alias reg al = Some c \<and> canonical_model_id c = canonical_model_id (ar_canonical rule)))
    \<and> (\<forall>rule\<in>set rules. resolve_alias reg (ar_canonical rule) = None)
    \<and> (\<forall>model c. resolve_alias reg model = Some c \<longrightarrow>
         c \<in> ar_canonical ` set rules \<and> resolve_alias reg c = None \<and> matches_canonical reg model c)"
proof -
  obtain m where m: "register_rules {} [] rules = Inr m" and reg: "al_alias_to_canonical reg = m"
    using assms by (auto simp: from_rules_def bind_ok_Inr_iff)
  have "avoids {} []" by (simp add: avoids_def)
  from register_rules_ok [OF m this]
  have ok: "avoids ((canonical_model_id \<circ> ar_canonical) ` set rules) m"
    "\<forall>k c. map_of m k = Some c \<longrightarrow> c \<in> ar_canonical ` set rules"
    "\<forall>rule\<in>set rules. trim (ar_canonical rule) \<noteq> [] \<and> aliases_resolve rule (ar_aliases rule) m"
    by simp_all
  have none: "resolve_alias reg (ar_canonical rule) = None" if "rule \<in> set rules" for rule
    using ok(1) that by (simp add: avoids_def resolve_alias_def reg Let_def)
  have res: "c \<in> ar_canonical ` set rules \<and> matches_canonical reg model c"
    if "resolve_alias reg model = Some c" for model c
    using that ok(2,3) by (auto simp: resolve_alias_def matches_canonical_def reg Let_def split: if_splits)
  have al: "\<exists>c. resolve_alias reg al = Some c \<and> canonical_model_id c = canonical_model_id (ar_canonical rule)"
    if "rule \<in> set rules" "al \<in> set (ar_aliases rule)" for rule al
    using that ok(3) by (simp add: aliases_resolve_def resolve_alias_def reg Let_def)
  have fixed: "resolve_alias reg c = None" if "resolve_alias reg model = Some c" for model c
    using res [OF that] none by auto
  show ?thesis
  proof (intro conjI ballI allI impI)
    fix model c
    assume "resolve_alias reg model = Some c"
    then show "c \<in> ar_canonical ` set rules" "resolve_alias reg c = None" "matches_canonical reg model c"
      using res fixed by blast+
  qed (simp_all add: al none)
qed

theorem alias_registry_consistent_witness:
  "\<exists>reg c. from_rules [\<lparr>ar_canonical = ''A'', ar_aliases = [''b'', '' B '']\<rparr>] = Inr reg
     \<and> resolve_alias reg '' B '' = Some c \<and> resolve_alias reg c = None"
proof -
  have "\<exists>reg. from_rules [\<lparr>ar_canonical = ''A'', ar_aliases = [''b'', '' B '']\<rparr>] = Inr reg"
  proof -
    have "case from_rules [\<lparr>ar_canonical = ''A'', ar_aliases = [''b'', '' B '']\<rparr>] of
        Inr _ \<Rightarrow> True | Inl _ \<Rightarrow> False"
      by code_simp
    then show ?thesis by (auto split: sum.splits)
  qed
  then obtain reg where r: "from_rules [\<lparr>ar_canonical = ''A'', ar_aliases = [''b'', '' B '']\<rparr>] = Inr reg" ..
  from alias_registry_consistent [OF r] obtain c where c: "resolve_alias reg '' B '' = Some c" by auto
  with alias_registry_consistent [OF r] r show ?thesis by blast
qed

section \<open>The subagent suffix\<close>

text \<open>
  \<open>codex_subagent_base_model\<close> strips the suffix from every name that has it. It panics exactly
  on the trimmed names longer than the suffix whose byte at the cut lies inside a character, for
  instance on a name of six three-byte characters: the length is counted in bytes, but \<open>split_at\<close>
  insists on a character boundary.
\<close>

theorem subagent_base_model_panic_iff:
  "((\<exists>e. codex_subagent_base_model m = Inl e) \<longleftrightarrow>
     13 < length (trim m) \<and> CHR 0x80 \<le> trim m ! (length (trim m) - 13)
       \<and> trim m ! (length (trim m) - 13) \<le> CHR 0xBF)
   \<and> (trim m = base @ ''-fast-preview'' \<and> base \<noteq> [] \<longrightarrow> codex_subagent_base_model m = Inr (Some base))"
proof -
  have l: "length codex_subagent_model_variant_suffix = 13"
    by (simp add: codex_subagent_model_variant_suffix_def)
  have iff: "(\<exists>e. codex_subagent_base_model m = Inl e) \<longleftrightarrow>
      13 \<le> length (trim m) \<and> \<not> is_char_boundary (trim m) (length (trim m) - 13)"
    unfolding codex_subagent_base_model_def Let_def l
    by (auto simp: split_at_def bind_ok_Inl_iff not_less)
  have "codex_subagent_base_model m = Inr (Some base)" if t: "trim m = base @ ''-fast-preview''" "base \<noteq> []"
  proof -
    have "is_char_boundary (trim m) (length base)"
      by (simp add: is_char_boundary_def t less_eq_char_def)
    then show ?thesis
      using t unfolding codex_subagent_base_model_def Let_def l
      by (simp add: split_at_def codex_subagent_model_variant_suffix_def)
  qed
  then show ?thesis unfolding iff by (auto simp: is_char_boundary_def)
qed

definition six_characters :: string where
  "six_characters = concat (replicate 6 [CHR 0xE6, CHR 0xA8, CHR 0xA1])"

theorem subagent_base_model_panic_iff_witness:
  "(\<exists>e. codex_subagent_base_model six_characters = Inl e)
   \<and> codex_subagent_base_model ''m-fast-preview'' = Inr (Some ''m'')"
proof -
  have t: "trim six_characters = six_characters" "trim ''m-fast-preview'' = ''m'' @ ''-fast-preview''"
    by code_simp+
  have "13 < length (trim six_characters)
      \<and> CHR 0x80 \<le> trim six_characters ! (length (trim six_characters) - 13)
      \<and> trim six_characters ! (length (trim six_characters) - 13) \<le> CHR 0xBF"
    unfolding t by code_simp
  then show ?thesis
    using t subagent_base_model_panic_iff [of six_characters "[]"]
      subagent_base_model_panic_iff [of "''m-fast-preview''" "''m''"] by blast
qed

end
