(* ===== verification/Model_Access.thy ===== *)
theory Model_Access
  imports Model_Identity
begin

text \<open>
  Which models a downstream account may use (\<open>src/src/state/model_access.rs\<close>): the lattice of
  allowed model sets, access selections and the resolution of an account's effective models.
  Storing the policies (the \<open>AppState\<close> methods of that file) is database I/O and not modelled.
\<close>

section \<open>Allowed models\<close>

datatype allowed_models = AllModels | NoModels | Models "model_id set"

datatype group_error = EmptyGroup | SentinelCombined

definition from_group :: "string list \<Rightarrow> model_catalog \<Rightarrow> group_error + allowed_models" where
  "from_group models catalog =
    (if models = [] \<or> list_ex (\<lambda>name. trim name = []) models then Inl EmptyGroup
     else if list_ex (\<lambda>name. trim name = ''__none__'') models
     then (if length models = 1 then Inr NoModels else Inl SentinelCombined)
     else if list_ex (\<lambda>name. trim name = ''*'') models then Inr AllModels
     else Inr (Models (set (map (resolve_group_model_id catalog) models))))"

definition from_legacy :: "string list \<Rightarrow> model_catalog \<Rightarrow> allowed_models" where
  "from_legacy models catalog =
    (if models = [] then AllModels
     else case from_group models catalog of Inr a \<Rightarrow> a | Inl _ \<Rightarrow> NoModels)"

fun allowed_union :: "allowed_models \<Rightarrow> allowed_models \<Rightarrow> allowed_models" where
  "allowed_union AllModels _ = AllModels"
| "allowed_union _ AllModels = AllModels"
| "allowed_union NoModels other = other"
| "allowed_union other NoModels = other"
| "allowed_union (Models left) (Models right) = Models (left \<union> right)"

fun allowed_intersection :: "allowed_models \<Rightarrow> allowed_models \<Rightarrow> allowed_models" where
  "allowed_intersection NoModels _ = NoModels"
| "allowed_intersection _ NoModels = NoModels"
| "allowed_intersection AllModels other = other"
| "allowed_intersection other AllModels = other"
| "allowed_intersection (Models left) (Models right) =
    (let models = left \<inter> right in if models = {} then NoModels else Models models)"

fun allows :: "allowed_models \<Rightarrow> model_id \<Rightarrow> bool" where
  "allows AllModels _ = True"
| "allows NoModels _ = False"
| "allows (Models models) i = (i \<in> models)"

fun model_id_str :: "model_id \<Rightarrow> string" where
  "model_id_str (ModelId s) = s"

fun legacy_projection :: "allowed_models \<Rightarrow> string list" where
  "legacy_projection AllModels = [''*'']"
| "legacy_projection NoModels = [''__none__'']"
| "legacy_projection (Models models) = sorted_list_of_set (model_id_str ` models)"

section \<open>Selections and resolution\<close>

datatype access_mode = Inherit | Group | Deny

definition access_mode_as_str :: "access_mode \<Rightarrow> string" where
  "access_mode_as_str m =
    (case m of Inherit \<Rightarrow> ''inherit'' | Group \<Rightarrow> ''group'' | Deny \<Rightarrow> ''deny'')"

record model_access_selection =
  sel_mode :: access_mode
  sel_group_id :: "string option"

definition selection_default :: model_access_selection where
  "selection_default = \<lparr>sel_mode = Inherit, sel_group_id = None\<rparr>"

definition selection_validate :: "model_access_selection \<Rightarrow> bool" where
  "selection_validate s =
    (case (sel_mode s, sel_group_id s) of
       (Group, Some i) \<Rightarrow> trim i \<noteq> []
     | (Inherit, None) \<Rightarrow> True
     | (Deny, None) \<Rightarrow> True
     | _ \<Rightarrow> False)"

definition from_group_id :: "string \<Rightarrow> model_access_selection" where
  "from_group_id i =
    (if i = ''deny-all'' then \<lparr>sel_mode = Deny, sel_group_id = None\<rparr>
     else \<lparr>sel_mode = Group, sel_group_id = Some i\<rparr>)"

definition stored_group_id :: "model_access_selection \<Rightarrow> string" where
  "stored_group_id s = (case sel_group_id s of Some i \<Rightarrow> i | None \<Rightarrow> ''deny-all'')"

record access_policy =
  ap_downstream_id :: string
  ap_subject_kind :: string
  ap_owner_user_id :: "string option"
  ap_mode :: access_mode
  ap_model_group_id :: string
  ap_revision :: int

definition policy_selection :: "access_policy \<Rightarrow> model_access_selection" where
  "policy_selection p =
    \<lparr>sel_mode = ap_mode p, sel_group_id = (if ap_mode p = Group then Some (ap_model_group_id p) else None)\<rparr>"

definition resolve_effective_models ::
  "access_mode \<Rightarrow> bool \<Rightarrow> allowed_models option \<Rightarrow> allowed_models \<Rightarrow> allowed_models" where
  "resolve_effective_models mode portal owner grp =
    (if mode = Deny then NoModels
     else if portal
     then (case (mode, owner) of
             (Inherit, Some ceiling) \<Rightarrow> ceiling
           | (Group, Some ceiling) \<Rightarrow> allowed_intersection ceiling grp
           | _ \<Rightarrow> NoModels)
     else if mode = Group then grp
     else NoModels)"

section \<open>Properties\<close>

lemma allows_union: "allows (allowed_union a b) i \<longleftrightarrow> allows a i \<or> allows b i"
  by (cases a; cases b) auto

lemma allows_intersection: "allows (allowed_intersection a b) i \<longleftrightarrow> allows a i \<and> allows b i"
  by (cases a; cases b) (auto simp: Let_def)

text \<open>
  An account is never granted a model outside what its policy says: a denied account has no
  models; a portal account never exceeds its owner's ceiling, and with no owner has nothing; a
  group account has exactly the models of its group, cut by the ceiling on the portal.
\<close>

theorem effective_models_spec:
  "allows (resolve_effective_models mode portal owner grp) i \<longleftrightarrow>
    mode \<noteq> Deny
    \<and> (if portal then (\<exists>ceiling. owner = Some ceiling \<and> allows ceiling i \<and> (mode = Group \<longrightarrow> allows grp i))
       else mode = Group \<and> allows grp i)"
  by (cases mode; cases owner) (auto simp: resolve_effective_models_def allows_intersection)

theorem effective_models_spec_witness:
  "\<not> allows (resolve_effective_models Group True (Some NoModels) AllModels) (ModelId ''m'')"
  by (simp add: effective_models_spec)

text \<open>
  A model group lets through exactly the models its names resolve to: everything for the
  wildcard, nothing for the denial sentinel, and it is refused when a name is blank or the
  sentinel is combined with other names. A legacy list that is refused as a group allows nothing.
\<close>

theorem model_group_spec:
  "(case from_group models catalog of
      Inl EmptyGroup \<Rightarrow> models = [] \<or> (\<exists>n\<in>set models. trim n = [])
    | Inl SentinelCombined \<Rightarrow> 1 < length models \<and> (\<exists>n\<in>set models. trim n = ''__none__'')
    | Inr a \<Rightarrow> (\<forall>i. allows a i \<longleftrightarrow> \<not> (\<exists>n\<in>set models. trim n = ''__none__'')
        \<and> (\<exists>n\<in>set models. trim n = ''*'' \<or> resolve_group_model_id catalog n = i)))
   \<and> (from_legacy models catalog = NoModels \<or> models = [] \<or> (\<exists>a. from_group models catalog = Inr a
        \<and> from_legacy models catalog = a))"
  by (cases models) (auto simp: from_group_def from_legacy_def list_ex_iff)

text \<open>
  A valid selection that does not inherit survives being stored as a group id and read back,
  as long as no group is named like the denial sentinel.
\<close>

theorem selection_roundtrip:
  "selection_validate s \<Longrightarrow> sel_mode s \<noteq> Inherit \<Longrightarrow> sel_group_id s \<noteq> Some ''deny-all'' \<Longrightarrow>
   from_group_id (stored_group_id s) = s"
  by (cases "sel_mode s"; cases "sel_group_id s")
    (auto simp: selection_validate_def from_group_id_def stored_group_id_def)

theorem selection_roundtrip_witness:
  "from_group_id (stored_group_id \<lparr>sel_mode = Deny, sel_group_id = None\<rparr>)
     = \<lparr>sel_mode = Deny, sel_group_id = None\<rparr>"
  by (rule selection_roundtrip) (simp_all add: selection_validate_def)

end
