(* ===== verification/Weighted_Routing.thy ===== *)
theory Weighted_Routing
  imports Model_Identity
begin

text \<open>
  Selection among upstream candidates (\<open>src/src/routing.rs\<close>): the deterministic weighted pick over
  a cursor and the choice of the best healthy upstream for a request.
\<close>

section \<open>Data\<close>

datatype upstream_protocol = ProtoChatCompletions | ProtoResponses

record route_request =
  rq_model :: string
  rq_protocol :: upstream_protocol
  rq_stream :: bool

record upstream_candidate =
  uc_id :: string
  uc_name :: string
  uc_protocol :: upstream_protocol
  uc_models :: "string list"
  uc_priority :: nat
  uc_weight :: nat
  uc_failure_count :: nat

definition candidate_new :: "string \<Rightarrow> string \<Rightarrow> upstream_protocol \<Rightarrow> upstream_candidate" where
  "candidate_new i name protocol =
    \<lparr>uc_id = i, uc_name = name, uc_protocol = protocol, uc_models = [], uc_priority = 0,
     uc_weight = 1, uc_failure_count = 0\<rparr>"

definition with_models :: "string list \<Rightarrow> upstream_candidate \<Rightarrow> upstream_candidate" where
  "with_models models c = c\<lparr>uc_models := models\<rparr>"

definition with_priority :: "nat \<Rightarrow> upstream_candidate \<Rightarrow> upstream_candidate" where
  "with_priority priority c = c\<lparr>uc_priority := priority\<rparr>"

definition with_weight :: "nat \<Rightarrow> upstream_candidate \<Rightarrow> upstream_candidate" where
  "with_weight weight c = c\<lparr>uc_weight := weight\<rparr>"

definition with_failure_count :: "nat \<Rightarrow> upstream_candidate \<Rightarrow> upstream_candidate" where
  "with_failure_count count c = c\<lparr>uc_failure_count := count\<rparr>"

lemmas candidate_builders =
  candidate_new_def with_models_def with_priority_def with_weight_def with_failure_count_def

datatype route_error = ModelUnavailable string | NoHealthyUpstream string

section \<open>The weighted pick\<close>

fun pick_bucket :: "(nat \<times> nat) list \<Rightarrow> nat \<Rightarrow> nat option" where
  "pick_bucket [] bucket = None"
| "pick_bucket ((index, weight) # rest) bucket =
    (if bucket < weight then Some index else pick_bucket rest (bucket - weight))"

definition highest_tier :: "upstream_candidate list \<Rightarrow> (nat \<times> upstream_candidate) list" where
  "highest_tier candidates =
    filter (\<lambda>(_, c). uc_priority c = Max (set (map uc_priority candidates)))
      (enumerate 0 candidates)"

definition positive_members :: "upstream_candidate list \<Rightarrow> (nat \<times> nat) list" where
  "positive_members candidates =
    map (\<lambda>(index, c). (index, uc_weight c))
      (filter (\<lambda>(_, c). uc_weight c > 0) (highest_tier candidates))"

definition select_weighted_candidate_index :: "upstream_candidate list \<Rightarrow> nat \<Rightarrow> nat option" where
  "select_weighted_candidate_index candidates cursor =
    (if candidates = [] then None
     else
       (let tier = highest_tier candidates;
            positive = positive_members candidates
        in if positive = [] then (case tier of [] \<Rightarrow> None | (index, _) # _ \<Rightarrow> Some index)
           else (let total = sum_list (map snd positive);
                     bucket = cursor mod total
                 in case pick_bucket positive bucket of
                      Some index \<Rightarrow> Some index
                    | None \<Rightarrow> (case positive of [] \<Rightarrow> None | (index, _) # _ \<Rightarrow> Some index))))"

section \<open>The best healthy upstream\<close>

definition supports :: "route_request \<Rightarrow> bool \<Rightarrow> upstream_candidate \<Rightarrow> bool" where
  "supports request case_insensitive c =
    (uc_protocol c = rq_protocol request
     \<and> list_ex (\<lambda>model. models_equivalent_with model (rq_model request) case_insensitive) (uc_models c))"

text \<open>The comparison of the stable \<open>sort_by\<close>: higher priority first, then fewer failures.\<close>

definition preference :: "upstream_candidate \<Rightarrow> int \<times> nat" where
  "preference c = (- int (uc_priority c), uc_failure_count c)"

definition select_upstream_with_model_matching ::
  "route_request \<Rightarrow> upstream_candidate list \<Rightarrow> bool \<Rightarrow> route_error + upstream_candidate" where
  "select_upstream_with_model_matching request candidates case_insensitive =
    (let supported = filter (supports request case_insensitive) candidates in
     if supported = [] then Inl (ModelUnavailable (rq_model request))
     else case find (\<lambda>c. uc_failure_count c < 3) (sort_key preference supported) of
            Some c \<Rightarrow> Inr c
          | None \<Rightarrow> Inl (NoHealthyUpstream (rq_model request)))"

definition select_upstream ::
  "route_request \<Rightarrow> upstream_candidate list \<Rightarrow> route_error + upstream_candidate" where
  "select_upstream request candidates = select_upstream_with_model_matching request candidates True"

section \<open>Fairness of the weighted pick\<close>

lemma pick_bucket_total:
  "bucket < sum_list (map snd ps) \<Longrightarrow> \<exists>i. pick_bucket ps bucket = Some i"
  by (induction ps arbitrary: bucket) auto

definition picks :: "(nat \<times> nat) list \<Rightarrow> nat \<Rightarrow> nat set" where
  "picks ps i = {b. b < sum_list (map snd ps) \<and> pick_bucket ps b = Some i}"

lemma card_shift: "card {b :: nat. w \<le> b \<and> P (b - w)} = card {b. P b}"
proof (rule bij_betw_same_card [of "\<lambda>b. b - w"])
  show "bij_betw (\<lambda>b. b - w) {b. w \<le> b \<and> P (b - w)} {b. P b}"
    by (rule bij_betw_byWitness [where f' = "\<lambda>b. b + w"]) auto
qed

lemma picks_count:
  assumes "distinct (map fst ps)"
  shows "card (picks ps i) = (case map_of ps i of None \<Rightarrow> 0 | Some w \<Rightarrow> w)"
  using assms
proof (induction ps)
  case Nil
  then show ?case by (simp add: picks_def)
next
  case (Cons p ps)
  obtain j w where p: "p = (j, w)" by (cases p)
  have split: "picks (p # ps) i = (if j = i then {b. b < w} else {}) \<union> {b. w \<le> b \<and> b - w \<in> picks ps i}"
    by (auto simp: picks_def p)
  have shift: "card {b. w \<le> b \<and> b - w \<in> picks ps i} = card (picks ps i)"
    using card_shift [of w "\<lambda>b. b \<in> picks ps i"] by simp
  have fin: "finite {b. w \<le> b \<and> b - w \<in> picks ps i}"
  proof (rule finite_subset)
    show "{b. w \<le> b \<and> b - w \<in> picks ps i} \<subseteq> {..< w + sum_list (map snd ps)}"
      by (auto simp: picks_def)
  qed simp
  show ?case
  proof (cases "j = i")
    case True
    then have "map_of ps i = None" using Cons.prems p by (auto simp: map_of_eq_None_iff)
    with Cons have "card (picks ps i) = 0" by simp
    moreover have "card ({b. b < w} \<union> {b. w \<le> b \<and> b - w \<in> picks ps i})
        = card {b. b < w} + card {b. w \<le> b \<and> b - w \<in> picks ps i}"
      using fin by (intro card_Un_disjoint) auto
    ultimately show ?thesis using True p split shift by simp
  next
    case False
    then show ?thesis using Cons p split shift by simp
  qed
qed

lemma fst_positive_distinct: "distinct (map fst (positive_members cs))"
proof -
  have "map fst (positive_members cs)
      = map fst (filter (\<lambda>(_, c). uc_weight c > 0) (highest_tier cs))"
    by (simp add: positive_members_def comp_def case_prod_unfold)
  then show ?thesis
    by (simp add: highest_tier_def distinct_map_filter)
qed

lemma positive_member_iff:
  "(i, w) \<in> set (positive_members cs) \<longleftrightarrow>
    i < length cs \<and> w = uc_weight (cs ! i) \<and> 0 < w \<and> uc_priority (cs ! i) = Max (set (map uc_priority cs))"
  by (force simp: positive_members_def highest_tier_def in_set_enumerate_eq)

lemma positive_total: "positive_members cs \<noteq> [] \<Longrightarrow> 0 < sum_list (map snd (positive_members cs))"
proof -
  assume "positive_members cs \<noteq> []"
  then obtain i w ps where p: "positive_members cs = (i, w) # ps" by (metis list.exhaust surj_pair)
  then have "0 < w" using positive_member_iff [of i w cs] by simp
  with p show ?thesis by simp
qed

definition tier_weight :: "upstream_candidate list \<Rightarrow> nat \<Rightarrow> nat" where
  "tier_weight cs i =
    (if i < length cs \<and> uc_priority (cs ! i) = Max (set (map uc_priority cs)) then uc_weight (cs ! i) else 0)"

lemma map_of_positive:
  "(case map_of (positive_members cs) i of None \<Rightarrow> 0 | Some w \<Rightarrow> w) = tier_weight cs i"
proof (cases "map_of (positive_members cs) i")
  case None
  then have "\<not> (\<exists>w. (i, w) \<in> set (positive_members cs))"
    using fst_positive_distinct by (auto simp: map_of_eq_None_iff image_iff)
  then have "tier_weight cs i = 0"
    unfolding positive_member_iff by (auto simp: tier_weight_def)
  with None show ?thesis by simp
next
  case (Some w)
  then have "(i, w) \<in> set (positive_members cs)" by (rule map_of_SomeD)
  with Some show ?thesis unfolding positive_member_iff by (simp add: tier_weight_def)
qed

text \<open>
  Over any full round of the cursor the weighted pick is exactly fair: each member of the
  highest-priority tier is chosen as often as its weight says, and no other candidate is chosen
  at all. In particular the fallback after the loop is never reached.
\<close>

theorem weighted_pick_fair:
  assumes "positive_members cs \<noteq> []"
  shows "card {cursor. k * sum_list (map snd (positive_members cs)) \<le> cursor
      \<and> cursor < (k + 1) * sum_list (map snd (positive_members cs))
      \<and> select_weighted_candidate_index cs cursor = Some i} = tier_weight cs i"
proof -
  let ?ps = "positive_members cs" and ?T = "sum_list (map snd (positive_members cs))"
  have pos: "0 < ?T" using positive_total [OF assms] .
  have ne: "cs \<noteq> []" using assms by (auto simp: positive_members_def highest_tier_def)
  have sel: "select_weighted_candidate_index cs c = pick_bucket ?ps (c mod ?T)" for c
    using pick_bucket_total [of "c mod ?T" ?ps] pos assms ne
    by (auto simp: select_weighted_candidate_index_def Let_def)
  have "{c. k * ?T \<le> c \<and> c < (k + 1) * ?T \<and> select_weighted_candidate_index cs c = Some i}
      = {c. k * ?T \<le> c \<and> c - k * ?T \<in> picks ?ps i}"
  proof (intro Collect_cong)
    fix c
    show "k * ?T \<le> c \<and> c < (k + 1) * ?T \<and> select_weighted_candidate_index cs c = Some i
        \<longleftrightarrow> k * ?T \<le> c \<and> c - k * ?T \<in> picks ?ps i"
    proof (cases "k * ?T \<le> c")
      case True
      then obtain b where b: "c = k * ?T + b" using le_Suc_ex by blast
      then show ?thesis by (auto simp: picks_def sel algebra_simps)
    qed simp
  qed
  then show ?thesis
    using card_shift [of "k * ?T" "\<lambda>b. b \<in> picks ?ps i"] picks_count [OF fst_positive_distinct]
      map_of_positive by simp
qed

text \<open>The documented pattern: weights three and one over a tier of two, a third candidate below it.\<close>

definition sample_candidates :: "upstream_candidate list" where
  "sample_candidates =
    [with_weight 3 (with_priority 5 (candidate_new ''a'' ''A'' ProtoResponses)),
     with_weight 9 (with_priority 1 (candidate_new ''c'' ''C'' ProtoResponses)),
     with_weight 1 (with_priority 5 (candidate_new ''b'' ''B'' ProtoResponses))]"

lemma sample_members: "positive_members sample_candidates = [(0, 3), (2, 1)]"
  by (simp add: sample_candidates_def candidate_builders positive_members_def highest_tier_def)

theorem weighted_pick_fair_witness:
  "card {cursor. 8 \<le> cursor \<and> cursor < 12
      \<and> select_weighted_candidate_index sample_candidates cursor = Some 0} = 3
   \<and> card {cursor. 8 \<le> cursor \<and> cursor < 12
      \<and> select_weighted_candidate_index sample_candidates cursor = Some 1} = 0"
proof -
  have ne: "positive_members sample_candidates \<noteq> []" by (simp add: sample_members)
  have "tier_weight sample_candidates 0 = 3" "tier_weight sample_candidates 1 = 0"
    by (simp_all add: tier_weight_def sample_candidates_def candidate_builders)
  then show ?thesis
    using weighted_pick_fair [OF ne, of 2 0] weighted_pick_fair [OF ne, of 2 1]
    by (simp add: sample_members)
qed

section \<open>Correctness of the choice\<close>

lemma find_sorted_least:
  assumes "find P (sort_key k xs) = Some x"
  shows "x \<in> set xs \<and> P x \<and> (\<forall>y \<in> set xs. P y \<longrightarrow> k x \<le> k y)"
proof -
  obtain i where i: "i < length xs" "P (sort_key k xs ! i)" "x = sort_key k xs ! i"
    and before: "\<forall>j < i. \<not> P (sort_key k xs ! j)"
    using assms by (auto simp: find_Some_iff)
  have "k x \<le> k y" if y: "y \<in> set xs" "P y" for y
  proof -
    obtain j where j: "j < length xs" "y = sort_key k xs ! j"
      using y(1) by (metis in_set_conv_nth length_sort set_sort)
    with before y(2) have "i \<le> j" by (metis leI)
    then show ?thesis
      using sorted_nth_mono [OF sorted_sort_key, of i j k xs] i j by simp
  qed
  moreover have "x \<in> set xs" using i by (metis length_sort nth_mem set_sort)
  ultimately show ?thesis using i by simp
qed

definition better :: "upstream_candidate \<Rightarrow> upstream_candidate \<Rightarrow> bool" where
  "better c d = (uc_priority d < uc_priority c
     \<or> uc_priority d = uc_priority c \<and> uc_failure_count c \<le> uc_failure_count d)"

lemma preference_le_iff: "preference c \<le> preference d \<longleftrightarrow> better c d"
  by (auto simp: preference_def better_def less_eq_prod_def)

text \<open>
  C35. The selection answers exactly as its name promises. It reports the model unavailable iff no
  candidate speaks the protocol and lists the model, and no healthy upstream iff some do and each
  has failed three times or more; otherwise it returns a supporting candidate with fewer than
  three failures that is at least as good, by priority and then by failures, as every other one.
\<close>

theorem select_upstream_correct:
  "case select_upstream_with_model_matching request cs ci of
     Inl (ModelUnavailable m) \<Rightarrow> m = rq_model request \<and> (\<forall>c \<in> set cs. \<not> supports request ci c)
   | Inl (NoHealthyUpstream m) \<Rightarrow> m = rq_model request \<and> (\<exists>c \<in> set cs. supports request ci c)
       \<and> (\<forall>c \<in> set cs. supports request ci c \<longrightarrow> 3 \<le> uc_failure_count c)
   | Inr c \<Rightarrow> c \<in> set cs \<and> supports request ci c \<and> uc_failure_count c < 3
       \<and> (\<forall>d \<in> set cs. supports request ci d \<and> uc_failure_count d < 3 \<longrightarrow> better c d)"
proof (cases "filter (supports request ci) cs = []")
  case True
  then show ?thesis
    by (simp add: select_upstream_with_model_matching_def filter_empty_conv)
next
  case False
  let ?sup = "filter (supports request ci) cs"
  show ?thesis
  proof (cases "find (\<lambda>c. uc_failure_count c < 3) (sort_key preference ?sup)")
    case None
    then have "\<forall>c \<in> set ?sup. 3 \<le> uc_failure_count c"
      by (auto simp: find_None_iff not_less)
    moreover obtain c where "c \<in> set ?sup" using False by (meson last_in_set)
    ultimately show ?thesis
      using False None by (auto simp: select_upstream_with_model_matching_def)
  next
    case (Some c)
    from find_sorted_least [OF this] show ?thesis
      using False Some
      by (simp add: select_upstream_with_model_matching_def preference_le_iff)
  qed
qed

text \<open>A request served by the second of three candidates: the first has failed too often.\<close>

theorem select_upstream_correct_witness:
  "\<exists>c. select_upstream_with_model_matching
      \<lparr>rq_model = ''gpt'', rq_protocol = ProtoResponses, rq_stream = False\<rparr>
      [with_models [''gpt''] (with_priority 9 (with_failure_count 3 (candidate_new ''a'' ''A'' ProtoResponses))),
       with_models [''gpt''] (with_priority 2 (candidate_new ''b'' ''B'' ProtoResponses)),
       with_models [''gpt''] (candidate_new ''c'' ''C'' ProtoResponses)] False = Inr c
     \<and> uc_id c = ''b'' \<and> uc_failure_count c < 3"
proof -
  let ?rq = "\<lparr>rq_model = ''gpt'', rq_protocol = ProtoResponses, rq_stream = False\<rparr>"
  let ?cs = "[with_models [''gpt''] (with_priority 9 (with_failure_count 3 (candidate_new ''a'' ''A'' ProtoResponses))),
       with_models [''gpt''] (with_priority 2 (candidate_new ''b'' ''B'' ProtoResponses)),
       with_models [''gpt''] (candidate_new ''c'' ''C'' ProtoResponses)]"
  have "select_upstream_with_model_matching ?rq ?cs False = Inr (?cs ! 1)" by code_simp
  with select_upstream_correct [of ?rq ?cs False] show ?thesis
    by (simp add: candidate_builders)
qed

end
