(* ===== verification/Json_Value.thy ===== *)
theory Json_Value
  imports Gateway_Prelude
begin

text \<open>
  JSON values as the gateway reads them through \<open>serde_json::Value\<close>. An object is the list of its
  members in the map's order, with distinct names; text is a sequence of bytes; the
  representation of numbers is a type parameter.
\<close>

datatype 'n json =
    JNull
  | JBool bool
  | JNumber 'n
  | JString string
  | JArray "'n json list"
  | JObject "(string \<times> 'n json) list"

text \<open>\<open>Value::get\<close> with a string index, \<open>Value::as_str\<close>, \<open>Value::as_array\<close> and \<open>Value::is_null\<close>.\<close>

fun json_get :: "'n json \<Rightarrow> string \<Rightarrow> 'n json option" where
  "json_get (JObject members) name = map_of members name"
| "json_get _ name = None"

fun as_str :: "'n json \<Rightarrow> string option" where
  "as_str (JString s) = Some s"
| "as_str _ = None"

fun as_array :: "'n json \<Rightarrow> 'n json list option" where
  "as_array (JArray vs) = Some vs"
| "as_array _ = None"

fun is_null :: "'n json \<Rightarrow> bool" where
  "is_null JNull = True"
| "is_null _ = False"

lemma as_str_Some [simp]: "as_str v = Some s \<longleftrightarrow> v = JString s"
  by (cases v) auto

lemma as_array_Some [simp]: "as_array v = Some xs \<longleftrightarrow> v = JArray xs"
  by (cases v) auto

lemma is_null_iff [simp]: "is_null v \<longleftrightarrow> v = JNull"
  by (cases v) auto

end
