(* ===== verification/Stream_Commit.thy ===== *)
theory Stream_Commit
  imports Json_Value
begin

text \<open>
  Commit tracking of a downstream stream and its deadline for the first semantic output
  (\<open>src/src/server/gateway/stream_commit.rs\<close>). Parsed events are JSON values. The mutex and the atomic flag of
  the tracker are one record, and the instant read by \<open>observe_json\<close> is an argument.
\<close>

section \<open>Reading an event\<close>

datatype endpoint_kind = ChatCompletionsEndpoint | ResponsesEndpoint

definition has_non_empty_string :: "'n json \<Rightarrow> string \<Rightarrow> bool" where
  "has_non_empty_string v field =
    (case Option.bind (json_get v field) as_str of None \<Rightarrow> False | Some s \<Rightarrow> s \<noteq> [])"

fun has_non_empty_nested_string :: "'n json \<Rightarrow> string list \<Rightarrow> bool" where
  "has_non_empty_nested_string v [] = (case as_str v of None \<Rightarrow> False | Some s \<Rightarrow> s \<noteq> [])"
| "has_non_empty_nested_string v (segment # path) =
    (case json_get v segment of None \<Rightarrow> False | Some w \<Rightarrow> has_non_empty_nested_string w path)"

definition skipped_key :: "string \<Rightarrow> bool" where
  "skipped_key key = (key \<in> {''id'', ''role'', ''status'', ''type''})"

fun value_has_semantic_payload :: "'n json \<Rightarrow> bool" where
  "value_has_semantic_payload (JString text) = (text \<noteq> [])"
| "value_has_semantic_payload (JArray vs) = list_ex value_has_semantic_payload vs"
| "value_has_semantic_payload (JObject members) =
    list_ex (\<lambda>(key, v). \<not> skipped_key key \<and> value_has_semantic_payload v) members"
| "value_has_semantic_payload _ = False"

definition response_output_item_is_semantic :: "'n json \<Rightarrow> bool" where
  "response_output_item_is_semantic item =
    (case Option.bind (json_get item ''type'') as_str of
       None \<Rightarrow> False
     | Some kind \<Rightarrow>
         if kind = ''function_call''
         then has_non_empty_string item ''call_id'' \<or> has_non_empty_string item ''name''
            \<or> has_non_empty_string item ''arguments''
         else if kind = ''custom_tool_call''
         then has_non_empty_string item ''call_id'' \<or> has_non_empty_string item ''name''
            \<or> has_non_empty_string item ''input''
         else if kind = ''message'' \<or> kind = ''agent_message''
         then has_non_empty_string item ''text''
            \<or> is_some_and (json_get item ''encrypted_content'') (\<lambda>v. \<not> is_null v)
            \<or> is_some_and (json_get item ''content'') value_has_semantic_payload
         else False)"

section \<open>The tracker\<close>

record stream_commit_state =
  sc_transport_committed :: bool
  sc_semantic_output_observed :: bool
  sc_terminal_observed :: bool
  sc_last_semantic_at :: "instant option"
  sc_last_keepalive_at :: "instant option"

record stream_commit_tracker =
  tk_inner :: stream_commit_state
  tk_health_settle_pending :: bool

definition tracker_default :: stream_commit_tracker where
  "tracker_default =
    \<lparr>tk_inner = \<lparr>sc_transport_committed = False, sc_semantic_output_observed = False,
       sc_terminal_observed = False, sc_last_semantic_at = None, sc_last_keepalive_at = None\<rparr>,
     tk_health_settle_pending = False\<rparr>"

definition commit_transport :: "stream_commit_tracker \<Rightarrow> stream_commit_tracker" where
  "commit_transport t = t\<lparr>tk_inner := (tk_inner t)\<lparr>sc_transport_committed := True\<rparr>\<rparr>"

definition observe_keepalive :: "instant \<Rightarrow> stream_commit_tracker \<Rightarrow> stream_commit_tracker" where
  "observe_keepalive now t = t\<lparr>tk_inner := (tk_inner t)\<lparr>sc_last_keepalive_at := Some now\<rparr>\<rparr>"

definition mark_semantic :: "instant \<Rightarrow> stream_commit_tracker \<Rightarrow> stream_commit_tracker" where
  "mark_semantic now t =
    t\<lparr>tk_inner := (tk_inner t)\<lparr>sc_semantic_output_observed := True, sc_last_semantic_at := Some now\<rparr>,
      tk_health_settle_pending := True\<rparr>"

definition mark_terminal :: "stream_commit_tracker \<Rightarrow> stream_commit_tracker" where
  "mark_terminal t = t\<lparr>tk_inner := (tk_inner t)\<lparr>sc_terminal_observed := True\<rparr>\<rparr>"

definition tool_call_is_semantic :: "'n json \<Rightarrow> bool" where
  "tool_call_is_semantic tc =
    (has_non_empty_string tc ''id'' \<or> has_non_empty_nested_string tc [''function'', ''name'']
     \<or> has_non_empty_nested_string tc [''function'', ''arguments''])"

definition observe_delta :: "instant \<Rightarrow> 'n json \<Rightarrow> stream_commit_tracker \<Rightarrow> stream_commit_tracker" where
  "observe_delta now delta t =
    (let t1 = (if has_non_empty_string delta ''content'' \<or> has_non_empty_string delta ''reasoning_content''
               then mark_semantic now t else t)
     in case Option.bind (json_get delta ''tool_calls'') as_array of
          None \<Rightarrow> t1
        | Some tool_calls \<Rightarrow>
            fold (\<lambda>tc t. if tool_call_is_semantic tc then mark_semantic now t else t) tool_calls t1)"

definition observe_choice :: "instant \<Rightarrow> 'n json \<Rightarrow> stream_commit_tracker \<Rightarrow> stream_commit_tracker" where
  "observe_choice now choice t =
    (let t1 = (case json_get choice ''delta'' of None \<Rightarrow> t | Some delta \<Rightarrow> observe_delta now delta t)
     in if json_get choice ''finish_reason'' \<noteq> None
           \<and> \<not> is_none_or (json_get choice ''finish_reason'') is_null
        then mark_terminal t1 else t1)"

definition observe_json ::
  "endpoint_kind \<Rightarrow> 'n json \<Rightarrow> instant \<Rightarrow> stream_commit_tracker \<Rightarrow> stream_commit_tracker" where
  "observe_json endpoint event now t =
    (case endpoint of
       ChatCompletionsEndpoint \<Rightarrow>
         (case Option.bind (json_get event ''choices'') as_array of
            None \<Rightarrow> t
          | Some choices \<Rightarrow> fold (observe_choice now) choices t)
     | ResponsesEndpoint \<Rightarrow>
         (let event_type = (case Option.bind (json_get event ''type'') as_str of None \<Rightarrow> [] | Some s \<Rightarrow> s) in
          if (event_type = ''response.output_text.delta''
              \<or> event_type = ''response.reasoning_summary_text.delta'')
             \<and> has_non_empty_string event ''delta''
          then mark_semantic now t
          else if (event_type = ''response.output_item.added'' \<or> event_type = ''response.output_item.done'')
             \<and> is_some_and (json_get event ''item'') response_output_item_is_semantic
          then mark_semantic now t
          else if event_type = ''response.function_call_arguments.delta''
             \<and> has_non_empty_string event ''delta''
          then mark_semantic now t
          else if event_type = ''response.completed'' then mark_terminal t
          else t))"

definition take_health_settle_pending :: "stream_commit_tracker \<Rightarrow> bool \<times> stream_commit_tracker" where
  "take_health_settle_pending t = (tk_health_settle_pending t, t\<lparr>tk_health_settle_pending := False\<rparr>)"

definition can_replay :: "stream_commit_tracker \<Rightarrow> bool" where
  "can_replay t = (\<not> sc_semantic_output_observed (tk_inner t))"

section \<open>The deadline for the first semantic output\<close>

record first_semantic_deadline =
  fd_started :: instant
  fd_deadline :: instant
  fd_warn_after :: duration

definition new_with_warn :: "instant \<Rightarrow> duration \<Rightarrow> duration \<Rightarrow> first_semantic_deadline" where
  "new_with_warn started budget warn_after =
    \<lparr>fd_started = started, fd_deadline = started + budget, fd_warn_after = warn_after\<rparr>"

definition deadline_new :: "instant \<Rightarrow> duration \<Rightarrow> first_semantic_deadline" where
  "deadline_new started budget = new_with_warn started budget 0"

definition elapsed_since_start :: "first_semantic_deadline \<Rightarrow> instant \<Rightarrow> duration" where
  "elapsed_since_start d now = saturating_duration_since now (fd_started d)"

definition should_warn :: "first_semantic_deadline \<Rightarrow> instant \<Rightarrow> bool" where
  "should_warn d now = (fd_warn_after d \<noteq> 0 \<and> elapsed_since_start d now \<ge> fd_warn_after d)"

datatype gateway_timeout = GatewayTimeout string

definition first_semantic_output_timeout_error :: gateway_timeout where
  "first_semantic_output_timeout_error =
    GatewayTimeout ''first_semantic_output_timeout: no semantic output within the shared budget''"

definition remaining :: "first_semantic_deadline \<Rightarrow> instant \<Rightarrow> gateway_timeout + duration" where
  "remaining d now =
    (if now \<ge> fd_deadline d then Inl first_semantic_output_timeout_error
     else Inr (fd_deadline d - now))"

definition clip :: "first_semantic_deadline \<Rightarrow> duration \<Rightarrow> instant \<Rightarrow> gateway_timeout + duration" where
  "clip d phase_limit now = bind_ok (remaining d now) (\<lambda>rest. Inr (min rest phase_limit))"

section \<open>What counts as semantic output\<close>

text \<open>
  The specification follows the list in the doc comment of \<open>observe_json\<close>: an event is semantic
  when a non-empty string sits at one of the listed places. A place is a path of field names and
  array elements.
\<close>

datatype place = Field string | Element

fun at_place :: "'n json \<Rightarrow> place list \<Rightarrow> 'n json \<Rightarrow> bool" where
  "at_place v [] w = (v = w)"
| "at_place v (Field name # path) w = (\<exists>x. json_get v name = Some x \<and> at_place x path w)"
| "at_place v (Element # path) w = (\<exists>xs x. v = JArray xs \<and> x \<in> set xs \<and> at_place x path w)"

definition text_at :: "'n json \<Rightarrow> place list \<Rightarrow> bool" where
  "text_at v path = (\<exists>s. at_place v path (JString s) \<and> s \<noteq> [])"

definition chat_places :: "place list list" where
  "chat_places =
    [[Field ''choices'', Element, Field ''delta'', Field ''content''],
     [Field ''choices'', Element, Field ''delta'', Field ''reasoning_content''],
     [Field ''choices'', Element, Field ''delta'', Field ''tool_calls'', Element, Field ''id''],
     [Field ''choices'', Element, Field ''delta'', Field ''tool_calls'', Element, Field ''function'', Field ''name''],
     [Field ''choices'', Element, Field ''delta'', Field ''tool_calls'', Element, Field ''function'', Field ''arguments'']]"

text \<open>A payload: some non-empty string below the value, not under an identifying field.\<close>

inductive payload_text :: "'n json \<Rightarrow> bool" where
  payload_string: "s \<noteq> [] \<Longrightarrow> payload_text (JString s)"
| payload_element: "v \<in> set vs \<Longrightarrow> payload_text v \<Longrightarrow> payload_text (JArray vs)"
| payload_field: "(key, v) \<in> set members \<Longrightarrow> \<not> skipped_key key \<Longrightarrow> payload_text v \<Longrightarrow>
    payload_text (JObject members)"

inductive_simps payload_text_simps:
  "payload_text (JString s)" "payload_text (JArray vs)" "payload_text (JObject members)"
  "payload_text JNull" "payload_text (JBool b)" "payload_text (JNumber n)"

definition typed :: "'n json \<Rightarrow> string \<Rightarrow> bool" where
  "typed v kind = at_place v [Field ''type''] (JString kind)"

definition semantic_item :: "'n json \<Rightarrow> bool" where
  "semantic_item item =
    (typed item ''function_call''
       \<and> (\<exists>f \<in> {''call_id'', ''name'', ''arguments''}. text_at item [Field f])
     \<or> typed item ''custom_tool_call''
       \<and> (\<exists>f \<in> {''call_id'', ''name'', ''input''}. text_at item [Field f])
     \<or> (typed item ''message'' \<or> typed item ''agent_message'')
       \<and> (text_at item [Field ''text'']
          \<or> (\<exists>v. at_place item [Field ''encrypted_content''] v \<and> v \<noteq> JNull)
          \<or> (\<exists>v. at_place item [Field ''content''] v \<and> payload_text v)))"

fun semantic_event :: "endpoint_kind \<Rightarrow> 'n json \<Rightarrow> bool" where
  "semantic_event ChatCompletionsEndpoint event = (\<exists>path \<in> set chat_places. text_at event path)"
| "semantic_event ResponsesEndpoint event =
    ((\<exists>kind \<in> {''response.output_text.delta'', ''response.reasoning_summary_text.delta'',
              ''response.function_call_arguments.delta''}. typed event kind)
       \<and> text_at event [Field ''delta'']
     \<or> (\<exists>kind \<in> {''response.output_item.added'', ''response.output_item.done''}. typed event kind)
       \<and> (\<exists>item. at_place event [Field ''item''] item \<and> semantic_item item))"

fun terminal_event :: "endpoint_kind \<Rightarrow> 'n json \<Rightarrow> bool" where
  "terminal_event ChatCompletionsEndpoint event =
    (\<exists>v. at_place event [Field ''choices'', Element, Field ''finish_reason''] v \<and> v \<noteq> JNull)"
| "terminal_event ResponsesEndpoint event = typed event ''response.completed''"

section \<open>The reading of an event meets the specification\<close>

lemma has_non_empty_string_iff [simp]: "has_non_empty_string v f \<longleftrightarrow> text_at v [Field f]"
  by (auto simp: has_non_empty_string_def text_at_def bind_eq_Some_conv split: option.splits)

lemma has_non_empty_nested_string_iff [simp]:
  "has_non_empty_nested_string v path \<longleftrightarrow> text_at v (map Field path)"
  by (induction v path rule: has_non_empty_nested_string.induct)
    (auto simp: text_at_def split: option.splits)

lemma value_has_semantic_payload_iff [simp]: "value_has_semantic_payload v \<longleftrightarrow> payload_text v"
  by (induction v rule: value_has_semantic_payload.induct)
    (fastforce simp: payload_text_simps list_ex_iff split: prod.splits)+

lemma typed_iff: "typed v kind \<longleftrightarrow> Option.bind (json_get v ''type'') as_str = Some kind"
  by (auto simp: typed_def bind_eq_Some_conv)

lemma response_output_item_is_semantic_iff [simp]:
  "response_output_item_is_semantic item \<longleftrightarrow> semantic_item item"
proof (cases "Option.bind (json_get item ''type'') as_str")
  case None
  then show ?thesis by (simp add: response_output_item_is_semantic_def semantic_item_def typed_iff)
next
  case (Some kind)
  then show ?thesis
    by (simp add: response_output_item_is_semantic_def semantic_item_def typed_iff is_some_and_iff)
qed

text \<open>The effect of an event on the tracker: whether it is semantic, and whether it is terminal.\<close>

definition marks :: "instant \<Rightarrow> bool \<Rightarrow> bool \<Rightarrow> stream_commit_tracker \<Rightarrow> stream_commit_tracker" where
  "marks now semantic terminal t =
    t\<lparr>tk_inner := (tk_inner t)\<lparr>
        sc_semantic_output_observed := sc_semantic_output_observed (tk_inner t) \<or> semantic,
        sc_last_semantic_at := (if semantic then Some now else sc_last_semantic_at (tk_inner t)),
        sc_terminal_observed := sc_terminal_observed (tk_inner t) \<or> terminal\<rparr>,
      tk_health_settle_pending := tk_health_settle_pending t \<or> semantic\<rparr>"

lemma marks_compose:
  "marks now p2 q2 (marks now p1 q1 t) = marks now (p1 \<or> p2) (q1 \<or> q2) t"
  by (simp add: marks_def)

lemma marks_none [simp]: "marks now False False t = t"
  by (simp add: marks_def)

lemma mark_semantic_marks: "mark_semantic now t = marks now True False t"
  by (simp add: mark_semantic_def marks_def)

lemma mark_terminal_marks: "mark_terminal t = marks now False True t"
  by (simp add: mark_terminal_def marks_def)

lemma fold_marks:
  "fold (\<lambda>x. marks now (p x) (q x)) xs t = marks now (\<exists>x\<in>set xs. p x) (\<exists>x\<in>set xs. q x) t"
  by (induction xs arbitrary: t) (simp_all add: marks_compose)

definition delta_is_semantic :: "'n json \<Rightarrow> bool" where
  "delta_is_semantic delta =
    (text_at delta [Field ''content''] \<or> text_at delta [Field ''reasoning_content'']
     \<or> (\<exists>tool_calls tc. json_get delta ''tool_calls'' = Some (JArray tool_calls) \<and> tc \<in> set tool_calls
          \<and> tool_call_is_semantic tc))"

lemma mark_semantic_if: "(if b then mark_semantic now t else t) = marks now b False t"
  by (simp add: mark_semantic_marks)

lemma mark_terminal_if: "(if b then mark_terminal t else t) = marks now False b t"
  by (simp add: mark_terminal_marks [of _ now])

lemma observe_delta_marks: "observe_delta now delta t = marks now (delta_is_semantic delta) False t"
proof (cases "Option.bind (json_get delta ''tool_calls'') as_array")
  case None
  then have "json_get delta ''tool_calls'' \<noteq> Some (JArray tcs)" for tcs by auto
  then have "delta_is_semantic delta \<longleftrightarrow> text_at delta [Field ''content''] \<or> text_at delta [Field ''reasoning_content'']"
    by (simp add: delta_is_semantic_def)
  with None show ?thesis by (simp add: observe_delta_def mark_semantic_if)
next
  case (Some tcs)
  then have "json_get delta ''tool_calls'' = Some (JArray tcs)" by (simp add: bind_eq_Some_conv)
  then have "delta_is_semantic delta \<longleftrightarrow> (text_at delta [Field ''content''] \<or> text_at delta [Field ''reasoning_content''])
      \<or> (\<exists>tc\<in>set tcs. tool_call_is_semantic tc)"
    by (auto simp: delta_is_semantic_def)
  with Some show ?thesis
    by (simp add: observe_delta_def mark_semantic_if fold_marks marks_compose)
qed

lemma observe_choice_marks:
  "observe_choice now choice t = marks now
    (\<exists>delta. json_get choice ''delta'' = Some delta \<and> delta_is_semantic delta)
    (\<exists>v. json_get choice ''finish_reason'' = Some v \<and> v \<noteq> JNull) t"
proof -
  have "(case json_get choice ''delta'' of None \<Rightarrow> t | Some delta \<Rightarrow> observe_delta now delta t)
      = marks now (\<exists>delta. json_get choice ''delta'' = Some delta \<and> delta_is_semantic delta) False t"
    by (simp add: observe_delta_marks split: option.split)
  moreover have "json_get choice ''finish_reason'' \<noteq> None \<and> \<not> is_none_or (json_get choice ''finish_reason'') is_null
      \<longleftrightarrow> (\<exists>v. json_get choice ''finish_reason'' = Some v \<and> v \<noteq> JNull)"
    by (auto simp: is_none_or_iff)
  ultimately show ?thesis
    by (simp add: observe_choice_def mark_terminal_if [of _ _ now] marks_compose)
qed

lemma text_at_Field: "text_at v (Field name # path) \<longleftrightarrow> (\<exists>x. json_get v name = Some x \<and> text_at x path)"
  and text_at_Element: "text_at v (Element # path) \<longleftrightarrow> (\<exists>xs x. v = JArray xs \<and> x \<in> set xs \<and> text_at x path)"
  by (auto simp: text_at_def)

lemma text_at_tool_call:
  "text_at delta (Field ''tool_calls'' # Element # path) \<longleftrightarrow>
    (\<exists>tcs tc. json_get delta ''tool_calls'' = Some (JArray tcs) \<and> tc \<in> set tcs \<and> text_at tc path)"
  by (auto simp: text_at_Field text_at_Element)

lemma text_at_choice:
  "text_at event (Field ''choices'' # Element # Field ''delta'' # path) \<longleftrightarrow>
    (\<exists>choices choice delta. json_get event ''choices'' = Some (JArray choices) \<and> choice \<in> set choices
       \<and> json_get choice ''delta'' = Some delta \<and> text_at delta path)"
  by (auto simp: text_at_Field text_at_Element)

lemma delta_is_semantic_iff:
  "delta_is_semantic delta \<longleftrightarrow>
    text_at delta [Field ''content''] \<or> text_at delta [Field ''reasoning_content'']
    \<or> text_at delta [Field ''tool_calls'', Element, Field ''id'']
    \<or> text_at delta [Field ''tool_calls'', Element, Field ''function'', Field ''name'']
    \<or> text_at delta [Field ''tool_calls'', Element, Field ''function'', Field ''arguments'']"
  unfolding delta_is_semantic_def tool_call_is_semantic_def text_at_tool_call
    has_non_empty_string_iff has_non_empty_nested_string_iff list.map
  by blast

lemma semantic_chat_event:
  "semantic_event ChatCompletionsEndpoint event \<longleftrightarrow>
    (\<exists>choices choice delta. json_get event ''choices'' = Some (JArray choices) \<and> choice \<in> set choices
       \<and> json_get choice ''delta'' = Some delta \<and> delta_is_semantic delta)"
  unfolding semantic_event.simps chat_places_def list.set bex_simps text_at_choice delta_is_semantic_iff
  by blast

lemma terminal_chat_event:
  "terminal_event ChatCompletionsEndpoint event \<longleftrightarrow>
    (\<exists>choices choice v. json_get event ''choices'' = Some (JArray choices) \<and> choice \<in> set choices
       \<and> json_get choice ''finish_reason'' = Some v \<and> v \<noteq> JNull)"
  by auto

lemma dispatch_marks:
  assumes "distinct [a, b, c, d, e, f]"
  shows "(if (k = a \<or> k = b) \<and> p then marks now True False t
      else if (k = d \<or> k = e) \<and> q then marks now True False t
      else if k = c \<and> p then marks now True False t
      else if k = f then marks now False True t else t)
    = marks now ((\<exists>x\<in>{a, b, c}. x = k) \<and> p \<or> (\<exists>x\<in>{d, e}. x = k) \<and> q) (f = k) t"
  using assms by auto

lemma observe_response_marks:
  assumes "Option.bind (json_get event ''type'') as_str = Some kind"
  shows "observe_json ResponsesEndpoint event now t = marks now
    ((\<exists>k \<in> {''response.output_text.delta'', ''response.reasoning_summary_text.delta'',
             ''response.function_call_arguments.delta''}. k = kind) \<and> text_at event [Field ''delta'']
     \<or> (\<exists>k \<in> {''response.output_item.added'', ''response.output_item.done''}. k = kind)
        \<and> is_some_and (json_get event ''item'') response_output_item_is_semantic)
    (''response.completed'' = kind) t"
proof -
  let ?item = "is_some_and (json_get event ''item'') response_output_item_is_semantic"
    and ?delta = "text_at event [Field ''delta'']"
  have eq: "observe_json ResponsesEndpoint event now t =
      (if (kind = ''response.output_text.delta'' \<or> kind = ''response.reasoning_summary_text.delta'') \<and> ?delta
       then marks now True False t
       else if (kind = ''response.output_item.added'' \<or> kind = ''response.output_item.done'') \<and> ?item
       then marks now True False t
       else if kind = ''response.function_call_arguments.delta'' \<and> ?delta then marks now True False t
       else if kind = ''response.completed'' then marks now False True t else t)"
    unfolding observe_json_def assms has_non_empty_string_iff mark_semantic_marks
      mark_terminal_marks [of _ now] Let_def
    by simp
  show ?thesis unfolding eq by (rule dispatch_marks) simp
qed

lemma observe_json_marks:
  "observe_json endpoint event now t =
    marks now (semantic_event endpoint event) (terminal_event endpoint event) t"
proof (cases endpoint)
  case ChatCompletionsEndpoint
  note specs = semantic_chat_event terminal_chat_event
  show ?thesis
  proof (cases "Option.bind (json_get event ''choices'') as_array")
    case None
    then have "json_get event ''choices'' \<noteq> Some (JArray cs)" for cs by auto
    then show ?thesis unfolding ChatCompletionsEndpoint specs using None by (simp add: observe_json_def)
  next
    case (Some choices)
    then have c: "json_get event ''choices'' = Some (JArray choices)" by (simp add: bind_eq_Some_conv)
    have obs: "observe_json ChatCompletionsEndpoint event now t = fold (observe_choice now) choices t"
      using Some by (simp add: observe_json_def)
    show ?thesis
      unfolding ChatCompletionsEndpoint specs obs observe_choice_marks [abs_def] fold_marks c
      by (auto intro!: arg_cong2 [where f = "\<lambda>a b. marks now a b t"])
  qed
next
  case ResponsesEndpoint
  show ?thesis
  proof (cases "Option.bind (json_get event ''type'') as_str")
    case None
    then show ?thesis
      unfolding ResponsesEndpoint semantic_event.simps terminal_event.simps typed_iff observe_json_def None Let_def
      by simp
  next
    case (Some kind)
    then have kind: "typed event k \<longleftrightarrow> k = kind" for k unfolding typed_iff by auto
    have item: "(\<exists>item. at_place event [Field ''item''] item \<and> semantic_item item)
        \<longleftrightarrow> is_some_and (json_get event ''item'') response_output_item_is_semantic"
      by (simp add: is_some_and_iff)
    show ?thesis
      unfolding ResponsesEndpoint semantic_event.simps terminal_event.simps kind item
      by (rule observe_response_marks [OF Some])
  qed
qed

section \<open>Histories of a tracker\<close>

datatype 'n tracker_op =
    CommitTransport
  | Keepalive instant
  | Observe endpoint_kind "'n json" instant
  | TakeSettle

fun tracker_step :: "'n tracker_op \<Rightarrow> stream_commit_tracker \<Rightarrow> stream_commit_tracker" where
  "tracker_step CommitTransport t = commit_transport t"
| "tracker_step (Keepalive now) t = observe_keepalive now t"
| "tracker_step (Observe endpoint event now) t = observe_json endpoint event now t"
| "tracker_step TakeSettle t = snd (take_health_settle_pending t)"

definition tracker_after :: "'n tracker_op list \<Rightarrow> stream_commit_tracker" where
  "tracker_after ops = fold tracker_step ops tracker_default"

fun semantic_op :: "'n tracker_op \<Rightarrow> bool" where
  "semantic_op (Observe endpoint event now) = semantic_event endpoint event"
| "semantic_op _ = False"

fun terminal_op :: "'n tracker_op \<Rightarrow> bool" where
  "terminal_op (Observe endpoint event now) = terminal_event endpoint event"
| "terminal_op _ = False"

text \<open>Some operation satisfying \<open>p\<close> with none satisfying \<open>q\<close> after it.\<close>

definition since :: "('a \<Rightarrow> bool) \<Rightarrow> ('a \<Rightarrow> bool) \<Rightarrow> 'a list \<Rightarrow> bool" where
  "since p q xs = (\<exists>pre x post. xs = pre @ x # post \<and> p x \<and> (\<forall>y\<in>set post. \<not> q y))"

lemma since_Nil [simp]: "\<not> since p q []"
  by (simp add: since_def)

lemma since_snoc [simp]: "since p q (xs @ [y]) \<longleftrightarrow> p y \<or> since p q xs \<and> \<not> q y"
proof
  assume "since p q (xs @ [y])"
  then obtain pre x post where s: "xs @ [y] = pre @ x # post" "p x" "\<forall>z\<in>set post. \<not> q z"
    by (auto simp: since_def)
  then show "p y \<or> since p q xs \<and> \<not> q y"
    by (cases post rule: rev_cases) (auto simp: since_def)
next
  assume "p y \<or> since p q xs \<and> \<not> q y"
  then show "since p q (xs @ [y])"
  proof
    assume "p y"
    then show ?thesis by (force simp: since_def)
  next
    assume "since p q xs \<and> \<not> q y"
    then obtain pre x post where "xs = pre @ x # post" "p x" "\<forall>z\<in>set post. \<not> q z" "\<not> q y"
      by (auto simp: since_def)
    then have "xs @ [y] = pre @ x # (post @ [y]) \<and> p x \<and> (\<forall>z\<in>set (post @ [y]). \<not> q z)" by simp
    then show ?thesis unfolding since_def by blast
  qed
qed

definition semantic_at :: "instant \<Rightarrow> 'n tracker_op \<Rightarrow> bool" where
  "semantic_at now op = (semantic_op op \<and> (\<exists>endpoint event. op = Observe endpoint event now))"

lemma tracker_after_snoc: "tracker_after (ops @ [op]) = tracker_step op (tracker_after ops)"
  by (simp add: tracker_after_def)

lemmas tracker_ops = commit_transport_def observe_keepalive_def take_health_settle_pending_def
  observe_json_marks marks_def

text \<open>
  The tracker remembers exactly what its history says. After any sequence of operations on a
  fresh tracker, the request may be replayed iff no observed event carried semantic output at
  one of the documented places; it is terminal iff some observed event was; and the flag to
  settle the route's health is raised iff semantic output came after the last time it was taken.
\<close>

theorem tracker_follows_history:
  "(can_replay (tracker_after ops) \<longleftrightarrow> \<not> list_ex semantic_op ops)
   \<and> (sc_terminal_observed (tk_inner (tracker_after ops)) \<longleftrightarrow> list_ex terminal_op ops)
   \<and> (sc_transport_committed (tk_inner (tracker_after ops)) \<longleftrightarrow> CommitTransport \<in> set ops)
   \<and> (sc_last_semantic_at (tk_inner (tracker_after ops)) = Some now
        \<longleftrightarrow> since (semantic_at now) semantic_op ops)
   \<and> (fst (take_health_settle_pending (tracker_after ops))
        \<longleftrightarrow> since semantic_op (\<lambda>op. op = TakeSettle) ops)"
proof (induction ops rule: rev_induct)
  case Nil
  then show ?case
    by (simp add: tracker_after_def tracker_default_def can_replay_def take_health_settle_pending_def)
next
  case (snoc op ops)
  then show ?case
    by (cases op) (auto simp: tracker_after_snoc can_replay_def tracker_ops semantic_at_def)
qed

text \<open>
  The shared deadline bounds every phase. While it has not passed, a phase limit is clipped to
  a wait that respects both the limit and the deadline and is one of the two; from the deadline
  on, every phase is refused with the timeout error. The warning never changes either.
\<close>

theorem deadline_clips_phases:
  "clip (new_with_warn started budget warn) limit now =
    (if now < started + budget then Inr (min (started + budget - now) limit)
     else Inl first_semantic_output_timeout_error)
   \<and> (case clip (new_with_warn started budget warn) limit now of
        Inr wait \<Rightarrow> wait \<le> limit \<and> now + wait \<le> started + budget \<and> (wait = 0 \<longleftrightarrow> limit = 0)
      | Inl e \<Rightarrow> started + budget \<le> now)
   \<and> (should_warn (new_with_warn started budget warn) now \<longleftrightarrow> warn \<noteq> 0 \<and> warn \<le> now - started)"
  by (auto simp: clip_def remaining_def new_with_warn_def should_warn_def elapsed_since_start_def
      saturating_duration_since_def)

end
