(* ===== verification/Runtime_Hints.thy ===== *)
theory Runtime_Hints
  imports Probe_Queue
begin

text \<open>
  Runtime capability hints (\<open>src/src/capabilities/runtime_hints.rs\<close>): a bounded table of observed
  protocol and feature rejections that expire after a time to live, and the snapshot that request
  routing consults. The instant each method reads is an argument.
\<close>

section \<open>Data\<close>

datatype capability =
    TextInput | NonStreamingResponse | ImageHttps | ImageDataUrl | ImageDetail | NativeFileId
  | FunctionTools | NamespaceTools | CustomTools | HostedTools | ParallelToolCalls
  | ForcedToolChoice | ToolContinuation | ReasoningOutput | ReasoningReplay | TextStream
  | ReasoningStream | IndexedToolArgumentStream | UsageStream | StructuredOutput

datatype capability_hint_discriminator =
    FeatureHint capability "string option"
  | ProtocolHint

record capability_hint_key =
  ck_profile :: dialect_profile_key
  ck_discriminator :: capability_hint_discriminator

definition feature :: "dialect_profile_key \<Rightarrow> capability \<Rightarrow> string option \<Rightarrow> capability_hint_key" where
  "feature profile capability v = \<lparr>ck_profile = profile, ck_discriminator = FeatureHint capability v\<rparr>"

definition protocol :: "dialect_profile_key \<Rightarrow> capability_hint_key" where
  "protocol profile = \<lparr>ck_profile = profile, ck_discriminator = ProtocolHint\<rparr>"

record runtime_capability_hint_entry =
  he_configuration_fingerprint :: string
  he_expires_at :: instant

record runtime_capability_hints =
  rh_entries :: "(capability_hint_key, runtime_capability_hint_entry) hashmap"
  rh_capacity :: nat
  rh_ttl :: duration

type_synonym hint_snapshot_map = "(capability_hint_key, string) hashmap"

section \<open>Operations\<close>

definition runtime_capability_hint_capacity :: nat where
  "runtime_capability_hint_capacity = 16384"

definition runtime_capability_hint_ttl :: duration where
  "runtime_capability_hint_ttl = from_secs (15 * 60)"

definition hints_new :: "nat \<Rightarrow> duration \<Rightarrow> runtime_capability_hints" where
  "hints_new capacity ttl =
    \<lparr>rh_entries = [], rh_capacity = max capacity 1, rh_ttl = max ttl (from_secs 1)\<rparr>"

definition hints_default :: runtime_capability_hints where
  "hints_default = hints_new runtime_capability_hint_capacity runtime_capability_hint_ttl"

definition prune_expired :: "runtime_capability_hints \<Rightarrow> instant \<Rightarrow> runtime_capability_hints" where
  "prune_expired h now =
    h\<lparr>rh_entries := hm_retain (\<lambda>_ entry. he_expires_at entry > now) (rh_entries h)\<rparr>"

definition hint_insert ::
  "runtime_capability_hints \<Rightarrow> capability_hint_key \<Rightarrow> string \<Rightarrow> instant \<Rightarrow>
   bool \<times> runtime_capability_hints" where
  "hint_insert h0 key configuration_fingerprint now =
    (let h = prune_expired h0 now;
         entry = \<lparr>he_configuration_fingerprint = configuration_fingerprint,
                  he_expires_at = now + rh_ttl h\<rparr>
     in case map_of (rh_entries h) key of
          Some old \<Rightarrow> (he_configuration_fingerprint old \<noteq> configuration_fingerprint,
                       h\<lparr>rh_entries := AList.update key entry (rh_entries h)\<rparr>)
        | None \<Rightarrow>
            (let kept = (if length (rh_entries h) \<ge> rh_capacity h
                         then (case min_by_key (\<lambda>(_, e). he_expires_at e) (rh_entries h) of
                                 None \<Rightarrow> rh_entries h
                               | Some (oldest, _) \<Rightarrow> AList.delete oldest (rh_entries h))
                         else rh_entries h)
             in (True, h\<lparr>rh_entries := AList.update key entry kept\<rparr>)))"

definition hint_is_active ::
  "runtime_capability_hints \<Rightarrow> capability_hint_key \<Rightarrow> string \<Rightarrow> instant \<Rightarrow>
   bool \<times> runtime_capability_hints" where
  "hint_is_active h0 key configuration_fingerprint now =
    (let h = prune_expired h0 now;
         found = is_some_and (map_of (rh_entries h) key)
                   (\<lambda>entry. he_configuration_fingerprint entry = configuration_fingerprint)
     in (found,
         if \<not> found \<and> is_some_and (map_of (rh_entries h) key)
                         (\<lambda>entry. he_configuration_fingerprint entry \<noteq> configuration_fingerprint)
         then h\<lparr>rh_entries := AList.delete key (rh_entries h)\<rparr> else h))"

definition hint_remove ::
  "runtime_capability_hints \<Rightarrow> capability_hint_key \<Rightarrow> bool \<times> runtime_capability_hints" where
  "hint_remove h key =
    (hm_contains (rh_entries h) key, h\<lparr>rh_entries := AList.delete key (rh_entries h)\<rparr>)"

definition clear_profile ::
  "runtime_capability_hints \<Rightarrow> dialect_profile_key \<Rightarrow> string \<Rightarrow> runtime_capability_hints" where
  "clear_profile h profile configuration_fingerprint =
    h\<lparr>rh_entries := hm_retain (\<lambda>key entry. ck_profile key \<noteq> profile
        \<or> he_configuration_fingerprint entry \<noteq> configuration_fingerprint) (rh_entries h)\<rparr>"

definition clear_features_for_success ::
  "runtime_capability_hints \<Rightarrow> dialect_profile_key \<Rightarrow> string \<Rightarrow> capability set \<Rightarrow> string option \<Rightarrow>
   runtime_capability_hints" where
  "clear_features_for_success h profile configuration_fingerprint capabilities requested_value =
    h\<lparr>rh_entries := hm_retain (\<lambda>key entry.
        if ck_profile key \<noteq> profile \<or> he_configuration_fingerprint entry \<noteq> configuration_fingerprint
        then True
        else case ck_discriminator key of
               FeatureHint capability v \<Rightarrow>
                 if capability \<in> capabilities then v \<noteq> requested_value else True
             | ProtocolHint \<Rightarrow> True) (rh_entries h)\<rparr>"

definition clear_after_conclusive_probe ::
  "runtime_capability_hints \<Rightarrow> dialect_profile_key \<Rightarrow> string \<Rightarrow> capability set \<Rightarrow>
   runtime_capability_hints" where
  "clear_after_conclusive_probe h profile configuration_fingerprint capabilities =
    h\<lparr>rh_entries := hm_retain (\<lambda>key entry.
        if ck_profile key \<noteq> profile \<or> he_configuration_fingerprint entry \<noteq> configuration_fingerprint
        then True
        else case ck_discriminator key of
               ProtocolHint \<Rightarrow> False
             | FeatureHint capability _ \<Rightarrow> capability \<notin> capabilities) (rh_entries h)\<rparr>"

definition retain_current ::
  "runtime_capability_hints \<Rightarrow> (capability_hint_key \<Rightarrow> string \<Rightarrow> bool) \<Rightarrow> instant \<Rightarrow>
   runtime_capability_hints" where
  "retain_current h0 is_current now =
    (let h = prune_expired h0 now
     in h\<lparr>rh_entries := hm_retain (\<lambda>key entry. is_current key (he_configuration_fingerprint entry))
            (rh_entries h)\<rparr>)"

definition hint_snapshot ::
  "runtime_capability_hints \<Rightarrow> instant \<Rightarrow> hint_snapshot_map \<times> runtime_capability_hints" where
  "hint_snapshot h0 now =
    (let h = prune_expired h0 now
     in (map (\<lambda>(key, entry). (key, he_configuration_fingerprint entry)) (rh_entries h), h))"

definition blocks_protocol :: "hint_snapshot_map \<Rightarrow> dialect_profile_key \<Rightarrow> string \<Rightarrow> bool" where
  "blocks_protocol entries profile configuration_fingerprint =
    list_ex (\<lambda>(key, fingerprint). ck_profile key = profile \<and> fingerprint = configuration_fingerprint
        \<and> ck_discriminator key = ProtocolHint) entries"

definition blocked_feature ::
  "dialect_profile_key \<Rightarrow> string \<Rightarrow> string option \<Rightarrow> capability_hint_key \<times> string \<Rightarrow>
   (capability \<times> string option) option" where
  "blocked_feature profile configuration_fingerprint requested_value kf =
    (if ck_profile (fst kf) \<noteq> profile \<or> snd kf \<noteq> configuration_fingerprint then None
     else case ck_discriminator (fst kf) of
            FeatureHint capability v \<Rightarrow>
              if is_none_or v (\<lambda>w. Some w = requested_value) then Some (capability, v) else None
          | ProtocolHint \<Rightarrow> None)"

definition blocked_features ::
  "hint_snapshot_map \<Rightarrow> dialect_profile_key \<Rightarrow> string \<Rightarrow> string option \<Rightarrow>
   (capability \<times> string option) list" where
  "blocked_features entries profile configuration_fingerprint requested_value =
    List.map_filter (blocked_feature profile configuration_fingerprint requested_value) entries"

section \<open>The table is sound\<close>

definition hints_inv :: "runtime_capability_hints \<Rightarrow> bool" where
  "hints_inv h = (hm_ok (rh_entries h) \<and> length (rh_entries h) \<le> rh_capacity h
     \<and> 0 < rh_capacity h \<and> 0 < rh_ttl h)"

datatype hint_op =
    HintInsert capability_hint_key string instant
  | HintIsActive capability_hint_key string instant
  | HintRemove capability_hint_key
  | HintClearProfile dialect_profile_key string
  | HintClearSuccess dialect_profile_key string "capability set" "string option"
  | HintClearProbe dialect_profile_key string "capability set"
  | HintRetain "capability_hint_key \<Rightarrow> string \<Rightarrow> bool" instant
  | HintSnapshot instant

fun hint_apply :: "hint_op \<Rightarrow> runtime_capability_hints \<Rightarrow> runtime_capability_hints" where
  "hint_apply (HintInsert key fp now) h = snd (hint_insert h key fp now)"
| "hint_apply (HintIsActive key fp now) h = snd (hint_is_active h key fp now)"
| "hint_apply (HintRemove key) h = snd (hint_remove h key)"
| "hint_apply (HintClearProfile profile fp) h = clear_profile h profile fp"
| "hint_apply (HintClearSuccess profile fp caps v) h = clear_features_for_success h profile fp caps v"
| "hint_apply (HintClearProbe profile fp caps) h = clear_after_conclusive_probe h profile fp caps"
| "hint_apply (HintRetain is_current now) h = retain_current h is_current now"
| "hint_apply (HintSnapshot now) h = snd (hint_snapshot h now)"

inductive hint_init :: "runtime_capability_hints \<Rightarrow> bool" where
  "hint_init (hints_new capacity ttl)"

inductive hint_step :: "hint_op \<Rightarrow> runtime_capability_hints \<Rightarrow> runtime_capability_hints \<Rightarrow> bool" where
  "hint_step op h (hint_apply op h)"

inductive_simps hint_init_simps: "hint_init h"
inductive_simps hint_step_simps: "hint_step op h h'"

lemma hints_inv_retain:
  "hints_inv h \<Longrightarrow> hints_inv (h\<lparr>rh_entries := hm_retain p (rh_entries h)\<rparr>)"
  using length_hm_retain_le [of p "rh_entries h"] by (simp add: hints_inv_def)

lemma hints_inv_delete:
  "hints_inv h \<Longrightarrow> hints_inv (h\<lparr>rh_entries := AList.delete key (rh_entries h)\<rparr>)"
  using length_delete_le [of key "rh_entries h"] by (simp add: hints_inv_def)

lemma hints_inv_prune: "hints_inv h \<Longrightarrow> hints_inv (prune_expired h now)"
  by (simp add: prune_expired_def hints_inv_retain)

lemmas retaining = clear_profile_def clear_features_for_success_def clear_after_conclusive_probe_def
  retain_current_def hint_snapshot_def hint_remove_def hint_is_active_def Let_def

section \<open>Lookups\<close>

definition live :: "runtime_capability_hints \<Rightarrow> instant \<Rightarrow> capability_hint_key \<Rightarrow>
    runtime_capability_hint_entry option" where
  "live h now key = filter_option (\<lambda>e. now < he_expires_at e) (map_of (rh_entries h) key)"

lemma live_prune: "hints_inv h \<Longrightarrow> map_of (rh_entries (prune_expired h now)) key = live h now key"
  by (auto simp: live_def prune_expired_def hints_inv_def map_of_hm_retain filter_option_def split: option.split)

lemma prune_frame [simp]:
  "rh_capacity (prune_expired h now) = rh_capacity h" "rh_ttl (prune_expired h now) = rh_ttl h"
  by (simp_all add: prune_expired_def)

lemma is_active_live:
  "hints_inv h \<Longrightarrow> fst (hint_is_active h key fp now) \<longleftrightarrow>
    is_some_and (live h now key) (\<lambda>e. he_configuration_fingerprint e = fp)"
  by (simp add: hint_is_active_def Let_def live_prune)

text \<open>The entries an insertion keeps of the pruned table: all, or all but one that expires first.\<close>

definition kept_entries :: "runtime_capability_hints \<Rightarrow> capability_hint_key \<Rightarrow>
    (capability_hint_key, runtime_capability_hint_entry) hashmap" where
  "kept_entries h key =
    (if map_of (rh_entries h) key = None \<and> length (rh_entries h) \<ge> rh_capacity h
     then (case min_by_key (\<lambda>(_, e). he_expires_at e) (rh_entries h) of
             None \<Rightarrow> rh_entries h
           | Some (oldest, _) \<Rightarrow> AList.delete oldest (rh_entries h))
     else rh_entries h)"

lemma hint_insert_kept:
  assumes "hints_inv h"
  shows "hint_insert h key fp now =
    (\<not> fst (hint_is_active h key fp now),
     h\<lparr>rh_entries := AList.update key \<lparr>he_configuration_fingerprint = fp, he_expires_at = now + rh_ttl h\<rparr>
        (kept_entries (prune_expired h now) key)\<rparr>)"
proof (cases "live h now key")
  case None
  with assms show ?thesis
    by (simp add: hint_insert_def Let_def kept_entries_def live_prune is_active_live)
next
  case (Some e)
  with assms show ?thesis
    by (simp add: hint_insert_def Let_def kept_entries_def live_prune is_active_live)
qed

lemma kept_entries_victim:
  assumes "hints_inv h"
  shows "\<exists>victim. (\<forall>k. map_of (kept_entries h key) k = (if victim = Some k then None else map_of (rh_entries h) k))
    \<and> (\<forall>k. victim = Some k \<longrightarrow> rh_capacity h \<le> length (rh_entries h)
       \<and> (\<exists>e. map_of (rh_entries h) k = Some e
            \<and> (\<forall>k' e'. map_of (rh_entries h) k' = Some e' \<longrightarrow> he_expires_at e \<le> he_expires_at e')))"
proof (cases "map_of (rh_entries h) key = None \<and> length (rh_entries h) \<ge> rh_capacity h")
  case full: True
  obtain oldest e where m: "min_by_key (\<lambda>(_, e). he_expires_at e) (rh_entries h) = Some (oldest, e)"
    using full assms by (cases "min_by_key (\<lambda>(_, e). he_expires_at e) (rh_entries h)") (auto simp: hints_inv_def)
  then have k: "kept_entries h key = AList.delete oldest (rh_entries h)"
    using full by (simp add: kept_entries_def)
  have "map_of (rh_entries h) oldest = Some e"
    using min_by_key_SomeD [OF m] assms by (auto simp: hints_inv_def hm_ok_def map_of_is_SomeI)
  moreover have "he_expires_at e \<le> he_expires_at e'" if "map_of (rh_entries h) k' = Some e'" for k' e'
    using min_by_key_SomeD [OF m] map_of_SomeD [OF that] by auto
  ultimately show ?thesis
    by (intro exI [of _ "Some oldest"]) (auto simp: k full)
next
  case False
  then show ?thesis by (intro exI [of _ None]) (auto simp: kept_entries_def)
qed

lemma kept_entries_room:
  assumes "hints_inv h"
  shows "hm_ok (kept_entries h key)
    \<and> length (AList.update key e (kept_entries h key)) \<le> rh_capacity h"
proof (cases "map_of (rh_entries h) key = None \<and> length (rh_entries h) \<ge> rh_capacity h")
  case full: True
  obtain oldest e' where m: "min_by_key (\<lambda>(_, e). he_expires_at e) (rh_entries h) = Some (oldest, e')"
    using full assms by (cases "min_by_key (\<lambda>(_, e). he_expires_at e) (rh_entries h)") (auto simp: hints_inv_def)
  have mem: "oldest \<in> set (map fst (rh_entries h))" and d: "distinct (map fst (rh_entries h))"
    using min_by_key_SomeD [OF m] assms by (force simp: hints_inv_def hm_ok_def)+
  have "Suc (length (AList.delete oldest (rh_entries h))) = length (rh_entries h)"
    using filter_delete_distinct [OF d mem, of "\<lambda>_. True"]
    by (simp flip: map_fst_delete)
  with m full assms show ?thesis
    by (simp add: kept_entries_def hints_inv_def length_update)
next
  case False
  with assms show ?thesis
    by (auto simp: kept_entries_def hints_inv_def length_update)
qed

lemma hints_inv_insert:
  assumes "hints_inv h"
  shows "hints_inv (snd (hint_insert h key fp now))"
  using kept_entries_room [OF hints_inv_prune [OF assms, of now], of key] assms
  by (simp add: hint_insert_kept hints_inv_def)

interpretation hints: invariant_system hint_init hint_step hints_inv
proof
  show "hints_inv h" if "hint_init h" for h
    using that by (auto simp: hint_init_simps hints_inv_def hints_new_def from_secs_def)
next
  fix h op h'
  assume inv: "hints_inv h" and step: "hint_step op h h'"
  have "hints_inv (hint_apply op h)"
  proof (cases op)
    case (HintInsert key fp now)
    then show ?thesis using hints_inv_insert [OF inv] by simp
  next
    case (HintIsActive key fp now)
    then show ?thesis
      using hints_inv_prune [OF inv, of now]
      by (simp add: hint_is_active_def Let_def hints_inv_delete)
  qed (use inv hints_inv_prune [OF inv] in \<open>auto simp: retaining intro!: hints_inv_retain hints_inv_delete\<close>)
  with step show "hints_inv h'" by (simp add: hint_step_simps)
qed

section \<open>Properties\<close>

text \<open>
  Recording a hint in a reachable table takes effect until its time to live has passed and no
  longer, for the recorded configuration only; the table stays within its capacity; the answer
  says whether the hint was news; and no other live hint is lost, except that a full table gives
  up one hint that expires first.
\<close>

theorem hint_insert_spec:
  assumes "reachable hint_init hint_step h" and "hint_insert h key fp now = (changed, h')"
  shows "length (rh_entries h') \<le> rh_capacity h'
    \<and> (changed \<longleftrightarrow> \<not> fst (hint_is_active h key fp now))
    \<and> (fst (hint_is_active h' key fp' t) \<longleftrightarrow> fp' = fp \<and> t < now + rh_ttl h)
    \<and> (\<exists>victim. (\<forall>k. k \<noteq> key \<and> victim \<noteq> Some k \<longrightarrow> live h' now k = live h now k)
         \<and> (\<forall>k. victim = Some k \<longrightarrow> rh_capacity h \<le> length (rh_entries h)
              \<and> (\<exists>e. live h now k = Some e
                   \<and> (\<forall>k' e'. live h now k' = Some e' \<longrightarrow> he_expires_at e \<le> he_expires_at e'))))"
proof -
  have inv: "hints_inv h" using assms(1) by (rule hints.reachable_inv)
  let ?e = "\<lparr>he_configuration_fingerprint = fp, he_expires_at = now + rh_ttl h\<rparr>"
    and ?p = "prune_expired h now"
  have h': "h' = h\<lparr>rh_entries := AList.update key ?e (kept_entries ?p key)\<rparr>"
    and changed: "changed \<longleftrightarrow> \<not> fst (hint_is_active h key fp now)"
    using assms(2) by (simp_all add: hint_insert_kept [OF inv])
  have inv': "hints_inv h'" using hints_inv_insert [OF inv, of key fp now] assms(2) by simp
  obtain victim where v: "\<And>k. map_of (kept_entries ?p key) k = (if victim = Some k then None else live h now k)"
    and full: "\<And>k. victim = Some k \<Longrightarrow> rh_capacity h \<le> length (rh_entries ?p)
       \<and> (\<exists>e. live h now k = Some e
            \<and> (\<forall>k' e'. live h now k' = Some e' \<longrightarrow> he_expires_at e \<le> he_expires_at e'))"
    using kept_entries_victim [OF hints_inv_prune [OF inv, of now], of key, unfolded live_prune [OF inv] prune_frame] by blast
  have "length (rh_entries ?p) \<le> length (rh_entries h)"
    by (simp add: prune_expired_def length_hm_retain_le)
  then have victim: "victim = Some k \<Longrightarrow> rh_capacity h \<le> length (rh_entries h)
      \<and> (\<exists>e. live h now k = Some e \<and> (\<forall>k' e'. live h now k' = Some e' \<longrightarrow> he_expires_at e \<le> he_expires_at e'))" for k
    using full [of k] by auto
  have others: "live h' now k = live h now k" if "k \<noteq> key" "victim \<noteq> Some k" for k
    using that by (auto simp: live_def [of h'] h' v filter_option_def live_def split: option.splits)
  have mine: "fst (hint_is_active h' key fp' t) \<longleftrightarrow> fp' = fp \<and> t < now + rh_ttl h"
    unfolding is_active_live [OF inv'] by (auto simp: live_def h' filter_option_def)
  have "length (rh_entries h') \<le> rh_capacity h'" using inv' by (simp add: hints_inv_def)
  then show ?thesis
    using changed mine others victim by (intro conjI exI [of _ victim]) blast+
qed

text \<open>A table of one place: recording a second hint drops the first.\<close>

definition sample_profile :: dialect_profile_key where
  "sample_profile = \<lparr>dk_upstream_id = ''u'', dk_key_fingerprint = ''k'', dk_runtime_model_slug = ''m'',
     dk_protocol = ChatCompletions\<rparr>"

theorem hint_insert_spec_witness:
  "reachable hint_init hint_step (hints_new 1 0)
   \<and> fst (hint_is_active (snd (hint_insert (hints_new 1 0) (protocol sample_profile) ''f'' 7))
        (protocol sample_profile) ''f'' 8)"
proof -
  have r: "reachable hint_init hint_step (hints_new 1 0)"
    by (rule reach_init) (rule hint_init.intros)
  obtain changed h where i: "hint_insert (hints_new 1 0) (protocol sample_profile) ''f'' 7 = (changed, h)"
    by fastforce
  show ?thesis
    using hint_insert_spec [OF r i, of "''f''" 8] r i by (simp add: hints_new_def from_secs_def)
qed

lemma protocol_key_iff: "key = protocol profile \<longleftrightarrow> ck_profile key = profile \<and> ck_discriminator key = ProtocolHint"
  by (cases key) (auto simp: protocol_def)

lemma feature_key_iff: "key = feature profile c v \<longleftrightarrow> ck_profile key = profile \<and> ck_discriminator key = FeatureHint c v"
  by (cases key) (auto simp: feature_def)

lemma map_filter_single:
  "(\<And>x. f x = Some y \<longleftrightarrow> q \<and> x = a) \<Longrightarrow> y \<in> set (List.map_filter f xs) \<longleftrightarrow> q \<and> a \<in> set xs"
proof -
  assume single: "\<And>x. f x = Some y \<longleftrightarrow> q \<and> x = a"
  have "y \<in> set (List.map_filter f xs) \<longleftrightarrow> (\<exists>x\<in>set xs. f x = Some y)"
    by (induction xs) (auto simp: List.map_filter_simps split: option.splits)
  then show ?thesis unfolding single by blast
qed

lemma list_ex_single: "(\<And>x. p x \<longleftrightarrow> x = a) \<Longrightarrow> list_ex p xs \<longleftrightarrow> a \<in> set xs"
  by (auto simp: list_ex_iff)

lemma snapshot_mem:
  assumes "hints_inv h"
  shows "(key, fp) \<in> set (fst (hint_snapshot h now)) \<longleftrightarrow> fst (hint_is_active h key fp now)"
proof -
  have "distinct (map fst (rh_entries (prune_expired h now)))"
    using hints_inv_prune [OF assms] by (simp add: hints_inv_def hm_ok_def)
  then have "(key, e) \<in> set (rh_entries (prune_expired h now)) \<longleftrightarrow> live h now key = Some e" for e
    by (simp add: live_prune [OF assms] flip: map_of_eq_Some_iff)
  then show ?thesis
    by (force simp: hint_snapshot_def Let_def is_active_live [OF assms] is_some_and_iff image_iff)
qed

text \<open>
  A snapshot answers as the table would: it blocks a protocol iff the protocol hint is active
  for the configuration, and it lists a feature as blocked for a requested value iff a hint for
  that feature is active, either for every value or for the requested one.
\<close>

theorem snapshot_agrees_with_lookup:
  assumes "reachable hint_init hint_step h"
  shows "(blocks_protocol (fst (hint_snapshot h now)) profile fp
      \<longleftrightarrow> fst (hint_is_active h (protocol profile) fp now))
    \<and> ((c, v) \<in> set (blocked_features (fst (hint_snapshot h now)) profile fp requested)
      \<longleftrightarrow> (v = None \<or> v = requested) \<and> fst (hint_is_active h (feature profile c v) fp now))"
proof -
  have inv: "hints_inv h" using assms by (rule hints.reachable_inv)
  let ?s = "fst (hint_snapshot h now)"
  have "blocks_protocol ?s profile fp \<longleftrightarrow> (protocol profile, fp) \<in> set ?s"
  proof -
    have "(case kf of (key, fingerprint) \<Rightarrow> ck_profile key = profile \<and> fingerprint = fp
        \<and> ck_discriminator key = ProtocolHint) \<longleftrightarrow> kf = (protocol profile, fp)" for kf
      by (cases kf) (auto simp: protocol_key_iff)
    then show ?thesis unfolding blocks_protocol_def by (rule list_ex_single)
  qed
  moreover have "(c, v) \<in> set (blocked_features ?s profile fp requested) \<longleftrightarrow>
      (v = None \<or> v = requested) \<and> (feature profile c v, fp) \<in> set ?s"
  proof -
    have "blocked_feature profile fp requested kf = Some (c, v) \<longleftrightarrow>
        (v = None \<or> v = requested) \<and> kf = (feature profile c v, fp)" for kf
      by (cases kf; cases v)
        (auto simp: blocked_feature_def feature_key_iff is_none_or_iff split: capability_hint_discriminator.splits)
    then show ?thesis
      unfolding blocked_features_def by (rule map_filter_single)
  qed
  ultimately show ?thesis by (simp add: snapshot_mem [OF inv])
qed

theorem snapshot_agrees_with_lookup_witness:
  "blocks_protocol (fst (hint_snapshot (snd (hint_insert (hints_new 1 0) (protocol sample_profile) ''f'' 7)) 8))
     sample_profile ''f''"
proof -
  let ?h = "snd (hint_insert (hints_new 1 0) (protocol sample_profile) ''f'' 7)"
  have "reachable hint_init hint_step ?h"
  proof (rule reach_step)
    show "reachable hint_init hint_step (hints_new 1 0)" by (rule reach_init) (rule hint_init.intros)
    show "hint_step (HintInsert (protocol sample_profile) ''f'' 7) (hints_new 1 0) ?h"
      by (simp add: hint_step_simps)
  qed
  from snapshot_agrees_with_lookup [OF this, of 8 sample_profile "''f''"] show ?thesis
    by (simp add: hint_insert_def hint_is_active_def hints_new_def prune_expired_def Let_def from_secs_def
        hm_retain_def)
qed

end
