(* ===== verification/Sse_Decoder.thy ===== *)
theory Sse_Decoder
  imports Rust_Strings
begin

text \<open>
  The incremental decoder of server-sent events (\<open>SseDecoder\<close> and \<open>parse_sse_event\<close> of
  \<open>src/src/protocol/stream_aggregate.rs\<close>): bytes arrive in chunks of any size, frames end at a
  blank line, and limits bound a frame and the whole stream. The decoder keeps its buffer, how
  much of it is consumed and how far it has been scanned, so that no byte is looked at twice.
  Slices panic out of range, as in Rust; the counters under \<open>cfg(test)\<close> are left out.
\<close>

section \<open>Errors and events\<close>

datatype upstream_stream_error_kind = Decode | LimitExceeded | UpstreamEvent | Incomplete

datatype protocol_error =
    CapabilityUnsupported
  | EncryptedAgentMessageUnsupported
  | InvalidPayload string
  | InvalidUpstreamStream upstream_stream_error_kind string
  | MissingField string
  | UnsupportedImageSource

definition invalid_stream :: "upstream_stream_error_kind \<Rightarrow> string \<Rightarrow> protocol_error" where
  "invalid_stream kind message = InvalidUpstreamStream kind message"

record sse_event =
  ev_event_type :: "string option"
  ev_data :: string

definition max_stream_aggregate_frame_bytes :: nat where
  "max_stream_aggregate_frame_bytes = 1024 * 1024"

definition max_stream_aggregate_total_bytes :: nat where
  "max_stream_aggregate_total_bytes = 16 * 1024 * 1024"

section \<open>Parsing a frame\<close>

abbreviation newline :: char where "newline \<equiv> CHR 0x0A"
abbreviation carriage_return :: char where "carriage_return \<equiv> CHR 0x0D"

definition parse_line :: "string \<Rightarrow> string option \<times> string list \<Rightarrow> string option \<times> string list" where
  "parse_line raw_line acc =
    (let line = unwrap_or (strip_suffix_char carriage_return raw_line) raw_line in
     if line = [] \<or> prefix '':'' line then acc
     else let (field, raw_value) = unwrap_or (split_once (CHR '':'') line) (line, []);
              val = unwrap_or (strip_prefix_char (CHR '' '') raw_value) raw_value
          in if field = ''event'' then (Some val, snd acc)
             else if field = ''data'' then (fst acc, snd acc @ [val])
             else acc)"

definition parse_sse_event :: "string \<Rightarrow> protocol_error + sse_event option" where
  "parse_sse_event frame =
    (if \<not> utf8_valid frame then Inl (invalid_stream Decode ''frame is not valid UTF-8'')
     else let (event_type, data_lines) = fold parse_line (split_on newline frame) (None, [])
          in if data_lines = [] \<and> event_type = None then Inr None
             else Inr (Some \<lparr>ev_event_type = event_type, ev_data = join [newline] data_lines\<rparr>))"

section \<open>The decoder\<close>

record sse_decoder =
  de_buffer :: string
  de_consumed_offset :: nat
  de_scan_cursor :: nat
  de_total_bytes :: nat
  de_finished :: bool

definition decoder_new :: sse_decoder where
  "decoder_new = \<lparr>de_buffer = [], de_consumed_offset = 0, de_scan_cursor = 0, de_total_bytes = 0,
     de_finished = False\<rparr>"

definition compact :: "sse_decoder \<Rightarrow> sse_decoder" where
  "compact d =
    (if de_consumed_offset d = 0 then d
     else d\<lparr>de_buffer := drop (de_consumed_offset d) (de_buffer d),
            de_scan_cursor := de_scan_cursor d - de_consumed_offset d,
            de_consumed_offset := 0\<rparr>)"

definition append_chunk :: "sse_decoder \<Rightarrow> string \<Rightarrow> (protocol_error + unit) \<times> sse_decoder" where
  "append_chunk d chunk =
    (if chunk = [] then (Inr (), d)
     else if de_finished d then (Inl (invalid_stream Decode ''received bytes after EOF''), d)
     else if de_total_bytes d + length chunk > max_stream_aggregate_total_bytes
     then (Inl (invalid_stream LimitExceeded ''total byte limit exceeded''), d)
     else let d1 = compact (d\<lparr>de_total_bytes := de_total_bytes d + length chunk\<rparr>)
          in (Inr (), d1\<lparr>de_buffer := de_buffer d1 @ chunk\<rparr>))"

definition decoder_finish :: "sse_decoder \<Rightarrow> sse_decoder" where
  "decoder_finish d = d\<lparr>de_finished := True\<rparr>"

definition crlf_delimiter :: string where
  "crlf_delimiter = [carriage_return, newline, carriage_return, newline]"

datatype scan_action = Boundary nat | Await | Advance

definition inspect :: "string \<Rightarrow> scan_action" where
  "inspect remaining =
    (if hd remaining = newline
     then if length remaining < 2 then Await
          else if prefix [newline, newline] remaining then Boundary 2 else Advance
     else if hd remaining = carriage_return
     then if prefix crlf_delimiter remaining then Boundary (length crlf_delimiter)
          else if length remaining < length crlf_delimiter \<and> prefix remaining crlf_delimiter then Await
          else Advance
     else Advance)"

function scan_from :: "string \<Rightarrow> nat \<Rightarrow> (nat \<times> nat) option \<times> nat" where
  "scan_from buffer cursor =
    (if cursor < length buffer
     then case inspect (drop cursor buffer) of
            Boundary n \<Rightarrow> (Some (cursor, n), cursor)
          | Await \<Rightarrow> (None, cursor)
          | Advance \<Rightarrow> scan_from buffer (cursor + 1)
     else (None, cursor))"
  by pat_completeness auto
termination
  by (relation "measure (\<lambda>(buffer, cursor). length buffer - cursor)") auto

declare scan_from.simps [simp del]

definition next_frame_boundary :: "sse_decoder \<Rightarrow> (nat \<times> nat) option \<times> sse_decoder" where
  "next_frame_boundary d =
    (let (found, cursor) = scan_from (de_buffer d) (de_scan_cursor d)
     in (found, d\<lparr>de_scan_cursor := cursor\<rparr>))"

definition byte_range :: "string \<Rightarrow> nat \<Rightarrow> nat \<Rightarrow> string outcome_or_panic" where
  "byte_range s a b = (if a \<le> b \<and> b \<le> length s then Inr (drop a (take b s))
     else Inl (Panic ''range out of bounds''))"

lemma scan_from_found:
  "scan_from buffer cursor = (Some (f, n), cursor') \<Longrightarrow> cursor \<le> f \<and> f < length buffer \<and> 0 < n \<and> cursor' = f"
  by (induction buffer cursor rule: scan_from.induct)
    (subst (asm) (2) scan_from.simps, auto simp: inspect_def crlf_delimiter_def split: if_splits scan_action.splits)

text \<open>The loop of \<open>next_event\<close>: frames without an event are skipped.\<close>

definition frame_limit_exceeded :: protocol_error where
  "frame_limit_exceeded = invalid_stream LimitExceeded ''frame byte limit exceeded''"

definition drain_pending ::
  "sse_decoder \<Rightarrow> ((protocol_error + sse_event option) \<times> sse_decoder) outcome_or_panic" where
  "drain_pending d =
    (let pending_bytes = length (de_buffer d) - de_consumed_offset d in
     if pending_bytes > max_stream_aggregate_frame_bytes then Inr (Inl frame_limit_exceeded, d)
     else if de_finished d \<and> pending_bytes > 0
     then bind_ok (byte_range (de_buffer d) (de_consumed_offset d) (length (de_buffer d))) (\<lambda>frame.
            case parse_sse_event frame of
              Inl e \<Rightarrow> Inr (Inl e, d)
            | Inr event \<Rightarrow> Inr (Inr event, d\<lparr>de_consumed_offset := length (de_buffer d),
                                           de_scan_cursor := length (de_buffer d)\<rparr>))
     else Inr (Inr None, d))"

function next_event ::
  "sse_decoder \<Rightarrow> ((protocol_error + sse_event option) \<times> sse_decoder) outcome_or_panic" where
  "next_event d0 =
    (let (found, d) = next_frame_boundary d0 in
     case found of
       None \<Rightarrow> drain_pending d
     | Some (frame_end, delimiter_len) \<Rightarrow>
         (let consumed = frame_end + delimiter_len in
          if consumed - de_consumed_offset d > max_stream_aggregate_frame_bytes
          then Inr (Inl frame_limit_exceeded, d)
          else case byte_range (de_buffer d) (de_consumed_offset d) frame_end of
                 Inl p \<Rightarrow> Inl p
               | Inr frame \<Rightarrow>
                   (case parse_sse_event frame of
                      Inl e \<Rightarrow> Inr (Inl e, d)
                    | Inr None \<Rightarrow> next_event (d\<lparr>de_consumed_offset := consumed, de_scan_cursor := consumed\<rparr>)
                    | Inr (Some event) \<Rightarrow>
                        Inr (Inr (Some event),
                             d\<lparr>de_consumed_offset := consumed, de_scan_cursor := consumed\<rparr>))))"
  by pat_completeness auto
termination
proof (relation "measure (\<lambda>d. length (de_buffer d) - de_scan_cursor d)", goal_cases)
  case 1
  then show ?case by simp
next
  case (2 d0 x found d y frame_end delimiter_len consumed frame z)
  then have "scan_from (de_buffer d0) (de_scan_cursor d0) = (Some (frame_end, delimiter_len), de_scan_cursor d)"
    and "de_buffer d = de_buffer d0"
    by (auto simp: next_frame_boundary_def split: prod.splits)
  with scan_from_found [OF this(1)] 2 show ?case by auto
qed

declare next_event.simps [simp del]

lemma byte_range_ok: "byte_range s a b = Inr x \<Longrightarrow> a \<le> b \<and> b \<le> length s"
  by (simp add: byte_range_def split: if_splits)

lemma next_frame_boundary_eq:
  "next_frame_boundary d =
    (fst (scan_from (de_buffer d) (de_scan_cursor d)),
     d\<lparr>de_scan_cursor := snd (scan_from (de_buffer d) (de_scan_cursor d))\<rparr>)"
  by (simp add: next_frame_boundary_def case_prod_unfold Let_def)

definition pending :: "sse_decoder \<Rightarrow> string" where
  "pending d = drop (de_consumed_offset d) (de_buffer d)"

lemma drain_pending_eq:
  "drain_pending d =
    (if length (pending d) > max_stream_aggregate_frame_bytes then Inr (Inl frame_limit_exceeded, d)
     else if de_finished d \<and> pending d \<noteq> []
     then (case parse_sse_event (pending d) of
             Inl e \<Rightarrow> Inr (Inl e, d)
           | Inr event \<Rightarrow> Inr (Inr event, d\<lparr>de_consumed_offset := length (de_buffer d),
                                          de_scan_cursor := length (de_buffer d)\<rparr>))
     else Inr (Inr None, d))"
  by (simp add: drain_pending_def pending_def byte_range_def Let_def)

lemma next_event_progress:
  "next_event d = Inr (Inr (Some e), d') \<Longrightarrow>
    de_buffer d' = de_buffer d \<and> de_consumed_offset d < de_consumed_offset d'
    \<and> de_consumed_offset d < length (de_buffer d)"
proof (induction d rule: next_event.induct)
  case (1 d)
  obtain found cursor where scan: "scan_from (de_buffer d) (de_scan_cursor d) = (found, cursor)" by fastforce
  then have nb: "next_frame_boundary d = (found, d\<lparr>de_scan_cursor := cursor\<rparr>)"
    by (simp add: next_frame_boundary_eq)
  show ?case
  proof (cases found)
    case None
    then show ?thesis
      using 1(2) nb by (auto simp: next_event.simps [of d] drain_pending_eq pending_def
          split: if_splits sum.split_asm)
  next
    case (Some fn)
    obtain f n where fn: "fn = (f, n)" by (cases fn)
    have pos: "f < length (de_buffer d)" "0 < n" using scan_from_found scan Some fn by blast+
    show ?thesis
    proof (cases "byte_range (de_buffer d) (de_consumed_offset d) f")
      case (Inl p)
      with 1(2) nb Some fn show ?thesis by (simp add: next_event.simps [of d] Let_def split: if_splits)
    next
      case (Inr frame)
      have IH: "next_event (d\<lparr>de_consumed_offset := f + n, de_scan_cursor := f + n\<rparr>) = Inr (Inr (Some e), d') \<Longrightarrow>
          de_buffer d' = de_buffer d \<and> f + n < de_consumed_offset d'"
        if "parse_sse_event frame = Inr None" "f + n - de_consumed_offset d \<le> max_stream_aggregate_frame_bytes"
        using 1(1) [OF nb [symmetric] refl Some fn [symmetric] refl] that Inr by auto
      show ?thesis
        using 1(2) nb Some fn pos Inr IH byte_range_ok [OF Inr]
        by (auto simp: next_event.simps [of d] Let_def split: if_splits sum.split_asm option.split_asm)
    qed
  qed
qed

text \<open>
  The loop in which every user of the decoder takes its events, \<open>while let Some(event) =
  decoder.next_event()?\<close>: the events up to the first error, that error, and the decoder left.
\<close>

function drain :: "sse_decoder \<Rightarrow> (sse_event list \<times> protocol_error option \<times> sse_decoder) outcome_or_panic" where
  "drain d =
    (case next_event d of
       Inl p \<Rightarrow> Inl p
     | Inr (Inl e, d') \<Rightarrow> Inr ([], Some e, d')
     | Inr (Inr None, d') \<Rightarrow> Inr ([], None, d')
     | Inr (Inr (Some event), d') \<Rightarrow>
         bind_ok (drain d') (\<lambda>(events, err, d''). Inr (event # events, err, d'')))"
  by pat_completeness auto
termination
  by (relation "measure (\<lambda>d. length (de_buffer d) - de_consumed_offset d)")
    (auto dest!: next_event_progress)

declare drain.simps [simp del]

text \<open>A whole stream: each chunk is appended and drained, then the end of input is drained.\<close>

fun read_stream :: "sse_decoder \<Rightarrow> string list \<Rightarrow> (sse_event list \<times> protocol_error option) outcome_or_panic" where
  "read_stream d [] =
    bind_ok (drain (decoder_finish d)) (\<lambda>(events, err, _). Inr (events, err))"
| "read_stream d (chunk # chunks) =
    (case append_chunk d chunk of
       (Inl e, _) \<Rightarrow> Inr ([], Some e)
     | (Inr _, d1) \<Rightarrow>
         bind_ok (drain d1) (\<lambda>(events, err, d2).
           case err of
             Some e \<Rightarrow> Inr (events, Some e)
           | None \<Rightarrow> bind_ok (read_stream d2 chunks) (\<lambda>(more, err). Inr (events @ more, err))))"

section \<open>The reference: frames of a byte sequence\<close>

text \<open>The first blank line: where it starts and how long it is.\<close>

fun boundary :: "string \<Rightarrow> (nat \<times> nat) option" where
  "boundary [] = None"
| "boundary (c # s) =
    (if prefix [newline, newline] (c # s) then Some (0, 2)
     else if prefix crlf_delimiter (c # s) then Some (0, 4)
     else map_option (\<lambda>(i, n). (i + 1, n)) (boundary s))"

lemma boundary_bounds: "boundary s = Some (i, n) \<Longrightarrow> i + n \<le> length s \<and> 0 < n"
  by (induction s arbitrary: i) (auto simp: crlf_delimiter_def prefix_def split: if_splits)

text \<open>
  A stream is a sequence of frames ended by blank lines. Each frame is parsed in turn, up to the
  first one that is too long or malformed; what follows the last blank line is a frame only at
  the end of the input.
\<close>

definition events_of :: "sse_event option \<Rightarrow> sse_event list" where
  "events_of v = (case v of None \<Rightarrow> [] | Some e \<Rightarrow> [e])"

function decode_frames :: "bool \<Rightarrow> string \<Rightarrow> sse_event list \<times> protocol_error option \<times> string" where
  "decode_frames at_end s =
    (case boundary s of
       Some (i, n) \<Rightarrow>
         if i + n > max_stream_aggregate_frame_bytes then ([], Some frame_limit_exceeded, s)
         else (case parse_sse_event (take i s) of
                 Inl e \<Rightarrow> ([], Some e, s)
               | Inr v \<Rightarrow> (let (events, err, rest) = decode_frames at_end (drop (i + n) s)
                          in (events_of v @ events, err, rest)))
     | None \<Rightarrow>
         if length s > max_stream_aggregate_frame_bytes then ([], Some frame_limit_exceeded, s)
         else if at_end \<and> s \<noteq> []
         then (case parse_sse_event s of Inl e \<Rightarrow> ([], Some e, s) | Inr v \<Rightarrow> (events_of v, None, []))
         else ([], None, s))"
  by pat_completeness auto
termination
  by (relation "measure (\<lambda>(_, s). length s)") (auto dest!: boundary_bounds)

declare decode_frames.simps [simp del]

lemma decode_frames_Nil [simp]: "decode_frames at_end [] = ([], None, [])"
  by (simp add: decode_frames.simps)

lemma decode_frames_rest:
  "fst (snd (decode_frames b s)) = None \<Longrightarrow>
    length (snd (snd (decode_frames b s))) \<le> max_stream_aggregate_frame_bytes"
proof (induction b s rule: decode_frames.induct)
  case (1 b s)
  then show ?case
    by (auto simp: decode_frames.simps [of b s] case_prod_unfold Let_def split: option.splits sum.splits if_splits)
qed

lemma decode_frames_boundary:
  assumes "boundary s = Some (i, n)" "i + n \<le> max_stream_aggregate_frame_bytes"
    and "parse_sse_event (take i s) = Inr v"
  shows "decode_frames b s = (events_of v @ fst (decode_frames b (drop (i + n) s)),
    snd (decode_frames b (drop (i + n) s)))"
  using assms by (simp add: decode_frames.simps [of b s] case_prod_unfold Let_def)

lemma prefix_stable: "length p \<le> length s \<Longrightarrow> prefix p (s @ t) \<longleftrightarrow> prefix p s"
  by (auto intro: prefix_length_prefix)

lemma prefix_short: "prefix p (s @ t) \<Longrightarrow> length s \<le> length p \<Longrightarrow> prefix s p"
  by (rule prefix_length_prefix [of _ "s @ t"]) auto

lemma boundary_other:
  "\<not> prefix [newline, newline] (c # s) \<Longrightarrow> \<not> prefix crlf_delimiter (c # s) \<Longrightarrow>
    boundary (c # s) = map_option (\<lambda>(i, n). (i + 1, n)) (boundary s)"
  by (simp only: boundary.simps if_False)

lemma boundary_append: "boundary s = Some x \<Longrightarrow> boundary (s @ t) = Some x"
proof (induction s arbitrary: x)
  case Nil
  then show ?case by simp
next
  case (Cons c s)
  consider (nn) "prefix [newline, newline] (c # s)" | (crlf) "c = carriage_return" "prefix crlf_delimiter (c # s)"
    | (other) "\<not> prefix [newline, newline] (c # s)" "\<not> prefix crlf_delimiter (c # s)"
    by (auto simp: crlf_delimiter_def)
  then show ?case
  proof cases
    case nn
    then show ?thesis using Cons.prems prefix_prefix [OF nn, of t] by auto
  next
    case crlf
    then show ?thesis using Cons.prems prefix_prefix [OF crlf(2), of t] by simp
  next
    case other
    obtain y where y: "boundary s = Some y" using Cons.prems unfolding boundary_other [OF other] by blast
    have nn: "\<not> prefix [newline, newline] (c # s @ t)"
      using other(1) y prefix_stable [of "[newline, newline]" "c # s" t] by (cases s) auto
    have crlf: "\<not> prefix crlf_delimiter (c # s @ t)"
    proof
      assume p: "prefix crlf_delimiter (c # s @ t)"
      then have len: "length (c # s) < length crlf_delimiter"
        using other(2) prefix_stable [of crlf_delimiter "c # s" t] by force
      then have "prefix (c # s) crlf_delimiter" using p prefix_short [of crlf_delimiter "c # s" t] by simp
      then have "s = [] \<or> s = [newline] \<or> s = [newline, carriage_return]"
        using len by (auto simp: crlf_delimiter_def prefix_Cons)
      then show False using y by (auto simp: crlf_delimiter_def)
    qed
    show ?thesis
      using Cons.IH [OF y] Cons.prems y unfolding append_Cons boundary_other [OF other] boundary_other [OF nn crlf]
      by simp
  qed
qed

lemma boundary_prefix: "boundary (s @ t) = Some (i, n) \<Longrightarrow> i + n \<le> length s \<Longrightarrow> boundary s = Some (i, n)"
proof (induction s arbitrary: i)
  case Nil
  then show ?case using boundary_bounds [of t i n] by simp
next
  case (Cons c s)
  consider (nn) "prefix [newline, newline] (c # s @ t)"
    | (crlf) "c = carriage_return" "prefix crlf_delimiter (c # s @ t)"
    | (other) "\<not> prefix [newline, newline] (c # s @ t)" "\<not> prefix crlf_delimiter (c # s @ t)"
    by (auto simp: crlf_delimiter_def)
  then show ?case
  proof cases
    case nn
    then have "i = 0 \<and> n = 2" using Cons.prems(1) by auto
    then show ?thesis using nn Cons.prems(2) prefix_stable [of "[newline, newline]" "c # s" t] by auto
  next
    case crlf
    then have "i = 0 \<and> n = 4" using Cons.prems(1) by simp
    then show ?thesis
      using crlf Cons.prems(2) prefix_stable [of crlf_delimiter "c # s" t] by (simp add: crlf_delimiter_def)
  next
    case other
    have o: "\<not> prefix [newline, newline] (c # s)" "\<not> prefix crlf_delimiter (c # s)"
      using other prefix_prefix [of _ "c # s" t] by auto
    obtain j where j: "boundary (s @ t) = Some (j, n)" "i = j + 1"
      using Cons.prems(1) unfolding append_Cons boundary_other [OF other] by auto
    show ?thesis using Cons.IH [OF j(1)] Cons.prems(2) j(2) unfolding boundary_other [OF o] by simp
  qed
qed

section \<open>The decoder refines the reference\<close>

text \<open>Skipping the scanned bytes is right whatever bytes follow.\<close>

definition shift :: "nat \<Rightarrow> (nat \<times> nat) option \<Rightarrow> (nat \<times> nat) option" where
  "shift k v = map_option (\<lambda>(i, n). (i + k, n)) v"

lemma shift_simps [simp]: "shift k None = None" "shift k (Some (i, n)) = Some (i + k, n)" "shift 0 v = v"
  by (auto simp: shift_def option.map_ident case_prod_unfold)

lemma shift_shift [simp]: "shift j (shift k v) = shift (j + k) v"
  by (cases v) (auto simp: shift_def)

definition scanned :: "string \<Rightarrow> nat \<Rightarrow> bool" where
  "scanned s k = (k \<le> length s \<and> (\<forall>t. boundary (s @ t) = shift k (boundary (drop k s @ t))))"

lemma scanned_0 [simp]: "scanned s 0"
  by (simp add: scanned_def)

lemma scanned_append: "scanned s k \<Longrightarrow> scanned (s @ t) k"
  by (simp add: scanned_def)

lemma inspect_advance:
  assumes "inspect (c # s) = Advance"
  shows "boundary (c # s @ t) = shift 1 (boundary (s @ t))"
proof -
  have nn: "\<not> prefix [newline, newline] (c # s @ t)"
    using assms prefix_stable [of "[newline, newline]" "c # s" t]
    by (cases s) (auto simp: inspect_def split: if_splits)
  have crlf: "\<not> prefix crlf_delimiter (c # s @ t)"
  proof (cases "length (c # s) < length crlf_delimiter")
    case True
    with assms prefix_short [of crlf_delimiter "c # s" t] show ?thesis
      by (auto simp: inspect_def crlf_delimiter_def split: if_splits)
  next
    case False
    with assms prefix_stable [of crlf_delimiter "c # s" t] show ?thesis
      by (auto simp: inspect_def crlf_delimiter_def split: if_splits)
  qed
  show ?thesis using boundary_other [OF nn crlf] by (simp add: shift_def)
qed

lemma inspect_boundary: "inspect (c # s) = Boundary n \<Longrightarrow> boundary (c # s) = Some (0, n)"
  by (auto simp: inspect_def crlf_delimiter_def split: if_splits)

lemma inspect_await: "inspect (c # s) = Await \<Longrightarrow> boundary (c # s) = None"
  by (auto simp: inspect_def crlf_delimiter_def prefix_Cons split: if_splits)

lemma scanned_step:
  assumes "scanned s k" "k < length s" "inspect (drop k s) = Advance"
  shows "scanned s (k + 1)"
proof -
  have d: "drop k s = s ! k # drop (k + 1) s" using assms(2) by (simp add: Cons_nth_drop_Suc)
  show ?thesis
    using assms inspect_advance [of "s ! k" "drop (k + 1) s"]
    by (auto simp: scanned_def d simp del: drop_Suc boundary.simps) 
qed

lemma scan_from_spec:
  assumes "scanned s k"
  shows "scanned s (snd (scan_from s k))
    \<and> fst (scan_from s k) = boundary s"
  using assms
proof (induction s k rule: scan_from.induct)
  case (1 s k)
  show ?case
  proof (cases "k < length s")
    case False
    with 1(2) have "k = length s" "boundary s = None"
      by (auto simp: scanned_def dest: spec [of _ "[]"])
    with 1(2) show ?thesis by (simp add: scan_from.simps [of s])
  next
    case True
    then have d: "drop k s = s ! k # drop (k + 1) s" by (simp add: Cons_nth_drop_Suc)
    have b: "boundary s = shift k (boundary (drop k s))" using 1(2) by (auto simp: scanned_def dest: spec [of _ "[]"])
    show ?thesis
    proof (cases "inspect (drop k s)")
      case (Boundary n)
      with inspect_boundary [of "s ! k" "drop (k + 1) s" n] 1(2) True show ?thesis
        by (simp add: scan_from.simps [of s k] b d del: boundary.simps)
    next
      case Await
      with inspect_await [of "s ! k" "drop (k + 1) s"] 1(2) True show ?thesis
        by (simp add: scan_from.simps [of s k] b d del: boundary.simps)
    next
      case Advance
      with 1(1) [OF True] scanned_step [OF 1(2) True] True show ?thesis
        by (simp add: scan_from.simps [of s k])
    qed
  qed
qed

definition decoder_ok :: "sse_decoder \<Rightarrow> bool" where
  "decoder_ok d =
    (de_consumed_offset d \<le> de_scan_cursor d \<and> de_scan_cursor d \<le> length (de_buffer d)
     \<and> scanned (pending d) (de_scan_cursor d - de_consumed_offset d))"

lemma decoder_new_ok [simp]: "decoder_ok decoder_new"
  by (simp add: decoder_ok_def decoder_new_def pending_def)

lemma decoder_finish_ok [simp]:
  "decoder_ok (decoder_finish d) = decoder_ok d" "pending (decoder_finish d) = pending d"
  "de_finished (decoder_finish d)"
  by (simp_all add: decoder_ok_def decoder_finish_def pending_def)

lemma append_chunk_ok:
  assumes ok: "decoder_ok d" and a: "append_chunk d chunk = (Inr (), d')"
  shows "decoder_ok d' \<and> pending d' = pending d @ chunk
    \<and> de_total_bytes d' = de_total_bytes d + length chunk \<and> de_finished d' = de_finished d"
proof (cases "de_consumed_offset d = 0")
  case True
  with assms show ?thesis
    by (auto simp: append_chunk_def compact_def decoder_ok_def pending_def scanned_append Let_def split: if_splits)
next
  case False
  with assms show ?thesis
    by (auto simp: append_chunk_def compact_def decoder_ok_def pending_def scanned_append Let_def split: if_splits)
qed

lemma append_chunk_succeeds:
  "\<not> de_finished d \<Longrightarrow> de_total_bytes d + length chunk \<le> max_stream_aggregate_total_bytes \<Longrightarrow>
    \<exists>d'. append_chunk d chunk = (Inr (), d')"
  by (simp add: append_chunk_def Let_def)

text \<open>One scan for the next frame, in terms of the pending bytes.\<close>

lemma scan_from_drop:
  assumes "c \<le> k"
  shows "scan_from s k = (map_option (\<lambda>(i, n). (i + c, n)) (fst (scan_from (drop c s) (k - c))),
      snd (scan_from (drop c s) (k - c)) + c)"
  using assms
proof (induction s k rule: scan_from.induct)
  case (1 s k)
  show ?case
  proof (cases "k < length s")
    case False
    moreover have "\<not> k - c < length (drop c s)" using False 1(2) by simp
    ultimately show ?thesis
      using 1(2) by (simp add: scan_from.simps [of s k] scan_from.simps [of "drop c s" "k - c"])
  next
    case True
    moreover have "drop (k - c) (drop c s) = drop k s" using 1(2) by simp
    moreover have "k - c < length (drop c s)" using True 1(2) by simp
    ultimately show ?thesis
      using 1 by (auto simp: scan_from.simps [of s k] scan_from.simps [of "drop c s" "k - c"] Suc_diff_le
          split: scan_action.split)
  qed
qed

lemma next_frame_boundary_spec:
  assumes "decoder_ok d"
  obtains cursor where "next_frame_boundary d = (shift (de_consumed_offset d) (boundary (pending d)), d\<lparr>de_scan_cursor := cursor\<rparr>)"
    "decoder_ok (d\<lparr>de_scan_cursor := cursor\<rparr>)"
proof -
  let ?c = "de_consumed_offset d" and ?k = "de_scan_cursor d - de_consumed_offset d"
  have le: "?c \<le> de_scan_cursor d" and sc: "scanned (pending d) ?k"
    and len: "?c \<le> length (de_buffer d)" using assms by (auto simp: decoder_ok_def)
  have nb: "next_frame_boundary d = (shift ?c (boundary (pending d)),
      d\<lparr>de_scan_cursor := snd (scan_from (pending d) ?k) + ?c\<rparr>)"
    using scan_from_spec [OF sc] scan_from_drop [OF le, of "de_buffer d"]
    by (simp add: next_frame_boundary_eq pending_def shift_def)
  have ok: "decoder_ok (d\<lparr>de_scan_cursor := snd (scan_from (pending d) ?k) + ?c\<rparr>)"
    using scan_from_spec [OF sc] len by (auto simp: decoder_ok_def pending_def scanned_def)
  from nb ok show ?thesis by (rule that)
qed

text \<open>A call of \<open>next_event\<close> takes the next event off the reference's answer.\<close>

definition take_result ::
  "(protocol_error + sse_event option) \<Rightarrow> sse_event list \<times> protocol_error option \<times> string \<Rightarrow> string \<Rightarrow>
   sse_event list \<times> protocol_error option \<times> string" where
  "take_result r later here =
    (case r of
       Inl e \<Rightarrow> ([], Some e, here)
     | Inr None \<Rightarrow> ([], None, here)
     | Inr (Some event) \<Rightarrow> (event # fst later, snd later))"

lemma result_exhaust: "(\<exists>e. r = Inl e) \<or> r = Inr None \<or> (\<exists>v. r = Inr (Some v))"
  by (metis not_None_eq sum.exhaust)

lemma next_event_spec:
  assumes "decoder_ok d"
  shows "\<exists>r d'. next_event d = Inr (r, d') \<and> decoder_ok d' \<and> de_finished d' = de_finished d
    \<and> de_total_bytes d' = de_total_bytes d
    \<and> decode_frames (de_finished d) (pending d)
      = take_result r (decode_frames (de_finished d) (pending d')) (pending d')"
  using assms
proof (induction d rule: next_event.induct)
  case (1 d)
  let ?c = "de_consumed_offset d"
  obtain cursor where nb: "next_frame_boundary d = (shift ?c (boundary (pending d)), d\<lparr>de_scan_cursor := cursor\<rparr>)"
    and ok: "decoder_ok (d\<lparr>de_scan_cursor := cursor\<rparr>)" (is "decoder_ok ?d")
    using next_frame_boundary_spec [OF 1(2)] by blast
  have p: "pending ?d = pending d" by (simp add: pending_def)
  show ?case
  proof (cases "boundary (pending d)")
    case None
    have done_ok: "decoder_ok (?d\<lparr>de_consumed_offset := length (de_buffer d), de_scan_cursor := length (de_buffer d)\<rparr>)"
        "pending (?d\<lparr>de_consumed_offset := length (de_buffer d), de_scan_cursor := length (de_buffer d)\<rparr>) = []"
      by (simp_all add: decoder_ok_def pending_def)
    have "next_event d = drain_pending ?d" using nb None by (simp add: next_event.simps [of d])
    then show ?thesis
      using ok None done_ok
      by (auto simp: drain_pending_eq p decode_frames.simps [of "de_finished d" "pending d"] take_result_def
          events_of_def split: sum.split option.split)
  next
    case (Some fn)
    then obtain i n where b: "boundary (pending d) = Some (i, n)" by (cases fn) simp
    have bnd: "?c + i + n \<le> length (de_buffer d)" "0 < n"
      using boundary_bounds [OF b] by (auto simp: pending_def)
    let ?e = "d\<lparr>de_consumed_offset := i + ?c + n, de_scan_cursor := i + ?c + n\<rparr>"
    have pe: "pending ?e = drop (i + n) (pending d)" by (simp add: pending_def ac_simps)
    have oke: "decoder_ok ?e" using bnd by (auto simp: decoder_ok_def)
    have range: "byte_range (de_buffer d) ?c (i + ?c) = Inr (take i (pending d))"
      using bnd by (simp add: byte_range_def pending_def drop_take)
    have ne: "next_event d =
      (if i + n > max_stream_aggregate_frame_bytes then Inr (Inl frame_limit_exceeded, ?d)
       else case parse_sse_event (take i (pending d)) of
              Inl e \<Rightarrow> Inr (Inl e, ?d)
            | Inr None \<Rightarrow> next_event ?e
            | Inr (Some event) \<Rightarrow> Inr (Inr (Some event), ?e))"
      using nb b range by (simp add: next_event.simps [of d] Let_def split: sum.split option.split)
    have IH: "\<exists>r d'. next_event ?e = Inr (r, d') \<and> decoder_ok d' \<and> de_finished d' = de_finished d
        \<and> de_total_bytes d' = de_total_bytes d
        \<and> decode_frames (de_finished d) (drop (i + n) (pending d))
          = take_result r (decode_frames (de_finished d) (pending d')) (pending d')"
      if "i + n \<le> max_stream_aggregate_frame_bytes" "parse_sse_event (take i (pending d)) = Inr None"
    proof -
      have nb': "next_frame_boundary d = (Some (i + ?c, n), ?d)" using nb b by simp
      show ?thesis
        using 1(1) [OF nb' [symmetric] refl refl refl refl _ _ that(2) refl] range that(1) oke by (simp add: pe)
    qed
    note step = decode_frames_boundary [OF b, where b = "de_finished d"]
    consider (long) "i + n > max_stream_aggregate_frame_bytes"
      | (bad) e where "i + n \<le> max_stream_aggregate_frame_bytes" "parse_sse_event (take i (pending d)) = Inl e"
      | (skip) "i + n \<le> max_stream_aggregate_frame_bytes" "parse_sse_event (take i (pending d)) = Inr None"
      | (event) v where "i + n \<le> max_stream_aggregate_frame_bytes" "parse_sse_event (take i (pending d)) = Inr (Some v)"
      using result_exhaust [of "parse_sse_event (take i (pending d))"] leI by blast
    then show ?thesis
    proof cases
      case long
      with ok show ?thesis
        by (simp add: ne p decode_frames.simps [of "de_finished d" "pending d"] b take_result_def)
    next
      case bad
      with ok show ?thesis
        by (simp add: ne p decode_frames.simps [of "de_finished d" "pending d"] b take_result_def)
    next
      case skip
      with IH [OF skip] show ?thesis by (simp add: ne step [OF skip] events_of_def)
    next
      case event
      with oke show ?thesis by (simp add: ne pe step [OF event] events_of_def take_result_def)
    qed
  qed
qed

lemma drain_spec:
  assumes "decoder_ok d"
  shows "\<exists>d'. drain d = Inr (fst (decode_frames (de_finished d) (pending d)),
        fst (snd (decode_frames (de_finished d) (pending d))), d')
    \<and> decoder_ok d' \<and> de_finished d' = de_finished d \<and> de_total_bytes d' = de_total_bytes d
    \<and> pending d' = snd (snd (decode_frames (de_finished d) (pending d)))"
  using assms
proof (induction d rule: drain.induct)
  case (1 d)
  obtain r d' where n: "next_event d = Inr (r, d')" "decoder_ok d'" "de_finished d' = de_finished d"
      "de_total_bytes d' = de_total_bytes d"
    and f: "decode_frames (de_finished d) (pending d)
      = take_result r (decode_frames (de_finished d) (pending d')) (pending d')"
    using next_event_spec [OF 1(2)] by blast
  show ?case
  proof (cases "\<exists>event. r = Inr (Some event)")
    case True
    then obtain event where r: "r = Inr (Some event)" by blast
    from 1(1) [OF n(1) refl r refl n(2)] show ?thesis
      by (auto simp: drain.simps [of d] n r f take_result_def)
  next
    case False
    then show ?thesis
      using n by (cases r) (auto simp: drain.simps [of d] f take_result_def split: option.splits)
  qed
qed

section \<open>The reference and chunks\<close>

text \<open>Frames decoded before more bytes arrive are the frames decoded afterwards.\<close>

lemma decode_frames_append:
  "case decode_frames False s of
     (events, Some e, _) \<Rightarrow> fst (decode_frames b (s @ t)) = events \<and> fst (snd (decode_frames b (s @ t))) = Some e
   | (events, None, rest) \<Rightarrow> decode_frames b (s @ t) = (events @ fst (decode_frames b (rest @ t)),
       snd (decode_frames b (rest @ t)))"
proof (induction "False" s rule: decode_frames.induct)
  case (1 s)
  show ?case
  proof (cases "boundary s")
    case None
    show ?thesis
    proof (cases "length s > max_stream_aggregate_frame_bytes")
      case True
      have "decode_frames b (s @ t) = ([], Some frame_limit_exceeded, s @ t)"
      proof (cases "boundary (s @ t)")
        case None
        with True show ?thesis by (simp add: decode_frames.simps [of b "s @ t"])
      next
        case (Some fn)
        then obtain i n where b: "boundary (s @ t) = Some (i, n)" by (cases fn) simp
        have "i + n > length s" using boundary_prefix [OF b] None by force
        with b True show ?thesis by (simp add: decode_frames.simps [of b "s @ t"])
      qed
      with True None show ?thesis by (simp add: decode_frames.simps [of False s])
    next
      case False
      then show ?thesis using None by (simp add: decode_frames.simps [of False s])
    qed
  next
    case (Some fn)
    then obtain i n where b: "boundary s = Some (i, n)" by (cases fn) simp
    have b': "boundary (s @ t) = Some (i, n)" using b by (rule boundary_append)
    have le: "i + n \<le> length s" using boundary_bounds [OF b] by simp
    consider (long) "i + n > max_stream_aggregate_frame_bytes"
      | (bad) e where "i + n \<le> max_stream_aggregate_frame_bytes" "parse_sse_event (take i s) = Inl e"
      | (good) v where "i + n \<le> max_stream_aggregate_frame_bytes" "parse_sse_event (take i s) = Inr v"
      using not_le by (cases "parse_sse_event (take i s)") blast+
    then show ?thesis
    proof cases
      case long
      then show ?thesis by (simp add: decode_frames.simps [of False s] decode_frames.simps [of b "s @ t"] b b')
    next
      case bad
      then show ?thesis using le by (simp add: decode_frames.simps [of False s] decode_frames.simps [of b "s @ t"] b b')
    next
      case good
      have eq: "decode_frames b (s @ t) = (events_of v @ fst (decode_frames b (drop (i + n) s @ t)),
          snd (decode_frames b (drop (i + n) s @ t)))"
        using decode_frames_boundary [OF b', of v b] good le by simp
      have "\<not> i + n > max_stream_aggregate_frame_bytes" using good by simp
      from 1 [OF b refl this good(2)] show ?thesis
        unfolding eq decode_frames_boundary [OF b good, of False]
        by (simp add: case_prod_unfold split: option.splits)
    qed
  qed
qed

text \<open>The driver over chunks computes the reference on their concatenation.\<close>

lemma read_stream_spec:
  assumes "decoder_ok d" "\<not> de_finished d"
    and "de_total_bytes d + length (concat chunks) \<le> max_stream_aggregate_total_bytes"
  shows "read_stream d chunks = Inr (fst (decode_frames True (pending d @ concat chunks)),
    fst (snd (decode_frames True (pending d @ concat chunks))))"
  using assms
proof (induction chunks arbitrary: d)
  case Nil
  then show ?case using drain_spec [of "decoder_finish d"] by auto
next
  case (Cons chunk chunks)
  obtain d1 where a: "append_chunk d chunk = (Inr (), d1)"
    using append_chunk_succeeds [OF Cons.prems(2), of chunk] Cons.prems(3) by auto
  have d1: "decoder_ok d1" "pending d1 = pending d @ chunk" "\<not> de_finished d1"
      "de_total_bytes d1 = de_total_bytes d + length chunk"
    using append_chunk_ok [OF Cons.prems(1) a] Cons.prems(2) by auto
  obtain d2 where dr: "drain d1 = Inr (fst (decode_frames False (pending d1)),
        fst (snd (decode_frames False (pending d1))), d2)"
    and d2: "decoder_ok d2" "\<not> de_finished d2" "de_total_bytes d2 = de_total_bytes d1"
      "pending d2 = snd (snd (decode_frames False (pending d1)))"
    using drain_spec [OF d1(1)] d1(3) by auto
  note split = decode_frames_append [where s = "pending d1" and b = True and t = "concat chunks",
      unfolded case_prod_unfold]
  show ?case
  proof (cases "fst (snd (decode_frames False (pending d1)))")
    case (Some e)
    then show ?thesis using split a dr d1(2) by simp
  next
    case None
    have tot: "de_total_bytes d2 + length (concat chunks) \<le> max_stream_aggregate_total_bytes"
      using Cons.prems(3) d1(4) d2(3) by simp
    from Cons.IH [OF d2(1,2) tot] None show ?thesis
      using split a dr d1(2) d2(4) by simp
  qed
qed

section \<open>Properties\<close>

text \<open>
  C5. The events of a stream do not depend on how its bytes were cut into chunks. Within the total
  limit, feeding the chunks one by one (appending each, taking events until there is none, then
  the end of input) yields exactly the events and the error of the reference decoder on the
  concatenated bytes, and never panics: in particular a blank line cut in two is still found,
  and nothing before it is lost or seen twice.
\<close>

theorem decoding_independent_of_chunks:
  assumes "length (concat chunks) \<le> max_stream_aggregate_total_bytes"
  shows "read_stream decoder_new chunks =
    Inr (case decode_frames True (concat chunks) of (events, err, _) \<Rightarrow> (events, err))"
proof -
  have "pending decoder_new = []" "\<not> de_finished decoder_new" "de_total_bytes decoder_new = 0"
    by (simp_all add: decoder_new_def pending_def)
  with read_stream_spec [of decoder_new chunks] assms show ?thesis by (simp add: case_prod_unfold)
qed

text \<open>Two events, the first blank line cut between chunks, the second one ended by the input.\<close>

definition sample_chunks :: "string list" where
  "sample_chunks = [''data: a'' @ [newline], newline # ''event: x'' @ [carriage_return], newline # ''data:b'']"

theorem decoding_independent_of_chunks_witness:
  "length (concat sample_chunks) \<le> max_stream_aggregate_total_bytes
   \<and> read_stream decoder_new sample_chunks = Inr
      ([\<lparr>ev_event_type = None, ev_data = ''a''\<rparr>, \<lparr>ev_event_type = Some ''x'', ev_data = ''b''\<rparr>], None)"
proof -
  have "length (concat sample_chunks) \<le> max_stream_aggregate_total_bytes"
    by (simp add: sample_chunks_def max_stream_aggregate_total_bytes_def)
  moreover have "decode_frames True (concat sample_chunks) =
      ([\<lparr>ev_event_type = None, ev_data = ''a''\<rparr>, \<lparr>ev_event_type = Some ''x'', ev_data = ''b''\<rparr>], None, [])"
    by (simp add: decode_frames.simps sample_chunks_def crlf_delimiter_def max_stream_aggregate_frame_bytes_def
        parse_sse_event_def parse_line_def utf8_valid.simps in_range_def unwrap_or_def strip_suffix_char_def
        strip_prefix_char_def events_of_def)
  ultimately show ?thesis using decoding_independent_of_chunks [of sample_chunks] by simp
qed

datatype decoder_op = AppendOp string | FinishOp | NextOp

inductive decoder_step :: "decoder_op \<Rightarrow> sse_decoder \<Rightarrow> sse_decoder \<Rightarrow> bool" where
  "decoder_step (AppendOp chunk) d (snd (append_chunk d chunk))"
| "decoder_step FinishOp d (decoder_finish d)"
| "next_event d = Inr (r, d') \<Longrightarrow> decoder_step NextOp d d'"

inductive decoder_init :: "sse_decoder \<Rightarrow> bool" where
  "decoder_init decoder_new"

inductive_simps decoder_init_simps: "decoder_init d"

definition decoder_inv :: "sse_decoder \<Rightarrow> bool" where
  "decoder_inv d = (decoder_ok d \<and> length (de_buffer d) \<le> de_total_bytes d
     \<and> de_total_bytes d \<le> max_stream_aggregate_total_bytes)"

lemma next_event_buffer: "next_event d = Inr (r, d') \<Longrightarrow> de_buffer d' = de_buffer d"
proof (induction d rule: next_event.induct)
  case (1 d)
  obtain found d1 where nb: "next_frame_boundary d = (found, d1)" by fastforce
  then have d1: "de_buffer d1 = de_buffer d" by (auto simp: next_frame_boundary_eq)
  show ?case
  proof (cases found)
    case None
    then show ?thesis
      using 1(2) nb d1 by (auto simp: next_event.simps [of d] drain_pending_eq split: if_splits sum.split_asm)
  next
    case (Some fn)
    obtain f n where fn: "fn = (f, n)" by (cases fn)
    show ?thesis
    proof (cases "byte_range (de_buffer d1) (de_consumed_offset d1) f")
      case (Inl p)
      with 1(2) nb Some fn d1 show ?thesis by (auto simp: next_event.simps [of d] Let_def split: if_splits)
    next
      case (Inr frame)
      have IH: "next_event (d1\<lparr>de_consumed_offset := f + n, de_scan_cursor := f + n\<rparr>) = Inr (r, d') \<Longrightarrow>
          de_buffer d' = de_buffer d"
        if "parse_sse_event frame = Inr None" "\<not> f + n - de_consumed_offset d1 > max_stream_aggregate_frame_bytes"
        using 1(1) [OF nb [symmetric] refl Some fn [symmetric] refl that(2) Inr that(1) refl] d1 by simp
      show ?thesis
        using 1(2) nb Some fn Inr IH d1
        by (auto simp: next_event.simps [of d] Let_def split: if_splits sum.split_asm option.split_asm)
    qed
  qed
qed

lemma append_chunk_inv:
  assumes "decoder_inv d"
  shows "decoder_inv (snd (append_chunk d chunk))"
proof (cases "fst (append_chunk d chunk)")
  case (Inl e)
  then have "snd (append_chunk d chunk) = d" by (auto simp: append_chunk_def Let_def split: if_splits)
  with assms show ?thesis by simp
next
  case (Inr u)
  then have a: "append_chunk d chunk = (Inr (), snd (append_chunk d chunk))" by (simp add: prod_eq_iff)
  have "length (de_buffer (snd (append_chunk d chunk))) \<le> length (de_buffer d) + length chunk"
    by (auto simp: append_chunk_def compact_def Let_def)
  moreover have "de_total_bytes d + length chunk \<le> max_stream_aggregate_total_bytes"
    using Inr assms by (auto simp: append_chunk_def decoder_inv_def Let_def split: if_splits)
  ultimately show ?thesis
    using append_chunk_ok [OF _ a] assms by (auto simp: decoder_inv_def)
qed

interpretation decoder: invariant_system decoder_init decoder_step decoder_inv
proof
  show "decoder_inv d" if "decoder_init d" for d
    using that by (auto simp: decoder_init_simps decoder_inv_def) (simp_all add: decoder_new_def)
next
  fix d op d'
  assume inv: "decoder_inv d" and step: "decoder_step op d d'"
  from step show "decoder_inv d'"
  proof (cases rule: decoder_step.cases)
    case (1 chunk)
    then show ?thesis using append_chunk_inv [OF inv] by simp
  next
    case 2
    then show ?thesis using inv by (simp add: decoder_inv_def) (simp add: decoder_finish_def)
  next
    case (3 r)
    then show ?thesis
      using inv next_event_spec [of d] next_event_buffer [of d r d'] by (auto simp: decoder_inv_def)
  qed
qed

text \<open>
  C36. In every reachable decoder the offsets stay inside the buffer and the buffer stays within
  the total limit, so that no slice is out of range and \<open>next_event\<close> returns; and when it answers
  that no event is ready, at most one frame's worth of bytes is pending.
\<close>

theorem decoder_bounded:
  assumes "reachable decoder_init decoder_step d"
  shows "de_consumed_offset d \<le> de_scan_cursor d \<and> de_scan_cursor d \<le> length (de_buffer d)
    \<and> length (de_buffer d) \<le> max_stream_aggregate_total_bytes
    \<and> (\<exists>r d'. next_event d = Inr (r, d')
        \<and> (r = Inr None \<longrightarrow> length (pending d') \<le> max_stream_aggregate_frame_bytes))"
proof -
  have inv: "decoder_inv d" using assms by (rule decoder.reachable_inv)
  then obtain r d' where n: "next_event d = Inr (r, d')" and f: "decode_frames (de_finished d) (pending d)
      = take_result r (decode_frames (de_finished d) (pending d')) (pending d')"
    using next_event_spec [of d] by (auto simp: decoder_inv_def)
  have "length (pending d') \<le> max_stream_aggregate_frame_bytes" if "r = Inr None"
    using decode_frames_rest [of "de_finished d" "pending d"] f that by (simp add: take_result_def)
  with inv n show ?thesis by (auto simp: decoder_inv_def decoder_ok_def)
qed

theorem decoder_bounded_witness:
  "reachable decoder_init decoder_step (snd (append_chunk decoder_new ''data: x''))
   \<and> length (de_buffer (snd (append_chunk decoder_new ''data: x''))) \<le> max_stream_aggregate_total_bytes"
proof -
  have r: "reachable decoder_init decoder_step (snd (append_chunk decoder_new ''data: x''))"
  proof (rule reach_step)
    show "reachable decoder_init decoder_step decoder_new" by (rule reach_init) (rule decoder_init.intros)
    show "decoder_step (AppendOp ''data: x'') decoder_new (snd (append_chunk decoder_new ''data: x''))"
      by (rule decoder_step.intros)
  qed
  from decoder_bounded [OF r] r show ?thesis by blast
qed

end
