(* ===== verification/Sse_Framing.thy ===== *)
theory Sse_Framing
  imports Sse_Decoder Json_Value
begin

text \<open>
  The frame functions of the streaming proxy (\<open>src/src/server/gateway/stream.rs\<close>): the scan for
  the next frame, the reading of a frame's payload and event name, and the frames the gateway
  writes. They parse the same wire format as the decoder, by code of their own. The text of a
  JSON value is the argument \<open>to_text\<close>.
\<close>

section \<open>Reading frames\<close>

text \<open>\<open>str::lines\<close>: a carriage return before a line feed belongs to the line ending.\<close>

definition lines_of :: "string \<Rightarrow> string list" where
  "lines_of s =
    (let ps = split_on newline s
     in map (\<lambda>p. unwrap_or (strip_suffix_char carriage_return p) p) (butlast ps)
        @ (if last ps = [] then [] else [last ps]))"

function next_frame_at :: "string \<Rightarrow> nat \<Rightarrow> (string \<times> nat) option" where
  "next_frame_at buffer i =
    (let len = length buffer in
     if i < len
     then if buffer ! i = newline
          then if i + 1 < len \<and> buffer ! (i + 1) = newline then Some (take i buffer, 2)
               else next_frame_at buffer (i + 1)
          else if buffer ! i = carriage_return \<and> i + 3 < len \<and> buffer ! (i + 1) = newline
                  \<and> buffer ! (i + 2) = carriage_return \<and> buffer ! (i + 3) = newline
          then Some (take i buffer, 4)
          else next_frame_at buffer (i + 1)
     else None)"
  by pat_completeness auto
termination
  by (relation "measure (\<lambda>(buffer, i). length buffer - i)") auto

declare next_frame_at.simps [simp del]

definition next_sse_frame :: "string \<Rightarrow> (string \<times> nat) option" where
  "next_sse_frame buffer = next_frame_at buffer 0"

text \<open>An I/O error; the one these functions raise carries the decoding error's message, which is dropped.\<close>

datatype io_error = InvalidUtf8

definition payload_line :: "string \<Rightarrow> string list" where
  "payload_line line =
    (if line = ''data'' then [[]]
     else if prefix ''data:'' line
     then (let payload = drop 5 line in [unwrap_or (strip_prefix_char (CHR '' '') payload) payload])
     else [])"

definition parse_sse_data_payload :: "string \<Rightarrow> io_error + string option" where
  "parse_sse_data_payload frame =
    (if \<not> utf8_valid frame then Inl (InvalidUtf8)
     else let data_lines = concat (map payload_line (lines_of frame))
          in if data_lines = [] then Inr None else Inr (Some (join [newline] data_lines)))"

definition event_line :: "string \<Rightarrow> string option \<Rightarrow> string option" where
  "event_line raw_line event_type =
    (let line = unwrap_or (strip_suffix_char carriage_return raw_line) raw_line;
         (field, raw_value) = unwrap_or (split_once (CHR '':'') line) (line, [])
     in if field = ''event''
        then Some (unwrap_or (strip_prefix_char (CHR '' '') raw_value) raw_value)
        else event_type)"

definition named_upstream_sse_failure :: "string \<Rightarrow> protocol_error option" where
  "named_upstream_sse_failure frame =
    (if \<not> utf8_valid frame then None
     else if fold event_line (split_on newline frame) None \<in> {Some ''error'', Some ''response.failed''}
     then Some (InvalidUpstreamStream UpstreamEvent ''upstream emitted an SSE error event'')
     else None)"

definition enveloped_upstream_sse_failure :: "'n json \<Rightarrow> protocol_error option" where
  "enveloped_upstream_sse_failure v =
    (if is_some_and (json_get v ''error'') (\<lambda>e. \<not> is_null e)
     then Some (InvalidUpstreamStream UpstreamEvent ''upstream returned an error envelope'')
     else if Option.bind (json_get v ''type'') as_str \<in> {Some ''error'', Some ''response.failed''}
     then Some (InvalidUpstreamStream UpstreamEvent ''upstream emitted a failed Responses event'')
     else None)"

definition sse_payload_is_keepalive :: "string \<Rightarrow> bool" where
  "sse_payload_is_keepalive payload = (let trimmed = trim payload in trimmed = [] \<or> prefix '':'' trimmed)"

definition is_sse_comment_frame :: "string \<Rightarrow> bool" where
  "is_sse_comment_frame frame =
    (utf8_valid frame \<and> list_all (\<lambda>line. prefix '':'' line \<or> line = []) (lines_of frame)
     \<and> list_ex (prefix '':'') (lines_of frame))"

section \<open>Writing frames\<close>

definition sse_frame_delimiter :: "nat \<Rightarrow> string" where
  "sse_frame_delimiter delimiter_len =
    (if delimiter_len = 4 then [carriage_return, newline, carriage_return, newline] else [newline, newline])"

definition serialize_raw_sse_frame :: "string \<Rightarrow> nat \<Rightarrow> string" where
  "serialize_raw_sse_frame frame delimiter_len = frame @ sse_frame_delimiter delimiter_len"

definition serialize_sse_data :: "('n json \<Rightarrow> string) \<Rightarrow> 'n json \<Rightarrow> string" where
  "serialize_sse_data to_text v =
    (case Option.bind (json_get v ''type'') as_str of
       Some event \<Rightarrow>
         if event \<noteq> []
         then ''event: '' @ event @ [newline] @ ''data: '' @ to_text v @ [newline, newline]
         else ''data: '' @ to_text v @ [newline, newline]
     | None \<Rightarrow> ''data: '' @ to_text v @ [newline, newline])"

fun rewrite_lines :: "string \<Rightarrow> string \<Rightarrow> bool \<Rightarrow> string list \<Rightarrow> string" where
  "rewrite_lines payload line_ending replaced [] = []"
| "rewrite_lines payload line_ending replaced (line # rest) =
    (if line = ''data'' \<or> prefix ''data:'' line
     then (if \<not> replaced then ''data: '' @ payload @ line_ending else [])
          @ rewrite_lines payload line_ending True rest
     else line @ line_ending @ rewrite_lines payload line_ending replaced rest)"

definition rewrite_sse_data_payload :: "('n json \<Rightarrow> string) \<Rightarrow> string \<Rightarrow> nat \<Rightarrow> 'n json \<Rightarrow> io_error + string" where
  "rewrite_sse_data_payload to_text frame delimiter_len v =
    (if \<not> utf8_valid frame then Inl (InvalidUtf8)
     else let line_ending = (if delimiter_len = 4 then [carriage_return, newline] else [newline])
          in Inr (rewrite_lines (to_text v) line_ending False (lines_of frame) @ line_ending))"

definition sse_keepalive_frame :: string where
  "sse_keepalive_frame = '': keepalive'' @ [newline, newline]"

definition sse_done_frame :: string where
  "sse_done_frame = ''data: [DONE]'' @ [newline, newline]"

section \<open>The proxy and the decoder agree\<close>

lemma all_less_two: "(\<forall>j < Suc (Suc 0). P j) \<longleftrightarrow> P 0 \<and> P 1"
  by (auto simp: less_Suc_eq)

lemma all_less_four: "(\<forall>j < Suc (Suc (Suc (Suc 0))). P j) \<longleftrightarrow> P 0 \<and> P 1 \<and> P 2 \<and> P 3"
  by (auto simp: less_Suc_eq numeral_2_eq_2 numeral_3_eq_3)

lemma prefix_drop_iff:
  assumes "i \<le> length s"
  shows "prefix p (drop i s) \<longleftrightarrow> i + length p \<le> length s \<and> (\<forall>j < length p. s ! (i + j) = p ! j)"
proof -
  have "prefix p (drop i s) \<longleftrightarrow> p = take (length p) (drop i s)"
    by (metis append_eq_conv_conj append_take_drop_id prefix_def)
  also have "\<dots> \<longleftrightarrow> i + length p \<le> length s \<and> (\<forall>j < length p. s ! (i + j) = p ! j)"
    using assms by (auto simp: list_eq_iff_nth_eq)
  finally show ?thesis .
qed

lemma boundary_at:
  assumes "i < length s"
  shows "boundary (drop i s) =
    (if s ! i = newline \<and> i + 1 < length s \<and> s ! (i + 1) = newline then Some (0, 2)
     else if s ! i = carriage_return \<and> i + 3 < length s \<and> s ! (i + 1) = newline
        \<and> s ! (i + 2) = carriage_return \<and> s ! (i + 3) = newline then Some (0, 4)
     else map_option (\<lambda>(j, n). (j + 1, n)) (boundary (drop (i + 1) s)))"
proof -
  have cons: "drop i s = s ! i # drop (i + 1) s" using assms by (simp add: Cons_nth_drop_Suc)
  have "prefix [newline, newline] (drop i s) \<longleftrightarrow> s ! i = newline \<and> i + 1 < length s \<and> s ! (i + 1) = newline"
    using assms by (auto simp: prefix_drop_iff all_less_two)
  moreover have "prefix crlf_delimiter (drop i s) \<longleftrightarrow> s ! i = carriage_return \<and> i + 3 < length s \<and> s ! (i + 1) = newline
        \<and> s ! (i + 2) = carriage_return \<and> s ! (i + 3) = newline"
    using assms by (auto simp: crlf_delimiter_def prefix_drop_iff all_less_four)
  ultimately show ?thesis by (simp only: cons boundary.simps)
qed

lemma next_frame_at_boundary:
  "next_frame_at s i = map_option (\<lambda>(j, n). (take (j + i) s, n)) (boundary (drop i s))"
proof (induction s i rule: next_frame_at.induct)
  case (1 s i)
  show ?case
  proof (cases "i < length s")
    case False
    then show ?thesis by (simp add: next_frame_at.simps [of s i])
  next
    case True
    let ?found = "\<lambda>i. map_option (\<lambda>(j, n). (take (j + i) s, n))"
    let ?lf = "s ! i = newline \<and> i + 1 < length s \<and> s ! (i + 1) = newline"
    let ?crlf = "s ! i = carriage_return \<and> i + 3 < length s \<and> s ! (i + 1) = newline
        \<and> s ! (i + 2) = carriage_return \<and> s ! (i + 3) = newline"
    have sh: "?found i (map_option (\<lambda>(j, n). (j + 1, n)) v) = ?found (i + 1) v" for v
      by (cases v) auto
    show ?thesis
    proof (cases "?lf \<or> ?crlf")
      case found: True
      then show ?thesis using True boundary_at [OF True] by (auto simp: next_frame_at.simps [of s i] Let_def)
    next
      case False
      then have "next_frame_at s i = next_frame_at s (i + 1)"
        using True by (auto simp: next_frame_at.simps [of s i] Let_def)
      also have "\<dots> = ?found (i + 1) (boundary (drop (i + 1) s))"
        using 1 True False by (cases "s ! i = newline") (simp_all add: Let_def)
      also have "\<dots> = ?found i (boundary (drop i s))"
        unfolding sh [symmetric] using boundary_at [OF True] False by (simp only: if_False) auto
      finally show ?thesis .
    qed
  qed
qed

lemma next_sse_frame_boundary:
  "next_sse_frame s = map_option (\<lambda>(i, n). (take i s, n)) (boundary s)"
  using next_frame_at_boundary [of s 0] by (simp add: next_sse_frame_def)

text \<open>A line of a frame: the event name and the data it contributes, to either reader.\<close>

abbreviation chomp :: "string \<Rightarrow> string" where
  "chomp line \<equiv> unwrap_or (strip_suffix_char carriage_return line) line"

lemma split_once_absent: "c \<notin> set s \<Longrightarrow> split_once c s = None"
  by (induction s) auto

lemma split_once_first: "c \<notin> set a \<Longrightarrow> split_once c (a @ c # b) = Some (a, b)"
  by (induction a) auto

lemma first_occurrence_unique:
  "a @ c # b = a' @ c # b' \<Longrightarrow> c \<notin> set a \<Longrightarrow> c \<notin> set a' \<Longrightarrow> a = a' \<and> b = b'"
  by (induction a arbitrary: a') (auto simp: Cons_eq_append_conv append_eq_Cons_conv)

text \<open>What the colon splits off is a given name when the line is the name or continues with a colon.\<close>

lemma field_split:
  assumes "c \<notin> set name"
  shows "(\<exists>r. unwrap_or (split_once c line) (line, []) = (name, r)) \<longleftrightarrow> line = name \<or> prefix (name @ [c]) line"
    and "line = name \<Longrightarrow> unwrap_or (split_once c line) (line, []) = (name, [])"
    and "prefix (name @ [c]) line \<Longrightarrow>
      unwrap_or (split_once c line) (line, []) = (name, drop (length name + 1) line)"
proof -
  show 2: "line = name \<Longrightarrow> unwrap_or (split_once c line) (line, []) = (name, [])"
    using assms by (simp add: unwrap_or_def split_once_absent)
  show 3: "prefix (name @ [c]) line \<Longrightarrow>
      unwrap_or (split_once c line) (line, []) = (name, drop (length name + 1) line)"
    using assms by (auto simp: prefix_def unwrap_or_def split_once_first)
  have "line = name \<or> prefix (name @ [c]) line" if r: "unwrap_or (split_once c line) (line, []) = (name, r)" for r
  proof (cases "c \<in> set line")
    case True
    then obtain a b where "line = a @ c # b" "c \<notin> set a" by (meson split_list_first)
    then show ?thesis using r by (auto simp: unwrap_or_def split_once_first prefix_def)
  next
    case False
    then show ?thesis using r by (simp add: unwrap_or_def split_once_absent)
  qed
  then show "(\<exists>r. unwrap_or (split_once c line) (line, []) = (name, r)) \<longleftrightarrow> line = name \<or> prefix (name @ [c]) line"
    using 2 3 by blast
qed

lemma parse_line_eq:
  "parse_line line (event_type, data) = (event_line line event_type, data @ payload_line (chomp line))"
proof -
  define l where "l = chomp line"
  obtain f r where fr: "unwrap_or (split_once (CHR '':'') l) (l, []) = (f, r)" by fastforce
  have f: "f = n \<longleftrightarrow> l = n \<or> prefix (n @ '':'') l" if "CHR '':'' \<notin> set n" for n
    using field_split(1) [OF that, of l] fr by auto
  have blank: "f = []" if "l = [] \<or> prefix '':'' l" using that f [of "[]"] by auto
  have data: "payload_line l = [unwrap_or (strip_prefix_char (CHR '' '') r) r]" if "f = ''data''"
  proof -
    have "l = ''data'' \<or> prefix ''data:'' l" using f [of "''data''"] that by simp
    then show ?thesis
      using field_split(2,3) [of "CHR '':''" "''data''" l] fr
      by (auto simp: payload_line_def strip_prefix_char_def Let_def eval_nat_numeral)
  qed
  have no_data: "payload_line l = []" if "f \<noteq> ''data''"
    using f [of "''data''"] that by (simp add: payload_line_def)
  show ?thesis
    unfolding parse_line_def event_line_def l_def [symmetric] Let_def fr
    using blank data no_data by (auto simp: fr)
qed

lemma fold_parse_line:
  "fold parse_line ls (event_type, data)
    = (fold event_line ls event_type, data @ concat (map (payload_line \<circ> chomp) ls))"
  by (induction ls arbitrary: event_type data) (simp_all add: parse_line_eq)

lemma split_on_nonempty [simp]: "split_on c s \<noteq> []"
  by (cases s) (auto split: list.splits)

lemma split_on_single: "split_on c s = [p] \<Longrightarrow> s = p"
  by (induction s arbitrary: p) (auto split: list.splits if_splits)

lemma last_split_on: "suffix (last (split_on c s)) s"
  by (induction s) (auto simp: suffix_Cons dest: split_on_single split: list.splits)

text \<open>\<open>str::lines\<close> and the split at line feeds give the same data unless a carriage return ends the text.\<close>

lemma lines_of_data:
  assumes "\<not> suffix [carriage_return] s"
  shows "concat (map payload_line (lines_of s)) = concat (map (payload_line \<circ> chomp) (split_on newline s))"
proof -
  let ?ps = "split_on newline s"
  have "chomp (last ?ps) = last ?ps"
  proof (cases "last ?ps = []")
    case False
    then have "last (last ?ps) \<noteq> carriage_return"
      using assms last_split_on [of newline s] by (metis append_butlast_last_id suffix_def suffix_order.trans)
    then show ?thesis by (simp add: strip_suffix_char_def)
  qed (simp add: strip_suffix_char_def)
  moreover have "payload_line [] = []" by (simp add: payload_line_def)
  moreover have "map (payload_line \<circ> chomp) ?ps
      = map (payload_line \<circ> chomp) (butlast ?ps) @ [payload_line (chomp (last ?ps))]"
    by (metis (no_types, lifting) append_butlast_last_id comp_apply list.simps(8,9) map_append split_on_nonempty)
  ultimately show ?thesis by (auto simp: lines_of_def Let_def comp_def)
qed

text \<open>
  The proxy and the decoder read the same frames: \<open>next_sse_frame\<close> finds the blank line that
  ends the decoder's frame, whatever the line endings; a frame is an upstream failure by its name
  exactly when the decoder would give an event with that name; and the payload the proxy reads is
  the data of the decoder's event, present when the event has a data line (for a frame that does
  not end in a lone carriage return), with invalid UTF-8 an error of both.
\<close>

theorem frame_scanners_agree:
  assumes "\<not> suffix [carriage_return] frame"
  shows "next_sse_frame buffer = map_option (\<lambda>(i, n). (take i buffer, n)) (boundary buffer)
    \<and> (named_upstream_sse_failure frame \<noteq> None \<longleftrightarrow>
        (\<exists>e. parse_sse_event frame = Inr (Some e)
           \<and> ev_event_type e \<in> {Some ''error'', Some ''response.failed''}))
    \<and> (case parse_sse_data_payload frame of
         Inl _ \<Rightarrow> parse_sse_event frame = Inl (invalid_stream Decode ''frame is not valid UTF-8'')
       | Inr (Some payload) \<Rightarrow> (\<exists>e. parse_sse_event frame = Inr (Some e) \<and> ev_data e = payload)
       | Inr None \<Rightarrow> parse_sse_event frame = Inr None
           \<or> (\<exists>name. parse_sse_event frame = Inr (Some \<lparr>ev_event_type = Some name, ev_data = []\<rparr>)))"
proof (cases "utf8_valid frame")
  case False
  then show ?thesis
    by (simp add: next_sse_frame_boundary named_upstream_sse_failure_def parse_sse_event_def
        parse_sse_data_payload_def)
next
  case True
  let ?data = "concat (map (payload_line \<circ> chomp) (split_on newline frame))"
  let ?name = "fold event_line (split_on newline frame) None"
  have event: "parse_sse_event frame = (if ?data = [] \<and> ?name = None then Inr None
      else Inr (Some \<lparr>ev_event_type = ?name, ev_data = join [newline] ?data\<rparr>))"
    using True by (simp add: parse_sse_event_def fold_parse_line)
  have payload: "parse_sse_data_payload frame = (if ?data = [] then Inr None else Inr (Some (join [newline] ?data)))"
    using True lines_of_data [OF assms] by (simp add: parse_sse_data_payload_def Let_def)
  have named: "named_upstream_sse_failure frame \<noteq> None \<longleftrightarrow> ?name \<in> {Some ''error'', Some ''response.failed''}"
    using True by (simp add: named_upstream_sse_failure_def)
  show ?thesis
    unfolding event payload named next_sse_frame_boundary by (cases ?name) (auto simp del: concat_eq_Nil_conv)
qed

theorem frame_scanners_agree_witness:
  "\<not> suffix [carriage_return] ''data: x''
   \<and> next_sse_frame (''data: x'' @ [newline, newline]) = Some (''data: x'', 2)"
proof -
  have "\<not> suffix [carriage_return] ''data: x''" by (simp add: suffix_def)
  then show ?thesis
    using frame_scanners_agree [of "''data: x''" "''data: x'' @ [newline, newline]"]
    by (simp add: crlf_delimiter_def)
qed

section \<open>What is written is read back\<close>

lemma utf8_char_length_append:
  assumes "utf8_char_length s = Some n"
  shows "n \<le> length s \<and> utf8_char_length (s @ t) = Some n"
  using assms by (cases s) (auto split: if_splits list.splits)

lemma utf8_valid_append: "utf8_valid s \<Longrightarrow> utf8_valid (s @ t) = utf8_valid t"
proof (induction s rule: utf8_valid.induct)
  case (1 s)
  show ?case
  proof (cases "s = []")
    case False
    then obtain n where n: "utf8_char_length s = Some n" "utf8_valid (drop n s)"
      using 1(2) by (auto simp: utf8_valid.simps [of s] split: option.splits)
    then have "utf8_valid (drop n s @ t) = utf8_valid t" using 1(1) False by blast
    then show ?thesis
      using False n(1) utf8_char_length_append [OF n(1), of t] by (simp add: utf8_valid.simps [of "s @ t"])
  qed simp
qed

lemma utf8_valid_ascii: "list_all (\<lambda>c. c \<le> CHR 0x7F) s \<Longrightarrow> utf8_valid s"
  by (induction s) (simp_all add: utf8_valid.simps)

lemma boundary_skip:
  assumes "newline \<notin> set t" "carriage_return \<notin> set t"
  shows "boundary (t @ s) = map_option (\<lambda>(i, n). (i + length t, n)) (boundary s)"
  using assms by (induction t) (auto simp: crlf_delimiter_def option.map_comp comp_def case_prod_unfold
      option.map_ident)

lemma split_on_absent: "c \<notin> set t \<Longrightarrow> split_on c t = [t]"
  by (induction t) auto

lemma split_on_first: "c \<notin> set t \<Longrightarrow> split_on c (t @ c # s) = t # split_on c s"
  by (induction t) auto

lemma chomp_id: "carriage_return \<notin> set t \<Longrightarrow> chomp t = t"
  by (metis last_in_set strip_suffix_char_def unwrap_or_None)

definition one_line :: "string \<Rightarrow> bool" where
  "one_line s = (newline \<notin> set s \<and> carriage_return \<notin> set s \<and> utf8_valid s)"

text \<open>The frame of an event: its name line, when it has one, and its data line.\<close>

definition frame_text :: "string option \<Rightarrow> string \<Rightarrow> string" where
  "frame_text name payload =
    (case name of None \<Rightarrow> [] | Some n \<Rightarrow> ''event: '' @ n @ [newline]) @ ''data: '' @ payload"

definition event_name :: "'n json \<Rightarrow> string option" where
  "event_name v = filter_option (\<lambda>n. n \<noteq> []) (Option.bind (json_get v ''type'') as_str)"

lemma serialize_sse_data_eq:
  "serialize_sse_data to_text v = frame_text (event_name v) (to_text v) @ [newline, newline]"
  by (simp add: serialize_sse_data_def frame_text_def event_name_def filter_option_def split: option.splits)

lemma frame_text_boundary:
  assumes "one_line payload" "pred_option one_line name"
  shows "boundary (frame_text name payload @ newline # newline # s) = Some (length (frame_text name payload), 2)"
  using assms by (cases name) (simp_all add: frame_text_def boundary_skip crlf_delimiter_def one_line_def)

lemma frame_text_lines:
  assumes "one_line payload" "pred_option one_line name"
  shows "split_on newline (frame_text name payload)
      = (case name of None \<Rightarrow> [] | Some n \<Rightarrow> [''event: '' @ n]) @ [''data: '' @ payload]"
    and "utf8_valid (frame_text name payload)"
proof -
  have data: "split_on newline (''data: '' @ payload) = [''data: '' @ payload]"
    by (rule split_on_absent) (use assms in \<open>simp add: one_line_def\<close>)
  have event: "split_on newline ((''event: '' @ n) @ newline # ''data: '' @ payload)
      = (''event: '' @ n) # split_on newline (''data: '' @ payload)" if "one_line n" for n
    by (rule split_on_first) (use that in \<open>simp add: one_line_def\<close>)
  show "split_on newline (frame_text name payload)
      = (case name of None \<Rightarrow> [] | Some n \<Rightarrow> [''event: '' @ n]) @ [''data: '' @ payload]"
    using event data assms(2) by (auto simp: frame_text_def simp del: split_on.simps split: option.splits)
  have "utf8_valid (''data: '' @ payload)"
    using assms(1) by (subst utf8_valid_append) (simp_all add: utf8_valid_ascii one_line_def)
  moreover have "utf8_valid ((''event: '' @ n) @ [newline] @ t) = utf8_valid t" if "one_line n" for n t
    using that by (subst utf8_valid_append; subst utf8_valid_append; simp add: utf8_valid_ascii one_line_def)
  ultimately show "utf8_valid (frame_text name payload)"
    using assms(2) by (auto simp: frame_text_def split: option.splits)
qed

lemma event_line_name: "carriage_return \<notin> set n \<Longrightarrow> event_line (''event: '' @ n) e = Some n"
  using chomp_id [of "''event: '' @ n"]
  by (simp add: event_line_def strip_prefix_char_def)

lemma event_line_data: "carriage_return \<notin> set t \<Longrightarrow> event_line (''data: '' @ t) e = e"
  using chomp_id [of "''data: '' @ t"] by (simp add: event_line_def)

lemma payload_line_name: "payload_line (''event: '' @ n) = []"
  by (simp add: payload_line_def)

lemma payload_line_data: "payload_line (''data: '' @ t) = [t]"
  by (simp add: payload_line_def strip_prefix_char_def)

lemma parse_frame_text:
  assumes "one_line payload" "pred_option one_line name"
  shows "parse_sse_event (frame_text name payload) = Inr (Some \<lparr>ev_event_type = name, ev_data = payload\<rparr>)"
    and "parse_sse_data_payload (frame_text name payload) = Inr (Some payload)"
proof -
  let ?frame = "frame_text name payload"
  have data: "chomp (''data: '' @ payload) = ''data: '' @ payload"
    by (rule chomp_id) (use assms(1) in \<open>simp add: one_line_def\<close>)
  have event: "chomp (''event: '' @ n) = ''event: '' @ n" if "name = Some n" for n
    by (rule chomp_id) (use assms(2) that in \<open>simp add: one_line_def\<close>)
  have name: "fold event_line (split_on newline ?frame) None = name"
    unfolding frame_text_lines(1) [OF assms] using assms event_line_name event_line_data
    by (cases name) (simp_all add: one_line_def)
  have lines: "concat (map (payload_line \<circ> chomp) (split_on newline ?frame)) = [payload]"
    unfolding frame_text_lines(1) [OF assms] using data event payload_line_name payload_line_data
    by (cases name) simp_all
  show "parse_sse_event ?frame = Inr (Some \<lparr>ev_event_type = name, ev_data = payload\<rparr>)"
    using name lines frame_text_lines(2) [OF assms] by (simp add: parse_sse_event_def fold_parse_line)
  have "last (''data: '' @ payload) \<noteq> carriage_return"
    using assms(1) last_in_set [of payload] by (auto simp: one_line_def simp del: last_in_set)
  then have "last ?frame \<noteq> carriage_return" by (simp add: frame_text_def)
  then have "\<not> suffix [carriage_return] ?frame" by (auto simp: suffix_def)
  then show "parse_sse_data_payload ?frame = Inr (Some payload)"
    using lines_of_data lines frame_text_lines(2) [OF assms] by (simp add: parse_sse_data_payload_def)
qed

lemma decode_serialized:
  assumes "one_line (to_text v)" "pred_option one_line (event_name v)"
    "length (serialize_sse_data to_text v) \<le> max_stream_aggregate_frame_bytes"
  shows "decode_frames at_end (serialize_sse_data to_text v @ rest) =
    (let (events, err, remaining) = decode_frames at_end rest
     in (\<lparr>ev_event_type = event_name v, ev_data = to_text v\<rparr> # events, err, remaining))"
proof -
  let ?s = "frame_text (event_name v) (to_text v) @ newline # newline # rest"
  have "serialize_sse_data to_text v @ rest = ?s"
    "length (frame_text (event_name v) (to_text v)) + 2 \<le> max_stream_aggregate_frame_bytes"
    using assms(3) by (simp_all add: serialize_sse_data_eq)
  then show ?thesis
    using assms(1,2) by (simp add: decode_frames.simps [of at_end ?s] frame_text_boundary parse_frame_text
        events_of_def case_prod_unfold Let_def)
qed

lemma decode_serialized_list:
  assumes "\<And>v. v \<in> set vs \<Longrightarrow> one_line (to_text v) \<and> pred_option one_line (event_name v)
      \<and> length (serialize_sse_data to_text v) \<le> max_stream_aggregate_frame_bytes"
  shows "decode_frames at_end (concat (map (serialize_sse_data to_text) vs)) =
      (map (\<lambda>v. \<lparr>ev_event_type = event_name v, ev_data = to_text v\<rparr>) vs, None, [])"
  using assms by (induction vs) (simp_all add: decode_serialized)

lemma next_frame_serialized:
  assumes "one_line (to_text v)" "pred_option one_line (event_name v)"
  shows "\<exists>frame. next_sse_frame (serialize_sse_data to_text v @ rest) = Some (frame, 2)
    \<and> serialize_raw_sse_frame frame 2 = serialize_sse_data to_text v
    \<and> parse_sse_data_payload frame = Inr (Some (to_text v))"
  using frame_text_boundary [OF assms, of rest] parse_frame_text(2) [OF assms]
  by (simp add: next_sse_frame_boundary serialize_sse_data_eq serialize_raw_sse_frame_def sse_frame_delimiter_def)

text \<open>
  C37. What the gateway writes as events, every reader of the gateway reads back: for values whose
  text and type stay on one line, within the limits, the bytes of \<open>serialize_sse_data\<close> cut into any
  chunks give the decoder each value's text under the value's type, in order and without an error;
  and the proxy finds each value's frame, with the value's text as its payload, whatever follows it.
\<close>

theorem serialized_events_roundtrip:
  assumes "\<And>v. v \<in> set vs \<Longrightarrow> one_line (to_text v) \<and> pred_option one_line (event_name v)
      \<and> length (serialize_sse_data to_text v) \<le> max_stream_aggregate_frame_bytes"
    and "concat chunks = concat (map (serialize_sse_data to_text) vs)"
    and "length (concat chunks) \<le> max_stream_aggregate_total_bytes"
  shows "read_stream decoder_new chunks =
      Inr (map (\<lambda>v. \<lparr>ev_event_type = event_name v, ev_data = to_text v\<rparr>) vs, None)
    \<and> (\<forall>v\<in>set vs. \<forall>rest. \<exists>frame. next_sse_frame (serialize_sse_data to_text v @ rest) = Some (frame, 2)
         \<and> serialize_raw_sse_frame frame 2 = serialize_sse_data to_text v
         \<and> parse_sse_data_payload frame = Inr (Some (to_text v)))"
proof -
  have "pending decoder_new = []" "\<not> de_finished decoder_new" "de_total_bytes decoder_new = 0"
    by (simp_all add: decoder_new_def pending_def)
  then have "read_stream decoder_new chunks =
      Inr (case decode_frames True (concat chunks) of (events, err, _) \<Rightarrow> (events, err))"
    using read_stream_spec [of decoder_new chunks] assms(3) by (simp add: case_prod_unfold)
  moreover have "\<exists>frame. next_sse_frame (serialize_sse_data to_text v @ rest) = Some (frame, 2)
         \<and> serialize_raw_sse_frame frame 2 = serialize_sse_data to_text v
         \<and> parse_sse_data_payload frame = Inr (Some (to_text v))" if "v \<in> set vs" for v rest
    using assms(1) [OF that] by (intro next_frame_serialized) simp_all
  ultimately show ?thesis
    using decode_serialized_list [OF assms(1)] assms(2) by simp
qed

definition ping_value :: "nat json" where
  "ping_value = JObject [(''type'', JString ''ping'')]"

theorem serialized_events_roundtrip_witness:
  "read_stream decoder_new [''event: ping'', [newline] @ ''data: {}'' @ [newline], [newline]]
    = Inr ([\<lparr>ev_event_type = Some ''ping'', ev_data = ''{}''\<rparr>], None)"
proof -
  have "one_line ''{}''" "pred_option one_line (event_name ping_value)" "event_name ping_value = Some ''ping''"
    by (simp_all add: one_line_def utf8_valid_ascii event_name_def filter_option_def ping_value_def)
  then show ?thesis
    using serialized_events_roundtrip [of "[ping_value]" "\<lambda>_. ''{}''"
        "[''event: ping'', [newline] @ ''data: {}'' @ [newline], [newline]]"]
    by (simp add: serialize_sse_data_eq frame_text_def max_stream_aggregate_frame_bytes_def
        max_stream_aggregate_total_bytes_def)
qed

end
