(* ===== verification/Ordered_Map.thy ===== *)
theory Ordered_Map
  imports Gateway_Prelude
begin

text \<open>
  \<open>BTreeMap\<close>, and the maps of JSON objects built on it: an association list in strictly ascending
  order of its keys. The laws of a keyed table, and what a sequence of updates leaves at a key,
  are a locale that the ordered map satisfies.
\<close>

fun bt_insert :: "'k::linorder \<Rightarrow> 'v \<Rightarrow> ('k \<times> 'v) list \<Rightarrow> ('k \<times> 'v) list" where
  "bt_insert k v [] = [(k, v)]"
| "bt_insert k v ((k', v') # m) =
    (if k = k' then (k, v) # m
     else if k < k' then (k, v) # (k', v') # m
     else (k', v') # bt_insert k v m)"

definition bt_sorted :: "('k::linorder \<times> 'v) list \<Rightarrow> bool" where
  "bt_sorted m = sorted_wrt (<) (map fst m)"

text \<open>\<open>entry(k).or_default()\<close>: the entry, or the default that is then stored.\<close>

definition bt_entry :: "'v \<Rightarrow> 'k \<Rightarrow> ('k \<times> 'v) list \<Rightarrow> 'v" where
  "bt_entry dflt k m = (case map_of m k of None \<Rightarrow> dflt | Some v \<Rightarrow> v)"

lemma bt_sorted_Nil [simp]: "bt_sorted []"
  by (simp add: bt_sorted_def)

lemma bt_sorted_Cons: "bt_sorted ((k, v) # m) \<longleftrightarrow> (\<forall>k' \<in> fst ` set m. k < k') \<and> bt_sorted m"
  by (auto simp: bt_sorted_def)

lemma bt_insert_keys: "fst ` set (bt_insert k v m) = insert k (fst ` set m)"
  by (induction k v m rule: bt_insert.induct) auto

lemma bt_insert_sorted: "bt_sorted m \<Longrightarrow> bt_sorted (bt_insert k v m)"
  by (induction k v m rule: bt_insert.induct) (auto simp: bt_sorted_Cons bt_insert_keys)

lemma map_of_bt_insert: "map_of (bt_insert k v m) = (map_of m)(k \<mapsto> v)"
  by (induction k v m rule: bt_insert.induct) auto

lemma bt_insert_not_Nil [simp]: "bt_insert k v m \<noteq> []"
  by (cases m) (auto split: if_splits)

lemma bt_sorted_distinct: "bt_sorted m \<Longrightarrow> distinct (map fst m)"
  by (simp add: bt_sorted_def strict_sorted_iff)

section \<open>Keyed tables\<close>

text \<open>
  A table that answers for a key what was last stored there. A sequence of updates leaves at each
  key the updates of that key, applied in order to the default.
\<close>

locale keyed_table =
  fixes lookup :: "'t \<Rightarrow> 'k \<Rightarrow> 'v option"
    and insert_at :: "'k \<Rightarrow> 'v \<Rightarrow> 't \<Rightarrow> 't"
  assumes lookup_insert: "lookup (insert_at k v t) k' = (if k' = k then Some v else lookup t k')"
begin

definition entry_or :: "'v \<Rightarrow> 'k \<Rightarrow> 't \<Rightarrow> 'v" where
  "entry_or dflt k t = (case lookup t k of None \<Rightarrow> dflt | Some v \<Rightarrow> v)"

definition update_at :: "'v \<Rightarrow> 'k \<times> ('v \<Rightarrow> 'v) \<Rightarrow> 't \<Rightarrow> 't" where
  "update_at dflt = (\<lambda>(k, f) t. insert_at k (f (entry_or dflt k t)) t)"

lemma entry_update_at:
  "entry_or dflt k' (update_at dflt (k, f) t)
    = (if k' = k then f (entry_or dflt k t) else entry_or dflt k' t)"
  by (simp add: entry_or_def update_at_def lookup_insert)

lemma entry_fold_updates:
  "entry_or dflt k (fold (update_at dflt) us t)
    = fold (\<lambda>(_, f). f) (filter (\<lambda>(k', _). k' = k) us) (entry_or dflt k t)"
  by (induction us arbitrary: t) (auto simp: entry_update_at)

lemma dom_fold_updates:
  "dom (lookup (fold (update_at dflt) us t)) = dom (lookup t) \<union> fst ` set us"
  by (induction us arbitrary: t) (auto simp: update_at_def lookup_insert dom_def split: if_splits)

end

interpretation btree: keyed_table map_of bt_insert
  by unfold_locales (simp add: map_of_bt_insert)

lemma btree_entry [simp]: "btree.entry_or = bt_entry"
  by (intro ext) (simp add: btree.entry_or_def bt_entry_def)

end
