(* ===== verification/Stream_Aggregate.thy ===== *)
theory Stream_Aggregate
  imports Sse_Decoder Ordered_Map Json_Value Weighted_Routing
begin

text \<open>
  The aggregation of a streamed upstream response into one response object
  (\<open>StreamResponseAggregator\<close> and the chat state of \<open>src/src/protocol/stream_aggregate.rs\<close>), the
  loop that reads a response with it, and the classifiers that look for the first output. The
  \<open>serde_json\<close> library is the parameter \<open>json_ops\<close>: the parser, the reading of a number as a
  \<open>u64\<close> and the number of a \<open>u64\<close>. An operation that can fail returns its result and the state
  it leaves, since the fields changed before an error stay changed.
\<close>

section \<open>JSON\<close>

record 'n json_ops =
  jo_from_str :: "string \<Rightarrow> 'n json option"
  jo_as_u64 :: "'n \<Rightarrow> 64 word option"
  jo_number :: "64 word \<Rightarrow> 'n"

type_synonym 'n json_map = "(string \<times> 'n json) list"

fun as_object :: "'n json \<Rightarrow> 'n json_map option" where
  "as_object (JObject members) = Some members"
| "as_object _ = None"

fun is_array :: "'n json \<Rightarrow> bool" where
  "is_array (JArray _) = True"
| "is_array _ = False"

fun as_u64 :: "'n json_ops \<Rightarrow> 'n json \<Rightarrow> 64 word option" where
  "as_u64 ops (JNumber n) = jo_as_u64 ops n"
| "as_u64 ops _ = None"

text \<open>The \<open>json!\<close> macro, and a map filled by insertions.\<close>

definition json_object :: "(string \<times> 'n json) list \<Rightarrow> 'n json_map" where
  "json_object kvs = fold (\<lambda>(k, v). bt_insert k v) kvs []"

text \<open>Steps that may fail, in sequence.\<close>

type_synonym 's step_result = "(protocol_error + unit) \<times> 's"

definition and_then :: "'s step_result \<Rightarrow> ('s \<Rightarrow> 's step_result) \<Rightarrow> 's step_result" where
  "and_then rs f = (case fst rs of Inl e \<Rightarrow> (Inl e, snd rs) | Inr _ \<Rightarrow> f (snd rs))"

section \<open>Merging fragments\<close>

definition merge_stream_identity :: "string \<Rightarrow> string \<Rightarrow> string" where
  "merge_stream_identity current incoming =
    (if current = [] then current @ incoming
     else if prefix incoming current then current
     else if prefix current incoming then incoming
     else current @ incoming)"

definition preserve_field :: "'n json option \<Rightarrow> 'n json \<Rightarrow> string \<Rightarrow> 'n json option" where
  "preserve_field target source field =
    (case filter_option (\<lambda>v. \<not> is_null v) (json_get source field) of
       Some v \<Rightarrow> Some v
     | None \<Rightarrow> target)"

definition insert_optional :: "string \<Rightarrow> 'n json option \<Rightarrow> 'n json_map \<Rightarrow> 'n json_map" where
  "insert_optional field v output = (case v of None \<Rightarrow> output | Some x \<Rightarrow> bt_insert field x output)"

text \<open>\<open>collect::<Result<Vec<_>, _>>()\<close>: the first error, or every value.\<close>

fun collect_ok :: "('e + 'a) list \<Rightarrow> 'e + 'a list" where
  "collect_ok [] = Inr []"
| "collect_ok (Inl e # rs) = Inl e"
| "collect_ok (Inr x # rs) = bind_ok (collect_ok rs) (\<lambda>xs. Inr (x # xs))"

fun stream_text :: "'n json \<Rightarrow> protocol_error + string" where
  "stream_text (JString text) = Inr text"
| "stream_text (JArray parts) = bind_ok (collect_ok (map stream_text parts)) (\<lambda>texts. Inr (concat texts))"
| "stream_text (JObject members) =
    (case Option.bind (map_of members ''text'') as_str of
       Some text \<Rightarrow> Inr text
     | None \<Rightarrow> Inl (invalid_stream Decode ''chat content delta has no text''))"
| "stream_text _ = Inl (invalid_stream Decode ''chat content delta is not textual'')"

definition merge_logprob_member :: "string \<times> 'n json \<Rightarrow> 'n json_map \<Rightarrow> 'n json_map" where
  "merge_logprob_member = (\<lambda>(key, v) existing.
    case (map_of existing key, v) of
      (Some (JArray old), JArray new) \<Rightarrow> bt_insert key (JArray (old @ new)) existing
    | _ \<Rightarrow> bt_insert key v existing)"

definition merge_logprobs :: "'n json option \<Rightarrow> 'n json \<Rightarrow> 'n json option" where
  "merge_logprobs target incoming =
    (case Option.bind target as_object of
       None \<Rightarrow> Some incoming
     | Some existing \<Rightarrow>
         (case as_object incoming of
            None \<Rightarrow> Some incoming
          | Some members \<Rightarrow> Some (JObject (fold merge_logprob_member members existing))))"

section \<open>Tool calls\<close>

record chat_function_state =
  fn_name :: string
  fn_arguments :: string

definition function_default :: chat_function_state where
  "function_default = \<lparr>fn_name = [], fn_arguments = []\<rparr>"

definition function_apply :: "chat_function_state \<Rightarrow> 'n json_map \<Rightarrow> chat_function_state" where
  "function_apply f delta =
    (let f1 = (case Option.bind (map_of delta ''name'') as_str of
                 Some name \<Rightarrow> f\<lparr>fn_name := merge_stream_identity (fn_name f) name\<rparr> | None \<Rightarrow> f)
     in case Option.bind (map_of delta ''arguments'') as_str of
          Some arguments \<Rightarrow> f1\<lparr>fn_arguments := fn_arguments f1 @ arguments\<rparr> | None \<Rightarrow> f1)"

definition function_build :: "chat_function_state \<Rightarrow> 'n json" where
  "function_build f = JObject (json_object
    [(''name'', JString (fn_name f)), (''arguments'', JString (fn_arguments f))])"

record chat_tool_call_state =
  tc_id :: string
  tc_kind :: "string option"
  tc_function :: chat_function_state

definition tool_call_default :: chat_tool_call_state where
  "tool_call_default = \<lparr>tc_id = [], tc_kind = None, tc_function = function_default\<rparr>"

definition tool_call_apply :: "chat_tool_call_state \<Rightarrow> 'n json_map \<Rightarrow> chat_tool_call_state" where
  "tool_call_apply t delta =
    (let t1 = (case Option.bind (map_of delta ''id'') as_str of
                 Some ident \<Rightarrow> t\<lparr>tc_id := merge_stream_identity (tc_id t) ident\<rparr> | None \<Rightarrow> t);
         t2 = (case Option.bind (map_of delta ''type'') as_str of
                 Some kind \<Rightarrow> t1\<lparr>tc_kind := Some kind\<rparr> | None \<Rightarrow> t1)
     in case Option.bind (map_of delta ''function'') as_object of
          Some f \<Rightarrow> t2\<lparr>tc_function := function_apply (tc_function t2) f\<rparr> | None \<Rightarrow> t2)"

definition tool_call_build :: "'n json_ops \<Rightarrow> 64 word \<Rightarrow> chat_tool_call_state \<Rightarrow> 'n json" where
  "tool_call_build ops index t = JObject (json_object
    [(''index'', JNumber (jo_number ops index)), (''id'', JString (tc_id t)),
     (''type'', JString (unwrap_or (tc_kind t) ''function'')), (''function'', function_build (tc_function t))])"

type_synonym tool_call_map = "(64 word \<times> chat_tool_call_state) list"

fun apply_tool_calls :: "'n json_ops \<Rightarrow> nat \<Rightarrow> 'n json list \<Rightarrow> tool_call_map \<Rightarrow> tool_call_map step_result" where
  "apply_tool_calls ops fallback_index [] calls = (Inr (), calls)"
| "apply_tool_calls ops fallback_index (tool_call # rest) calls =
    (case as_object tool_call of
       None \<Rightarrow> (Inl (invalid_stream Decode ''chat tool call delta is not an object''), calls)
     | Some delta \<Rightarrow>
         let index = unwrap_or (Option.bind (map_of delta ''index'') (as_u64 ops)) (of_nat fallback_index)
         in apply_tool_calls ops (fallback_index + 1) rest
              (bt_insert index (tool_call_apply (bt_entry tool_call_default index calls) delta) calls))"

section \<open>Choices\<close>

record 'n chat_choice_state =
  cc_role :: "string option"
  cc_content :: string
  cc_refusal :: string
  cc_reasoning_content :: string
  cc_tool_calls :: tool_call_map
  cc_function_call :: "chat_function_state option"
  cc_finish_reason :: "'n json option"
  cc_logprobs :: "'n json option"

definition choice_default :: "'n chat_choice_state" where
  "choice_default = \<lparr>cc_role = None, cc_content = [], cc_refusal = [], cc_reasoning_content = [],
     cc_tool_calls = [], cc_function_call = None, cc_finish_reason = None, cc_logprobs = None\<rparr>"

definition apply_role :: "'n json_map \<Rightarrow> 'n chat_choice_state \<Rightarrow> 'n chat_choice_state" where
  "apply_role delta c =
    (case Option.bind (map_of delta ''role'') as_str of Some role \<Rightarrow> c\<lparr>cc_role := Some role\<rparr> | None \<Rightarrow> c)"

definition apply_content :: "'n json_map \<Rightarrow> 'n chat_choice_state \<Rightarrow> 'n chat_choice_state step_result" where
  "apply_content delta c =
    (case filter_option (\<lambda>v. \<not> is_null v) (map_of delta ''content'') of
       None \<Rightarrow> (Inr (), c)
     | Some content \<Rightarrow>
         (case stream_text content of
            Inl e \<Rightarrow> (Inl e, c)
          | Inr text \<Rightarrow> (Inr (), c\<lparr>cc_content := cc_content c @ text\<rparr>)))"

definition apply_texts :: "'n json_map \<Rightarrow> 'n chat_choice_state \<Rightarrow> 'n chat_choice_state" where
  "apply_texts delta c =
    (let c1 = (case Option.bind (map_of delta ''refusal'') as_str of
                 Some refusal \<Rightarrow> c\<lparr>cc_refusal := cc_refusal c @ refusal\<rparr> | None \<Rightarrow> c)
     in case Option.bind (map_of delta ''reasoning_content'') as_str of
          Some reasoning \<Rightarrow> c1\<lparr>cc_reasoning_content := cc_reasoning_content c1 @ reasoning\<rparr> | None \<Rightarrow> c1)"

definition apply_delta_tool_calls ::
  "'n json_ops \<Rightarrow> 'n json_map \<Rightarrow> 'n chat_choice_state \<Rightarrow> 'n chat_choice_state step_result" where
  "apply_delta_tool_calls ops delta c =
    (case Option.bind (map_of delta ''tool_calls'') as_array of
       None \<Rightarrow> (Inr (), c)
     | Some tool_calls \<Rightarrow>
         (let (r, calls) = apply_tool_calls ops 0 tool_calls (cc_tool_calls c)
          in (r, c\<lparr>cc_tool_calls := calls\<rparr>)))"

definition apply_function_call :: "'n json_map \<Rightarrow> 'n chat_choice_state \<Rightarrow> 'n chat_choice_state" where
  "apply_function_call delta c =
    (case Option.bind (map_of delta ''function_call'') as_object of
       None \<Rightarrow> c
     | Some f \<Rightarrow> c\<lparr>cc_function_call :=
         Some (function_apply (unwrap_or (cc_function_call c) function_default) f)\<rparr>)"

definition apply_delta :: "'n json_ops \<Rightarrow> 'n json_map \<Rightarrow> 'n chat_choice_state \<Rightarrow> 'n chat_choice_state step_result" where
  "apply_delta ops delta c =
    and_then (apply_content delta (apply_role delta c)) (\<lambda>c1.
    and_then (apply_delta_tool_calls ops delta (apply_texts delta c1)) (\<lambda>c2.
      (Inr (), apply_function_call delta c2)))"

definition choice_message :: "'n json_ops \<Rightarrow> 'n chat_choice_state \<Rightarrow> 'n json_map" where
  "choice_message ops c =
    (let m0 = json_object
           [(''role'', JString (unwrap_or (cc_role c) ''assistant'')),
            (''content'', if cc_content c = [] then JNull else JString (cc_content c))];
         m1 = (if cc_refusal c \<noteq> [] then bt_insert ''refusal'' (JString (cc_refusal c)) m0 else m0);
         m2 = (if cc_reasoning_content c \<noteq> []
               then bt_insert ''reasoning_content'' (JString (cc_reasoning_content c)) m1 else m1);
         m3 = (if cc_tool_calls c \<noteq> []
               then bt_insert ''tool_calls''
                      (JArray (map (\<lambda>(i, t). tool_call_build ops i t) (cc_tool_calls c))) m2
               else m2)
     in case cc_function_call c of
          None \<Rightarrow> m3
        | Some f \<Rightarrow> bt_insert ''function_call'' (function_build f) m3)"

definition choice_build :: "'n json_ops \<Rightarrow> 64 word \<Rightarrow> 'n chat_choice_state \<Rightarrow> 'n json" where
  "choice_build ops index c = JObject (json_object
    [(''index'', JNumber (jo_number ops index)),
     (''message'', JObject (choice_message ops c)),
     (''finish_reason'', unwrap_or (cc_finish_reason c) JNull),
     (''logprobs'', unwrap_or (cc_logprobs c) JNull)])"

section \<open>The chat response\<close>

record 'n chat_aggregate_state =
  ca_id :: "'n json option"
  ca_created :: "'n json option"
  ca_model :: "'n json option"
  ca_service_tier :: "'n json option"
  ca_system_fingerprint :: "'n json option"
  ca_usage :: "'n json option"
  ca_choices :: "(64 word \<times> 'n chat_choice_state) list"

definition chat_default :: "'n chat_aggregate_state" where
  "chat_default = \<lparr>ca_id = None, ca_created = None, ca_model = None, ca_service_tier = None,
     ca_system_fingerprint = None, ca_usage = None, ca_choices = []\<rparr>"

definition apply_choice_tail :: "'n json_map \<Rightarrow> 'n chat_choice_state \<Rightarrow> 'n chat_choice_state" where
  "apply_choice_tail choice c =
    (let c1 = (case filter_option (\<lambda>v. \<not> is_null v) (map_of choice ''finish_reason'') of
                 Some reason \<Rightarrow> c\<lparr>cc_finish_reason := Some reason\<rparr> | None \<Rightarrow> c)
     in case filter_option (\<lambda>v. \<not> is_null v) (map_of choice ''logprobs'') of
          Some logprobs \<Rightarrow> c1\<lparr>cc_logprobs := merge_logprobs (cc_logprobs c1) logprobs\<rparr> | None \<Rightarrow> c1)"

definition apply_choice :: "'n json_ops \<Rightarrow> 'n json_map \<Rightarrow> 'n chat_choice_state \<Rightarrow> 'n chat_choice_state step_result" where
  "apply_choice ops choice c =
    (let delta = Option.bind (or_else (map_of choice ''delta'') (map_of choice ''message'')) as_object
     in and_then (case delta of None \<Rightarrow> (Inr (), c) | Some d \<Rightarrow> apply_delta ops d c)
          (\<lambda>c1. (Inr (), apply_choice_tail choice c1)))"

type_synonym 'n choice_map = "(64 word \<times> 'n chat_choice_state) list"

fun apply_choices :: "'n json_ops \<Rightarrow> nat \<Rightarrow> 'n json list \<Rightarrow> 'n choice_map \<Rightarrow> 'n choice_map step_result" where
  "apply_choices ops fallback_index [] m = (Inr (), m)"
| "apply_choices ops fallback_index (choice # rest) m =
    (case as_object choice of
       None \<Rightarrow> (Inl (invalid_stream Decode ''chat choice is not an object''), m)
     | Some members \<Rightarrow>
         let index = unwrap_or (Option.bind (map_of members ''index'') (as_u64 ops)) (of_nat fallback_index);
             (r, c) = apply_choice ops members (bt_entry choice_default index m)
         in and_then (r, bt_insert index c m) (apply_choices ops (fallback_index + 1) rest))"

definition apply_header :: "'n json \<Rightarrow> 'n chat_aggregate_state \<Rightarrow> 'n chat_aggregate_state" where
  "apply_header event s = s
    \<lparr>ca_id := preserve_field (ca_id s) event ''id'',
     ca_created := preserve_field (ca_created s) event ''created'',
     ca_model := preserve_field (ca_model s) event ''model'',
     ca_service_tier := preserve_field (ca_service_tier s) event ''service_tier'',
     ca_system_fingerprint := preserve_field (ca_system_fingerprint s) event ''system_fingerprint'',
     ca_usage := preserve_field (ca_usage s) event ''usage''\<rparr>"

definition chat_apply_event ::
  "'n json_ops \<Rightarrow> 'n json \<Rightarrow> 'n chat_aggregate_state \<Rightarrow> 'n chat_aggregate_state step_result" where
  "chat_apply_event ops event s =
    (let s1 = apply_header event s in
     case Option.bind (json_get event ''choices'') as_array of
       None \<Rightarrow> (Inr (), s1)
     | Some choices \<Rightarrow>
         (let (r, m) = apply_choices ops 0 choices (ca_choices s1) in (r, s1\<lparr>ca_choices := m\<rparr>)))"

definition is_semantically_finished :: "'n chat_aggregate_state \<Rightarrow> bool" where
  "is_semantically_finished s =
    (ca_choices s \<noteq> [] \<and> list_all (\<lambda>(_, c). cc_finish_reason c \<noteq> None) (ca_choices s))"

definition build_response :: "'n json_ops \<Rightarrow> 'n chat_aggregate_state \<Rightarrow> protocol_error + 'n json" where
  "build_response ops s =
    (if ca_choices s = [] then Inl (invalid_stream Incomplete ''chat stream contains no choices'')
     else Inr (JObject
       (insert_optional ''usage'' (ca_usage s)
       (insert_optional ''system_fingerprint'' (ca_system_fingerprint s)
       (insert_optional ''service_tier'' (ca_service_tier s)
       (json_object
         [(''id'', unwrap_or (ca_id s) (JString ''chatcmpl'')),
          (''object'', JString ''chat.completion''),
          (''created'', unwrap_or (ca_created s) (JNumber (jo_number ops 0))),
          (''model'', unwrap_or (ca_model s) (JString [])),
          (''choices'', JArray (map (\<lambda>(i, c). choice_build ops i c) (ca_choices s)))]))))))"

section \<open>The aggregator\<close>

datatype 'n stream_aggregate_result = Pending | Complete "'n json"

record 'n stream_response_aggregator =
  ag_protocol :: upstream_protocol
  ag_decoder :: sse_decoder
  ag_chat :: "'n chat_aggregate_state"
  ag_complete :: "'n json option"
  ag_completion_emitted :: bool

definition aggregator_new :: "upstream_protocol \<Rightarrow> 'n stream_response_aggregator" where
  "aggregator_new protocol = \<lparr>ag_protocol = protocol, ag_decoder = decoder_new, ag_chat = chat_default,
     ag_complete = None, ag_completion_emitted = False\<rparr>"

definition completion_already_emitted :: protocol_error where
  "completion_already_emitted = invalid_stream Decode ''aggregate completion was already emitted''"

definition terminal_response_status :: "string option \<Rightarrow> string option" where
  "terminal_response_status event_type =
    (if event_type = Some ''response.completed'' then Some ''completed''
     else if event_type = Some ''response.incomplete'' then Some ''incomplete''
     else None)"

definition failure_type :: "string option \<Rightarrow> bool" where
  "failure_type event_type = (event_type = Some ''error'' \<or> event_type = Some ''response.failed'')"

definition has_error_envelope :: "'n json \<Rightarrow> bool" where
  "has_error_envelope v = is_some_and (json_get v ''error'') (\<lambda>e. \<not> is_null e)"

definition validate_terminal_tail :: "'n json_ops \<Rightarrow> sse_event \<Rightarrow> protocol_error + unit" where
  "validate_terminal_tail ops event =
    (if failure_type (ev_event_type event)
     then Inl (invalid_stream UpstreamEvent ''upstream emitted an SSE error event after terminal completion'')
     else let payload = trim (ev_data event) in
       if payload = ''[DONE]'' then Inr ()
       else case jo_from_str ops payload of
              Some v \<Rightarrow>
                if failure_type (Option.bind (json_get v ''type'') as_str) \<or> has_error_envelope v
                then Inl (invalid_stream UpstreamEvent ''upstream emitted an error event after terminal completion'')
                else Inl (invalid_stream Decode ''upstream emitted a semantic event after terminal completion'')
            | None \<Rightarrow> Inl (invalid_stream Decode ''upstream emitted a semantic event after terminal completion''))"

definition apply_responses_event ::
  "'n json \<Rightarrow> string option \<Rightarrow> 'n stream_response_aggregator \<Rightarrow> 'n stream_response_aggregator step_result" where
  "apply_responses_event event sse_event_type a =
    (let json_event_type = Option.bind (json_get event ''type'') as_str in
     if failure_type json_event_type
     then (Inl (invalid_stream UpstreamEvent ''upstream emitted a failed Responses event''), a)
     else
       let json_terminal = terminal_response_status json_event_type;
           sse_terminal = terminal_response_status sse_event_type
       in if json_terminal \<noteq> None \<and> sse_terminal \<noteq> None \<and> json_terminal \<noteq> sse_terminal
          then (Inl (invalid_stream Decode ''Responses SSE event type conflicts with the JSON event type''), a)
          else case or_else json_terminal sse_terminal of
                 None \<Rightarrow> (Inr (), a)
               | Some expected_status \<Rightarrow>
                   (case Option.bind (json_get event ''response'') as_object of
                      None \<Rightarrow> (Inl (invalid_stream Decode ''terminal Responses event has no response object''), a)
                    | Some response \<Rightarrow>
                        if Option.bind (map_of response ''status'') as_str \<noteq> Some expected_status
                           \<or> \<not> is_some_and (map_of response ''output'') is_array
                        then (Inl (invalid_stream Decode
                               ''terminal Responses event does not contain a complete response snapshot''), a)
                        else (Inr (), a\<lparr>ag_complete := Some (JObject response)\<rparr>)))"

definition process_event ::
  "'n json_ops \<Rightarrow> sse_event \<Rightarrow> 'n stream_response_aggregator \<Rightarrow> 'n stream_response_aggregator step_result" where
  "process_event ops event a =
    (if failure_type (ev_event_type event)
     then (Inl (invalid_stream UpstreamEvent ''upstream emitted an SSE error event''), a)
     else let payload = trim (ev_data event) in
       if payload = [] then (Inr (), a)
       else if payload = ''[DONE]''
       then (case ag_protocol a of
               ProtoChatCompletions \<Rightarrow>
                 (case build_response ops (ag_chat a) of
                    Inl e \<Rightarrow> (Inl e, a)
                  | Inr v \<Rightarrow> (Inr (), a\<lparr>ag_complete := Some v\<rparr>))
             | ProtoResponses \<Rightarrow>
                 (Inl (invalid_stream Incomplete ''responses stream ended without a terminal response object''), a))
       else case jo_from_str ops payload of
              None \<Rightarrow> (Inl (invalid_stream Decode ''data payload is not valid JSON''), a)
            | Some v \<Rightarrow>
                if has_error_envelope v
                then (Inl (invalid_stream UpstreamEvent ''upstream returned an error envelope''), a)
                else (case ag_protocol a of
                        ProtoChatCompletions \<Rightarrow>
                          (let (r, chat) = chat_apply_event ops v (ag_chat a) in (r, a\<lparr>ag_chat := chat\<rparr>))
                      | ProtoResponses \<Rightarrow> apply_responses_event v (ev_event_type event) a))"

definition process_event_or_terminal_tail ::
  "'n json_ops \<Rightarrow> sse_event \<Rightarrow> 'n stream_response_aggregator \<Rightarrow> 'n stream_response_aggregator step_result" where
  "process_event_or_terminal_tail ops event a =
    (if ag_complete a = None then process_event ops event a
     else case validate_terminal_tail ops event of
            Inl e \<Rightarrow> (Inl e, a\<lparr>ag_complete := None, ag_completion_emitted := True\<rparr>)
          | Inr _ \<Rightarrow> (Inr (), a))"

text \<open>An event changes the chat state or the completed response, and nothing else.\<close>

lemma apply_responses_event_keeps:
  assumes "P a" "\<And>v. P (a\<lparr>ag_complete := v\<rparr>)"
  shows "P (snd (apply_responses_event event sse_event_type a))"
  unfolding apply_responses_event_def Let_def
  by (simp only: snd_conv assms simp_thms if_True if_False split: if_split option.split)

lemma process_event_keeps:
  assumes "P a" "\<And>v. P (a\<lparr>ag_complete := v\<rparr>)" "\<And>c. P (a\<lparr>ag_chat := c\<rparr>)"
  shows "P (snd (process_event ops event a))"
  unfolding process_event_def Let_def case_prod_unfold
  by (simp only: snd_conv assms apply_responses_event_keeps [of P, OF assms(1,2)] simp_thms
      split: if_split option.split sum.split upstream_protocol.split)

lemma process_event_decoder [simp]:
  "ag_decoder (snd (process_event ops event a)) = ag_decoder a"
  "ag_protocol (snd (process_event ops event a)) = ag_protocol a"
  "ag_completion_emitted (snd (process_event ops event a)) = ag_completion_emitted a"
  by (rule process_event_keeps; simp)+

lemma process_event_result:
  "process_event ops event a = (r, a1) \<Longrightarrow> ag_decoder a1 = ag_decoder a \<and> ag_protocol a1 = ag_protocol a
    \<and> ag_completion_emitted a1 = ag_completion_emitted a"
  by (metis process_event_decoder snd_conv)

lemma process_tail_decoder [simp]:
  "ag_decoder (snd (process_event_or_terminal_tail ops event a)) = ag_decoder a"
  "ag_protocol (snd (process_event_or_terminal_tail ops event a)) = ag_protocol a"
  by (auto simp: process_event_or_terminal_tail_def split: sum.splits)

lemma process_tail_result:
  "process_event_or_terminal_tail ops event a = (r, a1) \<Longrightarrow> ag_decoder a1 = ag_decoder a"
  by (metis process_tail_decoder(1) snd_conv)

text \<open>
  The loop \<open>while let Some(event) = self.decoder.next_event()?\<close> of \<open>push_observing\<close> and
  \<open>finish_observing\<close>: the observer is a state that each processed event updates.
\<close>

function process_available :: "'n json_ops \<Rightarrow> (sse_event \<Rightarrow> 's \<Rightarrow> 's) \<Rightarrow> 's \<Rightarrow> 'n stream_response_aggregator
    \<Rightarrow> ((protocol_error + unit) \<times> 's \<times> 'n stream_response_aggregator) outcome_or_panic" where
  "process_available ops observe obs a =
    (case next_event (ag_decoder a) of
       Inl p \<Rightarrow> Inl p
     | Inr (Inl e, d) \<Rightarrow> Inr (Inl e, obs, a\<lparr>ag_decoder := d\<rparr>)
     | Inr (Inr None, d) \<Rightarrow> Inr (Inr (), obs, a\<lparr>ag_decoder := d\<rparr>)
     | Inr (Inr (Some event), d) \<Rightarrow>
         (case process_event_or_terminal_tail ops event (a\<lparr>ag_decoder := d\<rparr>) of
            (Inl e, a1) \<Rightarrow> Inr (Inl e, obs, a1)
          | (Inr _, a1) \<Rightarrow> process_available ops observe (observe event obs) a1))"
  by pat_completeness auto
termination
  by (relation "measure (\<lambda>(_, _, _, a). length (de_buffer (ag_decoder a)) - de_consumed_offset (ag_decoder a))")
    (auto dest!: next_event_progress process_tail_result [OF sym])

declare process_available.simps [simp del]

definition push_observing :: "'n json_ops \<Rightarrow> (sse_event \<Rightarrow> 's \<Rightarrow> 's) \<Rightarrow> string \<Rightarrow> 's \<Rightarrow> 'n stream_response_aggregator
    \<Rightarrow> ((protocol_error + 'n stream_aggregate_result) \<times> 's \<times> 'n stream_response_aggregator) outcome_or_panic" where
  "push_observing ops observe chunk obs a =
    (if ag_completion_emitted a then Inr (Inl completion_already_emitted, obs, a)
     else case append_chunk (ag_decoder a) chunk of
            (Inl e, d) \<Rightarrow> Inr (Inl e, obs, a\<lparr>ag_decoder := d\<rparr>)
          | (Inr _, d) \<Rightarrow>
              bind_ok (process_available ops observe obs (a\<lparr>ag_decoder := d\<rparr>)) (\<lambda>(r, obs1, a1).
                case r of
                  Inl e \<Rightarrow> Inr (Inl e, obs1, a1)
                | Inr _ \<Rightarrow>
                    (case ag_complete a1 of
                       Some v \<Rightarrow> Inr (Inr (Complete v), obs1, a1\<lparr>ag_complete := None, ag_completion_emitted := True\<rparr>)
                     | None \<Rightarrow> Inr (Inr Pending, obs1, a1))))"

definition aggregator_push :: "'n json_ops \<Rightarrow> string \<Rightarrow> 'n stream_response_aggregator
    \<Rightarrow> ((protocol_error + 'n stream_aggregate_result) \<times> 'n stream_response_aggregator) outcome_or_panic" where
  "aggregator_push ops chunk a = bind_ok (push_observing ops (\<lambda>_ u. u) chunk () a) (\<lambda>(r, _, a1). Inr (r, a1))"

definition finish_observing :: "'n json_ops \<Rightarrow> (sse_event \<Rightarrow> 's \<Rightarrow> 's) \<Rightarrow> 's \<Rightarrow> 'n stream_response_aggregator
    \<Rightarrow> ((protocol_error + 'n json) \<times> 's) outcome_or_panic" where
  "finish_observing ops observe obs a =
    (if ag_completion_emitted a then Inr (Inl completion_already_emitted, obs)
     else case ag_complete a of
            Some v \<Rightarrow> Inr (Inr v, obs)
          | None \<Rightarrow>
              bind_ok (process_available ops observe obs (a\<lparr>ag_decoder := decoder_finish (ag_decoder a)\<rparr>))
                (\<lambda>(r, obs1, a1).
                   case r of
                     Inl e \<Rightarrow> Inr (Inl e, obs1)
                   | Inr _ \<Rightarrow>
                       (case ag_complete a1 of
                          Some v \<Rightarrow> Inr (Inr v, obs1)
                        | None \<Rightarrow>
                            (case ag_protocol a1 of
                               ProtoChatCompletions \<Rightarrow>
                                 if is_semantically_finished (ag_chat a1)
                                 then Inr (build_response ops (ag_chat a1), obs1)
                                 else Inr (Inl (invalid_stream Incomplete
                                        ''chat stream ended before a semantic finish''), obs1)
                             | ProtoResponses \<Rightarrow>
                                 Inr (Inl (invalid_stream Incomplete
                                   ''responses stream ended before response.completed or response.incomplete''), obs1)))))"

definition aggregator_finish :: "'n json_ops \<Rightarrow> 'n stream_response_aggregator \<Rightarrow> (protocol_error + 'n json) outcome_or_panic" where
  "aggregator_finish ops a = bind_ok (finish_observing ops (\<lambda>_ u. u) () a) (\<lambda>(r, _). Inr r)"

section \<open>Reading a whole response\<close>

text \<open>
  What the stream reader delivers, and how the loop of \<open>aggregate_upstream_sse_response\<close>
  (\<open>src/src/server/gateway/stream.rs\<close>) ends. The loop takes the reader's outcomes in order; while
  it waits for the next one it has no result.
\<close>

datatype 'e stream_read_outcome =
    Chunk string
  | EndOfStream
  | ReadError 'e
  | Heartbeat
  | IdleTimeout
  | MaxDurationExceeded

datatype 'e aggregate_error =
    ProtocolFailure string protocol_error
  | TransportFailure 'e
  | StreamIdleTimeout
  | StreamMaxDuration

fun aggregate_upstream_sse_response :: "'n json_ops \<Rightarrow> 'n stream_response_aggregator \<Rightarrow> 'e stream_read_outcome list
    \<Rightarrow> ('e aggregate_error + 'n json) option outcome_or_panic" where
  "aggregate_upstream_sse_response ops a [] = Inr None"
| "aggregate_upstream_sse_response ops a (outcome # outcomes) =
    (case outcome of
       Chunk chunk \<Rightarrow>
         bind_ok (aggregator_push ops chunk a) (\<lambda>(r, a1).
           case r of
             Inl e \<Rightarrow> Inr (Some (Inl (ProtocolFailure ''aggregate_push'' e)))
           | Inr Pending \<Rightarrow> aggregate_upstream_sse_response ops a1 outcomes
           | Inr (Complete v) \<Rightarrow> Inr (Some (Inr v)))
     | EndOfStream \<Rightarrow>
         bind_ok (aggregator_finish ops a) (\<lambda>r.
           case r of
             Inl e \<Rightarrow> Inr (Some (Inl (ProtocolFailure ''aggregate_finish'' e)))
           | Inr v \<Rightarrow> Inr (Some (Inr v)))
     | ReadError e \<Rightarrow> Inr (Some (Inl (TransportFailure e)))
     | Heartbeat \<Rightarrow> aggregate_upstream_sse_response ops a outcomes
     | IdleTimeout \<Rightarrow> Inr (Some (Inl StreamIdleTimeout))
     | MaxDurationExceeded \<Rightarrow> Inr (Some (Inl StreamMaxDuration)))"

section \<open>The first output\<close>

datatype first_semantic_event_result = SemanticPending | SemanticReady

datatype first_usable_output_result = UsablePending | UsableReady | CompleteWithoutOutput

record 'n first_classifier =
  fc_decoder :: sse_decoder
  fc_validator :: "'n stream_response_aggregator"
  fc_ready :: bool

definition classifier_new :: "upstream_protocol \<Rightarrow> 'n first_classifier" where
  "classifier_new protocol =
    \<lparr>fc_decoder = decoder_new, fc_validator = aggregator_new protocol, fc_ready = False\<rparr>"

definition classify_next :: "'n json_ops \<Rightarrow> 'n first_classifier
    \<Rightarrow> ((protocol_error + first_semantic_event_result) \<times> 'n first_classifier) outcome_or_panic" where
  "classify_next ops c =
    bind_ok (next_event (fc_decoder c)) (\<lambda>(r, d).
      case r of
        Inl e \<Rightarrow> Inr (Inl e, c\<lparr>fc_decoder := d\<rparr>)
      | Inr None \<Rightarrow> Inr (Inr SemanticPending, c\<lparr>fc_decoder := d\<rparr>)
      | Inr (Some event) \<Rightarrow>
          (case process_event ops event (fc_validator c) of
             (Inl e, v) \<Rightarrow> Inr (Inl e, c\<lparr>fc_decoder := d, fc_validator := v\<rparr>)
           | (Inr _, v) \<Rightarrow> Inr (Inr SemanticReady, c\<lparr>fc_decoder := d, fc_validator := v, fc_ready := True\<rparr>)))"

definition semantic_push :: "'n json_ops \<Rightarrow> string \<Rightarrow> 'n first_classifier
    \<Rightarrow> ((protocol_error + first_semantic_event_result) \<times> 'n first_classifier) outcome_or_panic" where
  "semantic_push ops chunk c =
    (if fc_ready c then Inr (Inr SemanticReady, c)
     else case append_chunk (fc_decoder c) chunk of
            (Inl e, d) \<Rightarrow> Inr (Inl e, c\<lparr>fc_decoder := d\<rparr>)
          | (Inr _, d) \<Rightarrow> classify_next ops (c\<lparr>fc_decoder := d\<rparr>))"

definition semantic_finish :: "'n json_ops \<Rightarrow> 'n first_classifier
    \<Rightarrow> (protocol_error + first_semantic_event_result) outcome_or_panic" where
  "semantic_finish ops c =
    (if fc_ready c then Inr (Inr SemanticReady)
     else bind_ok (classify_next ops (c\<lparr>fc_decoder := decoder_finish (fc_decoder c)\<rparr>)) (\<lambda>(r, _).
            case r of
              Inl e \<Rightarrow> Inr (Inl e)
            | Inr SemanticReady \<Rightarrow> Inr (Inr SemanticReady)
            | Inr SemanticPending \<Rightarrow>
                Inr (Inl (invalid_stream Incomplete ''stream ended before the first semantic event''))))"

text \<open>The test for usable output may change the caller's state, which is threaded through.\<close>

function classify_available :: "'n json_ops \<Rightarrow> (sse_event \<Rightarrow> 's \<Rightarrow> bool \<times> 's) \<Rightarrow> 's \<Rightarrow> 'n first_classifier
    \<Rightarrow> ((protocol_error + first_usable_output_result) \<times> 's \<times> 'n first_classifier) outcome_or_panic" where
  "classify_available ops is_usable obs c =
    (case next_event (fc_decoder c) of
       Inl p \<Rightarrow> Inl p
     | Inr (Inl e, d) \<Rightarrow> Inr (Inl e, obs, c\<lparr>fc_decoder := d\<rparr>)
     | Inr (Inr None, d) \<Rightarrow> Inr (Inr UsablePending, obs, c\<lparr>fc_decoder := d\<rparr>)
     | Inr (Inr (Some event), d) \<Rightarrow>
         (case process_event ops event (fc_validator c) of
            (Inl e, v) \<Rightarrow> Inr (Inl e, obs, c\<lparr>fc_decoder := d, fc_validator := v\<rparr>)
          | (Inr _, v) \<Rightarrow>
              (let (usable, obs1) = is_usable event obs;
                   c1 = c\<lparr>fc_decoder := d, fc_validator := v\<rparr>
               in if usable then Inr (Inr UsableReady, obs1, c1\<lparr>fc_ready := True\<rparr>)
                  else if ag_complete v \<noteq> None then Inr (Inr CompleteWithoutOutput, obs1, c1)
                  else classify_available ops is_usable obs1 c1)))"
  by pat_completeness auto
termination
  by (relation "measure (\<lambda>(_, _, _, c). length (de_buffer (fc_decoder c)) - de_consumed_offset (fc_decoder c))")
    (auto dest!: next_event_progress)

declare classify_available.simps [simp del]

definition usable_push :: "'n json_ops \<Rightarrow> (sse_event \<Rightarrow> 's \<Rightarrow> bool \<times> 's) \<Rightarrow> string \<Rightarrow> 's \<Rightarrow> 'n first_classifier
    \<Rightarrow> ((protocol_error + first_usable_output_result) \<times> 's \<times> 'n first_classifier) outcome_or_panic" where
  "usable_push ops is_usable chunk obs c =
    (if fc_ready c then Inr (Inr UsableReady, obs, c)
     else case append_chunk (fc_decoder c) chunk of
            (Inl e, d) \<Rightarrow> Inr (Inl e, obs, c\<lparr>fc_decoder := d\<rparr>)
          | (Inr _, d) \<Rightarrow> classify_available ops is_usable obs (c\<lparr>fc_decoder := d\<rparr>))"

definition usable_finish :: "'n json_ops \<Rightarrow> (sse_event \<Rightarrow> 's \<Rightarrow> bool \<times> 's) \<Rightarrow> 's \<Rightarrow> 'n first_classifier
    \<Rightarrow> ((protocol_error + first_usable_output_result) \<times> 's) outcome_or_panic" where
  "usable_finish ops is_usable obs c =
    (if fc_ready c then Inr (Inr UsableReady, obs)
     else bind_ok (classify_available ops is_usable obs (c\<lparr>fc_decoder := decoder_finish (fc_decoder c)\<rparr>))
            (\<lambda>(r, obs1, _).
               case r of
                 Inl e \<Rightarrow> Inr (Inl e, obs1)
               | Inr UsablePending \<Rightarrow>
                   Inr (Inl (invalid_stream Incomplete ''stream ended before the first usable output''), obs1)
               | Inr result \<Rightarrow> Inr (Inr result, obs1)))"

end
