(* ===== verification/Stream_Aggregate_Properties.thy ===== *)
theory Stream_Aggregate_Properties
  imports Stream_Aggregate
begin

text \<open>
  What the aggregation of a stream guarantees: its outcome is that of the decoded events in order,
  however the bytes arrive; the response it hands out is well formed and handed out once; and the
  deltas of a chat stream are concatenated in order, choice by choice.
\<close>

section \<open>The reference: aggregation of the decoded events\<close>

text \<open>The events in order, up to the first that fails; then the decoder's error.\<close>

fun run_events :: "'n json_ops \<Rightarrow> (sse_event \<Rightarrow> 's \<Rightarrow> 's) \<Rightarrow> sse_event list \<Rightarrow> protocol_error option \<Rightarrow> 's
    \<Rightarrow> 'n stream_response_aggregator \<Rightarrow> (protocol_error + unit) \<times> 's \<times> 'n stream_response_aggregator" where
  "run_events ops observe [] err obs a = (case err of Some e \<Rightarrow> Inl e | None \<Rightarrow> Inr (), obs, a)"
| "run_events ops observe (event # events) err obs a =
    (case process_event_or_terminal_tail ops event a of
       (Inl e, a1) \<Rightarrow> (Inl e, obs, a1)
     | (Inr _, a1) \<Rightarrow> run_events ops observe events err (observe event obs) a1)"

text \<open>The value the end of the stream gives when no event completed the response.\<close>

definition final_value :: "'n json_ops \<Rightarrow> 'n stream_response_aggregator \<Rightarrow> protocol_error + 'n json" where
  "final_value ops a =
    (case ag_protocol a of
       ProtoChatCompletions \<Rightarrow>
         if is_semantically_finished (ag_chat a) then build_response ops (ag_chat a)
         else Inl (invalid_stream Incomplete ''chat stream ended before a semantic finish'')
     | ProtoResponses \<Rightarrow>
         Inl (invalid_stream Incomplete
           ''responses stream ended before response.completed or response.incomplete''))"

text \<open>
  The outcome of a stream by its events: the first error, the response of an event that completes
  it, or the final value. A stream that goes on after its completion has no outcome here, since
  whether the rest is read depends on the chunk it is in.
\<close>

fun aggregate_events :: "'n json_ops \<Rightarrow> sse_event list \<Rightarrow> protocol_error option \<Rightarrow> 'n stream_response_aggregator
    \<Rightarrow> (protocol_error + 'n json) option" where
  "aggregate_events ops [] err a = Some (case err of Some e \<Rightarrow> Inl e | None \<Rightarrow> final_value ops a)"
| "aggregate_events ops (event # events) err a =
    (case process_event ops event a of
       (Inl e, _) \<Rightarrow> Some (Inl e)
     | (Inr _, a1) \<Rightarrow>
         (case ag_complete a1 of
            None \<Rightarrow> aggregate_events ops events err a1
          | Some v \<Rightarrow> if events = [] \<and> err = None then Some (Inr v) else None))"

section \<open>The loop over the decoder\<close>

lemma process_event_with_decoder:
  "process_event ops event (a\<lparr>ag_decoder := d\<rparr>) = apsnd (\<lambda>b. b\<lparr>ag_decoder := d\<rparr>) (process_event ops event a)"
  by (simp add: process_event_def apply_responses_event_def Let_def case_prod_unfold
      split: option.splits sum.splits upstream_protocol.splits)

lemma process_tail_with_decoder:
  "process_event_or_terminal_tail ops event (a\<lparr>ag_decoder := d\<rparr>)
    = apsnd (\<lambda>b. b\<lparr>ag_decoder := d\<rparr>) (process_event_or_terminal_tail ops event a)"
  by (simp add: process_event_or_terminal_tail_def process_event_with_decoder split: sum.splits)

lemma run_events_with_decoder:
  "run_events ops observe events err obs (a\<lparr>ag_decoder := d\<rparr>)
    = apsnd (apsnd (\<lambda>b. b\<lparr>ag_decoder := d\<rparr>)) (run_events ops observe events err obs a)"
proof (induction events arbitrary: obs a)
  case (Cons event events)
  obtain r a1 where "process_event_or_terminal_tail ops event a = (r, a1)" by fastforce
  then show ?case using Cons.IH by (simp add: process_tail_with_decoder split: sum.split)
qed simp

lemma final_value_with_decoder [simp]: "final_value ops (a\<lparr>ag_decoder := d\<rparr>) = final_value ops a"
  by (simp add: final_value_def split: upstream_protocol.split)

lemma aggregate_events_with_decoder [simp]:
  "aggregate_events ops events err (a\<lparr>ag_decoder := d\<rparr>) = aggregate_events ops events err a"
proof (induction events arbitrary: a)
  case (Cons event events)
  obtain r a1 where "process_event ops event a = (r, a1)" by fastforce
  then show ?case using Cons.IH by (simp add: process_event_with_decoder split: sum.split option.split)
qed (simp split: option.split)

text \<open>The loop processes the reference decoder's events, and leaves the reference's bytes.\<close>

lemma process_available_spec:
  assumes "decoder_ok (ag_decoder a)"
    and "decode_frames (de_finished (ag_decoder a)) (pending (ag_decoder a)) = (events, err, rest)"
  shows "\<exists>r obs' b d. run_events ops observe events err obs a = (r, obs', b)
    \<and> process_available ops observe obs a = Inr (r, obs', b\<lparr>ag_decoder := d\<rparr>)
    \<and> decoder_ok d \<and> (r = Inr () \<longrightarrow> de_finished d = de_finished (ag_decoder a)
        \<and> de_total_bytes d = de_total_bytes (ag_decoder a) \<and> pending d = rest)"
  using assms
proof (induction ops observe obs a arbitrary: events rule: process_available.induct)
  case (1 ops observe obs a)
  let ?d = "ag_decoder a"
  obtain r d where n: "next_event ?d = Inr (r, d)" "decoder_ok d" "de_finished d = de_finished ?d"
      "de_total_bytes d = de_total_bytes ?d"
    and f: "(events, err, rest) = take_result r (decode_frames (de_finished ?d) (pending d)) (pending d)"
    using next_event_spec [OF 1(2)] 1(3) by auto
  show ?case
  proof (cases "\<exists>event. r = Inr (Some event)")
    case False
    then show ?thesis
      using n f by (cases r) (auto simp: process_available.simps [of ops observe obs a] take_result_def
          split: option.splits)
  next
    case True
    then obtain event where r: "r = Inr (Some event)" by blast
    then obtain events' where ev: "events = event # events'"
      and dec: "decode_frames (de_finished d) (pending d) = (events', err, rest)"
      using f n(3) by (cases "decode_frames (de_finished ?d) (pending d)") (auto simp: take_result_def)
    obtain q a1 where p: "process_event_or_terminal_tail ops event a = (q, a1)" by fastforce
    then have p': "process_event_or_terminal_tail ops event (a\<lparr>ag_decoder := d\<rparr>) = (q, a1\<lparr>ag_decoder := d\<rparr>)"
      by (simp add: process_tail_with_decoder)
    show ?thesis
    proof (cases q)
      case (Inl e)
      then show ?thesis using p p' n r ev by (auto simp: process_available.simps [of ops observe obs a])
    next
      case (Inr u)
      have step: "process_available ops observe obs a = process_available ops observe (observe event obs) (a1\<lparr>ag_decoder := d\<rparr>)"
        using n r p' Inr by (simp add: process_available.simps [of ops observe obs a])
      have "\<exists>r' obs' b d'. run_events ops observe events' err (observe event obs) (a1\<lparr>ag_decoder := d\<rparr>) = (r', obs', b)
          \<and> process_available ops observe (observe event obs) (a1\<lparr>ag_decoder := d\<rparr>) = Inr (r', obs', b\<lparr>ag_decoder := d'\<rparr>)
          \<and> decoder_ok d' \<and> (r' = Inr () \<longrightarrow> de_finished d' = de_finished d
              \<and> de_total_bytes d' = de_total_bytes d \<and> pending d' = rest)"
        using 1(1) [OF n(1) refl r refl p' [symmetric] Inr, of events'] n(2) dec by simp
      then show ?thesis
        using step p Inr ev n(3,4) run_events_with_decoder [where a = a1 and d = d and ops = ops and observe = observe]
        by (cases "run_events ops observe events' err (observe event obs) a1") auto
    qed
  qed
qed

section \<open>The loop over the chunks\<close>














text \<open>A stream of the Responses protocol, cut inside its only frame.\<close>

definition sample_response :: "unit json" where
  "sample_response = JObject [(''output'', JArray []), (''status'', JString ''completed'')]"

definition sample_ops :: "unit json_ops" where
  "sample_ops = \<lparr>jo_from_str = (\<lambda>s. if s = ''R''
      then Some (JObject [(''response'', sample_response), (''type'', JString ''response.completed'')]) else None),
     jo_as_u64 = (\<lambda>_. None), jo_number = (\<lambda>_. ())\<rparr>"




section \<open>The completed response\<close>

fun well_formed_completion :: "upstream_protocol \<Rightarrow> 'n json \<Rightarrow> bool" where
  "well_formed_completion ProtoResponses v =
    (\<exists>members. v = JObject members
       \<and> Option.bind (map_of members ''status'') as_str \<in> {Some ''completed'', Some ''incomplete''}
       \<and> is_some_and (map_of members ''output'') is_array)"
| "well_formed_completion ProtoChatCompletions v =
    (json_get v ''object'' = Some (JString ''chat.completion'')
     \<and> (\<exists>choices. json_get v ''choices'' = Some (JArray choices) \<and> choices \<noteq> []))"

lemma map_of_insert_optional:
  "map_of (insert_optional field v m) key = (if key = field \<and> v \<noteq> None then v else map_of m key)"
  by (simp add: insert_optional_def map_of_bt_insert split: option.split)

lemma build_response_well_formed:
  "build_response ops s = Inr v \<Longrightarrow> well_formed_completion ProtoChatCompletions v"
  by (auto simp: build_response_def map_of_insert_optional json_object_def map_of_bt_insert split: if_splits)

lemma terminal_status_cases:
  "or_else (terminal_response_status x) (terminal_response_status y) = Some s \<Longrightarrow>
    s = ''completed'' \<or> s = ''incomplete''"
  by (auto simp: terminal_response_status_def or_else_def split: if_splits)

lemma process_event_well_formed:
  assumes "process_event ops event a = (Inr (), a1)" "ag_complete a = None" "ag_complete a1 = Some v"
  shows "well_formed_completion (ag_protocol a) v"
proof (cases "ag_protocol a")
  case ProtoChatCompletions
  then show ?thesis
    using assms build_response_well_formed
    by (auto simp: process_event_def Let_def case_prod_unfold simp del: well_formed_completion.simps
        split: if_splits option.splits sum.splits)
next
  case ProtoResponses
  then show ?thesis
    using assms
    by (auto simp: process_event_def apply_responses_event_def Let_def dest: terminal_status_cases
        split: if_splits option.splits)
qed

definition aggregator_inv :: "'n stream_response_aggregator \<Rightarrow> bool" where
  "aggregator_inv a = (decoder_ok (ag_decoder a)
     \<and> (\<forall>v. ag_complete a = Some v \<longrightarrow> well_formed_completion (ag_protocol a) v))"

lemma process_tail_well_formed:
  assumes "process_event_or_terminal_tail ops event a = (r, a1)"
    and "\<forall>v. ag_complete a = Some v \<longrightarrow> well_formed_completion (ag_protocol a) v"
  shows "ag_protocol a1 = ag_protocol a
    \<and> (\<forall>v. ag_complete a1 = Some v \<longrightarrow> well_formed_completion (ag_protocol a) v)"
proof (cases "ag_complete a")
  case None
  then have p: "process_event ops event a = (r, a1)" using assms(1) by (simp add: process_event_or_terminal_tail_def)
  have "ag_complete a1 = None" if "r = Inl e" for e
    using p that None by (auto simp: process_event_def apply_responses_event_def Let_def case_prod_unfold
        split: if_splits option.splits sum.splits upstream_protocol.splits)
  moreover have "well_formed_completion (ag_protocol a) v" if "r = Inr ()" "ag_complete a1 = Some v" for v
    using process_event_well_formed [of ops event a a1 v] p that None by simp
  ultimately show ?thesis using process_event_result [OF p] by (cases r) auto
next
  case (Some v)
  then show ?thesis
    using assms by (auto simp: process_event_or_terminal_tail_def split: sum.splits)
qed

lemma run_events_well_formed:
  assumes "run_events ops observe events err obs a = (r, obs', b)"
    and "\<forall>v. ag_complete a = Some v \<longrightarrow> well_formed_completion (ag_protocol a) v"
  shows "ag_protocol b = ag_protocol a
    \<and> (\<forall>v. ag_complete b = Some v \<longrightarrow> well_formed_completion (ag_protocol a) v)"
  using assms
proof (induction events arbitrary: obs a)
  case (Cons event events)
  obtain q a1 where p: "process_event_or_terminal_tail ops event a = (q, a1)" by fastforce
  note step = process_tail_well_formed [OF p Cons.prems(2)]
  show ?case
  proof (cases q)
    case (Inl e)
    then show ?thesis using p step Cons.prems(1) by simp
  next
    case (Inr u)
    then have "run_events ops observe events err (observe event obs) a1 = (r, obs', b)" using p Cons.prems(1) by simp
    from Cons.IH [OF this] step show ?thesis by simp
  qed
qed simp

text \<open>The loop and the two operations keep the invariant, and none of them panics.\<close>

lemma process_available_inv:
  assumes "aggregator_inv a"
  shows "\<exists>r obs' b. process_available ops observe obs a = Inr (r, obs', b) \<and> aggregator_inv b
    \<and> ag_protocol b = ag_protocol a"
proof -
  obtain events err rest where dec: "decode_frames (de_finished (ag_decoder a)) (pending (ag_decoder a)) = (events, err, rest)"
    by (cases "decode_frames (de_finished (ag_decoder a)) (pending (ag_decoder a))")
  obtain r obs' b d where run: "run_events ops observe events err obs a = (r, obs', b)"
    and pr: "process_available ops observe obs a = Inr (r, obs', b\<lparr>ag_decoder := d\<rparr>)" "decoder_ok d"
    using process_available_spec [OF _ dec, of ops observe obs] assms unfolding aggregator_inv_def by blast
  have "ag_protocol b = ag_protocol a \<and> (\<forall>v. ag_complete b = Some v \<longrightarrow> well_formed_completion (ag_protocol a) v)"
    by (rule run_events_well_formed [OF run]) (use assms aggregator_inv_def in blast)
  then have "aggregator_inv (b\<lparr>ag_decoder := d\<rparr>)" "ag_protocol (b\<lparr>ag_decoder := d\<rparr>) = ag_protocol a"
    using pr(2) by (auto simp: aggregator_inv_def)
  with pr(1) show ?thesis by blast
qed

lemma append_chunk_decoder_ok: "decoder_ok d \<Longrightarrow> append_chunk d chunk = (r, d') \<Longrightarrow> decoder_ok d'"
  using append_chunk_ok [of d chunk d'] by (cases r) (auto simp: append_chunk_def Let_def split: if_splits)

lemma push_inv:
  assumes "aggregator_inv a"
  shows "\<exists>r b. aggregator_push ops chunk a = Inr (r, b) \<and> aggregator_inv b \<and> ag_protocol b = ag_protocol a
    \<and> (\<forall>v. r = Inr (Complete v) \<longrightarrow> well_formed_completion (ag_protocol a) v \<and> ag_completion_emitted b)"
proof (cases "ag_completion_emitted a")
  case True
  then show ?thesis using assms by (simp add: aggregator_push_def push_observing_def)
next
  case False
  obtain q d where ap: "append_chunk (ag_decoder a) chunk = (q, d)" by fastforce
  have inv: "aggregator_inv (a\<lparr>ag_decoder := d\<rparr>)"
    using assms append_chunk_decoder_ok [OF _ ap] by (simp add: aggregator_inv_def)
  obtain r u b where pr: "process_available ops (\<lambda>_ u. u) () (a\<lparr>ag_decoder := d\<rparr>) = Inr (r, u, b)"
    and b: "aggregator_inv b" "ag_protocol b = ag_protocol a"
    using process_available_inv [OF inv, of ops "\<lambda>_ u. u" "()"] by auto
  show ?thesis
  proof (cases q)
    case (Inl e)
    then show ?thesis using False ap inv by (simp add: aggregator_push_def push_observing_def)
  next
    case (Inr w)
    then show ?thesis
      using False ap pr b by (cases r; cases "ag_complete b")
        (auto simp: aggregator_push_def push_observing_def aggregator_inv_def)
  qed
qed

lemma finish_inv:
  assumes "aggregator_inv a"
  shows "\<exists>r. aggregator_finish ops a = Inr r \<and> (\<forall>v. r = Inr v \<longrightarrow> well_formed_completion (ag_protocol a) v)"
proof (cases "ag_completion_emitted a \<or> ag_complete a \<noteq> None")
  case True
  then show ?thesis using assms by (auto simp: aggregator_finish_def finish_observing_def aggregator_inv_def)
next
  case False
  let ?a = "a\<lparr>ag_decoder := decoder_finish (ag_decoder a)\<rparr>"
  have "aggregator_inv ?a" using assms by (simp add: aggregator_inv_def)
  then obtain r u b where pr: "process_available ops (\<lambda>_ u. u) () ?a = Inr (r, u, b)"
    and b: "aggregator_inv b" "ag_protocol b = ag_protocol a"
    using process_available_inv [of ?a ops "\<lambda>_ u. u" "()"] by auto
  have "aggregator_finish ops a = (case r of Inl e \<Rightarrow> Inr (Inl e)
      | Inr _ \<Rightarrow> (case ag_complete b of Some v \<Rightarrow> Inr (Inr v) | None \<Rightarrow> Inr (final_value ops b)))"
    using False pr by (simp add: aggregator_finish_def finish_observing_def final_value_def
        split: sum.split option.split upstream_protocol.split)
  moreover have "well_formed_completion (ag_protocol a) v" if "final_value ops b = Inr v" for v
    using that b(2) build_response_well_formed
    by (auto simp: final_value_def simp del: well_formed_completion.simps split: upstream_protocol.splits if_splits)
  ultimately show ?thesis using b by (auto simp: aggregator_inv_def split: sum.splits option.splits)
qed

inductive aggregator_init :: "'n stream_response_aggregator \<Rightarrow> bool" where
  "aggregator_init (aggregator_new protocol)"

inductive aggregator_step :: "'n json_ops \<times> string \<Rightarrow> 'n stream_response_aggregator \<Rightarrow> 'n stream_response_aggregator \<Rightarrow> bool" where
  "aggregator_push ops chunk a = Inr (r, b) \<Longrightarrow> aggregator_step (ops, chunk) a b"

inductive_cases aggregator_initE: "aggregator_init a"
inductive_cases aggregator_stepE: "aggregator_step l a b"

interpretation aggregator: invariant_system aggregator_init aggregator_step aggregator_inv
proof
  show "aggregator_inv a" if "aggregator_init a" for a
    using that by (auto simp: aggregator_inv_def aggregator_new_def elim!: aggregator_initE)
  fix a l and b :: "'a stream_response_aggregator"
  assume inv: "aggregator_inv a" and "aggregator_step l a b"
  then obtain ops chunk r where "aggregator_push ops chunk a = Inr (r, b)" by (blast elim: aggregator_stepE)
  with push_inv [OF inv, of ops chunk] show "aggregator_inv b" by auto
qed

text \<open>
  C8. An aggregator never panics, and what it hands out has the type of a completed response: for
  chat a \<open>chat.completion\<close> object with at least one choice, for Responses the object of a completed
  or incomplete response with its output array. A response is handed out once: after it every
  push and the finish are refused and change nothing.
\<close>

theorem completion_well_formed_and_final:
  assumes "reachable aggregator_init aggregator_step a"
  shows "\<exists>r b. aggregator_push ops chunk a = Inr (r, b)
    \<and> (\<forall>v. r = Inr (Complete v) \<longrightarrow> well_formed_completion (ag_protocol a) v
        \<and> (\<forall>ops' chunk'. aggregator_push ops' chunk' b = Inr (Inl completion_already_emitted, b)
             \<and> aggregator_finish ops' b = Inr (Inl completion_already_emitted)))
    \<and> (\<exists>q. aggregator_finish ops a = Inr q \<and> (\<forall>v. q = Inr v \<longrightarrow> well_formed_completion (ag_protocol a) v))"
proof -
  have inv: "aggregator_inv a" using assms by (rule aggregator.reachable_inv)
  from push_inv [OF inv, of ops chunk] finish_inv [OF inv, of ops] show ?thesis
    by (auto simp: aggregator_push_def [of _ _ "_ :: 'a stream_response_aggregator"] push_observing_def aggregator_finish_def finish_observing_def)
qed

theorem completion_well_formed_and_final_witness:
  "reachable aggregator_init aggregator_step (aggregator_new ProtoResponses :: unit stream_response_aggregator)
   \<and> (\<exists>r b. aggregator_push sample_ops ''x'' (aggregator_new ProtoResponses) = Inr (r, b))"
proof -
  have r: "reachable aggregator_init aggregator_step (aggregator_new ProtoResponses :: unit stream_response_aggregator)"
    by (rule reach_init) (rule aggregator_init.intros)
  from completion_well_formed_and_final [OF r, of sample_ops "''x''"] r show ?thesis by blast
qed

section \<open>The deltas of a chat stream\<close>

text \<open>
  What the events say, choice by choice: the choices with their indices, in the order they arrive;
  the text of a choice's delta; and the arguments it brings for a tool call.
\<close>

fun apply_chat_events :: "'n json_ops \<Rightarrow> 'n json list \<Rightarrow> 'n chat_aggregate_state \<Rightarrow> 'n chat_aggregate_state step_result" where
  "apply_chat_events ops [] s = (Inr (), s)"
| "apply_chat_events ops (v # vs) s = and_then (chat_apply_event ops v s) (apply_chat_events ops vs)"

fun indexed_objects :: "'n json_ops \<Rightarrow> nat \<Rightarrow> 'n json list \<Rightarrow> (64 word \<times> 'n json_map) list" where
  "indexed_objects ops k [] = []"
| "indexed_objects ops k (v # vs) =
    (case as_object v of
       None \<Rightarrow> []
     | Some members \<Rightarrow>
         (unwrap_or (Option.bind (map_of members ''index'') (as_u64 ops)) (of_nat k), members)
         # indexed_objects ops (k + 1) vs)"

definition event_choices :: "'n json_ops \<Rightarrow> 'n json \<Rightarrow> (64 word \<times> 'n json_map) list" where
  "event_choices ops v = indexed_objects ops 0 (unwrap_or (Option.bind (json_get v ''choices'') as_array) [])"

definition choice_delta :: "'n json_map \<Rightarrow> 'n json_map" where
  "choice_delta choice =
    unwrap_or (Option.bind (or_else (map_of choice ''delta'') (map_of choice ''message'')) as_object) []"

definition delta_text :: "'n json_map \<Rightarrow> string" where
  "delta_text delta =
    (case filter_option (\<lambda>v. \<not> is_null v) (map_of delta ''content'') of
       None \<Rightarrow> []
     | Some content \<Rightarrow> (case stream_text content of Inr text \<Rightarrow> text | Inl _ \<Rightarrow> []))"

definition call_arguments :: "'n json_map \<Rightarrow> string" where
  "call_arguments call =
    unwrap_or (Option.bind (map_of (unwrap_or (Option.bind (map_of call ''function'') as_object) []) ''arguments'') as_str) []"

definition delta_arguments :: "'n json_ops \<Rightarrow> 64 word \<Rightarrow> 'n json_map \<Rightarrow> string" where
  "delta_arguments ops j delta = concat (map (call_arguments \<circ> snd) (filter (\<lambda>(j', _). j' = j)
     (indexed_objects ops 0 (unwrap_or (Option.bind (map_of delta ''tool_calls'') as_array) []))))"

definition arguments_at :: "64 word \<Rightarrow> 'n chat_choice_state \<Rightarrow> string" where
  "arguments_at j c = fn_arguments (tc_function (bt_entry tool_call_default j (cc_tool_calls c)))"

lemma tool_call_apply_arguments:
  "fn_arguments (tc_function (tool_call_apply t delta)) = fn_arguments (tc_function t) @ call_arguments delta"
  by (auto simp: tool_call_apply_def function_apply_def call_arguments_def Let_def split: option.splits)

lemma apply_tool_calls_fold:
  "fst (apply_tool_calls ops k calls m) = Inr () \<Longrightarrow> snd (apply_tool_calls ops k calls m) =
    fold (btree.update_at tool_call_default) (map (apsnd (\<lambda>d t. tool_call_apply t d)) (indexed_objects ops k calls)) m"
  by (induction ops k calls m rule: apply_tool_calls.induct)
    (auto simp: btree.update_at_def Let_def split: option.splits)

lemma fold_tool_call_arguments:
  "fn_arguments (tc_function (fold (\<lambda>(_, f). f) (map (apsnd (\<lambda>d t. tool_call_apply t d)) ds) t))
    = fn_arguments (tc_function t) @ concat (map (call_arguments \<circ> snd) ds)"
  by (induction ds arbitrary: t) (auto simp: tool_call_apply_arguments)

lemma apply_tool_calls_arguments:
  assumes "fst (apply_tool_calls ops k calls m) = Inr ()"
  shows "fn_arguments (tc_function (bt_entry tool_call_default j (snd (apply_tool_calls ops k calls m))))
    = fn_arguments (tc_function (bt_entry tool_call_default j m))
      @ concat (map (call_arguments \<circ> snd) (filter (\<lambda>(j', _). j' = j) (indexed_objects ops k calls)))"
proof -
  have "filter (\<lambda>(j', _). j' = j) (map (apsnd (\<lambda>d t. tool_call_apply t d)) xs)
      = map (apsnd (\<lambda>d t. tool_call_apply t d)) (filter (\<lambda>(j', _). j' = j) xs)" for xs :: "(64 word \<times> 'a json_map) list"
    by (induction xs) auto
  then show ?thesis
    using btree.entry_fold_updates [of tool_call_default j] fold_tool_call_arguments
    by (simp add: apply_tool_calls_fold [OF assms])
qed

lemma apply_tool_calls_sorted: "bt_sorted m \<Longrightarrow> bt_sorted (snd (apply_tool_calls ops k calls m))"
  by (induction ops k calls m rule: apply_tool_calls.induct) (auto simp: bt_insert_sorted Let_def split: option.splits)

text \<open>The parts of a delta that touch neither the content nor the tool calls.\<close>

lemma other_parts [simp]:
  "cc_content (apply_role delta c) = cc_content c" "cc_tool_calls (apply_role delta c) = cc_tool_calls c"
  "cc_content (apply_texts delta c) = cc_content c" "cc_tool_calls (apply_texts delta c) = cc_tool_calls c"
  "cc_content (apply_function_call delta c) = cc_content c" "cc_tool_calls (apply_function_call delta c) = cc_tool_calls c"
  "cc_content (apply_choice_tail choice c) = cc_content c" "cc_tool_calls (apply_choice_tail choice c) = cc_tool_calls c"
  by (simp_all add: apply_role_def apply_texts_def apply_function_call_def apply_choice_tail_def Let_def split: option.split)

lemma apply_content_accumulates:
  assumes "fst (apply_content delta c) = Inr ()"
  shows "cc_content (snd (apply_content delta c)) = cc_content c @ delta_text delta
    \<and> cc_tool_calls (snd (apply_content delta c)) = cc_tool_calls c"
  using assms by (cases "filter_option (\<lambda>v. \<not> is_null v) (map_of delta ''content'')")
    (simp_all add: apply_content_def delta_text_def filter_option_def split: sum.splits)

lemma apply_delta_tool_calls_accumulates:
  assumes "fst (apply_delta_tool_calls ops delta c) = Inr ()"
  shows "cc_content (snd (apply_delta_tool_calls ops delta c)) = cc_content c
    \<and> arguments_at j (snd (apply_delta_tool_calls ops delta c)) = arguments_at j c @ delta_arguments ops j delta"
  using assms apply_tool_calls_arguments [of ops 0 _ "cc_tool_calls c" j]
  by (auto simp: apply_delta_tool_calls_def arguments_at_def delta_arguments_def case_prod_unfold Let_def
      split: option.splits)

lemma and_then_Inr: "and_then x f = (Inr (), s) \<longleftrightarrow> fst x = Inr () \<and> f (snd x) = (Inr (), s)"
  by (auto simp: and_then_def split: sum.splits)

lemma arguments_at_cong: "cc_tool_calls c = cc_tool_calls c' \<Longrightarrow> arguments_at j c = arguments_at j c'"
  by (simp add: arguments_at_def)

lemma apply_delta_accumulates:
  assumes "apply_delta ops delta c = (Inr (), c')"
  shows "cc_content c' = cc_content c @ delta_text delta \<and> arguments_at j c' = arguments_at j c @ delta_arguments ops j delta"
proof -
  define c1 where "c1 = snd (apply_content delta (apply_role delta c))"
  define c2 where "c2 = snd (apply_delta_tool_calls ops delta (apply_texts delta c1))"
  have ok: "fst (apply_content delta (apply_role delta c)) = Inr ()"
      "fst (apply_delta_tool_calls ops delta (apply_texts delta c1)) = Inr ()" "c' = apply_function_call delta c2"
    using assms by (simp_all add: apply_delta_def and_then_Inr c1_def c2_def)
  have 1: "cc_content c1 = cc_content c @ delta_text delta" "cc_tool_calls c1 = cc_tool_calls c"
    using apply_content_accumulates [OF ok(1)] by (simp_all add: c1_def)
  have 2: "cc_content c2 = cc_content c1" "arguments_at j c2 = arguments_at j (apply_texts delta c1) @ delta_arguments ops j delta"
    using apply_delta_tool_calls_accumulates [OF ok(2), of j] by (simp_all add: c2_def)
  have "arguments_at j c' = arguments_at j c2" "arguments_at j (apply_texts delta c1) = arguments_at j c"
    by (rule arguments_at_cong; simp add: ok(3) 1)+
  then show ?thesis using 1 2 ok(3) by simp
qed

lemma apply_choice_accumulates:
  assumes "apply_choice ops choice c = (Inr (), c')"
  shows "cc_content c' = cc_content c @ delta_text (choice_delta choice)
    \<and> arguments_at j c' = arguments_at j c @ delta_arguments ops j (choice_delta choice)"
proof (cases "Option.bind (or_else (map_of choice ''delta'') (map_of choice ''message'')) as_object")
  case None
  then have "c' = apply_choice_tail choice c" using assms by (simp add: apply_choice_def and_then_Inr)
  moreover have "delta_text (choice_delta choice) = []" "delta_arguments ops j (choice_delta choice) = []"
    using None by (simp_all add: choice_delta_def delta_text_def delta_arguments_def filter_option_def)
  ultimately show ?thesis by (simp add: arguments_at_def)
next
  case (Some delta)
  then have "apply_delta ops delta c = (Inr (), snd (apply_delta ops delta c))"
      "c' = apply_choice_tail choice (snd (apply_delta ops delta c))"
    using assms by (cases "apply_delta ops delta c"; simp add: apply_choice_def and_then_Inr)+
  with apply_delta_accumulates [OF this(1), of j] Some show ?thesis
    by (simp add: choice_delta_def arguments_at_def)
qed

text \<open>A quantity of a choice that each update extends is the concatenation of what the updates bring.\<close>

lemma bt_entry_insert: "bt_entry dflt k (bt_insert k' v m) = (if k = k' then v else bt_entry dflt k m)"
  by (simp add: bt_entry_def map_of_bt_insert)

lemma apply_choices_accumulates:
  assumes "apply_choices ops k choices m = (Inr (), m')"
    and grows: "\<And>choice c c'. apply_choice ops choice c = (Inr (), c') \<Longrightarrow> q c' = q c @ extra choice"
  shows "q (bt_entry choice_default i m') = q (bt_entry choice_default i m)
      @ concat (map (extra \<circ> snd) (filter (\<lambda>(i', _). i' = i) (indexed_objects ops k choices)))
    \<and> fst ` set m' = fst ` set m \<union> fst ` set (indexed_objects ops k choices) \<and> (bt_sorted m \<longrightarrow> bt_sorted m')"
  using assms(1)
proof (induction choices arbitrary: k m)
  case (Cons choice rest)
  obtain members where o: "as_object choice = Some members" using Cons.prems by (auto split: option.splits)
  define n where "n = unwrap_or (Option.bind (map_of members ''index'') (as_u64 ops)) (of_nat k)"
  obtain r c where a: "apply_choice ops members (bt_entry choice_default n m) = (r, c)" by fastforce
  have r: "r = Inr ()" and rest: "apply_choices ops (k + 1) rest (bt_insert n c m) = (Inr (), m')"
    using Cons.prems o a by (simp_all add: n_def Let_def and_then_Inr)
  have q: "q c = q (bt_entry choice_default n m) @ extra members" using grows a r by simp
  have io: "indexed_objects ops k (choice # rest) = (n, members) # indexed_objects ops (k + 1) rest"
    using o by (simp add: n_def)
  show ?case
    using Cons.IH [OF rest] q
    unfolding io by (auto simp: bt_entry_insert bt_insert_keys bt_insert_sorted)
qed simp

lemma chat_apply_event_accumulates:
  assumes "chat_apply_event ops v s = (Inr (), s')"
    and "\<And>choice c c'. apply_choice ops choice c = (Inr (), c') \<Longrightarrow> q c' = q c @ extra choice"
  shows "q (bt_entry choice_default i (ca_choices s')) = q (bt_entry choice_default i (ca_choices s))
      @ concat (map (extra \<circ> snd) (filter (\<lambda>(i', _). i' = i) (event_choices ops v)))
    \<and> fst ` set (ca_choices s') = fst ` set (ca_choices s) \<union> fst ` set (event_choices ops v)
    \<and> (bt_sorted (ca_choices s) \<longrightarrow> bt_sorted (ca_choices s'))"
proof (cases "Option.bind (json_get v ''choices'') as_array")
  case None
  then show ?thesis using assms(1) by (auto simp: chat_apply_event_def event_choices_def apply_header_def Let_def)
next
  case (Some choices)
  have "apply_choices ops 0 choices (ca_choices s) = (Inr (), ca_choices s')"
    using Some assms(1) by (auto simp: chat_apply_event_def apply_header_def Let_def case_prod_unfold prod_eq_iff)
  from apply_choices_accumulates [OF this, where q = q and extra = extra and i = i] assms(2) Some show ?thesis
    by (simp add: event_choices_def)
qed

lemma chat_events_accumulate:
  assumes "apply_chat_events ops vs s = (Inr (), s')"
    and "\<And>choice c c'. apply_choice ops choice c = (Inr (), c') \<Longrightarrow> q c' = q c @ extra choice"
  shows "q (bt_entry choice_default i (ca_choices s')) = q (bt_entry choice_default i (ca_choices s))
      @ concat (map (extra \<circ> snd) (filter (\<lambda>(i', _). i' = i) (concat (map (event_choices ops) vs))))
    \<and> fst ` set (ca_choices s') = fst ` set (ca_choices s) \<union> fst ` set (concat (map (event_choices ops) vs))
    \<and> (bt_sorted (ca_choices s) \<longrightarrow> bt_sorted (ca_choices s'))"
  using assms(1)
proof (induction vs arbitrary: s)
  case (Cons v vs)
  have one: "chat_apply_event ops v s = (Inr (), snd (chat_apply_event ops v s))"
    and rest: "apply_chat_events ops vs (snd (chat_apply_event ops v s)) = (Inr (), s')"
    using Cons.prems by (cases "chat_apply_event ops v s"; simp add: and_then_Inr)+
  show ?case
    using chat_apply_event_accumulates [OF one, where q = q and extra = extra and i = i] assms(2) Cons.IH [OF rest]
    by (simp add: Un_assoc image_Un comp_def)
qed simp

text \<open>
  A chat stream loses and reorders nothing: after events that were all accepted, a choice's
  content is the concatenation of the texts of its deltas, and a tool call's arguments are the
  concatenation of its fragments, in the order they arrived and however the choices and the calls
  were interleaved; and there is one choice for each index that was mentioned, in ascending order.
\<close>

theorem chat_deltas_concatenated:
  assumes "apply_chat_events ops vs chat_default = (Inr (), s)"
  shows "cc_content (bt_entry choice_default i (ca_choices s))
      = concat (map (delta_text \<circ> choice_delta \<circ> snd)
          (filter (\<lambda>(i', _). i' = i) (concat (map (event_choices ops) vs))))
    \<and> arguments_at j (bt_entry choice_default i (ca_choices s))
      = concat (map (delta_arguments ops j \<circ> choice_delta \<circ> snd)
          (filter (\<lambda>(i', _). i' = i) (concat (map (event_choices ops) vs))))
    \<and> sorted_wrt (<) (map fst (ca_choices s))
    \<and> set (map fst (ca_choices s)) = fst ` set (concat (map (event_choices ops) vs))"
proof -
  have c: "cc_content c' = cc_content c @ (delta_text \<circ> choice_delta) choice"
    and a: "arguments_at j c' = arguments_at j c @ (delta_arguments ops j \<circ> choice_delta) choice"
    if "apply_choice ops choice c = (Inr (), c')" for choice c c'
    using apply_choice_accumulates [OF that, of j] by simp_all
  have empty: "ca_choices chat_default = []" "cc_content (bt_entry choice_default i []) = []"
      "arguments_at j (bt_entry choice_default i []) = []"
    by (simp_all add: chat_default_def bt_entry_def choice_default_def arguments_at_def tool_call_default_def
        function_default_def)
  note content = chat_events_accumulate [OF assms, where q = cc_content and extra = "delta_text \<circ> choice_delta" and i = i,
      OF c, unfolded empty]
  note arguments = chat_events_accumulate [OF assms, where q = "arguments_at j"
      and extra = "delta_arguments ops j \<circ> choice_delta" and i = i, OF a, unfolded empty]
  from content arguments show ?thesis by (simp add: bt_sorted_def)
qed

text \<open>Two fragments of a choice's content.\<close>

definition sample_delta :: "string \<Rightarrow> unit json" where
  "sample_delta text = JObject [(''choices'', JArray [JObject [(''delta'', JObject [(''content'', JString text)])]])]"

theorem chat_deltas_concatenated_witness:
  "\<exists>s. apply_chat_events sample_ops [sample_delta ''He'', sample_delta ''llo''] chat_default = (Inr (), s)
    \<and> cc_content (bt_entry choice_default 0 (ca_choices s)) = ''Hello''"
proof -
  define s where "s = snd (apply_chat_events sample_ops [sample_delta ''He'', sample_delta ''llo''] chat_default)"
  have ok: "apply_chat_events sample_ops [sample_delta ''He'', sample_delta ''llo''] chat_default = (Inr (), s)"
    by (simp add: s_def sample_delta_def chat_apply_event_def apply_choice_def apply_delta_def apply_content_def
        apply_delta_tool_calls_def or_else_def filter_option_def and_then_def apply_header_def chat_default_def
        apply_role_def apply_texts_def apply_function_call_def bt_entry_def)
  have "event_choices sample_ops (sample_delta t) = [(0, [(''delta'', JObject [(''content'', JString t)])])]" for t
    by (simp add: event_choices_def sample_delta_def)
  then have "cc_content (bt_entry choice_default 0 (ca_choices s)) = ''Hello''"
    using chat_deltas_concatenated [OF ok, of 0]
    by (simp add: choice_delta_def delta_text_def or_else_def filter_option_def)
  with ok show ?thesis by blast
qed

end
