(* ===== verification/Upstream_Feedback.thy ===== *)
theory Upstream_Feedback
  imports Route_Cooldown Rust_Strings Json_Value
begin

text \<open>
  The classification of failed upstream responses into the failure classes of the route health
  registry, and the two gates that let parts of an upstream error reach a client
  (\<open>src/src/upstream_feedback.rs\<close>). The JSON library, the parser of HTTP dates and the clock are
  the parameter \<open>feedback_ops\<close>; the header map is the text of its \<open>Retry-After\<close> header. Patterns
  that are not ASCII are written as their UTF-8 bytes.
\<close>

section \<open>Library\<close>

record 'n feedback_ops =
  fb_from_str :: "string \<Rightarrow> 'n json option"
  fb_as_u64 :: "'n \<Rightarrow> nat option"
  fb_number_text :: "'n \<Rightarrow> string"
  fb_parse_date :: "string \<Rightarrow> int option"
  fb_now :: int

text \<open>\<open>str::contains\<close> with a string, and \<open>str::parse\<close> to an unsigned integer.\<close>

definition contains :: "string \<Rightarrow> string \<Rightarrow> bool" where
  "contains pattern s = sublist pattern s"

definition is_ascii_digit :: "char \<Rightarrow> bool" where
  "is_ascii_digit c = (CHR ''0'' \<le> c \<and> c \<le> CHR ''9'')"

definition is_ascii_lowercase :: "char \<Rightarrow> bool" where
  "is_ascii_lowercase c = (CHR ''a'' \<le> c \<and> c \<le> CHR ''z'')"

definition is_ascii_alphanumeric :: "char \<Rightarrow> bool" where
  "is_ascii_alphanumeric c =
    (is_ascii_digit c \<or> is_ascii_lowercase c \<or> (CHR ''A'' \<le> c \<and> c \<le> CHR ''Z''))"

definition parse_uint :: "nat \<Rightarrow> string \<Rightarrow> nat option" where
  "parse_uint limit s =
    (let digits = (case s of c # rest \<Rightarrow> if c = CHR ''+'' then rest else s | [] \<Rightarrow> []);
         n = fold (\<lambda>c acc. 10 * acc + (of_char c - 48)) digits (0 :: nat)
     in if digits \<noteq> [] \<and> list_all is_ascii_digit digits \<and> n \<le> limit then Some n else None)"

abbreviation parse_u16 :: "string \<Rightarrow> nat option" where
  "parse_u16 \<equiv> parse_uint 65535"

definition non_empty_trimmed :: "string option \<Rightarrow> string option" where
  "non_empty_trimmed s = filter_option (\<lambda>t. t \<noteq> []) (map_option trim s)"

section \<open>What an error body says\<close>

datatype upstream_response_semantic =
    Generic | ExplicitConcurrency | ExplicitContextOverflow | TargetModelCapacity | EdgeProxySemantic

record structured_error =
  se_codes :: "string list"
  se_raw_codes :: "string list"
  se_messages :: "string list"
  se_scopes :: "string list"
  se_statuses :: "nat list"

definition structured_default :: structured_error where
  "structured_default = \<lparr>se_codes = [], se_raw_codes = [], se_messages = [], se_scopes = [], se_statuses = []\<rparr>"

definition normalize_token :: "string \<Rightarrow> string" where
  "normalize_token s =
    map (\<lambda>c. if c = CHR ''-'' \<or> c = CHR '' '' then CHR ''_'' else c) (to_ascii_lowercase (trim s))"

fun scalar_string :: "'n feedback_ops \<Rightarrow> 'n json \<Rightarrow> string option" where
  "scalar_string ops (JString s) = Some (trim s)"
| "scalar_string ops (JNumber n) = Some (fb_number_text ops n)"
| "scalar_string ops _ = None"

fun scalar_u16 :: "'n feedback_ops \<Rightarrow> 'n json \<Rightarrow> nat option" where
  "scalar_u16 ops (JNumber n) = filter_option (\<lambda>v. v \<le> 65535) (fb_as_u64 ops n)"
| "scalar_u16 ops (JString s) = parse_u16 s"
| "scalar_u16 ops _ = None"

definition push_code :: "string \<Rightarrow> structured_error \<Rightarrow> structured_error" where
  "push_code code p = p\<lparr>se_codes := se_codes p @ [normalize_token code], se_raw_codes := se_raw_codes p @ [trim code]\<rparr>"

definition push_status :: "nat \<Rightarrow> structured_error \<Rightarrow> structured_error" where
  "push_status status p = p\<lparr>se_statuses := se_statuses p @ [status]\<rparr>"

definition collect_code :: "'n feedback_ops \<Rightarrow> 'n json \<Rightarrow> structured_error \<Rightarrow> structured_error" where
  "collect_code ops v p =
    (case scalar_string ops v of
       None \<Rightarrow> p
     | Some code \<Rightarrow>
         push_code code (case parse_u16 code of Some status \<Rightarrow> push_status status p | None \<Rightarrow> p))"

definition collect_status :: "'n feedback_ops \<Rightarrow> 'n json \<Rightarrow> structured_error \<Rightarrow> structured_error" where
  "collect_status ops v p =
    (case scalar_u16 ops v of
       Some status \<Rightarrow> push_status status p
     | None \<Rightarrow> (case scalar_string ops v of Some code \<Rightarrow> push_code code p | None \<Rightarrow> p))"

definition collect_scope :: "'n feedback_ops \<Rightarrow> 'n json \<Rightarrow> structured_error \<Rightarrow> structured_error" where
  "collect_scope ops v p =
    (case scalar_string ops v of Some scope \<Rightarrow> p\<lparr>se_scopes := se_scopes p @ [normalize_token scope]\<rparr> | None \<Rightarrow> p)"

definition push_message :: "string \<Rightarrow> structured_error \<Rightarrow> structured_error" where
  "push_message message p =
    (let message = trim message
     in if message \<noteq> [] then p\<lparr>se_messages := se_messages p @ [message]\<rparr> else p)"

text \<open>One member of an object; \<open>deeper\<close> collects a nested value at the next depth.\<close>

definition collect_member ::
  "'n feedback_ops \<Rightarrow> ('n json \<Rightarrow> structured_error \<Rightarrow> structured_error) \<Rightarrow> string \<times> 'n json \<Rightarrow> structured_error \<Rightarrow> structured_error" where
  "collect_member ops deeper = (\<lambda>(key, v) p.
    if key \<in> {''code'', ''error_code'', ''type''} then collect_code ops v p
    else if key \<in> {''status'', ''status_code'', ''http_status'', ''inner_code''} then collect_status ops v p
    else if key \<in> {''scope'', ''quota_scope''} then collect_scope ops v p
    else if key \<in> {''message'', ''error_message'', ''error_msg''}
    then (case as_str v of Some message \<Rightarrow> push_message message p | None \<Rightarrow> deeper v p)
    else if key \<in> {''error'', ''errors'', ''cause'', ''detail'', ''details'', ''response'', ''data''} then deeper v p
    else p)"

definition encoded_json :: "'n feedback_ops \<Rightarrow> string \<Rightarrow> 'n json option" where
  "encoded_json ops s =
    (if prefix ''{'' (trim s) \<or> prefix ''['' (trim s) then fb_from_str ops (trim s) else None)"

fun collect :: "'n feedback_ops \<Rightarrow> nat \<Rightarrow> 'n json \<Rightarrow> structured_error \<Rightarrow> structured_error" where
  "collect ops 0 v p = p"
| "collect ops (Suc depth) v p =
    (case v of
       JObject members \<Rightarrow> fold (collect_member ops (collect ops depth)) members p
     | JArray vs \<Rightarrow> fold (collect ops depth) vs p
     | JString s \<Rightarrow>
         (case encoded_json ops s of Some w \<Rightarrow> collect ops depth w p | None \<Rightarrow> push_message s p)
     | _ \<Rightarrow> p)"

definition structured_parse :: "'n feedback_ops \<Rightarrow> string option \<Rightarrow> structured_error" where
  "structured_parse ops body =
    (case Option.bind (non_empty_trimmed body) (fb_from_str ops) of
       None \<Rightarrow> structured_default
     | Some v \<Rightarrow> collect ops 8 v structured_default)"

definition normalized_message :: "structured_error \<Rightarrow> string option \<Rightarrow> string" where
  "normalized_message p fallback =
    (if se_messages p = [] then (case fallback of Some body \<Rightarrow> to_ascii_lowercase body | None \<Rightarrow> [])
     else join [CHR 0x0A] (map to_ascii_lowercase (se_messages p)))"

definition has_code :: "structured_error \<Rightarrow> string list \<Rightarrow> bool" where
  "has_code p vals = list_ex (\<lambda>code. code \<in> set vals) (se_codes p)"

definition has_code_fragment :: "structured_error \<Rightarrow> string \<Rightarrow> bool" where
  "has_code_fragment p fragment = list_ex (contains fragment) (se_codes p)"

definition has_status :: "structured_error \<Rightarrow> nat \<Rightarrow> bool" where
  "has_status p status = (status \<in> set (se_statuses p))"

definition is_key_quota :: "structured_error \<Rightarrow> bool" where
  "is_key_quota p =
    (has_code p [''key_quota_exhausted'', ''key_quota_exceeded'', ''api_key_quota_exhausted'',
                 ''api_key_quota_exceeded'']
     \<or> (list_ex (\<lambda>scope. scope = ''key'' \<or> scope = ''api_key'') (se_scopes p) \<and> has_code_fragment p ''quota''))"

definition is_concurrency_capacity :: "structured_error \<Rightarrow> bool" where
  "is_concurrency_capacity p =
    list_ex (\<lambda>code. contains ''concurr'' code \<or> contains ''in_flight'' code
      \<or> code \<in> {''capacity_unavailable'', ''capacity_exhausted'', ''concurrency_full''}) (se_codes p)"

definition is_context_overflow :: "structured_error \<Rightarrow> string \<Rightarrow> bool" where
  "is_context_overflow p message =
    (has_code p [''context_length_exceeded'', ''context_window_exceeded'', ''input_too_long'',
                 ''request_too_large'', ''prompt_too_long'', ''max_context_length_exceeded'']
     \<or> list_ex (\<lambda>pattern. contains pattern message)
        [''request exceeds limit'', ''maximum context length'', ''context length exceeded'',
         ''context window exceeded'', ''input is too long'', ''prompt is too long'',
         [CHR 0xE8, CHR 0xB6, CHR 0x85, CHR 0xE8, CHR 0xBF, CHR 0x87, CHR 0xE6, CHR 0x9C, CHR 0x80, CHR 0xE5, CHR 0xA4, CHR 0xA7, CHR 0xE4, CHR 0xB8, CHR 0x8A, CHR 0xE4, CHR 0xB8, CHR 0x8B, CHR 0xE6, CHR 0x96, CHR 0x87],
         [CHR 0xE4, CHR 0xB8, CHR 0x8A, CHR 0xE4, CHR 0xB8, CHR 0x8B, CHR 0xE6, CHR 0x96, CHR 0x87, CHR 0xE9, CHR 0x95, CHR 0xBF, CHR 0xE5, CHR 0xBA, CHR 0xA6, CHR 0xE8, CHR 0xB6, CHR 0x85, CHR 0xE5, CHR 0x87, CHR 0xBA],
         [CHR 0xE8, CHR 0xBE, CHR 0x93, CHR 0xE5, CHR 0x85, CHR 0xA5, CHR 0xE5, CHR 0x86, CHR 0x85, CHR 0xE5, CHR 0xAE, CHR 0xB9, CHR 0xE8, CHR 0xBF, CHR 0x87, CHR 0xE9, CHR 0x95, CHR 0xBF]])"

definition message_is_model_unsupported :: "string \<Rightarrow> bool" where
  "message_is_model_unsupported message = list_ex (\<lambda>pattern. contains pattern message)
    [''model is not supported'', ''model not supported'', ''model is unsupported'',
     ''model unsupported'', ''unsupported model'', ''model not found'', ''model_not_found'',
     ''no such model'', ''does not support model'']"

definition message_is_protocol_unsupported :: "string \<Rightarrow> bool" where
  "message_is_protocol_unsupported message = list_ex (\<lambda>pattern. contains pattern message)
    [''endpoint not found'', ''endpoint not supported'', ''unsupported endpoint'',
     ''protocol not supported'', ''unsupported protocol'', ''does not support responses'',
     ''method not allowed'']"

definition message_is_capacity_unavailable :: "string \<Rightarrow> bool" where
  "message_is_capacity_unavailable message = list_ex (\<lambda>pattern. contains pattern message)
    [''server is busy'', ''provider is busy'', ''temporarily overloaded'',
     [CHR 0xE7, CHR 0xB9, CHR 0x81, CHR 0xE5, CHR 0xBF, CHR 0x99],
     [CHR 0xE8, CHR 0xBF, CHR 0x87, CHR 0xE8, CHR 0xBD, CHR 0xBD],
     [CHR 0xE8, CHR 0xB6, CHR 0x85, CHR 0xE8, CHR 0xBD, CHR 0xBD]]"

definition message_is_concurrency_capacity :: "string \<Rightarrow> bool" where
  "message_is_concurrency_capacity message = list_ex (\<lambda>pattern. contains pattern message)
    [''concurrency'', ''concurrent'', ''in-flight'', ''capacity unavailable'',
     [CHR 0xE5, CHR 0xB9, CHR 0xB6, CHR 0xE5, CHR 0x8F, CHR 0x91],
     [CHR 0xE8, CHR 0xB4, CHR 0x9F, CHR 0xE8, CHR 0xBD, CHR 0xBD, CHR 0xE9, CHR 0xA5, CHR 0xB1, CHR 0xE5, CHR 0x92, CHR 0x8C],
     [CHR 0xE8, CHR 0xB4, CHR 0x9F, CHR 0xE8, CHR 0xBD, CHR 0xBD, CHR 0xE5, CHR 0xB7, CHR 0xB2, CHR 0xE9, CHR 0xA5, CHR 0xB1, CHR 0xE5, CHR 0x92, CHR 0x8C]]"

definition message_is_rate_limited :: "string \<Rightarrow> bool" where
  "message_is_rate_limited message = list_ex (\<lambda>pattern. contains pattern message)
    [''rate limit'', ''rate_limit'', ''too many requests'',
     [CHR 0xE9, CHR 0x99, CHR 0x90, CHR 0xE6, CHR 0xB5, CHR 0x81],
     [CHR 0xE9, CHR 0x99, CHR 0x90, CHR 0xE9, CHR 0x80, CHR 0x9F],
     [CHR 0xE9, CHR 0xA2, CHR 0x91, CHR 0xE7, CHR 0x8E, CHR 0x87, CHR 0xE8, CHR 0xBF, CHR 0x87, CHR 0xE9, CHR 0xAB, CHR 0x98],
     [CHR 0xE8, CHR 0xAF, CHR 0xB7, CHR 0xE6, CHR 0xB1, CHR 0x82, CHR 0xE8, CHR 0xBF, CHR 0x87, CHR 0xE4, CHR 0xBA, CHR 0x8E, CHR 0xE9, CHR 0xA2, CHR 0x91, CHR 0xE7, CHR 0xB9, CHR 0x81],
     [CHR 0xE8, CHR 0xAF, CHR 0xB7, CHR 0xE6, CHR 0xB1, CHR 0x82, CHR 0xE5, CHR 0xA4, CHR 0xAA, CHR 0xE9, CHR 0xA2, CHR 0x91, CHR 0xE7, CHR 0xB9, CHR 0x81],
     [CHR 0xE8, CHR 0xAF, CHR 0xB7, CHR 0xE6, CHR 0xB1, CHR 0x82, CHR 0xE8, CHR 0xBF, CHR 0x87, CHR 0xE5, CHR 0xA4, CHR 0x9A],
     [CHR 0xE9, CHR 0x80, CHR 0x9F, CHR 0xE7, CHR 0x8E, CHR 0x87, CHR 0xE9, CHR 0x99, CHR 0x90, CHR 0xE5, CHR 0x88, CHR 0xB6]]"

definition message_is_request_rejected :: "string \<Rightarrow> bool" where
  "message_is_request_rejected message = list_ex (\<lambda>pattern. contains pattern message)
    [''request rejected'', ''request_rejected'', ''invalid request'', ''invalid_request'',
     ''bad request'', ''validation error'', ''invalid parameter'', ''parameter invalid'',
     [CHR 0xE5, CHR 0x8F, CHR 0x82, CHR 0xE6, CHR 0x95, CHR 0xB0, CHR 0xE9, CHR 0x9D, CHR 0x9E, CHR 0xE6, CHR 0xB3, CHR 0x95],
     [CHR 0xE5, CHR 0x8F, CHR 0x82, CHR 0xE6, CHR 0x95, CHR 0xB0, CHR 0xE9, CHR 0x94, CHR 0x99, CHR 0xE8, CHR 0xAF, CHR 0xAF],
     [CHR 0xE5, CHR 0x8F, CHR 0x82, CHR 0xE6, CHR 0x95, CHR 0xB0, CHR 0xE6, CHR 0x9C, CHR 0x89, CHR 0xE8, CHR 0xAF, CHR 0xAF],
     [CHR 0xE4, CHR 0xB8, CHR 0x8D, CHR 0xE6, CHR 0x94, CHR 0xAF, CHR 0xE6, CHR 0x8C, CHR 0x81, CHR 0xE8, CHR 0xAF, CHR 0xA5, CHR 0xE5, CHR 0x8F, CHR 0x82, CHR 0xE6, CHR 0x95, CHR 0xB0],
     [CHR 0xE4, CHR 0xB8, CHR 0x8D, CHR 0xE6, CHR 0x94, CHR 0xAF, CHR 0xE6, CHR 0x8C, CHR 0x81],
     [CHR 0xE6, CHR 0x97, CHR 0xA0, CHR 0xE6, CHR 0x95, CHR 0x88, CHR 0xE7, CHR 0x9A, CHR 0x84, CHR 0xE5, CHR 0x8F, CHR 0x82, CHR 0xE6, CHR 0x95, CHR 0xB0],
     [CHR 0xE6, CHR 0x97, CHR 0xA0, CHR 0xE6, CHR 0x95, CHR 0x88, CHR 0xE5, CHR 0x8F, CHR 0x82, CHR 0xE6, CHR 0x95, CHR 0xB0],
     [CHR 0xE7, CHR 0xBC, CHR 0xBA, CHR 0xE5, CHR 0xB0, CHR 0x91, CHR 0xE5, CHR 0xBF, CHR 0x85, CHR 0xE9, CHR 0x9C, CHR 0x80, CHR 0xE5, CHR 0x8F, CHR 0x82, CHR 0xE6, CHR 0x95, CHR 0xB0],
     [CHR 0xE7, CHR 0xBC, CHR 0xBA, CHR 0xE5, CHR 0xB0, CHR 0x91, CHR 0xE5, CHR 0x8F, CHR 0x82, CHR 0xE6, CHR 0x95, CHR 0xB0],
     [CHR 0xE9, CHR 0x9D, CHR 0x9E, CHR 0xE6, CHR 0xB3, CHR 0x95, CHR 0xE5, CHR 0x8F, CHR 0x82, CHR 0xE6, CHR 0x95, CHR 0xB0],
     [CHR 0xE6, CHR 0x9C, CHR 0xAA, CHR 0xE7, CHR 0x9F, CHR 0xA5, CHR 0xE5, CHR 0xAD, CHR 0x97, CHR 0xE6, CHR 0xAE, CHR 0xB5],
     [CHR 0xE6, CHR 0x9C, CHR 0xAA, CHR 0xE7, CHR 0x9F, CHR 0xA5, CHR 0xE5, CHR 0x8F, CHR 0x82, CHR 0xE6, CHR 0x95, CHR 0xB0]]"

definition message_is_credentials :: "string \<Rightarrow> bool" where
  "message_is_credentials message = list_ex (\<lambda>pattern. contains pattern message)
    [''invalid api key'', ''invalid_api_key'', ''api key is invalid'',
     ''incorrect api key'', ''invalid token'', ''invalid_token'', ''authentication failed'',
     ''authentication error'', ''unauthorized'']"

definition message_is_feature_unsupported :: "string \<Rightarrow> bool" where
  "message_is_feature_unsupported message =
    ((contains ''not supported'' message \<or> contains ''unsupported'' message)
     \<and> list_ex (\<lambda>feature. contains feature message)
        [''xhigh'', ''feature'', ''tool'', ''reasoning'', ''reasoning_effort'',
         ''response_format'', ''response format'', ''parallel_tool_calls'', ''stream'',
         ''streaming''])"

definition is_explicit_concurrency :: "structured_error \<Rightarrow> string \<Rightarrow> bool" where
  "is_explicit_concurrency p message = (is_concurrency_capacity p \<or> message_is_concurrency_capacity message)"

definition is_model_character :: "char \<Rightarrow> bool" where
  "is_model_character c = (is_ascii_alphanumeric c \<or> c \<in> {CHR ''.'', CHR ''_'', CHR ''-'', CHR ''/'', CHR '':''})"

text \<open>
  \<open>str::match_indices\<close>: the starts of the occurrences of a non-empty pattern, from the left and
  without overlap.
\<close>

function match_indices :: "string \<Rightarrow> string \<Rightarrow> nat \<Rightarrow> nat list" where
  "match_indices pattern s i =
    (if pattern = [] \<or> length s < i + length pattern then []
     else if prefix pattern (drop i s) then i # match_indices pattern s (i + length pattern)
     else match_indices pattern s (i + 1))"
  by pat_completeness auto
termination
  by (relation "measure (\<lambda>(pattern, s, i). length s + 1 - i)")
    (auto simp: not_less simp flip: length_greater_0_conv)

declare match_indices.simps [simp del]

definition message_names_target_model :: "string \<Rightarrow> string option \<Rightarrow> bool" where
  "message_names_target_model message target_model =
    (contains ''no available channel for model'' message
     \<and> (case non_empty_trimmed target_model of
          None \<Rightarrow> False
        | Some name \<Rightarrow>
            let target = to_ascii_lowercase name in
            list_ex (\<lambda>start. let stop = start + length target in
                (start = 0 \<or> \<not> is_model_character (message ! (start - 1)))
                \<and> (stop = length message \<or> \<not> is_model_character (message ! stop)))
              (match_indices target message 0)))"

definition is_explicit_request_rejection :: "structured_error \<Rightarrow> string \<Rightarrow> bool" where
  "is_explicit_request_rejection p message =
    (has_code p [''request_rejected'', ''request_rejected_error'', ''invalid_request'',
                 ''invalid_request_error'', ''bad_request'', ''invalid_parameter'', ''validation_error''] \<or> message_is_request_rejected message)"

definition is_edge_proxy_error :: "nat \<Rightarrow> string option \<Rightarrow> bool" where
  "is_edge_proxy_error status body =
    (502 \<le> status \<and> status \<le> 504
     \<and> (case non_empty_trimmed body of
          None \<Rightarrow> True
        | Some body \<Rightarrow>
            prefix ''<'' body
            \<or> (let lower = to_ascii_lowercase body
               in contains ''<html'' lower \<or> contains ''bad gateway'' lower \<or> contains ''gateway time-out'' lower
                  \<or> contains ''nginx'' lower \<or> contains ''502 bad gateway'' lower \<or> contains ''504 gateway timeout'' lower)))"

section \<open>The failure class\<close>

text \<open>The evidence for a class: an error code or a message.\<close>

definition says_model_unsupported :: "structured_error \<Rightarrow> string \<Rightarrow> bool" where
  "says_model_unsupported p message =
    (has_code p [''model_not_found'', ''model_unsupported'', ''unsupported_model'', ''invalid_model'']
     \<or> message_is_model_unsupported message)"

definition says_feature_unsupported :: "structured_error \<Rightarrow> string \<Rightarrow> bool" where
  "says_feature_unsupported p message =
    (has_code p [''feature_unsupported'', ''unsupported_feature'', ''capability_not_supported'']
     \<or> message_is_feature_unsupported message)"

definition says_protocol_unsupported :: "structured_error \<Rightarrow> string \<Rightarrow> bool" where
  "says_protocol_unsupported p message =
    (has_code p [''endpoint_not_found'', ''protocol_unsupported'', ''unsupported_protocol'']
     \<or> message_is_protocol_unsupported message)"

definition says_credentials :: "structured_error \<Rightarrow> bool" where
  "says_credentials p =
    (has_status p 401 \<or> has_status p 403
     \<or> has_code p [''authentication_error'', ''invalid_api_key'', ''invalid_token'', ''unauthorized''])"

definition says_rate_limited :: "structured_error \<Rightarrow> string \<Rightarrow> bool" where
  "says_rate_limited p message =
    (has_status p 429 \<or> has_code p [''rate_limit_error'', ''rate_limited'', ''too_many_requests'']
     \<or> message_is_rate_limited message)"

definition classify_server_error :: "nat \<Rightarrow> structured_error \<Rightarrow> string \<Rightarrow> route_failure_class" where
  "classify_server_error status p message =
    (if 500 \<le> status \<and> status \<le> 502
        \<and> (is_explicit_request_rejection p message \<or> message_is_feature_unsupported message
           \<or> message_is_protocol_unsupported message \<or> message_is_model_unsupported message)
     then if says_feature_unsupported p message then FeatureUnsupported
          else if says_protocol_unsupported p message then ProtocolUnsupported
          else if says_model_unsupported p message then ModelUnsupported
          else RequestRejected
     else TransientServer)"

definition classify_too_many_requests :: "structured_error \<Rightarrow> string \<Rightarrow> route_failure_class" where
  "classify_too_many_requests p message =
    (if is_key_quota p then KeyQuota
     else if says_credentials p \<or> message_is_credentials message then Credentials
     else if says_model_unsupported p message then ModelUnsupported
     else if says_feature_unsupported p message then FeatureUnsupported
     else if says_protocol_unsupported p message then ProtocolUnsupported
     else if is_explicit_request_rejection p message then RequestRejected
     else RateLimited)"

definition classify_nonsemantic_default :: "nat \<Rightarrow> structured_error \<Rightarrow> string \<Rightarrow> route_failure_class" where
  "classify_nonsemantic_default status p message =
    (if 500 \<le> status \<and> status < 600 then classify_server_error status p message
     else if 401 \<le> status \<and> status \<le> 403 then Credentials
     else if status = 429 then classify_too_many_requests p message
     else if status = 0 then Transport
     else if is_key_quota p then KeyQuota
     else if says_credentials p then Credentials
     else if is_explicit_request_rejection p message then RequestRejected
     else if says_rate_limited p message then RateLimited
     else if says_model_unsupported p message then ModelUnsupported
     else if says_feature_unsupported p message then FeatureUnsupported
     else if says_protocol_unsupported p message then ProtocolUnsupported
     else if message_is_capacity_unavailable message then CapacityUnavailable
     else if status = 404 \<or> status = 405 then ProtocolUnsupported
     else if status = 408 \<or> status = 425 then TransientServer
     else RequestRejected)"

section \<open>What may reach a client\<close>

definition token_character :: "char \<Rightarrow> bool" where
  "token_character c =
    (is_ascii_lowercase c \<or> is_ascii_digit c \<or> c \<in> {CHR ''_'', CHR ''.'', CHR '':'', CHR ''-''})"

definition sanitize_upstream_error_token :: "string \<Rightarrow> string option" where
  "sanitize_upstream_error_token raw =
    (let token = to_ascii_lowercase (trim raw) in
     if token = [] \<or> length token > 64 then None
     else if \<not> list_all token_character token then None
     else Some token)"

definition secret_keys :: "string list" where
  "secret_keys =
    [''api_key'', ''apikey'', ''access_key'', ''access_token'', ''client_secret'', ''secret'', ''secret_key'',
     ''token'', ''password'', ''authorization'', ''credential'']"

definition redacted :: string where
  "redacted = ''[redacted]''"

definition key_material :: "char \<Rightarrow> bool" where
  "key_material c = (is_ascii_alphanumeric c \<or> c = CHR ''-'' \<or> c = CHR ''_'')"

definition bearer_material :: "char \<Rightarrow> bool" where
  "bearer_material c = (is_ascii_alphanumeric c \<or> c = CHR ''.'' \<or> c = CHR ''_'' \<or> c = CHR ''-'')"

text \<open>The shapes the scanner tests at a position, given the text from there on: what it skips.\<close>

definition api_key_here :: "string \<Rightarrow> string option" where
  "api_key_here text =
    (if prefix ''sk-'' text \<and> length (takeWhile key_material (drop 3 text)) \<ge> 6
     then Some (dropWhile key_material (drop 3 text)) else None)"

definition bearer_here :: "string \<Rightarrow> string option" where
  "bearer_here text =
    (if length text \<ge> 7 \<and> to_ascii_lowercase (take 7 text) = ''bearer ''
        \<and> length (takeWhile bearer_material (drop 7 text)) \<ge> 4
     then Some (dropWhile bearer_material (drop 7 text)) else None)"

definition secret_pair_here :: "string \<Rightarrow> (string \<times> string) option" where
  "secret_pair_here text =
    (case text of
       [] \<Rightarrow> None
     | q # r \<Rightarrow>
         if q \<noteq> CHR 0x22 then None
         else let key = takeWhile (\<lambda>c. c \<noteq> CHR 0x22) r; after = dropWhile (\<lambda>c. c \<noteq> CHR 0x22) r in
           if prefix [CHR 0x22, CHR '':'', CHR 0x22] after \<and> to_ascii_lowercase key \<in> set secret_keys
           then (case dropWhile (\<lambda>c. c \<noteq> CHR 0x22) (drop 3 after) of
                   [] \<Rightarrow> None
                 | _ # rest \<Rightarrow> Some ([CHR 0x22] @ key @ [CHR 0x22], rest))
           else None)"

lemma api_key_here_shorter: "api_key_here text = Some rest \<Longrightarrow> length rest < length text"
  using length_dropWhile_le [of key_material "drop 3 text"]
  by (auto simp: api_key_here_def dest: prefix_length_le split: if_splits)

lemma bearer_here_shorter: "bearer_here text = Some rest \<Longrightarrow> length rest < length text"
  using length_dropWhile_le [of bearer_material "drop 7 text"]
  by (auto simp: bearer_here_def split: if_splits)

lemma secret_pair_here_Some:
  assumes "secret_pair_here text = Some (shown, rest)"
  shows "\<exists>key after c. text = CHR 0x22 # key @ after \<and> shown = [CHR 0x22] @ key @ [CHR 0x22]
    \<and> to_ascii_lowercase key \<in> set secret_keys
    \<and> dropWhile (\<lambda>c. c \<noteq> CHR 0x22) (drop 3 after) = c # rest"
proof (cases "text")
  case (Cons q r)
  define key where "key = takeWhile (\<lambda>c. c \<noteq> CHR 0x22) r"
  define after where "after = dropWhile (\<lambda>c. c \<noteq> CHR 0x22) r"
  have r: "r = key @ after" by (simp add: key_def after_def)
  have "q = CHR 0x22 \<and> to_ascii_lowercase key \<in> set secret_keys
      \<and> (\<exists>c. dropWhile (\<lambda>c. c \<noteq> CHR 0x22) (drop 3 after) = c # rest) \<and> shown = [CHR 0x22] @ key @ [CHR 0x22]"
    using assms unfolding secret_pair_here_def Cons Let_def list.case key_def [symmetric] after_def [symmetric]
    by (simp split: if_split_asm list.split_asm)
  then show ?thesis using Cons r by blast
qed (use assms in \<open>simp add: secret_pair_here_def\<close>)

lemma secret_pair_here_shorter: "secret_pair_here text = Some (shown, rest) \<Longrightarrow> length rest < length text"
proof -
  assume "secret_pair_here text = Some (shown, rest)"
  then obtain key after c where t: "text = CHR 0x22 # key @ after"
    and d: "dropWhile (\<lambda>c. c \<noteq> CHR 0x22) (drop 3 after) = c # rest"
    using secret_pair_here_Some by blast
  have "length (c # rest) \<le> length (drop 3 after)"
    unfolding d [symmetric] by (rule length_dropWhile_le)
  then show ?thesis by (simp add: t)
qed

function redact_upstream_body_secrets :: "string \<Rightarrow> string" where
  "redact_upstream_body_secrets text =
    (case text of
       [] \<Rightarrow> []
     | c # cs \<Rightarrow>
         (case api_key_here text of
            Some rest \<Rightarrow> redacted @ redact_upstream_body_secrets rest
          | None \<Rightarrow>
              (case bearer_here text of
                 Some rest \<Rightarrow> redacted @ redact_upstream_body_secrets rest
               | None \<Rightarrow>
                   (case secret_pair_here text of
                      Some (shown, rest) \<Rightarrow>
                        shown @ [CHR '':'', CHR 0x22] @ redacted @ [CHR 0x22] @ redact_upstream_body_secrets rest
                    | None \<Rightarrow> c # redact_upstream_body_secrets cs))))"
  by pat_completeness auto
termination
  by (relation "measure length") (auto dest: api_key_here_shorter bearer_here_shorter secret_pair_here_shorter)

declare redact_upstream_body_secrets.simps [simp del]

text \<open>\<open>str::split_whitespace\<close> and \<open>str::chars\<close>, over the UTF-8 bytes.\<close>

function words_from :: "string \<Rightarrow> string \<Rightarrow> string list" where
  "words_from word s =
    (case s of
       [] \<Rightarrow> if word = [] then [] else [word]
     | c # cs \<Rightarrow>
         (case find (\<lambda>w. w \<noteq> [] \<and> prefix w s) whitespace_encodings of
            Some w \<Rightarrow> (if word = [] then [] else [word]) @ words_from [] (drop (length w) s)
          | None \<Rightarrow> words_from (word @ [c]) cs))"
  by pat_completeness auto
termination
  by (relation "measure (length \<circ> snd)") (auto simp: find_Some_iff prefix_def)

declare words_from.simps [simp del]

definition split_whitespace :: "string \<Rightarrow> string list" where
  "split_whitespace s = words_from [] s"

function utf8_chars :: "string \<Rightarrow> string list" where
  "utf8_chars s =
    (if s = [] then []
     else let n = (case utf8_char_length s of Some n \<Rightarrow> n | None \<Rightarrow> 1) in take n s # utf8_chars (drop n s))"
  by pat_completeness auto
termination
  by (relation "measure length") (auto dest: utf8_char_length_pos split: option.splits)

declare utf8_chars.simps [simp del]

definition sanitize_upstream_body_excerpt :: "string \<Rightarrow> nat \<Rightarrow> string option" where
  "sanitize_upstream_body_excerpt raw max_chars =
    (let collapsed = join '' '' (split_whitespace raw);
         text = trim (redact_upstream_body_secrets collapsed) in
     if text = [] \<or> max_chars = 0 then None
     else let chars = utf8_chars text in
       if length chars \<le> max_chars then Some (concat chars)
       else Some (concat (take max_chars chars) @ [CHR 0xE2, CHR 0x80, CHR 0xA6]))"

section \<open>The classified failure\<close>

definition retry_after_deadline_duration :: "int \<Rightarrow> int \<Rightarrow> duration option" where
  "retry_after_deadline_duration retry_at now =
    (if retry_at - now \<le> 0 then Some 0 else Some (nat (retry_at - now)))"

definition parse_retry_after :: "'n feedback_ops \<Rightarrow> string option \<Rightarrow> duration option" where
  "parse_retry_after ops header =
    Option.bind (map_option trim header) (\<lambda>text.
      case parse_uint u64_max text of
        Some seconds \<Rightarrow> Some (from_secs seconds)
      | None \<Rightarrow> Option.bind (fb_parse_date ops text) (\<lambda>retry_at. retry_after_deadline_duration retry_at (fb_now ops)))"

record upstream_feedback_input =
  ui_status :: nat
  ui_retry_after :: "string option"
  ui_body :: "string option"
  ui_target_model :: "string option"

record classified_upstream_failure =
  uf_class :: route_failure_class
  uf_semantic :: upstream_response_semantic
  uf_upstream_status :: "nat option"
  uf_retry_after :: "duration option"
  uf_upstream_error_code :: "string option"
  uf_upstream_error_body_excerpt :: "string option"

definition client_code :: "string \<Rightarrow> string option" where
  "client_code raw = filter_option (\<lambda>token. parse_u16 token = None) (sanitize_upstream_error_token raw)"

definition semantic_and_class ::
  "upstream_feedback_input \<Rightarrow> structured_error \<Rightarrow> string \<Rightarrow> upstream_response_semantic \<times> route_failure_class" where
  "semantic_and_class input p message =
    (if is_edge_proxy_error (ui_status input) (ui_body input) then (EdgeProxySemantic, EdgeProxyError)
     else if is_context_overflow p message then (ExplicitContextOverflow, RequestRejected)
     else if is_explicit_concurrency p message then (ExplicitConcurrency, CapacityUnavailable)
     else if message_names_target_model message (ui_target_model input) then (TargetModelCapacity, CapacityUnavailable)
     else (Generic, classify_nonsemantic_default (ui_status input) p message))"

definition classify_upstream_response :: "'n feedback_ops \<Rightarrow> upstream_feedback_input \<Rightarrow> classified_upstream_failure" where
  "classify_upstream_response ops input =
    (let p = structured_parse ops (ui_body input);
         message = normalized_message p (ui_body input);
         (semantic, c) = semantic_and_class input p message
     in \<lparr>uf_class = c, uf_semantic = semantic,
         uf_upstream_status = (if ui_status input \<noteq> 0 then Some (ui_status input) else None),
         uf_retry_after = parse_retry_after ops (ui_retry_after input),
         uf_upstream_error_code = find_map client_code (se_raw_codes p),
         uf_upstream_error_body_excerpt = None\<rparr>)"

datatype upstream_feedback_classification =
    FbRateLimited | FbProviderBusy | FbConcurrencyFull | FbTemporaryUnavailable | FbProtocolUnsupported | FbUnknown

fun class_summary :: "route_failure_class \<Rightarrow> upstream_feedback_classification" where
  "class_summary RateLimited = FbRateLimited"
| "class_summary KeyQuota = FbRateLimited"
| "class_summary TransientServer = FbTemporaryUnavailable"
| "class_summary Transport = FbTemporaryUnavailable"
| "class_summary CapacityUnavailable = FbProviderBusy"
| "class_summary ModelUnsupported = FbProtocolUnsupported"
| "class_summary FeatureUnsupported = FbProtocolUnsupported"
| "class_summary ProtocolUnsupported = FbProtocolUnsupported"
| "class_summary _ = FbUnknown"

definition summary_classification :: "classified_upstream_failure \<Rightarrow> upstream_feedback_classification" where
  "summary_classification f =
    (case uf_semantic f of
       ExplicitConcurrency \<Rightarrow> FbConcurrencyFull
     | TargetModelCapacity \<Rightarrow> FbProviderBusy
     | ExplicitContextOverflow \<Rightarrow> FbUnknown
     | EdgeProxySemantic \<Rightarrow> FbTemporaryUnavailable
     | Generic \<Rightarrow> class_summary (uf_class f))"

definition from_response :: "'n feedback_ops \<Rightarrow> nat \<Rightarrow> string option \<Rightarrow> string option \<Rightarrow> upstream_feedback_classification" where
  "from_response ops status retry_after body =
    summary_classification (classify_upstream_response ops
      \<lparr>ui_status = status, ui_retry_after = retry_after, ui_body = body, ui_target_model = None\<rparr>)"

fun should_cooldown :: "upstream_feedback_classification \<Rightarrow> bool" where
  "should_cooldown FbRateLimited = True"
| "should_cooldown FbProviderBusy = True"
| "should_cooldown FbConcurrencyFull = True"
| "should_cooldown _ = False"

fun feedback_is_temporary :: "upstream_feedback_classification \<Rightarrow> bool" where
  "feedback_is_temporary FbTemporaryUnavailable = True"
| "feedback_is_temporary c = should_cooldown c"

section \<open>Nothing that looks like a key passes the excerpt\<close>

text \<open>The shortest texts the scanner takes for key material.\<close>

definition secret_core :: "string \<Rightarrow> bool" where
  "secret_core x =
    ((\<exists>m. x = ''sk-'' @ m \<and> length m = 6 \<and> list_all key_material m)
     \<or> (\<exists>w m. x = w @ m \<and> to_ascii_lowercase w = ''bearer '' \<and> length m = 4 \<and> list_all bearer_material m))"

lemma takeWhile_prefix_le: "list_all P m \<Longrightarrow> prefix m s \<Longrightarrow> length m \<le> length (takeWhile P s)"
  by (induction m arbitrary: s) (auto simp: prefix_def)

lemma secret_core_detected:
  assumes "secret_core x" "prefix x r"
  shows "api_key_here r \<noteq> None \<or> bearer_here r \<noteq> None"
  using assms(1) unfolding secret_core_def
proof (elim disjE exE conjE)
  fix m assume "x = ''sk-'' @ m" "length m = 6" "list_all key_material m"
  then show ?thesis
    using assms(2) takeWhile_prefix_le [of key_material m "drop 3 r"]
    by (auto simp: api_key_here_def prefix_def eval_nat_numeral)
next
  fix w m assume w: "x = w @ m" "to_ascii_lowercase w = ''bearer ''" "length m = 4" "list_all bearer_material m"
  have "length w = length (to_ascii_lowercase w)" by (simp add: to_ascii_lowercase_def)
  then have "length w = 7" using w(2) by simp
  then show ?thesis
    using assms(2) w takeWhile_prefix_le [of bearer_material m "drop 7 r"]
    by (auto simp: bearer_here_def prefix_def)
qed

definition plain_character :: "char \<Rightarrow> bool" where
  "plain_character c = (c \<le> CHR 0x7F \<and> c \<noteq> CHR ''['' \<and> c \<noteq> CHR '']'' \<and> c \<noteq> CHR 0x22)"

lemma uppercase_plain: "CHR ''A'' \<le> c \<Longrightarrow> c \<le> CHR ''Z'' \<Longrightarrow> plain_character c"
  unfolding plain_character_def using order_trans [of c "CHR ''Z''" "CHR 0x7F"] by auto

lemma ascii_lower_space: "ascii_lower c = CHR '' '' \<longleftrightarrow> c = CHR '' ''"
proof (cases "CHR ''A'' \<le> c \<and> c \<le> CHR ''Z''")
  case True
  then have n: "65 \<le> (of_char c :: nat)" "(of_char c :: nat) \<le> 90" by (simp_all add: less_eq_char_def)
  then have "of_char (char_of ((of_char c :: nat) + 32) :: char) \<noteq> (32 :: nat)" by simp
  moreover have "(of_char (CHR '' '') :: nat) = 32" by simp
  ultimately have "char_of ((of_char c :: nat) + 32) \<noteq> CHR '' ''" by metis
  moreover have "c \<noteq> CHR '' ''" using n by auto
  ultimately show ?thesis using True by (simp add: ascii_lower_def)
qed (auto simp: ascii_lower_def)

lemma ascii_lower_bearer: "ascii_lower c \<in> set ''bearer '' \<Longrightarrow> plain_character c"
  by (cases "CHR ''A'' \<le> c \<and> c \<le> CHR ''Z''")
    (use uppercase_plain in blast, auto simp: ascii_lower_def plain_character_def)

lemma material_plain: "key_material c \<or> bearer_material c \<Longrightarrow> plain_character c"
proof -
  assume a: "key_material c \<or> bearer_material c"
  have "plain_character c" if "is_ascii_digit c"
    using that order_trans [of c "CHR ''9''" "CHR 0x7F"] by (auto simp: is_ascii_digit_def plain_character_def)
  moreover have "plain_character c" if "is_ascii_lowercase c"
    using that order_trans [of c "CHR ''z''" "CHR 0x7F"] by (auto simp: is_ascii_lowercase_def plain_character_def)
  moreover have "plain_character c" if "c \<in> {CHR ''-'', CHR ''_'', CHR ''.''}"
    using that by (auto simp: plain_character_def)
  ultimately show ?thesis
    using a uppercase_plain by (auto simp: key_material_def bearer_material_def is_ascii_alphanumeric_def)
qed

lemma secret_core_plain:
  assumes "secret_core x"
  shows "x \<noteq> []" "\<forall>c\<in>set x. plain_character c" "CHR ''-'' \<in> set x \<or> CHR '' '' \<in> set x"
proof -
  have "x \<noteq> [] \<and> (\<forall>c\<in>set x. plain_character c) \<and> (CHR ''-'' \<in> set x \<or> CHR '' '' \<in> set x)"
    using assms unfolding secret_core_def
  proof (elim disjE exE conjE)
    fix m assume "x = ''sk-'' @ m" "list_all key_material m"
    then show ?thesis using material_plain by (auto simp: list_all_iff plain_character_def)
  next
    fix w m assume w: "x = w @ m" "to_ascii_lowercase w = ''bearer ''" "list_all bearer_material m"
    have "set (to_ascii_lowercase w) = ascii_lower ` set w" by (simp add: to_ascii_lowercase_def)
    then have "plain_character c" if "c \<in> set w" for c
      using that w(2) ascii_lower_bearer [of c] by (metis imageI)
    moreover have "CHR '' '' \<in> ascii_lower ` set w"
      using w(2) by (metis last_in_set list.set_map to_ascii_lowercase_def list.distinct(1) last.simps)
    then have "CHR '' '' \<in> set w" using ascii_lower_space by (metis image_iff)
    ultimately show ?thesis using w material_plain by (auto simp: list_all_iff)
  qed
  then show "x \<noteq> []" "\<forall>c\<in>set x. plain_character c" "CHR ''-'' \<in> set x \<or> CHR '' '' \<in> set x" by blast+
qed

text \<open>A core cannot lie in, or reach into, a text whose last character is not plain and that has no dash or space.\<close>

lemma secret_core_skips:
  assumes "secret_core x" "sublist x (u @ t)"
    and "u \<noteq> []" "\<not> plain_character (last u)" "CHR ''-'' \<notin> set u" "CHR '' '' \<notin> set u"
  shows "sublist x t"
proof -
  note core = secret_core_plain [OF assms(1)]
  have "\<not> sublist x u" using core(3) assms(5,6) set_mono_sublist by blast
  moreover have "as = []" if "x = as @ bs" "suffix as u" for as bs
  proof (rule ccontr)
    assume "as \<noteq> []"
    then have "last u = last as" "last as \<in> set x" using that by (auto simp: suffix_def)
    then show False using core(2) assms(4) by simp
  qed
  ultimately have "sublist x t \<or> (\<exists>bs. x = [] @ bs \<and> prefix bs t)"
    using assms(2) unfolding sublist_append by metis
  then show ?thesis by auto
qed

text \<open>One step of the scanner: a mark that no core can touch, or a character that is copied.\<close>

definition opaque :: "string \<Rightarrow> bool" where
  "opaque u = (u \<noteq> [] \<and> \<not> plain_character (hd u) \<and> \<not> plain_character (last u)
     \<and> CHR ''-'' \<notin> set u \<and> CHR '' '' \<notin> set u)"

lemma opaque_redacted: "opaque redacted"
  by (simp add: opaque_def redacted_def plain_character_def)

lemma secret_keys_plain: "k \<in> set secret_keys \<Longrightarrow> CHR ''-'' \<notin> set k \<and> CHR '' '' \<notin> set k"
  by (auto simp: secret_keys_def)

lemma ascii_lower_fixed: "c \<in> set w \<Longrightarrow> ascii_lower c = c \<Longrightarrow> c \<in> set (to_ascii_lowercase w)"
  by (metis imageI list.set_map to_ascii_lowercase_def)

lemma opaque_pair:
  assumes "to_ascii_lowercase key \<in> set secret_keys"
  shows "opaque (([CHR 0x22] @ key @ [CHR 0x22]) @ [CHR '':'', CHR 0x22] @ redacted @ [CHR 0x22])"
proof -
  have "CHR ''-'' \<notin> set key \<and> CHR '' '' \<notin> set key"
    using secret_keys_plain [OF assms] ascii_lower_fixed [of "CHR ''-''" key] ascii_lower_fixed [of "CHR '' ''" key]
    by (auto simp: ascii_lower_def)
  then show ?thesis by (simp add: opaque_def redacted_def plain_character_def)
qed

lemma redact_unfold:
  assumes "t \<noteq> []"
  shows "redact_upstream_body_secrets t =
    (case api_key_here t of
       Some rest \<Rightarrow> redacted @ redact_upstream_body_secrets rest
     | None \<Rightarrow>
         (case bearer_here t of
            Some rest \<Rightarrow> redacted @ redact_upstream_body_secrets rest
          | None \<Rightarrow>
              (case secret_pair_here t of
                 Some (shown, rest) \<Rightarrow>
                   shown @ [CHR '':'', CHR 0x22] @ redacted @ [CHR 0x22] @ redact_upstream_body_secrets rest
               | None \<Rightarrow> hd t # redact_upstream_body_secrets (tl t))))"
  using assms by (subst redact_upstream_body_secrets.simps) (cases t; simp only: list.case list.sel)

lemma redact_step:
  assumes "t \<noteq> []"
  shows "(\<exists>u rest. redact_upstream_body_secrets t = u @ redact_upstream_body_secrets rest \<and> opaque u
        \<and> length rest < length t)
    \<or> (\<exists>c cs. t = c # cs \<and> redact_upstream_body_secrets t = c # redact_upstream_body_secrets cs
        \<and> api_key_here t = None \<and> bearer_here t = None)"
proof (cases "api_key_here t \<noteq> None \<or> bearer_here t \<noteq> None \<or> secret_pair_here t \<noteq> None")
  case False
  then have n: "api_key_here t = None" "bearer_here t = None" "secret_pair_here t = None" by blast+
  obtain c cs where t: "t = c # cs" using assms by (cases t) auto
  have "redact_upstream_body_secrets t = c # redact_upstream_body_secrets cs"
    unfolding redact_unfold [OF assms] n by (simp add: t)
  then show ?thesis using t n by (intro disjI2 exI [of _ c] exI [of _ cs]) simp
next
  case True
  then consider (key) rest where "api_key_here t = Some rest"
    | (bearer) rest where "api_key_here t = None" "bearer_here t = Some rest"
    | (pair) shown rest where "api_key_here t = None" "bearer_here t = None" "secret_pair_here t = Some (shown, rest)"
    by (cases "api_key_here t"; cases "bearer_here t"; cases "secret_pair_here t") auto
  then show ?thesis
  proof cases
    case key
    then have "redact_upstream_body_secrets t = redacted @ redact_upstream_body_secrets rest"
      by (simp add: redact_unfold [OF assms])
    then show ?thesis using opaque_redacted api_key_here_shorter [OF key] by blast
  next
    case bearer
    then have "redact_upstream_body_secrets t = redacted @ redact_upstream_body_secrets rest"
      by (simp add: redact_unfold [OF assms])
    then show ?thesis using opaque_redacted bearer_here_shorter [OF bearer(2)] by blast
  next
    case pair
    then obtain key where k: "shown = [CHR 0x22] @ key @ [CHR 0x22]" "to_ascii_lowercase key \<in> set secret_keys"
      using secret_pair_here_Some by blast
    have "redact_upstream_body_secrets t
        = (shown @ [CHR '':'', CHR 0x22] @ redacted @ [CHR 0x22]) @ redact_upstream_body_secrets rest"
      using pair by (simp add: redact_unfold [OF assms])
    then show ?thesis using opaque_pair [OF k(2)] k(1) secret_pair_here_shorter [OF pair(3)] by blast
  qed
qed

lemma redact_copies_plain:
  "redact_upstream_body_secrets t = x @ y \<Longrightarrow> \<forall>c\<in>set x. plain_character c \<Longrightarrow> prefix x t"
proof (induction "length t" arbitrary: t x rule: less_induct)
  case less
  show ?case
  proof (cases "t = [] \<or> x = []")
    case True
    then show ?thesis using less.prems by (auto simp: redact_upstream_body_secrets.simps)
  next
    case False
    then obtain c0 x0 where x: "x = c0 # x0" by (cases x) auto
    from False have "t \<noteq> []" by simp
    from redact_step [OF this] show ?thesis
    proof (elim disjE exE conjE)
      fix u rest assume "redact_upstream_body_secrets t = u @ redact_upstream_body_secrets rest" "opaque u"
      then have "hd u = c0" "\<not> plain_character (hd u)"
        using less.prems(1) x by (cases u; simp add: opaque_def)+
      then show ?thesis using less.prems(2) x by simp
    next
      fix c cs assume t: "t = c # cs" "redact_upstream_body_secrets t = c # redact_upstream_body_secrets cs"
      then have "prefix x0 cs" using less.hyps [of cs x0] less.prems x by simp
      then show ?thesis using t less.prems(1) x by simp
    qed
  qed
qed

lemma redact_removes_cores: "secret_core x \<Longrightarrow> \<not> sublist x (redact_upstream_body_secrets t)"
proof (induction "length t" arbitrary: t rule: less_induct)
  case less
  note core = secret_core_plain [OF less.prems]
  show ?case
  proof (cases "t = []")
    case True
    then show ?thesis using core(1) by (simp add: redact_upstream_body_secrets.simps)
  next
    case False
    from redact_step [OF this] show ?thesis
    proof (elim disjE exE conjE)
      fix u rest assume u: "redact_upstream_body_secrets t = u @ redact_upstream_body_secrets rest" "opaque u"
        "length rest < length t"
      then show ?thesis
        using secret_core_skips [OF less.prems, of u] less.hyps [of rest] less.prems by (auto simp: opaque_def)
    next
      fix c cs assume t: "t = c # cs" "redact_upstream_body_secrets t = c # redact_upstream_body_secrets cs"
        "api_key_here t = None" "bearer_here t = None"
      have "\<not> prefix x (redact_upstream_body_secrets t)"
        using redact_copies_plain [of t x] core(2) secret_core_detected [OF less.prems, of t] t(3,4)
        by (auto simp: prefix_def)
      moreover have "\<not> sublist x (redact_upstream_body_secrets cs)" using less t(1) by simp
      ultimately show ?thesis using t(2) by (simp add: sublist_Cons_right)
    qed
  qed
qed

lemma sublist_trans: "sublist a b \<Longrightarrow> sublist b c \<Longrightarrow> sublist a c"
  by (auto simp: sublist_def) (metis append_assoc)

lemma sublist_append_disjoint:
  assumes "sublist x (u @ v)" "x \<noteq> []" "\<And>c. c \<in> set x \<Longrightarrow> c \<notin> set v"
  shows "sublist x u"
  using assms(1) unfolding sublist_append
proof (elim disjE exE conjE)
  assume "sublist x v"
  then have "hd x \<in> set v" using assms(2) set_mono_sublist by (metis hd_in_set subsetD)
  then show ?thesis using assms(2,3) by simp
next
  fix as bs
  assume x: "x = as @ bs" "suffix as u" "prefix bs v"
  have "bs = []"
  proof (rule ccontr)
    assume "bs \<noteq> []"
    then have "hd bs \<in> set x" "hd bs \<in> set v" using x set_mono_prefix by (auto intro: hd_in_set)
    then show False using assms(3) by blast
  qed
  then show ?thesis using x by auto
qed

lemma strip_prefixes_suffix: "suffix (strip_prefixes ws s) s"
proof (induction ws s rule: strip_prefixes.induct)
  case (1 ws s)
  show ?case
  proof (cases "find (\<lambda>w. w \<noteq> [] \<and> prefix w s) ws")
    case (Some w)
    then show ?thesis
      using 1 [OF Some] suffix_order.trans [OF _ suffix_drop [of "length w" s]]
      by (simp add: strip_prefixes.simps [of ws s])
  qed (simp add: strip_prefixes.simps [of ws s])
qed

lemma trim_sublist: "sublist (trim s) s"
proof -
  have "prefix (trim_end r) r" for r
    using strip_prefixes_suffix [of "map rev whitespace_encodings" "rev r"]
    by (metis rev_rev_ident suffix_to_prefix trim_end_def)
  moreover have "suffix (trim_start s) s" unfolding trim_start_def by (rule strip_prefixes_suffix)
  ultimately show ?thesis
    unfolding trim_def by (meson prefix_imp_sublist sublist_trans suffix_imp_sublist)
qed

lemma concat_utf8_chars: "concat (utf8_chars s) = s"
  by (induction s rule: utf8_chars.induct) (subst utf8_chars.simps, simp add: Let_def)

lemma utf8_chars_short: "c \<in> set (utf8_chars s) \<Longrightarrow> length c \<le> 4"
proof (induction s rule: utf8_chars.induct)
  case (1 s)
  have "n \<le> 4" if "utf8_char_length s = Some n" for n
    using that by (cases s) (auto split: if_splits list.splits)
  then show ?case
    using 1 by (subst (asm) (2) utf8_chars.simps) (auto simp: Let_def split: if_splits option.splits)
qed

lemma length_concat_le: "(\<And>c. c \<in> set cs \<Longrightarrow> length c \<le> k) \<Longrightarrow> length (concat cs) \<le> k * length cs"
  by (induction cs) fastforce+

lemma excerpt_cases:
  assumes "sanitize_upstream_body_excerpt raw max_chars = Some out"
  shows "\<exists>shown dots. out = shown @ dots \<and> dots \<in> {[], [CHR 0xE2, CHR 0x80, CHR 0xA6]}
    \<and> sublist shown (redact_upstream_body_secrets (join '' '' (split_whitespace raw))) \<and> length shown \<le> 4 * max_chars"
proof -
  define u where "u = trim (redact_upstream_body_secrets (join '' '' (split_whitespace raw)))"
  let ?chars = "utf8_chars u"
  have out: "out = (if length ?chars \<le> max_chars then concat ?chars
      else concat (take max_chars ?chars) @ [CHR 0xE2, CHR 0x80, CHR 0xA6])"
    using assms by (simp add: sanitize_upstream_body_excerpt_def Let_def u_def split: if_splits)
  have "sublist (concat (take max_chars ?chars)) u"
    using concat_append [of "take max_chars ?chars" "drop max_chars ?chars"] concat_utf8_chars [of u]
    by (metis append_take_drop_id prefixI prefix_imp_sublist)
  then have "sublist (concat (take max_chars ?chars)) (redact_upstream_body_secrets (join '' '' (split_whitespace raw)))"
    using trim_sublist sublist_trans unfolding u_def by blast
  moreover have "length (concat (take max_chars ?chars)) \<le> 4 * max_chars"
  proof -
    have "length (concat (take max_chars ?chars)) \<le> 4 * length (take max_chars ?chars)"
      by (rule length_concat_le) (metis in_set_takeD utf8_chars_short)
    then show ?thesis by simp
  qed
  ultimately show ?thesis
    using out by (cases "length ?chars \<le> max_chars") auto
qed

text \<open>
  C39. An excerpt of an upstream error body that reaches a client is bounded by four bytes for each
  character allowed, plus the ellipsis, and never shows an API key or a bearer token: no \<open>sk-\<close>
  followed by six characters of key material and no \<open>bearer\<close>, in any case, followed by a space and
  four token characters occurs anywhere in it, also not through the cut or across a mark.
\<close>

theorem excerpt_shows_no_key:
  assumes "sanitize_upstream_body_excerpt raw max_chars = Some out"
  shows "length out \<le> 4 * max_chars + 3
    \<and> (\<forall>m. length m = 6 \<longrightarrow> list_all key_material m \<longrightarrow> \<not> sublist (''sk-'' @ m) out)
    \<and> (\<forall>w m. to_ascii_lowercase w = ''bearer '' \<longrightarrow> length m = 4 \<longrightarrow> list_all bearer_material m
         \<longrightarrow> \<not> sublist (w @ m) out)"
proof -
  obtain shown dots where o: "out = shown @ dots" "dots \<in> {[], [CHR 0xE2, CHR 0x80, CHR 0xA6]}"
    and shown: "sublist shown (redact_upstream_body_secrets (join '' '' (split_whitespace raw)))"
      "length shown \<le> 4 * max_chars"
    using excerpt_cases [OF assms] by blast
  have dots: "\<not> plain_character c" if "c \<in> set dots" for c
    using o(2) that by (auto simp: plain_character_def)
  have "\<not> sublist x out" if core: "secret_core x" for x
  proof
    assume x: "sublist x out"
    have "c \<notin> set dots" if "c \<in> set x" for c
      using secret_core_plain(2) [OF core] that dots [of c] by metis
    then have "sublist x shown"
      by (rule sublist_append_disjoint [OF x [unfolded o(1)] secret_core_plain(1) [OF core]])
    then show False using redact_removes_cores [OF core] shown(1) sublist_trans by blast
  qed
  then have "\<not> sublist (''sk-'' @ m) out" if "length m = 6" "list_all key_material m" for m
    using that unfolding secret_core_def by blast
  moreover have "\<not> sublist (w @ m) out"
    if "to_ascii_lowercase w = ''bearer ''" "length m = 4" "list_all bearer_material m" for w m
    using that \<open>\<And>x. secret_core x \<Longrightarrow> \<not> sublist x out\<close> unfolding secret_core_def by blast
  moreover have "length out \<le> 4 * max_chars + 3" using o shown(2) by auto
  ultimately show ?thesis by blast
qed

theorem excerpt_shows_no_key_witness:
  "sanitize_upstream_body_excerpt ''sk-abc123'' 64 = Some ''[redacted]''
   \<and> \<not> sublist (''sk-'' @ ''abc123'') ''[redacted]''"
proof -
  have words: "split_whitespace ''sk-abc123'' = [''sk-abc123'']"
    by (simp add: split_whitespace_def words_from.simps whitespace_encodings_def)
  have red: "redact_upstream_body_secrets ''sk-abc123'' = ''[redacted]''"
    by (simp add: redact_upstream_body_secrets.simps api_key_here_def key_material_def is_ascii_alphanumeric_def
        is_ascii_digit_def is_ascii_lowercase_def redacted_def)
  have trimmed: "trim ''[redacted]'' = ''[redacted]''"
    by (simp add: trim_def trim_start_def trim_end_def strip_prefixes.simps whitespace_encodings_def)
  have "length (utf8_chars ''[redacted]'') \<le> 64" by (simp add: utf8_chars.simps)
  then have ex: "sanitize_upstream_body_excerpt ''sk-abc123'' 64 = Some ''[redacted]''"
    using concat_utf8_chars [of "''[redacted]''"]
    by (simp add: sanitize_upstream_body_excerpt_def words red trimmed)
  have "list_all key_material ''abc123''"
    by (simp add: key_material_def is_ascii_alphanumeric_def is_ascii_digit_def is_ascii_lowercase_def)
  then show ?thesis using excerpt_shows_no_key [OF ex] ex by simp
qed

text \<open>
  The scanner knows a secret in a JSON pair only without a space after the colon: of a
  pretty-printed body the value is shown as it is.
\<close>

lemma redaction_misses_spaced_pair:
  "redact_upstream_body_secrets
     ([CHR 0x22] @ ''token'' @ [CHR 0x22, CHR '':'', CHR '' '', CHR 0x22] @ ''hunter2'' @ [CHR 0x22])
   = [CHR 0x22] @ ''token'' @ [CHR 0x22, CHR '':'', CHR '' '', CHR 0x22] @ ''hunter2'' @ [CHR 0x22]"
  "redact_upstream_body_secrets
     ([CHR 0x22] @ ''token'' @ [CHR 0x22, CHR '':'', CHR 0x22] @ ''hunter2'' @ [CHR 0x22])
   = [CHR 0x22] @ ''token'' @ [CHR 0x22, CHR '':'', CHR 0x22] @ ''[redacted]'' @ [CHR 0x22]"
  by (simp_all add: redact_upstream_body_secrets.simps api_key_here_def bearer_here_def secret_pair_here_def
      secret_keys_def redacted_def to_ascii_lowercase_def ascii_lower_def)

section \<open>The class of a failure\<close>












end
