(* ===== verification/Route_Attempts.thy ===== *)
theory Route_Attempts
  imports Route_Cooldown Rust_Strings
begin

text \<open>
  The bookkeeping of one downstream request over the routes it tries
  (\<open>src/src/server/gateway/route_attempts.rs\<close>): which routes were eligible and attempted, which
  route sets are exhausted, the ledger of failed and cooling routes with the terminal failure the
  client is told, and the state that outlives a routing round. A mutex around a field is the field,
  and the fields shared between rounds are carried over. SHA-256 is the argument \<open>sha\<close>.
\<close>

section \<open>Failures of a request\<close>

record attempt_failure =
  af_route_id :: string
  af_upstream_status :: "nat option"
  af_upstream_error_code :: "string option"
  af_upstream_name :: "string option"
  af_upstream_host :: "string option"
  af_upstream_error_body_excerpt :: "string option"
  af_class :: route_failure_class
  af_retry_after :: "duration option"
  af_half_open_busy :: bool

datatype terminal_failure =
    Temporary duration
  | TerminalCredentials
  | TerminalModelUnsupported
  | TerminalCapabilityUnsupported
  | TerminalProtocolUnsupported
  | MixedRoutesExhausted

datatype give_up_reason =
    RoundCap | WaitBudget | NoRecovery | AlignmentExhausted | HalfOpenBusyCap | LocalGateExhausted

fun give_up_as_str :: "give_up_reason \<Rightarrow> string" where
  "give_up_as_str RoundCap = ''round_cap''"
| "give_up_as_str WaitBudget = ''wait_budget''"
| "give_up_as_str NoRecovery = ''no_recovery''"
| "give_up_as_str AlignmentExhausted = ''alignment_exhausted''"
| "give_up_as_str HalfOpenBusyCap = ''half_open_busy_cap''"
| "give_up_as_str LocalGateExhausted = ''local_gate_exhausted''"

record route_set_observation =
  ro_key :: route_set_aggregate_key
  ro_class :: route_failure_class
  ro_retry_after :: "duration option"

text \<open>\<open>keys::anonymous_route_id\<close>: the first sixteen hexadecimal digits of a digest.\<close>

definition hex_digit :: "nat \<Rightarrow> char" where
  "hex_digit n = ''0123456789abcdef'' ! n"

definition hex_of :: "byte list \<Rightarrow> string" where
  "hex_of bs = concat (map (\<lambda>b. [hex_digit (unat b div 16), hex_digit (unat b mod 16)]) bs)"

definition anonymous_route_id :: "(byte list \<Rightarrow> byte list) \<Rightarrow> route_health_key \<Rightarrow> string" where
  "anonymous_route_id sha route =
    ''route_'' @ take 16 (hex_of (sha
      (as_bytes ''chat2responses:route-id:v1'' @ [0] @ as_bytes (rk_upstream_id route) @ [0]
       @ as_bytes (rk_key_fingerprint route) @ [0] @ as_bytes (rk_runtime_model_slug route) @ [0]
       @ wire_protocol_identity (rk_protocol route))))"

section \<open>The route tracker\<close>

record route_set_attempt_state =
  ra_eligible_routes :: "route_health_key set"
  ra_attempted_routes :: "route_health_key set"
  ra_failures :: "(route_health_key, route_failure_class \<times> duration option) hashmap"

definition attempt_state_default :: route_set_attempt_state where
  "attempt_state_default = \<lparr>ra_eligible_routes = {}, ra_attempted_routes = {}, ra_failures = []\<rparr>"

record request_route_tracker =
  rt_attempted_routes :: "route_health_key set"
  rt_route_sets :: "(route_set_aggregate_key, route_set_attempt_state) hashmap"
  rt_route_to_set :: "(route_health_key, route_set_aggregate_key) hashmap"
  rt_observed_sets :: "route_set_aggregate_key set"

definition tracker_new :: request_route_tracker where
  "tracker_new = \<lparr>rt_attempted_routes = {}, rt_route_sets = [], rt_route_to_set = [], rt_observed_sets = {}\<rparr>"

definition register_eligible :: "route_set_aggregate_key \<Rightarrow> route_health_key \<Rightarrow> request_route_tracker \<Rightarrow> request_route_tracker" where
  "register_eligible aggregate route t =
    (let s = hm_entry_or aggregate attempt_state_default (rt_route_sets t)
     in t\<lparr>rt_route_to_set := AList.update route aggregate (rt_route_to_set t),
          rt_route_sets := AList.update aggregate
            (s\<lparr>ra_eligible_routes := insert route (ra_eligible_routes s)\<rparr>) (rt_route_sets t)\<rparr>)"

definition should_attempt :: "request_route_tracker \<Rightarrow> route_health_key \<Rightarrow> bool" where
  "should_attempt t route = (route \<notin> rt_attempted_routes t)"

definition eligible_routes :: "request_route_tracker \<Rightarrow> route_health_key list" where
  "eligible_routes t = hm_keys (rt_route_to_set t)"

definition record_physical_attempt :: "route_health_key \<Rightarrow> request_route_tracker \<Rightarrow> request_route_tracker" where
  "record_physical_attempt route t =
    (let t1 = t\<lparr>rt_attempted_routes := insert route (rt_attempted_routes t)\<rparr> in
     case map_of (rt_route_to_set t1) route of
       None \<Rightarrow> t1
     | Some aggregate \<Rightarrow>
         t1\<lparr>rt_route_sets := hm_modify aggregate
              (\<lambda>s. s\<lparr>ra_attempted_routes := insert route (ra_attempted_routes s)\<rparr>) (rt_route_sets t1)\<rparr>)"

definition tracker_record_failure ::
  "route_health_key \<Rightarrow> route_failure_class \<Rightarrow> duration option \<Rightarrow> request_route_tracker \<Rightarrow> bool \<times> request_route_tracker" where
  "tracker_record_failure route class retry_after t =
    (case map_of (rt_route_to_set t) route of
       None \<Rightarrow> (False, t)
     | Some aggregate \<Rightarrow>
         (case map_of (rt_route_sets t) aggregate of
            None \<Rightarrow> (False, t)
          | Some s \<Rightarrow>
              if route \<in> ra_attempted_routes s
              then (True, t\<lparr>rt_route_sets := AList.update aggregate
                     (s\<lparr>ra_failures := AList.update route (class, retry_after) (ra_failures s)\<rparr>) (rt_route_sets t)\<rparr>)
              else (False, t)))"

definition failure_sort_key :: "route_failure_class \<times> duration option \<Rightarrow> nat \<times> duration \<times> string" where
  "failure_sort_key = (\<lambda>(class, retry_after).
     (if is_temporary class then 0 else 1, unwrap_or retry_after 0, class_as_str class))"

definition representative_failure ::
  "(route_health_key, route_failure_class \<times> duration option) hashmap \<Rightarrow> (route_failure_class \<times> duration option) outcome_or_panic" where
  "representative_failure failures =
    (case sort_key failure_sort_key (map snd failures) of
       [] \<Rightarrow> Inl (Panic ''an exhausted route set must contain a failure'')
     | v # _ \<Rightarrow> Inr v)"

definition newly_exhausted :: "request_route_tracker \<Rightarrow> route_set_aggregate_key \<times> route_set_attempt_state \<Rightarrow> bool" where
  "newly_exhausted t = (\<lambda>(key, s).
     key \<notin> rt_observed_sets t \<and> ra_eligible_routes s \<noteq> {} \<and> ra_attempted_routes s \<noteq> {}
     \<and> (\<forall>route \<in> ra_eligible_routes s. hm_contains (ra_failures s) route))"

fun observe_sets :: "(route_set_aggregate_key \<times> route_set_attempt_state) list \<Rightarrow> route_set_observation list outcome_or_panic" where
  "observe_sets [] = Inr []"
| "observe_sets ((key, s) # rest) =
    bind_ok (representative_failure (ra_failures s)) (\<lambda>(class, retry_after).
    bind_ok (observe_sets rest) (\<lambda>observations.
      Inr (\<lparr>ro_key = key, ro_class = class, ro_retry_after = retry_after\<rparr> # observations)))"

definition take_newly_exhausted ::
  "request_route_tracker \<Rightarrow> (route_set_observation list \<times> request_route_tracker) outcome_or_panic" where
  "take_newly_exhausted t =
    bind_ok (observe_sets (filter (newly_exhausted t) (rt_route_sets t))) (\<lambda>observations.
      Inr (observations, t\<lparr>rt_observed_sets := rt_observed_sets t \<union> set (map ro_key observations)\<rparr>))"

section \<open>The ledger\<close>

record attempt_ledger =
  al_failures :: "attempt_failure list"
  al_cooled_candidates :: "attempt_failure list"
  al_local_gate_rejected_count :: nat

definition ledger_default :: attempt_ledger where
  "ledger_default = \<lparr>al_failures = [], al_cooled_candidates = [], al_local_gate_rejected_count = 0\<rparr>"

definition candidates :: "attempt_ledger \<Rightarrow> attempt_failure list" where
  "candidates l = al_failures l @ al_cooled_candidates l"

fun replace_route :: "attempt_failure \<Rightarrow> attempt_failure list \<Rightarrow> attempt_failure list" where
  "replace_route failure [] = []"
| "replace_route failure (f # fs) =
    (if af_route_id f = af_route_id failure then failure # fs else f # replace_route failure fs)"

definition has_route :: "string \<Rightarrow> attempt_failure list \<Rightarrow> bool" where
  "has_route route_id fs = list_ex (\<lambda>f. af_route_id f = route_id) fs"

definition ledger_record :: "attempt_failure \<Rightarrow> attempt_ledger \<Rightarrow> attempt_ledger" where
  "ledger_record failure l =
    (let l1 = l\<lparr>al_cooled_candidates := filter (\<lambda>c. af_route_id c \<noteq> af_route_id failure) (al_cooled_candidates l)\<rparr>
     in if has_route (af_route_id failure) (al_failures l1)
        then l1\<lparr>al_failures := replace_route failure (al_failures l1)\<rparr>
        else l1\<lparr>al_failures := al_failures l1 @ [failure]\<rparr>)"

definition retry_or_max :: "attempt_failure \<Rightarrow> duration" where
  "retry_or_max failure = unwrap_or (af_retry_after failure) duration_max"

definition ledger_record_cooled :: "attempt_failure \<Rightarrow> attempt_ledger \<Rightarrow> attempt_ledger" where
  "ledger_record_cooled failure l =
    (if has_route (af_route_id failure) (al_failures l) then l
     else case find (\<lambda>c. af_route_id c = af_route_id failure) (al_cooled_candidates l) of
            Some existing \<Rightarrow>
              if retry_or_max failure < retry_or_max existing
              then l\<lparr>al_cooled_candidates := replace_route failure (al_cooled_candidates l)\<rparr> else l
          | None \<Rightarrow> l\<lparr>al_cooled_candidates := al_cooled_candidates l @ [failure]\<rparr>)"

definition ledger_record_cooled_local_gate :: "attempt_failure \<Rightarrow> attempt_ledger \<Rightarrow> attempt_ledger" where
  "ledger_record_cooled_local_gate failure l =
    (let l1 = ledger_record_cooled failure l
     in l1\<lparr>al_local_gate_rejected_count := al_local_gate_rejected_count l1 + 1\<rparr>)"

definition ledger_is_empty :: "attempt_ledger \<Rightarrow> bool" where
  "ledger_is_empty l = (al_failures l = [] \<and> al_cooled_candidates l = [])"

definition half_open_busy_count :: "attempt_ledger \<Rightarrow> nat" where
  "half_open_busy_count l = length (filter af_half_open_busy (candidates l))"

definition is_all_half_open_busy :: "attempt_ledger \<Rightarrow> bool" where
  "is_all_half_open_busy l = (\<not> ledger_is_empty l \<and> list_all af_half_open_busy (candidates l))"

definition transient_family :: "route_failure_class \<Rightarrow> bool" where
  "transient_family class = (class = TransientServer \<or> class = EdgeProxyError \<or> class = CapacityUnavailable)"

definition is_all_cooled_transient_family :: "attempt_ledger \<Rightarrow> bool" where
  "is_all_cooled_transient_family l =
    (al_cooled_candidates l \<noteq> [] \<and> list_all (\<lambda>f. transient_family (af_class f)) (al_cooled_candidates l))"

definition is_all_transient_family_failures :: "attempt_ledger \<Rightarrow> bool" where
  "is_all_transient_family_failures l =
    (al_failures l \<noteq> [] \<and> list_all (\<lambda>f. transient_family (af_class f)) (al_failures l))"

definition distinct_route_count :: "attempt_ledger \<Rightarrow> nat" where
  "distinct_route_count l = card (set (map af_route_id (candidates l)))"

definition class_count :: "attempt_ledger \<Rightarrow> route_failure_class \<Rightarrow> nat" where
  "class_count l class = length (filter (\<lambda>f. af_class f = class) (candidates l))"

fun rate_limit_semantics :: "attempt_failure \<Rightarrow> bool" where
  "rate_limit_semantics f =
    (case af_class f of
       RateLimited \<Rightarrow> True
     | KeyQuota \<Rightarrow> True
     | ConcurrencySaturated \<Rightarrow> True
     | CapacityUnavailable \<Rightarrow> af_upstream_status f = Some 429
     | _ \<Rightarrow> False)"

definition is_pure_rate_limit_exhaustion :: "attempt_ledger \<Rightarrow> bool" where
  "is_pure_rate_limit_exhaustion l = (\<not> ledger_is_empty l \<and> list_all rate_limit_semantics (candidates l))"

definition is_pure_client_rate_limit :: "attempt_ledger \<Rightarrow> bool" where
  "is_pure_client_rate_limit l =
    (\<not> ledger_is_empty l \<and> list_all (\<lambda>f. af_class f = RateLimited \<or> af_class f = KeyQuota) (candidates l))"

definition is_pure_concurrency_exhaustion :: "attempt_ledger \<Rightarrow> bool" where
  "is_pure_concurrency_exhaustion l =
    (\<not> ledger_is_empty l \<and> list_all (\<lambda>f. af_class f = ConcurrencySaturated) (candidates l))"

text \<open>
  \<open>max_by_key\<close> with the key \<open>(count, Reverse(value))\<close>: the most common value, the least of
  several. The keys of different values differ, so the hash map's order does not matter.
\<close>

definition most_common :: "'a::linorder list \<Rightarrow> 'a option" where
  "most_common xs =
    fold (\<lambda>x best. case best of
        None \<Rightarrow> Some x
      | Some b \<Rightarrow> if count_list xs b < count_list xs x \<or> (count_list xs x = count_list xs b \<and> x < b) then Some x else best)
      (remdups xs) None"

definition present :: "('a \<Rightarrow> 'b option) \<Rightarrow> 'a list \<Rightarrow> 'b list" where
  "present f xs = concat (map (\<lambda>x. case f x of None \<Rightarrow> [] | Some y \<Rightarrow> [y]) xs)"

record failure_class_summary =
  su_class :: route_failure_class
  su_routes :: nat
  su_upstream_status :: "nat option"
  su_upstream_error_code :: "string option"
  su_upstream_name :: "string option"
  su_upstream_error_body_excerpt :: "string option"

definition class_summary_of :: "attempt_ledger \<Rightarrow> route_failure_class \<Rightarrow> failure_class_summary" where
  "class_summary_of l class =
    (let fs = filter (\<lambda>f. af_class f = class) (candidates l)
     in \<lparr>su_class = class, su_routes = class_count l class,
         su_upstream_status = most_common (present af_upstream_status fs),
         su_upstream_error_code = most_common (present af_upstream_error_code fs),
         su_upstream_name = most_common (present af_upstream_name fs),
         su_upstream_error_body_excerpt = most_common (present af_upstream_error_body_excerpt fs)\<rparr>)"

definition class_summaries :: "attempt_ledger \<Rightarrow> failure_class_summary list" where
  "class_summaries l =
    sort_key (\<lambda>s. (- int (su_routes s), class_as_str (su_class s)))
      (map (class_summary_of l) (filter (\<lambda>class. class_count l class \<noteq> 0) failure_class_all))"

definition upstream_error_code_counts :: "attempt_ledger \<Rightarrow> (string, nat) hashmap" where
  "upstream_error_code_counts l =
    (let codes = present af_upstream_error_code (candidates l)
     in map (\<lambda>code. (code, count_list codes code)) (remdups codes))"

definition distinct_upstream_host_count :: "attempt_ledger \<Rightarrow> nat" where
  "distinct_upstream_host_count l = card (set (present af_upstream_host (candidates l)))"

definition ledger_body_excerpt :: "attempt_ledger \<Rightarrow> string option" where
  "ledger_body_excerpt l = most_common (present af_upstream_error_body_excerpt (candidates l))"

definition terminal_observation :: "attempt_ledger \<Rightarrow> attempt_failure option" where
  "terminal_observation l =
    (if al_failures l \<noteq> [] then Some (last (al_failures l))
     else min_by_key retry_or_max (al_cooled_candidates l))"

definition observation_for_class :: "attempt_ledger \<Rightarrow> route_failure_class \<Rightarrow> attempt_failure option" where
  "observation_for_class l class =
    min_by_key (\<lambda>f. (retry_or_max f, af_route_id f)) (filter (\<lambda>f. af_class f = class) (candidates l))"

fun terminal_observation_for :: "attempt_ledger \<Rightarrow> terminal_failure \<Rightarrow> attempt_failure option" where
  "terminal_observation_for l (Temporary retry_after) =
    min_by_key (\<lambda>f. (if af_retry_after f \<noteq> Some retry_after then 1 :: nat else 0, retry_or_max f, af_route_id f))
      (filter (\<lambda>f. is_temporary (af_class f)) (candidates l))"
| "terminal_observation_for l TerminalCredentials = observation_for_class l Credentials"
| "terminal_observation_for l TerminalModelUnsupported = observation_for_class l ModelUnsupported"
| "terminal_observation_for l TerminalCapabilityUnsupported = observation_for_class l FeatureUnsupported"
| "terminal_observation_for l TerminalProtocolUnsupported = observation_for_class l ProtocolUnsupported"
| "terminal_observation_for l MixedRoutesExhausted = terminal_observation l"

definition ledger_terminal_failure :: "attempt_ledger \<Rightarrow> terminal_failure outcome_or_panic" where
  "ledger_terminal_failure l =
    (let cs = candidates l in
     if cs = [] then Inl (Panic ''terminal failure requires a candidate'')
     else if list_ex (\<lambda>f. is_temporary (af_class f)) cs
     then Inr (Temporary (unwrap_or
            (min_by_key id (present af_retry_after (filter (\<lambda>f. is_temporary (af_class f)) cs))) (from_secs 1)))
     else if list_all (\<lambda>f. af_class f = Credentials) cs then Inr TerminalCredentials
     else if list_all (\<lambda>f. af_class f = ModelUnsupported) cs then Inr TerminalModelUnsupported
     else if list_all (\<lambda>f. af_class f = FeatureUnsupported) cs then Inr TerminalCapabilityUnsupported
     else if list_all (\<lambda>f. af_class f = ProtocolUnsupported) cs then Inr TerminalProtocolUnsupported
     else Inr MixedRoutesExhausted)"

section \<open>The attempts of a request\<close>

record request_route_attempts =
  rq_tracker :: request_route_tracker
  rq_ledger :: attempt_ledger
  rq_physical_attempts :: nat
  rq_transient_failed_routes :: "string set"
  rq_last_resort_probe :: "route_health_key option"
  rq_last_resort_probe_armed :: bool
  rq_last_resort_probe_granted :: bool
  rq_give_up_reason :: "give_up_reason option"
  rq_retry_waited_ms :: nat
  rq_routing_round :: nat

definition attempts_default :: request_route_attempts where
  "attempts_default = \<lparr>rq_tracker = tracker_new, rq_ledger = ledger_default, rq_physical_attempts = 0,
     rq_transient_failed_routes = {}, rq_last_resort_probe = None, rq_last_resort_probe_armed = False,
     rq_last_resort_probe_granted = False, rq_give_up_reason = None, rq_retry_waited_ms = 0, rq_routing_round = 1\<rparr>"

definition attempts_register_eligible ::
  "route_set_aggregate_key \<Rightarrow> route_health_key \<Rightarrow> request_route_attempts \<Rightarrow> request_route_attempts" where
  "attempts_register_eligible aggregate route q = q\<lparr>rq_tracker := register_eligible aggregate route (rq_tracker q)\<rparr>"

definition record_physical_send :: "request_route_attempts \<Rightarrow> request_route_attempts" where
  "record_physical_send q = q\<lparr>rq_physical_attempts := u64_wrapping_add (rq_physical_attempts q) 1\<rparr>"

definition attempts_record_physical_attempt :: "route_health_key \<Rightarrow> request_route_attempts \<Rightarrow> request_route_attempts" where
  "attempts_record_physical_attempt route q =
    (let q1 = record_physical_send q in q1\<lparr>rq_tracker := record_physical_attempt route (rq_tracker q1)\<rparr>)"

definition next_round :: "request_route_attempts \<Rightarrow> request_route_attempts" where
  "next_round q = q\<lparr>rq_tracker := tracker_new, rq_ledger := ledger_default,
     rq_routing_round := u32_saturating_add (rq_routing_round q) 1\<rparr>"

record failure_details =
  fd_upstream_status :: "nat option"
  fd_upstream_error_code :: "string option"
  fd_upstream_error_body_excerpt :: "string option"
  fd_upstream_name :: "string option"
  fd_upstream_host :: "string option"

definition record_failure_with_status ::
  "(byte list \<Rightarrow> byte list) \<Rightarrow> route_health_key \<Rightarrow> route_failure_class \<Rightarrow> duration option \<Rightarrow> failure_details
   \<Rightarrow> request_route_attempts \<Rightarrow> request_route_attempts" where
  "record_failure_with_status sha route class retry_after details q =
    (let (recorded, t) = tracker_record_failure route class retry_after (rq_tracker q);
         q1 = q\<lparr>rq_tracker := t\<rparr> in
     if \<not> recorded then q1
     else let route_id = anonymous_route_id sha route;
              q2 = (if transient_family class
                    then q1\<lparr>rq_transient_failed_routes := insert route_id (rq_transient_failed_routes q1)\<rparr> else q1)
          in q2\<lparr>rq_ledger := ledger_record
                 \<lparr>af_route_id = route_id, af_upstream_status = fd_upstream_status details,
                  af_upstream_error_code = fd_upstream_error_code details,
                  af_upstream_name = fd_upstream_name details, af_upstream_host = fd_upstream_host details,
                  af_upstream_error_body_excerpt = fd_upstream_error_body_excerpt details,
                  af_class = class, af_retry_after = retry_after, af_half_open_busy = False\<rparr> (rq_ledger q2)\<rparr>)"

definition attempts_record_failure ::
  "(byte list \<Rightarrow> byte list) \<Rightarrow> route_health_key \<Rightarrow> route_failure_class \<Rightarrow> duration option
   \<Rightarrow> request_route_attempts \<Rightarrow> request_route_attempts" where
  "attempts_record_failure sha route class retry_after q =
    record_failure_with_status sha route class retry_after
      \<lparr>fd_upstream_status = None, fd_upstream_error_code = None, fd_upstream_error_body_excerpt = None,
       fd_upstream_name = None, fd_upstream_host = None\<rparr> q"

definition attempts_record_cooled :: "attempt_failure \<Rightarrow> request_route_attempts \<Rightarrow> request_route_attempts" where
  "attempts_record_cooled failure q = q\<lparr>rq_ledger := ledger_record_cooled failure (rq_ledger q)\<rparr>"

definition attempts_record_cooled_local_gate :: "attempt_failure \<Rightarrow> request_route_attempts \<Rightarrow> request_route_attempts" where
  "attempts_record_cooled_local_gate failure q = q\<lparr>rq_ledger := ledger_record_cooled_local_gate failure (rq_ledger q)\<rparr>"

definition has_transient_failure_for :: "(byte list \<Rightarrow> byte list) \<Rightarrow> request_route_attempts \<Rightarrow> route_health_key \<Rightarrow> bool" where
  "has_transient_failure_for sha q route = (anonymous_route_id sha route \<in> rq_transient_failed_routes q)"

definition arm_last_resort_probe :: "route_health_key \<Rightarrow> request_route_attempts \<Rightarrow> request_route_attempts" where
  "arm_last_resort_probe route q = q\<lparr>rq_last_resort_probe_armed := True, rq_last_resort_probe := Some route\<rparr>"

definition take_last_resort_probe_for :: "route_health_key \<Rightarrow> request_route_attempts \<Rightarrow> bool \<times> request_route_attempts" where
  "take_last_resort_probe_for route q =
    (if rq_last_resort_probe q = Some route then (True, q\<lparr>rq_last_resort_probe := None\<rparr>) else (False, q))"

definition clear_last_resort_probe :: "request_route_attempts \<Rightarrow> request_route_attempts" where
  "clear_last_resort_probe q = q\<lparr>rq_last_resort_probe := None\<rparr>"

definition mark_last_resort_probe_granted :: "request_route_attempts \<Rightarrow> request_route_attempts" where
  "mark_last_resort_probe_granted q = q\<lparr>rq_last_resort_probe_granted := True\<rparr>"

definition set_give_up_reason :: "give_up_reason \<Rightarrow> request_route_attempts \<Rightarrow> request_route_attempts" where
  "set_give_up_reason reason q =
    (if rq_give_up_reason q = None then q\<lparr>rq_give_up_reason := Some reason\<rparr> else q)"

definition record_retry_waited :: "duration \<Rightarrow> request_route_attempts \<Rightarrow> request_route_attempts" where
  "record_retry_waited waited q =
    q\<lparr>rq_retry_waited_ms := u64_wrapping_add (rq_retry_waited_ms q) (min (waited div 1000000) u64_max)\<rparr>"

definition earliest_cooled_route :: "(byte list \<Rightarrow> byte list) \<Rightarrow> request_route_attempts \<Rightarrow> route_health_key option" where
  "earliest_cooled_route sha q =
    Option.bind (min_by_key retry_or_max (candidates (rq_ledger q))) (\<lambda>selected.
      find (\<lambda>route. anonymous_route_id sha route = af_route_id selected) (eligible_routes (rq_tracker q)))"

definition attempts_take_newly_exhausted ::
  "request_route_attempts \<Rightarrow> (route_set_observation list \<times> request_route_attempts) outcome_or_panic" where
  "attempts_take_newly_exhausted q =
    bind_ok (take_newly_exhausted (rq_tracker q)) (\<lambda>(observations, t). Inr (observations, q\<lparr>rq_tracker := t\<rparr>))"

definition available_candidate_count :: "(byte list \<Rightarrow> byte list) \<Rightarrow> request_route_attempts \<Rightarrow> nat" where
  "available_candidate_count sha q =
    (let removed = set (map af_route_id (candidates (rq_ledger q)))
     in length (filter (\<lambda>route. anonymous_route_id sha route \<notin> removed) (eligible_routes (rq_tracker q))))"

section \<open>The invariant of a request's attempts\<close>

definition set_ok :: "route_health_key set \<Rightarrow> route_set_attempt_state \<Rightarrow> bool" where
  "set_ok attempted s =
    (hm_ok (ra_failures s) \<and> fst ` set (ra_failures s) \<subseteq> ra_attempted_routes s
     \<and> ra_attempted_routes s \<subseteq> ra_eligible_routes s \<and> ra_attempted_routes s \<subseteq> attempted)"

definition tracker_ok :: "request_route_tracker \<Rightarrow> bool" where
  "tracker_ok t =
    (hm_ok (rt_route_sets t)
     \<and> (\<forall>aggregate s. map_of (rt_route_sets t) aggregate = Some s \<longrightarrow> set_ok (rt_attempted_routes t) s)
     \<and> (\<forall>route aggregate. map_of (rt_route_to_set t) route = Some aggregate \<longrightarrow>
          (\<exists>s. map_of (rt_route_sets t) aggregate = Some s \<and> route \<in> ra_eligible_routes s)))"

lemma tracker_new_ok: "tracker_ok tracker_new"
  by (simp add: tracker_ok_def tracker_new_def)

lemma set_ok_mono: "set_ok a s \<Longrightarrow> a \<subseteq> b \<Longrightarrow> set_ok b s"
  by (auto simp: set_ok_def)

lemma set_ok_entry:
  assumes "tracker_ok t"
  shows "set_ok (rt_attempted_routes t) (hm_entry_or aggregate attempt_state_default (rt_route_sets t))"
  using assms by (cases "map_of (rt_route_sets t) aggregate")
    (simp_all add: tracker_ok_def set_ok_def attempt_state_default_def)

text \<open>Storing a state for a route set that keeps what was eligible, with routes that map to it.\<close>

lemma tracker_ok_store:
  assumes "tracker_ok t" "set_ok attempted s" "rt_attempted_routes t \<subseteq> attempted"
    and grows: "\<And>old. map_of (rt_route_sets t) aggregate = Some old \<Longrightarrow> ra_eligible_routes old \<subseteq> ra_eligible_routes s"
    and routes: "\<And>route agg. map_of routes route = Some agg \<Longrightarrow>
      (agg = aggregate \<and> route \<in> ra_eligible_routes s) \<or> map_of (rt_route_to_set t) route = Some agg"
  shows "tracker_ok (t\<lparr>rt_attempted_routes := attempted, rt_route_to_set := routes,
    rt_route_sets := AList.update aggregate s (rt_route_sets t)\<rparr>)"
  unfolding tracker_ok_def
proof (intro conjI allI impI)
  show "hm_ok (rt_route_sets (t\<lparr>rt_attempted_routes := attempted, rt_route_to_set := routes,
      rt_route_sets := AList.update aggregate s (rt_route_sets t)\<rparr>))"
    using assms(1) by (simp add: tracker_ok_def)
next
  fix agg u
  assume "map_of (rt_route_sets (t\<lparr>rt_attempted_routes := attempted, rt_route_to_set := routes,
      rt_route_sets := AList.update aggregate s (rt_route_sets t)\<rparr>)) agg = Some u"
  then have "u = s \<or> set_ok (rt_attempted_routes t) u"
    using assms(1) by (auto simp: tracker_ok_def split: if_splits)
  then show "set_ok (rt_attempted_routes (t\<lparr>rt_attempted_routes := attempted, rt_route_to_set := routes,
      rt_route_sets := AList.update aggregate s (rt_route_sets t)\<rparr>)) u"
    using assms(2,3) set_ok_mono by auto
next
  fix route agg
  assume "map_of (rt_route_to_set (t\<lparr>rt_attempted_routes := attempted, rt_route_to_set := routes,
      rt_route_sets := AList.update aggregate s (rt_route_sets t)\<rparr>)) route = Some agg"
  then have "(agg = aggregate \<and> route \<in> ra_eligible_routes s)
      \<or> (\<exists>u. map_of (rt_route_sets t) agg = Some u \<and> route \<in> ra_eligible_routes u)"
    using routes [of route agg] assms(1) by (auto simp: tracker_ok_def)
  then show "\<exists>u. map_of (rt_route_sets (t\<lparr>rt_attempted_routes := attempted, rt_route_to_set := routes,
      rt_route_sets := AList.update aggregate s (rt_route_sets t)\<rparr>)) agg = Some u \<and> route \<in> ra_eligible_routes u"
    using grows by (cases "agg = aggregate") auto
qed

lemma register_eligible_ok:
  assumes "tracker_ok t"
  shows "tracker_ok (register_eligible aggregate route t)"
proof -
  let ?s = "hm_entry_or aggregate attempt_state_default (rt_route_sets t)"
  have ok: "set_ok (rt_attempted_routes t) (?s\<lparr>ra_eligible_routes := insert route (ra_eligible_routes ?s)\<rparr>)"
    using set_ok_entry [OF assms, of aggregate] by (auto simp: set_ok_def)
  have "tracker_ok (t\<lparr>rt_attempted_routes := rt_attempted_routes t,
      rt_route_to_set := AList.update route aggregate (rt_route_to_set t), rt_route_sets := AList.update aggregate
        (?s\<lparr>ra_eligible_routes := insert route (ra_eligible_routes ?s)\<rparr>) (rt_route_sets t)\<rparr>)"
    by (rule tracker_ok_store [OF assms ok order_refl]) (auto split: if_splits)
  then show ?thesis by (simp add: register_eligible_def Let_def)
qed

lemma record_physical_attempt_ok:
  assumes "tracker_ok t"
  shows "tracker_ok (record_physical_attempt route t)"
proof (cases "map_of (rt_route_to_set t) route")
  case None
  have "set_ok (insert route (rt_attempted_routes t)) s" if "set_ok (rt_attempted_routes t) s" for s
    using set_ok_mono [OF that] by blast
  then show ?thesis
    using assms None by (simp add: tracker_ok_def record_physical_attempt_def Let_def)
next
  case (Some aggregate)
  then obtain s where s: "map_of (rt_route_sets t) aggregate = Some s" "route \<in> ra_eligible_routes s"
    using assms unfolding tracker_ok_def by blast
  have "set_ok (rt_attempted_routes t) s" using assms s(1) unfolding tracker_ok_def by blast
  then have ok: "set_ok (insert route (rt_attempted_routes t)) (s\<lparr>ra_attempted_routes := insert route (ra_attempted_routes s)\<rparr>)"
    using s(2) by (auto simp: set_ok_def)
  have "tracker_ok (t\<lparr>rt_attempted_routes := insert route (rt_attempted_routes t), rt_route_to_set := rt_route_to_set t,
      rt_route_sets := AList.update aggregate
        (s\<lparr>ra_attempted_routes := insert route (ra_attempted_routes s)\<rparr>) (rt_route_sets t)\<rparr>)"
    by (rule tracker_ok_store [OF assms ok]) (use s in auto)
  then show ?thesis using Some s(1) by (simp add: record_physical_attempt_def Let_def hm_modify_def)
qed

lemma keys_update: "fst ` set (AList.update k v m) = insert k (fst ` set m)"
  unfolding dom_map_of_conv_image_fst [symmetric] by (auto simp: dom_def)

lemma tracker_record_failure_cases:
  "tracker_record_failure route class retry_after t = (False, t)
   \<or> (\<exists>aggregate s. map_of (rt_route_sets t) aggregate = Some s \<and> route \<in> ra_attempted_routes s
      \<and> tracker_record_failure route class retry_after t = (True, t\<lparr>rt_route_sets := AList.update aggregate
         (s\<lparr>ra_failures := AList.update route (class, retry_after) (ra_failures s)\<rparr>) (rt_route_sets t)\<rparr>))"
proof (cases "map_of (rt_route_to_set t) route")
  case (Some aggregate)
  then show ?thesis
    by (cases "map_of (rt_route_sets t) aggregate") (simp_all add: tracker_record_failure_def, metis)
qed (simp add: tracker_record_failure_def)

lemma tracker_record_failure_ok:
  assumes "tracker_ok t"
  shows "tracker_ok (snd (tracker_record_failure route class retry_after t))
    \<and> (fst (tracker_record_failure route class retry_after t) \<longrightarrow> route \<in> rt_attempted_routes t)
    \<and> rt_attempted_routes (snd (tracker_record_failure route class retry_after t)) = rt_attempted_routes t"
  using tracker_record_failure_cases [of route "class" retry_after t]
proof (elim disjE exE conjE)
  fix aggregate s
  assume s: "map_of (rt_route_sets t) aggregate = Some s" "route \<in> ra_attempted_routes s"
    and t: "tracker_record_failure route class retry_after t = (True, t\<lparr>rt_route_sets := AList.update aggregate
         (s\<lparr>ra_failures := AList.update route (class, retry_after) (ra_failures s)\<rparr>) (rt_route_sets t)\<rparr>)"
  have ok: "set_ok (rt_attempted_routes t) s" using assms s(1) unfolding tracker_ok_def by blast
  have ok': "set_ok (rt_attempted_routes t) (s\<lparr>ra_failures := AList.update route (class, retry_after) (ra_failures s)\<rparr>)"
    using ok s(2) by (simp add: set_ok_def keys_update)
  have "tracker_ok (t\<lparr>rt_attempted_routes := rt_attempted_routes t, rt_route_to_set := rt_route_to_set t,
      rt_route_sets := AList.update aggregate
        (s\<lparr>ra_failures := AList.update route (class, retry_after) (ra_failures s)\<rparr>) (rt_route_sets t)\<rparr>)"
    by (rule tracker_ok_store [OF assms ok' order_refl]) (use s in auto)
  moreover have "route \<in> rt_attempted_routes t" using ok s(2) by (auto simp: set_ok_def)
  ultimately show ?thesis using t by simp
qed (use assms in simp)

lemma newly_exhausted_failures:
  assumes "newly_exhausted t (key, s)"
  shows "ra_failures s \<noteq> []"
  using assms by (auto simp: newly_exhausted_def hm_contains_def)

lemma representative_failure_spec:
  assumes "failures \<noteq> []"
  shows "\<exists>v. representative_failure failures = Inr v \<and> v \<in> snd ` set failures
    \<and> (\<forall>w \<in> snd ` set failures. failure_sort_key v \<le> failure_sort_key w)"
proof -
  obtain v vs where v: "sort_key failure_sort_key (map snd failures) = v # vs"
    using assms by (cases "sort_key failure_sort_key (map snd failures)")
      (metis length_sort list.size(3) length_0_conv map_is_Nil_conv, blast)
  then have "v \<in> snd ` set failures" by (metis image_set list.set_intros(1) set_sort)
  moreover have "failure_sort_key v \<le> failure_sort_key w" if "w \<in> snd ` set failures" for w
  proof -
    have "w \<in> set (v # vs)" using that by (metis image_set set_sort v)
    then show ?thesis using sorted_sort_key [of failure_sort_key "map snd failures"] v by auto
  qed
  ultimately show ?thesis using v by (simp add: representative_failure_def)
qed

lemma observe_sets_spec:
  assumes "\<And>key s. (key, s) \<in> set sets \<Longrightarrow> ra_failures s \<noteq> []"
  shows "\<exists>os. observe_sets sets = Inr os \<and> map ro_key os = map fst sets
    \<and> (\<forall>ob \<in> set os. \<exists>s. (ro_key ob, s) \<in> set sets \<and> (ro_class ob, ro_retry_after ob) \<in> snd ` set (ra_failures s)
        \<and> (\<forall>w \<in> snd ` set (ra_failures s). failure_sort_key (ro_class ob, ro_retry_after ob) \<le> failure_sort_key w))"
  using assms
proof (induction sets)
  case (Cons ks sets)
  obtain key s where ks: "ks = (key, s)" by (cases ks)
  then have "ra_failures s \<noteq> []" using Cons.prems [of key s] by simp
  then obtain v where v: "representative_failure (ra_failures s) = Inr v" "v \<in> snd ` set (ra_failures s)"
      "\<forall>w \<in> snd ` set (ra_failures s). failure_sort_key v \<le> failure_sort_key w"
    using representative_failure_spec by blast
  obtain os where os: "observe_sets sets = Inr os" "map ro_key os = map fst sets"
    "\<forall>ob \<in> set os. \<exists>s. (ro_key ob, s) \<in> set sets \<and> (ro_class ob, ro_retry_after ob) \<in> snd ` set (ra_failures s)
        \<and> (\<forall>w \<in> snd ` set (ra_failures s). failure_sort_key (ro_class ob, ro_retry_after ob) \<le> failure_sort_key w)"
    using Cons by force
  obtain c r where cr: "v = (c, r)" by (cases v)
  let ?o = "\<lparr>ro_key = key, ro_class = c, ro_retry_after = r\<rparr>"
  have "observe_sets (ks # sets) = Inr (?o # os)" using ks v(1) os(1) cr by simp
  moreover have "\<exists>s. (ro_key ob, s) \<in> set (ks # sets) \<and> (ro_class ob, ro_retry_after ob) \<in> snd ` set (ra_failures s)
        \<and> (\<forall>w \<in> snd ` set (ra_failures s). failure_sort_key (ro_class ob, ro_retry_after ob) \<le> failure_sort_key w)"
    if "ob \<in> set (?o # os)" for ob
  proof (cases "ob = ?o")
    case True
    then show ?thesis using ks v(2,3) cr by (intro exI [of _ s]) simp
  next
    case False
    then show ?thesis using that os(3) by fastforce
  qed
  ultimately show ?case using os(2) ks by auto
qed simp

text \<open>The ledger names a route once, among the failed or among the cooling ones.\<close>

definition ledger_ok :: "attempt_ledger \<Rightarrow> bool" where
  "ledger_ok l = distinct (map af_route_id (candidates l))"

lemma ids_replace_route [simp]: "map af_route_id (replace_route f fs) = map af_route_id fs"
  by (induction fs) auto

lemma ids_replace_route_set [simp]: "af_route_id ` set (replace_route f fs) = af_route_id ` set fs"
  by (induction fs) auto

lemma replace_route_set: "set (replace_route f fs) \<subseteq> insert f (set fs)"
  by (induction fs) auto

lemma has_route_iff: "has_route i fs \<longleftrightarrow> i \<in> set (map af_route_id fs)"
  by (auto simp: has_route_def list_ex_iff)

lemma ledger_record_ok:
  assumes "ledger_ok l"
  shows "ledger_ok (ledger_record f l)" "set (al_failures (ledger_record f l)) \<subseteq> insert f (set (al_failures l))"
proof -
  let ?cooled = "filter (\<lambda>c. af_route_id c \<noteq> af_route_id f) (al_cooled_candidates l)"
  have d: "distinct (map af_route_id (al_failures l) @ map af_route_id ?cooled)"
    using assms by (auto simp: ledger_ok_def candidates_def distinct_map_filter)
  show "ledger_ok (ledger_record f l)"
  proof (cases "has_route (af_route_id f) (al_failures l)")
    case True
    then show ?thesis using d by (simp add: ledger_record_def ledger_ok_def candidates_def)
  next
    case False
    then have "af_route_id f \<notin> af_route_id ` set (al_failures l)" by (simp add: has_route_iff)
    moreover have "af_route_id f \<notin> af_route_id ` set ?cooled" by auto
    ultimately show ?thesis using d False by (simp add: ledger_record_def ledger_ok_def candidates_def)
  qed
  show "set (al_failures (ledger_record f l)) \<subseteq> insert f (set (al_failures l))"
    using replace_route_set [of f "al_failures l"] by (auto simp: ledger_record_def Let_def)
qed

lemma ledger_record_cooled_ok:
  assumes "ledger_ok l"
  shows "ledger_ok (ledger_record_cooled f l)" "al_failures (ledger_record_cooled f l) = al_failures l"
proof -
  have "af_route_id f \<notin> set (map af_route_id (al_cooled_candidates l))"
    if "find (\<lambda>c. af_route_id c = af_route_id f) (al_cooled_candidates l) = None"
    using that by (auto simp: find_None_iff)
  then show "ledger_ok (ledger_record_cooled f l)"
    using assms by (simp add: ledger_record_cooled_def ledger_ok_def candidates_def has_route_iff split: option.split)
  show "al_failures (ledger_record_cooled f l) = al_failures l"
    by (simp add: ledger_record_cooled_def split: option.split)
qed

definition attempts_ok :: "(byte list \<Rightarrow> byte list) \<Rightarrow> request_route_attempts \<Rightarrow> bool" where
  "attempts_ok sha q =
    (tracker_ok (rq_tracker q) \<and> ledger_ok (rq_ledger q)
     \<and> (\<forall>f \<in> set (al_failures (rq_ledger q)).
          \<exists>route \<in> rt_attempted_routes (rq_tracker q). af_route_id f = anonymous_route_id sha route)
     \<and> (rq_last_resort_probe q \<noteq> None \<longrightarrow> rq_last_resort_probe_armed q))"

datatype attempts_op =
    Register route_set_aggregate_key route_health_key
  | PhysicalAttempt route_health_key
  | PhysicalSend
  | Fail route_health_key route_failure_class "duration option" failure_details
  | Cooled attempt_failure
  | CooledLocalGate attempt_failure
  | ArmProbe route_health_key
  | TakeProbe route_health_key
  | ClearProbe
  | GrantProbe
  | GiveUp give_up_reason
  | Waited duration
  | TakeExhausted
  | NextRound

fun attempts_apply :: "(byte list \<Rightarrow> byte list) \<Rightarrow> attempts_op \<Rightarrow> request_route_attempts \<Rightarrow> request_route_attempts outcome_or_panic" where
  "attempts_apply sha (Register aggregate route) q = Inr (attempts_register_eligible aggregate route q)"
| "attempts_apply sha (PhysicalAttempt route) q = Inr (attempts_record_physical_attempt route q)"
| "attempts_apply sha PhysicalSend q = Inr (record_physical_send q)"
| "attempts_apply sha (Fail route class retry_after details) q =
    Inr (record_failure_with_status sha route class retry_after details q)"
| "attempts_apply sha (Cooled f) q = Inr (attempts_record_cooled f q)"
| "attempts_apply sha (CooledLocalGate f) q = Inr (attempts_record_cooled_local_gate f q)"
| "attempts_apply sha (ArmProbe route) q = Inr (arm_last_resort_probe route q)"
| "attempts_apply sha (TakeProbe route) q = Inr (snd (take_last_resort_probe_for route q))"
| "attempts_apply sha ClearProbe q = Inr (clear_last_resort_probe q)"
| "attempts_apply sha GrantProbe q = Inr (mark_last_resort_probe_granted q)"
| "attempts_apply sha (GiveUp reason) q = Inr (set_give_up_reason reason q)"
| "attempts_apply sha (Waited d) q = Inr (record_retry_waited d q)"
| "attempts_apply sha TakeExhausted q = bind_ok (attempts_take_newly_exhausted q) (\<lambda>(_, q'). Inr q')"
| "attempts_apply sha NextRound q = Inr (next_round q)"

inductive attempts_init :: "request_route_attempts \<Rightarrow> bool" where
  "attempts_init attempts_default"

inductive attempts_step :: "(byte list \<Rightarrow> byte list) \<Rightarrow> attempts_op \<Rightarrow> request_route_attempts \<Rightarrow> request_route_attempts \<Rightarrow> bool"
  for sha where
  "attempts_apply sha op q = Inr q' \<Longrightarrow> attempts_step sha op q q'"

inductive_cases attempts_initE: "attempts_init q"
inductive_cases attempts_stepE: "attempts_step sha op q q'"

lemma take_newly_exhausted_spec:
  "\<exists>os. take_newly_exhausted t = Inr (os, t\<lparr>rt_observed_sets := rt_observed_sets t \<union> set (map ro_key os)\<rparr>)
    \<and> map ro_key os = map fst (filter (newly_exhausted t) (rt_route_sets t))
    \<and> (\<forall>ob \<in> set os. \<exists>s. (ro_key ob, s) \<in> set (rt_route_sets t) \<and> newly_exhausted t (ro_key ob, s)
        \<and> (ro_class ob, ro_retry_after ob) \<in> snd ` set (ra_failures s)
        \<and> (\<forall>w \<in> snd ` set (ra_failures s). failure_sort_key (ro_class ob, ro_retry_after ob) \<le> failure_sort_key w))"
proof -
  have "ra_failures s \<noteq> []" if "(key, s) \<in> set (filter (newly_exhausted t) (rt_route_sets t))" for key s
    using newly_exhausted_failures [of t key s] that by simp
  then obtain os where os: "observe_sets (filter (newly_exhausted t) (rt_route_sets t)) = Inr os"
    "map ro_key os = map fst (filter (newly_exhausted t) (rt_route_sets t))"
    "\<forall>ob \<in> set os. \<exists>s. (ro_key ob, s) \<in> set (filter (newly_exhausted t) (rt_route_sets t))
        \<and> (ro_class ob, ro_retry_after ob) \<in> snd ` set (ra_failures s)
        \<and> (\<forall>w \<in> snd ` set (ra_failures s). failure_sort_key (ro_class ob, ro_retry_after ob) \<le> failure_sort_key w)"
    using observe_sets_spec [of "filter (newly_exhausted t) (rt_route_sets t)"] by blast
  have "take_newly_exhausted t = Inr (os, t\<lparr>rt_observed_sets := rt_observed_sets t \<union> set (map ro_key os)\<rparr>)"
    using os(1) by (simp add: take_newly_exhausted_def)
  moreover have "\<forall>ob \<in> set os. \<exists>s. (ro_key ob, s) \<in> set (rt_route_sets t) \<and> newly_exhausted t (ro_key ob, s)
        \<and> (ro_class ob, ro_retry_after ob) \<in> snd ` set (ra_failures s)
        \<and> (\<forall>w \<in> snd ` set (ra_failures s). failure_sort_key (ro_class ob, ro_retry_after ob) \<le> failure_sort_key w)"
    using os(3) unfolding set_filter mem_Collect_eq by blast
  ultimately show ?thesis using os(2) by blast
qed

lemma tracker_ok_observed: "tracker_ok (t\<lparr>rt_observed_sets := os\<rparr>) = tracker_ok t"
  by (simp add: tracker_ok_def)

lemma attempts_ok_tracker_change:
  assumes "attempts_ok sha q" "tracker_ok t" "rt_attempted_routes (rq_tracker q) \<subseteq> rt_attempted_routes t"
  shows "attempts_ok sha (q\<lparr>rq_tracker := t\<rparr>)"
  using assms by (simp add: attempts_ok_def) blast

lemma register_attempted [simp]: "rt_attempted_routes (register_eligible aggregate route t) = rt_attempted_routes t"
  by (simp add: register_eligible_def Let_def)

lemma record_physical_attempted: "rt_attempted_routes (record_physical_attempt route t) = insert route (rt_attempted_routes t)"
  by (simp add: record_physical_attempt_def Let_def split: option.split)

lemma record_failure_with_status_ok:
  assumes "attempts_ok sha q"
  shows "attempts_ok sha (record_failure_with_status sha route class retry_after details q)"
proof -
  let ?r = "tracker_record_failure route class retry_after (rq_tracker q)"
  have t: "tracker_ok (snd ?r) \<and> (fst ?r \<longrightarrow> route \<in> rt_attempted_routes (rq_tracker q))
      \<and> rt_attempted_routes (snd ?r) = rt_attempted_routes (rq_tracker q)"
    by (rule tracker_record_failure_ok) (use assms in \<open>simp add: attempts_ok_def\<close>)
  let ?f = "\<lparr>af_route_id = anonymous_route_id sha route, af_upstream_status = fd_upstream_status details,
      af_upstream_error_code = fd_upstream_error_code details, af_upstream_name = fd_upstream_name details,
      af_upstream_host = fd_upstream_host details,
      af_upstream_error_body_excerpt = fd_upstream_error_body_excerpt details,
      af_class = class, af_retry_after = retry_after, af_half_open_busy = False\<rparr>"
  have l: "ledger_ok (ledger_record ?f (rq_ledger q))"
    "set (al_failures (ledger_record ?f (rq_ledger q))) \<subseteq> insert ?f (set (al_failures (rq_ledger q)))"
    using ledger_record_ok [of "rq_ledger q" ?f] assms by (simp_all add: attempts_ok_def)
  have failed: "\<exists>r \<in> rt_attempted_routes (rq_tracker q). af_route_id g = anonymous_route_id sha r"
    if "g \<in> set (al_failures (ledger_record ?f (rq_ledger q)))" "fst ?r" for g
  proof (cases "g = ?f")
    case True
    then show ?thesis using t that(2) by (intro bexI [of _ route]) simp_all
  next
    case False
    then have "g \<in> set (al_failures (rq_ledger q))" using l(2) that(1) by blast
    then show ?thesis using assms by (simp add: attempts_ok_def)
  qed
  show ?thesis
    using assms t l(1) failed by (simp add: record_failure_with_status_def attempts_ok_def Let_def case_prod_unfold)
qed

lemma take_newly_exhausted_observed:
  assumes "take_newly_exhausted t = Inr (os, t')"
  shows "t' = t\<lparr>rt_observed_sets := rt_observed_sets t \<union> set (map ro_key os)\<rparr>"
    "map ro_key os = map fst (filter (newly_exhausted t) (rt_route_sets t))"
    "ob \<in> set os \<Longrightarrow> \<exists>s. (ro_key ob, s) \<in> set (rt_route_sets t) \<and> newly_exhausted t (ro_key ob, s)
        \<and> (ro_class ob, ro_retry_after ob) \<in> snd ` set (ra_failures s)
        \<and> (\<forall>w \<in> snd ` set (ra_failures s). failure_sort_key (ro_class ob, ro_retry_after ob) \<le> failure_sort_key w)"
proof -
  obtain os' where os': "take_newly_exhausted t = Inr (os', t\<lparr>rt_observed_sets := rt_observed_sets t \<union> set (map ro_key os')\<rparr>)"
    "map ro_key os' = map fst (filter (newly_exhausted t) (rt_route_sets t))"
    "\<forall>ob \<in> set os'. \<exists>s. (ro_key ob, s) \<in> set (rt_route_sets t) \<and> newly_exhausted t (ro_key ob, s)
        \<and> (ro_class ob, ro_retry_after ob) \<in> snd ` set (ra_failures s)
        \<and> (\<forall>w \<in> snd ` set (ra_failures s). failure_sort_key (ro_class ob, ro_retry_after ob) \<le> failure_sort_key w)"
    using take_newly_exhausted_spec by blast
  then have eq: "os' = os" "t' = t\<lparr>rt_observed_sets := rt_observed_sets t \<union> set (map ro_key os')\<rparr>"
    using assms unfolding os'(1) by blast+
  show "t' = t\<lparr>rt_observed_sets := rt_observed_sets t \<union> set (map ro_key os)\<rparr>" using eq by blast
  show "map ro_key os = map fst (filter (newly_exhausted t) (rt_route_sets t))" using os'(2) eq(1) by blast
  show "ob \<in> set os \<Longrightarrow> \<exists>s. (ro_key ob, s) \<in> set (rt_route_sets t) \<and> newly_exhausted t (ro_key ob, s)
        \<and> (ro_class ob, ro_retry_after ob) \<in> snd ` set (ra_failures s)
        \<and> (\<forall>w \<in> snd ` set (ra_failures s). failure_sort_key (ro_class ob, ro_retry_after ob) \<le> failure_sort_key w)"
    using os'(3) eq(1) by blast
qed

lemma attempts_apply_ok:
  assumes "attempts_ok sha q" "attempts_apply sha op q = Inr q'"
  shows "attempts_ok sha q'"
proof (cases op)
  case (Register aggregate route)
  have "tracker_ok (rq_tracker q)" using assms(1) by (simp add: attempts_ok_def)
  then have "attempts_ok sha (q\<lparr>rq_tracker := register_eligible aggregate route (rq_tracker q)\<rparr>)"
    using assms(1) by (intro attempts_ok_tracker_change register_eligible_ok) simp_all
  then show ?thesis using Register assms(2) by (auto simp: attempts_register_eligible_def)
next
  case (PhysicalAttempt route)
  have "attempts_ok sha (record_physical_send q)"
    using assms(1) by (simp add: attempts_ok_def record_physical_send_def)
  then show ?thesis
    using assms(2) PhysicalAttempt record_physical_attempt_ok
      attempts_ok_tracker_change [of sha "record_physical_send q" "record_physical_attempt route (rq_tracker (record_physical_send q))"]
    by (auto simp: attempts_record_physical_attempt_def Let_def record_physical_attempted attempts_ok_def)
next
  case (Fail route "class" retry_after details)
  then show ?thesis using assms record_failure_with_status_ok by auto
next
  case (Cooled f)
  then show ?thesis
    using assms ledger_record_cooled_ok [of "rq_ledger q" f] by (auto simp: attempts_record_cooled_def attempts_ok_def)
next
  case (CooledLocalGate f)
  have "ledger_ok (ledger_record_cooled_local_gate f (rq_ledger q)) = ledger_ok (ledger_record_cooled f (rq_ledger q))"
    "al_failures (ledger_record_cooled_local_gate f (rq_ledger q)) = al_failures (ledger_record_cooled f (rq_ledger q))"
    by (simp_all add: ledger_record_cooled_local_gate_def Let_def ledger_ok_def candidates_def)
  then show ?thesis using assms CooledLocalGate ledger_record_cooled_ok [of "rq_ledger q" f]
    by (auto simp: attempts_record_cooled_local_gate_def attempts_ok_def)
next
  case TakeExhausted
  obtain os where "take_newly_exhausted (rq_tracker q)
      = Inr (os, rq_tracker q\<lparr>rt_observed_sets := rt_observed_sets (rq_tracker q) \<union> set (map ro_key os)\<rparr>)"
    using take_newly_exhausted_spec by blast
  then show ?thesis
    using assms TakeExhausted by (auto simp: attempts_take_newly_exhausted_def attempts_ok_def tracker_ok_observed)
next
  case NextRound
  then show ?thesis using assms
    by (auto simp: next_round_def attempts_ok_def tracker_new_ok ledger_ok_def candidates_def ledger_default_def)
qed (use assms in \<open>auto simp: attempts_ok_def record_physical_send_def arm_last_resort_probe_def
    take_last_resort_probe_for_def clear_last_resort_probe_def mark_last_resort_probe_granted_def
    set_give_up_reason_def record_retry_waited_def split: if_splits\<close>)

lemma attempts_default_ok: "attempts_ok sha attempts_default"
  by (simp add: attempts_ok_def attempts_default_def tracker_new_ok ledger_ok_def candidates_def ledger_default_def)

interpretation attempts: invariant_system attempts_init "attempts_step sha" "attempts_ok sha" for sha
  by unfold_locales (auto elim!: attempts_initE attempts_stepE simp: attempts_default_ok intro: attempts_apply_ok)

text \<open>What a round has reported stays reported until the next round.\<close>

lemma observed_step:
  assumes "attempts_step sha op q q'" "op \<noteq> NextRound"
  shows "rt_observed_sets (rq_tracker q) \<subseteq> rt_observed_sets (rq_tracker q')"
  using assms
proof (cases op)
  case (Fail route "class" retry_after details)
  have "rt_observed_sets (snd (tracker_record_failure route class retry_after (rq_tracker q))) = rt_observed_sets (rq_tracker q)"
    using tracker_record_failure_cases [of route "class" retry_after "rq_tracker q"] by auto
  then show ?thesis using assms(1) Fail
    by (auto elim!: attempts_stepE simp: record_failure_with_status_def Let_def case_prod_unfold)
next
  case TakeExhausted
  then show ?thesis using assms(1) take_newly_exhausted_spec [of "rq_tracker q"]
    by (auto elim!: attempts_stepE simp: attempts_take_newly_exhausted_def)
qed (auto elim!: attempts_stepE simp: attempts_register_eligible_def register_eligible_def
    attempts_record_physical_attempt_def record_physical_send_def record_physical_attempt_def
    attempts_record_cooled_def attempts_record_cooled_local_gate_def arm_last_resort_probe_def
    take_last_resort_probe_for_def clear_last_resort_probe_def mark_last_resort_probe_granted_def
    set_give_up_reason_def record_retry_waited_def Let_def split: option.splits if_splits)

definition round_step :: "(byte list \<Rightarrow> byte list) \<Rightarrow> request_route_attempts \<Rightarrow> request_route_attempts \<Rightarrow> bool" where
  "round_step sha q q' = (\<exists>op. op \<noteq> NextRound \<and> attempts_step sha op q q')"

lemma observed_steps:
  assumes "(round_step sha)\<^sup>*\<^sup>* q q'"
  shows "rt_observed_sets (rq_tracker q) \<subseteq> rt_observed_sets (rq_tracker q')"
  using assms by (induction rule: rtranclp_induct) (auto simp: round_step_def dest: observed_step)

lemma attempts_take_newly_exhausted_Inr:
  "attempts_take_newly_exhausted q = Inr (os, q') \<longleftrightarrow>
    (\<exists>t. take_newly_exhausted (rq_tracker q) = Inr (os, t) \<and> q' = q\<lparr>rq_tracker := t\<rparr>)"
  by (cases "take_newly_exhausted (rq_tracker q)") (auto simp: attempts_take_newly_exhausted_def)

lemma reported_keys:
  assumes "take_newly_exhausted t = Inr (os, t')"
  shows "set (map ro_key os) = {key. \<exists>s. (key, s) \<in> set (rt_route_sets t) \<and> newly_exhausted t (key, s)}"
  unfolding take_newly_exhausted_observed(2) [OF assms] by force

lemma newly_exhausted_iff:
  assumes "tracker_ok t"
  shows "(\<exists>s. (key, s) \<in> set (rt_route_sets t) \<and> newly_exhausted t (key, s)) \<longleftrightarrow>
    key \<notin> rt_observed_sets t \<and> (\<exists>s. map_of (rt_route_sets t) key = Some s \<and> ra_eligible_routes s \<noteq> {}
      \<and> ra_eligible_routes s \<subseteq> fst ` set (ra_failures s))"
proof -
  have mem: "(key, s) \<in> set (rt_route_sets t) \<longleftrightarrow> map_of (rt_route_sets t) key = Some s" for s
    using assms by (simp add: tracker_ok_def hm_ok_def)
  have "newly_exhausted t (key, s) \<longleftrightarrow> key \<notin> rt_observed_sets t \<and> ra_eligible_routes s \<noteq> {}
      \<and> ra_eligible_routes s \<subseteq> fst ` set (ra_failures s)"
    if "map_of (rt_route_sets t) key = Some s" for s
  proof -
    have "fst ` set (ra_failures s) \<subseteq> ra_attempted_routes s"
      using assms that unfolding tracker_ok_def set_ok_def by blast
    moreover have "hm_contains (ra_failures s) r \<longleftrightarrow> r \<in> fst ` set (ra_failures s)" for r
      by (auto simp: hm_contains_def map_of_eq_None_iff)
    ultimately show ?thesis by (auto simp: newly_exhausted_def)
  qed
  then show ?thesis unfolding mem by blast
qed

lemma second_take_empty:
  assumes "take_newly_exhausted t = Inr (os, t')"
  shows "take_newly_exhausted t' = Inr ([], t')"
proof -
  have t': "t' = t\<lparr>rt_observed_sets := rt_observed_sets t \<union> set (map ro_key os)\<rparr>"
    by (rule take_newly_exhausted_observed(1) [OF assms])
  have "\<not> newly_exhausted t' ks" if "ks \<in> set (rt_route_sets t)" for ks
  proof
    assume new: "newly_exhausted t' ks"
    then have "newly_exhausted t ks" by (auto simp: newly_exhausted_def t' split: prod.splits)
    then have "fst ks \<in> set (map ro_key os)"
      unfolding reported_keys [OF assms] using that by (cases ks) auto
    then show False using new by (auto simp: newly_exhausted_def t' split: prod.splits)
  qed
  then have "filter (newly_exhausted t') (rt_route_sets t') = []" by (simp add: t' filter_empty_conv)
  then show ?thesis by (simp add: take_newly_exhausted_def)
qed

lemma temporary_first:
  "failure_sort_key (c, r) \<le> failure_sort_key (c', r') \<Longrightarrow> is_temporary c' \<Longrightarrow> is_temporary c"
  by (auto simp: failure_sort_key_def split: if_splits)

text \<open>The terminal failure of a ledger, without the order of its tests.\<close>

lemma min_by_key_least:
  assumes "x \<in> set xs"
  shows "\<exists>y \<in> set xs. min_by_key f xs = Some y \<and> (\<forall>z \<in> set xs. f y \<le> f z)"
  using assms min_by_key_SomeD [of f xs] by (cases "min_by_key f xs") auto

lemma set_present: "set (present f xs) = {y. \<exists>x \<in> set xs. f x = Some y}"
  by (induction xs) (auto simp: present_def split: option.splits)

text \<open>The retry delay of a temporary failure, and the failure shown beside it.\<close>

lemma temporary_delay:
  assumes "list_ex (\<lambda>f. is_temporary (af_class f)) (candidates l)"
  shows "\<exists>d. ledger_terminal_failure l = Inr (Temporary d)
    \<and> (\<forall>g \<in> set (candidates l). \<forall>e. is_temporary (af_class g) \<longrightarrow> af_retry_after g = Some e \<longrightarrow> d \<le> e)
    \<and> ((\<exists>g \<in> set (candidates l). is_temporary (af_class g) \<and> af_retry_after g = Some d)
       \<or> d = from_secs 1 \<and> (\<forall>g \<in> set (candidates l). is_temporary (af_class g) \<longrightarrow> af_retry_after g = None))"
proof -
  let ?ds = "present af_retry_after (filter (\<lambda>f. is_temporary (af_class f)) (candidates l))"
  have ne: "candidates l \<noteq> []" using assms by auto
  have t: "ledger_terminal_failure l = Inr (Temporary (unwrap_or (min_by_key id ?ds) (from_secs 1)))"
    using assms ne by (simp add: ledger_terminal_failure_def)
  show ?thesis
  proof (cases "min_by_key id ?ds")
    case None
    then have "set ?ds = {}" by simp
    then show ?thesis using t None by (intro exI [of _ "from_secs 1"]) (auto simp: set_present)
  next
    case (Some d)
    then have "d \<in> set ?ds" "\<forall>e \<in> set ?ds. d \<le> e" using min_by_key_SomeD [of id ?ds d] by simp_all
    then show ?thesis using t Some by (intro exI [of _ d]) (auto simp: set_present)
  qed
qed

lemma observation_for_class_spec:
  assumes "f \<in> set (candidates l)" "af_class f = c"
  shows "\<exists>g \<in> set (candidates l). observation_for_class l c = Some g \<and> af_class g = c"
proof -
  have "f \<in> set (filter (\<lambda>f. af_class f = c) (candidates l))" using assms by simp
  then show ?thesis unfolding observation_for_class_def
    using min_by_key_least [of f _ "\<lambda>f. (retry_or_max f, af_route_id f)"] by fastforce
qed

text \<open>What a terminal failure says of the candidates, and of the one shown with it.\<close>

fun terminal_names :: "attempt_ledger \<Rightarrow> terminal_failure \<Rightarrow> attempt_failure \<Rightarrow> bool" where
  "terminal_names l (Temporary d) f =
    (is_temporary (af_class f)
     \<and> (\<forall>g \<in> set (candidates l). is_temporary (af_class g) \<longrightarrow> af_retry_after g \<noteq> None \<longrightarrow>
          af_retry_after f = Some d \<and> d \<le> retry_or_max g)
     \<and> (af_retry_after f = None \<longrightarrow> d = from_secs 1))"
| "terminal_names l TerminalCredentials f = (\<forall>g \<in> set (candidates l). af_class g = Credentials)"
| "terminal_names l TerminalModelUnsupported f = (\<forall>g \<in> set (candidates l). af_class g = ModelUnsupported)"
| "terminal_names l TerminalCapabilityUnsupported f = (\<forall>g \<in> set (candidates l). af_class g = FeatureUnsupported)"
| "terminal_names l TerminalProtocolUnsupported f = (\<forall>g \<in> set (candidates l). af_class g = ProtocolUnsupported)"
| "terminal_names l MixedRoutesExhausted f = (\<forall>g \<in> set (candidates l). \<not> is_temporary (af_class g))"

lemma terminal_observation_mem:
  assumes "candidates l \<noteq> []"
  shows "\<exists>f \<in> set (candidates l). terminal_observation l = Some f"
proof (cases "al_failures l = []")
  case True
  then obtain x where "x \<in> set (al_cooled_candidates l)" using assms by (cases "al_cooled_candidates l") (auto simp: candidates_def)
  from min_by_key_least [OF this, of retry_or_max] show ?thesis
    using True by (auto simp: terminal_observation_def candidates_def)
qed (auto simp: terminal_observation_def candidates_def)

lemma temporary_shown:
  assumes "list_ex (\<lambda>f. is_temporary (af_class f)) (candidates l)"
  shows "\<exists>t f. ledger_terminal_failure l = Inr t \<and> f \<in> set (candidates l)
    \<and> terminal_observation_for l t = Some f \<and> terminal_names l t f"
proof -
  obtain d where d: "ledger_terminal_failure l = Inr (Temporary d)"
    "\<forall>g \<in> set (candidates l). \<forall>e. is_temporary (af_class g) \<longrightarrow> af_retry_after g = Some e \<longrightarrow> d \<le> e"
    "(\<exists>g \<in> set (candidates l). is_temporary (af_class g) \<and> af_retry_after g = Some d)
       \<or> d = from_secs 1 \<and> (\<forall>g \<in> set (candidates l). is_temporary (af_class g) \<longrightarrow> af_retry_after g = None)"
    using temporary_delay [OF assms] by blast
  let ?temps = "filter (\<lambda>f. is_temporary (af_class f)) (candidates l)"
  let ?key = "\<lambda>f. (if af_retry_after f \<noteq> Some d then 1 :: nat else 0, retry_or_max f, af_route_id f)"
  obtain x where "x \<in> set ?temps" using assms by (auto simp: list_ex_iff)
  from min_by_key_least [OF this, of ?key]
  obtain f where f: "f \<in> set ?temps" "min_by_key ?key ?temps = Some f" "\<forall>z \<in> set ?temps. ?key f \<le> ?key z" by blast
  have shown: "af_retry_after f = Some d" if "g \<in> set ?temps" "af_retry_after g = Some d" for g
    using f(3) that by (auto split: if_splits)
  have "terminal_names l (Temporary d) f"
  proof (cases "\<exists>g \<in> set ?temps. af_retry_after g = Some d")
    case True
    then have "af_retry_after f = Some d" using shown by blast
    then show ?thesis using f(1) d(2) by (auto simp: retry_or_max_def)
  next
    case False
    then show ?thesis using f(1) d(3) by auto
  qed
  then show ?thesis using d(1) f by (intro exI [of _ "Temporary d"] exI [of _ f]) simp
qed

lemma terminal_shown:
  assumes "candidates l \<noteq> []"
  shows "\<exists>t f. ledger_terminal_failure l = Inr t \<and> f \<in> set (candidates l)
    \<and> terminal_observation_for l t = Some f \<and> terminal_names l t f"
proof (cases "list_ex (\<lambda>f. is_temporary (af_class f)) (candidates l)")
  case False
  obtain x where x: "x \<in> set (candidates l)" using assms by (cases "candidates l") auto
  have all: "\<exists>f \<in> set (candidates l). observation_for_class l c = Some f" if "list_all (\<lambda>f. af_class f = c) (candidates l)" for c
    using observation_for_class_spec [OF x, of c] that x by (auto simp: list_all_iff)
  have named: ?thesis
    if "list_all (\<lambda>f. af_class f = c) (candidates l)" "ledger_terminal_failure l = Inr t"
      "terminal_observation_for l t = observation_for_class l c"
      "\<And>f. terminal_names l t f = (\<forall>g \<in> set (candidates l). af_class g = c)" for c t
    using all [OF that(1)] that by (auto simp: list_all_iff)
  let ?all = "\<lambda>c. list_all (\<lambda>f. af_class f = c) (candidates l)"
  note terminal = ledger_terminal_failure_def Let_def
  consider (mixed) "\<not> ?all Credentials" "\<not> ?all ModelUnsupported" "\<not> ?all FeatureUnsupported" "\<not> ?all ProtocolUnsupported"
    | (credentials) "?all Credentials" | (model) "\<not> ?all Credentials" "?all ModelUnsupported"
    | (feature) "\<not> ?all Credentials" "\<not> ?all ModelUnsupported" "?all FeatureUnsupported"
    | (protocol) "\<not> ?all Credentials" "\<not> ?all ModelUnsupported" "\<not> ?all FeatureUnsupported" "?all ProtocolUnsupported"
    by blast
  then show ?thesis
  proof cases
    case mixed
    obtain f where "f \<in> set (candidates l)" "terminal_observation l = Some f"
      using terminal_observation_mem [OF assms] by blast
    moreover have "ledger_terminal_failure l = Inr MixedRoutesExhausted"
      using mixed False assms by (simp add: terminal)
    moreover have "terminal_names l MixedRoutesExhausted f" using False by (auto simp: list_ex_iff)
    ultimately show ?thesis by auto
  next
    case credentials
    show ?thesis by (rule named [OF credentials, of TerminalCredentials]) (use credentials False assms in \<open>simp_all add: terminal\<close>)
  next
    case model
    show ?thesis by (rule named [OF model(2), of TerminalModelUnsupported]) (use model False assms in \<open>simp_all add: terminal\<close>)
  next
    case feature
    show ?thesis by (rule named [OF feature(3), of TerminalCapabilityUnsupported]) (use feature False assms in \<open>simp_all add: terminal\<close>)
  next
    case protocol
    show ?thesis by (rule named [OF protocol(4), of TerminalProtocolUnsupported]) (use protocol False assms in \<open>simp_all add: terminal\<close>)
  qed
qed (rule temporary_shown)

text \<open>A run of operations, and the attempts after one route was tried and rate limited.\<close>

fun attempts_run :: "(byte list \<Rightarrow> byte list) \<Rightarrow> attempts_op list \<Rightarrow> request_route_attempts \<Rightarrow> request_route_attempts outcome_or_panic" where
  "attempts_run sha [] q = Inr q"
| "attempts_run sha (op # ops) q = bind_ok (attempts_apply sha op q) (attempts_run sha ops)"

lemma attempts_run_reachable:
  assumes "reachable attempts_init (attempts_step sha) q" "attempts_run sha ops q = Inr q'"
  shows "reachable attempts_init (attempts_step sha) q'"
  using assms
proof (induction ops arbitrary: q)
  case (Cons op ops)
  then obtain p where p: "attempts_apply sha op q = Inr p" "attempts_run sha ops p = Inr q'"
    by (cases "attempts_apply sha op q") auto
  then have "reachable attempts_init (attempts_step sha) p"
    using Cons.prems(1) by (blast intro: reach_step attempts_step.intros)
  then show ?case using Cons.IH p(2) by blast
qed simp

definition sample_route :: route_health_key where
  "sample_route = \<lparr>rk_upstream_id = ''u'', rk_key_fingerprint = ''k'', rk_runtime_model_slug = ''m'', rk_protocol = ChatCompletions\<rparr>"

definition sample_set :: route_set_aggregate_key where
  "sample_set = \<lparr>ak_upstream_id = ''u'', ak_runtime_model_slug = ''m'', ak_protocol = ChatCompletions\<rparr>"

definition sample_details :: failure_details where
  "sample_details = \<lparr>fd_upstream_status = Some 429, fd_upstream_error_code = None,
     fd_upstream_error_body_excerpt = None, fd_upstream_name = None, fd_upstream_host = None\<rparr>"

definition sample_attempts :: request_route_attempts where
  "sample_attempts = record_failure_with_status (\<lambda>_. []) sample_route RateLimited (Some 5) sample_details
    (attempts_record_physical_attempt sample_route (attempts_register_eligible sample_set sample_route attempts_default))"

lemma sample_attempts_reachable: "reachable attempts_init (attempts_step (\<lambda>_. [])) sample_attempts"
  by (rule attempts_run_reachable [where q = attempts_default and ops =
        "[Register sample_set sample_route, PhysicalAttempt sample_route, Fail sample_route RateLimited (Some 5) sample_details]"])
    (auto simp: sample_attempts_def intro: reach_init attempts_init.intros)

lemmas sample_attempts_eval = sample_attempts_def record_failure_with_status_def attempts_record_physical_attempt_def
  attempts_register_eligible_def attempts_default_def tracker_new_def ledger_default_def register_eligible_def
  record_physical_send_def record_physical_attempt_def tracker_record_failure_def attempt_state_default_def
  hm_modify_def ledger_record_def has_route_def

lemma sample_attempts_take:
  "\<exists>q'. attempts_take_newly_exhausted sample_attempts
    = Inr ([\<lparr>ro_key = sample_set, ro_class = RateLimited, ro_retry_after = Some 5\<rparr>], q')"
  by (simp add: attempts_take_newly_exhausted_def take_newly_exhausted_def newly_exhausted_def hm_contains_def
      representative_failure_def sample_attempts_eval Let_def)

section \<open>Properties\<close>

text \<open>
  C9. In every reachable state of a request's attempts the ledger names a route once, failed or
  cooling, so the distinct routes are the two counts together; each recorded failure is that of a
  route physically attempted in this round; a pending last-resort probe was armed; and collecting
  the exhausted route sets does not panic.
\<close>

theorem attempts_sound:
  assumes "reachable attempts_init (attempts_step sha) q"
  shows "distinct_route_count (rq_ledger q) = length (al_failures (rq_ledger q)) + length (al_cooled_candidates (rq_ledger q))
    \<and> (\<forall>f \<in> set (al_failures (rq_ledger q)).
        \<exists>route. \<not> should_attempt (rq_tracker q) route \<and> af_route_id f = anonymous_route_id sha route)
    \<and> (rq_last_resort_probe q \<noteq> None \<longrightarrow> rq_last_resort_probe_armed q)
    \<and> (\<exists>os q'. attempts_take_newly_exhausted q = Inr (os, q'))"
proof (intro conjI)
  have ok: "attempts_ok sha q" by (rule attempts.reachable_inv [OF assms])
  then show "distinct_route_count (rq_ledger q)
      = length (al_failures (rq_ledger q)) + length (al_cooled_candidates (rq_ledger q))"
    unfolding attempts_ok_def ledger_ok_def distinct_route_count_def
    by (metis candidates_def distinct_card length_append length_map)
  show "\<forall>f \<in> set (al_failures (rq_ledger q)).
      \<exists>route. \<not> should_attempt (rq_tracker q) route \<and> af_route_id f = anonymous_route_id sha route"
    using ok unfolding attempts_ok_def should_attempt_def by blast
  show "rq_last_resort_probe q \<noteq> None \<longrightarrow> rq_last_resort_probe_armed q"
    using ok by (simp add: attempts_ok_def)
  show "\<exists>os q'. attempts_take_newly_exhausted q = Inr (os, q')"
    unfolding attempts_take_newly_exhausted_Inr using take_newly_exhausted_spec [of "rq_tracker q"] by blast
qed

theorem attempts_sound_witness:
  "distinct_route_count (rq_ledger sample_attempts) = 1
    \<and> (\<exists>os q'. attempts_take_newly_exhausted sample_attempts = Inr (os, q'))"
  using attempts_sound [OF sample_attempts_reachable] by (simp add: sample_attempts_eval Let_def)

text \<open>
  C40. Collecting the exhausted route sets reports exactly the sets not reported before whose
  eligible routes all failed, each once, with a failure that is temporary if any of the set is; an
  immediate second call reports nothing, and no call later in the round reports a set again.
\<close>

theorem exhaustion_reported_once:
  assumes "reachable attempts_init (attempts_step sha) q"
    and take: "attempts_take_newly_exhausted q = Inr (os, q')"
    and later: "(round_step sha)\<^sup>*\<^sup>* q' p" "attempts_take_newly_exhausted p = Inr (os', p')"
  shows "distinct (map ro_key os)
    \<and> set (map ro_key os) = {key. key \<notin> rt_observed_sets (rq_tracker q)
        \<and> (\<exists>s. map_of (rt_route_sets (rq_tracker q)) key = Some s \<and> ra_eligible_routes s \<noteq> {}
             \<and> ra_eligible_routes s \<subseteq> fst ` set (ra_failures s))}
    \<and> (\<forall>ob \<in> set os. \<exists>s. map_of (rt_route_sets (rq_tracker q)) (ro_key ob) = Some s
        \<and> (ro_class ob, ro_retry_after ob) \<in> snd ` set (ra_failures s)
        \<and> ((\<exists>w \<in> snd ` set (ra_failures s). is_temporary (fst w)) \<longrightarrow> is_temporary (ro_class ob)))
    \<and> attempts_take_newly_exhausted q' = Inr ([], q')
    \<and> set (map ro_key os) \<inter> set (map ro_key os') = {}"
proof (intro conjI)
  let ?t = "rq_tracker q"
  have ok: "tracker_ok ?t" using attempts.reachable_inv [OF assms(1)] by (simp add: attempts_ok_def)
  then have sets: "hm_ok (rt_route_sets ?t)" by (simp add: tracker_ok_def)
  obtain t where t: "take_newly_exhausted ?t = Inr (os, t)" "q' = q\<lparr>rq_tracker := t\<rparr>"
    using take unfolding attempts_take_newly_exhausted_Inr by blast
  show "distinct (map ro_key os)"
    using sets unfolding take_newly_exhausted_observed(2) [OF t(1)] hm_ok_def by (rule distinct_map_filter)
  show "set (map ro_key os) = {key. key \<notin> rt_observed_sets ?t
        \<and> (\<exists>s. map_of (rt_route_sets ?t) key = Some s \<and> ra_eligible_routes s \<noteq> {}
             \<and> ra_eligible_routes s \<subseteq> fst ` set (ra_failures s))}"
    unfolding reported_keys [OF t(1)] newly_exhausted_iff [OF ok] ..
  show "\<forall>ob \<in> set os. \<exists>s. map_of (rt_route_sets ?t) (ro_key ob) = Some s
        \<and> (ro_class ob, ro_retry_after ob) \<in> snd ` set (ra_failures s)
        \<and> ((\<exists>w \<in> snd ` set (ra_failures s). is_temporary (fst w)) \<longrightarrow> is_temporary (ro_class ob))"
  proof
    fix ob assume "ob \<in> set os"
    from take_newly_exhausted_observed(3) [OF t(1) this]
    obtain s where s: "(ro_key ob, s) \<in> set (rt_route_sets ?t)"
      "(ro_class ob, ro_retry_after ob) \<in> snd ` set (ra_failures s)"
      "\<forall>w \<in> snd ` set (ra_failures s). failure_sort_key (ro_class ob, ro_retry_after ob) \<le> failure_sort_key w"
      by blast
    have "map_of (rt_route_sets ?t) (ro_key ob) = Some s" using s(1) sets by (simp add: hm_ok_def)
    moreover have "is_temporary (ro_class ob)" if "w \<in> snd ` set (ra_failures s)" "is_temporary (fst w)" for w
      using temporary_first [of "ro_class ob" "ro_retry_after ob" "fst w" "snd w"] s(3) that by simp
    ultimately show "\<exists>s. map_of (rt_route_sets ?t) (ro_key ob) = Some s
        \<and> (ro_class ob, ro_retry_after ob) \<in> snd ` set (ra_failures s)
        \<and> ((\<exists>w \<in> snd ` set (ra_failures s). is_temporary (fst w)) \<longrightarrow> is_temporary (ro_class ob))"
      using s(2) by blast
  qed
  show "attempts_take_newly_exhausted q' = Inr ([], q')"
    unfolding attempts_take_newly_exhausted_Inr using second_take_empty [OF t(1)] t(2) by simp
  have "set (map ro_key os) \<subseteq> rt_observed_sets (rq_tracker p)"
    using observed_steps [OF later(1)] t(2) take_newly_exhausted_observed(1) [OF t(1)] by auto
  moreover obtain u where u: "take_newly_exhausted (rq_tracker p) = Inr (os', u)"
    using later(2) unfolding attempts_take_newly_exhausted_Inr by blast
  then have "set (map ro_key os') \<inter> rt_observed_sets (rq_tracker p) = {}"
    unfolding reported_keys [OF u] by (auto simp: newly_exhausted_def)
  ultimately show "set (map ro_key os) \<inter> set (map ro_key os') = {}" by blast
qed

theorem exhaustion_reported_once_witness:
  "\<exists>q'. attempts_take_newly_exhausted sample_attempts
      = Inr ([\<lparr>ro_key = sample_set, ro_class = RateLimited, ro_retry_after = Some 5\<rparr>], q')
    \<and> attempts_take_newly_exhausted q' = Inr ([], q')"
proof -
  obtain q' where q': "attempts_take_newly_exhausted sample_attempts
      = Inr ([\<lparr>ro_key = sample_set, ro_class = RateLimited, ro_retry_after = Some 5\<rparr>], q')"
    using sample_attempts_take by blast
  have "reachable attempts_init (attempts_step (\<lambda>_. [])) q'"
    using reach_step [OF sample_attempts_reachable attempts_step.intros [of _ TakeExhausted]] q' by simp
  then obtain os' p' where later: "attempts_take_newly_exhausted q' = Inr (os', p')"
    using attempts_take_newly_exhausted_Inr take_newly_exhausted_spec by metis
  from exhaustion_reported_once [OF sample_attempts_reachable q' rtranclp.rtrancl_refl later] q'
  show ?thesis by blast
qed

text \<open>
  A ledger with a candidate has a terminal failure. It is temporary exactly when some candidate
  is, with the least announced delay or one second, and names a class only when every candidate has
  it; the observation shown with it is a candidate of that class, the one with that delay if any
  was announced. An empty ledger panics.
\<close>

theorem terminal_failure_spec:
  shows "if candidates l = [] then ledger_terminal_failure l = Inl (Panic ''terminal failure requires a candidate'')
    else \<exists>t f. ledger_terminal_failure l = Inr t \<and> f \<in> set (candidates l)
      \<and> terminal_observation_for l t = Some f \<and> terminal_names l t f"
  using terminal_shown by (simp add: ledger_terminal_failure_def)

end
