(* ===== verification/Route_Retry.thy ===== *)
theory Route_Retry
  imports Route_Attempts
begin

text \<open>
  The retry budget of one downstream request (\<open>src/src/server/gateway/route_retry.rs\<close>) and the places
  of the routing loop that spend it (\<open>gateway.rs\<close>: the retry on the same route, the replay after a
  common-mode outage, the last-resort probe, the decision at the end of a round). Durations are
  nanoseconds, SHA-256 is the argument \<open>sha\<close>.
\<close>

section \<open>Budget, waits and policy\<close>

definition max_retry_jitter_ms :: nat where "max_retry_jitter_ms = 100"

record route_retry_budget =
  rb_current_round :: nat
  rb_waited :: duration
  rb_alignment_used :: bool
  rb_busy_rounds :: nat

definition budget_default :: route_retry_budget where
  "budget_default = \<lparr>rb_current_round = 1, rb_waited = 0, rb_alignment_used = False, rb_busy_rounds = 0\<rparr>"

record route_retry_wait =
  rw_next_round :: nat
  rw_required_delay :: duration
  rw_jitter :: duration
  rw_sleep_for :: duration
  rw_remaining_after :: duration
  rw_alignment :: bool
  rw_alignment_truncated :: bool
  rw_busy :: bool

record route_retry_policy =
  rp_enabled :: bool
  rp_max_wait :: duration
  rp_max_rounds :: nat
  rp_concurrency_max_wait :: duration
  rp_concurrency_max_rounds :: nat
  rp_budget_alignment_enabled :: bool
  rp_busy_max_rounds :: nat
  rp_alignment_truncated_enabled :: bool
  rp_rate_limit_internal_retry_enabled :: bool

text \<open>\<open>Duration::checked_add\<close>.\<close>

definition duration_checked_add :: "duration \<Rightarrow> duration \<Rightarrow> duration option" where
  "duration_checked_add a b = (if a + b \<le> duration_max then Some (a + b) else None)"

definition add_waited :: "duration \<Rightarrow> route_retry_budget \<Rightarrow> route_retry_budget" where
  "add_waited d b = b\<lparr>rb_waited := unwrap_or (duration_checked_add (rb_waited b) d) duration_max\<rparr>"




definition new_with_full_tuning ::
  "bool \<Rightarrow> duration \<Rightarrow> nat \<Rightarrow> duration \<Rightarrow> nat \<Rightarrow> bool \<Rightarrow> nat \<Rightarrow> bool \<Rightarrow> route_retry_policy" where
  "new_with_full_tuning enabled max_wait max_rounds concurrency_max_wait concurrency_max_rounds
      budget_alignment_enabled busy_max_rounds alignment_truncated_enabled =
    \<lparr>rp_enabled = enabled, rp_max_wait = max_wait, rp_max_rounds = max max_rounds 1,
     rp_concurrency_max_wait = concurrency_max_wait, rp_concurrency_max_rounds = max concurrency_max_rounds 1,
     rp_budget_alignment_enabled = budget_alignment_enabled, rp_busy_max_rounds = max busy_max_rounds 1,
     rp_alignment_truncated_enabled = alignment_truncated_enabled, rp_rate_limit_internal_retry_enabled = False\<rparr>"

definition with_rate_limit_internal_retry :: "bool \<Rightarrow> route_retry_policy \<Rightarrow> route_retry_policy" where
  "with_rate_limit_internal_retry enabled p = p\<lparr>rp_rate_limit_internal_retry_enabled := enabled\<rparr>"

text \<open>The runtime settings the policy reads.\<close>

record retry_settings =
  se_exhaustion_retry_enabled :: bool
  se_exhaustion_retry_max_wait_ms :: nat
  se_exhaustion_retry_max_rounds :: nat
  se_concurrency_recovery_max_wait_ms :: nat
  se_concurrency_recovery_max_rounds :: nat
  se_budget_alignment_enabled :: bool
  se_half_open_busy_max_rounds :: nat
  se_alignment_truncated_enabled :: bool
  se_rate_limit_internal_retry_enabled :: bool
  se_transient_last_resort_probe_enabled :: bool

definition from_sources :: "retry_settings \<Rightarrow> route_retry_policy" where
  "from_sources s =
    with_rate_limit_internal_retry (se_rate_limit_internal_retry_enabled s)
      (new_with_full_tuning (se_exhaustion_retry_enabled s) (from_millis (se_exhaustion_retry_max_wait_ms s))
        (se_exhaustion_retry_max_rounds s) (from_millis (se_concurrency_recovery_max_wait_ms s))
        (se_concurrency_recovery_max_rounds s) (se_budget_alignment_enabled s) (se_half_open_busy_max_rounds s)
        (se_alignment_truncated_enabled s))"


section \<open>The decision\<close>

definition u64_from_le_bytes :: "byte list \<Rightarrow> nat" where
  "u64_from_le_bytes bs = foldr (\<lambda>b acc. unat b + 256 * acc) bs 0"

definition u32_to_le_bytes :: "nat \<Rightarrow> byte list" where
  "u32_to_le_bytes n = [of_nat n, of_nat (n div 2 ^ 8), of_nat (n div 2 ^ 16), of_nat (n div 2 ^ 24)]"

definition deterministic_jitter :: "(byte list \<Rightarrow> byte list) \<Rightarrow> string \<Rightarrow> nat \<Rightarrow> duration" where
  "deterministic_jitter sha request_id following_round =
    (let digest = sha (as_bytes request_id @ u32_to_le_bytes following_round);
         val = u64_from_le_bytes (take 8 digest)
     in from_millis (val mod (max_retry_jitter_ms + 1)))"

definition is_concurrency_recovery :: "route_recovery option \<Rightarrow> bool" where
  "is_concurrency_recovery recovery = is_some_and recovery (\<lambda>r. rr_class r = ConcurrencySaturated)"

definition is_alignable_recovery :: "route_recovery option \<Rightarrow> bool" where
  "is_alignable_recovery recovery =
    is_some_and recovery (\<lambda>r. rr_class r = TransientServer \<or> rr_class r = EdgeProxyError)"

definition truncated_wait :: "nat \<Rightarrow> duration \<Rightarrow> bool \<Rightarrow> route_retry_wait" where
  "truncated_wait following_round remaining alignment =
    \<lparr>rw_next_round = following_round, rw_required_delay = remaining, rw_jitter = 0, rw_sleep_for = remaining,
     rw_remaining_after = 0, rw_alignment = alignment, rw_alignment_truncated = True, rw_busy = False\<rparr>"

text \<open>The wait that the three branches of the decision build alike: the whole delay, or the rest of the budget.\<close>

definition full_wait :: "nat \<Rightarrow> duration \<Rightarrow> duration \<Rightarrow> duration \<Rightarrow> duration \<Rightarrow> bool \<Rightarrow> bool \<Rightarrow> route_retry_wait" where
  "full_wait following_round required_delay jitter sleep_for remaining alignment busy =
    \<lparr>rw_next_round = following_round, rw_required_delay = required_delay, rw_jitter = jitter, rw_sleep_for = sleep_for,
     rw_remaining_after = remaining - sleep_for, rw_alignment = alignment, rw_alignment_truncated = False, rw_busy = busy\<rparr>"

type_synonym retry_decision = "route_retry_wait option \<times> give_up_reason option"

definition decide_busy :: "(byte list \<Rightarrow> byte list) \<Rightarrow> route_retry_policy \<Rightarrow> route_retry_budget \<Rightarrow> string \<Rightarrow> retry_decision" where
  "decide_busy sha p b request_id =
    (let busy_round = u32_saturating_add (rb_busy_rounds b) 1 in
     if busy_round > rp_busy_max_rounds p then (None, Some HalfOpenBusyCap)
     else let following_round = rb_current_round b;
              jitter = deterministic_jitter sha request_id following_round;
              required_delay = half_open_busy_retry in
     case duration_checked_add required_delay jitter of
       None \<Rightarrow> (None, Some WaitBudget)
     | Some sleep_for \<Rightarrow>
         (let remaining = rp_max_wait p - rb_waited b in
          if sleep_for > remaining then (None, Some WaitBudget)
          else (Some (full_wait following_round required_delay jitter sleep_for remaining False True), None)))"

definition decide_alignment ::
  "(byte list \<Rightarrow> byte list) \<Rightarrow> route_retry_policy \<Rightarrow> route_retry_budget \<Rightarrow> duration \<Rightarrow> string \<Rightarrow> retry_decision" where
  "decide_alignment sha p b required_delay request_id =
    (let following_round = u32_saturating_add (rb_current_round b) 1;
         jitter = deterministic_jitter sha request_id following_round in
     case duration_checked_add required_delay jitter of
       None \<Rightarrow> (None, Some WaitBudget)
     | Some sleep_for \<Rightarrow>
         (let remaining = rp_max_wait p - rb_waited b in
          if sleep_for \<le> remaining
          then (Some (full_wait following_round required_delay jitter sleep_for remaining True False), None)
          else if rp_alignment_truncated_enabled p \<and> half_open_busy_retry \<le> remaining
          then (Some (truncated_wait following_round remaining True), None)
          else (None, Some WaitBudget)))"

definition decide_ordinary ::
  "(byte list \<Rightarrow> byte list) \<Rightarrow> route_retry_policy \<Rightarrow> route_retry_budget \<Rightarrow> duration \<Rightarrow> duration \<Rightarrow> string \<Rightarrow> retry_decision" where
  "decide_ordinary sha p b max_wait required_delay request_id =
    (let following_round = u32_saturating_add (rb_current_round b) 1;
         jitter = deterministic_jitter sha request_id following_round in
     case duration_checked_add required_delay jitter of
       None \<Rightarrow> (None, Some WaitBudget)
     | Some sleep_for \<Rightarrow>
         (let remaining = max_wait - rb_waited b in
          if sleep_for > remaining
          then if rp_alignment_truncated_enabled p \<and> half_open_busy_retry \<le> remaining
               then (Some (truncated_wait following_round remaining False), None)
               else (None, Some WaitBudget)
          else (Some (full_wait following_round required_delay jitter sleep_for remaining False False), None)))"

definition round_limits :: "route_retry_policy \<Rightarrow> route_recovery option \<Rightarrow> duration \<times> nat" where
  "round_limits p recovery =
    (if is_concurrency_recovery recovery then (rp_concurrency_max_wait p, rp_concurrency_max_rounds p)
     else (rp_max_wait p, rp_max_rounds p))"

definition decide_with_reason ::
  "(byte list \<Rightarrow> byte list) \<Rightarrow> route_retry_policy \<Rightarrow> route_retry_budget \<Rightarrow> terminal_failure \<Rightarrow> route_recovery option
   \<Rightarrow> bool \<Rightarrow> bool \<Rightarrow> string \<Rightarrow> retry_decision" where
  "decide_with_reason sha p b terminal recovery client_retryable_rate_limit busy_only request_id =
    (if \<not> rp_enabled p then (None, None)
     else case terminal of
       Temporary retry_after \<Rightarrow>
         if client_retryable_rate_limit \<and> \<not> rp_rate_limit_internal_retry_enabled p then (None, None)
         else if busy_only then decide_busy sha p b request_id
         else let (max_wait, max_rounds) = round_limits p recovery in
           if rb_current_round b \<ge> max_rounds
           then if rp_budget_alignment_enabled p \<and> \<not> rb_alignment_used b \<and> \<not> client_retryable_rate_limit
                   \<and> is_alignable_recovery recovery
                then decide_alignment sha p b (case recovery of Some r \<Rightarrow> rr_retry_after r | None \<Rightarrow> 0) request_id
                else if rb_alignment_used b then (None, Some AlignmentExhausted)
                else (None, Some (if \<not> rp_budget_alignment_enabled p then RoundCap
                                  else if recovery = None then NoRecovery else RoundCap))
           else decide_ordinary sha p b max_wait (unwrap_or (map_option rr_retry_after recovery) retry_after) request_id
     | _ \<Rightarrow> (None, None))"

definition decide ::
  "(byte list \<Rightarrow> byte list) \<Rightarrow> route_retry_policy \<Rightarrow> route_retry_budget \<Rightarrow> terminal_failure \<Rightarrow> route_recovery option
   \<Rightarrow> bool \<Rightarrow> string \<Rightarrow> route_retry_wait option" where
  "decide sha p b terminal recovery client_retryable_rate_limit request_id =
    fst (decide_with_reason sha p b terminal recovery client_retryable_rate_limit False request_id)"

section \<open>Where the routing loop spends the budget\<close>





text \<open>The end of a round: its terminal failure, the last-resort probe, the decision to wait.\<close>

definition round_terminal :: "bool \<Rightarrow> bool \<Rightarrow> attempt_ledger \<Rightarrow> terminal_failure option outcome_or_panic" where
  "round_terminal payload_rejected stream_only_final_attempt ledger =
    (if \<not> payload_rejected \<and> \<not> stream_only_final_attempt \<and> \<not> ledger_is_empty ledger
     then bind_ok (ledger_terminal_failure ledger) (\<lambda>t. Inr (Some t)) else Inr None)"



section \<open>What a decision grants\<close>

lemma jitter_bound: "deterministic_jitter sha request_id r \<le> from_millis max_retry_jitter_ms"
proof -
  have "v mod (max_retry_jitter_ms + 1) \<le> max_retry_jitter_ms" for v
    using mod_less_divisor [of "max_retry_jitter_ms + 1" v] by linarith
  then show ?thesis by (simp add: deterministic_jitter_def from_millis_def Let_def)
qed

text \<open>The time limit of a wait, and the delay it is asked to bridge.\<close>

definition wait_limit :: "route_retry_policy \<Rightarrow> route_recovery option \<Rightarrow> bool \<Rightarrow> duration" where
  "wait_limit p recovery busy_only = (if busy_only then rp_max_wait p else fst (round_limits p recovery))"

definition wait_delay :: "terminal_failure \<Rightarrow> route_recovery option \<Rightarrow> bool \<Rightarrow> duration" where
  "wait_delay terminal recovery busy_only =
    (if busy_only then half_open_busy_retry
     else case recovery of Some r \<Rightarrow> rr_retry_after r | None \<Rightarrow> (case terminal of Temporary d \<Rightarrow> d | _ \<Rightarrow> 0))"

definition wait_ok :: "route_retry_budget \<Rightarrow> duration \<Rightarrow> duration \<Rightarrow> route_retry_wait \<Rightarrow> bool" where
  "wait_ok b limit delay w =
    (rw_sleep_for w + rw_remaining_after w = limit - rb_waited b
     \<and> (if rw_alignment_truncated w
        then rw_remaining_after w = 0 \<and> half_open_busy_retry \<le> rw_sleep_for w
          \<and> rw_sleep_for w < delay + from_millis max_retry_jitter_ms
        else rw_sleep_for w = delay + rw_jitter w \<and> rw_jitter w \<le> from_millis max_retry_jitter_ms))"

text \<open>Which counter a wait advances, within its cap.\<close>

definition wait_counts :: "route_retry_policy \<Rightarrow> route_retry_budget \<Rightarrow> route_retry_wait \<Rightarrow> bool" where
  "wait_counts p b w =
    ((rw_busy w \<and> \<not> rw_alignment w \<and> rw_next_round w = rb_current_round b
        \<and> u32_saturating_add (rb_busy_rounds b) 1 \<le> rp_busy_max_rounds p)
     \<or> (\<not> rw_busy w \<and> rw_next_round w = u32_saturating_add (rb_current_round b) 1
        \<and> (if rw_alignment w then \<not> rb_alignment_used b
           else rb_current_round b < max (rp_max_rounds p) (rp_concurrency_max_rounds p))))"

lemma decide_busy_Some:
  assumes "decide_busy sha p b request_id = (Some w, g)"
  shows "g = None \<and> rw_busy w \<and> wait_counts p b w \<and> wait_ok b (rp_max_wait p) half_open_busy_retry w"
  using assms jitter_bound [of sha request_id "rb_current_round b"]
  by (auto simp: decide_busy_def Let_def duration_checked_add_def full_wait_def wait_counts_def wait_ok_def
      split: if_splits)

lemma decide_alignment_Some:
  assumes "decide_alignment sha p b d request_id = (Some w, g)" "\<not> rb_alignment_used b"
  shows "g = None \<and> \<not> rw_busy w \<and> rw_alignment w \<and> wait_counts p b w \<and> wait_ok b (rp_max_wait p) d w"
  using assms jitter_bound [of sha request_id "u32_saturating_add (rb_current_round b) 1"]
  by (auto simp: decide_alignment_def Let_def duration_checked_add_def full_wait_def truncated_wait_def
      wait_counts_def wait_ok_def split: if_splits)

lemma decide_ordinary_Some:
  assumes "decide_ordinary sha p b lim d request_id = (Some w, g)"
    "rb_current_round b < max (rp_max_rounds p) (rp_concurrency_max_rounds p)"
  shows "g = None \<and> \<not> rw_busy w \<and> \<not> rw_alignment w \<and> wait_counts p b w \<and> wait_ok b lim d w"
  using assms jitter_bound [of sha request_id "u32_saturating_add (rb_current_round b) 1"]
  by (auto simp: decide_ordinary_def Let_def duration_checked_add_def full_wait_def truncated_wait_def
      wait_counts_def wait_ok_def split: if_splits)

lemma decide_with_reason_Some:
  assumes "decide_with_reason sha p b terminal recovery client busy_only request_id = (Some w, g)"
  shows "g = None \<and> rp_enabled p \<and> (\<exists>d. terminal = Temporary d)
    \<and> (client \<longrightarrow> rp_rate_limit_internal_retry_enabled p \<and> \<not> rw_alignment w)
    \<and> rw_busy w = busy_only \<and> wait_counts p b w
    \<and> wait_ok b (wait_limit p recovery busy_only) (wait_delay terminal recovery busy_only) w"
proof -
  obtain d where d: "terminal = Temporary d" "rp_enabled p"
      "\<not> (client \<and> \<not> rp_rate_limit_internal_retry_enabled p)"
    using assms by (cases terminal) (auto simp: decide_with_reason_def split: if_splits)
  show ?thesis
  proof (cases busy_only)
    case True
    then have "decide_busy sha p b request_id = (Some w, g)" using assms d by (auto simp: decide_with_reason_def)
    from decide_busy_Some [OF this] show ?thesis
      using d True by (auto simp: wait_limit_def wait_delay_def wait_counts_def)
  next
    case False
    obtain lim rounds where r: "round_limits p recovery = (lim, rounds)" by (cases "round_limits p recovery")
    have cap: "rounds \<le> max (rp_max_rounds p) (rp_concurrency_max_rounds p)"
      using r by (auto simp: round_limits_def split: if_splits)
    show ?thesis
    proof (cases "rounds \<le> rb_current_round b")
      case True
      then have al: "\<not> rb_alignment_used b" "\<not> client" "is_alignable_recovery recovery"
        "decide_alignment sha p b (case recovery of Some r \<Rightarrow> rr_retry_after r | None \<Rightarrow> 0) request_id = (Some w, g)"
        using assms d False r by (auto simp: decide_with_reason_def split: if_splits)
      then obtain rec where rec: "recovery = Some rec" "rr_class rec \<noteq> ConcurrencySaturated"
        by (cases recovery) (auto simp: is_alignable_recovery_def)
      from decide_alignment_Some [OF al(4,1)] show ?thesis
        using d False al(2) rec
        by (simp add: wait_limit_def wait_delay_def round_limits_def is_concurrency_recovery_def)
    next
      case below: False
      then have ord: "decide_ordinary sha p b lim (unwrap_or (map_option rr_retry_after recovery) d) request_id = (Some w, g)"
        using assms d False r by (simp add: decide_with_reason_def)
      from decide_ordinary_Some [OF this] show ?thesis
        using d False below cap r by (cases recovery) (auto simp: wait_limit_def wait_delay_def)
    qed
  qed
qed

lemma decide_with_reason_None:
  assumes "decide_with_reason sha p b terminal recovery client busy_only request_id = (None, g)"
  shows "g = None \<longleftrightarrow> \<not> rp_enabled p \<or> (\<forall>d. terminal \<noteq> Temporary d)
      \<or> (client \<and> \<not> rp_rate_limit_internal_retry_enabled p)"
  using assms
  by (cases terminal) (auto simp: decide_with_reason_def decide_busy_def decide_alignment_def decide_ordinary_def
      Let_def split: if_splits option.splits prod.splits)

section \<open>Runs of the routing loop\<close>






lemma add_waited_sel [simp]:
  "rb_current_round (add_waited d b) = rb_current_round b"
  "rb_alignment_used (add_waited d b) = rb_alignment_used b"
  "rb_busy_rounds (add_waited d b) = rb_busy_rounds b"
  by (simp_all add: add_waited_def)







lemma next_round_keeps [simp]:
  "rq_last_resort_probe_armed (next_round q) = rq_last_resort_probe_armed q"
  "rq_retry_waited_ms (next_round q) = rq_retry_waited_ms q"
  by (simp_all add: next_round_def)

lemma record_retry_waited_sel [simp]:
  "rq_last_resort_probe_armed (record_retry_waited d q) = rq_last_resort_probe_armed q"
  by (simp add: record_retry_waited_def)

lemma set_give_up_keeps [simp]:
  "rq_last_resort_probe_armed (set_give_up_reason r q) = rq_last_resort_probe_armed q"
  "rq_retry_waited_ms (set_give_up_reason r q) = rq_retry_waited_ms q"
  by (simp_all add: set_give_up_reason_def)





section \<open>Properties\<close>


text \<open>
  A granted wait fits what is left of its budget: with the time remaining after it, it is exactly
  the rest of the limit that applies (the concurrency limit for a concurrency recovery). It is the
  delay of the recovery, or of the failure, plus at most 100 ms, or the whole rest of at least one
  second when that delay is longer. Nothing is granted when retries are disabled, for a failure that
  is not temporary, or for a pure client rate limit unless its internal retry is on; a refusal for
  any other cause names its reason.
\<close>

theorem granted_wait_fits_budget:
  assumes "decide_with_reason sha p b terminal recovery client busy_only request_id = (wait, reason)"
  shows "case wait of
      Some w \<Rightarrow> reason = None \<and> rp_enabled p \<and> (\<exists>d. terminal = Temporary d)
        \<and> (client \<longrightarrow> rp_rate_limit_internal_retry_enabled p \<and> \<not> rw_alignment w)
        \<and> rw_sleep_for w + rw_remaining_after w = wait_limit p recovery busy_only - rb_waited b
        \<and> (if rw_alignment_truncated w
           then half_open_busy_retry \<le> rw_sleep_for w \<and> rw_remaining_after w = 0
             \<and> rw_sleep_for w < wait_delay terminal recovery busy_only + from_millis 100
           else wait_delay terminal recovery busy_only \<le> rw_sleep_for w
             \<and> rw_sleep_for w \<le> wait_delay terminal recovery busy_only + from_millis 100)
    | None \<Rightarrow> reason = None \<longleftrightarrow> \<not> rp_enabled p \<or> (\<forall>d. terminal \<noteq> Temporary d)
        \<or> (client \<and> \<not> rp_rate_limit_internal_retry_enabled p)"
proof (cases wait)
  case None
  then show ?thesis using decide_with_reason_None [of sha p b terminal recovery client busy_only request_id reason] assms
    by simp
next
  case (Some w)
  from decide_with_reason_Some [OF assms [unfolded Some]] show ?thesis
    unfolding Some by (auto simp: wait_ok_def max_retry_jitter_ms_def)
qed

text \<open>A policy with thirty seconds, and a decision under it.\<close>

definition sample_settings :: retry_settings where
  "sample_settings = \<lparr>se_exhaustion_retry_enabled = True, se_exhaustion_retry_max_wait_ms = 30000,
     se_exhaustion_retry_max_rounds = 3, se_concurrency_recovery_max_wait_ms = 30000,
     se_concurrency_recovery_max_rounds = 32, se_budget_alignment_enabled = True, se_half_open_busy_max_rounds = 10,
     se_alignment_truncated_enabled = True, se_rate_limit_internal_retry_enabled = False,
     se_transient_last_resort_probe_enabled = True\<rparr>"

lemma sample_decision:
  "decide_with_reason (\<lambda>_. []) (from_sources sample_settings) budget_default (Temporary (from_secs 2)) None False False ''r''
    = (Some (full_wait 2 (from_secs 2) 0 (from_secs 2) (from_secs 30) False False), None)"
  by (simp add: decide_with_reason_def decide_ordinary_def from_sources_def with_rate_limit_internal_retry_def
      new_with_full_tuning_def sample_settings_def budget_default_def round_limits_def is_concurrency_recovery_def
      deterministic_jitter_def u64_from_le_bytes_def duration_checked_add_def duration_max_def u64_max_def
      from_secs_def from_millis_def u32_saturating_add_def u32_max_def Let_def full_wait_def)

theorem granted_wait_fits_budget_witness:
  "from_secs 2 + (from_secs 30 - from_secs 2) = wait_limit (from_sources sample_settings) None False - 0"
  using granted_wait_fits_budget [OF sample_decision] by (simp add: full_wait_def budget_default_def)



end
