(* ===== verification/Response_History.thy ===== *)
theory Response_History
  imports Json_Value Rust_Strings
begin

text \<open>
  The store of finished responses that follow-up requests refer to (\<open>src/src/state.rs\<close>): a table with
  the order of insertion beside it, bounded in size, with entries that lapse. The database behind it
  is an argument: what it returns for a key, a response and the oldest admissible time.
\<close>

type_synonym history_key = "string \<times> string"

record 'n response_history_entry =
  hi_items :: "'n json list"
  hi_request_state :: "(string \<times> 'n json) list"
  hi_created_at :: nat

record 'n response_history_store =
  hi_entries :: "(history_key, 'n response_history_entry) hashmap"
  hi_order :: "history_key list"

definition history_store_default :: "'n response_history_store" where
  "history_store_default = \<lparr>hi_entries = [], hi_order = []\<rparr>"

definition response_history_max_entries :: nat where "response_history_max_entries = 2048"

definition response_history_ttl_seconds :: nat where "response_history_ttl_seconds = 12 * 60 * 60"

definition history_expired :: "nat \<Rightarrow> 'n response_history_entry option \<Rightarrow> bool" where
  "history_expired now entry = is_none_or entry (\<lambda>e. now - hi_created_at e > response_history_ttl_seconds)"

fun evict_front :: "nat \<Rightarrow> history_key list \<Rightarrow> (history_key, 'n response_history_entry) hashmap \<Rightarrow> 'n response_history_store" where
  "evict_front now [] entries = \<lparr>hi_entries = entries, hi_order = []\<rparr>"
| "evict_front now (k # order) entries =
    (if history_expired now (map_of entries k) then evict_front now order (AList.delete k entries)
     else \<lparr>hi_entries = entries, hi_order = k # order\<rparr>)"

definition history_evict_expired :: "nat \<Rightarrow> 'n response_history_store \<Rightarrow> 'n response_history_store" where
  "history_evict_expired now h = evict_front now (hi_order h) (hi_entries h)"

fun pop_to_bound :: "history_key list \<Rightarrow> (history_key, 'n response_history_entry) hashmap \<Rightarrow> 'n response_history_store" where
  "pop_to_bound [] entries = \<lparr>hi_entries = entries, hi_order = []\<rparr>"
| "pop_to_bound (k # order) entries =
    (if length (k # order) > response_history_max_entries then pop_to_bound order (AList.delete k entries)
     else \<lparr>hi_entries = entries, hi_order = k # order\<rparr>)"

definition history_insert ::
  "history_key \<Rightarrow> 'n response_history_entry \<Rightarrow> nat \<Rightarrow> 'n response_history_store \<Rightarrow> 'n response_history_store" where
  "history_insert k entry now h =
    (let h1 = \<lparr>hi_entries = AList.update k entry (hi_entries h), hi_order = filter (\<lambda>x. x \<noteq> k) (hi_order h) @ [k]\<rparr>;
         h2 = history_evict_expired now h1
     in pop_to_bound (hi_order h2) (hi_entries h2))"

definition history_get ::
  "history_key \<Rightarrow> nat \<Rightarrow> 'n response_history_store \<Rightarrow> 'n response_history_entry option \<times> 'n response_history_store" where
  "history_get k now h = (let h1 = history_evict_expired now h in (map_of (hi_entries h1) k, h1))"

definition store_response_history ::
  "string \<Rightarrow> string \<Rightarrow> 'n json list \<Rightarrow> (string \<times> 'n json) list \<Rightarrow> nat \<Rightarrow> 'n response_history_store \<Rightarrow> 'n response_history_store" where
  "store_response_history downstream_key_id response_id items request_state now h =
    history_insert (downstream_key_id, response_id)
      \<lparr>hi_items = items, hi_request_state = request_state, hi_created_at = now\<rparr> now h"

definition allow_legacy_claim :: "string list \<Rightarrow> string \<Rightarrow> bool" where
  "allow_legacy_claim downstream_ids downstream_key_id = (downstream_ids = [downstream_key_id])"

definition response_history ::
  "(string \<Rightarrow> string \<Rightarrow> nat \<Rightarrow> bool \<Rightarrow> 'n response_history_entry option) option \<Rightarrow> string list
   \<Rightarrow> string \<Rightarrow> string \<Rightarrow> nat \<Rightarrow> 'n response_history_store \<Rightarrow> 'n response_history_entry option \<times> 'n response_history_store" where
  "response_history postgres downstream_ids downstream_key_id response_id now h =
    (case history_get (downstream_key_id, response_id) now h of
       (Some entry, h1) \<Rightarrow> (Some entry, h1)
     | (None, h1) \<Rightarrow>
         (case Option.bind postgres (\<lambda>db. db downstream_key_id response_id (now - response_history_ttl_seconds)
                 (allow_legacy_claim downstream_ids downstream_key_id)) of
            None \<Rightarrow> (None, h1)
          | Some entry \<Rightarrow> (Some entry, history_insert (downstream_key_id, response_id) entry now h1)))"

section \<open>Invariant\<close>

definition history_inv :: "'n response_history_store \<Rightarrow> bool" where
  "history_inv h = (distinct (hi_order h) \<and> set (hi_order h) = fst ` set (hi_entries h) \<and> hm_ok (hi_entries h)
     \<and> length (hi_order h) \<le> response_history_max_entries)"

lemma fst_set_update: "fst ` set (AList.update k v m) = insert k (fst ` set m)"
  by (induction m) auto

lemma fst_set_delete: "fst ` set (AList.delete k m) = fst ` set m - {k}"
  by (induction m) auto

text \<open>Eviction drops a front part of the order, with its entries.\<close>

definition dropped_front :: "'n response_history_store \<Rightarrow> history_key list \<Rightarrow> (history_key, 'n response_history_entry) hashmap \<Rightarrow> bool" where
  "dropped_front h order entries = (\<exists>front. order = front @ hi_order h
     \<and> hi_entries h = fold AList.delete front entries)"

lemma map_of_delete_front: "map_of (fold AList.delete front m) k = (if k \<in> set front then None else map_of m k)"
  by (induction front arbitrary: m) auto

lemma hm_ok_delete_front: "hm_ok m \<Longrightarrow> hm_ok (fold AList.delete front m)"
  by (induction front arbitrary: m) auto

lemma fst_set_delete_front: "fst ` set (fold AList.delete front m) = fst ` set m - set front"
  by (induction front arbitrary: m) (auto simp: fst_set_delete)

lemma evict_front_drops: "dropped_front (evict_front now order entries) order entries"
proof (induction now order entries rule: evict_front.induct)
  case (2 now k order entries)
  show ?case
  proof (cases "history_expired now (map_of entries k)")
    case True
    then obtain front where "order = front @ hi_order (evict_front now order (AList.delete k entries))"
      "hi_entries (evict_front now order (AList.delete k entries)) = fold AList.delete front (AList.delete k entries)"
      using 2 by (auto simp: dropped_front_def)
    then show ?thesis using True by (auto simp: dropped_front_def intro!: exI [of _ "k # front"])
  qed (simp add: dropped_front_def)
qed (simp add: dropped_front_def)

lemma pop_to_bound_drops: "dropped_front (pop_to_bound order entries) order entries"
proof (induction order entries rule: pop_to_bound.induct)
  case (2 k order entries)
  show ?case
  proof (cases "length (k # order) > response_history_max_entries")
    case True
    then obtain front where "order = front @ hi_order (pop_to_bound order (AList.delete k entries))"
      "hi_entries (pop_to_bound order (AList.delete k entries)) = fold AList.delete front (AList.delete k entries)"
      using 2 by (auto simp: dropped_front_def)
    then show ?thesis using True by (auto simp: dropped_front_def intro!: exI [of _ "k # front"])
  qed (simp add: dropped_front_def)
qed (simp add: dropped_front_def)

lemma pop_to_bound_length: "length (hi_order (pop_to_bound order entries)) \<le> response_history_max_entries"
  by (induction order entries rule: pop_to_bound.induct) auto

lemma pop_to_bound_id: "length order \<le> response_history_max_entries \<Longrightarrow> pop_to_bound order entries = \<lparr>hi_entries = entries, hi_order = order\<rparr>"
  by (cases order) auto

definition linked :: "'n response_history_store \<Rightarrow> bool" where
  "linked h = (distinct (hi_order h) \<and> set (hi_order h) = fst ` set (hi_entries h) \<and> hm_ok (hi_entries h))"

lemma linked_collapse: "linked \<lparr>hi_entries = hi_entries h, hi_order = hi_order h\<rparr> = linked h"
  by (simp add: linked_def)

lemma linked_drop:
  assumes "dropped_front h order entries" "linked \<lparr>hi_entries = entries, hi_order = order\<rparr>"
  shows "linked h"
proof -
  obtain front where front: "order = front @ hi_order h" "hi_entries h = fold AList.delete front entries"
    using assms(1) by (auto simp: dropped_front_def)
  have "set (hi_order h) = fst ` set (hi_entries h)"
    using assms(2) unfolding front fst_set_delete_front linked_def by auto
  then show ?thesis
    using assms(2) unfolding linked_def front by (simp add: hm_ok_delete_front)
qed

lemma linked_insert:
  "linked h \<Longrightarrow> linked \<lparr>hi_entries = AList.update k e (hi_entries h), hi_order = filter (\<lambda>x. x \<noteq> k) (hi_order h) @ [k]\<rparr>"
  by (auto simp: linked_def fst_set_update)

lemma history_inv_linked: "history_inv h \<longleftrightarrow> linked h \<and> length (hi_order h) \<le> response_history_max_entries"
  by (auto simp: history_inv_def linked_def)

lemma history_inv_evict:
  assumes "history_inv h"
  shows "history_inv (history_evict_expired now h)"
proof -
  have drop: "dropped_front (history_evict_expired now h) (hi_order h) (hi_entries h)"
    unfolding history_evict_expired_def by (rule evict_front_drops)
  then have "length (hi_order (history_evict_expired now h)) \<le> length (hi_order h)"
    by (auto simp: dropped_front_def)
  then show ?thesis
    using assms linked_drop [OF drop] by (simp add: history_inv_linked linked_collapse)
qed

lemma history_inv_insert:
  assumes "history_inv h"
  shows "history_inv (history_insert k e now h)"
proof -
  let ?h1 = "\<lparr>hi_entries = AList.update k e (hi_entries h), hi_order = filter (\<lambda>x. x \<noteq> k) (hi_order h) @ [k]\<rparr>"
  let ?h2 = "history_evict_expired now ?h1"
  have "linked ?h1" using assms by (simp add: history_inv_linked linked_insert)
  then have "linked ?h2" unfolding history_evict_expired_def by (intro linked_drop [OF evict_front_drops]) simp
  then have "linked (pop_to_bound (hi_order ?h2) (hi_entries ?h2))" by (intro linked_drop [OF pop_to_bound_drops]) (simp add: linked_collapse)
  then show ?thesis using pop_to_bound_length by (simp add: history_inv_linked history_insert_def Let_def)
qed

section \<open>A stored response survives\<close>

text \<open>A response with at most \<open>n\<close> others behind it in the order.\<close>

definition kept_behind :: "history_key \<Rightarrow> 'n response_history_entry \<Rightarrow> nat \<Rightarrow> 'n response_history_store \<Rightarrow> bool" where
  "kept_behind k e n h = (map_of (hi_entries h) k = Some e \<and> (\<exists>pre post. hi_order h = pre @ k # post \<and> k \<notin> set pre \<and> length post \<le> n))"

lemma kept_behindI:
  "map_of (hi_entries h) k = Some e \<Longrightarrow> hi_order h = pre @ k # post \<Longrightarrow> k \<notin> set pre \<Longrightarrow> length post \<le> n \<Longrightarrow> kept_behind k e n h"
  unfolding kept_behind_def by blast

lemma kept_behindE:
  assumes "kept_behind k e n h"
  obtains pre post where "map_of (hi_entries h) k = Some e" "hi_order h = pre @ k # post" "k \<notin> set pre" "length post \<le> n"
  using assms unfolding kept_behind_def by blast

lemma kept_behind_evict_front:
  assumes "map_of entries k = Some e" "now - hi_created_at e \<le> response_history_ttl_seconds"
    "k \<notin> set pre" "length post \<le> n"
  shows "kept_behind k e n (evict_front now (pre @ k # post) entries)"
  using assms
proof (induction pre arbitrary: entries)
  case Nil
  then show ?case by (intro kept_behindI [of _ _ _ "[]" post]) (simp_all add: history_expired_def is_none_or_def)
next
  case (Cons x pre)
  show ?case
  proof (cases "history_expired now (map_of entries x)")
    case True
    then show ?thesis using Cons by simp
  next
    case False
    then show ?thesis using Cons.prems by (intro kept_behindI [of _ _ _ "x # pre" post]) simp_all
  qed
qed

lemma kept_behind_pop:
  assumes "map_of entries k = Some e" "k \<notin> set pre" "length post \<le> n" "n < response_history_max_entries"
  shows "kept_behind k e n (pop_to_bound (pre @ k # post) entries)"
  using assms
proof (induction pre arbitrary: entries)
  case Nil
  then show ?case by (intro kept_behindI [of _ _ _ "[]" post]) simp_all
next
  case (Cons x pre)
  show ?case
  proof (cases "length ((x # pre) @ k # post) > response_history_max_entries")
    case True
    then show ?thesis using Cons by simp
  next
    case False
    then show ?thesis using Cons.prems by (intro kept_behindI [of _ _ _ "x # pre" post]) simp_all
  qed
qed

lemma kept_behind_evict:
  assumes "kept_behind k e n h" "now - hi_created_at e \<le> response_history_ttl_seconds"
  shows "kept_behind k e n (history_evict_expired now h)"
  using assms(1)
proof (rule kept_behindE)
  fix pre post
  assume o: "map_of (hi_entries h) k = Some e" "hi_order h = pre @ k # post" "k \<notin> set pre" "length post \<le> n"
  then show ?thesis unfolding history_evict_expired_def o(2) by (intro kept_behind_evict_front [OF _ assms(2)])
qed

lemma kept_behind_bound:
  assumes "kept_behind k e n h" "n < response_history_max_entries"
  shows "kept_behind k e n (pop_to_bound (hi_order h) (hi_entries h))"
  using assms(1)
proof (rule kept_behindE)
  fix pre post
  assume o: "map_of (hi_entries h) k = Some e" "hi_order h = pre @ k # post" "k \<notin> set pre" "length post \<le> n"
  then show ?thesis unfolding o(2) by (intro kept_behind_pop [OF _ _ _ assms(2)])
qed

lemma kept_behind_insert_other:
  assumes "kept_behind k e n h" "now - hi_created_at e \<le> response_history_ttl_seconds" "j \<noteq> k" "n + 1 < response_history_max_entries"
  shows "kept_behind k e (n + 1) (history_insert j e' now h)"
proof -
  let ?h1 = "\<lparr>hi_entries = AList.update j e' (hi_entries h), hi_order = filter (\<lambda>x. x \<noteq> j) (hi_order h) @ [j]\<rparr>"
  obtain pre post where o: "map_of (hi_entries h) k = Some e" "hi_order h = pre @ k # post" "k \<notin> set pre" "length post \<le> n"
    using assms(1) by (rule kept_behindE)
  have "kept_behind k e (n + 1) ?h1"
    by (rule kept_behindI [of _ _ _ "filter (\<lambda>x. x \<noteq> j) pre" "filter (\<lambda>x. x \<noteq> j) post @ [j]"])
      (use assms(3) o le_trans [OF length_filter_le] in auto)
  from kept_behind_bound [OF kept_behind_evict [OF this assms(2)] assms(4)]
  show ?thesis by (simp add: history_insert_def Let_def)
qed

lemma kept_behind_insert:
  assumes "now - hi_created_at e \<le> response_history_ttl_seconds"
  shows "kept_behind k e 0 (history_insert k e now h)"
proof -
  let ?h1 = "\<lparr>hi_entries = AList.update k e (hi_entries h), hi_order = filter (\<lambda>x. x \<noteq> k) (hi_order h) @ [k]\<rparr>"
  have "kept_behind k e 0 ?h1"
    by (rule kept_behindI [of _ _ _ "filter (\<lambda>x. x \<noteq> k) (hi_order h)" "[]"]) auto
  from kept_behind_bound [OF kept_behind_evict [OF this assms]]
  show ?thesis by (simp add: history_insert_def Let_def response_history_max_entries_def)
qed

text \<open>The operations of other requests on the store, each at its time.\<close>

datatype 'n history_op = HistoryInsert history_key "'n response_history_entry" nat | HistoryGet history_key nat

fun history_apply :: "'n history_op \<Rightarrow> 'n response_history_store \<Rightarrow> 'n response_history_store" where
  "history_apply (HistoryInsert k e now) h = history_insert k e now h"
| "history_apply (HistoryGet k now) h = snd (history_get k now h)"

fun history_op_time :: "'n history_op \<Rightarrow> nat" where
  "history_op_time (HistoryInsert k e now) = now"
| "history_op_time (HistoryGet k now) = now"

fun inserts :: "history_key \<Rightarrow> 'n history_op \<Rightarrow> bool" where
  "inserts k (HistoryInsert j e now) = (j = k)"
| "inserts k (HistoryGet j now) = False"

definition insert_count :: "'n history_op list \<Rightarrow> nat" where
  "insert_count ops = length (filter (\<lambda>op. case op of HistoryInsert _ _ _ \<Rightarrow> True | HistoryGet _ _ \<Rightarrow> False) ops)"

lemma kept_behind_fold:
  assumes "kept_behind k e n h" "n + insert_count ops < response_history_max_entries"
    "\<forall>op\<in>set ops. \<not> inserts k op \<and> history_op_time op - hi_created_at e \<le> response_history_ttl_seconds"
  shows "kept_behind k e (n + insert_count ops) (fold history_apply ops h)"
  using assms
proof (induction ops arbitrary: n h)
  case (Cons op ops)
  show ?case
  proof (cases op)
    case (HistoryInsert j e' now)
    have "kept_behind k e (n + 1) (history_insert j e' now h)"
      using Cons.prems HistoryInsert by (intro kept_behind_insert_other) (auto simp: insert_count_def)
    then show ?thesis using Cons HistoryInsert by (fastforce simp: insert_count_def)
  next
    case (HistoryGet j now)
    have "kept_behind k e n (snd (history_get j now h))"
      using Cons.prems HistoryGet by (simp add: history_get_def Let_def kept_behind_evict)
    then show ?thesis using Cons HistoryGet by (fastforce simp: insert_count_def)
  qed
qed (simp add: insert_count_def)

lemma history_apply_inv: "history_inv h \<Longrightarrow> history_inv (history_apply op h)"
  by (cases op) (simp_all add: history_inv_insert history_get_def Let_def history_inv_evict)

lemma history_fold_inv: "history_inv h \<Longrightarrow> history_inv (fold history_apply ops h)"
  by (induction ops arbitrary: h) (simp_all add: history_apply_inv)

lemma history_inv_default: "history_inv history_store_default"
  by (simp add: history_inv_def history_store_default_def)

text \<open>
  C31. A stored response can be read back for twelve hours, whatever other requests store and read
  meanwhile, as long as they store fewer than 2047 others; and whatever is done, the table never
  holds more than 2048 entries and agrees with the order it is evicted in.
\<close>

theorem stored_response_survives:
  assumes "h = fold history_apply earlier history_store_default" "insert_count ops < 2047"
    and "\<forall>op\<in>set ops. \<not> inserts (downstream_key_id, response_id) op \<and> history_op_time op \<le> now + response_history_ttl_seconds"
    and "later = fold history_apply ops (store_response_history downstream_key_id response_id items request_state now h)"
    and "t \<le> now + response_history_ttl_seconds"
  shows "fst (response_history postgres downstream_ids downstream_key_id response_id t later)
      = Some \<lparr>hi_items = items, hi_request_state = request_state, hi_created_at = now\<rparr>
    \<and> history_inv later"
proof -
  let ?k = "(downstream_key_id, response_id)" and ?e = "\<lparr>hi_items = items, hi_request_state = request_state, hi_created_at = now\<rparr>"
  have "kept_behind ?k ?e 0 (store_response_history downstream_key_id response_id items request_state now h)"
    unfolding store_response_history_def by (rule kept_behind_insert) simp
  then have "kept_behind ?k ?e (0 + insert_count ops) later"
    unfolding assms(4) by (rule kept_behind_fold) (use assms(2,3) in \<open>auto simp: response_history_max_entries_def\<close>)
  then have "kept_behind ?k ?e (0 + insert_count ops) (history_evict_expired t later)"
    by (rule kept_behind_evict) (use assms(5) in simp)
  then have "fst (response_history postgres downstream_ids downstream_key_id response_id t later) = Some ?e"
    by (simp add: response_history_def history_get_def Let_def kept_behind_def)
  moreover have "history_inv later"
    unfolding assms(1,4) store_response_history_def
    by (intro history_fold_inv history_inv_insert history_inv_default)
  ultimately show ?thesis by simp
qed

theorem stored_response_survives_witness:
  "fst (response_history None [] ''d'' ''r'' 100 (fold history_apply [HistoryGet (''d'', ''x'') 50]
      (store_response_history ''d'' ''r'' [JBool True] [] 10 (history_store_default :: nat response_history_store))))
    = Some \<lparr>hi_items = [JBool True], hi_request_state = [], hi_created_at = 10\<rparr>"
  using stored_response_survives [of "history_store_default :: nat response_history_store" "[]" "[HistoryGet (''d'', ''x'') 50]" "''d''" "''r''" 10 _ "[JBool True]" "[]" 100 None "[]", OF _ _ _ refl]
  by (simp add: insert_count_def response_history_ttl_seconds_def)

text \<open>
  An entry that the database returns keeps its old time but goes to the end of the order, so it can
  outlive its twelve hours behind a younger entry at the front.
\<close>

lemma restored_entry_outlives_ttl:
  "fst (history_get (''d'', ''old'') 43400
     (history_insert (''d'', ''old'') \<lparr>hi_items = [], hi_request_state = [], hi_created_at = 100\<rparr> 43000
       (store_response_history ''d'' ''new'' [] [] 42999 history_store_default)))
    = Some \<lparr>hi_items = ([] :: nat json list), hi_request_state = [], hi_created_at = 100\<rparr>
   \<and> 43400 - 100 > response_history_ttl_seconds"
  by (simp add: history_get_def history_insert_def store_response_history_def history_store_default_def history_evict_expired_def
      history_expired_def is_none_or_def response_history_ttl_seconds_def response_history_max_entries_def Let_def)

end
