(* ===== verification/Chat_Canonicalizer.thy ===== *)
theory Chat_Canonicalizer
  imports Stream_Aggregate
begin

text \<open>
  The normalisation of a provider's chat event stream before any protocol adapter reads it
  (\<open>ChatStreamCanonicalizer\<close> of \<open>src/src/protocol.rs\<close>), and the conversions of the usage object
  beside it. An operation returns its result and the state it leaves, since
  the fields changed before an error stay changed. The \<open>serde_json\<close> library is the parameter
  \<open>json_ops\<close>, as for the aggregation.
\<close>

section \<open>State and identity\<close>

record 'n chat_stream_canonicalizer =
  cc_id :: string
  cc_model :: string
  cc_created :: "64 word"
  cc_identity_locked :: bool
  cc_choice_indices :: "64 word option list"
  cc_terminal_indices :: "64 word set"
  cc_saw_output_indices :: "64 word set"
  cc_saw_tool_call_indices :: "64 word set"
  cc_usage :: "'n json option"

definition canonicalizer_new :: "string \<Rightarrow> string \<Rightarrow> 64 word \<Rightarrow> 'n chat_stream_canonicalizer" where
  "canonicalizer_new stream_id model created =
    \<lparr>cc_id = stream_id, cc_model = model, cc_created = created, cc_identity_locked = False, cc_choice_indices = [],
     cc_terminal_indices = {}, cc_saw_output_indices = {}, cc_saw_tool_call_indices = {}, cc_usage = None\<rparr>"

definition chat_invalid_stream :: protocol_error where
  "chat_invalid_stream = InvalidUpstreamStream UpstreamEvent ''Chat stream event has an invalid envelope or terminal''"

definition optional_string :: "'n json_map \<Rightarrow> string \<Rightarrow> protocol_error + string option" where
  "optional_string members field =
    (case map_of members field of
       None \<Rightarrow> Inr None
     | Some JNull \<Rightarrow> Inr None
     | Some (JString s) \<Rightarrow> Inr (Some s)
     | Some _ \<Rightarrow> Inl chat_invalid_stream)"

definition optional_u64 :: "'n json_ops \<Rightarrow> 'n json_map \<Rightarrow> string \<Rightarrow> protocol_error + 64 word option" where
  "optional_u64 ops members field =
    (case map_of members field of
       None \<Rightarrow> Inr None
     | Some JNull \<Rightarrow> Inr None
     | Some (JNumber n) \<Rightarrow> (case jo_as_u64 ops n of Some w \<Rightarrow> Inr (Some w) | None \<Rightarrow> Inl chat_invalid_stream)
     | Some _ \<Rightarrow> Inl chat_invalid_stream)"

definition stabilize_identity ::
  "'n json_ops \<Rightarrow> 'n json_map \<Rightarrow> 'n chat_stream_canonicalizer \<Rightarrow> protocol_error + 'n chat_stream_canonicalizer" where
  "stabilize_identity ops members c =
    bind_ok (optional_string members ''id'') (\<lambda>incoming_id.
    bind_ok (optional_string members ''model'') (\<lambda>incoming_model.
    bind_ok (optional_u64 ops members ''created'') (\<lambda>incoming_created.
      Inr (if cc_identity_locked c then c
           else c\<lparr>cc_id := unwrap_or incoming_id (cc_id c), cc_model := unwrap_or incoming_model (cc_model c),
                  cc_created := unwrap_or incoming_created (cc_created c), cc_identity_locked := True\<rparr>))))"

definition normalize_finish_reason :: "'n chat_stream_canonicalizer \<Rightarrow> 64 word \<Rightarrow> string \<Rightarrow> protocol_error + string" where
  "normalize_finish_reason c index reason =
    (let tools = index \<in> cc_saw_tool_call_indices c in
     if reason = ''stop'' \<and> tools then Inr ''tool_calls''
     else if reason \<in> {''stop'', ''length'', ''content_filter''} then Inr reason
     else if reason = ''function_call'' \<and> tools then Inr ''tool_calls''
     else if reason = ''tool_calls'' \<and> tools then Inr ''tool_calls''
     else if reason = ''end_turn'' \<and> \<not> tools then Inr ''stop''
     else if reason \<in> {''max_tokens'', ''max_output_tokens''} then Inr ''length''
     else if reason = ''tool_use'' \<and> tools then Inr ''tool_calls''
     else Inl chat_invalid_stream)"

section \<open>One choice\<close>

definition nth_index :: "64 word option list \<Rightarrow> nat \<Rightarrow> 64 word option" where
  "nth_index indices position = (if position < length indices then indices ! position else None)"

definition set_index :: "nat \<Rightarrow> 64 word \<Rightarrow> 64 word option list \<Rightarrow> 64 word option list" where
  "set_index position index indices = (indices @ replicate (position + 1 - length indices) None)[position := Some index]"

definition assign_index ::
  "'n json_ops \<Rightarrow> nat \<Rightarrow> 'n json_map \<Rightarrow> 'n chat_stream_canonicalizer \<Rightarrow> protocol_error + 64 word \<times> 'n chat_stream_canonicalizer" where
  "assign_index ops position choice c =
    (let incoming = Option.bind (map_of choice ''index'') (as_u64 ops) in
     case nth_index (cc_choice_indices c) position of
       Some index \<Rightarrow> if is_some_and incoming (\<lambda>i. i \<noteq> index) then Inl chat_invalid_stream else Inr (index, c)
     | None \<Rightarrow>
         (let index = unwrap_or incoming (of_nat position)
          in Inr (index, c\<lparr>cc_choice_indices := set_index position index (cc_choice_indices c)\<rparr>)))"

definition non_empty_text :: "'n json_map \<Rightarrow> string \<Rightarrow> bool" where
  "non_empty_text members field = is_some_and (Option.bind (map_of members field) as_str) (\<lambda>s. s \<noteq> [])"

definition drop_null :: "string \<Rightarrow> 'n json_map \<Rightarrow> 'n json_map" where
  "drop_null field members = (if map_of members field = Some JNull then AList.delete field members else members)"

definition clean_delta :: "'n json_map \<Rightarrow> protocol_error + 'n json_map" where
  "clean_delta choice =
    (case map_of choice ''delta'' of
       None \<Rightarrow> Inr []
     | Some JNull \<Rightarrow> Inr []
     | Some (JObject members) \<Rightarrow> Inr (fold drop_null [''tool_calls'', ''function_call'', ''function_calls''] members)
     | Some _ \<Rightarrow> Inl chat_invalid_stream)"

definition observe_choice_delta :: "64 word \<Rightarrow> 'n json_map \<Rightarrow> 'n chat_stream_canonicalizer \<Rightarrow> 'n chat_stream_canonicalizer" where
  "observe_choice_delta index delta c =
    c\<lparr>cc_saw_output_indices :=
        (if non_empty_text delta ''content'' \<or> non_empty_text delta ''reasoning_content''
         then insert index (cc_saw_output_indices c) else cc_saw_output_indices c),
      cc_saw_tool_call_indices :=
        (if is_some_and (Option.bind (map_of delta ''tool_calls'') as_array) (\<lambda>calls. calls \<noteq> [])
            \<or> is_some_and (map_of delta ''function_call'') (\<lambda>call. \<not> is_null call)
         then insert index (cc_saw_tool_call_indices c) else cc_saw_tool_call_indices c)\<rparr>"

definition finish_choice ::
  "64 word \<Rightarrow> 'n json_map \<Rightarrow> 'n chat_stream_canonicalizer \<Rightarrow> (protocol_error + 'n json_map) \<times> 'n chat_stream_canonicalizer" where
  "finish_choice index choice c =
    (case unwrap_or (map_of choice ''finish_reason'') JNull of
       JNull \<Rightarrow> (Inr (bt_insert ''finish_reason'' JNull choice), c)
     | JString reason \<Rightarrow>
         if reason = [] then (Inr (bt_insert ''finish_reason'' JNull choice), c)
         else (case normalize_finish_reason c index reason of
                 Inl e \<Rightarrow> (Inl e, c)
               | Inr normalized \<Rightarrow>
                   if index \<in> cc_terminal_indices c then (Inl chat_invalid_stream, c)
                   else (Inr (bt_insert ''finish_reason'' (JString normalized) choice),
                         c\<lparr>cc_terminal_indices := insert index (cc_terminal_indices c)\<rparr>))
     | _ \<Rightarrow> (Inl chat_invalid_stream, c))"

definition push_choice ::
  "'n json_ops \<Rightarrow> nat \<Rightarrow> 'n json \<Rightarrow> 'n chat_stream_canonicalizer
   \<Rightarrow> (protocol_error + 'n json_map) \<times> 'n chat_stream_canonicalizer" where
  "push_choice ops position choice c =
    (case choice of
       JObject members \<Rightarrow>
         (case assign_index ops position members c of
            Inl e \<Rightarrow> (Inl e, c)
          | Inr (index, c1) \<Rightarrow>
              (case clean_delta members of
                 Inl e \<Rightarrow> (Inl e, c1)
               | Inr delta \<Rightarrow>
                   finish_choice index
                     (bt_insert ''delta'' (JObject delta) (bt_insert ''index'' (JNumber (jo_number ops index)) members))
                     (observe_choice_delta index delta c1)))
     | _ \<Rightarrow> (Inl (InvalidUpstreamStream UpstreamEvent ''Chat stream choice must be an object''), c))"

fun push_choices ::
  "'n json_ops \<Rightarrow> nat \<Rightarrow> 'n json list \<Rightarrow> 'n chat_stream_canonicalizer
   \<Rightarrow> (protocol_error + 'n json list) \<times> 'n chat_stream_canonicalizer" where
  "push_choices ops position [] c = (Inr [], c)"
| "push_choices ops position (choice # choices) c =
    (case push_choice ops position choice c of
       (Inl e, c1) \<Rightarrow> (Inl e, c1)
     | (Inr members, c1) \<Rightarrow>
         (case push_choices ops (position + 1) choices c1 of
            (Inl e, c2) \<Rightarrow> (Inl e, c2)
          | (Inr rest, c2) \<Rightarrow> (Inr (JObject members # rest), c2)))"

section \<open>Events\<close>

definition take_usage :: "'n json_map \<Rightarrow> 'n chat_stream_canonicalizer \<Rightarrow> 'n chat_stream_canonicalizer" where
  "take_usage members c =
    (case filter_option (\<lambda>usage. \<not> is_null usage) (map_of members ''usage'') of
       Some usage \<Rightarrow> c\<lparr>cc_usage := Some usage\<rparr>
     | None \<Rightarrow> c)"

definition stamp :: "'n json_ops \<Rightarrow> 'n chat_stream_canonicalizer \<Rightarrow> 'n json_map \<Rightarrow> 'n json_map" where
  "stamp ops c members =
    AList.delete ''usage''
      (bt_insert ''model'' (JString (cc_model c))
        (bt_insert ''created'' (JNumber (jo_number ops (cc_created c)))
          (bt_insert ''object'' (JString ''chat.completion.chunk'')
            (bt_insert ''id'' (JString (cc_id c)) members))))"

definition canonicalizer_push ::
  "'n json_ops \<Rightarrow> 'n json \<Rightarrow> 'n chat_stream_canonicalizer
   \<Rightarrow> (protocol_error + 'n json list) \<times> 'n chat_stream_canonicalizer" where
  "canonicalizer_push ops event c =
    (case event of
       JObject members \<Rightarrow>
         (case stabilize_identity ops members c of
            Inl e \<Rightarrow> (Inl e, c)
          | Inr c1 \<Rightarrow>
              (let c2 = take_usage members c1 in
               case unwrap_or (map_of members ''choices'') (JArray []) of
                 JArray choices \<Rightarrow>
                   if choices = [] then (Inr [], c2)
                   else (case push_choices ops 0 choices c2 of
                           (Inl e, c3) \<Rightarrow> (Inl e, c3)
                         | (Inr choices', c3) \<Rightarrow>
                             (Inr [JObject (stamp ops c3 (bt_insert ''choices'' (JArray choices') members))], c3))
               | _ \<Rightarrow> (Inl (InvalidUpstreamStream UpstreamEvent ''Chat stream choices must be an array''), c2)))
     | _ \<Rightarrow> (Inl (InvalidUpstreamStream UpstreamEvent ''Chat stream event must be an object''), c))"

definition envelope :: "'n json_ops \<Rightarrow> 'n chat_stream_canonicalizer \<Rightarrow> 'n json list \<Rightarrow> 'n json_map" where
  "envelope ops c choices = json_object
    [(''id'', JString (cc_id c)), (''object'', JString ''chat.completion.chunk''),
     (''created'', JNumber (jo_number ops (cc_created c))), (''model'', JString (cc_model c)), (''choices'', JArray choices)]"

definition finish_indices :: "'n chat_stream_canonicalizer \<Rightarrow> 64 word list" where
  "finish_indices c =
    (if cc_choice_indices c = [] then [0]
     else sort (remdups (List.map_filter (\<lambda>i. i) (cc_choice_indices c))))"

definition missing_choice :: "'n json_ops \<Rightarrow> 'n chat_stream_canonicalizer \<Rightarrow> 64 word \<Rightarrow> protocol_error + 'n json" where
  "missing_choice ops c index =
    bind_ok (if index \<in> cc_saw_tool_call_indices c then Inr ''tool_calls''
             else if index \<in> cc_saw_output_indices c then Inr ''stop''
             else Inl chat_invalid_stream)
      (\<lambda>reason. Inr (JObject (json_object
         [(''index'', JNumber (jo_number ops index)), (''delta'', JObject []), (''finish_reason'', JString reason)])))"

fun mark_terminals ::
  "'n json_ops \<Rightarrow> 'n json list \<Rightarrow> 'n chat_stream_canonicalizer \<Rightarrow> (protocol_error + unit) \<times> 'n chat_stream_canonicalizer" where
  "mark_terminals ops [] c = (Inr (), c)"
| "mark_terminals ops (choice # choices) c =
    (case Option.bind (json_get choice ''index'') (as_u64 ops) of
       None \<Rightarrow> (Inl chat_invalid_stream, c)
     | Some index \<Rightarrow> mark_terminals ops choices (c\<lparr>cc_terminal_indices := insert index (cc_terminal_indices c)\<rparr>))"

definition finish_usage ::
  "'n json_ops \<Rightarrow> 'n chat_stream_canonicalizer \<Rightarrow> 'n json list \<times> 'n chat_stream_canonicalizer" where
  "finish_usage ops c =
    (case cc_usage c of
       None \<Rightarrow> ([], c)
     | Some usage \<Rightarrow> ([JObject (bt_insert ''usage'' usage (envelope ops c []))], c\<lparr>cc_usage := None\<rparr>))"

definition finish_inner ::
  "'n json_ops \<Rightarrow> bool \<Rightarrow> 'n chat_stream_canonicalizer
   \<Rightarrow> (protocol_error + 'n json list) \<times> 'n chat_stream_canonicalizer" where
  "finish_inner ops allow_missing_terminal c =
    (let indices = finish_indices c;
         missing = filter (\<lambda>i. i \<notin> cc_terminal_indices c) indices in
     if \<not> allow_missing_terminal \<and> (indices = [] \<or> missing \<noteq> []) then (Inl chat_invalid_stream, c)
     else if allow_missing_terminal \<and> missing \<noteq> []
     then (case collect_ok (map (missing_choice ops c) missing) of
             Inl e \<Rightarrow> (Inl e, c)
           | Inr choices \<Rightarrow>
               (case mark_terminals ops choices c of
                  (Inl e, c1) \<Rightarrow> (Inl e, c1)
                | (Inr _, c1) \<Rightarrow>
                    (let (usage, c2) = finish_usage ops c1
                     in (Inr (JObject (envelope ops c1 choices) # usage), c2))))
     else (let (usage, c1) = finish_usage ops c in (Inr usage, c1)))"

definition canonicalizer_finish ::
  "'n json_ops \<Rightarrow> 'n chat_stream_canonicalizer \<Rightarrow> (protocol_error + 'n json list) \<times> 'n chat_stream_canonicalizer" where
  "canonicalizer_finish ops c = finish_inner ops True c"

definition finish_after_done ::
  "'n json_ops \<Rightarrow> 'n chat_stream_canonicalizer \<Rightarrow> (protocol_error + 'n json list) \<times> 'n chat_stream_canonicalizer" where
  "finish_after_done ops c = finish_inner ops True c"

text \<open>A whole stream: the events in order, then the end.\<close>

fun push_all ::
  "'n json_ops \<Rightarrow> 'n json list \<Rightarrow> 'n chat_stream_canonicalizer
   \<Rightarrow> (protocol_error + 'n json list) \<times> 'n chat_stream_canonicalizer" where
  "push_all ops [] c = (Inr [], c)"
| "push_all ops (event # events) c =
    (case canonicalizer_push ops event c of
       (Inl e, c1) \<Rightarrow> (Inl e, c1)
     | (Inr out, c1) \<Rightarrow>
         (case push_all ops events c1 of
            (Inl e, c2) \<Rightarrow> (Inl e, c2)
          | (Inr outs, c2) \<Rightarrow> (Inr (out @ outs), c2)))"

definition canonical_stream ::
  "'n json_ops \<Rightarrow> 'n json list \<Rightarrow> 'n chat_stream_canonicalizer \<Rightarrow> protocol_error + 'n json list" where
  "canonical_stream ops events c =
    (case push_all ops events c of
       (Inl e, _) \<Rightarrow> Inl e
     | (Inr outs, c1) \<Rightarrow> bind_ok (fst (canonicalizer_finish ops c1)) (\<lambda>final. Inr (outs @ final)))"

section \<open>Conformance of the canonical stream\<close>

definition chunk_choices :: "'n json \<Rightarrow> 'n json list" where
  "chunk_choices event = (case json_get event ''choices'' of Some (JArray choices) \<Rightarrow> choices | _ \<Rightarrow> [])"

definition names_index :: "'n json_ops \<Rightarrow> 64 word \<Rightarrow> 'n json \<Rightarrow> bool" where
  "names_index ops index choice = (json_get choice ''index'' = Some (JNumber (jo_number ops index)))"

definition terminal_reasons :: "string set" where
  "terminal_reasons = {''stop'', ''length'', ''content_filter'', ''tool_calls''}"

definition ends_choice :: "'n json \<Rightarrow> bool" where
  "ends_choice choice = (json_get choice ''finish_reason'' \<in> Some ` JString ` terminal_reasons)"

definition reason_ok :: "'n json \<Rightarrow> bool" where
  "reason_ok choice = (json_get choice ''finish_reason'' = Some JNull \<or> ends_choice choice)"

definition end_count :: "'n json_ops \<Rightarrow> 64 word \<Rightarrow> 'n json list \<Rightarrow> nat" where
  "end_count ops index choices = length (filter (\<lambda>ch. names_index ops index ch \<and> ends_choice ch) choices)"

definition known :: "'n chat_stream_canonicalizer \<Rightarrow> 64 word set" where
  "known c = {w. Some w \<in> set (cc_choice_indices c)}"

text \<open>The documented law of the number type: a \<open>u64\<close> read back is itself.\<close>

definition number_law :: "'n json_ops \<Rightarrow> bool" where
  "number_law ops = (\<forall>w. jo_as_u64 ops (jo_number ops w) = Some w)"

text \<open>
  What a step contributes: the choices it emits end each index once if the step ends it, name known
  indices only, and have normalised reasons.
\<close>

definition emits :: "'n json_ops \<Rightarrow> 'n chat_stream_canonicalizer \<Rightarrow> 'n json list \<Rightarrow> 'n chat_stream_canonicalizer \<Rightarrow> bool" where
  "emits ops c choices c' =
    ((\<forall>w. end_count ops w choices + of_bool (w \<in> cc_terminal_indices c) = of_bool (w \<in> cc_terminal_indices c'))
     \<and> (\<forall>ch\<in>set choices. reason_ok ch \<and> (\<exists>w\<in>known c' \<union> cc_terminal_indices c'. names_index ops w ch))
     \<and> known c \<subseteq> known c')"

lemma emits_terminals: "emits ops c choices c' \<Longrightarrow> cc_terminal_indices c \<subseteq> cc_terminal_indices c'"
  unfolding emits_def by (metis add_is_0 of_bool_eq_0_iff subsetI)

lemma emits_none: "known c \<subseteq> known c' \<Longrightarrow> cc_terminal_indices c' = cc_terminal_indices c \<Longrightarrow> emits ops c [] c'"
  by (simp add: emits_def end_count_def)

lemma emits_append:
  assumes "emits ops c xs c1" "emits ops c1 ys c2"
  shows "emits ops c (xs @ ys) c2"
  unfolding emits_def
proof (intro conjI allI ballI)
  fix w
  have "end_count ops w xs + of_bool (w \<in> cc_terminal_indices c) = of_bool (w \<in> cc_terminal_indices c1)"
    "end_count ops w ys + of_bool (w \<in> cc_terminal_indices c1) = of_bool (w \<in> cc_terminal_indices c2)"
    using assms by (simp_all add: emits_def)
  then show "end_count ops w (xs @ ys) + of_bool (w \<in> cc_terminal_indices c) = of_bool (w \<in> cc_terminal_indices c2)"
    by (simp add: end_count_def)
next
  fix ch assume "ch \<in> set (xs @ ys)"
  then show "reason_ok ch" "\<exists>w\<in>known c2 \<union> cc_terminal_indices c2. names_index ops w ch"
    using assms emits_terminals [OF assms(2)] by (fastforce simp: emits_def)+
qed (use assms in \<open>auto simp: emits_def\<close>)

lemma names_index_unique: "number_law ops \<Longrightarrow> names_index ops w ch \<Longrightarrow> names_index ops v ch \<Longrightarrow> w = v"
  unfolding number_law_def names_index_def by (metis json.inject(2) option.inject)

lemma emits_one:
  assumes "number_law ops" "names_index ops w ch" "reason_ok ch" "w \<in> known c' \<union> cc_terminal_indices c'" "known c \<subseteq> known c'"
    "ends_choice ch \<Longrightarrow> w \<notin> cc_terminal_indices c \<and> cc_terminal_indices c' = insert w (cc_terminal_indices c)"
    "\<not> ends_choice ch \<Longrightarrow> cc_terminal_indices c' = cc_terminal_indices c"
  shows "emits ops c [ch] c'"
proof -
  have "names_index ops v ch \<longleftrightarrow> v = w" for v using names_index_unique [OF assms(1,2)] assms(2) by blast
  then have count: "end_count ops v [ch] = of_bool (v = w \<and> ends_choice ch)" for v by (simp add: end_count_def)
  show ?thesis
  proof (cases "ends_choice ch")
    case True
    then show ?thesis using assms(2-5) assms(6) [OF True] unfolding emits_def count by auto
  next
    case False
    then show ?thesis using assms(2-5) assms(7) [OF False] unfolding emits_def count by auto
  qed
qed

lemma known_set_index:
  assumes "nth_index indices position = None"
  shows "{w. Some w \<in> set (set_index position index indices)} = insert index {w. Some w \<in> set indices}"
proof -
  let ?xs = "indices @ replicate (position + 1 - length indices) None"
  have len: "position < length ?xs" by simp
  have none: "?xs ! position = None" using assms by (auto simp: nth_index_def nth_append split: if_splits)
  have "Some w \<in> set (?xs[position := Some index]) \<longleftrightarrow> w = index \<or> Some w \<in> set ?xs" for w
  proof -
    have "Some w \<in> set (?xs[position := Some index])" if "Some w \<in> set ?xs"
      using that none len by (metis in_set_conv_nth length_list_update nth_list_update_neq option.distinct(1))
    moreover have "Some index \<in> set (?xs[position := Some index])" using len set_update_memI by fast
    moreover have "Some w \<in> set (?xs[position := Some index]) \<Longrightarrow> w = index \<or> Some w \<in> set ?xs"
      using set_update_subset_insert by fastforce
    ultimately show ?thesis by blast
  qed
  then show ?thesis by (auto simp: set_index_def)
qed

definition same_identity :: "'n chat_stream_canonicalizer \<Rightarrow> 'n chat_stream_canonicalizer \<Rightarrow> bool" where
  "same_identity c c' = (cc_id c' = cc_id c \<and> cc_model c' = cc_model c \<and> cc_created c' = cc_created c
     \<and> cc_identity_locked c' = cc_identity_locked c)"

lemma assign_index_spec:
  assumes "assign_index ops position choice c = Inr (index, c1)"
  shows "known c1 = insert index (known c) \<and> cc_terminal_indices c1 = cc_terminal_indices c \<and> same_identity c c1"
proof (cases "nth_index (cc_choice_indices c) position")
  case None
  then have "c1 = c\<lparr>cc_choice_indices := set_index position index (cc_choice_indices c)\<rparr>"
    using assms by (auto simp: assign_index_def Let_def)
  then show ?thesis
    using known_set_index [OF None, of index] by (simp add: known_def same_identity_def)
next
  case (Some i)
  then have "c1 = c" "index = i" using assms by (auto simp: assign_index_def Let_def split: if_splits)
  moreover have "i \<in> known c" using Some by (auto simp: nth_index_def known_def split: if_splits) (metis nth_mem)
  ultimately show ?thesis by (auto simp: same_identity_def)
qed

lemma normalize_finish_reason_terminal:
  "normalize_finish_reason c index reason = Inr normalized \<Longrightarrow> normalized \<in> terminal_reasons"
  by (auto simp: normalize_finish_reason_def terminal_reasons_def Let_def split: if_splits)

lemma finish_choice_cases:
  assumes "finish_choice index choice c = (Inr m, c')"
  obtains (continued) "m = bt_insert ''finish_reason'' JNull choice" "c' = c"
  | (ended) reason where "reason \<in> terminal_reasons" "m = bt_insert ''finish_reason'' (JString reason) choice"
      "index \<notin> cc_terminal_indices c" "c' = c\<lparr>cc_terminal_indices := insert index (cc_terminal_indices c)\<rparr>"
proof (cases "unwrap_or (map_of choice ''finish_reason'') JNull")
  case JNull
  then show thesis using assms continued by (simp add: finish_choice_def)
next
  case (JString reason)
  show thesis
  proof (cases "reason = []")
    case True
    then show thesis using assms JString continued by (simp add: finish_choice_def)
  next
    case False
    show thesis
    proof (cases "normalize_finish_reason c index reason")
      case (Inl e)
      then show thesis using assms JString False by (simp add: finish_choice_def)
    next
      case (Inr normalized)
      then show thesis
        using assms JString False ended [OF normalize_finish_reason_terminal [OF Inr]]
        by (cases "index \<in> cc_terminal_indices c") (simp_all add: finish_choice_def)
    qed
  qed
qed (use assms in \<open>simp_all add: finish_choice_def\<close>)

lemma observe_delta_fields [simp]:
  "known (observe_choice_delta index delta c) = known c" "cc_terminal_indices (observe_choice_delta index delta c) = cc_terminal_indices c"
  "same_identity c (observe_choice_delta index delta c)"
  by (simp_all add: observe_choice_delta_def known_def same_identity_def)

lemma same_identity_trans: "same_identity a b \<Longrightarrow> same_identity b c \<Longrightarrow> same_identity a c"
  by (simp add: same_identity_def)

lemma push_choice_emits:
  assumes "number_law ops" "push_choice ops position choice c = (Inr m, c')"
  shows "emits ops c [JObject m] c' \<and> same_identity c c'"
proof -
  obtain members index c1 delta where steps: "choice = JObject members" "assign_index ops position members c = Inr (index, c1)"
    "clean_delta members = Inr delta"
    "finish_choice index (bt_insert ''delta'' (JObject delta) (bt_insert ''index'' (JNumber (jo_number ops index)) members))
       (observe_choice_delta index delta c1) = (Inr m, c')"
    using assms(2) by (auto simp: push_choice_def split: json.splits sum.splits)
  note c1 = assign_index_spec [OF steps(2)]
  from steps(4) show ?thesis
  proof (cases rule: finish_choice_cases)
    case continued
    have "names_index ops index (JObject m)" "\<not> ends_choice (JObject m)" "reason_ok (JObject m)"
      by (auto simp: continued names_index_def ends_choice_def reason_ok_def map_of_bt_insert)
    then show ?thesis
      using c1 continued emits_one [OF assms(1), of index "JObject m" c' c] same_identity_trans [of c c1 c'] by (auto simp: subset_insertI)
  next
    case (ended reason)
    have "names_index ops index (JObject m)" "ends_choice (JObject m)" "reason_ok (JObject m)"
      using ended(1) by (auto simp: ended(2) names_index_def ends_choice_def reason_ok_def map_of_bt_insert)
    moreover have "same_identity c c'" using c1 by (simp add: ended(4) same_identity_def observe_choice_delta_def)
    moreover have "known c' = insert index (known c)" using c1 by (simp add: ended(4) known_def observe_choice_delta_def)
    ultimately show ?thesis
      using c1 ended(3,4) emits_one [OF assms(1), of index "JObject m" c' c] by auto
  qed
qed

lemma push_choices_emits:
  assumes "number_law ops" "push_choices ops position choices c = (Inr out, c')"
  shows "emits ops c out c' \<and> same_identity c c'"
  using assms(2)
proof (induction choices arbitrary: position c out)
  case Nil
  then show ?case by (auto simp: emits_none same_identity_def)
next
  case (Cons choice choices)
  obtain m c1 rest where steps: "push_choice ops position choice c = (Inr m, c1)"
    "push_choices ops (position + 1) choices c1 = (Inr rest, c')" "out = [JObject m] @ rest"
    using Cons.prems by (auto split: prod.splits sum.splits)
  note first = push_choice_emits [OF assms(1) steps(1)] and others = Cons.IH [OF steps(2)]
  show ?case
    unfolding steps(3) using first others by (meson emits_append same_identity_trans)
qed

definition stamped :: "'n json_ops \<Rightarrow> 'n chat_stream_canonicalizer \<Rightarrow> 'n json \<Rightarrow> bool" where
  "stamped ops c event =
    (json_get event ''id'' = Some (JString (cc_id c)) \<and> json_get event ''model'' = Some (JString (cc_model c))
     \<and> json_get event ''created'' = Some (JNumber (jo_number ops (cc_created c)))
     \<and> json_get event ''object'' = Some (JString ''chat.completion.chunk''))"

definition all_choices :: "'n json list \<Rightarrow> 'n json list" where
  "all_choices outs = concat (map chunk_choices outs)"

lemma all_choices_simps [simp]:
  "all_choices [] = []" "all_choices (e # es) = chunk_choices e @ all_choices es" "all_choices (xs @ ys) = all_choices xs @ all_choices ys"
  by (simp_all add: all_choices_def)

lemma stabilize_identity_spec:
  assumes "stabilize_identity ops members c = Inr c1"
  shows "cc_identity_locked c1 \<and> (cc_identity_locked c \<longrightarrow> same_identity c c1) \<and> known c1 = known c
    \<and> cc_terminal_indices c1 = cc_terminal_indices c"
  using assms by (cases "cc_identity_locked c") (auto simp: stabilize_identity_def bind_ok_Inr_iff known_def same_identity_def)

lemma take_usage_fields [simp]:
  "known (take_usage members c) = known c" "cc_terminal_indices (take_usage members c) = cc_terminal_indices c"
  "same_identity c (take_usage members c)"
  by (simp_all add: take_usage_def known_def same_identity_def split: option.split)

lemma stamp_spec:
  "stamped ops c (JObject (stamp ops c (bt_insert ''choices'' (JArray choices) members)))"
  "json_get (JObject (stamp ops c (bt_insert ''choices'' (JArray choices) members))) ''usage'' = None"
  "chunk_choices (JObject (stamp ops c (bt_insert ''choices'' (JArray choices) members))) = choices"
  by (simp_all add: stamped_def stamp_def chunk_choices_def map_of_bt_insert)

lemma stamped_same: "same_identity c c' \<Longrightarrow> stamped ops c' e = stamped ops c e"
  by (simp add: same_identity_def stamped_def)

lemma canonicalizer_push_spec:
  assumes "number_law ops" "canonicalizer_push ops event c = (Inr out, c')"
  shows "cc_identity_locked c' \<and> (cc_identity_locked c \<longrightarrow> same_identity c c') \<and> emits ops c (all_choices out) c'
    \<and> (\<forall>e\<in>set out. stamped ops c' e \<and> json_get e ''usage'' = None)"
proof -
  obtain members c1 where steps: "event = JObject members" "stabilize_identity ops members c = Inr c1"
    using assms(2) by (auto simp: canonicalizer_push_def split: json.splits sum.splits)
  let ?c2 = "take_usage members c1"
  obtain choices where choices: "unwrap_or (map_of members ''choices'') (JArray []) = JArray choices"
    using assms(2) steps by (auto simp: canonicalizer_push_def Let_def split: json.splits)
  have c2: "cc_identity_locked ?c2" "cc_identity_locked c \<Longrightarrow> same_identity c ?c2" "known ?c2 = known c"
    "cc_terminal_indices ?c2 = cc_terminal_indices c"
    using stabilize_identity_spec [OF steps(2)] take_usage_fields(3) [of c1 members] same_identity_trans
    by (auto simp: same_identity_def)
  show ?thesis
  proof (cases "choices = []")
    case True
    then have "out = []" "c' = ?c2" using assms(2) steps choices by (auto simp: canonicalizer_push_def Let_def)
    then show ?thesis using c2 by (simp add: emits_none)
  next
    case False
    obtain chs where pushed: "push_choices ops 0 choices ?c2 = (Inr chs, c')"
      and out: "out = [JObject (stamp ops c' (bt_insert ''choices'' (JArray chs) members))]"
      using assms(2) steps choices False by (auto simp: canonicalizer_push_def Let_def split: prod.splits sum.splits)
    have same: "same_identity ?c2 c'" and "emits ops ?c2 chs c'" using push_choices_emits [OF assms(1) pushed] by auto
    then have "emits ops c chs c'" using c2(3,4) by (simp add: emits_def)
    moreover have "cc_identity_locked c'" using same c2(1) by (simp add: same_identity_def)
    moreover have "cc_identity_locked c \<Longrightarrow> same_identity c c'" using same c2(2) same_identity_trans by blast
    ultimately show ?thesis unfolding out by (simp add: stamp_spec del: json_get.simps)
  qed
qed

lemma push_all_spec:
  assumes "number_law ops" "push_all ops events c = (Inr outs, c')"
  shows "(cc_identity_locked c \<longrightarrow> same_identity c c') \<and> emits ops c (all_choices outs) c'
    \<and> (\<forall>e\<in>set outs. stamped ops c' e \<and> json_get e ''usage'' = None)"
  using assms(2)
proof (induction events arbitrary: c outs)
  case Nil
  then show ?case by (auto simp: emits_none same_identity_def)
next
  case (Cons event events)
  obtain out c1 rest where steps: "canonicalizer_push ops event c = (Inr out, c1)" "push_all ops events c1 = (Inr rest, c')" "outs = out @ rest"
    using Cons.prems by (auto split: prod.splits sum.splits)
  note first = canonicalizer_push_spec [OF assms(1) steps(1)] and others = Cons.IH [OF steps(2)]
  have same: "same_identity c1 c'" using first others by blast
  have "emits ops c (all_choices outs) c'" unfolding steps(3) using first others emits_append by fastforce
  moreover have "\<forall>e\<in>set outs. stamped ops c' e \<and> json_get e ''usage'' = None"
    unfolding steps(3) using first others stamped_same [OF same] by auto
  moreover have "cc_identity_locked c \<longrightarrow> same_identity c c'" using first same same_identity_trans by blast
  ultimately show ?case by blast
qed

lemma collect_ok_all2: "collect_ok (map f xs) = Inr ys \<Longrightarrow> list_all2 (\<lambda>x y. f x = Inr y) xs ys"
proof (induction xs arbitrary: ys)
  case (Cons x xs)
  then show ?case by (cases "f x") (auto simp: bind_ok_Inr_iff)
qed simp

lemma missing_choice_spec:
  assumes "missing_choice ops c w = Inr ch"
  shows "names_index ops w ch \<and> ends_choice ch"
proof -
  obtain reason where "reason = ''tool_calls'' \<or> reason = ''stop''"
    "ch = JObject (json_object [(''index'', JNumber (jo_number ops w)), (''delta'', JObject []), (''finish_reason'', JString reason)])"
    using assms by (auto simp: missing_choice_def bind_ok_Inr_iff split: if_splits)
  then show ?thesis
    by (auto simp: names_index_def ends_choice_def json_object_def map_of_bt_insert terminal_reasons_def simp del: bt_insert.simps)
qed

lemma mark_terminals_spec:
  assumes "number_law ops" "list_all2 (\<lambda>w ch. names_index ops w ch \<and> ends_choice ch) ws chs" "distinct ws"
    "set ws \<inter> cc_terminal_indices c = {}"
  shows "\<exists>c'. mark_terminals ops chs c = (Inr (), c') \<and> emits ops c chs c' \<and> same_identity c c' \<and> known c' = known c
    \<and> cc_terminal_indices c' = cc_terminal_indices c \<union> set ws \<and> cc_usage c' = cc_usage c"
  using assms(2-4)
proof (induction ws chs arbitrary: c rule: list_all2_induct)
  case Nil
  then show ?case by (simp add: emits_none same_identity_def)
next
  case (Cons w ws ch chs)
  let ?c1 = "c\<lparr>cc_terminal_indices := insert w (cc_terminal_indices c)\<rparr>"
  have one: "emits ops c [ch] ?c1"
    by (rule emits_one [OF assms(1), of w]) (use Cons in \<open>auto simp: reason_ok_def known_def\<close>)
  obtain c' where rest: "mark_terminals ops chs ?c1 = (Inr (), c')" "emits ops ?c1 chs c'" "same_identity ?c1 c'" "known c' = known ?c1"
    "cc_terminal_indices c' = cc_terminal_indices ?c1 \<union> set ws" "cc_usage c' = cc_usage ?c1"
    using Cons.IH [of ?c1] Cons.prems by auto
  have "mark_terminals ops (ch # chs) c = (Inr (), c')"
    using Cons.hyps(1) rest(1) assms(1) by (simp add: names_index_def number_law_def)
  moreover have "emits ops c (ch # chs) c'" using emits_append [OF one rest(2)] by simp
  ultimately show ?case using rest(3-6) by (auto simp: same_identity_def known_def)
qed

lemma envelope_spec:
  "stamped ops c (JObject (envelope ops c choices))" "json_get (JObject (envelope ops c choices)) ''usage'' = None"
  "chunk_choices (JObject (envelope ops c choices)) = choices"
  "stamped ops c (JObject (bt_insert ''usage'' usage (envelope ops c choices)))"
  "chunk_choices (JObject (bt_insert ''usage'' usage (envelope ops c choices))) = choices"
  by (simp_all add: stamped_def envelope_def chunk_choices_def json_object_def map_of_bt_insert del: bt_insert.simps)

lemma known_finish_indices: "known c \<subseteq> set (finish_indices c)"
  by (force simp: known_def finish_indices_def map_filter_def)

lemma distinct_finish_indices: "distinct (finish_indices c)"
  by (simp add: finish_indices_def)

lemma finish_usage_spec:
  assumes "finish_usage ops c = (usage, c')"
  shows "all_choices usage = [] \<and> same_identity c c' \<and> known c' = known c \<and> cc_terminal_indices c' = cc_terminal_indices c
    \<and> length usage \<le> 1 \<and> (\<forall>e\<in>set usage. stamped ops c e \<and> chunk_choices e = [])"
  using assms by (auto simp: finish_usage_def envelope_spec same_identity_def known_def split: option.splits)

lemma canonicalizer_finish_spec:
  assumes law: "number_law ops" and fin: "canonicalizer_finish ops c = (Inr out, c')"
  shows "emits ops c (all_choices out) c' \<and> known c' \<subseteq> cc_terminal_indices c' \<and> (\<forall>e\<in>set out. stamped ops c e)
    \<and> (\<forall>e\<in>set (butlast out). json_get e ''usage'' = None) \<and> (\<forall>e\<in>set out. json_get e ''usage'' \<noteq> None \<longrightarrow> chunk_choices e = [])"
proof -
  let ?missing = "filter (\<lambda>i. i \<notin> cc_terminal_indices c) (finish_indices c)"
  show ?thesis
  proof (cases "?missing = []")
    case True
    then obtain usage where u: "finish_usage ops c = (usage, c')" "out = usage"
      using fin by (auto simp: canonicalizer_finish_def finish_inner_def Let_def split: prod.splits)
    note spec = finish_usage_spec [OF u(1)]
    have "known c' \<subseteq> cc_terminal_indices c'"
      using True known_finish_indices [of c] spec by (auto simp: filter_empty_conv)
    moreover have "butlast out = []" using spec u(2) by (cases usage) auto
    ultimately show ?thesis using spec u(2) by (auto simp: emits_none)
  next
    case False
    obtain chs c1 usage where steps: "collect_ok (map (missing_choice ops c) ?missing) = Inr chs"
      "mark_terminals ops chs c = (Inr (), c1)" "finish_usage ops c1 = (usage, c')" "out = JObject (envelope ops c1 chs) # usage"
      using fin False by (auto simp: canonicalizer_finish_def finish_inner_def Let_def split: prod.splits sum.splits)
    have built: "list_all2 (\<lambda>w ch. names_index ops w ch \<and> ends_choice ch) ?missing chs"
      using collect_ok_all2 [OF steps(1)] by (rule list_all2_mono) (rule missing_choice_spec)
    have "distinct ?missing" "set ?missing \<inter> cc_terminal_indices c = {}" using distinct_finish_indices [of c] by auto
    from mark_terminals_spec [OF law built this] have c1: "emits ops c chs c1" "same_identity c c1" "known c1 = known c"
      "cc_terminal_indices c1 = cc_terminal_indices c \<union> set ?missing"
      by (simp_all only: steps(2)) auto
    note spec = finish_usage_spec [OF steps(3)]
    have "emits ops c1 [] c'" using spec by (simp add: emits_none)
    then have "emits ops c (all_choices out) c'"
      using emits_append [OF c1(1), of "[]" c'] spec by (simp add: steps(4) envelope_spec)
    moreover have "known c' \<subseteq> cc_terminal_indices c'" using spec c1(3,4) known_finish_indices [of c] by auto
    moreover have "\<forall>e\<in>set out. stamped ops c e"
      using spec envelope_spec(1) [of ops c1 chs] unfolding stamped_same [OF c1(2)] by (simp add: steps(4))
    moreover have "\<forall>e\<in>set (butlast out). json_get e ''usage'' = None"
      using spec envelope_spec(2) by (cases usage) (auto simp: steps(4))
    moreover have "\<forall>e\<in>set out. json_get e ''usage'' \<noteq> None \<longrightarrow> chunk_choices e = []"
      using spec by (simp add: steps(4) envelope_spec(2) del: json_get.simps)
    ultimately show ?thesis by blast
  qed
qed

text \<open>
  C10. Whatever events a provider sends, a stream that the canonicalizer accepts conforms to the chat
  protocol: all chunks carry one identity, usage comes only in the last chunk, which has no choices,
  every finish reason is null or one of the four of the protocol, and every choice index that occurs
  is ended exactly once.
\<close>

theorem canonical_stream_conforms:
  assumes "number_law ops" and "canonical_stream ops events (canonicalizer_new stream_id model created) = Inr outs"
  shows "(\<exists>c. \<forall>e\<in>set outs. stamped ops c e)
    \<and> (\<forall>e\<in>set (butlast outs). json_get e ''usage'' = None)
    \<and> (\<forall>e\<in>set outs. json_get e ''usage'' \<noteq> None \<longrightarrow> chunk_choices e = [])
    \<and> (\<forall>ch\<in>set (all_choices outs). reason_ok ch \<and> (\<exists>w. names_index ops w ch))
    \<and> (\<forall>w. (\<exists>ch\<in>set (all_choices outs). names_index ops w ch) \<longrightarrow> end_count ops w (all_choices outs) = 1)"
proof -
  let ?c0 = "canonicalizer_new stream_id model created"
  obtain mid c1 final c2 where steps: "push_all ops events ?c0 = (Inr mid, c1)" "canonicalizer_finish ops c1 = (Inr final, c2)" "outs = mid @ final"
  proof -
    obtain r c1 where r: "push_all ops events ?c0 = (r, c1)" by fastforce
    then obtain mid where mid: "r = Inr mid" using assms(2) by (cases r) (simp_all add: canonical_stream_def)
    obtain r2 c2 where r2: "canonicalizer_finish ops c1 = (r2, c2)" by fastforce
    then show thesis
      using assms(2) r mid that [of mid c1 _ c2] by (cases r2) (simp_all add: canonical_stream_def)
  qed
  note pushed = push_all_spec [OF assms(1) steps(1)] and fin = canonicalizer_finish_spec [OF assms(1) steps(2)]
  have em: "emits ops ?c0 (all_choices outs) c2"
    unfolding steps(3) all_choices_simps(3) using emits_append pushed fin by blast
  have ended: "end_count ops w (all_choices outs) = 1"
    if named: "\<exists>ch\<in>set (all_choices outs). names_index ops w ch" for w
  proof -
    obtain ch v where "ch \<in> set (all_choices outs)" "names_index ops w ch" "v \<in> known c2 \<union> cc_terminal_indices c2" "names_index ops v ch"
      using named em unfolding emits_def by blast
    then have "w \<in> cc_terminal_indices c2" using fin names_index_unique [OF assms(1)] by blast
    then show ?thesis using em by (simp add: emits_def canonicalizer_new_def)
  qed
  have stamped: "\<forall>e\<in>set outs. stamped ops c1 e" using pushed fin by (simp add: steps(3) ball_Un)
  have last: "\<forall>e\<in>set (butlast outs). json_get e ''usage'' = None"
  proof (cases "final = []")
    case True
    then show ?thesis using pushed by (auto simp: steps(3) dest: in_set_butlastD)
  next
    case False
    then show ?thesis using pushed fin by (simp add: steps(3) butlast_append ball_Un)
  qed
  have empty: "\<forall>e\<in>set outs. json_get e ''usage'' \<noteq> None \<longrightarrow> chunk_choices e = []"
    using pushed fin by (simp add: steps(3) ball_Un)
  have "\<forall>ch\<in>set (all_choices outs). reason_ok ch \<and> (\<exists>w. names_index ops w ch)"
    using em unfolding emits_def by blast
  then show ?thesis using stamped last empty ended by blast
qed

definition word_ops :: "64 word json_ops" where
  "word_ops = \<lparr>jo_from_str = (\<lambda>_. None), jo_as_u64 = Some, jo_number = (\<lambda>w. w)\<rparr>"

definition sample_chunk :: "64 word json" where
  "sample_chunk = JObject [(''choices'', JArray [JObject [(''delta'', JObject [(''content'', JString ''hi'')])]]), (''id'', JString ''x'')]"

lemma sample_stream:
  "canonical_stream word_ops [sample_chunk] (canonicalizer_new ''s'' ''m'' 0)
    = Inr [JObject (stamp word_ops (canonicalizer_new ''x'' ''m'' 0) (bt_insert ''choices'' (JArray [JObject
              [(''delta'', JObject [(''content'', JString ''hi'')]), (''finish_reason'', JNull), (''index'', JNumber 0)]])
              [(''choices'', JArray [JObject [(''delta'', JObject [(''content'', JString ''hi'')])]]), (''id'', JString ''x'')])),
           JObject (envelope word_ops (canonicalizer_new ''x'' ''m'' 0)
              [JObject [(''delta'', JObject []), (''finish_reason'', JString ''stop''), (''index'', JNumber 0)]])]"
  by (simp add: canonical_stream_def sample_chunk_def canonicalizer_new_def canonicalizer_push_def stabilize_identity_def
      optional_string_def optional_u64_def take_usage_def filter_option_def push_choice_def assign_index_def nth_index_def
      set_index_def clean_delta_def drop_null_def observe_choice_delta_def non_empty_text_def is_some_and_def finish_choice_def
      canonicalizer_finish_def finish_inner_def finish_indices_def map_filter_def missing_choice_def json_object_def
      finish_usage_def word_ops_def stamp_def envelope_def Let_def)

theorem canonical_stream_conforms_witness:
  "\<exists>outs. canonical_stream word_ops [sample_chunk] (canonicalizer_new ''s'' ''m'' 0) = Inr outs \<and> length outs = 2
    \<and> (\<forall>w. (\<exists>ch\<in>set (all_choices outs). names_index word_ops w ch) \<longrightarrow> end_count word_ops w (all_choices outs) = 1)"
proof -
  have "number_law word_ops" by (simp add: number_law_def word_ops_def)
  from canonical_stream_conforms [OF this sample_stream] sample_stream show ?thesis by auto
qed

section \<open>Usage\<close>

definition usage_token_count :: "'n json_ops \<Rightarrow> 'n json \<Rightarrow> string \<Rightarrow> string \<Rightarrow> 64 word" where
  "usage_token_count ops usage primary fallback =
    unwrap_or (Option.bind (or_else (json_get usage primary) (json_get usage fallback)) (as_u64 ops)) 0"

definition word_saturating_add :: "64 word \<Rightarrow> 64 word \<Rightarrow> 64 word" where
  "word_saturating_add a b = (if unat a + unat b < 2 ^ 64 then a + b else - 1)"

definition usage_total_tokens :: "'n json_ops \<Rightarrow> 'n json \<Rightarrow> 64 word \<Rightarrow> 64 word \<Rightarrow> 64 word" where
  "usage_total_tokens ops usage left right =
    unwrap_or (Option.bind (json_get usage ''total_tokens'') (as_u64 ops)) (word_saturating_add left right)"

definition ensure_usage_detail :: "'n json_ops \<Rightarrow> string \<Rightarrow> string \<Rightarrow> 'n json_map \<Rightarrow> 'n json_map" where
  "ensure_usage_detail ops details_field required_field usage =
    (let details = unwrap_or (Option.bind (map_of usage details_field) as_object) [];
         details' = (if Option.bind (map_of details required_field) (as_u64 ops) = None
                     then bt_insert required_field (JNumber (jo_number ops 0)) details else details)
     in bt_insert details_field (JObject details') usage)"

definition normalize_responses_usage_details :: "'n json_ops \<Rightarrow> 'n json \<Rightarrow> 'n json" where
  "normalize_responses_usage_details ops usage =
    (case usage of
       JObject members \<Rightarrow>
         JObject (ensure_usage_detail ops ''output_tokens_details'' ''reasoning_tokens''
           (ensure_usage_detail ops ''input_tokens_details'' ''cached_tokens'' members))
     | _ \<Rightarrow> usage)"

definition chat_usage_to_responses_usage :: "'n json_ops \<Rightarrow> 'n json \<Rightarrow> 'n json" where
  "chat_usage_to_responses_usage ops usage =
    (let input_tokens = usage_token_count ops usage ''prompt_tokens'' ''input_tokens'';
         output_tokens = usage_token_count ops usage ''completion_tokens'' ''output_tokens'';
         m = json_object [(''input_tokens'', JNumber (jo_number ops input_tokens)), (''output_tokens'', JNumber (jo_number ops output_tokens)),
               (''total_tokens'', JNumber (jo_number ops (usage_total_tokens ops usage input_tokens output_tokens)))];
         m1 = insert_optional ''input_tokens_details''
                (or_else (json_get usage ''input_tokens_details'') (json_get usage ''prompt_tokens_details'')) m;
         m2 = insert_optional ''output_tokens_details''
                (or_else (json_get usage ''output_tokens_details'') (json_get usage ''completion_tokens_details'')) m1
     in normalize_responses_usage_details ops (JObject m2))"

definition responses_usage_to_chat_usage :: "'n json_ops \<Rightarrow> 'n json \<Rightarrow> 'n json" where
  "responses_usage_to_chat_usage ops usage =
    (let prompt_tokens = usage_token_count ops usage ''input_tokens'' ''prompt_tokens'';
         completion_tokens = usage_token_count ops usage ''output_tokens'' ''completion_tokens'';
         m = json_object [(''prompt_tokens'', JNumber (jo_number ops prompt_tokens)), (''completion_tokens'', JNumber (jo_number ops completion_tokens)),
               (''total_tokens'', JNumber (jo_number ops (usage_total_tokens ops usage prompt_tokens completion_tokens)))];
         m1 = insert_optional ''prompt_tokens_details''
                (or_else (json_get usage ''prompt_tokens_details'') (json_get usage ''input_tokens_details'')) m;
         m2 = insert_optional ''completion_tokens_details''
                (or_else (json_get usage ''completion_tokens_details'') (json_get usage ''output_tokens_details'')) m1
     in JObject m2)"

lemma map_of_insert_optional_if:
  "map_of (insert_optional field v m) k = (if k = field \<and> v \<noteq> None then v else map_of m k)"
  by (auto simp: insert_optional_def map_of_bt_insert split: option.split)

lemma map_of_ensure:
  "k \<noteq> details_field \<Longrightarrow> map_of (ensure_usage_detail ops details_field required_field usage) k = map_of usage k"
  by (simp add: ensure_usage_detail_def Let_def map_of_bt_insert)

lemma map_of_json_object3:
  "map_of (json_object [(a, x), (b, y), (d, z)]) k = (if k = d then Some z else if k = b then Some y else if k = a then Some x else None)"
  by (simp add: json_object_def map_of_bt_insert)

text \<open>The counts a usage object is read with, by the names of either protocol.\<close>

definition token_counts :: "'n json_ops \<Rightarrow> 'n json \<Rightarrow> 64 word \<times> 64 word \<times> 64 word" where
  "token_counts ops usage =
    (let input_tokens = usage_token_count ops usage ''prompt_tokens'' ''input_tokens'';
         output_tokens = usage_token_count ops usage ''completion_tokens'' ''output_tokens''
     in (input_tokens, output_tokens, usage_total_tokens ops usage input_tokens output_tokens))"

lemma responses_usage_fields:
  "json_get (chat_usage_to_responses_usage ops usage) ''input_tokens'' = Some (JNumber (jo_number ops (fst (token_counts ops usage))))"
  "json_get (chat_usage_to_responses_usage ops usage) ''output_tokens'' = Some (JNumber (jo_number ops (fst (snd (token_counts ops usage)))))"
  "json_get (chat_usage_to_responses_usage ops usage) ''total_tokens'' = Some (JNumber (jo_number ops (snd (snd (token_counts ops usage)))))"
  "json_get (chat_usage_to_responses_usage ops usage) ''prompt_tokens'' = None"
  "json_get (chat_usage_to_responses_usage ops usage) ''completion_tokens'' = None"
  by (simp_all add: chat_usage_to_responses_usage_def Let_def normalize_responses_usage_details_def map_of_ensure
      map_of_insert_optional_if map_of_json_object3 token_counts_def)

lemma chat_usage_fields:
  "json_get (responses_usage_to_chat_usage ops usage) ''prompt_tokens'' = Some (JNumber (jo_number ops (usage_token_count ops usage ''input_tokens'' ''prompt_tokens'')))"
  "json_get (responses_usage_to_chat_usage ops usage) ''completion_tokens'' = Some (JNumber (jo_number ops (usage_token_count ops usage ''output_tokens'' ''completion_tokens'')))"
  "json_get (responses_usage_to_chat_usage ops usage) ''total_tokens'' = Some (JNumber (jo_number ops
      (usage_total_tokens ops usage (usage_token_count ops usage ''input_tokens'' ''prompt_tokens'') (usage_token_count ops usage ''output_tokens'' ''completion_tokens''))))"
  by (simp_all add: responses_usage_to_chat_usage_def Let_def map_of_insert_optional_if map_of_json_object3)

text \<open>
  Converting a usage object of either protocol to the responses protocol and back to chat keeps the
  counts of input, output and total tokens, and the responses form always has the detail objects
  its clients require, with a number in the required field.
\<close>

theorem usage_roundtrip:
  assumes "number_law ops"
  shows "token_counts ops (responses_usage_to_chat_usage ops (chat_usage_to_responses_usage ops usage)) = token_counts ops usage
    \<and> (\<exists>details. json_get (chat_usage_to_responses_usage ops usage) ''input_tokens_details'' = Some (JObject details)
         \<and> Option.bind (map_of details ''cached_tokens'') (as_u64 ops) \<noteq> None)
    \<and> (\<exists>details. json_get (chat_usage_to_responses_usage ops usage) ''output_tokens_details'' = Some (JObject details)
         \<and> Option.bind (map_of details ''reasoning_tokens'') (as_u64 ops) \<noteq> None)"
proof -
  have law: "jo_as_u64 ops (jo_number ops w) = Some w" for w using assms by (simp add: number_law_def)
  let ?r = "chat_usage_to_responses_usage ops usage"
  have read: "usage_token_count ops ?r ''input_tokens'' ''prompt_tokens'' = fst (token_counts ops usage)"
    "usage_token_count ops ?r ''output_tokens'' ''completion_tokens'' = fst (snd (token_counts ops usage))"
    "usage_total_tokens ops ?r a b = snd (snd (token_counts ops usage))" for a b
    by (simp_all add: usage_token_count_def usage_total_tokens_def responses_usage_fields or_else_def law del: json_get.simps)
  have "token_counts ops (responses_usage_to_chat_usage ops ?r) = token_counts ops usage"
    unfolding token_counts_def [of ops "responses_usage_to_chat_usage ops ?r"] Let_def
    by (simp add: usage_token_count_def [of ops "responses_usage_to_chat_usage ops ?r"]
        usage_total_tokens_def [of ops "responses_usage_to_chat_usage ops ?r"] chat_usage_fields read or_else_def law del: json_get.simps)
  moreover have "\<exists>details. map_of (ensure_usage_detail ops f req m) f = Some (JObject details)
      \<and> Option.bind (map_of details req) (as_u64 ops) \<noteq> None" for f req m
    by (simp add: ensure_usage_detail_def Let_def map_of_bt_insert law)
  ultimately show ?thesis
    by (simp add: chat_usage_to_responses_usage_def Let_def normalize_responses_usage_details_def map_of_ensure)
qed

theorem usage_roundtrip_witness:
  "token_counts word_ops (responses_usage_to_chat_usage word_ops (chat_usage_to_responses_usage word_ops
      (JObject [(''completion_tokens'', JNumber 3), (''prompt_tokens'', JNumber 4)]))) = (4, 3, 7)"
proof -
  have "number_law word_ops" by (simp add: number_law_def word_ops_def)
  from usage_roundtrip [OF this, of "JObject [(''completion_tokens'', JNumber 3), (''prompt_tokens'', JNumber 4)]"] show ?thesis
    by (simp add: token_counts_def usage_token_count_def usage_total_tokens_def word_ops_def or_else_def word_saturating_add_def)
qed

end
