(* ===== verification/Tool_Arguments.thy ===== *)
theory Tool_Arguments
  imports Stream_Aggregate
begin

text \<open>
  The arguments of tool calls (\<open>src/src/protocol.rs\<close>): their normalisation before a request crosses a
  protocol boundary, and the accumulation of streamed fragments. The \<open>serde_json\<close> library is given by
  arguments: the values a text holds one after the other, up to the first error, and the text of a
  value. The log events are left out.
\<close>

datatype tool_arguments_repair_reason = TrailingData | Unparseable

definition repair_reason_as_str :: "tool_arguments_repair_reason \<Rightarrow> string" where
  "repair_reason_as_str reason = (case reason of TrailingData \<Rightarrow> ''trailing_data'' | Unparseable \<Rightarrow> ''unparseable'')"




section \<open>Accumulating fragments\<close>

datatype tool_call_arguments_merge = Appended | ReplacedCompleteThenNew

definition opens_value :: "string \<Rightarrow> bool" where
  "opens_value fragment = (fragment \<noteq> [] \<and> hd fragment \<in> {CHR ''{'', CHR ''['', CHR 0x22})"

definition merge_tool_call_arguments ::
  "(string \<Rightarrow> 'n json option) \<Rightarrow> bool \<Rightarrow> string \<Rightarrow> string \<Rightarrow> tool_call_arguments_merge \<times> string" where
  "merge_tool_call_arguments from_str strict arguments fragment =
    (if strict \<and> arguments \<noteq> [] \<and> from_str arguments \<noteq> None \<and> opens_value fragment
     then (ReplacedCompleteThenNew, fragment)
     else (Appended, arguments @ fragment))"

definition merge_fragments :: "(string \<Rightarrow> 'n json option) \<Rightarrow> bool \<Rightarrow> string list \<Rightarrow> string" where
  "merge_fragments from_str strict fragments =
    fold (\<lambda>fragment arguments. snd (merge_tool_call_arguments from_str strict arguments fragment)) fragments []"

section \<open>Properties\<close>














text \<open>Fragments that continue one value are appended; a complete value before a fresh one is replaced by it.\<close>

lemma merge_fragments_append:
  "merge_fragments from_str strict (fragments @ [fragment])
    = snd (merge_tool_call_arguments from_str strict (merge_fragments from_str strict fragments) fragment)"
  by (simp add: merge_fragments_def)

lemma incremental_fragments_appended:
  assumes "\<And>n. n < length fragments \<Longrightarrow> concat (take n fragments) = [] \<or> from_str (concat (take n fragments)) = None"
  shows "merge_fragments from_str strict fragments = concat fragments"
  using assms
proof (induction fragments rule: rev_induct)
  case Nil
  then show ?case by (simp add: merge_fragments_def)
next
  case (snoc fragment fragments)
  have "merge_fragments from_str strict fragments = concat fragments"
    using snoc.prems by (intro snoc.IH) (metis Suc_less_eq length_append_singleton less_SucI take_append diff_is_0_eq append.right_neutral less_imp_le take0)
  moreover have "concat fragments = [] \<or> from_str (concat fragments) = None" using snoc.prems [of "length fragments"] by simp
  ultimately show ?case by (auto simp: merge_fragments_append merge_tool_call_arguments_def)
qed

text \<open>
  Whatever fragments a provider streams for a tool call, what is accumulated is the concatenation of
  the last of them: in strict mode it starts over exactly when a complete value is followed by a
  fragment that opens a new one, and without strict mode every fragment is kept.
\<close>

theorem merged_arguments_spec:
  "(\<exists>earlier latest. fragments = earlier @ latest \<and> merge_fragments from_str strict fragments = concat latest
      \<and> (earlier \<noteq> [] \<longrightarrow> strict \<and> from_str (merge_fragments from_str strict earlier) \<noteq> None \<and> latest \<noteq> [] \<and> opens_value (hd latest)))
   \<and> (\<not> strict \<longrightarrow> merge_fragments from_str strict fragments = concat fragments)"
proof (induction fragments rule: rev_induct)
  case Nil
  then show ?case by (simp add: merge_fragments_def)
next
  case (snoc fragment fragments)
  let ?m = "merge_fragments from_str strict fragments"
  show ?case
  proof (cases "strict \<and> ?m \<noteq> [] \<and> from_str ?m \<noteq> None \<and> opens_value fragment")
    case True
    then show ?thesis
      by (intro conjI exI [of _ fragments] exI [of _ "[fragment]"]) (auto simp: merge_fragments_append merge_tool_call_arguments_def)
  next
    case False
    then have m: "merge_fragments from_str strict (fragments @ [fragment]) = ?m @ fragment"
      by (auto simp: merge_fragments_append merge_tool_call_arguments_def)
    obtain earlier latest where el: "fragments = earlier @ latest" "?m = concat latest"
      "earlier \<noteq> [] \<longrightarrow> strict \<and> from_str (merge_fragments from_str strict earlier) \<noteq> None \<and> latest \<noteq> [] \<and> opens_value (hd latest)"
      using snoc by blast
    have "\<not> strict \<longrightarrow> ?m @ fragment = concat (fragments @ [fragment])" using snoc by simp
    then show ?thesis
      unfolding m using el by (intro conjI exI [of _ earlier] exI [of _ "latest @ [fragment]"]) (auto simp: hd_append)
  qed
qed

end
