(* ===== verification/Upstream_Leases.thy ===== *)
theory Upstream_Leases
  imports Account_Concurrency Rust_Strings
begin

text \<open>
  The process-local gate in front of an upstream (\<open>src/src/state.rs\<close>): the table of leases held per
  account, the request quotas of an upstream, reserving, hedging, renewing and releasing a slot,
  and the bounded queue of requests that wait for one. The instants a method reads are arguments,
  as are the UUIDs it draws. Every request costs one quota unit, so sums of costs are naturals.
\<close>

section \<open>The lease table\<close>

datatype upstream_lease_kind = Streaming | Unary

record upstream_lease_record =
  lr_expires_at :: instant
  lr_last_renewed_at :: instant
  lr_reserved_at :: instant
  lr_kind :: upstream_lease_kind

definition lease_record_new :: "instant \<Rightarrow> duration \<Rightarrow> upstream_lease_kind \<Rightarrow> upstream_lease_record" where
  "lease_record_new now ttl kind =
    \<lparr>lr_expires_at = now + ttl, lr_last_renewed_at = now, lr_reserved_at = now, lr_kind = kind\<rparr>"

datatype stream_decode_counter = SseBadFrameSkipped | SseParseError | TransportDecodeError

type_synonym account_leases = "(string, upstream_lease_record) hashmap"

record upstream_lease_table =
  lt_leases :: "(account_concurrency_key, account_leases) hashmap"
  lt_hold_samples :: "(account_concurrency_key, duration list) hashmap"
  lt_leaked_reclaimed_total :: "(string, nat) hashmap"
  lt_stale_reclaimed_total :: "(string, nat) hashmap"
  lt_capacity_reject_total :: "(string, nat) hashmap"
  lt_sse_bad_frame_skipped_total :: "(string, nat) hashmap"
  lt_sse_parse_error_total :: "(string, nat) hashmap"
  lt_transport_decode_error_total :: "(string, nat) hashmap"

definition lease_table_default :: upstream_lease_table where
  "lease_table_default = \<lparr>lt_leases = [], lt_hold_samples = [], lt_leaked_reclaimed_total = [],
     lt_stale_reclaimed_total = [], lt_capacity_reject_total = [], lt_sse_bad_frame_skipped_total = [],
     lt_sse_parse_error_total = [], lt_transport_decode_error_total = []\<rparr>"

definition lease_hold_sample_size :: nat where "lease_hold_sample_size = 32"

definition add_count :: "string \<Rightarrow> nat \<Rightarrow> (string, nat) hashmap \<Rightarrow> (string, nat) hashmap" where
  "add_count k n m = AList.update k (hm_entry_or k 0 m + n) m"

definition account_leases_of :: "upstream_lease_table \<Rightarrow> account_concurrency_key \<Rightarrow> account_leases" where
  "account_leases_of t account = unwrap_or (map_of (lt_leases t) account) []"

definition account_lease_count :: "upstream_lease_table \<Rightarrow> account_concurrency_key \<Rightarrow> nat" where
  "account_lease_count t account = length (account_leases_of t account)"

definition of_upstream :: "string \<Rightarrow> (account_concurrency_key, 'v) hashmap \<Rightarrow> 'v list" where
  "of_upstream upstream_id m = map snd (filter (\<lambda>(account, _). aq_upstream_id account = upstream_id) m)"

definition account_lease_count_for_upstream :: "upstream_lease_table \<Rightarrow> string \<Rightarrow> nat" where
  "account_lease_count_for_upstream t upstream_id = sum_list (map length (of_upstream upstream_id (lt_leases t)))"

definition is_stale :: "duration \<Rightarrow> instant \<Rightarrow> upstream_lease_record \<Rightarrow> bool" where
  "is_stale stale_after now record = (saturating_duration_since now (lr_last_renewed_at record) > stale_after)"

definition account_stale_lease_count ::
  "upstream_lease_table \<Rightarrow> account_concurrency_key \<Rightarrow> duration \<Rightarrow> instant \<Rightarrow> nat" where
  "account_stale_lease_count t account stale_after now =
    length (filter (\<lambda>(_, record). is_stale stale_after now record) (account_leases_of t account))"

definition upstream_stale_lease_count :: "upstream_lease_table \<Rightarrow> string \<Rightarrow> duration \<Rightarrow> instant \<Rightarrow> nat" where
  "upstream_stale_lease_count t upstream_id stale_after now =
    sum_list (map (\<lambda>leases. length (filter (\<lambda>(_, record). is_stale stale_after now record) leases))
      (of_upstream upstream_id (lt_leases t)))"

definition max_or_zero :: "nat list \<Rightarrow> nat" where
  "max_or_zero xs = foldr max xs 0"

definition upstream_oldest_lease_age_seconds :: "upstream_lease_table \<Rightarrow> string \<Rightarrow> instant \<Rightarrow> nat" where
  "upstream_oldest_lease_age_seconds t upstream_id now =
    max_or_zero (map (\<lambda>(_, record). as_secs (saturating_duration_since now (lr_last_renewed_at record)))
      (concat (of_upstream upstream_id (lt_leases t))))"

definition reset_selects :: "string \<Rightarrow> string option \<Rightarrow> account_concurrency_key \<Rightarrow> bool" where
  "reset_selects upstream_id key_fingerprint account =
    (aq_upstream_id account = upstream_id \<and> \<not> is_some_and key_fingerprint (\<lambda>fp. fp \<noteq> aq_key_fingerprint account))"

definition remove_leases_for_upstream ::
  "string \<Rightarrow> string option \<Rightarrow> upstream_lease_table \<Rightarrow> nat \<times> upstream_lease_table" where
  "remove_leases_for_upstream upstream_id key_fingerprint t =
    (sum_list (map (\<lambda>(_, leases). length leases)
       (filter (\<lambda>(account, _). reset_selects upstream_id key_fingerprint account) (lt_leases t))),
     t\<lparr>lt_leases := hm_retain (\<lambda>account _. \<not> reset_selects upstream_id key_fingerprint account) (lt_leases t)\<rparr>)"

definition table_insert ::
  "account_concurrency_key \<Rightarrow> string \<Rightarrow> upstream_lease_record \<Rightarrow> upstream_lease_table \<Rightarrow> upstream_lease_table" where
  "table_insert account lease_id record t =
    t\<lparr>lt_leases := AList.update account (AList.update lease_id record (account_leases_of t account)) (lt_leases t)\<rparr>"

definition push_sample :: "duration \<Rightarrow> duration list \<Rightarrow> duration list" where
  "push_sample hold samples = (if length samples \<ge> lease_hold_sample_size then tl samples else samples) @ [hold]"

definition table_remove ::
  "account_concurrency_key \<Rightarrow> string \<Rightarrow> instant \<Rightarrow> upstream_lease_table \<Rightarrow> bool \<times> upstream_lease_table" where
  "table_remove account lease_id now t =
    (case map_of (account_leases_of t account) lease_id of
       None \<Rightarrow> (False, t)
     | Some record \<Rightarrow>
         let rest = AList.delete lease_id (account_leases_of t account);
             hold = saturating_duration_since now (lr_reserved_at record);
             samples = push_sample hold (hm_entry_or account [] (lt_hold_samples t))
         in (True, t\<lparr>lt_hold_samples := AList.update account samples (lt_hold_samples t),
               lt_leases := (if rest = [] then AList.delete account (lt_leases t)
                             else AList.update account rest (lt_leases t))\<rparr>))"

text \<open>
  The percentiles. The index of the 95th percentile is \<open>ceil(0.95 n)\<close>, computed in floating point; the
  nearest double of 0.95 is so close that the product rounds to the exact value whenever that is
  an integer, so the ceiling is the exact one.
\<close>

definition hold_p50_seconds :: "upstream_lease_table \<Rightarrow> account_concurrency_key \<Rightarrow> nat option" where
  "hold_p50_seconds t account =
    Option.bind (map_of (lt_hold_samples t) account) (\<lambda>samples.
      if length samples < 2 then None else Some (as_secs (sort samples ! (length samples div 2))))"

definition p95_index :: "nat \<Rightarrow> nat" where
  "p95_index n = min ((95 * n + 99) div 100 - 1) (n - 1)"

definition p50_index :: "nat \<Rightarrow> nat" where
  "p50_index n = min ((n + 1) div 2 - 1) (n - 1)"

definition hold_p95_seconds :: "upstream_lease_table \<Rightarrow> account_concurrency_key \<Rightarrow> nat option" where
  "hold_p95_seconds t account =
    Option.bind (map_of (lt_hold_samples t) account) (\<lambda>samples.
      if length samples < 2 then None else Some (as_secs (sort samples ! p95_index (length samples))))"

definition upstream_hold_ms :: "(nat \<Rightarrow> nat) \<Rightarrow> upstream_lease_table \<Rightarrow> string \<Rightarrow> nat option" where
  "upstream_hold_ms index t upstream_id =
    (let holds = concat (of_upstream upstream_id (lt_hold_samples t))
     in if length holds < 2 then None else Some (min (as_millis (sort holds ! index (length holds))) u64_max))"

definition upstream_hold_p50_ms :: "upstream_lease_table \<Rightarrow> string \<Rightarrow> nat option" where
  "upstream_hold_p50_ms = upstream_hold_ms p50_index"

definition upstream_hold_p95_ms :: "upstream_lease_table \<Rightarrow> string \<Rightarrow> nat option" where
  "upstream_hold_p95_ms = upstream_hold_ms p95_index"

definition capacity_reject_total :: "upstream_lease_table \<Rightarrow> string \<Rightarrow> nat" where
  "capacity_reject_total t upstream_id = unwrap_or (map_of (lt_capacity_reject_total t) upstream_id) 0"

fun record_stream_counter :: "string \<Rightarrow> stream_decode_counter \<Rightarrow> upstream_lease_table \<Rightarrow> upstream_lease_table" where
  "record_stream_counter upstream_id SseBadFrameSkipped t =
    t\<lparr>lt_sse_bad_frame_skipped_total := add_count upstream_id 1 (lt_sse_bad_frame_skipped_total t)\<rparr>"
| "record_stream_counter upstream_id SseParseError t =
    t\<lparr>lt_sse_parse_error_total := add_count upstream_id 1 (lt_sse_parse_error_total t)\<rparr>"
| "record_stream_counter upstream_id TransportDecodeError t =
    t\<lparr>lt_transport_decode_error_total := add_count upstream_id 1 (lt_transport_decode_error_total t)\<rparr>"

fun stream_counter_total :: "stream_decode_counter \<Rightarrow> upstream_lease_table \<Rightarrow> string \<Rightarrow> nat" where
  "stream_counter_total SseBadFrameSkipped t upstream_id = unwrap_or (map_of (lt_sse_bad_frame_skipped_total t) upstream_id) 0"
| "stream_counter_total SseParseError t upstream_id = unwrap_or (map_of (lt_sse_parse_error_total t) upstream_id) 0"
| "stream_counter_total TransportDecodeError t upstream_id = unwrap_or (map_of (lt_transport_decode_error_total t) upstream_id) 0"

definition oldest_held_seconds :: "upstream_lease_table \<Rightarrow> account_concurrency_key \<Rightarrow> instant \<Rightarrow> nat" where
  "oldest_held_seconds t account now =
    max_or_zero (map (\<lambda>(_, record). as_secs (saturating_duration_since now (lr_reserved_at record)))
      (account_leases_of t account))"

definition modify_lease ::
  "account_concurrency_key \<Rightarrow> string \<Rightarrow> (upstream_lease_record \<Rightarrow> upstream_lease_record) \<Rightarrow> upstream_lease_table \<Rightarrow> upstream_lease_table" where
  "modify_lease account lease_id f t = t\<lparr>lt_leases := hm_modify account (hm_modify lease_id f) (lt_leases t)\<rparr>"

definition table_renew ::
  "account_concurrency_key \<Rightarrow> string \<Rightarrow> instant \<Rightarrow> duration \<Rightarrow> upstream_lease_table \<Rightarrow> upstream_lease_table" where
  "table_renew account lease_id now ttl =
    modify_lease account lease_id (\<lambda>record. record\<lparr>lr_expires_at := now + ttl, lr_last_renewed_at := now\<rparr>)"

definition mark_streaming :: "account_concurrency_key \<Rightarrow> string \<Rightarrow> upstream_lease_table \<Rightarrow> bool \<times> upstream_lease_table" where
  "mark_streaming account lease_id t =
    (hm_contains (account_leases_of t account) lease_id,
     modify_lease account lease_id (\<lambda>record. record\<lparr>lr_kind := Streaming\<rparr>) t)"

definition table_remove_upstream :: "string \<Rightarrow> upstream_lease_table \<Rightarrow> upstream_lease_table" where
  "table_remove_upstream upstream_id t =
    t\<lparr>lt_leases := hm_retain (\<lambda>account _. aq_upstream_id account \<noteq> upstream_id) (lt_leases t),
      lt_leaked_reclaimed_total := AList.delete upstream_id (lt_leaked_reclaimed_total t),
      lt_stale_reclaimed_total := AList.delete upstream_id (lt_stale_reclaimed_total t)\<rparr>"

section \<open>Reclaiming leases\<close>

record lease_config =
  lc_stale_after_ms :: nat
  lc_lease_ttl_seconds :: nat
  lc_probe_delays_ms :: "nat list"

definition stale_after :: "lease_config \<Rightarrow> duration" where
  "stale_after c = from_millis (max (lc_stale_after_ms c) 1)"

definition lease_ttl :: "lease_config \<Rightarrow> duration" where
  "lease_ttl c = from_secs (max (lc_lease_ttl_seconds c) 1)"

definition has_expired :: "instant \<Rightarrow> upstream_lease_record \<Rightarrow> bool" where
  "has_expired now record = (lr_expires_at record \<le> now)"

definition lease_live :: "lease_config \<Rightarrow> instant \<Rightarrow> upstream_lease_record \<Rightarrow> bool" where
  "lease_live c now record = (\<not> has_expired now record \<and> \<not> is_stale (stale_after c) now record)"

definition sweep_account ::
  "lease_config \<Rightarrow> instant \<Rightarrow> account_leases \<Rightarrow> nat \<times> nat \<times> account_leases" where
  "sweep_account c now leases =
    (length (filter (\<lambda>(_, record). has_expired now record) leases),
     length (filter (\<lambda>(_, record). \<not> has_expired now record \<and> is_stale (stale_after c) now record) leases),
     filter (\<lambda>(_, record). lease_live c now record) leases)"

definition count_reclaimed :: "string \<Rightarrow> nat \<Rightarrow> (string, nat) hashmap \<Rightarrow> (string, nat) hashmap" where
  "count_reclaimed upstream_id n m = (if n = 0 then m else add_count upstream_id n m)"

fun sweep_accounts ::
  "lease_config \<Rightarrow> instant \<Rightarrow> (account_concurrency_key \<times> account_leases) list
   \<Rightarrow> nat \<times> (string, nat) hashmap \<times> (string, nat) hashmap
   \<Rightarrow> (account_concurrency_key \<times> account_leases) list \<times> nat \<times> (string, nat) hashmap \<times> (string, nat) hashmap" where
  "sweep_accounts c now [] counts = ([], counts)"
| "sweep_accounts c now ((account, leases) # rest) (reclaimed, leaked, stale) =
    (let (expired, stalled, kept) = sweep_account c now leases;
         (swept, counts) = sweep_accounts c now rest
           (reclaimed + expired + stalled, count_reclaimed (aq_upstream_id account) expired leaked,
            count_reclaimed (aq_upstream_id account) stalled stale)
     in ((account, kept) # swept, counts))"

definition prune_expired_upstream_leases ::
  "lease_config \<Rightarrow> instant \<Rightarrow> upstream_lease_table \<Rightarrow> nat \<times> upstream_lease_table" where
  "prune_expired_upstream_leases c now t =
    (let (swept, reclaimed, leaked, stale) =
           sweep_accounts c now (lt_leases t) (0, lt_leaked_reclaimed_total t, lt_stale_reclaimed_total t)
     in (reclaimed, t\<lparr>lt_leases := filter (\<lambda>(_, leases). leases \<noteq> []) swept,
           lt_leaked_reclaimed_total := leaked, lt_stale_reclaimed_total := stale\<rparr>))"

definition estimate_local_concurrency_retry_after_seconds ::
  "lease_config \<Rightarrow> upstream_lease_table \<Rightarrow> account_concurrency_key \<Rightarrow> instant \<Rightarrow> nat" where
  "estimate_local_concurrency_retry_after_seconds c t account now =
    (let probe_delay_secs = (case lc_probe_delays_ms c of [] \<Rightarrow> 1 | ms # _ \<Rightarrow> max (ms div 1000) 1) in
     case hold_p50_seconds t account of
       None \<Rightarrow> probe_delay_secs
     | Some p50_hold \<Rightarrow> max (max (p50_hold - oldest_held_seconds t account now) probe_delay_secs) 1)"

section \<open>Request quotas\<close>

record quota_event =
  qe_created_at :: nat
  qe_cost :: nat

record upstream_runtime_state =
  us_minute_events :: "quota_event list"
  us_five_hour_events :: "quota_event list"
  us_cooldown_until :: nat
  us_last_feedback_type :: "string option"
  us_last_retry_after_seconds :: "nat option"

definition runtime_state_default :: upstream_runtime_state where
  "runtime_state_default = \<lparr>us_minute_events = [], us_five_hour_events = [], us_cooldown_until = 0,
     us_last_feedback_type = None, us_last_retry_after_seconds = None\<rparr>"

definition quota_event_cost :: "quota_event list \<Rightarrow> nat" where
  "quota_event_cost events = sum_list (map qe_cost events)"

definition prune_quota_events :: "nat \<Rightarrow> nat \<Rightarrow> quota_event list \<Rightarrow> quota_event list" where
  "prune_quota_events now window_seconds events =
    dropWhile (\<lambda>event. qe_created_at event < now - (window_seconds - 1)) events"

record upstream_limits =
  ul_id :: string
  ul_max_concurrency :: nat
  ul_requests_per_minute :: nat
  ul_request_quota_requests :: nat
  ul_request_quota_window_hours :: nat

definition request_quota_window_seconds :: "upstream_limits \<Rightarrow> nat" where
  "request_quota_window_seconds u = max (ul_request_quota_window_hours u) 1 * (60 * 60)"

definition slot_cap :: "upstream_limits \<Rightarrow> nat" where
  "slot_cap u = max (ul_max_concurrency u) 1"

definition prune_quotas :: "upstream_limits \<Rightarrow> nat \<Rightarrow> upstream_runtime_state \<Rightarrow> upstream_runtime_state" where
  "prune_quotas u now s =
    s\<lparr>us_minute_events := prune_quota_events now 60 (us_minute_events s),
      us_five_hour_events := prune_quota_events now (request_quota_window_seconds u) (us_five_hour_events s)\<rparr>"

definition push_quota :: "nat \<Rightarrow> upstream_runtime_state \<Rightarrow> upstream_runtime_state" where
  "push_quota now s =
    (let event = \<lparr>qe_created_at = now, qe_cost = 1\<rparr>
     in s\<lparr>us_minute_events := us_minute_events s @ [event], us_five_hour_events := us_five_hour_events s @ [event]\<rparr>)"

section \<open>The gate of an upstream\<close>

record upstream_gate =
  ug_runtime :: "(string, upstream_runtime_state) hashmap"
  ug_table :: upstream_lease_table
  ug_waiters :: "(account_concurrency_key, nat) hashmap"

definition gate_new :: upstream_gate where
  "gate_new = \<lparr>ug_runtime = [], ug_table = lease_table_default, ug_waiters = []\<rparr>"

datatype upstream_admission_rejection_reason =
    LocalConcurrency | HedgeMinuteQuota | HedgeWindowQuota | RuntimeCoordinationUnavailable

record upstream_admission_error =
  ue_message :: string
  ue_retry_after_seconds :: nat
  ue_reason :: upstream_admission_rejection_reason

definition admission_error_new ::
  "upstream_admission_rejection_reason \<Rightarrow> string \<Rightarrow> nat \<Rightarrow> upstream_admission_error" where
  "admission_error_new reason message retry_after_seconds =
    \<lparr>ue_message = message, ue_retry_after_seconds = max retry_after_seconds 1, ue_reason = reason\<rparr>"

text \<open>
  A lease and its release state, which its clones share. The two clocks of a call are arguments:
  the monotonic instant and the seconds of the wall clock.
\<close>

record upstream_request_lease =
  rl_account :: account_concurrency_key
  rl_lease_id :: string

datatype lease_release_state = ReleaseActive | ReleaseReleasing | Released

datatype coordination_error = CoordinationError

definition release_guard_acquire :: "lease_release_state \<Rightarrow> coordination_error + lease_release_state option" where
  "release_guard_acquire state =
    (case state of
       ReleaseActive \<Rightarrow> Inr (Some ReleaseReleasing)
     | Released \<Rightarrow> Inr None
     | ReleaseReleasing \<Rightarrow> Inl CoordinationError)"

definition new_lease_record :: "lease_config \<Rightarrow> instant \<Rightarrow> upstream_lease_record" where
  "new_lease_record c now = lease_record_new now (lease_ttl c) Unary"

definition prune_table :: "lease_config \<Rightarrow> instant \<Rightarrow> upstream_lease_table \<Rightarrow> upstream_lease_table" where
  "prune_table c now t = snd (prune_expired_upstream_leases c now t)"

definition try_reserve_upstream_account_request ::
  "lease_config \<Rightarrow> upstream_limits \<Rightarrow> string \<Rightarrow> string \<Rightarrow> instant \<Rightarrow> nat \<Rightarrow> upstream_gate
   \<Rightarrow> (upstream_admission_error + upstream_request_lease) \<times> upstream_gate" where
  "try_reserve_upstream_account_request c u key_fingerprint lease_id now_instant now g =
    (let account = \<lparr>aq_upstream_id = ul_id u, aq_key_fingerprint = key_fingerprint\<rparr>;
         s = prune_quotas u now (hm_entry_or (ul_id u) runtime_state_default (ug_runtime g));
         t = prune_table c now_instant (ug_table g) in
     if account_lease_count t account \<ge> slot_cap u
     then (Inl (admission_error_new LocalConcurrency ''upstream request concurrency capacity is full''
                 (estimate_local_concurrency_retry_after_seconds c t account now_instant)),
           g\<lparr>ug_runtime := AList.update (ul_id u) s (ug_runtime g),
             ug_table := t\<lparr>lt_capacity_reject_total := add_count (ul_id u) 1 (lt_capacity_reject_total t)\<rparr>\<rparr>)
     else (Inr \<lparr>rl_account = account, rl_lease_id = lease_id\<rparr>,
           g\<lparr>ug_runtime := AList.update (ul_id u) (push_quota now s) (ug_runtime g),
             ug_table := table_insert account lease_id (new_lease_record c now_instant) t\<rparr>))"

definition hedge_quota_error :: "upstream_limits \<Rightarrow> upstream_runtime_state \<Rightarrow> upstream_admission_error option" where
  "hedge_quota_error u s =
    (if ul_requests_per_minute u > 0 \<and> quota_event_cost (us_minute_events s) + 1 > ul_requests_per_minute u
     then Some (admission_error_new HedgeMinuteQuota ''upstream hedge minute quota is exhausted'' 1)
     else if ul_request_quota_requests u > 0 \<and> quota_event_cost (us_five_hour_events s) + 1 > ul_request_quota_requests u
     then Some (admission_error_new HedgeWindowQuota ''upstream hedge request quota is exhausted'' 1)
     else None)"

definition hedge_capacity_error ::
  "lease_config \<Rightarrow> upstream_lease_table \<Rightarrow> account_concurrency_key \<Rightarrow> instant \<Rightarrow> upstream_admission_error" where
  "hedge_capacity_error c t account now_instant =
    admission_error_new LocalConcurrency ''upstream hedge concurrency capacity is full''
      (estimate_local_concurrency_retry_after_seconds c t account now_instant)"

definition try_reserve_upstream_account_hedge ::
  "lease_config \<Rightarrow> upstream_limits \<Rightarrow> string \<Rightarrow> string \<Rightarrow> instant \<Rightarrow> nat \<Rightarrow> upstream_gate
   \<Rightarrow> (upstream_admission_error + upstream_request_lease) \<times> upstream_gate" where
  "try_reserve_upstream_account_hedge c u key_fingerprint lease_id now_instant now g =
    (let account = \<lparr>aq_upstream_id = ul_id u, aq_key_fingerprint = key_fingerprint\<rparr>;
         s = prune_quotas u now (hm_entry_or (ul_id u) runtime_state_default (ug_runtime g));
         g1 = g\<lparr>ug_runtime := AList.update (ul_id u) s (ug_runtime g)\<rparr> in
     if account_lease_count (ug_table g) account \<ge> slot_cap u
     then (Inl (hedge_capacity_error c (ug_table g) account now_instant), g1)
     else case hedge_quota_error u s of
       Some e \<Rightarrow> (Inl e, g1)
     | None \<Rightarrow>
         (let t = prune_table c now_instant (ug_table g) in
          if account_lease_count t account \<ge> slot_cap u
          then (Inl (hedge_capacity_error c t account now_instant), g1\<lparr>ug_table := t\<rparr>)
          else (Inr \<lparr>rl_account = account, rl_lease_id = lease_id\<rparr>,
                g\<lparr>ug_runtime := AList.update (ul_id u) (push_quota now s) (ug_runtime g),
                  ug_table := table_insert account lease_id (new_lease_record c now_instant) t\<rparr>)))"

definition release_upstream_request ::
  "upstream_request_lease \<Rightarrow> lease_release_state \<Rightarrow> instant \<Rightarrow> upstream_gate
   \<Rightarrow> (coordination_error + unit) \<times> lease_release_state \<times> upstream_gate" where
  "release_upstream_request lease state now g =
    (case release_guard_acquire state of
       Inl e \<Rightarrow> (Inl e, state, g)
     | Inr None \<Rightarrow> (Inr (), state, g)
     | Inr (Some _) \<Rightarrow>
         (Inr (), Released, g\<lparr>ug_table := snd (table_remove (rl_account lease) (rl_lease_id lease) now (ug_table g))\<rparr>))"

definition renew_upstream_request ::
  "lease_config \<Rightarrow> upstream_request_lease \<Rightarrow> instant \<Rightarrow> upstream_gate \<Rightarrow> upstream_gate" where
  "renew_upstream_request c lease now g =
    g\<lparr>ug_table := table_renew (rl_account lease) (rl_lease_id lease) now (lease_ttl c) (prune_table c now (ug_table g))\<rparr>"

definition expire_upstream_request_lease_sync ::
  "upstream_request_lease \<Rightarrow> instant \<Rightarrow> upstream_gate \<Rightarrow> bool \<times> upstream_gate" where
  "expire_upstream_request_lease_sync lease now g =
    (let (removed, t) = table_remove (rl_account lease) (rl_lease_id lease) now (ug_table g)
     in (removed, g\<lparr>ug_table := t\<rparr>))"

definition reset_upstream_concurrency ::
  "string list \<Rightarrow> string \<Rightarrow> string option \<Rightarrow> upstream_gate \<Rightarrow> nat option \<times> upstream_gate" where
  "reset_upstream_concurrency upstream_ids upstream_id key_fingerprint g =
    (if upstream_id \<notin> set upstream_ids then (None, g)
     else let (cleared, t) = remove_leases_for_upstream upstream_id key_fingerprint (ug_table g)
          in (Some cleared, g\<lparr>ug_table := t\<rparr>))"

definition mark_upstream_cooldown :: "string \<Rightarrow> nat \<Rightarrow> string \<Rightarrow> nat \<Rightarrow> upstream_gate \<Rightarrow> upstream_gate" where
  "mark_upstream_cooldown upstream_id cooldown_seconds feedback_type now g =
    (let s = hm_entry_or upstream_id runtime_state_default (ug_runtime g);
         cooldown_until = u64_saturating_add now (max cooldown_seconds 1)
     in g\<lparr>ug_runtime := AList.update upstream_id
          (s\<lparr>us_cooldown_until := max (us_cooldown_until s) cooldown_until,
             us_last_feedback_type := Some feedback_type,
             us_last_retry_after_seconds := Some (max cooldown_seconds 1)\<rparr>) (ug_runtime g)\<rparr>)"

definition mark_upstream_rate_limited :: "string \<Rightarrow> nat \<Rightarrow> nat \<Rightarrow> upstream_gate \<Rightarrow> upstream_gate" where
  "mark_upstream_rate_limited upstream_id retry_after_seconds now =
    mark_upstream_cooldown upstream_id retry_after_seconds ''rate_limited'' now"

definition mark_upstream_concurrency_full :: "string \<Rightarrow> nat \<Rightarrow> nat \<Rightarrow> upstream_gate \<Rightarrow> upstream_gate" where
  "mark_upstream_concurrency_full upstream_id cooldown_ms now =
    (let cooldown_seconds = u64_saturating_add cooldown_ms 999 div 1000
     in mark_upstream_cooldown upstream_id (max cooldown_seconds 1) ''concurrency_full'' now)"

definition clear_upstream_cooldown :: "string \<Rightarrow> upstream_gate \<Rightarrow> upstream_gate" where
  "clear_upstream_cooldown upstream_id g =
    g\<lparr>ug_runtime := hm_modify upstream_id (\<lambda>s. s\<lparr>us_cooldown_until := 0\<rparr>) (ug_runtime g)\<rparr>"

section \<open>The queue for a slot\<close>

definition try_enter_local_slot_wait :: "account_concurrency_key \<Rightarrow> nat \<Rightarrow> upstream_gate \<Rightarrow> bool \<times> upstream_gate" where
  "try_enter_local_slot_wait account max_depth g =
    (let entry = hm_entry_or account 0 (ug_waiters g) in
     if entry \<ge> max max_depth 1
     then (False, g\<lparr>ug_waiters := AList.update account entry (ug_waiters g)\<rparr>)
     else (True, g\<lparr>ug_waiters := AList.update account (entry + 1) (ug_waiters g)\<rparr>))"

definition leave_local_slot_wait :: "account_concurrency_key \<Rightarrow> upstream_gate \<Rightarrow> upstream_gate" where
  "leave_local_slot_wait account g =
    (case map_of (ug_waiters g) account of
       None \<Rightarrow> g
     | Some entry \<Rightarrow>
         if entry - 1 = 0 then g\<lparr>ug_waiters := AList.delete account (ug_waiters g)\<rparr>
         else g\<lparr>ug_waiters := AList.update account (entry - 1) (ug_waiters g)\<rparr>)"

definition local_slot_waiter_count :: "upstream_gate \<Rightarrow> account_concurrency_key \<Rightarrow> nat" where
  "local_slot_waiter_count g account = unwrap_or (map_of (ug_waiters g) account) 0"

definition upstream_slot_waiter_count :: "upstream_gate \<Rightarrow> string \<Rightarrow> nat" where
  "upstream_slot_waiter_count g upstream_id = sum_list (of_upstream upstream_id (ug_waiters g))"

text \<open>
  How long a request may wait for a slot, and whether waiting is pointless. The product of the
  95th percentile with the configured floating-point factor is the argument \<open>scale\<close>.
\<close>

record queue_settings =
  qs_max_wait_ms :: nat
  qs_budget_ceiling_ms :: nat
  qs_skip_when_doomed_enabled :: bool

definition account_hold_percentiles_ms :: "upstream_lease_table \<Rightarrow> account_concurrency_key \<Rightarrow> (nat \<times> nat) option" where
  "account_hold_percentiles_ms t account =
    Option.bind (hold_p95_seconds t account) (\<lambda>p95.
      Some (min (unwrap_or (hold_p50_seconds t account) 0 * 1000) u64_max, min (p95 * 1000) u64_max))"

definition local_slot_queue_plan ::
  "(nat \<Rightarrow> nat) \<Rightarrow> queue_settings \<Rightarrow> upstream_lease_table \<Rightarrow> account_concurrency_key \<Rightarrow> nat \<times> bool" where
  "local_slot_queue_plan scale s t account =
    (let floor_ms = max (qs_max_wait_ms s) 1;
         ceiling_ms = max (qs_budget_ceiling_ms s) floor_ms in
     case account_hold_percentiles_ms t account of
       None \<Rightarrow> (floor_ms, False)
     | Some (p50_ms, p95_ms) \<Rightarrow>
         (let scaled = scale p95_ms;
              budget = (if scaled < floor_ms then floor_ms else if scaled > ceiling_ms then ceiling_ms else scaled)
          in (budget, qs_skip_when_doomed_enabled s \<and> p50_ms > 0 \<and> p50_ms > floor_ms)))"

section \<open>Snapshots\<close>

record upstream_runtime_snapshot =
  sn_in_flight :: nat
  sn_minute_cost :: nat
  sn_five_hour_cost :: nat
  sn_cooldown_until :: nat
  sn_leaked_reclaimed_total :: nat
  sn_stale_reclaimed_total :: nat
  sn_stale_lease_count :: nat
  sn_oldest_lease_age_seconds :: nat
  sn_queue_depth :: nat
  sn_hold_p50_ms :: "nat option"
  sn_hold_p95_ms :: "nat option"
  sn_capacity_reject_total :: nat
  sn_route_cooldown_skipped_total :: "nat option"
  sn_sse_bad_frame_skipped_total :: nat
  sn_sse_parse_error_total :: nat
  sn_transport_decode_error_total :: nat
  sn_hold_supported :: bool
  sn_queue_depth_supported :: bool

definition snapshot_upstream ::
  "lease_config \<Rightarrow> (string, nat) hashmap \<Rightarrow> (string, nat) hashmap \<Rightarrow> (account_concurrency_key, nat) hashmap
   \<Rightarrow> instant \<Rightarrow> nat \<Rightarrow> string \<Rightarrow> upstream_runtime_state \<Rightarrow> upstream_lease_table
   \<Rightarrow> upstream_runtime_snapshot \<times> upstream_runtime_state \<times> upstream_lease_table" where
  "snapshot_upstream c windows skipped waiters lease_now now upstream_id s0 t0 =
    (let window = unwrap_or (map_of windows upstream_id) (5 * 60 * 60);
         s = s0\<lparr>us_minute_events := prune_quota_events now 60 (us_minute_events s0),
                us_five_hour_events := prune_quota_events now window (us_five_hour_events s0)\<rparr>;
         t = prune_table c lease_now t0
     in (\<lparr>sn_in_flight = min (account_lease_count_for_upstream t upstream_id) u32_max,
          sn_minute_cost = quota_event_cost (us_minute_events s),
          sn_five_hour_cost = quota_event_cost (us_five_hour_events s),
          sn_cooldown_until = us_cooldown_until s,
          sn_leaked_reclaimed_total = unwrap_or (map_of (lt_leaked_reclaimed_total t) upstream_id) 0,
          sn_stale_reclaimed_total = unwrap_or (map_of (lt_stale_reclaimed_total t) upstream_id) 0,
          sn_stale_lease_count = min (upstream_stale_lease_count t0 upstream_id (stale_after c) lease_now) u32_max,
          sn_oldest_lease_age_seconds = upstream_oldest_lease_age_seconds t0 upstream_id lease_now,
          sn_queue_depth = min (sum_list (of_upstream upstream_id waiters)) u32_max,
          sn_hold_p50_ms = upstream_hold_p50_ms t upstream_id,
          sn_hold_p95_ms = upstream_hold_p95_ms t upstream_id,
          sn_capacity_reject_total = capacity_reject_total t upstream_id,
          sn_route_cooldown_skipped_total = Some (unwrap_or (map_of skipped upstream_id) 0),
          sn_sse_bad_frame_skipped_total = stream_counter_total SseBadFrameSkipped t upstream_id,
          sn_sse_parse_error_total = stream_counter_total SseParseError t upstream_id,
          sn_transport_decode_error_total = stream_counter_total TransportDecodeError t upstream_id,
          sn_hold_supported = True, sn_queue_depth_supported = True\<rparr>, s, t))"

fun snapshot_all ::
  "lease_config \<Rightarrow> (string, nat) hashmap \<Rightarrow> (string, nat) hashmap \<Rightarrow> (account_concurrency_key, nat) hashmap
   \<Rightarrow> instant \<Rightarrow> nat \<Rightarrow> (string \<times> upstream_runtime_state) list \<Rightarrow> upstream_lease_table
   \<Rightarrow> (string, upstream_runtime_snapshot) hashmap \<times> (string \<times> upstream_runtime_state) list \<times> upstream_lease_table" where
  "snapshot_all c windows skipped waiters lease_now now [] t = ([], [], t)"
| "snapshot_all c windows skipped waiters lease_now now ((upstream_id, s) # rest) t =
    (let (snap, s', t1) = snapshot_upstream c windows skipped waiters lease_now now upstream_id s t;
         (snaps, states, t2) = snapshot_all c windows skipped waiters lease_now now rest t1
     in ((upstream_id, snap) # snaps, (upstream_id, s') # states, t2))"

definition upstream_runtime_snapshots ::
  "lease_config \<Rightarrow> (string, nat) hashmap \<Rightarrow> (string, nat) hashmap \<Rightarrow> instant \<Rightarrow> nat \<Rightarrow> upstream_gate
   \<Rightarrow> (string, upstream_runtime_snapshot) hashmap \<times> upstream_gate" where
  "upstream_runtime_snapshots c windows skipped lease_now now g =
    (let (snaps, states, t) = snapshot_all c windows skipped (ug_waiters g) lease_now now (ug_runtime g) (ug_table g)
     in (snaps, g\<lparr>ug_runtime := states, ug_table := t\<rparr>))"

definition gate_remove_upstream :: "string \<Rightarrow> upstream_gate \<Rightarrow> upstream_gate" where
  "gate_remove_upstream upstream_id g =
    g\<lparr>ug_runtime := AList.delete upstream_id (ug_runtime g), ug_table := table_remove_upstream upstream_id (ug_table g)\<rparr>"

end
