(* ===== verification/Upstream_Lease_Properties.thy ===== *)
theory Upstream_Lease_Properties
  imports Upstream_Leases
begin

text \<open>
  The operations of the upstream gate as one transition system: no account ever holds more leases
  than its cap, no queue grows past its depth, a slot is granted exactly when the live leases leave
  room, and a renewed lease survives whatever other requests do until its holder releases it.
\<close>

section \<open>The invariant of the gate\<close>

text \<open>Sweeping keeps the live leases of every account, and nothing else.\<close>

lemma sweep_accounts_fst:
  "fst (sweep_accounts c now leases counts) = map (\<lambda>(account, ls). (account, filter (\<lambda>(_, r). lease_live c now r) ls)) leases"
  by (induction c now leases counts rule: sweep_accounts.induct)
    (auto simp: sweep_account_def case_prod_unfold Let_def)

lemma lt_leases_prune:
  "lt_leases (prune_table c now t) =
    filter (\<lambda>(_, ls). ls \<noteq> []) (map (\<lambda>(account, ls). (account, filter (\<lambda>(_, r). lease_live c now r) ls)) (lt_leases t))"
  by (simp add: prune_table_def prune_expired_upstream_leases_def case_prod_unfold Let_def sweep_accounts_fst)

lemma hold_samples_prune [simp]: "lt_hold_samples (prune_table c now t) = lt_hold_samples t"
  by (simp add: prune_table_def prune_expired_upstream_leases_def case_prod_unfold Let_def)

definition leases_ok :: "(account_concurrency_key \<Rightarrow> nat) \<Rightarrow> (account_concurrency_key, account_leases) hashmap \<Rightarrow> bool" where
  "leases_ok cap m = (hm_ok m \<and> (\<forall>account ls. map_of m account = Some ls \<longrightarrow> hm_ok ls \<and> ls \<noteq> [] \<and> length ls \<le> cap account))"

definition samples_ok :: "(account_concurrency_key, duration list) hashmap \<Rightarrow> bool" where
  "samples_ok m = (\<forall>account xs. map_of m account = Some xs \<longrightarrow> length xs \<le> lease_hold_sample_size)"

definition table_inv :: "(account_concurrency_key \<Rightarrow> nat) \<Rightarrow> upstream_lease_table \<Rightarrow> bool" where
  "table_inv cap t = (leases_ok cap (lt_leases t) \<and> samples_ok (lt_hold_samples t))"

lemma map_of_filter_map:
  assumes "hm_ok m"
  shows "map_of (filter (\<lambda>(_, ls). ls \<noteq> []) (map (\<lambda>(a, ls). (a, f ls)) m)) a =
    (case map_of m a of None \<Rightarrow> None | Some ls \<Rightarrow> if f ls = [] then None else Some (f ls))"
  using assms
proof (induction m)
  case (Cons x m)
  obtain b ls where x: "x = (b, ls)" by (cases x)
  have ok: "hm_ok m" and fresh: "map_of m b = None"
    using Cons.prems by (auto simp: hm_ok_def x map_of_eq_None_iff)
  show ?case
    using Cons.IH [OF ok] fresh by (auto simp: x split: option.splits)
qed simp

lemma account_leases_prune:
  assumes "hm_ok (lt_leases t)"
  shows "account_leases_of (prune_table c now t) account =
    filter (\<lambda>(_, r). lease_live c now r) (account_leases_of t account)"
  using assms by (auto simp: account_leases_of_def lt_leases_prune map_of_filter_map split: option.split)

lemma hm_ok_filter: "hm_ok m \<Longrightarrow> hm_ok (filter P m)"
  unfolding hm_ok_def by (rule distinct_map_filter)

lemma leases_ok_prune:
  assumes "leases_ok cap (lt_leases t)"
  shows "leases_ok cap (lt_leases (prune_table c now t))"
proof -
  have ok: "hm_ok (lt_leases t)" using assms by (simp add: leases_ok_def)
  have "hm_ok (lt_leases (prune_table c now t))"
    using ok by (auto simp: lt_leases_prune hm_ok_def comp_def case_prod_unfold intro!: distinct_map_filter)
  moreover have "hm_ok ls' \<and> ls' \<noteq> [] \<and> length ls' \<le> cap account"
    if found: "map_of (lt_leases (prune_table c now t)) account = Some ls'" for account ls'
  proof -
    obtain ls where ls: "map_of (lt_leases t) account = Some ls" "ls' = filter (\<lambda>(_, r). lease_live c now r) ls" "ls' \<noteq> []"
      using found ok by (auto simp: lt_leases_prune map_of_filter_map split: option.splits if_splits)
    have "hm_ok ls" "length ls \<le> cap account" using ls(1) assms by (auto simp: leases_ok_def)
    then show ?thesis
      unfolding ls(2) using ls(2,3) le_trans [OF length_filter_le] by (simp add: hm_ok_filter)
  qed
  ultimately show ?thesis by (simp add: leases_ok_def)
qed

lemma leases_ok_update:
  assumes "leases_ok cap m" "hm_ok ls" "ls \<noteq> []" "length ls \<le> cap account"
  shows "leases_ok cap (AList.update account ls m)"
  using assms by (auto simp: leases_ok_def split: if_splits)

lemma leases_ok_delete: "leases_ok cap m \<Longrightarrow> leases_ok cap (AList.delete account m)"
  by (auto simp: leases_ok_def split: if_splits)

lemma leases_ok_retain: "leases_ok cap m \<Longrightarrow> leases_ok cap (hm_retain P m)"
  by (auto simp: leases_ok_def map_of_hm_retain split: if_splits option.splits)

lemma leases_ok_of:
  assumes "leases_ok cap (lt_leases t)"
  shows "hm_ok (account_leases_of t account)" "length (account_leases_of t account) \<le> cap account"
  using assms by (cases "map_of (lt_leases t) account"; simp add: leases_ok_def account_leases_of_def)+

lemma leases_ok_insert:
  assumes "leases_ok cap (lt_leases t)" "account_lease_count t account < cap account"
  shows "leases_ok cap (lt_leases (table_insert account lease_id record t))"
proof -
  let ?ls = "AList.update lease_id record (account_leases_of t account)"
  have "length ?ls \<le> cap account"
    using assms(2) by (auto simp: account_lease_count_def length_update split: if_splits)
  moreover have "?ls \<noteq> []" by (metis map_of_update map_of.simps(1) option.distinct(1))
  ultimately show ?thesis
    using assms(1) leases_ok_of [OF assms(1)] by (simp add: table_insert_def leases_ok_update)
qed

lemma leases_ok_remove:
  assumes "leases_ok cap (lt_leases t)"
  shows "leases_ok cap (lt_leases (snd (table_remove account lease_id now t)))"
proof (cases "map_of (account_leases_of t account) lease_id")
  case (Some r)
  let ?rest = "AList.delete lease_id (account_leases_of t account)"
  have "hm_ok ?rest" "length ?rest \<le> cap account"
    using leases_ok_of [OF assms, of account] length_delete_le [of lease_id "account_leases_of t account"] by auto
  then show ?thesis
    using assms Some by (auto simp: table_remove_def Let_def intro: leases_ok_delete leases_ok_update)
qed (use assms in \<open>simp add: table_remove_def\<close>)

lemma samples_ok_push:
  assumes "samples_ok m"
  shows "samples_ok (AList.update account (push_sample hold (hm_entry_or account [] m)) m)"
proof -
  have "length (hm_entry_or account [] m) \<le> lease_hold_sample_size"
    using assms by (auto simp: samples_ok_def hm_entry_or_def split: option.split)
  then have "length (push_sample hold (hm_entry_or account [] m)) \<le> lease_hold_sample_size"
    by (auto simp: push_sample_def lease_hold_sample_size_def)
  then show ?thesis using assms by (auto simp: samples_ok_def split: if_splits)
qed

lemma table_inv_prune: "table_inv cap t \<Longrightarrow> table_inv cap (prune_table c now t)"
  by (simp add: table_inv_def leases_ok_prune)

lemma table_inv_insert:
  "table_inv cap t \<Longrightarrow> account_lease_count t account < cap account \<Longrightarrow> table_inv cap (table_insert account lease_id record t)"
  using leases_ok_insert [of cap t account lease_id "record"] by (simp add: table_inv_def table_insert_def)

lemma table_inv_remove: "table_inv cap t \<Longrightarrow> table_inv cap (snd (table_remove account lease_id now t))"
  using leases_ok_remove [of cap t account lease_id now]
  by (auto simp: table_inv_def table_remove_def Let_def samples_ok_push split: option.splits)

lemma table_inv_modify: "table_inv cap t \<Longrightarrow> table_inv cap (modify_lease account lease_id f t)"
proof -
  have "hm_modify lease_id f ls = [] \<longleftrightarrow> ls = []" for ls
    by (metis length_0_conv length_hm_modify)
  then show "table_inv cap t \<Longrightarrow> table_inv cap (modify_lease account lease_id f t)"
    by (auto simp: table_inv_def modify_lease_def leases_ok_def map_of_hm_modify split: if_splits option.splits)
qed

lemma table_inv_counters [simp]:
  "table_inv cap (t\<lparr>lt_capacity_reject_total := m\<rparr>) = table_inv cap t"
  by (simp add: table_inv_def)

text \<open>The operations on the gate, under limits that do not change.\<close>

datatype gate_op =
    OpReserve upstream_limits string string instant nat
  | OpHedge upstream_limits string string instant nat
  | OpRelease upstream_request_lease lease_release_state instant
  | OpRenew upstream_request_lease instant
  | OpExpire upstream_request_lease instant
  | OpReset "string list" string "string option"
  | OpStreaming upstream_request_lease
  | OpRemoveUpstream string
  | OpCooldown string nat string nat
  | OpClearCooldown string
  | OpStreamCounter string stream_decode_counter
  | OpSnapshots "(string, nat) hashmap" "(string, nat) hashmap" instant nat
  | OpEnterWait account_concurrency_key nat
  | OpLeaveWait account_concurrency_key

fun gate_apply :: "lease_config \<Rightarrow> gate_op \<Rightarrow> upstream_gate \<Rightarrow> upstream_gate" where
  "gate_apply c (OpReserve u fp lease_id at now) g = snd (try_reserve_upstream_account_request c u fp lease_id at now g)"
| "gate_apply c (OpHedge u fp lease_id at now) g = snd (try_reserve_upstream_account_hedge c u fp lease_id at now g)"
| "gate_apply c (OpRelease lease state at) g = snd (snd (release_upstream_request lease state at g))"
| "gate_apply c (OpRenew lease at) g = renew_upstream_request c lease at g"
| "gate_apply c (OpExpire lease at) g = snd (expire_upstream_request_lease_sync lease at g)"
| "gate_apply c (OpReset upstream_ids upstream_id fp) g = snd (reset_upstream_concurrency upstream_ids upstream_id fp g)"
| "gate_apply c (OpStreaming lease) g = g\<lparr>ug_table := snd (mark_streaming (rl_account lease) (rl_lease_id lease) (ug_table g))\<rparr>"
| "gate_apply c (OpRemoveUpstream upstream_id) g = gate_remove_upstream upstream_id g"
| "gate_apply c (OpCooldown upstream_id secs feedback now) g = mark_upstream_cooldown upstream_id secs feedback now g"
| "gate_apply c (OpClearCooldown upstream_id) g = clear_upstream_cooldown upstream_id g"
| "gate_apply c (OpStreamCounter upstream_id counter) g = g\<lparr>ug_table := record_stream_counter upstream_id counter (ug_table g)\<rparr>"
| "gate_apply c (OpSnapshots windows skipped at now) g = snd (upstream_runtime_snapshots c windows skipped at now g)"
| "gate_apply c (OpEnterWait account max_depth) g = snd (try_enter_local_slot_wait account max_depth g)"
| "gate_apply c (OpLeaveWait account) g = leave_local_slot_wait account g"

text \<open>An operation respects the configured limits: those of the upstream and the queue depth.\<close>

fun op_within :: "(string \<Rightarrow> nat) \<Rightarrow> nat \<Rightarrow> gate_op \<Rightarrow> bool" where
  "op_within cap depth (OpReserve u fp lease_id at now) = (slot_cap u \<le> cap (ul_id u))"
| "op_within cap depth (OpHedge u fp lease_id at now) = (slot_cap u \<le> cap (ul_id u))"
| "op_within cap depth (OpEnterWait account max_depth) = (max max_depth 1 \<le> depth)"
| "op_within cap depth _ = True"

inductive gate_init :: "upstream_gate \<Rightarrow> bool" where
  "gate_init gate_new"

inductive gate_step :: "lease_config \<Rightarrow> (string \<Rightarrow> nat) \<Rightarrow> nat \<Rightarrow> gate_op \<Rightarrow> upstream_gate \<Rightarrow> upstream_gate \<Rightarrow> bool"
  for c cap depth where
  "op_within cap depth op \<Longrightarrow> gate_step c cap depth op g (gate_apply c op g)"

inductive_cases gate_initE: "gate_init g"
inductive_cases gate_stepE: "gate_step c cap depth op g g'"

definition account_cap :: "(string \<Rightarrow> nat) \<Rightarrow> account_concurrency_key \<Rightarrow> nat" where
  "account_cap cap account = cap (aq_upstream_id account)"

definition gate_inv :: "(string \<Rightarrow> nat) \<Rightarrow> nat \<Rightarrow> upstream_gate \<Rightarrow> bool" where
  "gate_inv cap depth g =
    (table_inv (account_cap cap) (ug_table g)
     \<and> (\<forall>account n. map_of (ug_waiters g) account = Some n \<longrightarrow> n \<le> depth))"

lemma reserve_table_inv:
  assumes "table_inv (account_cap cap) (ug_table g)" "slot_cap u \<le> cap (ul_id u)"
  shows "table_inv (account_cap cap) (ug_table (snd (try_reserve_upstream_account_request c u fp lease_id at now g)))"
  using assms table_inv_prune [OF assms(1)]
  by (auto simp: try_reserve_upstream_account_request_def Let_def account_cap_def not_le intro!: table_inv_insert)

lemma hedge_table_inv:
  assumes "table_inv (account_cap cap) (ug_table g)" "slot_cap u \<le> cap (ul_id u)"
  shows "table_inv (account_cap cap) (ug_table (snd (try_reserve_upstream_account_hedge c u fp lease_id at now g)))"
  using assms table_inv_prune [OF assms(1)]
  by (auto simp: try_reserve_upstream_account_hedge_def Let_def account_cap_def not_le intro!: table_inv_insert
      split: option.split)

lemma snapshot_all_table:
  assumes "table_inv cap t"
  shows "table_inv cap (snd (snd (snapshot_all c windows skipped waiters at now states t)))"
  using assms
  by (induction c windows skipped waiters at now states t rule: snapshot_all.induct)
    (auto simp: case_prod_unfold Let_def snapshot_upstream_def table_inv_prune)

lemma table_inv_stream_counter: "table_inv cap (record_stream_counter upstream_id counter t) = table_inv cap t"
  by (cases counter) (simp_all add: table_inv_def)

lemma reserve_waiters [simp]:
  "ug_waiters (snd (try_reserve_upstream_account_request c u fp lease_id at now g)) = ug_waiters g"
  "ug_waiters (snd (try_reserve_upstream_account_hedge c u fp lease_id at now g)) = ug_waiters g"
  by (simp_all add: try_reserve_upstream_account_request_def try_reserve_upstream_account_hedge_def Let_def
      split: option.split)

lemma gate_apply_inv:
  assumes "gate_inv cap depth g" "op_within cap depth op"
  shows "gate_inv cap depth (gate_apply c op g)"
proof -
  have t: "table_inv (account_cap cap) (ug_table g)"
    and w: "\<forall>account n. map_of (ug_waiters g) account = Some n \<longrightarrow> n \<le> depth"
    using assms(1) by (auto simp: gate_inv_def)
  show ?thesis
  proof (cases op)
    case (OpReserve u fp lease_id at now)
    then show ?thesis using t w assms(2) reserve_table_inv by (simp add: gate_inv_def)
  next
    case (OpHedge u fp lease_id at now)
    then show ?thesis using t w assms(2) hedge_table_inv by (simp add: gate_inv_def)
  next
    case (OpRelease lease state at)
    then show ?thesis using t w table_inv_remove
      by (auto simp: gate_inv_def release_upstream_request_def split: sum.split option.split)
  next
    case (OpRenew lease at)
    then show ?thesis using t w
      by (simp add: gate_inv_def renew_upstream_request_def table_renew_def table_inv_modify table_inv_prune)
  next
    case (OpExpire lease at)
    then show ?thesis using t w table_inv_remove
      by (simp add: gate_inv_def expire_upstream_request_lease_sync_def case_prod_unfold Let_def)
  next
    case (OpReset upstream_ids upstream_id fp)
    then show ?thesis using t w
      by (auto simp: gate_inv_def reset_upstream_concurrency_def remove_leases_for_upstream_def Let_def
          table_inv_def leases_ok_retain)
  next
    case (OpStreaming lease)
    then show ?thesis using t w by (simp add: gate_inv_def mark_streaming_def table_inv_modify)
  next
    case (OpRemoveUpstream upstream_id)
    then show ?thesis using t w
      by (auto simp: gate_inv_def gate_remove_upstream_def table_remove_upstream_def table_inv_def leases_ok_retain)
  next
    case (OpStreamCounter upstream_id counter)
    then show ?thesis using t w by (simp add: gate_inv_def table_inv_stream_counter)
  next
    case (OpSnapshots windows skipped at now)
    then show ?thesis using t w snapshot_all_table
      by (simp add: gate_inv_def upstream_runtime_snapshots_def case_prod_unfold Let_def)
  next
    case (OpEnterWait account max_depth)
    have "hm_entry_or account 0 (ug_waiters g) \<le> depth"
      using w by (auto simp: hm_entry_or_def split: option.split)
    then show ?thesis using OpEnterWait t w assms(2)
      by (auto simp: gate_inv_def try_enter_local_slot_wait_def Let_def split: if_splits)
  next
    case (OpLeaveWait account)
    then show ?thesis using t w
      by (force simp: gate_inv_def leave_local_slot_wait_def split: option.split if_splits)
  qed (use t w in \<open>simp_all add: gate_inv_def mark_upstream_cooldown_def clear_upstream_cooldown_def Let_def\<close>)
qed

lemma gate_new_inv: "gate_inv cap depth gate_new"
  by (simp add: gate_inv_def gate_new_def lease_table_default_def table_inv_def leases_ok_def samples_ok_def)

interpretation gate: invariant_system gate_init "gate_step c cap depth" "gate_inv cap depth" for c cap depth
  by unfold_locales (auto elim!: gate_initE gate_stepE simp: gate_new_inv intro: gate_apply_inv)

section \<open>What an operation does to the leases of an account\<close>

lemma account_leases_insert:
  "account_leases_of (table_insert account lease_id r t) other =
    (if other = account then AList.update lease_id r (account_leases_of t account) else account_leases_of t other)"
  by (simp add: account_leases_of_def table_insert_def)

lemma account_leases_remove:
  "account_leases_of (snd (table_remove account lease_id now t)) other =
    (if other = account then AList.delete lease_id (account_leases_of t account) else account_leases_of t other)"
proof (cases "map_of (account_leases_of t account) lease_id")
  case None
  then have "AList.delete lease_id (account_leases_of t account) = account_leases_of t account"
    by (simp add: delete_id map_of_eq_None_iff)
  then show ?thesis using None by (simp add: table_remove_def)
next
  case (Some r)
  then show ?thesis by (auto simp: account_leases_of_def table_remove_def Let_def)
qed

lemma account_leases_modify:
  "account_leases_of (modify_lease account lease_id f t) other =
    (if other = account then hm_modify lease_id f (account_leases_of t account) else account_leases_of t other)"
  by (auto simp: account_leases_of_def modify_lease_def map_of_hm_modify hm_modify_def split: option.split)

lemma account_leases_retain:
  "account_leases_of (t\<lparr>lt_leases := hm_retain (\<lambda>account _. P account) (lt_leases t)\<rparr>) other =
    (if P other then account_leases_of t other else [])"
  if "hm_ok (lt_leases t)"
  using that by (simp add: account_leases_of_def map_of_hm_retain split: option.split)

lemma account_leases_other_fields [simp]:
  "account_leases_of (t\<lparr>lt_capacity_reject_total := m\<rparr>) account = account_leases_of t account"
  "account_leases_of (t\<lparr>lt_leaked_reclaimed_total := m1\<rparr>) account = account_leases_of t account"
  "account_leases_of (t\<lparr>lt_stale_reclaimed_total := m2\<rparr>) account = account_leases_of t account"
  "account_leases_of (record_stream_counter upstream_id counter t) account = account_leases_of t account"
  by (simp_all add: account_leases_of_def, cases counter, simp_all)

lemma reachable_hm_ok:
  assumes "reachable gate_init (gate_step c cap depth) g"
  shows "hm_ok (lt_leases (ug_table g))"
  using gate.reachable_inv [OF assms] by (simp add: gate_inv_def table_inv_def leases_ok_def)

text \<open>A lease that no sweep before a given time takes away.\<close>

definition held_since :: "lease_config \<Rightarrow> instant \<Rightarrow> upstream_request_lease \<Rightarrow> account_leases \<Rightarrow> bool" where
  "held_since c start lease ls =
    (\<exists>r. map_of ls (rl_lease_id lease) = Some r \<and> start + lease_ttl c \<le> lr_expires_at r \<and> start \<le> lr_last_renewed_at r)"

definition within :: "lease_config \<Rightarrow> instant \<Rightarrow> instant \<Rightarrow> bool" where
  "within c start at = (start \<le> at \<and> at < start + lease_ttl c \<and> at \<le> start + stale_after c)"

lemma map_of_filter_distinct:
  assumes "hm_ok m" "map_of m k = Some v" "P (k, v)"
  shows "map_of (filter P m) k = Some v"
proof -
  have "(k, v) \<in> set (filter P m)" using assms map_of_SomeD by fastforce
  then show ?thesis using hm_ok_filter [OF assms(1), of P] by (simp add: hm_ok_def)
qed

lemma held_since_sweep:
  assumes "held_since c start lease ls" "hm_ok ls" "within c start at"
  shows "held_since c start lease (filter (\<lambda>(_, r). lease_live c at r) ls)"
proof -
  obtain r where r: "map_of ls (rl_lease_id lease) = Some r" "start + lease_ttl c \<le> lr_expires_at r" "start \<le> lr_last_renewed_at r"
    using assms(1) by (auto simp: held_since_def)
  have "lease_live c at r"
    using r(2,3) assms(3) by (auto simp: lease_live_def has_expired_def is_stale_def within_def saturating_duration_since_def)
  then show ?thesis using map_of_filter_distinct [OF assms(2) r(1)] r(2,3) by (auto simp: held_since_def)
qed

lemma held_since_prune:
  assumes "held_since c start lease (account_leases_of t account)" "leases_ok cap (lt_leases t)" "within c start at"
  shows "held_since c start lease (account_leases_of (prune_table c at t) account)"
proof -
  have "hm_ok (lt_leases t)" using assms(2) by (simp add: leases_ok_def)
  then show ?thesis
    using held_since_sweep [OF assms(1) _ assms(3)] leases_ok_of(1) [OF assms(2)] by (simp add: account_leases_prune)
qed

lemma held_since_update:
  "held_since c start lease ls \<Longrightarrow> lease_id \<noteq> rl_lease_id lease \<Longrightarrow> held_since c start lease (AList.update lease_id r ls)"
  by (simp add: held_since_def)

lemma held_since_modify:
  assumes "held_since c start lease ls"
    "\<And>r. start + lease_ttl c \<le> lr_expires_at r \<Longrightarrow> start \<le> lr_last_renewed_at r \<Longrightarrow>
      start + lease_ttl c \<le> lr_expires_at (f r) \<and> start \<le> lr_last_renewed_at (f r)"
  shows "held_since c start lease (hm_modify lease_id f ls)"
  using assms by (auto simp: held_since_def map_of_hm_modify)

text \<open>The operations that leave a lease to its holder, at times before its renewal runs out.\<close>

fun spares :: "lease_config \<Rightarrow> instant \<Rightarrow> upstream_request_lease \<Rightarrow> gate_op \<Rightarrow> bool" where
  "spares c start lease (OpReserve u fp lease_id at now) = (lease_id \<noteq> rl_lease_id lease \<and> within c start at)"
| "spares c start lease (OpHedge u fp lease_id at now) = (lease_id \<noteq> rl_lease_id lease \<and> within c start at)"
| "spares c start lease (OpRelease other state at) = (other \<noteq> lease)"
| "spares c start lease (OpRenew other at) = within c start at"
| "spares c start lease (OpExpire other at) = (other \<noteq> lease)"
| "spares c start lease (OpReset upstream_ids upstream_id fp) = (\<not> reset_selects upstream_id fp (rl_account lease))"
| "spares c start lease (OpRemoveUpstream upstream_id) = (upstream_id \<noteq> aq_upstream_id (rl_account lease))"
| "spares c start lease (OpSnapshots windows skipped at now) = within c start at"
| "spares c start lease _ = True"

definition held :: "lease_config \<Rightarrow> instant \<Rightarrow> upstream_request_lease \<Rightarrow> upstream_gate \<Rightarrow> bool" where
  "held c start lease g = held_since c start lease (account_leases_of (ug_table g) (rl_account lease))"

lemma held_since_remove:
  assumes "held_since c start lease (account_leases_of t (rl_account lease))" "other \<noteq> lease"
  shows "held_since c start lease
    (account_leases_of (snd (table_remove (rl_account other) (rl_lease_id other) at t)) (rl_account lease))"
  using assms by (cases other, cases lease) (auto simp: account_leases_remove held_since_def)

lemma held_since_snapshots:
  assumes "held_since c start lease (account_leases_of t account)" "table_inv cap t" "within c start at"
  shows "held_since c start lease
    (account_leases_of (snd (snd (snapshot_all c windows skipped waiters at now states t))) account)"
  using assms
proof (induction c windows skipped waiters at now states t rule: snapshot_all.induct)
  case (2 c windows skipped waiters at now upstream_id s rest t)
  have "held_since c start lease (account_leases_of (prune_table c at t) account)"
    using 2 by (auto intro: held_since_prune simp: table_inv_def)
  then show ?case using 2 table_inv_prune
    by (simp add: case_prod_unfold Let_def snapshot_upstream_def)
qed simp

lemma held_gate_apply:
  assumes "held c start lease g" "gate_inv cap depth g" "spares c start lease op"
  shows "held c start lease (gate_apply c op g)"
proof -
  have t: "table_inv (account_cap cap) (ug_table g)" and ok: "leases_ok (account_cap cap) (lt_leases (ug_table g))"
    using assms(2) by (auto simp: gate_inv_def table_inv_def)
  have h: "held_since c start lease (account_leases_of (ug_table g) (rl_account lease))"
    using assms(1) by (simp add: held_def)
  have prune: "held_since c start lease (account_leases_of (prune_table c at (ug_table g)) (rl_account lease))"
    if "within c start at" for at
    by (rule held_since_prune [OF h ok that])
  show ?thesis
  proof (cases op)
    case (OpReserve u fp lease_id at now)
    then show ?thesis using assms(3) prune
      by (auto simp: held_def try_reserve_upstream_account_request_def Let_def account_leases_insert held_since_update)
  next
    case (OpHedge u fp lease_id at now)
    then show ?thesis using assms(3) prune h
      by (auto simp: held_def try_reserve_upstream_account_hedge_def Let_def account_leases_insert held_since_update
          split: option.split)
  next
    case (OpRelease other state at)
    then show ?thesis using assms(3) h held_since_remove
      by (auto simp: held_def release_upstream_request_def split: sum.split option.split)
  next
    case (OpRenew other at)
    then show ?thesis using assms(3) prune
      by (auto simp: held_def renew_upstream_request_def table_renew_def account_leases_modify within_def
          intro!: held_since_modify)
  next
    case (OpExpire other at)
    then show ?thesis using assms(3) h held_since_remove
      by (simp add: held_def expire_upstream_request_lease_sync_def case_prod_unfold Let_def)
  next
    case (OpReset upstream_ids upstream_id fp)
    then show ?thesis using assms(3) h ok
      by (simp add: held_def reset_upstream_concurrency_def remove_leases_for_upstream_def Let_def
          account_leases_retain leases_ok_def)
  next
    case (OpStreaming other)
    then show ?thesis using h
      by (auto simp: held_def mark_streaming_def account_leases_modify intro!: held_since_modify)
  next
    case (OpRemoveUpstream upstream_id)
    then show ?thesis using assms(3) h ok
      by (simp add: held_def gate_remove_upstream_def table_remove_upstream_def account_leases_retain leases_ok_def)
  next
    case (OpSnapshots windows skipped at now)
    then show ?thesis using assms(3) held_since_snapshots [OF h t]
      by (simp add: held_def upstream_runtime_snapshots_def case_prod_unfold Let_def)
  next
    case (OpEnterWait account max_depth)
    then show ?thesis using h by (simp add: held_def try_enter_local_slot_wait_def Let_def)
  next
    case (OpLeaveWait account)
    then show ?thesis using h by (simp add: held_def leave_local_slot_wait_def split: option.split)
  qed (use h in \<open>simp_all add: held_def mark_upstream_cooldown_def clear_upstream_cooldown_def Let_def\<close>)
qed

section \<open>Properties of the gate\<close>

text \<open>
  C13. After any sequence of operations on the gate, no account holds more leases than the
  concurrency cap of its upstream, no more requests wait for its slots than the queue is deep, and
  no more than 32 hold times are kept for it.
\<close>

theorem account_slots_bounded:
  assumes "reachable gate_init (gate_step c cap depth) g"
  shows "account_lease_count (ug_table g) account \<le> cap (aq_upstream_id account)
    \<and> local_slot_waiter_count g account \<le> depth
    \<and> length (hm_entry_or account [] (lt_hold_samples (ug_table g))) \<le> lease_hold_sample_size"
proof -
  have inv: "gate_inv cap depth g" by (rule gate.reachable_inv [OF assms])
  then have "length (account_leases_of (ug_table g) account) \<le> account_cap cap account"
    by (auto simp: gate_inv_def table_inv_def leases_ok_of)
  moreover have "local_slot_waiter_count g account \<le> depth"
    using inv by (cases "map_of (ug_waiters g) account") (auto simp: gate_inv_def local_slot_waiter_count_def)
  ultimately show ?thesis
    using inv by (auto simp: gate_inv_def table_inv_def samples_ok_def account_lease_count_def account_cap_def
        hm_entry_or_def split: option.splits)
qed

lemma gate_reachable_apply:
  assumes "reachable gate_init (gate_step c cap depth) g" "op_within cap depth op"
  shows "reachable gate_init (gate_step c cap depth) (gate_apply c op g)"
  using assms by (auto intro: reach_step gate_step.intros)

lemma gate_reachable_fold:
  assumes "list_all (op_within cap depth) ops"
  shows "reachable gate_init (gate_step c cap depth) (fold (gate_apply c) ops gate_new)"
  using assms
proof (induction ops rule: rev_induct)
  case Nil
  then show ?case by (auto intro: reach_init gate_init.intros)
qed (auto intro: gate_reachable_apply)

definition sample_config :: lease_config where
  "sample_config = \<lparr>lc_stale_after_ms = 60000, lc_lease_ttl_seconds = 120, lc_probe_delays_ms = [500]\<rparr>"

definition sample_limits :: upstream_limits where
  "sample_limits = \<lparr>ul_id = ''u'', ul_max_concurrency = 1, ul_requests_per_minute = 0,
     ul_request_quota_requests = 0, ul_request_quota_window_hours = 5\<rparr>"

definition gate_account :: account_concurrency_key where
  "gate_account = \<lparr>aq_upstream_id = ''u'', aq_key_fingerprint = ''f''\<rparr>"

definition gate_ops_run :: "gate_op list" where
  "gate_ops_run = [OpReserve sample_limits ''f'' ''a'' 0 0, OpReserve sample_limits ''f'' ''b'' 1 0, OpEnterWait gate_account 3]"

definition sample_gate :: upstream_gate where
  "sample_gate = fold (gate_apply sample_config) gate_ops_run gate_new"

lemma sample_gate_reachable: "reachable gate_init (gate_step sample_config (\<lambda>_. 1) 3) sample_gate"
  unfolding sample_gate_def
  by (rule gate_reachable_fold) (simp add: gate_ops_run_def sample_limits_def slot_cap_def)

lemmas sample_eval = gate_ops_run_def sample_config_def sample_limits_def gate_account_def gate_new_def
  lease_table_default_def try_reserve_upstream_account_request_def try_enter_local_slot_wait_def Let_def prune_table_def
  prune_expired_upstream_leases_def account_lease_count_def account_leases_of_def slot_cap_def table_insert_def
  new_lease_record_def lease_record_new_def lease_ttl_def stale_after_def sweep_account_def lease_live_def has_expired_def
  is_stale_def saturating_duration_since_def from_secs_def from_millis_def hm_entry_or_def count_reclaimed_def add_count_def

lemma sample_gate_leases:
  "account_leases_of (ug_table sample_gate) gate_account = [(''a'', new_lease_record sample_config 0)]"
  by (simp add: sample_gate_def sample_eval)

theorem account_slots_bounded_witness:
  "account_lease_count (ug_table sample_gate) gate_account = 1 \<and> account_lease_count (ug_table sample_gate) gate_account \<le> 1
    \<and> local_slot_waiter_count sample_gate gate_account \<le> 3"
  using account_slots_bounded [OF sample_gate_reachable, of gate_account] sample_gate_leases
  by (simp add: account_lease_count_def)

lemma capacity_reject_prune [simp]: "lt_capacity_reject_total (prune_table c now t) = lt_capacity_reject_total t"
  by (simp add: prune_table_def prune_expired_upstream_leases_def case_prod_unfold Let_def)

text \<open>
  A request gets a slot of an account exactly when the leases that are neither expired nor stale
  leave room under the cap. A grant leaves those leases and the new one; a refusal leaves those
  leases, asks the client to wait at least a second and is counted; the leases of every other account
  are its live ones.
\<close>

theorem slot_granted_iff:
  assumes "reachable gate_init (gate_step c cap depth) g"
    and "account = \<lparr>aq_upstream_id = ul_id u, aq_key_fingerprint = fp\<rparr>"
    and "live = (\<lambda>other. filter (\<lambda>(_, r). lease_live c at r) (account_leases_of (ug_table g) other))"
    and "try_reserve_upstream_account_request c u fp lease_id at now g = (outcome, g')"
  shows "(length (live account) < slot_cap u = (\<exists>lease. outcome = Inr lease))
    \<and> (case outcome of
        Inr lease \<Rightarrow> lease = \<lparr>rl_account = account, rl_lease_id = lease_id\<rparr>
          \<and> account_leases_of (ug_table g') account = AList.update lease_id (new_lease_record c at) (live account)
      | Inl e \<Rightarrow> ue_reason e = LocalConcurrency \<and> ue_retry_after_seconds e \<ge> 1
          \<and> account_leases_of (ug_table g') account = live account
          \<and> capacity_reject_total (ug_table g') (ul_id u) = capacity_reject_total (ug_table g) (ul_id u) + 1)
    \<and> (\<forall>other. other \<noteq> account \<longrightarrow> account_leases_of (ug_table g') other = live other)"
proof -
  have live: "account_leases_of (prune_table c at (ug_table g)) = live"
    using account_leases_prune [OF reachable_hm_ok [OF assms(1)]] assms(3) by (simp add: fun_eq_iff)
  show ?thesis
    using assms(2,4)
    by (auto simp: try_reserve_upstream_account_request_def Let_def account_lease_count_def live
        account_leases_insert admission_error_new_def capacity_reject_total_def add_count_def hm_entry_or_def
        split: if_splits option.splits)
qed

theorem slot_granted_iff_witness:
  "(\<nexists>lease. fst (try_reserve_upstream_account_request sample_config sample_limits ''f'' ''c'' 1 0 sample_gate) = Inr lease)
   \<and> (\<exists>lease. fst (try_reserve_upstream_account_request sample_config sample_limits ''f'' ''c'' (from_secs 200) 0 sample_gate) = Inr lease)"
  using slot_granted_iff [OF sample_gate_reachable refl refl prod.collapse [symmetric], of "from_secs 200" sample_limits "''f''" "''c''" 0]
    slot_granted_iff [OF sample_gate_reachable refl refl prod.collapse [symmetric], of 1 sample_limits "''f''" "''c''" 0] sample_gate_leases
  by (simp add: gate_account_def sample_config_def sample_limits_def slot_cap_def lease_live_def new_lease_record_def
      lease_record_new_def lease_ttl_def stale_after_def has_expired_def is_stale_def saturating_duration_since_def
      from_secs_def from_millis_def)

lemma length_delete_found:
  assumes "hm_ok m" "map_of m k = Some v"
  shows "Suc (length (AList.delete k m)) = length m"
  using assms
proof (induction m)
  case (Cons x m)
  then show ?case by (cases x) (auto simp: hm_ok_def delete_id split: if_splits)
qed simp

lemma held_fold:
  assumes "reachable gate_init (gate_step c cap depth) g" "held c start lease g"
    "list_all (\<lambda>op. op_within cap depth op \<and> spares c start lease op) ops"
  shows "reachable gate_init (gate_step c cap depth) (fold (gate_apply c) ops g) \<and> held c start lease (fold (gate_apply c) ops g)"
  using assms
proof (induction ops arbitrary: g)
  case (Cons op ops)
  have "held c start lease (gate_apply c op g)"
    using Cons.prems gate.reachable_inv [OF Cons.prems(1)] held_gate_apply by fastforce
  then show ?case
    using Cons gate_reachable_apply by simp
qed simp

text \<open>
  C14. A lease that its holder renewed is still in the table after any sequence of operations by other
  requests, as long as they happen before the renewal runs out: reservations, hedges, renewals,
  snapshots, releases of other leases, resets and removals of other upstreams. When the holder then
  releases it, exactly this lease goes, and releasing it again succeeds and changes nothing.
\<close>

theorem renewed_lease_survives:
  assumes "reachable gate_init (gate_step c cap depth) g"
    and "hm_contains (account_leases_of (prune_table c start (ug_table g)) (rl_account lease)) (rl_lease_id lease)"
    and "list_all (\<lambda>op. op_within cap depth op \<and> spares c start lease op) ops"
    and "later = fold (gate_apply c) ops (renew_upstream_request c lease start g)"
    and "release_upstream_request lease ReleaseActive now later = (outcome, state, after)"
  shows "hm_contains (account_leases_of (ug_table later) (rl_account lease)) (rl_lease_id lease)
    \<and> outcome = Inr ()
    \<and> account_leases_of (ug_table after) (rl_account lease)
        = AList.delete (rl_lease_id lease) (account_leases_of (ug_table later) (rl_account lease))
    \<and> account_lease_count (ug_table after) (rl_account lease) + 1 = account_lease_count (ug_table later) (rl_account lease)
    \<and> release_upstream_request lease state now after = (Inr (), state, after)"
proof -
  have r: "reachable gate_init (gate_step c cap depth) (renew_upstream_request c lease start g)"
    using gate_reachable_apply [OF assms(1), of "OpRenew lease start"] by simp
  have "held c start lease (renew_upstream_request c lease start g)"
    using assms(2) by (auto simp: held_def held_since_def renew_upstream_request_def table_renew_def
        account_leases_modify map_of_hm_modify hm_contains_def)
  then have later: "reachable gate_init (gate_step c cap depth) later" "held c start lease later"
    using held_fold [OF r _ assms(3)] assms(4) by auto
  then have found: "hm_contains (account_leases_of (ug_table later) (rl_account lease)) (rl_lease_id lease)"
    by (auto simp: held_def held_since_def hm_contains_def)
  have "hm_ok (account_leases_of (ug_table later) (rl_account lease))"
    using gate.reachable_inv [OF later(1)] by (auto simp: gate_inv_def table_inv_def leases_ok_of)
  then have "length (AList.delete (rl_lease_id lease) (account_leases_of (ug_table later) (rl_account lease))) + 1
      = length (account_leases_of (ug_table later) (rl_account lease))"
    using found length_delete_found by (auto simp: hm_contains_def)
  then show ?thesis
    using assms(5) found
    by (auto simp: release_upstream_request_def release_guard_acquire_def account_leases_remove account_lease_count_def)
qed

theorem renewed_lease_survives_witness:
  "hm_contains (account_leases_of (ug_table (fold (gate_apply sample_config)
      [OpReserve sample_limits ''f'' ''c'' 5 0, OpSnapshots [] [] 6 0]
      (renew_upstream_request sample_config \<lparr>rl_account = gate_account, rl_lease_id = ''a''\<rparr> 4 sample_gate))) gate_account) ''a''"
proof -
  have "account_leases_of (prune_table sample_config 4 (ug_table sample_gate)) gate_account = [(''a'', new_lease_record sample_config 0)]"
    using account_leases_prune [OF reachable_hm_ok [OF sample_gate_reachable], of sample_config 4 gate_account] sample_gate_leases
    by (simp add: sample_config_def lease_live_def new_lease_record_def lease_record_new_def lease_ttl_def stale_after_def
        has_expired_def is_stale_def saturating_duration_since_def from_secs_def from_millis_def)
  then have found: "hm_contains (account_leases_of (prune_table sample_config 4 (ug_table sample_gate)) gate_account) ''a''"
    by (simp add: hm_contains_def)
  have spared: "list_all (\<lambda>op. op_within (\<lambda>_. 1) 3 op \<and> spares sample_config 4 \<lparr>rl_account = gate_account, rl_lease_id = ''a''\<rparr> op)
      [OpReserve sample_limits ''f'' ''c'' 5 0, OpSnapshots [] [] 6 0]"
    by (simp add: within_def sample_config_def sample_limits_def slot_cap_def lease_ttl_def stale_after_def
        from_secs_def from_millis_def)
  obtain outcome state after where "release_upstream_request \<lparr>rl_account = gate_account, rl_lease_id = ''a''\<rparr> ReleaseActive 7
      (fold (gate_apply sample_config) [OpReserve sample_limits ''f'' ''c'' 5 0, OpSnapshots [] [] 6 0]
        (renew_upstream_request sample_config \<lparr>rl_account = gate_account, rl_lease_id = ''a''\<rparr> 4 sample_gate)) = (outcome, state, after)"
    by (rule prod_cases3)
  from renewed_lease_survives [OF sample_gate_reachable _ spared refl this] found
  show ?thesis by simp
qed

end
