(* ===== verification/Downstream_Config.thy ===== *)
theory Downstream_Config
  imports Model_Identity
begin

text \<open>
  The configuration of a downstream key and what is computed from it alone: its billing mode and
  the cost of a request (\<open>src/src/state/types.rs\<close>), the ledger its costs are booked on
  (\<open>src/src/state/cost_scope.rs\<close>), the concurrency group of a model with its wildcard patterns, and the
  allowlist gate (\<open>src/src/state/usage.rs\<close>). The fields of the configuration that these operations do
  not read are left out. Token counts and prices are 64-bit values.
\<close>

section \<open>Configuration\<close>

record model_concurrency_group =
  mg_name :: string
  mg_patterns :: "string list"
  mg_max_concurrency :: nat

record downstream_config =
  dc_id :: string
  dc_rate_limit_enabled :: bool
  dc_per_minute_limit :: nat
  dc_max_concurrency :: nat
  dc_request_quota_window_hours :: "nat option"
  dc_request_quota_requests :: "nat option"
  dc_billing_mode :: string
  dc_input_token_price_per_million_cents :: "nat option"
  dc_output_token_price_per_million_cents :: "nat option"
  dc_model_concurrency_groups :: "model_concurrency_group list"
  dc_model_allowlist :: "string list"
  dc_model_group_id :: "string option"

definition uses_request_quota :: "downstream_config \<Rightarrow> bool" where
  "uses_request_quota d =
    (dc_rate_limit_enabled d \<and> dc_request_quota_window_hours d \<noteq> None \<and> dc_request_quota_requests d \<noteq> None)"

definition billing_mode :: "downstream_config \<Rightarrow> string" where
  "billing_mode d = (if dc_billing_mode d = ''token'' then ''token'' else ''request'')"

definition token_billing_mode :: "downstream_config \<Rightarrow> bool" where
  "token_billing_mode d = (billing_mode d = ''token'')"

definition has_cost_pricing :: "downstream_config \<Rightarrow> bool" where
  "has_cost_pricing d =
    (token_billing_mode d \<and>
     (dc_input_token_price_per_million_cents d \<noteq> None \<or> dc_output_token_price_per_million_cents d \<noteq> None))"

definition cost_for_tokens :: "downstream_config \<Rightarrow> nat \<Rightarrow> nat \<Rightarrow> nat" where
  "cost_for_tokens d input_tokens output_tokens =
    (let input_cost = unwrap_or (map_option (\<lambda>price. input_tokens * price div 1000000) (dc_input_token_price_per_million_cents d)) 0;
         output_cost = unwrap_or (map_option (\<lambda>price. output_tokens * price div 1000000) (dc_output_token_price_per_million_cents d)) 0
     in (input_cost + output_cost) mod 2 ^ 64)"

section \<open>Cost ledgers\<close>

record cost_scope =
  cs_scope_id :: string
  cs_daily_limit_cents :: "nat option"

definition is_limited :: "cost_scope \<Rightarrow> bool" where
  "is_limited scope = is_some_and (cs_daily_limit_cents scope) (\<lambda>limit. limit > 0)"

definition resolve_cost_scope :: "string \<Rightarrow> (string, string) hashmap \<Rightarrow> (string, nat) hashmap \<Rightarrow> cost_scope" where
  "resolve_cost_scope downstream_id owners limits =
    (let scope_id = unwrap_or (map_of owners downstream_id) downstream_id
     in \<lparr>cs_scope_id = scope_id, cs_daily_limit_cents = filter_option (\<lambda>limit. limit > 0) (map_of limits scope_id)\<rparr>)"

section \<open>Concurrency groups\<close>

datatype group_config_error =
    GroupNameEmpty
  | DuplicateGroupName string
  | GroupCapZero string
  | GroupMatchListEmpty string
  | GroupPatternEmpty string

fun validate_groups :: "string list \<Rightarrow> model_concurrency_group list \<Rightarrow> group_config_error + unit" where
  "validate_groups seen [] = Inr ()"
| "validate_groups seen (g # groups) =
    (if trim (mg_name g) = [] then Inl GroupNameEmpty
     else if trim (mg_name g) \<in> set seen then Inl (DuplicateGroupName (mg_name g))
     else if mg_max_concurrency g = 0 then Inl (GroupCapZero (mg_name g))
     else if mg_patterns g = [] then Inl (GroupMatchListEmpty (mg_name g))
     else if list_ex (\<lambda>pattern. trim pattern = []) (mg_patterns g) then Inl (GroupPatternEmpty (mg_name g))
     else validate_groups (trim (mg_name g) # seen) groups)"

definition validate_model_concurrency_groups :: "downstream_config \<Rightarrow> group_config_error + unit" where
  "validate_model_concurrency_groups d = validate_groups [] (dc_model_concurrency_groups d)"

text \<open>\<open>str::find\<close> with a string: the index of its first occurrence.\<close>

fun find_str :: "string \<Rightarrow> string \<Rightarrow> nat option" where
  "find_str part [] = (if part = [] then Some 0 else None)"
| "find_str part (c # s) = (if prefix part (c # s) then Some 0 else map_option Suc (find_str part s))"

fun match_middle :: "string list \<Rightarrow> string \<Rightarrow> string option" where
  "match_middle [] remainder = Some remainder"
| "match_middle (part # parts) remainder =
    (if part = [] then match_middle parts remainder
     else case find_str part remainder of
       Some index \<Rightarrow> match_middle parts (drop (index + length part) remainder)
     | None \<Rightarrow> None)"

definition glob_match_star :: "string \<Rightarrow> string \<Rightarrow> bool" where
  "glob_match_star pattern s =
    (let parts = split_on (CHR ''*'') pattern; first = hd parts in
     if length parts = 1 then pattern = s
     else if \<not> prefix first s then False
     else case match_middle (butlast (tl parts)) (drop (length first) s) of
       None \<Rightarrow> False
     | Some remainder \<Rightarrow> suffix (last parts) remainder)"

definition fold_name :: "bool \<Rightarrow> string \<Rightarrow> string" where
  "fold_name case_insensitive s = (if case_insensitive then to_ascii_lowercase (trim s) else trim s)"

definition concurrency_group_for_model :: "downstream_config \<Rightarrow> string \<Rightarrow> bool \<Rightarrow> model_concurrency_group option" where
  "concurrency_group_for_model d model case_insensitive =
    (if dc_model_concurrency_groups d = [] \<or> trim model = [] then None
     else find (\<lambda>g. list_ex (\<lambda>pattern. glob_match_star (fold_name case_insensitive pattern) (fold_name case_insensitive model))
                 (mg_patterns g)) (dc_model_concurrency_groups d))"

section \<open>Allowlists\<close>

definition normalize_model_name :: "string \<Rightarrow> string option" where
  "normalize_model_name model = (if trim model = [] then None else Some (to_ascii_lowercase (trim model)))"

definition listed :: "string list \<Rightarrow> string \<Rightarrow> bool" where
  "listed allowlist model = list_ex (\<lambda>allowed. normalize_model_name allowed = Some model) allowlist"

definition portal_model_is_allowed :: "string list \<Rightarrow> string \<Rightarrow> bool outcome_or_panic" where
  "portal_model_is_allowed allowlist model =
    (if allowlist = [] then Inr True
     else let raw_model = trim model in
       case normalize_model_name raw_model of
         None \<Rightarrow> Inr False
       | Some name \<Rightarrow>
           bind_ok (codex_subagent_base_model raw_model) (\<lambda>base.
             case Option.bind base normalize_model_name of
               Some base_model \<Rightarrow> Inr (listed allowlist base_model)
             | None \<Rightarrow> Inr (listed allowlist name)))"

definition model_list_allows :: "string list \<Rightarrow> string \<Rightarrow> bool outcome_or_panic" where
  "model_list_allows allowlist model =
    (if allowlist = [] then Inr True
     else if ''*'' \<in> set allowlist then Inr True
     else portal_model_is_allowed allowlist model)"

text \<open>The store of model groups is an argument: it gives the models of a group or an error.\<close>

definition get_allowed_models :: "(string \<Rightarrow> string + string list) \<Rightarrow> downstream_config \<Rightarrow> string list" where
  "get_allowed_models store d =
    (case dc_model_group_id d of
       None \<Rightarrow> dc_model_allowlist d
     | Some group_id \<Rightarrow> (case store group_id of Inr models \<Rightarrow> models | Inl _ \<Rightarrow> dc_model_allowlist d))"

definition allows_model :: "(string \<Rightarrow> string + string list) \<Rightarrow> downstream_config \<Rightarrow> string \<Rightarrow> bool outcome_or_panic" where
  "allows_model store d model = model_list_allows (get_allowed_models store d) model"

section \<open>Usage logs\<close>

record usage_log =
  ul_log_id :: string
  ul_downstream_key_id :: string
  ul_request_id :: string
  ul_status_code :: nat
  ul_prompt_tokens :: nat
  ul_completion_tokens :: nat
  ul_total_cost_cents :: "nat option"
  ul_created_at :: nat

definition is_request_quota_counted :: "usage_log \<Rightarrow> bool" where
  "is_request_quota_counted log = (ul_status_code log \<noteq> 429 \<and> ul_status_code log < 500)"

fun dedup_logs :: "string list \<Rightarrow> usage_log list \<Rightarrow> usage_log list" where
  "dedup_logs seen [] = []"
| "dedup_logs seen (log # logs) =
    (if ul_log_id log \<in> set seen then dedup_logs seen logs
     else log # dedup_logs (ul_log_id log # seen) logs)"

definition normalized_usage_logs :: "usage_log list \<Rightarrow> usage_log list" where
  "normalized_usage_logs logs = dedup_logs [] (sort_key (\<lambda>log. (ul_created_at log, ul_request_id log, ul_log_id log)) logs)"

section \<open>The glob matcher\<close>







lemma find_str_Nil [simp]: "find_str [] s = Some 0"
  by (cases s) simp_all





text \<open>The names of validated groups are told apart by their trimmed spelling.\<close>

lemma validate_groups_distinct:
  assumes "validate_groups seen groups = Inr ()"
  shows "distinct (map (trim \<circ> mg_name) groups) \<and> set (map (trim \<circ> mg_name) groups) \<inter> set seen = {}
    \<and> (\<forall>g\<in>set groups. mg_max_concurrency g > 0 \<and> mg_patterns g \<noteq> [] \<and> trim (mg_name g) \<noteq> [])"
  using assms by (induction seen groups rule: validate_groups.induct) (auto split: if_splits)

text \<open>Normalising the logs orders them by time and keeps one log for each identifier.\<close>

lemma dedup_logs_spec:
  "distinct (map ul_log_id (dedup_logs seen logs))
    \<and> ul_log_id ` set (dedup_logs seen logs) = ul_log_id ` set logs - set seen"
  by (induction seen logs rule: dedup_logs.induct) auto

lemma dedup_logs_sorted:
  assumes "sorted_wrt r logs"
  shows "set (dedup_logs seen logs) \<subseteq> set logs \<and> sorted_wrt r (dedup_logs seen logs)"
  using assms by (induction seen logs rule: dedup_logs.induct) auto

lemma normalized_usage_logs_spec:
  "distinct (map ul_log_id (normalized_usage_logs logs))"
  "ul_log_id ` set (normalized_usage_logs logs) = ul_log_id ` set logs"
  using dedup_logs_spec [of "[]"] by (simp_all add: normalized_usage_logs_def)

lemma normalized_usage_logs_sorted: "sorted (map ul_created_at (normalized_usage_logs logs))"
proof -
  let ?key = "\<lambda>log. (ul_created_at log, ul_request_id log, ul_log_id log)"
  have "sorted (map ?key (sort_key ?key logs))" by simp
  then have "sorted_wrt (\<lambda>x y. ul_created_at x \<le> ul_created_at y) (sort_key ?key logs)"
    unfolding sorted_map by (rule sorted_wrt_mono_rel [rotated]) (auto simp: less_eq_prod_def)
  from dedup_logs_sorted [OF this] show ?thesis
    unfolding sorted_map normalized_usage_logs_def by blast
qed

end
