(* ===== verification/Downstream_Admission.thy ===== *)
theory Downstream_Admission
  imports Downstream_Config Upstream_Leases
begin

text \<open>
  The process-local admission of requests of downstream keys (\<open>src/src/state.rs\<close>,
  \<open>src/src/state/usage.rs\<close>): the windows of admitted requests and of booked costs, the concurrency leases
  per key and model group, and the handlers that reserve, release, renew and report them. A call
  reads the seconds and the milliseconds of the wall clock once: they are arguments, like the UUIDs.
\<close>

section \<open>State\<close>

record downstream_token_event =
  te_created_at :: nat
  te_tokens :: nat

record downstream_request_event =
  re_event_id :: string
  re_created_at :: nat

record downstream_lease_state =
  ds_admitted :: "(string, nat) hashmap"
  ds_waiting :: "string list"

definition lease_state_default :: downstream_lease_state where
  "lease_state_default = \<lparr>ds_admitted = [], ds_waiting = []\<rparr>"

definition lease_prune_expired :: "nat \<Rightarrow> downstream_lease_state \<Rightarrow> downstream_lease_state" where
  "lease_prune_expired now_ms s =
    (let admitted = hm_retain (\<lambda>_ expires_at. expires_at > now_ms) (ds_admitted s)
     in \<lparr>ds_admitted = admitted, ds_waiting = filter (hm_contains admitted) (ds_waiting s)\<rparr>)"

definition lease_state_is_empty :: "downstream_lease_state \<Rightarrow> bool" where
  "lease_state_is_empty s = (ds_admitted s = [] \<and> ds_waiting s = [])"

type_synonym downstream_lease_key = "string \<times> string"

record downstream_gate =
  dg_request_windows :: "(string, downstream_request_event list) hashmap"
  dg_token_windows :: "(string, downstream_token_event list) hashmap"
  dg_runtime :: "(downstream_lease_key, downstream_lease_state) hashmap"

definition downstream_gate_new :: downstream_gate where
  "downstream_gate_new = \<lparr>dg_request_windows = [], dg_token_windows = [], dg_runtime = []\<rparr>"

definition buckets_of :: "(downstream_lease_key, downstream_lease_state) hashmap \<Rightarrow> string \<Rightarrow> downstream_lease_state list" where
  "buckets_of runtime downstream_id = map snd (filter (\<lambda>((id, _), _). id = downstream_id) runtime)"

definition downstream_total_admitted :: "(downstream_lease_key, downstream_lease_state) hashmap \<Rightarrow> string \<Rightarrow> nat" where
  "downstream_total_admitted runtime downstream_id =
    sum_list (map (\<lambda>s. length (ds_admitted s)) (buckets_of runtime downstream_id))"

record downstream_request_reservation =
  dr_downstream_id :: string
  dr_event_id :: "string option"

record downstream_concurrency_lease =
  dl_downstream_id :: string
  dl_group_name :: string
  dl_lease_id :: "string option"

datatype downstream_admission_rejection =
    CoordinationUnavailable
  | ConcurrencyLimitExceeded nat nat "string option"
  | PerMinuteLimitExceeded nat nat nat
  | RequestQuotaExceeded nat nat nat nat
  | DailyCostQuotaExceeded nat nat nat

fun rejection_retry_after_seconds :: "downstream_admission_rejection \<Rightarrow> nat" where
  "rejection_retry_after_seconds CoordinationUnavailable = 1"
| "rejection_retry_after_seconds (ConcurrencyLimitExceeded retry _ _) = max retry 1"
| "rejection_retry_after_seconds (PerMinuteLimitExceeded retry _ _) = max retry 1"
| "rejection_retry_after_seconds (RequestQuotaExceeded retry _ _ _) = max retry 1"
| "rejection_retry_after_seconds (DailyCostQuotaExceeded retry _ _) = max retry 1"

text \<open>What an admission reads of the application state: the settings, the cost ledgers and the keys.\<close>

record admission_env =
  ae_model_case_insensitive_matching :: bool
  ae_downstream_lease_ttl_seconds :: nat
  ae_downstream_owners :: "(string, string) hashmap"
  ae_cost_scope_limits :: "(string, nat) hashmap"
  ae_downstreams :: "downstream_config list"

definition cost_scope_for :: "admission_env \<Rightarrow> string \<Rightarrow> cost_scope" where
  "cost_scope_for env downstream_id = resolve_cost_scope downstream_id (ae_downstream_owners env) (ae_cost_scope_limits env)"

section \<open>Windows rebuilt from the usage logs\<close>

definition push_back :: "'k \<Rightarrow> 'v \<Rightarrow> ('k, 'v list) hashmap \<Rightarrow> ('k, 'v list) hashmap" where
  "push_back k v m = AList.update k (hm_entry_or k [] m @ [v]) m"

definition build_downstream_request_windows :: "usage_log list \<Rightarrow> (string, downstream_request_event list) hashmap" where
  "build_downstream_request_windows logs =
    fold (\<lambda>log. push_back (ul_downstream_key_id log)
        \<lparr>re_event_id = ''history:'' @ ul_log_id log, re_created_at = ul_created_at log\<rparr>)
      (filter is_request_quota_counted (normalized_usage_logs logs)) []"

definition build_downstream_token_windows ::
  "usage_log list \<Rightarrow> downstream_config list \<Rightarrow> (string, string) hashmap \<Rightarrow> (string, nat) hashmap
   \<Rightarrow> (string, downstream_token_event list) hashmap" where
  "build_downstream_token_windows logs downstreams owners limits =
    fold (\<lambda>log. push_back (cs_scope_id (resolve_cost_scope (ul_downstream_key_id log) owners limits))
        \<lparr>te_created_at = ul_created_at log, te_tokens = unwrap_or (ul_total_cost_cents log) 0\<rparr>)
      (filter (\<lambda>log. list_ex (\<lambda>d. dc_id d = ul_downstream_key_id log \<and> has_cost_pricing d) downstreams)
        (filter is_request_quota_counted (normalized_usage_logs logs))) []"

section \<open>The daily cost window\<close>

definition daily_window_seconds :: nat where "daily_window_seconds = 24 * 60 * 60"

definition downstream_token_retention_seconds :: "downstream_config \<Rightarrow> cost_scope \<Rightarrow> nat" where
  "downstream_token_retention_seconds d scope =
    (if has_cost_pricing d \<and> is_limited scope then daily_window_seconds else 60)"

fun freed_by :: "nat \<Rightarrow> nat \<Rightarrow> downstream_token_event list \<Rightarrow> downstream_token_event option" where
  "freed_by freed deficit [] = None"
| "freed_by freed deficit (event # events) =
    (let freed' = u64_saturating_add freed (te_tokens event)
     in if freed' \<ge> deficit then Some event else freed_by freed' deficit events)"

definition downstream_token_retry_after_seconds :: "downstream_token_event list \<Rightarrow> nat \<Rightarrow> nat \<Rightarrow> nat \<Rightarrow> nat" where
  "downstream_token_retry_after_seconds events now window_seconds deficit =
    (if deficit = 0 then 1
     else case freed_by 0 deficit events of
       Some event \<Rightarrow> max (u64_saturating_add (te_created_at event) window_seconds - now) 1
     | None \<Rightarrow> max window_seconds 1)"

definition prune_token_window :: "nat \<Rightarrow> nat \<Rightarrow> downstream_token_event list \<Rightarrow> downstream_token_event list" where
  "prune_token_window now retention_seconds w = dropWhile (\<lambda>e. te_created_at e < now - (retention_seconds - 1)) w"

text \<open>The sum wraps around at 64 bits, as the release build of the program does.\<close>

definition daily_used :: "nat \<Rightarrow> downstream_token_event list \<Rightarrow> nat" where
  "daily_used now w =
    sum_list (map te_tokens (filter (\<lambda>e. te_created_at e \<ge> now - (daily_window_seconds - 1)) w)) mod 2 ^ 64"

definition cost_rejection :: "nat \<Rightarrow> nat \<Rightarrow> downstream_token_event list \<Rightarrow> downstream_admission_rejection option" where
  "cost_rejection limit now w =
    (let used = daily_used now w in
     if used \<ge> max limit 1
     then Some (DailyCostQuotaExceeded
       (max (downstream_token_retry_after_seconds w now daily_window_seconds (u64_saturating_add used 1 - max limit 1)) 1)
       (max limit 1) used)
     else None)"

definition cost_gate ::
  "admission_env \<Rightarrow> downstream_config \<Rightarrow> nat \<Rightarrow> downstream_gate \<Rightarrow> downstream_admission_rejection option \<times> downstream_gate" where
  "cost_gate env d now g =
    (let scope = cost_scope_for env (dc_id d) in
     case filter_option (\<lambda>limit. limit > 0) (cs_daily_limit_cents scope) of
       None \<Rightarrow> (None, g)
     | Some limit \<Rightarrow>
         (let w = prune_token_window now (downstream_token_retention_seconds d scope)
                    (hm_entry_or (cs_scope_id scope) [] (dg_token_windows g))
          in (cost_rejection limit now w,
              g\<lparr>dg_token_windows := AList.update (cs_scope_id scope) w (dg_token_windows g)\<rparr>)))"

section \<open>The request windows\<close>

definition quota_window_seconds :: "downstream_config \<Rightarrow> nat option" where
  "quota_window_seconds d =
    (case (dc_request_quota_window_hours d, dc_request_quota_requests d) of
       (Some hours, Some _) \<Rightarrow> Some (max hours 1 * (60 * 60))
     | _ \<Rightarrow> None)"

definition request_retention_seconds :: "downstream_config \<Rightarrow> nat" where
  "request_retention_seconds d = max (unwrap_or (quota_window_seconds d) 60) 60"

definition prune_request_window :: "nat \<Rightarrow> nat \<Rightarrow> downstream_request_event list \<Rightarrow> downstream_request_event list" where
  "prune_request_window now retention_seconds w =
    dropWhile (\<lambda>e. re_created_at e < now - (retention_seconds - 1)) w"

definition within_last :: "nat \<Rightarrow> nat \<Rightarrow> downstream_request_event \<Rightarrow> bool" where
  "within_last secs now e = (re_created_at e \<ge> now - (secs - 1))"

definition count_last :: "nat \<Rightarrow> nat \<Rightarrow> downstream_request_event list \<Rightarrow> nat" where
  "count_last secs now w = length (filter (within_last secs now) w)"

definition window_retry_after :: "nat \<Rightarrow> nat \<Rightarrow> downstream_request_event list \<Rightarrow> nat" where
  "window_retry_after secs now w =
    (let oldest = unwrap_or (map_option re_created_at (find (within_last secs now) w)) now
     in max (u64_saturating_add oldest secs - now) 1)"

definition minute_rejection :: "downstream_config \<Rightarrow> nat \<Rightarrow> downstream_request_event list \<Rightarrow> downstream_admission_rejection option" where
  "minute_rejection d now w =
    (if count_last 60 now w \<ge> dc_per_minute_limit d
     then Some (PerMinuteLimitExceeded (window_retry_after 60 now w) (dc_per_minute_limit d) (count_last 60 now w mod 2 ^ 32))
     else None)"

definition quota_rejection :: "downstream_config \<Rightarrow> nat \<Rightarrow> downstream_request_event list \<Rightarrow> downstream_admission_rejection option" where
  "quota_rejection d now w =
    (if token_billing_mode d then None
     else case quota_window_seconds d of
       None \<Rightarrow> None
     | Some secs \<Rightarrow>
         (let requests = max (unwrap_or (dc_request_quota_requests d) 0) 1 in
          if count_last secs now w \<ge> requests
          then Some (RequestQuotaExceeded (window_retry_after secs now w) requests (count_last secs now w mod 2 ^ 32) secs)
          else None))"

definition put_window :: "string \<Rightarrow> downstream_request_event list \<Rightarrow> downstream_gate \<Rightarrow> downstream_gate" where
  "put_window downstream_id w g = g\<lparr>dg_request_windows := AList.update downstream_id w (dg_request_windows g)\<rparr>"

definition reserve_downstream_request ::
  "admission_env \<Rightarrow> downstream_config \<Rightarrow> string \<Rightarrow> nat \<Rightarrow> downstream_gate
   \<Rightarrow> (downstream_admission_rejection + downstream_request_reservation) \<times> downstream_gate" where
  "reserve_downstream_request env d event_id now g =
    (if \<not> dc_rate_limit_enabled d then (Inr \<lparr>dr_downstream_id = dc_id d, dr_event_id = None\<rparr>, g)
     else
       let w = prune_request_window now (request_retention_seconds d) (hm_entry_or (dc_id d) [] (dg_request_windows g));
           g1 = put_window (dc_id d) w g in
       case minute_rejection d now w of
         Some r \<Rightarrow> (Inl r, g1)
       | None \<Rightarrow>
           (case quota_rejection d now w of
              Some r \<Rightarrow> (Inl r, g1)
            | None \<Rightarrow>
                (case cost_gate env d now g1 of
                   (Some r, g2) \<Rightarrow> (Inl r, g2)
                 | (None, g2) \<Rightarrow>
                     (Inr \<lparr>dr_downstream_id = dc_id d, dr_event_id = Some event_id\<rparr>,
                      put_window (dc_id d) (w @ [\<lparr>re_event_id = event_id, re_created_at = now\<rparr>]) g2))))"

definition rollback_downstream_request_reservation ::
  "downstream_request_reservation \<Rightarrow> downstream_gate \<Rightarrow> downstream_gate" where
  "rollback_downstream_request_reservation reservation g =
    (case dr_event_id reservation of
       None \<Rightarrow> g
     | Some event_id \<Rightarrow>
         (case map_of (dg_request_windows g) (dr_downstream_id reservation) of
            None \<Rightarrow> g
          | Some window \<Rightarrow>
              (let w = filter (\<lambda>e. re_event_id e \<noteq> event_id) window in
               if w = []
               then g\<lparr>dg_request_windows := AList.delete (dr_downstream_id reservation) (dg_request_windows g)\<rparr>
               else put_window (dr_downstream_id reservation) w g)))"

definition record_downstream_usage_event :: "admission_env \<Rightarrow> usage_log \<Rightarrow> downstream_gate \<Rightarrow> downstream_gate" where
  "record_downstream_usage_event env log g =
    (if ul_status_code log = 429 \<or> ul_status_code log \<ge> 500 then g
     else let scope = cost_scope_for env (ul_downstream_key_id log) in
       case filter_option (\<lambda>d. dc_rate_limit_enabled d \<and> has_cost_pricing d \<and> is_limited scope)
              (find (\<lambda>d. dc_id d = ul_downstream_key_id log) (ae_downstreams env)) of
         None \<Rightarrow> g
       | Some d \<Rightarrow>
           g\<lparr>dg_token_windows := push_back (cs_scope_id scope)
              \<lparr>te_created_at = ul_created_at log,
               te_tokens = unwrap_or (ul_total_cost_cents log)
                 (cost_for_tokens d (ul_prompt_tokens log) (ul_completion_tokens log))\<rparr> (dg_token_windows g)\<rparr>)"

section \<open>Concurrency leases\<close>

definition lease_duration_ms :: "admission_env \<Rightarrow> nat" where
  "lease_duration_ms env = max (min (ae_downstream_lease_ttl_seconds env * 1000) u64_max) 60000"

definition prune_bucket :: "downstream_lease_key \<Rightarrow> nat \<Rightarrow> (downstream_lease_key, downstream_lease_state) hashmap
    \<Rightarrow> downstream_lease_state" where
  "prune_bucket key now_ms runtime = lease_prune_expired now_ms (hm_entry_or key lease_state_default runtime)"

definition try_reserve_downstream_concurrency ::
  "admission_env \<Rightarrow> downstream_config \<Rightarrow> string \<Rightarrow> string \<Rightarrow> nat \<Rightarrow> downstream_gate
   \<Rightarrow> (downstream_admission_rejection + downstream_concurrency_lease) \<times> downstream_gate" where
  "try_reserve_downstream_concurrency env d model lease_id now_ms g =
    (if \<not> dc_rate_limit_enabled d
     then (Inr \<lparr>dl_downstream_id = dc_id d, dl_group_name = [], dl_lease_id = None\<rparr>, g)
     else
       let matched = concurrency_group_for_model d model (ae_model_case_insensitive_matching env);
           group_name = unwrap_or (map_option mg_name matched) [];
           key = (dc_id d, group_name);
           group_cap = map_option (\<lambda>gr. max (mg_max_concurrency gr) 1) matched;
           runtime = (if group_cap = None then dg_runtime g
                      else AList.update key (prune_bucket key now_ms (dg_runtime g)) (dg_runtime g)) in
       if is_some_and group_cap (\<lambda>cap. length (ds_admitted (prune_bucket key now_ms (dg_runtime g))) \<ge> cap)
       then (Inl (ConcurrencyLimitExceeded 1 (the group_cap) (Some group_name)), g\<lparr>dg_runtime := runtime\<rparr>)
       else if downstream_total_admitted runtime (dc_id d) \<ge> max (dc_max_concurrency d) 1
       then (Inl (ConcurrencyLimitExceeded 1 (max (dc_max_concurrency d) 1) (if group_name = [] then None else Some group_name)),
             g\<lparr>dg_runtime := runtime\<rparr>)
       else
         let s = prune_bucket key now_ms runtime;
             s' = s\<lparr>ds_admitted := AList.update lease_id (u64_saturating_add now_ms (lease_duration_ms env)) (ds_admitted s)\<rparr>
         in (Inr \<lparr>dl_downstream_id = dc_id d, dl_group_name = group_name, dl_lease_id = Some lease_id\<rparr>,
             g\<lparr>dg_runtime := AList.update key s' runtime\<rparr>))"

definition reserve_downstream_admission ::
  "admission_env \<Rightarrow> downstream_config \<Rightarrow> string \<Rightarrow> string \<Rightarrow> string \<Rightarrow> nat \<Rightarrow> nat \<Rightarrow> downstream_gate
   \<Rightarrow> (downstream_admission_rejection + downstream_request_reservation \<times> downstream_concurrency_lease) \<times> downstream_gate" where
  "reserve_downstream_admission env d model event_id lease_id now now_ms g =
    (if \<not> dc_rate_limit_enabled d
     then (Inr (\<lparr>dr_downstream_id = dc_id d, dr_event_id = None\<rparr>,
                \<lparr>dl_downstream_id = dc_id d, dl_group_name = [], dl_lease_id = None\<rparr>), g)
     else case reserve_downstream_request env d event_id now g of
       (Inl r, g1) \<Rightarrow> (Inl r, g1)
     | (Inr reservation, g1) \<Rightarrow>
         (case try_reserve_downstream_concurrency env d model lease_id now_ms g1 of
            (Inr lease, g2) \<Rightarrow> (Inr (reservation, lease), g2)
          | (Inl r, g2) \<Rightarrow> (Inl r, rollback_downstream_request_reservation reservation g2)))"

definition bucket_key :: "downstream_concurrency_lease \<Rightarrow> downstream_lease_key" where
  "bucket_key lease = (dl_downstream_id lease, dl_group_name lease)"

definition drop_lease ::
  "downstream_lease_key \<Rightarrow> string \<Rightarrow> downstream_gate \<Rightarrow> bool \<times> downstream_gate" where
  "drop_lease key lease_id g =
    (case map_of (dg_runtime g) key of
       None \<Rightarrow> (False, g)
     | Some s \<Rightarrow>
         (let s' = \<lparr>ds_admitted = AList.delete lease_id (ds_admitted s), ds_waiting = removeAll lease_id (ds_waiting s)\<rparr> in
          if lease_state_is_empty s' then (True, g\<lparr>dg_runtime := AList.delete key (dg_runtime g)\<rparr>)
          else (False, g\<lparr>dg_runtime := AList.update key s' (dg_runtime g)\<rparr>)))"

definition release_downstream_concurrency ::
  "downstream_concurrency_lease \<Rightarrow> lease_release_state \<Rightarrow> downstream_gate
   \<Rightarrow> (coordination_error + unit) \<times> lease_release_state \<times> downstream_gate" where
  "release_downstream_concurrency lease state g =
    (case release_guard_acquire state of
       Inl e \<Rightarrow> (Inl e, state, g)
     | Inr None \<Rightarrow> (Inr (), state, g)
     | Inr (Some _) \<Rightarrow>
         (case dl_lease_id lease of
            None \<Rightarrow> (Inr (), Released, g)
          | Some lease_id \<Rightarrow> (Inr (), Released, snd (drop_lease (bucket_key lease) lease_id g))))"

definition expire_downstream_request_lease_sync ::
  "downstream_concurrency_lease \<Rightarrow> lease_release_state \<Rightarrow> downstream_gate \<Rightarrow> bool \<times> lease_release_state \<times> downstream_gate" where
  "expire_downstream_request_lease_sync lease state g =
    (case dl_lease_id lease of
       None \<Rightarrow> (False, state, g)
     | Some lease_id \<Rightarrow>
         (case release_guard_acquire state of
            Inr (Some _) \<Rightarrow> (let (removed, g') = drop_lease (bucket_key lease) lease_id g in (removed, Released, g'))
          | _ \<Rightarrow> (False, state, g)))"

definition renew_downstream_concurrency ::
  "admission_env \<Rightarrow> downstream_concurrency_lease \<Rightarrow> nat \<Rightarrow> downstream_gate \<Rightarrow> downstream_gate" where
  "renew_downstream_concurrency env lease now_ms g =
    (case dl_lease_id lease of
       None \<Rightarrow> g
     | Some lease_id \<Rightarrow>
         g\<lparr>dg_runtime := hm_modify (bucket_key lease) (\<lambda>s.
            if hm_contains (ds_admitted s) lease_id
            then s\<lparr>ds_admitted := AList.update lease_id (u64_saturating_add now_ms (lease_duration_ms env)) (ds_admitted s)\<rparr>
            else s) (dg_runtime g)\<rparr>)"

definition mark_downstream_waiting ::
  "downstream_concurrency_lease \<Rightarrow> nat \<Rightarrow> downstream_gate \<Rightarrow> (coordination_error + unit) \<times> downstream_gate" where
  "mark_downstream_waiting lease now_ms g =
    (case dl_lease_id lease of
       None \<Rightarrow> (Inr (), g)
     | Some lease_id \<Rightarrow>
         (case map_of (dg_runtime g) (bucket_key lease) of
            None \<Rightarrow> (Inl CoordinationError, g)
          | Some s0 \<Rightarrow>
              (let s = lease_prune_expired now_ms s0 in
               if hm_contains (ds_admitted s) lease_id
               then (Inr (), g\<lparr>dg_runtime := AList.update (bucket_key lease) (s\<lparr>ds_waiting := List.insert lease_id (ds_waiting s)\<rparr>) (dg_runtime g)\<rparr>)
               else (Inl CoordinationError, g\<lparr>dg_runtime := AList.update (bucket_key lease) s (dg_runtime g)\<rparr>))))"

definition unmark_downstream_waiting :: "downstream_concurrency_lease \<Rightarrow> downstream_gate \<Rightarrow> downstream_gate" where
  "unmark_downstream_waiting lease g =
    (case dl_lease_id lease of
       None \<Rightarrow> g
     | Some lease_id \<Rightarrow>
         g\<lparr>dg_runtime := hm_modify (bucket_key lease) (\<lambda>s. s\<lparr>ds_waiting := removeAll lease_id (ds_waiting s)\<rparr>) (dg_runtime g)\<rparr>)"

section \<open>Snapshots and clearing\<close>

record downstream_runtime_counts =
  rc_admitted :: nat
  rc_waiting_upstream :: nat
  rc_running :: nat

definition u32_total :: "nat list \<Rightarrow> nat" where
  "u32_total xs = fold (\<lambda>n total. u32_saturating_add total (min n u32_max)) xs 0"

definition prune_downstream_buckets :: "string \<Rightarrow> nat \<Rightarrow> downstream_gate \<Rightarrow> downstream_gate" where
  "prune_downstream_buckets downstream_id now_ms g =
    g\<lparr>dg_runtime := map (\<lambda>(key, s). (key,
        if fst key = downstream_id \<and> (ds_waiting s \<noteq> [] \<or> ds_admitted s \<noteq> []) then lease_prune_expired now_ms s else s))
      (dg_runtime g)\<rparr>"

definition bucket_totals :: "string \<Rightarrow> downstream_gate \<Rightarrow> nat \<times> nat" where
  "bucket_totals downstream_id g =
    (u32_total (map (\<lambda>s. length (ds_admitted s)) (buckets_of (dg_runtime g) downstream_id)),
     u32_total (map (\<lambda>s. length (ds_waiting s)) (buckets_of (dg_runtime g) downstream_id)))"

definition downstream_runtime_snapshot ::
  "string \<Rightarrow> nat \<Rightarrow> downstream_gate \<Rightarrow> (coordination_error + downstream_runtime_counts) \<times> downstream_gate" where
  "downstream_runtime_snapshot downstream_id now_ms g =
    (let g' = prune_downstream_buckets downstream_id now_ms g; (admitted, waiting) = bucket_totals downstream_id g' in
     (if waiting \<le> admitted
      then Inr \<lparr>rc_admitted = admitted, rc_waiting_upstream = waiting, rc_running = admitted - waiting\<rparr>
      else Inl CoordinationError, g'))"

record downstream_concurrency_snapshot =
  dn_available :: bool
  dn_running :: "nat option"
  dn_waiting_upstream :: "nat option"
  dn_admitted :: "nat option"
  dn_limit :: nat
  dn_updated_at :: nat

definition snapshot_unavailable :: "nat \<Rightarrow> nat \<Rightarrow> downstream_concurrency_snapshot" where
  "snapshot_unavailable limit now =
    \<lparr>dn_available = False, dn_running = None, dn_waiting_upstream = None, dn_admitted = None, dn_limit = limit, dn_updated_at = now\<rparr>"

definition from_counts :: "nat \<Rightarrow> nat \<Rightarrow> nat \<Rightarrow> nat \<Rightarrow> downstream_concurrency_snapshot" where
  "from_counts admitted waiting limit now =
    (if waiting \<le> admitted
     then \<lparr>dn_available = True, dn_running = Some (admitted - waiting), dn_waiting_upstream = Some waiting,
           dn_admitted = Some admitted, dn_limit = limit, dn_updated_at = now\<rparr>
     else snapshot_unavailable limit now)"

definition all_downstream_runtime_snapshots ::
  "admission_env \<Rightarrow> nat \<Rightarrow> nat \<Rightarrow> downstream_gate \<Rightarrow> (string \<times> downstream_concurrency_snapshot) list \<times> downstream_gate" where
  "all_downstream_runtime_snapshots env now now_ms g =
    (let g' = g\<lparr>dg_runtime := map (\<lambda>(key, s). (key, lease_prune_expired now_ms s)) (dg_runtime g)\<rparr> in
     (map (\<lambda>d. let (admitted, waiting) = bucket_totals (dc_id d) g'
               in (dc_id d, from_counts admitted waiting (dc_max_concurrency d) now)) (ae_downstreams env), g'))"

definition clear_downstream_runtime :: "string \<Rightarrow> downstream_gate \<Rightarrow> downstream_gate" where
  "clear_downstream_runtime downstream_id g =
    \<lparr>dg_request_windows = AList.delete downstream_id (dg_request_windows g),
     dg_token_windows = AList.delete downstream_id (dg_token_windows g),
     dg_runtime = hm_retain (\<lambda>(id, _) _. id \<noteq> downstream_id) (dg_runtime g)\<rparr>"

end
