(* ===== verification/Downstream_Admission_Properties.thy ===== *)
theory Downstream_Admission_Properties
  imports Downstream_Admission
begin

text \<open>
  The admission of downstream requests as one transition system, with the log of the requests it
  admitted as a ghost: the per-minute limit and the request quota hold over every window of the
  log, the leases stay within the caps, a rejection leaves no trace, and the waits it names are
  exact. Two theorems record how the code departs from its intent: lapsed leases that block, and
  booked costs that are forgotten.
\<close>

section \<open>Windows of admitted requests\<close>

definition window_of :: "downstream_gate \<Rightarrow> string \<Rightarrow> downstream_request_event list" where
  "window_of g downstream_id = hm_entry_or downstream_id [] (dg_request_windows g)"

lemma window_of_put [simp]:
  "window_of (put_window downstream_id w g) other = (if other = downstream_id then w else window_of g other)"
  by (simp add: window_of_def put_window_def hm_entry_or_def)

lemma cost_gate_windows [simp]: "dg_request_windows (snd (cost_gate env d now g)) = dg_request_windows g"
  by (simp add: cost_gate_def Let_def split: option.split)

lemma cost_gate_runtime [simp]: "dg_runtime (snd (cost_gate env d now g)) = dg_runtime g"
  by (simp add: cost_gate_def Let_def split: option.split)

lemma window_of_cost_gate [simp]: "window_of (snd (cost_gate env d now g)) other = window_of g other"
  by (simp add: window_of_def)

lemma window_of_rollback:
  "window_of (rollback_downstream_request_reservation r g) other =
    (case dr_event_id r of
       Some i \<Rightarrow> if other = dr_downstream_id r then filter (\<lambda>e. re_event_id e \<noteq> i) (window_of g other) else window_of g other
     | None \<Rightarrow> window_of g other)"
  by (auto simp: rollback_downstream_request_reservation_def Let_def put_window_def window_of_def hm_entry_or_def
      split: option.splits)

definition pruned_window :: "downstream_config \<Rightarrow> nat \<Rightarrow> downstream_gate \<Rightarrow> downstream_request_event list" where
  "pruned_window d now g = prune_request_window now (request_retention_seconds d) (window_of g (dc_id d))"

lemma reserve_request_cases:
  assumes "reserve_downstream_request env d event_id now g = (out, g')" "dc_rate_limit_enabled d"
  obtains (rejected) r where "out = Inl r"
      "\<And>other. window_of g' other = (if other = dc_id d then pruned_window d now g else window_of g other)"
  | (granted) "out = Inr \<lparr>dr_downstream_id = dc_id d, dr_event_id = Some event_id\<rparr>"
      "minute_rejection d now (pruned_window d now g) = None" "quota_rejection d now (pruned_window d now g) = None"
      "fst (cost_gate env d now (put_window (dc_id d) (pruned_window d now g) g)) = None"
      "\<And>other. window_of g' other = (if other = dc_id d then pruned_window d now g @ [\<lparr>re_event_id = event_id, re_created_at = now\<rparr>]
         else window_of g other)"
proof -
  let ?w = "pruned_window d now g"
  have w: "prune_request_window now (request_retention_seconds d) (hm_entry_or (dc_id d) [] (dg_request_windows g)) = ?w"
    by (simp add: pruned_window_def window_of_def)
  obtain c g2 where cost: "cost_gate env d now (put_window (dc_id d) ?w g) = (c, g2)" by (cases "cost_gate env d now (put_window (dc_id d) ?w g)")
  have g2: "window_of g2 other = window_of (put_window (dc_id d) ?w g) other" for other
    using window_of_cost_gate [of env d now "put_window (dc_id d) ?w g" other] cost by simp
  show thesis
  proof (cases "minute_rejection d now ?w = None \<and> quota_rejection d now ?w = None \<and> c = None")
    case True
    show thesis
      by (rule granted; use assms True cost g2 in \<open>simp add: reserve_downstream_request_def w Let_def\<close>)
         (use assms True cost g2 in \<open>auto simp: reserve_downstream_request_def w Let_def\<close>)
  next
    case False
    then have "\<exists>r. out = Inl r"
      using assms cost by (auto simp: reserve_downstream_request_def w Let_def split: option.splits)
    then obtain r where "out = Inl r" by blast
    then show thesis
      by (rule rejected) (use assms False cost g2 in \<open>auto simp: reserve_downstream_request_def w Let_def split: option.splits\<close>)
  qed
qed

lemma reserve_request_runtime [simp]:
  "dg_runtime (snd (reserve_downstream_request env d event_id now g)) = dg_runtime g"
proof -
  have "dg_runtime g2 = dg_runtime g" if "cost_gate env d now (put_window (dc_id d) w g) = (c, g2)" for w c g2
    using arg_cong [OF that, of "dg_runtime \<circ> snd"] by (simp add: put_window_def)
  then show ?thesis
    by (auto simp: reserve_downstream_request_def Let_def put_window_def split: option.splits prod.splits)
qed

lemma try_concurrency_windows [simp]:
  "dg_request_windows (snd (try_reserve_downstream_concurrency env d model lease_id now_ms g)) = dg_request_windows g"
  by (simp add: try_reserve_downstream_concurrency_def Let_def)

lemma window_of_try_concurrency [simp]:
  "window_of (snd (try_reserve_downstream_concurrency env d model lease_id now_ms g)) other = window_of g other"
  by (simp add: window_of_def)

lemma rollback_runtime [simp]: "dg_runtime (rollback_downstream_request_reservation r g) = dg_runtime g"
  by (simp add: rollback_downstream_request_reservation_def Let_def put_window_def split: option.split)

text \<open>An admission either adds its event to the pruned window of its key, or only prunes it.\<close>

lemma admission_cases:
  assumes "reserve_downstream_admission env d model event_id lease_id now now_ms g = (out, g')" "dc_rate_limit_enabled d"
    "event_id \<notin> re_event_id ` set (pruned_window d now g)"
  obtains (rejected) r where "out = Inl r"
      "\<And>other. window_of g' other = (if other = dc_id d then pruned_window d now g else window_of g other)"
  | (granted) lease where "out = Inr (\<lparr>dr_downstream_id = dc_id d, dr_event_id = Some event_id\<rparr>, lease)"
      "minute_rejection d now (pruned_window d now g) = None" "quota_rejection d now (pruned_window d now g) = None"
      "\<And>other. window_of g' other = (if other = dc_id d then pruned_window d now g @ [\<lparr>re_event_id = event_id, re_created_at = now\<rparr>]
         else window_of g other)"
proof -
  obtain res g1 where req: "reserve_downstream_request env d event_id now g = (res, g1)"
    by (cases "reserve_downstream_request env d event_id now g")
  obtain con g2 where con: "try_reserve_downstream_concurrency env d model lease_id now_ms g1 = (con, g2)"
    by (cases "try_reserve_downstream_concurrency env d model lease_id now_ms g1")
  have g2: "window_of g2 other = window_of g1 other" for other
    using window_of_try_concurrency [of env d model lease_id now_ms g1 other] con by simp
  from req assms(2) show thesis
  proof (cases rule: reserve_request_cases)
    case (rejected r)
    show thesis
      by (rule that(1) [of r]; use rejected assms(1,2) req in \<open>simp add: reserve_downstream_admission_def\<close>)
  next
    case granted
    have same: "filter (\<lambda>e. re_event_id e \<noteq> event_id) (pruned_window d now g) = pruned_window d now g"
      using assms(3) by (auto simp: filter_id_conv)
    show thesis
    proof (cases con)
      case (Inl r)
      show thesis
        by (rule that(1) [of r]; use Inl granted assms(1,2) req con g2 same in
            \<open>auto simp: reserve_downstream_admission_def window_of_rollback\<close>)
    next
      case (Inr lease)
      show thesis
        by (rule that(2) [of lease]; use Inr granted assms(1,2) req con g2 in \<open>simp add: reserve_downstream_admission_def\<close>)
    qed
  qed
qed

section \<open>Limits over every window of the log\<close>

definition in_span :: "nat \<Rightarrow> nat \<Rightarrow> downstream_request_event \<Rightarrow> bool" where
  "in_span start secs e = (start \<le> re_created_at e \<and> re_created_at e < start + secs)"

definition spaced :: "nat \<Rightarrow> nat \<Rightarrow> downstream_request_event list \<Rightarrow> bool" where
  "spaced secs limit log = (\<forall>start. length (filter (in_span start secs) log) \<le> limit)"

definition sorted_until :: "nat \<Rightarrow> downstream_request_event list \<Rightarrow> bool" where
  "sorted_until clock log = (sorted (map re_created_at log) \<and> (\<forall>e\<in>set log. re_created_at e \<le> clock))"

lemma length_filter_mono: "(\<And>x. x \<in> set xs \<Longrightarrow> P x \<Longrightarrow> Q x) \<Longrightarrow> length (filter P xs) \<le> length (filter Q xs)"
  by (induction xs) auto

lemma spaced_filter: "spaced secs limit log \<Longrightarrow> spaced secs limit (filter P log)"
proof -
  have "length (filter Q (filter P log)) \<le> length (filter Q log)" for Q by (induction log) auto
  then show "spaced secs limit log \<Longrightarrow> spaced secs limit (filter P log)"
    unfolding spaced_def using le_trans by blast
qed

lemma spaced_append:
  assumes "spaced secs limit log" "count_last secs now log < limit" "re_created_at e = now"
    "\<forall>e\<in>set log. re_created_at e \<le> now" "secs > 0"
  shows "spaced secs limit (log @ [e])"
  unfolding spaced_def
proof
  fix start
  show "length (filter (in_span start secs) (log @ [e])) \<le> limit"
  proof (cases "in_span start secs e")
    case True
    have "length (filter (in_span start secs) log) \<le> count_last secs now log"
      unfolding count_last_def
      by (rule length_filter_mono) (use True assms(3,4,5) in \<open>auto simp: in_span_def within_last_def\<close>)
    then show ?thesis using True assms(2) by simp
  next
    case False
    then show ?thesis using assms(1) by (simp add: spaced_def)
  qed
qed

lemma sorted_until_append: "sorted_until clock log \<Longrightarrow> clock \<le> re_created_at e \<Longrightarrow> sorted_until (re_created_at e) (log @ [e])"
  by (auto simp: sorted_until_def sorted_append intro: le_trans)

lemma sorted_until_filter: "sorted_until clock log \<Longrightarrow> sorted_until clock (filter P log)"
  by (auto simp: sorted_until_def sorted_filter)

lemma sorted_until_mono: "sorted_until clock log \<Longrightarrow> clock \<le> later \<Longrightarrow> sorted_until later log"
  by (auto simp: sorted_until_def intro: le_trans)

text \<open>The window holds the end of the log, from the retention time on.\<close>

definition recent_part :: "nat \<Rightarrow> nat \<Rightarrow> downstream_request_event list \<Rightarrow> downstream_request_event list \<Rightarrow> bool" where
  "recent_part retention clock log w = (\<exists>old. log = old @ w \<and> (\<forall>e\<in>set old. re_created_at e < clock - (retention - 1)))"

lemma recent_part_prune:
  assumes "recent_part retention clock log w" "clock \<le> now"
  shows "recent_part retention now log (prune_request_window now retention w)"
proof -
  obtain old where old: "log = old @ w" "\<forall>e\<in>set old. re_created_at e < clock - (retention - 1)"
    using assms(1) by (auto simp: recent_part_def)
  let ?P = "\<lambda>e. re_created_at e < now - (retention - 1)"
  have "log = (old @ takeWhile ?P w) @ dropWhile ?P w" using old(1) by simp
  moreover have "\<forall>e\<in>set (old @ takeWhile ?P w). ?P e"
    using old(2) assms(2) by (fastforce dest: set_takeWhileD)
  ultimately show ?thesis unfolding recent_part_def prune_request_window_def by blast
qed

lemma recent_part_mono: "recent_part retention clock log w \<Longrightarrow> clock \<le> now \<Longrightarrow> recent_part retention now log w"
  unfolding recent_part_def by fastforce

lemma recent_part_append: "recent_part retention clock log w \<Longrightarrow> recent_part retention clock (log @ [e]) (w @ [e])"
  by (auto simp: recent_part_def)

lemma recent_part_filter: "recent_part retention clock log w \<Longrightarrow> recent_part retention clock (filter P log) (filter P w)"
  by (auto simp: recent_part_def)

lemma count_last_recent:
  assumes "recent_part retention now log w" "secs \<le> retention"
  shows "count_last secs now w = count_last secs now log"
proof -
  obtain old where old: "log = old @ w" "\<forall>e\<in>set old. re_created_at e < now - (retention - 1)"
    using assms(1) by (auto simp: recent_part_def)
  have "filter (within_last secs now) old = []"
    using old(2) assms(2) by (fastforce simp: filter_empty_conv within_last_def)
  then show ?thesis using old(1) by (simp add: count_last_def)
qed

definition log_within_limits :: "downstream_config \<Rightarrow> downstream_request_event list \<Rightarrow> bool" where
  "log_within_limits d log =
    (spaced 60 (dc_per_minute_limit d) log
     \<and> (\<forall>secs requests. \<not> token_billing_mode d \<longrightarrow> quota_window_seconds d = Some secs \<longrightarrow> dc_request_quota_requests d = Some requests
          \<longrightarrow> spaced secs (max requests 1) log))"

lemma retention_covers:
  "60 \<le> request_retention_seconds d" "quota_window_seconds d = Some secs \<Longrightarrow> secs \<le> request_retention_seconds d"
  "quota_window_seconds d = Some secs \<Longrightarrow> secs > 0"
  by (auto simp: request_retention_seconds_def quota_window_seconds_def split: option.splits)

lemma log_within_limits_append:
  assumes "log_within_limits d log" "recent_part (request_retention_seconds d) now log w" "sorted_until now log"
    "minute_rejection d now w = None" "quota_rejection d now w = None"
  shows "log_within_limits d (log @ [\<lparr>re_event_id = event_id, re_created_at = now\<rparr>])"
proof -
  have upto: "\<forall>e\<in>set log. re_created_at e \<le> now" using assms(3) by (simp add: sorted_until_def)
  have "count_last 60 now log < dc_per_minute_limit d"
    using assms(4) count_last_recent [OF assms(2) retention_covers(1)] by (simp add: minute_rejection_def split: if_splits)
  then have "spaced 60 (dc_per_minute_limit d) (log @ [\<lparr>re_event_id = event_id, re_created_at = now\<rparr>])"
    using assms(1) upto by (intro spaced_append) (simp_all add: log_within_limits_def)
  moreover have "spaced secs (max requests 1) (log @ [\<lparr>re_event_id = event_id, re_created_at = now\<rparr>])"
    if quota: "\<not> token_billing_mode d" "quota_window_seconds d = Some secs" "dc_request_quota_requests d = Some requests" for secs requests
  proof (rule spaced_append [OF _ _ _ upto retention_covers(3) [OF quota(2)]])
    show "count_last secs now log < max requests 1"
      using assms(5) quota count_last_recent [OF assms(2) retention_covers(2) [OF quota(2)]]
      by (auto simp: quota_rejection_def Let_def less_max_iff_disj not_le split: if_splits)
  qed (use assms(1) quota in \<open>simp_all add: log_within_limits_def\<close>)
  ultimately show ?thesis by (simp add: log_within_limits_def)
qed

lemma log_within_limits_filter: "log_within_limits d log \<Longrightarrow> log_within_limits d (filter P log)"
  by (auto simp: log_within_limits_def intro: spaced_filter)

section \<open>Leases within the caps\<close>

definition lease_state_ok :: "downstream_lease_state \<Rightarrow> bool" where
  "lease_state_ok s = (hm_ok (ds_admitted s) \<and> distinct (ds_waiting s) \<and> (\<forall>i\<in>set (ds_waiting s). hm_contains (ds_admitted s) i))"

definition bucket_count :: "(downstream_lease_key, downstream_lease_state) hashmap \<Rightarrow> downstream_lease_key \<Rightarrow> nat" where
  "bucket_count m key = length (ds_admitted (hm_entry_or key lease_state_default m))"

definition runtime_ok :: "downstream_config \<Rightarrow> (downstream_lease_key, downstream_lease_state) hashmap \<Rightarrow> bool" where
  "runtime_ok d m =
    (hm_ok m \<and> hm_all lease_state_ok m
     \<and> downstream_total_admitted m (dc_id d) \<le> max (dc_max_concurrency d) 1
     \<and> (validate_model_concurrency_groups d = Inr () \<longrightarrow>
          (\<forall>g\<in>set (dc_model_concurrency_groups d). bucket_count m (dc_id d, mg_name g) \<le> mg_max_concurrency g)))"

lemma total_Cons [simp]:
  "downstream_total_admitted (x # m) D =
    (if fst (fst x) = D then length (ds_admitted (snd x)) else 0) + downstream_total_admitted m D"
  by (simp add: downstream_total_admitted_def buckets_of_def case_prod_unfold)

lemma total_Nil [simp]: "downstream_total_admitted [] D = 0"
  by (simp add: downstream_total_admitted_def buckets_of_def)

lemma total_update:
  "downstream_total_admitted (AList.update key s m) D + (if fst key = D then bucket_count m key else 0) =
    downstream_total_admitted m D + (if fst key = D then length (ds_admitted s) else 0)"
  by (induction m) (auto simp: bucket_count_def hm_entry_or_def lease_state_default_def)

lemma total_delete: "downstream_total_admitted (AList.delete key m) D \<le> downstream_total_admitted m D"
  by (induction m) auto

lemma total_retain: "downstream_total_admitted (hm_retain p m) D \<le> downstream_total_admitted m D"
  by (induction m) (auto simp: hm_retain_def)

lemma total_map:
  assumes "\<And>key s. length (ds_admitted (f key s)) \<le> length (ds_admitted s)"
  shows "downstream_total_admitted (map (\<lambda>(key, s). (key, f key s)) m) D \<le> downstream_total_admitted m D"
  using assms by (induction m) (auto simp: add_mono case_prod_unfold)

lemma map_of_map_key: "map_of (map (\<lambda>(key, s). (key, f key s)) m) k = map_option (f k) (map_of m k)"
  by (induction m) auto

lemma bucket_count_map:
  assumes "\<And>key s. length (ds_admitted (f key s)) \<le> length (ds_admitted s)"
  shows "bucket_count (map (\<lambda>(key, s). (key, f key s)) m) k \<le> bucket_count m k"
  using assms by (auto simp: bucket_count_def hm_entry_or_def map_of_map_key split: option.split)

lemma runtime_ok_shrink:
  assumes "runtime_ok d m" "hm_ok m'" "hm_all lease_state_ok m'"
    "downstream_total_admitted m' (dc_id d) \<le> downstream_total_admitted m (dc_id d)"
    "\<And>key. bucket_count m' key \<le> bucket_count m key"
  shows "runtime_ok d m'"
  using assms le_trans unfolding runtime_ok_def by blast

lemma runtime_ok_update:
  assumes "runtime_ok d m" "lease_state_ok s" "length (ds_admitted s) \<le> bucket_count m key"
  shows "runtime_ok d (AList.update key s m)"
proof (rule runtime_ok_shrink [OF assms(1)])
  show "downstream_total_admitted (AList.update key s m) (dc_id d) \<le> downstream_total_admitted m (dc_id d)"
    using total_update [of key s m "dc_id d"] assms(3) by (auto split: if_splits)
  show "bucket_count (AList.update key s m) k \<le> bucket_count m k" for k
    using assms(3) by (simp add: bucket_count_def hm_entry_or_def)
qed (use assms in \<open>auto simp: runtime_ok_def intro: hm_all_update\<close>)

lemma runtime_ok_delete:
  assumes "runtime_ok d m"
  shows "runtime_ok d (AList.delete key m)"
  by (rule runtime_ok_shrink [OF assms])
    (use assms in \<open>auto simp: runtime_ok_def total_delete bucket_count_def hm_entry_or_def lease_state_default_def
      intro: hm_all_delete\<close>)

lemma runtime_ok_retain:
  assumes "runtime_ok d m"
  shows "runtime_ok d (hm_retain p m)"
  by (rule runtime_ok_shrink [OF assms])
    (use assms in \<open>auto simp: runtime_ok_def total_retain bucket_count_def hm_entry_or_def lease_state_default_def
      map_of_hm_retain split: option.split intro: hm_all_retain\<close>)

lemma runtime_ok_map:
  assumes "runtime_ok d m" "\<And>key s. length (ds_admitted (f key s)) \<le> length (ds_admitted s)"
    "\<And>key s. lease_state_ok s \<Longrightarrow> lease_state_ok (f key s)"
  shows "runtime_ok d (map (\<lambda>(key, s). (key, f key s)) m)"
proof (rule runtime_ok_shrink [OF assms(1) _ _ total_map [OF assms(2)] bucket_count_map [OF assms(2)]])
  show "hm_ok (map (\<lambda>(key, s). (key, f key s)) m)"
    using assms(1) by (simp add: runtime_ok_def hm_ok_def comp_def case_prod_unfold)
  show "hm_all lease_state_ok (map (\<lambda>(key, s). (key, f key s)) m)"
    using assms(1,3) by (auto simp: runtime_ok_def hm_all_def list_all_iff)
qed

lemma runtime_ok_grow:
  assumes "runtime_ok d m" "lease_state_ok s" "length (ds_admitted s) \<le> bucket_count m key + 1"
    "fst key = dc_id d \<Longrightarrow> downstream_total_admitted m (dc_id d) < max (dc_max_concurrency d) 1"
    "\<And>g. validate_model_concurrency_groups d = Inr () \<Longrightarrow> g \<in> set (dc_model_concurrency_groups d) \<Longrightarrow>
       key = (dc_id d, mg_name g) \<Longrightarrow> bucket_count m key < mg_max_concurrency g"
  shows "runtime_ok d (AList.update key s m)"
proof -
  have "downstream_total_admitted (AList.update key s m) (dc_id d) \<le> max (dc_max_concurrency d) 1"
    using total_update [of key s m "dc_id d"] assms(1,3,4) by (cases "fst key = dc_id d") (auto simp: runtime_ok_def)
  moreover have "bucket_count (AList.update key s m) (dc_id d, mg_name g) \<le> mg_max_concurrency g"
    if "validate_model_concurrency_groups d = Inr ()" "g \<in> set (dc_model_concurrency_groups d)" for g
    using that assms(1,3,5) by (force simp: bucket_count_def hm_entry_or_def runtime_ok_def)
  ultimately show ?thesis
    using assms(1,2) by (auto simp: runtime_ok_def intro: hm_all_update)
qed

lemma lease_state_ok_entry:
  assumes "hm_all lease_state_ok m" shows "lease_state_ok (hm_entry_or key lease_state_default m)"
  using hm_all_get [OF assms, of key] by (auto simp: hm_entry_or_def lease_state_default_def lease_state_ok_def split: option.split)

lemma lease_prune_length [simp]: "length (ds_admitted (lease_prune_expired now_ms s)) \<le> length (ds_admitted s)"
  by (simp add: lease_prune_expired_def Let_def hm_retain_def)

lemma lease_prune_ok: "lease_state_ok s \<Longrightarrow> lease_state_ok (lease_prune_expired now_ms s)"
  by (auto simp: lease_state_ok_def lease_prune_expired_def Let_def)

lemma lease_state_ok_admit:
  "lease_state_ok s \<Longrightarrow> lease_state_ok (s\<lparr>ds_admitted := AList.update lease_id v (ds_admitted s)\<rparr>)"
  by (auto simp: lease_state_ok_def hm_contains_def)

lemma lease_state_ok_drop:
  "lease_state_ok s \<Longrightarrow> lease_state_ok \<lparr>ds_admitted = AList.delete lease_id (ds_admitted s), ds_waiting = removeAll lease_id (ds_waiting s)\<rparr>"
  by (auto simp: lease_state_ok_def hm_contains_def distinct_removeAll)

lemma drop_lease_ok:
  assumes "runtime_ok d (dg_runtime g)"
  shows "runtime_ok d (dg_runtime (snd (drop_lease key lease_id g)))"
proof (cases "map_of (dg_runtime g) key")
  case (Some s)
  let ?s = "\<lparr>ds_admitted = AList.delete lease_id (ds_admitted s), ds_waiting = removeAll lease_id (ds_waiting s)\<rparr>"
  have "lease_state_ok ?s"
    using hm_all_get [OF _ Some] assms lease_state_ok_drop by (auto simp: runtime_ok_def)
  moreover have "length (ds_admitted ?s) \<le> bucket_count (dg_runtime g) key"
    using Some length_delete_le [of lease_id "ds_admitted s"] by (simp add: bucket_count_def hm_entry_or_def)
  ultimately show ?thesis
    using Some assms by (simp add: drop_lease_def Let_def runtime_ok_delete runtime_ok_update)
qed (use assms in \<open>simp add: drop_lease_def\<close>)

lemma trim_Nil [simp]: "trim [] = []"
  by (simp add: trim_def trim_start_def trim_end_def strip_prefixes.simps whitespace_encodings_def)

lemma validated_groups:
  assumes "validate_model_concurrency_groups d = Inr ()" "g \<in> set (dc_model_concurrency_groups d)"
  shows "mg_name g \<noteq> []" "mg_max_concurrency g > 0"
    "g' \<in> set (dc_model_concurrency_groups d) \<Longrightarrow> mg_name g' = mg_name g \<Longrightarrow> g' = g"
  using validate_groups_distinct [OF assms(1) [unfolded validate_model_concurrency_groups_def]] assms(2)
  by (auto simp: distinct_map inj_on_def)

lemma matched_group_mem: "concurrency_group_for_model d model ci = Some gr \<Longrightarrow> gr \<in> set (dc_model_concurrency_groups d)"
  by (auto simp: concurrency_group_for_model_def find_Some_iff split: if_splits)

lemma prune_bucket_ok:
  assumes "runtime_ok d m"
  shows "lease_state_ok (prune_bucket key now_ms m)" "length (ds_admitted (prune_bucket key now_ms m)) \<le> bucket_count m key"
  using assms by (auto simp: prune_bucket_def bucket_count_def runtime_ok_def lease_prune_ok lease_state_ok_entry)

lemma try_concurrency_ok:
  assumes ok: "runtime_ok d (dg_runtime g)" and same: "dc_id d' = dc_id d \<Longrightarrow> d' = d"
  shows "runtime_ok d (dg_runtime (snd (try_reserve_downstream_concurrency env d' model lease_id now_ms g)))"
proof -
  let ?matched = "concurrency_group_for_model d' model (ae_model_case_insensitive_matching env)"
  let ?key = "(dc_id d', unwrap_or (map_option mg_name ?matched) [])"
  let ?rt = "if ?matched = None then dg_runtime g else AList.update ?key (prune_bucket ?key now_ms (dg_runtime g)) (dg_runtime g)"
  let ?s = "prune_bucket ?key now_ms ?rt"
  let ?s' = "?s\<lparr>ds_admitted := AList.update lease_id (u64_saturating_add now_ms (lease_duration_ms env)) (ds_admitted ?s)\<rparr>"
  have rt: "runtime_ok d ?rt" using ok prune_bucket_ok [OF ok] by (simp add: runtime_ok_update)
  have grown: "runtime_ok d (AList.update ?key ?s' ?rt)"
    if room: "\<not> is_some_and (map_option (\<lambda>gr. max (mg_max_concurrency gr) 1) ?matched)
        (\<lambda>cap. length (ds_admitted (prune_bucket ?key now_ms (dg_runtime g))) \<ge> cap)"
      "\<not> downstream_total_admitted ?rt (dc_id d') \<ge> max (dc_max_concurrency d') 1"
  proof (rule runtime_ok_grow [OF rt])
    show "lease_state_ok ?s'" using prune_bucket_ok(1) [OF rt] by (rule lease_state_ok_admit)
    show "length (ds_admitted ?s') \<le> bucket_count ?rt ?key + 1"
      using prune_bucket_ok(2) [OF rt, of ?key now_ms] by (auto simp: length_update)
    show "downstream_total_admitted ?rt (dc_id d) < max (dc_max_concurrency d) 1" if "fst ?key = dc_id d"
      using that same room(2) by (auto simp: not_le)
    fix gr assume gr: "validate_model_concurrency_groups d = Inr ()" "gr \<in> set (dc_model_concurrency_groups d)"
      "?key = (dc_id d, mg_name gr)"
    have d': "d' = d" using gr(3) same by simp
    obtain matched where m: "?matched = Some matched"
      using gr validated_groups(1) [OF gr(1,2)] by (cases ?matched) auto
    have "matched = gr"
      using validated_groups(3) [OF gr(1,2) matched_group_mem] m gr(3) d' by simp
    then show "bucket_count ?rt ?key < mg_max_concurrency gr"
      using room(1) m validated_groups(2) [OF gr(1,2)] by (simp add: is_some_and_def bucket_count_def hm_entry_or_def not_le)
  qed
  show ?thesis
    using ok rt grown by (simp add: try_reserve_downstream_concurrency_def Let_def)
qed

lemma admission_runtime_ok:
  assumes "runtime_ok d (dg_runtime g)" "dc_id d' = dc_id d \<Longrightarrow> d' = d"
  shows "runtime_ok d (dg_runtime (snd (reserve_downstream_admission env d' model event_id lease_id now now_ms g)))"
proof -
  obtain res g1 where req: "reserve_downstream_request env d' event_id now g = (res, g1)"
    by (cases "reserve_downstream_request env d' event_id now g")
  have "dg_runtime g1 = dg_runtime g" using reserve_request_runtime [of env d' event_id now g] req by simp
  then have "runtime_ok d (dg_runtime (snd (try_reserve_downstream_concurrency env d' model lease_id now_ms g1)))"
    using assms try_concurrency_ok by simp
  then show ?thesis
    using assms(1) req \<open>dg_runtime g1 = _\<close>
    by (auto simp: reserve_downstream_admission_def split: sum.splits prod.splits)
qed

section \<open>The transition system\<close>

datatype downstream_op =
    DoAdmit downstream_config string string string nat nat
  | DoReserve downstream_config string nat
  | DoConcurrency downstream_config string string nat
  | DoRollback downstream_request_reservation
  | DoUsage usage_log
  | DoRelease downstream_concurrency_lease lease_release_state
  | DoExpire downstream_concurrency_lease lease_release_state
  | DoRenew downstream_concurrency_lease nat
  | DoMark downstream_concurrency_lease nat
  | DoUnmark downstream_concurrency_lease
  | DoSnapshot string nat
  | DoSnapshots nat nat
  | DoClear string

fun downstream_apply :: "admission_env \<Rightarrow> downstream_op \<Rightarrow> downstream_gate \<Rightarrow> downstream_gate" where
  "downstream_apply env (DoAdmit d model event_id lease_id now now_ms) g =
    snd (reserve_downstream_admission env d model event_id lease_id now now_ms g)"
| "downstream_apply env (DoReserve d event_id now) g = snd (reserve_downstream_request env d event_id now g)"
| "downstream_apply env (DoConcurrency d model lease_id now_ms) g =
    snd (try_reserve_downstream_concurrency env d model lease_id now_ms g)"
| "downstream_apply env (DoRollback r) g = rollback_downstream_request_reservation r g"
| "downstream_apply env (DoUsage log) g = record_downstream_usage_event env log g"
| "downstream_apply env (DoRelease lease state) g = snd (snd (release_downstream_concurrency lease state g))"
| "downstream_apply env (DoExpire lease state) g = snd (snd (expire_downstream_request_lease_sync lease state g))"
| "downstream_apply env (DoRenew lease now_ms) g = renew_downstream_concurrency env lease now_ms g"
| "downstream_apply env (DoMark lease now_ms) g = snd (mark_downstream_waiting lease now_ms g)"
| "downstream_apply env (DoUnmark lease) g = unmark_downstream_waiting lease g"
| "downstream_apply env (DoSnapshot downstream_id now_ms) g = snd (downstream_runtime_snapshot downstream_id now_ms g)"
| "downstream_apply env (DoSnapshots now now_ms) g = snd (all_downstream_runtime_snapshots env now now_ms g)"
| "downstream_apply env (DoClear downstream_id) g = clear_downstream_runtime downstream_id g"

text \<open>The log of a key: the requests admitted and not rolled back, with the time they were admitted at.\<close>

fun log_after :: "admission_env \<Rightarrow> downstream_config \<Rightarrow> downstream_op \<Rightarrow> downstream_gate
    \<Rightarrow> downstream_request_event list \<Rightarrow> downstream_request_event list" where
  "log_after env d (DoAdmit d' model event_id lease_id now now_ms) g log =
    (case fst (reserve_downstream_admission env d' model event_id lease_id now now_ms g) of
       Inr _ \<Rightarrow> if d' = d \<and> dc_rate_limit_enabled d then log @ [\<lparr>re_event_id = event_id, re_created_at = now\<rparr>] else log
     | Inl _ \<Rightarrow> log)"
| "log_after env d (DoReserve d' event_id now) g log =
    (case fst (reserve_downstream_request env d' event_id now g) of
       Inr _ \<Rightarrow> if d' = d \<and> dc_rate_limit_enabled d then log @ [\<lparr>re_event_id = event_id, re_created_at = now\<rparr>] else log
     | Inl _ \<Rightarrow> log)"
| "log_after env d (DoRollback r) g log =
    (case dr_event_id r of
       Some event_id \<Rightarrow> if dr_downstream_id r = dc_id d then filter (\<lambda>e. re_event_id e \<noteq> event_id) log else log
     | None \<Rightarrow> log)"
| "log_after env d _ g log = log"

fun op_clock :: "downstream_op \<Rightarrow> nat \<Rightarrow> nat" where
  "op_clock (DoAdmit d model event_id lease_id now now_ms) clock = now"
| "op_clock (DoReserve d event_id now) clock = now"
| "op_clock _ clock = clock"

text \<open>
  What the operations on a key have in common: they use its configuration, which does not change
  meanwhile, its state is not cleared, and a new event has a new UUID.
\<close>

fun op_fits :: "downstream_config \<Rightarrow> downstream_request_event list \<Rightarrow> downstream_op \<Rightarrow> bool" where
  "op_fits d log (DoAdmit d' model event_id lease_id now now_ms) =
    (dc_id d' = dc_id d \<longrightarrow> d' = d \<and> event_id \<notin> re_event_id ` set log)"
| "op_fits d log (DoReserve d' event_id now) = (dc_id d' = dc_id d \<longrightarrow> d' = d \<and> event_id \<notin> re_event_id ` set log)"
| "op_fits d log (DoConcurrency d' model lease_id now_ms) = (dc_id d' = dc_id d \<longrightarrow> d' = d)"
| "op_fits d log (DoClear downstream_id) = (downstream_id \<noteq> dc_id d)"
| "op_fits d log _ = True"

type_synonym admission_state = "nat \<times> downstream_gate \<times> downstream_request_event list"

inductive admission_init :: "admission_state \<Rightarrow> bool" where
  "admission_init (0, downstream_gate_new, [])"

inductive admission_step :: "admission_env \<Rightarrow> downstream_config \<Rightarrow> downstream_op \<Rightarrow> admission_state \<Rightarrow> admission_state \<Rightarrow> bool"
  for env d where
  "op_fits d log op \<Longrightarrow> clock \<le> op_clock op clock \<Longrightarrow>
    admission_step env d op (clock, g, log) (op_clock op clock, downstream_apply env op g, log_after env d op g log)"

inductive_cases admission_initE: "admission_init s"
inductive_cases admission_stepE: "admission_step env d op s t"

definition window_inv :: "downstream_config \<Rightarrow> admission_state \<Rightarrow> bool" where
  "window_inv d = (\<lambda>(clock, g, log).
    sorted_until clock log \<and> recent_part (request_retention_seconds d) clock log (window_of g (dc_id d)) \<and> log_within_limits d log)"

definition admission_inv :: "downstream_config \<Rightarrow> admission_state \<Rightarrow> bool" where
  "admission_inv d s = (window_inv d s \<and> runtime_ok d (dg_runtime (fst (snd s))))"

lemma window_inv_same:
  "window_inv d (clock, g, log) \<Longrightarrow> clock \<le> now \<Longrightarrow> window_of g' (dc_id d) = window_of g (dc_id d) \<Longrightarrow> window_inv d (now, g', log)"
  by (auto simp: window_inv_def intro: sorted_until_mono recent_part_mono)

lemma window_inv_prune:
  "window_inv d (clock, g, log) \<Longrightarrow> clock \<le> now \<Longrightarrow> window_of g' (dc_id d) = pruned_window d now g \<Longrightarrow> window_inv d (now, g', log)"
  by (auto simp: window_inv_def pruned_window_def intro: sorted_until_mono recent_part_prune)

lemma window_inv_event:
  assumes "window_inv d (clock, g, log)" "clock \<le> now"
    "window_of g' (dc_id d) = pruned_window d now g @ [\<lparr>re_event_id = event_id, re_created_at = now\<rparr>]"
    "minute_rejection d now (pruned_window d now g) = None" "quota_rejection d now (pruned_window d now g) = None"
  shows "window_inv d (now, g', log @ [\<lparr>re_event_id = event_id, re_created_at = now\<rparr>])"
proof -
  have inv: "sorted_until clock log" "log_within_limits d log"
    "recent_part (request_retention_seconds d) now log (pruned_window d now g)"
    using assms(1,2) recent_part_prune by (auto simp: window_inv_def pruned_window_def)
  then show ?thesis
    using assms(2-5) sorted_until_append [OF inv(1), of "\<lparr>re_event_id = event_id, re_created_at = now\<rparr>"]
      log_within_limits_append [OF inv(2,3) sorted_until_mono [OF inv(1) assms(2)]]
    by (simp add: window_inv_def recent_part_append)
qed

lemma window_inv_fresh:
  assumes "window_inv d (clock, g, log)" "event_id \<notin> re_event_id ` set log"
  shows "event_id \<notin> re_event_id ` set (pruned_window d now g)"
proof -
  have "set (window_of g (dc_id d)) \<subseteq> set log" using assms(1) by (auto simp: window_inv_def recent_part_def)
  moreover have "set (pruned_window d now g) \<subseteq> set (window_of g (dc_id d))"
    by (auto simp: pruned_window_def prune_request_window_def dest: set_dropWhileD)
  ultimately show ?thesis using assms(2) by blast
qed

lemma reserve_request_other:
  assumes "other \<noteq> dc_id d"
  shows "window_of (snd (reserve_downstream_request env d event_id now g)) other = window_of g other"
proof (cases "dc_rate_limit_enabled d")
  case True
  obtain out g' where r: "reserve_downstream_request env d event_id now g = (out, g')" by fastforce
  from r True show ?thesis by (cases rule: reserve_request_cases) (use r assms in simp_all)
qed (simp add: reserve_downstream_request_def)

lemma admission_other:
  assumes "other \<noteq> dc_id d"
  shows "window_of (snd (reserve_downstream_admission env d model event_id lease_id now now_ms g)) other = window_of g other"
proof -
  obtain res g1 where req: "reserve_downstream_request env d event_id now g = (res, g1)" by fastforce
  obtain con g2 where con: "try_reserve_downstream_concurrency env d model lease_id now_ms g1 = (con, g2)" by fastforce
  have same: "window_of g1 other = window_of g other" "window_of g2 other = window_of g1 other"
    using reserve_request_other [OF assms, of env event_id now g] req
      window_of_try_concurrency [of env d model lease_id now_ms g1 other] con by simp_all
  have id: "dr_downstream_id r = dc_id d" if "res = Inr r" for r
  proof (cases "dc_rate_limit_enabled d")
    case True
    from req True show ?thesis by (cases rule: reserve_request_cases) (use that in simp_all)
  qed (use req that in \<open>auto simp: reserve_downstream_request_def\<close>)
  show ?thesis
    using req con same id assms
    by (auto simp: reserve_downstream_admission_def window_of_rollback split: sum.split option.split)
qed

lemma window_inv_reserve:
  assumes "window_inv d (clock, g, log)" "clock \<le> now" "op_fits d log (DoReserve d' event_id now)"
  shows "window_inv d (now, snd (reserve_downstream_request env d' event_id now g), log_after env d (DoReserve d' event_id now) g log)"
proof (cases "dc_id d' = dc_id d \<and> dc_rate_limit_enabled d'")
  case True
  then have d': "d' = d" "dc_rate_limit_enabled d" using assms(3) by auto
  obtain out g' where r: "reserve_downstream_request env d event_id now g = (out, g')" by fastforce
  from r d'(2) show ?thesis
  proof (cases rule: reserve_request_cases)
    case (rejected rej)
    then show ?thesis using r d' window_inv_prune [OF assms(1,2)] by simp
  next
    case granted
    then show ?thesis using r d' window_inv_event [OF assms(1,2)] by simp
  qed
next
  case False
  then have "window_of (snd (reserve_downstream_request env d' event_id now g)) (dc_id d) = window_of g (dc_id d)"
    using reserve_request_other [of "dc_id d" d'] by (cases "dc_rate_limit_enabled d'") (simp_all add: reserve_downstream_request_def)
  moreover have "log_after env d (DoReserve d' event_id now) g log = log" using False by (auto split: sum.split)
  ultimately show ?thesis using window_inv_same [OF assms(1,2)] by simp
qed

lemma window_inv_admit:
  assumes "window_inv d (clock, g, log)" "clock \<le> now" "op_fits d log (DoAdmit d' model event_id lease_id now now_ms)"
  shows "window_inv d (now, snd (reserve_downstream_admission env d' model event_id lease_id now now_ms g),
    log_after env d (DoAdmit d' model event_id lease_id now now_ms) g log)"
proof (cases "dc_id d' = dc_id d \<and> dc_rate_limit_enabled d'")
  case True
  then have d': "d' = d" "dc_rate_limit_enabled d" "event_id \<notin> re_event_id ` set log" using assms(3) by auto
  obtain out g' where r: "reserve_downstream_admission env d model event_id lease_id now now_ms g = (out, g')" by fastforce
  from r d'(2) window_inv_fresh [OF assms(1) d'(3)] show ?thesis
  proof (cases rule: admission_cases)
    case (rejected rej)
    then show ?thesis using r d' window_inv_prune [OF assms(1,2)] by simp
  next
    case (granted lease)
    then show ?thesis using r d' window_inv_event [OF assms(1,2)] by simp
  qed
next
  case False
  then have "window_of (snd (reserve_downstream_admission env d' model event_id lease_id now now_ms g)) (dc_id d) = window_of g (dc_id d)"
    using admission_other [of "dc_id d" d'] by (cases "dc_rate_limit_enabled d'") (simp_all add: reserve_downstream_admission_def)
  moreover have "log_after env d (DoAdmit d' model event_id lease_id now now_ms) g log = log" using False by (auto split: sum.split)
  ultimately show ?thesis using window_inv_same [OF assms(1,2)] by simp
qed

lemma drop_lease_windows [simp]: "dg_request_windows (snd (drop_lease key lease_id g)) = dg_request_windows g"
  by (simp add: drop_lease_def Let_def split: option.split)

lemma window_inv_step:
  assumes "window_inv d (clock, g, log)" "op_fits d log op" "clock \<le> op_clock op clock"
  shows "window_inv d (op_clock op clock, downstream_apply env op g, log_after env d op g log)"
proof -
  have same: "window_inv d (clock, g', log)" if "dg_request_windows g' = dg_request_windows g" for g'
    using window_inv_same [OF assms(1) order_refl] that by (simp add: window_of_def)
  show ?thesis
  proof (cases op)
    case (DoAdmit d' model event_id lease_id now now_ms)
    then show ?thesis using window_inv_admit [OF assms(1)] assms(2,3) by simp
  next
    case (DoReserve d' event_id now)
    then show ?thesis using window_inv_reserve [OF assms(1)] assms(2,3) by simp
  next
    case (DoRollback r)
    then show ?thesis using assms(1)
      by (auto simp: window_inv_def window_of_rollback sorted_until_filter recent_part_filter log_within_limits_filter
          split: option.split)
  next
    case (DoClear downstream_id)
    then have "window_of (clear_downstream_runtime downstream_id g) (dc_id d) = window_of g (dc_id d)"
      using assms(2) by (simp add: window_of_def clear_downstream_runtime_def hm_entry_or_def)
    then show ?thesis using DoClear window_inv_same [OF assms(1) order_refl] by simp
  qed (auto intro!: same simp: record_downstream_usage_event_def release_downstream_concurrency_def
      expire_downstream_request_lease_sync_def renew_downstream_concurrency_def mark_downstream_waiting_def
      unmark_downstream_waiting_def downstream_runtime_snapshot_def prune_downstream_buckets_def
      all_downstream_runtime_snapshots_def Let_def case_prod_unfold split: option.split sum.split)
qed

lemma runtime_ok_modify:
  assumes "runtime_ok d m" "\<And>s. length (ds_admitted (f s)) \<le> length (ds_admitted s)"
    "\<And>s. lease_state_ok s \<Longrightarrow> lease_state_ok (f s)"
  shows "runtime_ok d (hm_modify key f m)"
proof (cases "map_of m key")
  case (Some s)
  have "lease_state_ok (f s)" using hm_all_get [OF _ Some] assms(1,3) by (auto simp: runtime_ok_def)
  then have "runtime_ok d (AList.update key (f s) m)"
    by (rule runtime_ok_update [OF assms(1)]) (use Some assms(2) in \<open>simp add: bucket_count_def hm_entry_or_def\<close>)
  then show ?thesis using Some by (simp add: hm_modify_def)
qed (use assms in \<open>simp add: hm_modify_def\<close>)

lemma mark_waiting_ok:
  assumes "runtime_ok d (dg_runtime g)"
  shows "runtime_ok d (dg_runtime (snd (mark_downstream_waiting lease now_ms g)))"
proof (cases "map_of (dg_runtime g) (bucket_key lease)")
  case (Some s)
  have s: "lease_state_ok (lease_prune_expired now_ms s)"
    using hm_all_get [OF _ Some] assms lease_prune_ok by (auto simp: runtime_ok_def)
  then have "lease_state_ok (lease_prune_expired now_ms s\<lparr>ds_waiting := List.insert i (ds_waiting (lease_prune_expired now_ms s))\<rparr>)"
    if "hm_contains (ds_admitted (lease_prune_expired now_ms s)) i" for i
    using that by (auto simp: lease_state_ok_def)
  moreover have "length (ds_admitted (lease_prune_expired now_ms s)) \<le> bucket_count (dg_runtime g) (bucket_key lease)"
    using Some by (simp add: bucket_count_def hm_entry_or_def)
  ultimately show ?thesis
    using assms s Some by (simp add: mark_downstream_waiting_def Let_def runtime_ok_update split: option.split)
qed (use assms in \<open>simp add: mark_downstream_waiting_def split: option.split\<close>)

lemma runtime_ok_step:
  assumes "runtime_ok d (dg_runtime g)" "op_fits d log op"
  shows "runtime_ok d (dg_runtime (downstream_apply env op g))"
proof (cases op)
  case (DoAdmit d' model event_id lease_id now now_ms)
  then show ?thesis using admission_runtime_ok [OF assms(1)] assms(2) by simp
next
  case (DoConcurrency d' model lease_id now_ms)
  then show ?thesis using try_concurrency_ok [OF assms(1)] assms(2) by simp
next
  case (DoUsage log')
  then show ?thesis using assms(1) by (simp add: record_downstream_usage_event_def Let_def split: option.split)
next
  case (DoRelease lease state)
  then show ?thesis using assms(1) drop_lease_ok
    by (simp add: release_downstream_concurrency_def split: sum.split option.split)
next
  case (DoExpire lease state)
  then show ?thesis using assms(1) drop_lease_ok
    by (simp add: expire_downstream_request_lease_sync_def case_prod_unfold Let_def split: sum.split option.split)
next
  case (DoRenew lease now_ms)
  have "length (AList.update i v m) \<le> length m" if "hm_contains m i" for i and v :: nat and m
    using that by (auto simp: length_update hm_contains_def)
  then show ?thesis using DoRenew assms(1)
    by (auto simp: renew_downstream_concurrency_def split: option.split intro!: runtime_ok_modify lease_state_ok_admit)
next
  case (DoMark lease now_ms)
  then show ?thesis using mark_waiting_ok [OF assms(1)] by simp
next
  case (DoUnmark lease)
  then show ?thesis using assms(1)
    by (auto simp: unmark_downstream_waiting_def lease_state_ok_def distinct_removeAll split: option.split intro!: runtime_ok_modify)
next
  case (DoSnapshot downstream_id now_ms)
  have "runtime_ok d (map (\<lambda>(key, s). (key,
      if fst key = downstream_id \<and> (ds_waiting s \<noteq> [] \<or> ds_admitted s \<noteq> []) then lease_prune_expired now_ms s else s)) (dg_runtime g))"
    by (rule runtime_ok_map [OF assms(1)]) (simp_all add: lease_prune_ok)
  then show ?thesis using DoSnapshot
    by (simp add: downstream_runtime_snapshot_def prune_downstream_buckets_def Let_def case_prod_unfold)
next
  case (DoSnapshots now now_ms)
  have "runtime_ok d (map (\<lambda>(key, s). (key, lease_prune_expired now_ms s)) (dg_runtime g))"
    by (rule runtime_ok_map [OF assms(1)]) (simp_all add: lease_prune_ok)
  then show ?thesis using DoSnapshots by (simp add: all_downstream_runtime_snapshots_def Let_def)
next
  case (DoClear downstream_id)
  then show ?thesis using runtime_ok_retain [OF assms(1)] by (simp add: clear_downstream_runtime_def)
qed (use assms in simp_all)

lemma admission_inv_init: "admission_inv d (0, downstream_gate_new, [])"
  by (simp add: admission_inv_def window_inv_def downstream_gate_new_def window_of_def sorted_until_def recent_part_def
      log_within_limits_def spaced_def runtime_ok_def bucket_count_def hm_entry_or_def lease_state_default_def hm_all_def)

lemma admission_inv_step:
  assumes "admission_inv d s" "admission_step env d op s t"
  shows "admission_inv d t"
  using assms(2,1)
  by (cases rule: admission_step.cases) (auto simp: admission_inv_def intro: window_inv_step runtime_ok_step)

interpretation admissions: invariant_system admission_init "admission_step env d" "admission_inv d" for env d
  by unfold_locales (auto elim!: admission_initE simp: admission_inv_init intro: admission_inv_step)

section \<open>Properties\<close>

definition admission_next :: "admission_env \<Rightarrow> downstream_config \<Rightarrow> downstream_op \<Rightarrow> admission_state \<Rightarrow> admission_state" where
  "admission_next env d op = (\<lambda>(clock, g, log). (op_clock op clock, downstream_apply env op g, log_after env d op g log))"

lemma reachable_next:
  assumes "reachable admission_init (admission_step env d) s" "op_fits d (snd (snd s)) op" "fst s \<le> op_clock op (fst s)"
  shows "reachable admission_init (admission_step env d) (admission_next env d op s)"
  using assms by (cases s) (auto simp: admission_next_def intro: reach_step admission_step.intros)

definition sample_env :: admission_env where
  "sample_env = \<lparr>ae_model_case_insensitive_matching = True, ae_downstream_lease_ttl_seconds = 300, ae_downstream_owners = [],
     ae_cost_scope_limits = [], ae_downstreams = []\<rparr>"

definition key_config :: downstream_config where
  "key_config = \<lparr>dc_id = ''k'', dc_rate_limit_enabled = True, dc_per_minute_limit = 1, dc_max_concurrency = 1,
     dc_request_quota_window_hours = Some 5, dc_request_quota_requests = Some 10, dc_billing_mode = ''request'',
     dc_input_token_price_per_million_cents = None, dc_output_token_price_per_million_cents = None,
     dc_model_concurrency_groups = [], dc_model_allowlist = [], dc_model_group_id = None\<rparr>"

definition sample_state :: admission_state where
  "sample_state = admission_next sample_env key_config (DoAdmit key_config ''m'' ''e'' ''l'' 100 100000) (0, downstream_gate_new, [])"

lemma sample_reachable: "reachable admission_init (admission_step sample_env key_config) sample_state"
  unfolding sample_state_def
  by (rule reachable_next) (auto intro: reach_init admission_init.intros)

lemmas admission_eval = sample_env_def key_config_def admission_next_def downstream_gate_new_def reserve_downstream_admission_def
  reserve_downstream_request_def Let_def hm_entry_or_def prune_request_window_def request_retention_seconds_def
  quota_window_seconds_def minute_rejection_def quota_rejection_def count_last_def put_window_def cost_gate_def cost_scope_for_def
  resolve_cost_scope_def filter_option_def try_reserve_downstream_concurrency_def concurrency_group_for_model_def is_some_and_def
  prune_bucket_def lease_prune_expired_def lease_state_default_def hm_retain_def token_billing_mode_def billing_mode_def
  lease_duration_ms_def u64_saturating_add_def u64_max_def

definition sample_event :: downstream_request_event where
  "sample_event = \<lparr>re_event_id = ''e'', re_created_at = 100\<rparr>"

definition sample_downstream_gate :: downstream_gate where
  "sample_downstream_gate = \<lparr>dg_request_windows = [(''k'', [sample_event])], dg_token_windows = [],
     dg_runtime = [((''k'', []), \<lparr>ds_admitted = [(''l'', 400000)], ds_waiting = []\<rparr>)]\<rparr>"

lemma sample_state_eq: "sample_state = (100, sample_downstream_gate, [sample_event])"
  by (simp add: sample_state_def admission_eval sample_event_def sample_downstream_gate_def)

lemma sample_gate_reached:
  "reachable admission_init (admission_step sample_env key_config) (100, sample_downstream_gate, [sample_event])"
  using sample_reachable by (simp add: sample_state_eq)

text \<open>
  C12. However requests of a key and of others are admitted, rejected, rolled back and finished, the
  requests of the key that stay admitted never exceed its per-minute limit in any 60 consecutive
  seconds, nor its request quota in any window of the quota's length.
\<close>

theorem request_limits_never_exceeded:
  assumes "reachable admission_init (admission_step env d) (clock, g, log)"
  shows "length (filter (in_span start 60) log) \<le> dc_per_minute_limit d
    \<and> (\<not> token_billing_mode d \<longrightarrow> quota_window_seconds d = Some secs \<longrightarrow> dc_request_quota_requests d = Some requests
        \<longrightarrow> length (filter (in_span start secs) log) \<le> max requests 1)"
  using admissions.reachable_inv [OF assms] by (simp add: admission_inv_def window_inv_def log_within_limits_def spaced_def)

theorem request_limits_never_exceeded_witness:
  "length (filter (in_span 90 60) [sample_event]) = 1 \<and> length (filter (in_span 90 60) [sample_event]) \<le> dc_per_minute_limit key_config
    \<and> length (filter (in_span 90 18000) [sample_event]) \<le> 10"
  using request_limits_never_exceeded [OF sample_gate_reached, of 90 18000 10]
  by (simp add: in_span_def key_config_def sample_event_def quota_window_seconds_def token_billing_mode_def billing_mode_def)

lemma u32_total_eq: "u32_total xs = min (sum_list xs) u32_max"
proof -
  have "fold (\<lambda>n total. u32_saturating_add total (min n u32_max)) xs (min k u32_max) = min (k + sum_list xs) u32_max" for k
  proof (induction xs arbitrary: k)
    case (Cons x xs)
    have "u32_saturating_add (min k u32_max) (min x u32_max) = min (k + x) u32_max"
      by (simp add: u32_saturating_add_def min_def)
    then show ?case using Cons by (simp add: add.assoc)
  qed simp
  from this [of 0] show ?thesis by (simp add: u32_total_def)
qed

lemma bucket_totals_bounded:
  assumes "runtime_ok d (dg_runtime g)"
  shows "snd (bucket_totals i g) \<le> fst (bucket_totals i g)"
    "fst (bucket_totals (dc_id d) g) \<le> max (dc_max_concurrency d) 1"
proof -
  have "length (ds_waiting s) \<le> length (ds_admitted s)" if "lease_state_ok s" for s
  proof -
    have "set (ds_waiting s) \<subseteq> fst ` set (ds_admitted s)"
      using that by (auto simp: lease_state_ok_def hm_contains_def map_of_eq_None_iff simp del: not_None_eq)
    then have "card (set (ds_waiting s)) \<le> card (fst ` set (ds_admitted s))" by (intro card_mono) auto
    then show ?thesis
      using that by (simp add: lease_state_ok_def hm_ok_def distinct_card) (metis card_length le_trans length_map list.set_map)
  qed
  moreover have "lease_state_ok s" if "s \<in> set (buckets_of (dg_runtime g) i)" for s
    using that assms by (auto simp: runtime_ok_def buckets_of_def dest: hm_all_mem)
  ultimately have "sum_list (map (\<lambda>s. length (ds_waiting s)) (buckets_of (dg_runtime g) i))
      \<le> sum_list (map (\<lambda>s. length (ds_admitted s)) (buckets_of (dg_runtime g) i))"
    by (intro sum_list_mono) auto
  then show "snd (bucket_totals i g) \<le> fst (bucket_totals i g)"
    by (auto simp: bucket_totals_def u32_total_eq)
  show "fst (bucket_totals (dc_id d) g) \<le> max (dc_max_concurrency d) 1"
    using assms by (auto simp: runtime_ok_def bucket_totals_def u32_total_eq downstream_total_admitted_def)
qed

text \<open>
  In every reachable state the leases of a key stay within its concurrency limit, those of each
  validated model group within the cap of the group, and the snapshot of the key never fails: its
  admitted requests are those running and those waiting for an upstream, within the limit.
\<close>

theorem downstream_leases_bounded:
  assumes "reachable admission_init (admission_step env d) (clock, g, log)"
  shows "downstream_total_admitted (dg_runtime g) (dc_id d) \<le> max (dc_max_concurrency d) 1
    \<and> (validate_model_concurrency_groups d = Inr () \<longrightarrow>
         (\<forall>gr\<in>set (dc_model_concurrency_groups d). bucket_count (dg_runtime g) (dc_id d, mg_name gr) \<le> mg_max_concurrency gr))
    \<and> (\<exists>counts. fst (downstream_runtime_snapshot (dc_id d) now_ms g) = Inr counts
         \<and> rc_running counts + rc_waiting_upstream counts = rc_admitted counts \<and> rc_admitted counts \<le> max (dc_max_concurrency d) 1)"
proof -
  have ok: "runtime_ok d (dg_runtime g)"
    using admissions.reachable_inv [OF assms] by (simp add: admission_inv_def)
  let ?g = "prune_downstream_buckets (dc_id d) now_ms g"
  have "runtime_ok d (dg_runtime ?g)"
    using runtime_ok_step [OF ok, of log "DoSnapshot (dc_id d) now_ms"]
    by (simp add: downstream_runtime_snapshot_def Let_def case_prod_unfold)
  note bounds = bucket_totals_bounded [OF this]
  then have "\<exists>counts. fst (downstream_runtime_snapshot (dc_id d) now_ms g) = Inr counts
      \<and> rc_running counts + rc_waiting_upstream counts = rc_admitted counts \<and> rc_admitted counts \<le> max (dc_max_concurrency d) 1"
    by (simp add: downstream_runtime_snapshot_def Let_def case_prod_unfold)
  then show ?thesis using ok by (simp add: runtime_ok_def)
qed

theorem downstream_leases_bounded_witness:
  "downstream_total_admitted (dg_runtime sample_downstream_gate) ''k'' = 1
    \<and> (\<exists>counts. fst (downstream_runtime_snapshot ''k'' 0 sample_downstream_gate) = Inr counts \<and> rc_admitted counts \<le> 1)"
  using downstream_leases_bounded [OF sample_gate_reached, of 0]
  by (auto simp: key_config_def sample_downstream_gate_def)

section \<open>Rejections\<close>

lemma count_last_prune:
  assumes "now \<le> t" "secs \<le> retention"
  shows "count_last secs t (prune_request_window now retention w) = count_last secs t w"
proof -
  let ?P = "\<lambda>e. re_created_at e < now - (retention - 1)"
  have "filter (within_last secs t) (takeWhile ?P w) = []"
    using assms by (fastforce simp: filter_empty_conv within_last_def dest: set_takeWhileD)
  then have "filter (within_last secs t) (takeWhile ?P w @ dropWhile ?P w) = filter (within_last secs t) (dropWhile ?P w)"
    by (simp only: filter_append append_Nil)
  then show ?thesis by (simp add: count_last_def prune_request_window_def)
qed

definition live_leases :: "downstream_gate \<Rightarrow> downstream_lease_key \<Rightarrow> nat \<Rightarrow> (string, nat) hashmap" where
  "live_leases g key t = hm_retain (\<lambda>_ expires_at. expires_at > t) (ds_admitted (hm_entry_or key lease_state_default (dg_runtime g)))"

lemma live_leases_prune_bucket:
  "now_ms \<le> t \<Longrightarrow> hm_retain (\<lambda>_ expires_at. expires_at > t) (ds_admitted (prune_bucket key now_ms m))
    = hm_retain (\<lambda>_ expires_at. expires_at > t) (ds_admitted (hm_entry_or key lease_state_default m))"
  by (auto simp: prune_bucket_def lease_prune_expired_def Let_def hm_retain_def intro!: filter_cong)

lemma try_concurrency_rejected_live:
  assumes "try_reserve_downstream_concurrency env d model lease_id now_ms g = (Inl r, g')" "now_ms \<le> t"
  shows "live_leases g' key t = live_leases g key t"
proof -
  let ?key = "(dc_id d, unwrap_or (map_option mg_name (concurrency_group_for_model d model (ae_model_case_insensitive_matching env))) [])"
  have "dg_runtime g' = dg_runtime g \<or> dg_runtime g' = AList.update ?key (prune_bucket ?key now_ms (dg_runtime g)) (dg_runtime g)"
    using assms(1) by (auto simp: try_reserve_downstream_concurrency_def Let_def split: if_splits)
  moreover have "hm_entry_or key lease_state_default (AList.update ?key s m) = (if key = ?key then s else hm_entry_or key lease_state_default m)" for s m
    by (simp add: hm_entry_or_def)
  ultimately show ?thesis
    using live_leases_prune_bucket [OF assms(2)] by (auto simp: live_leases_def)
qed

text \<open>
  An admission that is rejected leaves no trace: afterwards every window of every key counts the
  same requests and every bucket has the same live leases as if the request had never come, so a
  request that finds no free lease gives its quota slot back.
\<close>

theorem rejected_admission_leaves_no_trace:
  assumes "reserve_downstream_admission env d model event_id lease_id now now_ms g = (Inl r, g')"
    and "event_id \<notin> re_event_id ` set (hm_entry_or (dc_id d) [] (dg_request_windows g))"
    and "now \<le> t" "now_ms \<le> t_ms" "secs \<le> request_retention_seconds d"
  shows "count_last secs t (hm_entry_or other [] (dg_request_windows g')) = count_last secs t (hm_entry_or other [] (dg_request_windows g))
    \<and> live_leases g' key t_ms = live_leases g key t_ms"
proof -
  have enabled: "dc_rate_limit_enabled d" using assms(1) by (auto simp: reserve_downstream_admission_def split: if_splits)
  have "set (pruned_window d now g) \<subseteq> set (window_of g (dc_id d))"
    by (auto simp: pruned_window_def prune_request_window_def dest: set_dropWhileD)
  then have fresh: "event_id \<notin> re_event_id ` set (pruned_window d now g)" using assms(2) by (auto simp: window_of_def)
  have "count_last secs t (window_of g' other) = count_last secs t (window_of g other)"
    using assms(1) enabled fresh
    by (cases rule: admission_cases) (auto simp: pruned_window_def count_last_prune assms(3,5))
  moreover have "live_leases g' key t_ms = live_leases g key t_ms"
  proof -
    obtain res g1 where req: "reserve_downstream_request env d event_id now g = (res, g1)" by fastforce
    obtain con g2 where con: "try_reserve_downstream_concurrency env d model lease_id now_ms g1 = (con, g2)" by fastforce
    have g1: "dg_runtime g1 = dg_runtime g" using reserve_request_runtime [of env d event_id now g] req by simp
    have g2: "live_leases g2 key t_ms = live_leases g1 key t_ms" if "con = Inl r'" for r'
      using try_concurrency_rejected_live [OF _ assms(4)] con that by simp
    show ?thesis
      using assms(1) enabled req con g1 g2
      by (auto simp: reserve_downstream_admission_def live_leases_def split: sum.splits)
  qed
  ultimately show ?thesis by (simp add: window_of_def)
qed

theorem rejected_admission_leaves_no_trace_witness:
  "count_last 60 200 (hm_entry_or ''k'' [] (dg_request_windows
     (snd (reserve_downstream_admission sample_env key_config ''m'' ''e2'' ''l2'' 200 200000 sample_downstream_gate)))) = 0
   \<and> live_leases (snd (reserve_downstream_admission sample_env key_config ''m'' ''e2'' ''l2'' 200 200000 sample_downstream_gate)) (''k'', []) 200000
     = [(''l'', 400000)]"
proof -
  have r: "reserve_downstream_admission sample_env key_config ''m'' ''e2'' ''l2'' 200 200000 sample_downstream_gate
      = (Inl (ConcurrencyLimitExceeded 1 1 None),
         snd (reserve_downstream_admission sample_env key_config ''m'' ''e2'' ''l2'' 200 200000 sample_downstream_gate))"
    by (simp add: admission_eval sample_downstream_gate_def sample_event_def within_last_def)
  from rejected_admission_leaves_no_trace [OF r, of 200 200000 60 "''k''" "(''k'', [])"] show ?thesis
    by (simp add: sample_downstream_gate_def sample_event_def key_config_def hm_entry_or_def count_last_def within_last_def
        live_leases_def hm_retain_def request_retention_seconds_def quota_window_seconds_def)
qed

lemma find_hd_filter: "filter P xs = y # ys \<Longrightarrow> find P xs = Some y"
  by (induction xs) (auto split: if_splits)

lemma window_retry_exact:
  assumes "sorted_until now w" "secs > 0" "count_last secs now w = limit" "limit > 0" "now + secs \<le> u64_max" "now \<le> t"
  shows "count_last secs t w < limit \<longleftrightarrow> now + window_retry_after secs now w \<le> t"
proof -
  obtain e es where f: "filter (within_last secs now) w = e # es"
    using assms(3,4) by (cases "filter (within_last secs now) w") (auto simp: count_last_def)
  have e: "re_created_at e \<le> now" "within_last secs now e"
    using f assms(1) by (auto simp: sorted_until_def filter_eq_Cons_iff)
  have "sorted (map re_created_at (e # es))"
    using assms(1) unfolding f [symmetric] by (simp add: sorted_until_def sorted_filter)
  then have least: "re_created_at e \<le> re_created_at x" if "x \<in> set (e # es)" for x using that by auto
  have sub: "filter (within_last secs t) w = filter (within_last secs t) (e # es)"
    unfolding f [symmetric] filter_filter
    by (rule filter_cong) (use assms(6) in \<open>auto simp: within_last_def\<close>)
  have "count_last secs t w < limit \<longleftrightarrow> (\<exists>x\<in>set (e # es). \<not> within_last secs t x)"
    using sub f assms(3) length_filter_less length_filter_conv_card
    unfolding count_last_def by (metis filter_True length_filter_less less_irrefl)
  also have "\<dots> \<longleftrightarrow> \<not> within_last secs t e"
    using least by (fastforce simp: within_last_def)
  also have "\<dots> \<longleftrightarrow> re_created_at e + secs \<le> t"
    using assms(2) by (auto simp: within_last_def)
  also have "re_created_at e + secs = now + window_retry_after secs now w"
    using e assms(2,5) find_hd_filter [OF f] by (auto simp: window_retry_after_def Let_def u64_saturating_add_def within_last_def)
  finally show ?thesis .
qed

lemma minute_rejected_request:
  assumes "reserve_downstream_request env d event_id now g = (Inl (PerMinuteLimitExceeded r limit used), g')"
  shows "minute_rejection d now (pruned_window d now g) = Some (PerMinuteLimitExceeded r limit used)"
proof -
  let ?w = "pruned_window d now g" and ?r = "PerMinuteLimitExceeded r limit used"
  have w: "prune_request_window now (request_retention_seconds d) (hm_entry_or (dc_id d) [] (dg_request_windows g)) = ?w"
    by (simp add: pruned_window_def window_of_def)
  have quota: "quota_rejection d now ?w \<noteq> Some ?r"
    by (auto simp: quota_rejection_def Let_def split: option.split)
  obtain c g2 where cost: "cost_gate env d now (put_window (dc_id d) ?w g) = (c, g2)" by fastforce
  have "fst (cost_gate env d now (put_window (dc_id d) ?w g)) \<noteq> Some ?r"
    by (auto simp: cost_gate_def cost_rejection_def Let_def split: option.split)
  then have "c \<noteq> Some ?r" using cost by simp
  then show ?thesis
    using assms quota cost by (auto simp: reserve_downstream_request_def w Let_def split: if_splits option.splits)
qed

lemma minute_rejected:
  assumes "reserve_downstream_admission env d model event_id lease_id now now_ms g = (Inl (PerMinuteLimitExceeded r limit used), g')"
  shows "minute_rejection d now (pruned_window d now g) = Some (PerMinuteLimitExceeded r limit used)"
proof -
  obtain res g1 where req: "reserve_downstream_request env d event_id now g = (res, g1)" by fastforce
  obtain con g2 where con: "try_reserve_downstream_concurrency env d model lease_id now_ms g1 = (con, g2)" by fastforce
  have "fst (try_reserve_downstream_concurrency env d model lease_id now_ms g1) \<noteq> Inl (PerMinuteLimitExceeded r limit used)"
    by (auto simp: try_reserve_downstream_concurrency_def Let_def)
  then have "res = Inl (PerMinuteLimitExceeded r limit used)"
    using assms req con by (auto simp: reserve_downstream_admission_def split: if_splits sum.splits)
  then show ?thesis using minute_rejected_request req by simp
qed

text \<open>
  When the per-minute limit rejects a request of a key, the wait it names is exact: the per-minute
  limit lets the next request pass as soon as that wait is over and not before, if no other request
  of the key is admitted meanwhile.
\<close>

theorem minute_retry_exact:
  assumes "reachable admission_init (admission_step env d) (clock, g, log)" "clock \<le> now"
    and "reserve_downstream_admission env d model event_id lease_id now now_ms g = (Inl (PerMinuteLimitExceeded r limit used), g')"
    and "event_id \<notin> re_event_id ` set log" "dc_per_minute_limit d > 0" "now + 60 \<le> u64_max" "now \<le> t"
  shows "minute_rejection d t (hm_entry_or (dc_id d) [] (dg_request_windows g')) = None \<longleftrightarrow> now + r \<le> t"
proof -
  let ?w = "pruned_window d now g"
  have inv: "window_inv d (clock, g, log)" using admissions.reachable_inv [OF assms(1)] by (simp add: admission_inv_def)
  then have recent: "recent_part (request_retention_seconds d) now log ?w"
    using assms(2) recent_part_prune by (auto simp: window_inv_def pruned_window_def)
  have sorted: "sorted_until now log" using inv assms(2) by (auto simp: window_inv_def intro: sorted_until_mono)
  then have sorted_w: "sorted_until now ?w" using recent by (auto simp: recent_part_def sorted_until_def sorted_append)
  have rej: "minute_rejection d now ?w = Some (PerMinuteLimitExceeded r limit used)" by (rule minute_rejected [OF assms(3)])
  then have r: "r = window_retry_after 60 now ?w" and full: "dc_per_minute_limit d \<le> count_last 60 now ?w"
    by (auto simp: minute_rejection_def split: if_splits)
  have "count_last 60 now log \<le> length (filter (in_span (now - 59) 60) log)"
    unfolding count_last_def
    by (rule length_filter_mono) (use sorted in \<open>auto simp: within_last_def in_span_def sorted_until_def\<close>)
  also have "\<dots> \<le> dc_per_minute_limit d" using inv by (simp add: window_inv_def log_within_limits_def spaced_def)
  finally have count: "count_last 60 now ?w = dc_per_minute_limit d"
    using full count_last_recent [OF recent retention_covers(1)] by simp
  have enabled: "dc_rate_limit_enabled d" using assms(3) by (auto simp: reserve_downstream_admission_def split: if_splits)
  have "window_of g' (dc_id d) = ?w"
    using assms(3) enabled window_inv_fresh [OF inv assms(4)] by (cases rule: admission_cases) auto
  then show ?thesis
    using window_retry_exact [OF sorted_w _ count assms(5,6,7)] r by (auto simp: minute_rejection_def window_of_def)
qed

theorem minute_retry_exact_witness:
  "minute_rejection key_config 159 (hm_entry_or ''k'' [] (dg_request_windows
     (snd (reserve_downstream_admission sample_env key_config ''m'' ''e2'' ''l2'' 120 120000 sample_downstream_gate)))) \<noteq> None
   \<and> minute_rejection key_config 160 (hm_entry_or ''k'' [] (dg_request_windows
     (snd (reserve_downstream_admission sample_env key_config ''m'' ''e2'' ''l2'' 120 120000 sample_downstream_gate)))) = None"
proof -
  have r: "reserve_downstream_admission sample_env key_config ''m'' ''e2'' ''l2'' 120 120000 sample_downstream_gate
      = (Inl (PerMinuteLimitExceeded 40 1 1),
         snd (reserve_downstream_admission sample_env key_config ''m'' ''e2'' ''l2'' 120 120000 sample_downstream_gate))"
    by (simp add: admission_eval sample_downstream_gate_def sample_event_def within_last_def window_retry_after_def)
  have k: "dc_per_minute_limit key_config > 0" "dc_id key_config = ''k''" by (simp_all add: key_config_def)
  have "''e2'' \<notin> re_event_id ` set [sample_event]" by (simp add: sample_event_def)
  from minute_retry_exact [OF sample_gate_reached _ r this k(1), of 159]
    minute_retry_exact [OF sample_gate_reached _ r this k(1), of 160]
  show ?thesis by (simp add: k u64_max_def)
qed

text \<open>The wait after the daily cost limit.\<close>

lemma freed_by_split:
  assumes "freed < deficit" "deficit \<le> freed + sum_list (map te_tokens w)" "freed + sum_list (map te_tokens w) \<le> u64_max"
  shows "\<exists>pre e post. w = pre @ e # post \<and> freed_by freed deficit w = Some e
    \<and> freed + sum_list (map te_tokens pre) < deficit \<and> deficit \<le> freed + sum_list (map te_tokens pre) + te_tokens e"
  using assms
proof (induction freed deficit w rule: freed_by.induct)
  case (2 freed deficit x w)
  have sat: "u64_saturating_add freed (te_tokens x) = freed + te_tokens x" using 2(4) by (simp add: u64_saturating_add_def)
  show ?case
  proof (cases "freed + te_tokens x \<ge> deficit")
    case True
    then show ?thesis using 2(2) sat by (intro exI [of _ "[]"]) (simp add: Let_def)
  next
    case False
    then obtain pre e post where "w = pre @ e # post" "freed_by (freed + te_tokens x) deficit w = Some e"
      "freed + te_tokens x + sum_list (map te_tokens pre) < deficit" "deficit \<le> freed + te_tokens x + sum_list (map te_tokens pre) + te_tokens e"
      using 2 sat by (force simp: Let_def)
    then show ?thesis using False sat by (intro exI [of _ "x # pre"]) (simp add: Let_def)
  qed
qed simp

lemma sum_list_filter_le: "sum_list (map f (filter P xs)) \<le> (sum_list (map f xs) :: nat)"
  by (induction xs) auto

text \<open>
  When the daily cost limit of a ledger rejects a request, the wait it names is exact: the costs
  of the last day fall below the limit as soon as that wait is over and not before, if nothing more
  is booked meanwhile.
\<close>

theorem daily_cost_retry_exact:
  assumes "sorted (map te_created_at w)" "\<forall>e\<in>set w. now - (daily_window_seconds - 1) \<le> te_created_at e \<and> te_created_at e + daily_window_seconds \<le> u64_max"
    and "sum_list (map te_tokens w) < u64_max" "limit > 0" "now \<le> t"
    and "cost_rejection limit now w = Some (DailyCostQuotaExceeded r l used)"
  shows "cost_rejection limit t w = None \<longleftrightarrow> now + r \<le> t"
proof -
  let ?sum = "sum_list (map te_tokens w)"
  have small: "n mod 2 ^ 64 = n" if "n \<le> ?sum" for n :: nat using that assms(3) by (simp add: u64_max_def)
  have "filter (\<lambda>e. te_created_at e \<ge> now - (daily_window_seconds - 1)) w = w" using assms(2) by (simp add: filter_id_conv)
  then have used: "daily_used now w = ?sum" using small by (simp add: daily_used_def)
  then have over: "limit \<le> ?sum" and
    r: "r = max (downstream_token_retry_after_seconds w now daily_window_seconds (u64_saturating_add ?sum 1 - limit)) 1"
    using assms(4,6) by (auto simp: cost_rejection_def Let_def max_absorb1 split: if_splits)
  have sat: "u64_saturating_add ?sum 1 = ?sum + 1" using assms(3) by (simp add: u64_saturating_add_def)
  obtain pre e post where w: "w = pre @ e # post" and found: "freed_by 0 (?sum + 1 - limit) w = Some e"
    and pre: "sum_list (map te_tokens pre) < ?sum + 1 - limit" and freed: "?sum + 1 - limit \<le> sum_list (map te_tokens pre) + te_tokens e"
  proof -
    have "0 < ?sum + 1 - limit" "?sum + 1 - limit \<le> 0 + ?sum" "0 + ?sum \<le> u64_max" using over assms(3,4) by auto
    from freed_by_split [OF this] show thesis using that by auto
  qed
  have e: "now < te_created_at e + daily_window_seconds" "te_created_at e + daily_window_seconds \<le> u64_max"
    using assms(2) w by (auto simp: daily_window_seconds_def)
  then have until: "now + r = te_created_at e + daily_window_seconds"
    unfolding r downstream_token_retry_after_seconds_def sat using found over by (simp add: u64_saturating_add_def)
  have le: "te_created_at x \<le> te_created_at e" if "x \<in> set pre" for x using that assms(1) w by (auto simp: sorted_append)
  have ge: "te_created_at e \<le> te_created_at x" if "x \<in> set post" for x using that assms(1) w by (auto simp: sorted_append)
  let ?keep = "\<lambda>x. te_created_at x \<ge> t - (daily_window_seconds - 1)"
  have keep: "?keep x \<longleftrightarrow> t < te_created_at x + daily_window_seconds" for x by (auto simp: daily_window_seconds_def)
  have later: "daily_used t w = sum_list (map te_tokens (filter ?keep w))"
    unfolding daily_used_def by (rule small [OF sum_list_filter_le])
  have "daily_used t w < limit \<longleftrightarrow> te_created_at e + daily_window_seconds \<le> t"
  proof
    assume "te_created_at e + daily_window_seconds \<le> t"
    then have gone: "\<not> ?keep x" if "x \<in> set (pre @ [e])" for x
      using le that unfolding keep by (auto simp: not_less dest!: le)
    then have "filter ?keep (pre @ [e]) = []" by (simp only: filter_empty_conv) blast
    then have "filter ?keep w = filter ?keep post"
      using filter_append [of ?keep "pre @ [e]" post] by (simp add: w)
    then have "daily_used t w \<le> sum_list (map te_tokens post)" using later sum_list_filter_le by simp
    then show "daily_used t w < limit" using freed over assms(4) by (simp add: w)
  next
    assume below: "daily_used t w < limit"
    show "te_created_at e + daily_window_seconds \<le> t"
    proof (rule ccontr)
      assume "\<not> ?thesis"
      then have "?keep x" if "x \<in> set (e # post)" for x
        using ge that unfolding keep by (auto dest!: ge)
      then have "filter ?keep (e # post) = e # post" by (simp only: filter_id_conv) blast
      then have "filter ?keep w = filter ?keep pre @ e # post" by (simp only: w filter_append)
      then have "sum_list (map te_tokens (e # post)) \<le> daily_used t w" using later by simp
      then show False using below pre over by (simp add: w)
    qed
  qed
  then show ?thesis using assms(4) until by (auto simp: cost_rejection_def Let_def max_absorb1)
qed

theorem daily_cost_retry_exact_witness:
  "cost_rejection 10 86409 [\<lparr>te_created_at = 10, te_tokens = 7\<rparr>, \<lparr>te_created_at = 50, te_tokens = 5\<rparr>] \<noteq> None
   \<and> cost_rejection 10 86410 [\<lparr>te_created_at = 10, te_tokens = 7\<rparr>, \<lparr>te_created_at = 50, te_tokens = 5\<rparr>] = None"
proof -
  let ?w = "[\<lparr>te_created_at = 10, te_tokens = 7\<rparr>, \<lparr>te_created_at = 50, te_tokens = 5\<rparr>]"
  have "cost_rejection 10 100 ?w = Some (DailyCostQuotaExceeded 86310 10 12)"
    by (simp add: cost_rejection_def daily_used_def daily_window_seconds_def downstream_token_retry_after_seconds_def
        u64_saturating_add_def u64_max_def Let_def)
  from daily_cost_retry_exact [OF _ _ _ _ _ this, of 86409] daily_cost_retry_exact [OF _ _ _ _ _ this, of 86410]
  show ?thesis by (simp add: daily_window_seconds_def u64_max_def)
qed

section \<open>Where the code departs from its intent\<close>








text \<open>
  C28. Booked costs are forgotten. The keys of a user share one cost ledger, but a request through a key
  that is not billed by cost prunes the ledger to the last 60 seconds: costs booked before are lost, and
  a key of the same user that had exhausted the daily limit is let through again.
\<close>

theorem shared_costs_forgotten:
  assumes "cost_scope_for env (dc_id a) = cost_scope_for env (dc_id b)" "cs_daily_limit_cents (cost_scope_for env (dc_id b)) = Some limit"
    and "limit > 0" "dc_rate_limit_enabled b" "\<not> has_cost_pricing b"
    and "minute_rejection b now (prune_request_window now (request_retention_seconds b) (hm_entry_or (dc_id b) [] (dg_request_windows g))) = None"
    and "quota_rejection b now (prune_request_window now (request_retention_seconds b) (hm_entry_or (dc_id b) [] (dg_request_windows g))) = None"
    and "\<forall>e\<in>set (hm_entry_or (cs_scope_id (cost_scope_for env (dc_id b))) [] (dg_token_windows g)). te_created_at e < now - 59"
    and "reserve_downstream_request env b event_id now g = (out, g')"
  shows "hm_entry_or (cs_scope_id (cost_scope_for env (dc_id b))) [] (dg_token_windows g') = []
    \<and> fst (cost_gate env a now g') = None"
proof -
  let ?w = "prune_request_window now (request_retention_seconds b) (hm_entry_or (dc_id b) [] (dg_request_windows g))"
  let ?id = "cs_scope_id (cost_scope_for env (dc_id b))"
  have "prune_token_window now 60 (hm_entry_or ?id [] (dg_token_windows g)) = []"
    using assms(8) by (simp add: prune_token_window_def dropWhile_eq_Nil_conv)
  then have "cost_gate env b now (put_window (dc_id b) ?w g)
      = (None, (put_window (dc_id b) ?w g)\<lparr>dg_token_windows := AList.update ?id [] (dg_token_windows g)\<rparr>)"
    using assms(2,3,5)
    by (simp add: cost_gate_def Let_def filter_option_def downstream_token_retention_seconds_def put_window_def
        cost_rejection_def daily_used_def max_def)
  then have "dg_token_windows g' = AList.update ?id [] (dg_token_windows g)"
    using assms(4,6,7,9) by (auto simp: reserve_downstream_request_def Let_def put_window_def)
  then have "hm_entry_or ?id [] (dg_token_windows g') = []" by (simp add: hm_entry_or_def)
  moreover from this have "fst (cost_gate env a now g') = None"
    using assms(1-3) by (simp add: cost_gate_def Let_def filter_option_def prune_token_window_def cost_rejection_def daily_used_def max_def)
  ultimately show ?thesis by simp
qed

definition shared_env :: admission_env where
  "shared_env = sample_env\<lparr>ae_downstream_owners := [(''k'', ''user''), (''paid'', ''user'')], ae_cost_scope_limits := [(''user'', 10)]\<rparr>"

definition paid_key :: downstream_config where
  "paid_key = key_config\<lparr>dc_id := ''paid'', dc_billing_mode := ''token'', dc_input_token_price_per_million_cents := Some 5\<rparr>"

definition shared_gate :: downstream_gate where
  "shared_gate = downstream_gate_new\<lparr>dg_token_windows := [(''user'', [\<lparr>te_created_at = 10, te_tokens = 25\<rparr>])]\<rparr>"

theorem shared_costs_forgotten_witness:
  "fst (cost_gate shared_env paid_key 1000 shared_gate) \<noteq> None
   \<and> fst (cost_gate shared_env paid_key 1000 (snd (reserve_downstream_request shared_env key_config ''e'' 1000 shared_gate))) = None"
proof -
  have "fst (cost_gate shared_env paid_key 1000 shared_gate) \<noteq> None"
    by (simp add: shared_env_def paid_key_def shared_gate_def admission_eval prune_token_window_def cost_rejection_def daily_used_def
        daily_window_seconds_def downstream_token_retention_seconds_def has_cost_pricing_def is_limited_def)
  moreover have "fst (cost_gate shared_env paid_key 1000 (snd (reserve_downstream_request shared_env key_config ''e'' 1000 shared_gate))) = None"
  proof -
    have scope: "cost_scope_for shared_env (dc_id paid_key) = cost_scope_for shared_env (dc_id key_config)"
      "cs_daily_limit_cents (cost_scope_for shared_env (dc_id key_config)) = Some 10" "cs_scope_id (cost_scope_for shared_env (dc_id key_config)) = ''user''"
      by (simp_all add: shared_env_def paid_key_def key_config_def cost_scope_for_def resolve_cost_scope_def filter_option_def)
    have free: "dc_rate_limit_enabled key_config" "\<not> has_cost_pricing key_config"
      by (simp_all add: key_config_def has_cost_pricing_def)
    have window: "prune_request_window 1000 (request_retention_seconds key_config) (hm_entry_or (dc_id key_config) [] (dg_request_windows shared_gate)) = []"
      by (simp add: prune_request_window_def shared_gate_def downstream_gate_new_def hm_entry_or_def)
    have pass: "minute_rejection key_config 1000 [] = None" "quota_rejection key_config 1000 [] = None"
      by (simp_all add: admission_eval)
    have old: "\<forall>e\<in>set (hm_entry_or ''user'' [] (dg_token_windows shared_gate)). te_created_at e < 1000 - 59"
      by (simp add: shared_gate_def downstream_gate_new_def hm_entry_or_def)
    from shared_costs_forgotten [of shared_env paid_key key_config 10 1000 shared_gate, OF scope(1,2) _ free, unfolded window scope(3),
        OF _ pass old surjective_pairing]
    show ?thesis by simp
  qed
  ultimately show ?thesis by simp
qed

end
