(* ===== verification/Capability_Types.thy ===== *)
theory Capability_Types
  imports Runtime_Hints Ordered_Map Stream_Aggregate
begin

text \<open>
  The vocabulary of capability resolution (\<open>src/src/capabilities/types.rs\<close>): evidence and its
  sources, the shape of a request to a provider, correction rules, the identity of a route, the
  profile that probes fill, and the built-in dialect presets. Capabilities carry the order that the
  code derives from their declaration.
\<close>

section \<open>Capabilities\<close>

definition capability_all :: "capability list" where
  "capability_all =
    [TextInput, NonStreamingResponse, ImageHttps, ImageDataUrl, ImageDetail, NativeFileId, FunctionTools,
     NamespaceTools, CustomTools, HostedTools, ParallelToolCalls, ForcedToolChoice, ToolContinuation, ReasoningOutput,
     ReasoningReplay, TextStream, ReasoningStream, IndexedToolArgumentStream, UsageStream, StructuredOutput]"

primrec capability_index :: "capability \<Rightarrow> nat" where
  "capability_index TextInput = 0"
| "capability_index NonStreamingResponse = 1"
| "capability_index ImageHttps = 2"
| "capability_index ImageDataUrl = 3"
| "capability_index ImageDetail = 4"
| "capability_index NativeFileId = 5"
| "capability_index FunctionTools = 6"
| "capability_index NamespaceTools = 7"
| "capability_index CustomTools = 8"
| "capability_index HostedTools = 9"
| "capability_index ParallelToolCalls = 10"
| "capability_index ForcedToolChoice = 11"
| "capability_index ToolContinuation = 12"
| "capability_index ReasoningOutput = 13"
| "capability_index ReasoningReplay = 14"
| "capability_index TextStream = 15"
| "capability_index ReasoningStream = 16"
| "capability_index IndexedToolArgumentStream = 17"
| "capability_index UsageStream = 18"
| "capability_index StructuredOutput = 19"

lemma capability_all_index: "capability_all ! capability_index c = c"
  by (cases c) (simp_all add: capability_all_def)

lemma capability_index_less: "capability_index c < length capability_all"
  by (cases c) (simp_all add: capability_all_def)

lemma capability_index_inj: "capability_index a = capability_index b \<Longrightarrow> a = b"
  by (metis capability_all_index)

lemma capability_all_UNIV: "set capability_all = UNIV"
  using nth_mem [OF capability_index_less] by (auto simp: capability_all_index)

instantiation capability :: linorder
begin

definition less_eq_capability :: "capability \<Rightarrow> capability \<Rightarrow> bool" where
  "less_eq_capability a b = (capability_index a \<le> capability_index b)"

definition less_capability :: "capability \<Rightarrow> capability \<Rightarrow> bool" where
  "less_capability a b = (capability_index a < capability_index b)"

instance
  by intro_classes (auto simp: less_eq_capability_def less_capability_def intro: capability_index_inj)

end

instance capability :: finite
  by intro_classes (metis capability_all_UNIV List.finite_set)

primrec wire_protocol_index :: "wire_protocol \<Rightarrow> nat" where
  "wire_protocol_index ChatCompletions = 0"
| "wire_protocol_index Responses = 1"
| "wire_protocol_index Messages = 2"

lemma wire_protocol_index_inj: "wire_protocol_index a = wire_protocol_index b \<Longrightarrow> a = b"
  by (cases a; cases b) simp_all

instantiation wire_protocol :: linorder
begin

definition less_eq_wire_protocol :: "wire_protocol \<Rightarrow> wire_protocol \<Rightarrow> bool" where
  "less_eq_wire_protocol a b = (wire_protocol_index a \<le> wire_protocol_index b)"

definition less_wire_protocol :: "wire_protocol \<Rightarrow> wire_protocol \<Rightarrow> bool" where
  "less_wire_protocol a b = (wire_protocol_index a < wire_protocol_index b)"

instance
  by intro_classes (auto simp: less_eq_wire_protocol_def less_wire_protocol_def intro: wire_protocol_index_inj)

end

section \<open>Evidence\<close>

datatype evidence_state = Supported | Rejected | Unobserved

datatype capability_source = OverrideSource | ProbeSource | PolicySource | BaselineSource

datatype token_limit_field = MaxTokens | MaxCompletionTokens | MaxOutputTokens | OmitLimit

fun request_field :: "token_limit_field \<Rightarrow> string option" where
  "request_field MaxTokens = Some ''max_tokens''"
| "request_field MaxCompletionTokens = Some ''max_completion_tokens''"
| "request_field MaxOutputTokens = Some ''max_output_tokens''"
| "request_field OmitLimit = None"

datatype reasoning_mode = ReasoningOff | ReasoningOptional | FixedOn

datatype reasoning_carrier = NoCarrier | ReasoningContent | ResponsesReasoningItem | MessagesThinking

datatype dialect_correction_rule =
    SwitchTokenLimit token_limit_field token_limit_field
  | RemoveOptionalField string

definition removable_fields :: "string list" where
  "removable_fields =
    [''service_tier'', ''safety_identifier'', ''prompt_cache_key'', ''prompt_cache_retention'', ''client_metadata'',
     ''verbosity'', ''parallel_tool_calls'', ''stream_options'']"

fun rule_is_safe :: "dialect_correction_rule \<Rightarrow> bool" where
  "rule_is_safe (SwitchTokenLimit rejected replacement) =
    (rejected \<noteq> replacement \<and> request_field rejected \<noteq> None \<and> request_field replacement \<noteq> None)"
| "rule_is_safe (RemoveOptionalField field) = (field \<in> set removable_fields)"

fun matches_rejected_field :: "dialect_correction_rule \<Rightarrow> string \<Rightarrow> bool" where
  "matches_rejected_field (SwitchTokenLimit rejected _) rejected_field = (request_field rejected = Some rejected_field)"
| "matches_rejected_field (RemoveOptionalField field) rejected_field = (field = rejected_field)"

datatype nonstandard_field_policy = AutoPolicy | AlwaysStrip | ForwardFields

section \<open>Policies, overrides and routes\<close>

record semantic_policy =
  sp_reasoning_mode :: "reasoning_mode option"
  sp_reasoning_replay_required :: "bool option"
  sp_effort_map :: "(string \<times> string) list"
  sp_context_window :: "64 word option"
  sp_max_output_tokens :: "64 word option"
  sp_omit_sampling_fields :: "string set"

definition semantic_default :: semantic_policy where
  "semantic_default =
    \<lparr>sp_reasoning_mode = None, sp_reasoning_replay_required = None, sp_effort_map = [], sp_context_window = None,
     sp_max_output_tokens = None, sp_omit_sampling_fields = {}\<rparr>"

record capability_selector =
  cs_exposed_model :: "string option"
  cs_runtime_model :: "string option"
  cs_runtime_model_glob :: "string option"
  cs_upstream_id :: "string option"
  cs_key_fingerprint :: "string option"
  cs_protocol :: "wire_protocol option"
  cs_tag :: "string option"

definition selector_default :: capability_selector where
  "selector_default =
    \<lparr>cs_exposed_model = None, cs_runtime_model = None, cs_runtime_model_glob = None, cs_upstream_id = None,
     cs_key_fingerprint = None, cs_protocol = None, cs_tag = None\<rparr>"

record 'n route_capability_override =
  ro_id :: string
  ro_priority :: int
  ro_selector :: capability_selector
  ro_capabilities :: "(capability \<times> evidence_state) list"
  ro_token_limit_field :: "token_limit_field option"
  ro_reasoning_carrier :: "reasoning_carrier option"
  ro_reasoning_control_field :: "string option"
  ro_effort_map :: "(string \<times> 'n json) list"
  ro_correction_rules :: "dialect_correction_rule list"
  ro_extensions :: "(string \<times> evidence_state) list"

datatype predicate_operator = PredExists | PredEquals | PredContains | EventSequence

record 'n response_predicate =
  rp_path :: string
  rp_operator :: predicate_operator
  rp_value :: "'n json option"

record 'n declarative_probe_case =
  pc_id :: string
  pc_protocol :: wire_protocol
  pc_prerequisites :: "capability set"
  pc_request_patch :: "'n json"
  pc_response_predicate :: "'n response_predicate"

record route_identity =
  ri_upstream_id :: string
  ri_key_fingerprint :: string
  ri_exposed_model_slug :: string
  ri_runtime_model_slug :: string
  ri_protocol :: wire_protocol
  ri_tags :: "string set"

definition key_from_route :: "route_identity \<Rightarrow> dialect_profile_key" where
  "key_from_route route =
    \<lparr>dk_upstream_id = ri_upstream_id route, dk_key_fingerprint = ri_key_fingerprint route,
     dk_runtime_model_slug = ri_runtime_model_slug route, dk_protocol = ri_protocol route\<rparr>"

section \<open>Profiles\<close>

datatype dialect_profile_state = ProfileVerified | ProfilePartial | ProfileUnsupported | ProfileUnknown

datatype probe_profile_outcome = OutcomeAccepted | OutcomeRejected | OutcomeOperationalFailure | OutcomeDeferred

record 'n upstream_dialect_profile =
  dp_key :: dialect_profile_key
  dp_configuration_fingerprint :: string
  dp_probe_schema_version :: nat
  dp_state :: dialect_profile_state
  dp_capabilities :: "(capability \<times> evidence_state) list"
  dp_token_limit_field :: "token_limit_field option"
  dp_reasoning_carrier :: "reasoning_carrier option"
  dp_correction_rules :: "dialect_correction_rule list"
  dp_reasoning_controls :: "(string \<times> 'n json list) list"
  dp_extension_evidence :: "(string \<times> evidence_state) list"
  dp_last_attempt_at :: "nat option"
  dp_last_success_at :: "nat option"
  dp_last_operational_failure :: "string option"
  dp_last_probe_outcome :: "probe_profile_outcome option"
  dp_probe_retry_count :: nat
  dp_next_probe_at :: "nat option"
  dp_evidence_codes :: "string set"
  dp_http_status :: "nat option"
  dp_event_types :: "string set"

definition dialect_probe_schema_version :: nat where
  "dialect_probe_schema_version = 11"

definition profile_unknown :: "dialect_profile_key \<Rightarrow> 'n upstream_dialect_profile" where
  "profile_unknown key =
    \<lparr>dp_key = key, dp_configuration_fingerprint = [], dp_probe_schema_version = dialect_probe_schema_version,
     dp_state = ProfileUnknown, dp_capabilities = [], dp_token_limit_field = None, dp_reasoning_carrier = None,
     dp_correction_rules = [], dp_reasoning_controls = [], dp_extension_evidence = [], dp_last_attempt_at = None,
     dp_last_success_at = None, dp_last_operational_failure = None, dp_last_probe_outcome = None,
     dp_probe_retry_count = 0, dp_next_probe_at = None, dp_evidence_codes = {}, dp_http_status = None, dp_event_types = {}\<rparr>"

section \<open>Requests and resolved capabilities\<close>

record requested_features =
  rf_required :: "capability set"
  rf_optional :: "capability set"
  rf_explicitly_selected_tool_kind :: "string option"
  rf_allow_reasoning_history_downgrade :: bool
  rf_continuation_profile :: "dialect_profile_key option"
  rf_continuation_reasoning_carrier :: "reasoning_carrier option"

definition requested_text_stream :: requested_features where
  "requested_text_stream =
    \<lparr>rf_required = {TextInput, TextStream}, rf_optional = {}, rf_explicitly_selected_tool_kind = None,
     rf_allow_reasoning_history_downgrade = False, rf_continuation_profile = None, rf_continuation_reasoning_carrier = None\<rparr>"

record resolved_capability =
  rc_state :: evidence_state
  rc_source :: capability_source

type_synonym capability_values = "(capability \<times> resolved_capability) list"

record 'n resolved_request_extension =
  re_id :: string
  re_request_patch :: "'n json"

record 'n resolved_capabilities =
  rv_values :: capability_values
  rv_token_limit_field :: token_limit_field
  rv_reasoning_mode :: reasoning_mode
  rv_reasoning_carrier :: reasoning_carrier
  rv_correction_rules :: "dialect_correction_rule list"
  rv_reasoning_control_field :: "string option"
  rv_effort_map :: "(string \<times> 'n json) list"
  rv_omit_sampling_fields :: "string set"
  rv_context_window :: "64 word option"
  rv_max_output_tokens :: "64 word option"
  rv_omit_optional_extensions :: bool
  rv_profile_state :: dialect_profile_state
  rv_provisional :: bool
  rv_native_preferred :: bool
  rv_adapters :: "string set"
  rv_request_extensions :: "'n resolved_request_extension list"
  rv_field_sources :: "(string \<times> capability_source) list"

definition capability_state :: "'n resolved_capabilities \<Rightarrow> capability \<Rightarrow> evidence_state" where
  "capability_state r c = (case map_of (rv_values r) c of Some v \<Rightarrow> rc_state v | None \<Rightarrow> Unobserved)"

definition source_of :: "'n resolved_capabilities \<Rightarrow> capability \<Rightarrow> capability_source" where
  "source_of r c = (case map_of (rv_values r) c of Some v \<Rightarrow> rc_source v | None \<Rightarrow> BaselineSource)"

definition resolved_supports :: "'n resolved_capabilities \<Rightarrow> capability \<Rightarrow> bool" where
  "resolved_supports r c = (capability_state r c = Supported)"

section \<open>Baseline and presets\<close>

definition baseline_supported :: "capability set" where
  "baseline_supported = {TextInput, NonStreamingResponse, TextStream, FunctionTools, ForcedToolChoice, ToolContinuation}"

definition baseline_capabilities :: capability_values where
  "baseline_capabilities =
    map (\<lambda>c. (c, \<lparr>rc_state = (if c \<in> baseline_supported then Supported else Unobserved), rc_source = BaselineSource\<rparr>)) capability_all"

definition policy_supported :: "capability list \<Rightarrow> capability_values \<Rightarrow> capability_values" where
  "policy_supported cs values = fold (\<lambda>c. bt_insert c \<lparr>rc_state = Supported, rc_source = PolicySource\<rparr>) cs values"

definition preset_shape ::
  "capability_values \<Rightarrow> reasoning_carrier \<Rightarrow> string option \<Rightarrow> (string \<times> 'n json) list \<Rightarrow> string set \<Rightarrow> bool \<Rightarrow> 'n resolved_capabilities" where
  "preset_shape values carrier control efforts omit_fields omit_extensions =
    (let sources = fold (\<lambda>(k, v). bt_insert k v)
           [(''token_limit_field'', PolicySource),
            (''reasoning_carrier'', if carrier = NoCarrier then BaselineSource else PolicySource),
            (''effort_map'', if efforts = [] then BaselineSource else PolicySource),
            (''omit_sampling_fields'', if omit_fields = {} then BaselineSource else PolicySource)] []
     in \<lparr>rv_values = values, rv_token_limit_field = MaxTokens, rv_reasoning_mode = ReasoningOptional,
         rv_reasoning_carrier = carrier, rv_correction_rules = [], rv_reasoning_control_field = control,
         rv_effort_map = efforts, rv_omit_sampling_fields = omit_fields, rv_context_window = None,
         rv_max_output_tokens = None, rv_omit_optional_extensions = omit_extensions,
         rv_profile_state = ProfilePartial, rv_provisional = False, rv_native_preferred = True, rv_adapters = {},
         rv_request_extensions = [],
         rv_field_sources = (if omit_extensions then bt_insert ''omit_optional_extensions'' PolicySource sources else sources)\<rparr>)"

definition compile_dialect_preset :: "string \<Rightarrow> 'n resolved_capabilities option" where
  "compile_dialect_preset preset =
    (if preset = ''openai'' \<or> preset = ''minimax''
     then Some (preset_shape (policy_supported [ParallelToolCalls] baseline_capabilities) NoCarrier None [] {} False)
     else if preset = ''deepseek''
     then Some (preset_shape (policy_supported [ReasoningOutput, ReasoningReplay, ParallelToolCalls] baseline_capabilities)
       ReasoningContent (Some ''reasoning_effort'')
       (json_object (map (\<lambda>effort. (effort, JString effort)) [''low'', ''medium'', ''high'', ''xhigh'', ''max'']))
       {''logprobs'', ''top_logprobs''} False)
     else if preset = ''glm''
     then Some (preset_shape (policy_supported [ReasoningOutput, ReasoningReplay, ParallelToolCalls] baseline_capabilities)
       ReasoningContent (Some ''thinking'')
       (json_object ((''low'', JObject [(''type'', JString ''disabled'')])
         # map (\<lambda>effort. (effort, JObject [(''type'', JString ''enabled'')])) [''medium'', ''high'', ''xhigh'', ''max'']))
       {''stream_options'', ''logprobs'', ''top_logprobs''} False)
     else if preset = ''generic-strict''
     then Some (preset_shape baseline_capabilities NoCarrier None [] {''stream_options''} True)
     else None)"

lemma map_of_map_pair: "map_of (map (\<lambda>x. (x, f x)) xs) k = (if k \<in> set xs then Some (f k) else None)"
  by (induction xs) auto

lemma baseline_lookup:
  "map_of baseline_capabilities c
    = Some \<lparr>rc_state = (if c \<in> baseline_supported then Supported else Unobserved), rc_source = BaselineSource\<rparr>"
  by (simp add: baseline_capabilities_def map_of_map_pair capability_all_UNIV)

text \<open>A value pushed onto a vector unless it is there.\<close>

definition push_new :: "'a \<Rightarrow> 'a list \<Rightarrow> 'a list" where
  "push_new v slot = (if v \<in> set slot then slot else slot @ [v])"

lemma push_new_set: "set (fold push_new vs slot) = set slot \<union> set vs"
  by (induction vs arbitrary: slot) (auto simp: push_new_def)

end
