(* ===== verification/Capability_Resolver.thy ===== *)
theory Capability_Resolver
  imports Capability_Types
begin

text \<open>
  The resolution of what a route can do for a request (\<open>src/src/capabilities/resolver.rs\<close>): the
  baseline, the evidence of probes or a dialect preset, and the overrides of the route are layered,
  and a request whose required capabilities the route cannot preserve is refused.
\<close>

section \<open>Data\<close>

record capability_resolution_error =
  ce_capability :: capability

definition resolution_error_category :: "capability_resolution_error \<Rightarrow> string" where
  "resolution_error_category _ = ''gateway_protocol_capability_unsupported''"

record 'n resolution_input =
  rs_route :: route_identity
  rs_requested :: requested_features
  rs_semantic :: semantic_policy
  rs_route_overrides :: "'n route_capability_override list"
  rs_policy_extensions :: "'n declarative_probe_case list"
  rs_profile :: "'n upstream_dialect_profile option"
  rs_dialect_preset :: "string option"
  rs_strip_nonstandard_chat_fields :: nonstandard_field_policy

definition input_baseline :: "route_identity \<Rightarrow> requested_features \<Rightarrow> 'n resolution_input" where
  "input_baseline route requested =
    \<lparr>rs_route = route, rs_requested = requested, rs_semantic = semantic_default, rs_route_overrides = [],
     rs_policy_extensions = [], rs_profile = None, rs_dialect_preset = None,
     rs_strip_nonstandard_chat_fields = AutoPolicy\<rparr>"

section \<open>Layers\<close>

definition matching_continuation_carrier :: "'n resolution_input \<Rightarrow> reasoning_carrier option" where
  "matching_continuation_carrier i =
    (if rf_continuation_profile (rs_requested i) = Some (key_from_route (rs_route i))
     then rf_continuation_reasoning_carrier (rs_requested i) else None)"

definition put_observed :: "capability_source \<Rightarrow> (capability \<times> evidence_state) list \<Rightarrow> capability_values \<Rightarrow> capability_values" where
  "put_observed src evidence values =
    fold (\<lambda>(c, s) m. if s \<noteq> Unobserved then bt_insert c \<lparr>rc_state = s, rc_source = src\<rparr> m else m) evidence values"

definition put_preset :: "capability_values \<Rightarrow> capability_values \<Rightarrow> capability_values" where
  "put_preset preset values = fold (\<lambda>(c, v) m. if rc_state v \<noteq> Unobserved then bt_insert c v m else m) preset values"

definition continuation_layer :: "reasoning_carrier option \<Rightarrow> capability_values \<Rightarrow> capability_values" where
  "continuation_layer carrier values =
    (if carrier = Some ReasoningContent
     then fold (\<lambda>c. bt_insert c \<lparr>rc_state = Supported, rc_source = BaselineSource\<rparr>) [ReasoningOutput, ReasoningReplay] values
     else values)"

definition evidence_layer :: "'n resolution_input \<Rightarrow> 'n resolved_capabilities option \<Rightarrow> capability_values \<Rightarrow> capability_values" where
  "evidence_layer i preset values =
    (case rs_profile i of
       Some profile \<Rightarrow> put_observed ProbeSource (dp_capabilities profile) values
     | None \<Rightarrow> (case preset of Some p \<Rightarrow> put_preset (rv_values p) values | None \<Rightarrow> values))"

definition override_layer :: "'n resolution_input \<Rightarrow> capability_values \<Rightarrow> capability_values" where
  "override_layer i values = fold (\<lambda>o'. put_observed OverrideSource (ro_capabilities o')) (rs_route_overrides i) values"

definition resolved_values :: "'n resolution_input \<Rightarrow> 'n resolved_capabilities option \<Rightarrow> capability_values" where
  "resolved_values i preset =
    override_layer i (evidence_layer i preset (continuation_layer (matching_continuation_carrier i) baseline_capabilities))"

definition reasoning_carrier_matches_protocol :: "reasoning_carrier \<Rightarrow> wire_protocol \<Rightarrow> bool" where
  "reasoning_carrier_matches_protocol carrier proto =
    ((proto, carrier) \<in> {(ChatCompletions, ReasoningContent), (Responses, ResponsesReasoningItem), (Messages, MessagesThinking)})"

definition required_capabilities :: "'n resolution_input \<Rightarrow> capability set" where
  "required_capabilities i =
    rf_required (rs_requested i)
    \<union> (if sp_reasoning_mode (rs_semantic i) = Some FixedOn then {ReasoningOutput} else {})
    \<union> (if sp_reasoning_replay_required (rs_semantic i) = Some True then {ReasoningOutput, ReasoningReplay} else {})"

definition capability_preserved :: "'n resolution_input \<Rightarrow> capability_values \<Rightarrow> reasoning_carrier \<Rightarrow> capability \<Rightarrow> bool" where
  "capability_preserved i values carrier c =
    (is_some_and (map_of values c) (\<lambda>v. rc_state v = Supported)
     \<and> (c \<notin> {ReasoningOutput, ReasoningReplay} \<or> reasoning_carrier_matches_protocol carrier (ri_protocol (rs_route i))))"

definition validate_required_capabilities ::
  "'n resolution_input \<Rightarrow> capability_values \<Rightarrow> reasoning_carrier \<Rightarrow> capability_resolution_error + unit" where
  "validate_required_capabilities i values carrier =
    (case List.find (\<lambda>c. \<not> capability_preserved i values carrier c) (sorted_list_of_set (required_capabilities i)) of
       Some c \<Rightarrow> Inl \<lparr>ce_capability = c\<rparr>
     | None \<Rightarrow> Inr ())"

text \<open>The last override that names a value wins.\<close>

definition overridden :: "('o \<Rightarrow> 'a option) \<Rightarrow> 'o list \<Rightarrow> 'a \<times> capability_source \<Rightarrow> 'a \<times> capability_source" where
  "overridden field overrides start = fold (\<lambda>o' acc. case field o' of Some v \<Rightarrow> (v, OverrideSource) | None \<Rightarrow> acc) overrides start"

definition resolve_token_limit_field ::
  "'n resolution_input \<Rightarrow> 'n resolved_capabilities option \<Rightarrow> token_limit_field \<times> capability_source" where
  "resolve_token_limit_field i preset =
    overridden ro_token_limit_field (rs_route_overrides i)
      (case Option.bind (rs_profile i) dp_token_limit_field of
         Some v \<Rightarrow> (v, ProbeSource)
       | None \<Rightarrow> (case preset of Some p \<Rightarrow> (rv_token_limit_field p, PolicySource) | None \<Rightarrow> (OmitLimit, BaselineSource)))"

definition resolve_reasoning_carrier ::
  "'n resolution_input \<Rightarrow> reasoning_carrier option \<Rightarrow> 'n resolved_capabilities option \<Rightarrow> reasoning_carrier \<times> capability_source" where
  "resolve_reasoning_carrier i continuation_carrier preset =
    overridden ro_reasoning_carrier (rs_route_overrides i)
      (case Option.bind (rs_profile i) dp_reasoning_carrier of
         Some v \<Rightarrow> (v, ProbeSource)
       | None \<Rightarrow> (case preset of Some p \<Rightarrow> (rv_reasoning_carrier p, PolicySource)
                  | None \<Rightarrow> (unwrap_or continuation_carrier NoCarrier, BaselineSource)))"

definition resolve_correction_rules :: "'n resolution_input \<Rightarrow> dialect_correction_rule list" where
  "resolve_correction_rules i =
    fold (\<lambda>o' rules. if ro_correction_rules o' \<noteq> [] then ro_correction_rules o' else rules) (rs_route_overrides i)
      (case rs_profile i of Some profile \<Rightarrow> dp_correction_rules profile | None \<Rightarrow> [])"

text \<open>The efforts of the policy whose upstream value a control field of the profile accepts.\<close>

definition accepted_efforts :: "(string \<times> string) list \<Rightarrow> 'n json list \<Rightarrow> (string \<times> 'n json) list" where
  "accepted_efforts efforts accepted =
    map (\<lambda>(requested, upstream). (requested, JString upstream))
      (filter (\<lambda>(_, upstream). list_ex (\<lambda>v. as_str v = Some upstream) accepted) efforts)"

fun first_control ::
  "(string \<times> string) list \<Rightarrow> (string \<times> 'n json list) list \<Rightarrow> (string \<times> (string \<times> 'n json) list) option" where
  "first_control efforts [] = None"
| "first_control efforts ((field, accepted) # controls) =
    (if accepted_efforts efforts accepted \<noteq> [] then Some (field, accepted_efforts efforts accepted)
     else first_control efforts controls)"

definition resolve_effort_control ::
  "'n resolution_input \<Rightarrow> 'n resolved_capabilities option
   \<Rightarrow> string option \<times> (string \<times> 'n json) list \<times> capability_source" where
  "resolve_effort_control i preset =
    fold (\<lambda>o' acc. case ro_reasoning_control_field o' of
                     Some field \<Rightarrow> (Some field, ro_effort_map o', OverrideSource) | None \<Rightarrow> acc)
      (rs_route_overrides i)
      (case rs_profile i of
         Some profile \<Rightarrow>
           (case first_control (sp_effort_map (rs_semantic i)) (dp_reasoning_controls profile) of
              Some (field, efforts) \<Rightarrow> (Some field, efforts, ProbeSource)
            | None \<Rightarrow> (None, [], BaselineSource))
       | None \<Rightarrow>
           (case preset of
              Some p \<Rightarrow> (rv_reasoning_control_field p, rv_effort_map p, if rv_effort_map p \<noteq> [] then PolicySource else BaselineSource)
            | None \<Rightarrow> (None, [], BaselineSource)))"

definition stronger_evidence_source :: "capability_source \<Rightarrow> capability_source \<Rightarrow> capability_source" where
  "stronger_evidence_source current candidate =
    (if candidate = OverrideSource then OverrideSource
     else if current = BaselineSource \<and> candidate = ProbeSource then ProbeSource
     else current)"

definition extension_applies :: "'n resolution_input \<Rightarrow> 'n declarative_probe_case \<Rightarrow> bool" where
  "extension_applies i extension =
    (pc_protocol extension = ri_protocol (rs_route i)
     \<and> pc_prerequisites extension \<subseteq> rf_required (rs_requested i) \<union> rf_optional (rs_requested i))"

definition extension_evidence_for :: "'n resolution_input \<Rightarrow> string \<Rightarrow> evidence_state \<times> capability_source" where
  "extension_evidence_for i name =
    overridden (\<lambda>o'. filter_option (\<lambda>s. s \<noteq> Unobserved) (map_of (ro_extensions o') name)) (rs_route_overrides i)
      (case filter_option (\<lambda>s. s \<noteq> Unobserved) (Option.bind (rs_profile i) (\<lambda>p. map_of (dp_extension_evidence p) name)) of
         Some s \<Rightarrow> (s, ProbeSource)
       | None \<Rightarrow> (Unobserved, BaselineSource))"

definition extension_step ::
  "'n resolution_input \<Rightarrow> 'n declarative_probe_case \<Rightarrow> 'n resolved_request_extension list \<times> capability_source
   \<Rightarrow> 'n resolved_request_extension list \<times> capability_source" where
  "extension_step i extension = (\<lambda>(resolved, source).
    if \<not> extension_applies i extension then (resolved, source)
    else let (evidence, evidence_source) = extension_evidence_for i (pc_id extension)
         in (if evidence = Supported
             then resolved @ [\<lparr>re_id = pc_id extension, re_request_patch = pc_request_patch extension\<rparr>] else resolved,
             stronger_evidence_source source evidence_source))"

definition extensions_are_eligible :: "'n resolution_input \<Rightarrow> bool" where
  "extensions_are_eligible i =
    (case rs_strip_nonstandard_chat_fields i of
       AlwaysStrip \<Rightarrow> False | ForwardFields \<Rightarrow> True | AutoPolicy \<Rightarrow> rs_profile i \<noteq> None)"

definition resolve_extensions ::
  "'n resolution_input \<Rightarrow> 'n resolved_capabilities option \<Rightarrow> 'n resolved_request_extension list \<times> capability_source" where
  "resolve_extensions i preset =
    (case preset of
       Some p \<Rightarrow> (rv_request_extensions p, PolicySource)
     | None \<Rightarrow>
         if \<not> extensions_are_eligible i then ([], BaselineSource)
         else fold (extension_step i) (rs_policy_extensions i) ([], BaselineSource))"

definition source_for_option :: "'a option \<Rightarrow> capability_source" where
  "source_for_option v = (if v \<noteq> None then PolicySource else BaselineSource)"

section \<open>Resolution\<close>

definition usable_input :: "'n resolution_input \<Rightarrow> 'n resolution_input" where
  "usable_input i = i\<lparr>rs_profile := filter_option (\<lambda>p. dp_key p = key_from_route (rs_route i)) (rs_profile i)\<rparr>"

definition resolved_profile_state :: "'n resolution_input \<Rightarrow> bool \<Rightarrow> dialect_profile_state" where
  "resolved_profile_state i uses_preset =
    (case rs_profile i of
       Some profile \<Rightarrow> dp_state profile
     | None \<Rightarrow> if uses_preset then ProfilePartial else ProfileUnknown)"

definition resolved_omit_extensions ::
  "'n resolution_input \<Rightarrow> 'n resolved_capabilities option \<Rightarrow> bool \<Rightarrow> dialect_profile_state \<Rightarrow> bool" where
  "resolved_omit_extensions i preset uses_preset profile_state =
    (if uses_preset then is_some_and preset rv_omit_optional_extensions
     else case rs_strip_nonstandard_chat_fields i of
       AlwaysStrip \<Rightarrow> True | ForwardFields \<Rightarrow> False | AutoPolicy \<Rightarrow> profile_state = ProfileUnknown)"

definition native_preferred :: "'n resolution_input \<Rightarrow> dialect_profile_state \<Rightarrow> bool" where
  "native_preferred i profile_state =
    (case profile_state of
       ProfileVerified \<Rightarrow> True
     | ProfileUnsupported \<Rightarrow> False
     | _ \<Rightarrow> ri_protocol (rs_route i) = ChatCompletions)"

definition resolved_field_sources ::
  "semantic_policy \<Rightarrow> capability_source \<Rightarrow> capability_source \<Rightarrow> capability_source \<Rightarrow> capability_source
   \<Rightarrow> (string \<times> capability_source) list" where
  "resolved_field_sources semantic token_limit_source carrier_source effort_source extension_source =
    fold (\<lambda>(k, v). bt_insert k v)
      [(''token_limit_field'', token_limit_source), (''reasoning_carrier'', carrier_source),
       (''reasoning_mode'', source_for_option (sp_reasoning_mode semantic)),
       (''context_window'', source_for_option (sp_context_window semantic)),
       (''max_output_tokens'', source_for_option (sp_max_output_tokens semantic)),
       (''omit_sampling_fields'', if sp_omit_sampling_fields semantic = {} then BaselineSource else PolicySource),
       (''effort_map'', effort_source), (''request_extensions'', extension_source)] []"

definition resolve :: "'n resolution_input \<Rightarrow> capability_resolution_error + 'n resolved_capabilities" where
  "resolve input =
    (let i = usable_input input;
         preset = Option.bind (rs_dialect_preset i) compile_dialect_preset;
         uses_preset = (rs_profile i = None \<and> preset \<noteq> None);
         continuation_carrier = matching_continuation_carrier i;
         values = resolved_values i preset;
         (carrier, carrier_source) = resolve_reasoning_carrier i continuation_carrier preset
     in bind_ok (validate_required_capabilities i values carrier) (\<lambda>_.
       let (token_limit, token_limit_source) = resolve_token_limit_field i preset;
           (control_field, efforts, effort_source) = resolve_effort_control i preset;
           (extensions, extension_source) = resolve_extensions i preset;
           profile_state = resolved_profile_state i uses_preset
       in Inr \<lparr>rv_values = values, rv_token_limit_field = token_limit,
            rv_reasoning_mode = unwrap_or (sp_reasoning_mode (rs_semantic i)) ReasoningOff,
            rv_reasoning_carrier = carrier, rv_correction_rules = resolve_correction_rules i,
            rv_reasoning_control_field = control_field, rv_effort_map = efforts,
            rv_omit_sampling_fields =
              (if uses_preset then (case preset of Some p \<Rightarrow> rv_omit_sampling_fields p | None \<Rightarrow> {})
               else sp_omit_sampling_fields (rs_semantic i)),
            rv_context_window = sp_context_window (rs_semantic i),
            rv_max_output_tokens = sp_max_output_tokens (rs_semantic i),
            rv_omit_optional_extensions = resolved_omit_extensions i preset uses_preset profile_state,
            rv_profile_state = profile_state, rv_provisional = (profile_state = ProfileUnknown),
            rv_native_preferred = native_preferred i profile_state, rv_adapters = {},
            rv_request_extensions = extensions,
            rv_field_sources = resolved_field_sources (rs_semantic i) token_limit_source carrier_source effort_source extension_source\<rparr>))"

section \<open>Layering\<close>

text \<open>
  What the layers say of one capability, from the strongest down: the last override that observed it,
  the profile (or the preset where there is no profile), the continuation, the baseline.
\<close>

definition observed :: "('k \<times> evidence_state) list \<Rightarrow> 'k \<Rightarrow> evidence_state option" where
  "observed evidence k = filter_option (\<lambda>s. s \<noteq> Unobserved) (map_of evidence k)"

definition last_observed :: "'n route_capability_override list \<Rightarrow> capability \<Rightarrow> evidence_state option" where
  "last_observed overrides c = find_map (\<lambda>o'. observed (ro_capabilities o') c) (rev overrides)"

definition beneath :: "'n resolution_input \<Rightarrow> capability \<Rightarrow> evidence_state" where
  "beneath i c =
    (if c \<in> baseline_supported \<or> matching_continuation_carrier i = Some ReasoningContent \<and> c \<in> {ReasoningOutput, ReasoningReplay}
     then Supported else Unobserved)"

definition layered :: "'n resolution_input \<Rightarrow> 'n resolved_capabilities option \<Rightarrow> capability \<Rightarrow> evidence_state \<times> capability_source" where
  "layered i preset c =
    (case last_observed (rs_route_overrides i) c of
       Some s \<Rightarrow> (s, OverrideSource)
     | None \<Rightarrow>
         (case rs_profile i of
            Some profile \<Rightarrow>
              (case observed (dp_capabilities profile) c of Some s \<Rightarrow> (s, ProbeSource) | None \<Rightarrow> (beneath i c, BaselineSource))
          | None \<Rightarrow>
              (case preset of
                 Some p \<Rightarrow>
                   (if capability_state p c \<noteq> Unobserved then (capability_state p c, source_of p c) else (beneath i c, BaselineSource))
               | None \<Rightarrow> (beneath i c, BaselineSource))))"

text \<open>The maps of an input have distinct keys, as every \<open>BTreeMap\<close> has.\<close>

definition input_ok :: "'n resolution_input \<Rightarrow> bool" where
  "input_ok i =
    (list_all (\<lambda>o'. bt_sorted (ro_capabilities o')) (rs_route_overrides i)
     \<and> is_none_or (rs_profile i) (\<lambda>p. bt_sorted (dp_capabilities p)))"

lemma fold_put_lookup:
  assumes "distinct (map fst entries)"
  shows "map_of (fold (\<lambda>(k, x) m. if p x then bt_insert k (g x) m else m) entries m) c
    = (case filter_option p (map_of entries c) of Some x \<Rightarrow> Some (g x) | None \<Rightarrow> map_of m c)"
  using assms
proof (induction entries arbitrary: m)
  case Nil
  then show ?case by (simp add: filter_option_def)
next
  case (Cons e entries)
  obtain k x where e: "e = (k, x)" by force
  have "k = c \<Longrightarrow> map_of entries c = None" using Cons.prems by (simp add: map_of_eq_None_iff e)
  then show ?case
    using Cons by (auto simp: filter_option_def e map_of_bt_insert split: option.split)
qed

lemma put_observed_lookup:
  "distinct (map fst evidence) \<Longrightarrow> map_of (put_observed src evidence m) c
    = (case observed evidence c of Some s \<Rightarrow> Some \<lparr>rc_state = s, rc_source = src\<rparr> | None \<Rightarrow> map_of m c)"
  unfolding put_observed_def observed_def by (rule fold_put_lookup)

lemma put_preset_lookup:
  "distinct (map fst (rv_values p)) \<Longrightarrow> map_of (put_preset (rv_values p) m) c
    = (if capability_state p c \<noteq> Unobserved then Some \<lparr>rc_state = capability_state p c, rc_source = source_of p c\<rparr> else map_of m c)"
  unfolding put_preset_def
  by (subst fold_put_lookup [where g = "\<lambda>v. v"])
    (auto simp: capability_state_def source_of_def filter_option_def split: option.split)

lemma override_layer_lookup:
  assumes "list_all (\<lambda>o'. bt_sorted (ro_capabilities o')) overrides"
  shows "map_of (fold (\<lambda>o'. put_observed OverrideSource (ro_capabilities o')) overrides m) c
    = (case last_observed overrides c of Some s \<Rightarrow> Some \<lparr>rc_state = s, rc_source = OverrideSource\<rparr> | None \<Rightarrow> map_of m c)"
  using assms
proof (induction overrides rule: rev_induct)
  case Nil
  then show ?case by (simp add: last_observed_def)
next
  case (snoc o' overrides)
  then show ?case
    by (simp add: last_observed_def put_observed_lookup [OF bt_sorted_distinct] split: option.split)
qed

lemma baseline_sorted: "bt_sorted baseline_capabilities"
  by (simp add: bt_sorted_def baseline_capabilities_def capability_all_def less_capability_def)

lemma policy_supported_sorted: "bt_sorted m \<Longrightarrow> bt_sorted (policy_supported cs m)"
  unfolding policy_supported_def by (induction cs arbitrary: m) (simp_all add: bt_insert_sorted)

lemma preset_sorted: "compile_dialect_preset name = Some p \<Longrightarrow> bt_sorted (rv_values p)"
  by (auto simp: compile_dialect_preset_def preset_shape_def Let_def baseline_sorted policy_supported_sorted split: if_splits)

lemma beneath_lookup:
  "map_of (continuation_layer (matching_continuation_carrier i) baseline_capabilities) c
    = Some \<lparr>rc_state = beneath i c, rc_source = BaselineSource\<rparr>"
  by (auto simp: continuation_layer_def beneath_def map_of_bt_insert baseline_lookup)

lemma resolved_values_layered:
  assumes "input_ok i" and "Option.bind (rs_dialect_preset i) compile_dialect_preset = preset"
  shows "map_of (resolved_values i preset) c
    = Some \<lparr>rc_state = fst (layered i preset c), rc_source = snd (layered i preset c)\<rparr>"
proof -
  have overrides: "list_all (\<lambda>o'. bt_sorted (ro_capabilities o')) (rs_route_overrides i)"
    and profile: "rs_profile i = Some profile \<Longrightarrow> distinct (map fst (dp_capabilities profile))" for profile
    using assms(1) by (auto simp: input_ok_def bt_sorted_distinct)
  have preset: "distinct (map fst (rv_values p))" if some: "preset = Some p" for p
    using assms(2) some preset_sorted bt_sorted_distinct by (cases "rs_dialect_preset i") fastforce+
  show ?thesis
    unfolding resolved_values_def override_layer_def override_layer_lookup [OF overrides] layered_def evidence_layer_def
    by (auto simp: put_observed_lookup profile put_preset_lookup preset beneath_lookup split: option.split)
qed

lemma find_strictly_sorted:
  fixes x :: "'a::linorder"
  assumes "sorted_wrt (<) xs"
  shows "List.find P xs = Some x \<longleftrightarrow> x \<in> set xs \<and> P x \<and> (\<forall>y\<in>set xs. y < x \<longrightarrow> \<not> P y)"
  using assms
proof (induction xs)
  case Nil
  then show ?case by simp
next
  case (Cons y ys)
  then have less: "z \<in> set ys \<Longrightarrow> y < z" for z by simp
  show ?case
  proof (cases "P y")
    case True
    then show ?thesis using less by (auto dest: less_asym)
  next
    case False
    then show ?thesis using Cons less by (auto simp: less_le)
  qed
qed

section \<open>Properties\<close>

text \<open>The preset of an input, and whether its route preserves a capability according to the layers.\<close>

definition preset_of :: "'n resolution_input \<Rightarrow> 'n resolved_capabilities option" where
  "preset_of i = Option.bind (rs_dialect_preset i) compile_dialect_preset"

definition carrier_of :: "'n resolution_input \<Rightarrow> reasoning_carrier" where
  "carrier_of i = fst (resolve_reasoning_carrier i (matching_continuation_carrier i) (preset_of i))"

definition route_preserves :: "'n resolution_input \<Rightarrow> capability \<Rightarrow> bool" where
  "route_preserves i c =
    (fst (layered i (preset_of i) c) = Supported
     \<and> (c \<in> {ReasoningOutput, ReasoningReplay} \<longrightarrow> reasoning_carrier_matches_protocol (carrier_of i) (ri_protocol (rs_route i))))"

lemma usable_input_ok: "input_ok i \<Longrightarrow> input_ok (usable_input i)"
  by (auto simp: input_ok_def usable_input_def is_none_or_iff)

lemma capability_preserved_layered:
  "input_ok i \<Longrightarrow> capability_preserved i (resolved_values i (preset_of i)) (carrier_of i) c = route_preserves i c"
  by (auto simp: capability_preserved_def route_preserves_def preset_of_def resolved_values_layered)

lemma validate_required_iff:
  assumes "input_ok i"
  shows "validate_required_capabilities i (resolved_values i (preset_of i)) (carrier_of i) = Inl e
      \<longleftrightarrow> ce_capability e \<in> required_capabilities i \<and> \<not> route_preserves i (ce_capability e)
        \<and> (\<forall>c\<in>required_capabilities i. c < ce_capability e \<longrightarrow> route_preserves i c)"
    and "validate_required_capabilities i (resolved_values i (preset_of i)) (carrier_of i) = Inr ()
      \<longleftrightarrow> (\<forall>c\<in>required_capabilities i. route_preserves i c)"
proof -
  let ?f = "List.find (\<lambda>c. \<not> route_preserves i c) (sorted_list_of_set (required_capabilities i))"
  have v: "validate_required_capabilities i (resolved_values i (preset_of i)) (carrier_of i)
      = (case ?f of Some c \<Rightarrow> Inl \<lparr>ce_capability = c\<rparr> | None \<Rightarrow> Inr ())"
    unfolding validate_required_capabilities_def capability_preserved_layered [OF assms] ..
  have find: "?f = Some c \<longleftrightarrow> c \<in> required_capabilities i \<and> \<not> route_preserves i c
      \<and> (\<forall>d\<in>required_capabilities i. d < c \<longrightarrow> route_preserves i d)" for c
    by (subst find_strictly_sorted) simp_all
  show "validate_required_capabilities i (resolved_values i (preset_of i)) (carrier_of i) = Inl e
      \<longleftrightarrow> ce_capability e \<in> required_capabilities i \<and> \<not> route_preserves i (ce_capability e)
        \<and> (\<forall>c\<in>required_capabilities i. c < ce_capability e \<longrightarrow> route_preserves i c)"
    unfolding v find [of "ce_capability e", symmetric] by (cases e) (auto split: option.split)
  show "validate_required_capabilities i (resolved_values i (preset_of i)) (carrier_of i) = Inr ()
      \<longleftrightarrow> (\<forall>c\<in>required_capabilities i. route_preserves i c)"
    proof (cases ?f)
    case None
    then have "\<forall>c\<in>required_capabilities i. route_preserves i c" by (simp add: find_None_iff)
    then show ?thesis unfolding v None by simp
  next
    case (Some c)
    then show ?thesis unfolding v using find [of c] by auto
  qed
qed

lemma resolve_cases:
  "(resolve input = Inl e) = (validate_required_capabilities (usable_input input)
      (resolved_values (usable_input input) (preset_of (usable_input input))) (carrier_of (usable_input input)) = Inl e)"
  "resolve input = Inr r \<Longrightarrow> validate_required_capabilities (usable_input input)
      (resolved_values (usable_input input) (preset_of (usable_input input))) (carrier_of (usable_input input)) = Inr ()
    \<and> rv_values r = resolved_values (usable_input input) (preset_of (usable_input input))
    \<and> rv_reasoning_carrier r = carrier_of (usable_input input)
    \<and> rv_request_extensions r = fst (resolve_extensions (usable_input input) (preset_of (usable_input input)))"
  by (auto simp: resolve_def Let_def preset_of_def carrier_of_def bind_ok_Inl_iff bind_ok_Inr_iff split_beta)

text \<open>
  C16. A resolution says of every capability what the strongest layer that observed it says, and where
  that comes from; it refuses a request exactly when some required capability is not supported or
  has no carrier in the route's protocol, and then it names the first of them. In particular
  whatever a client or the policy requires is supported by the resolution.
\<close>

theorem resolution_follows_layers:
  assumes "input_ok input" and "usable_input input = i"
  shows "(\<forall>e. resolve input = Inl e
        \<longleftrightarrow> ce_capability e \<in> required_capabilities i \<and> \<not> route_preserves i (ce_capability e)
          \<and> (\<forall>c\<in>required_capabilities i. c < ce_capability e \<longrightarrow> route_preserves i c))
    \<and> (\<forall>r. resolve input = Inr r \<longrightarrow>
        (\<forall>c. (capability_state r c, source_of r c) = layered i (preset_of i) c)
        \<and> (\<forall>c\<in>required_capabilities i. resolved_supports r c
             \<and> (c \<in> {ReasoningOutput, ReasoningReplay}
                \<longrightarrow> reasoning_carrier_matches_protocol (rv_reasoning_carrier r) (ri_protocol (rs_route input)))))"
proof (intro conjI allI impI)
  have ok: "input_ok i" using usable_input_ok assms by blast
  show "resolve input = Inl e
      \<longleftrightarrow> ce_capability e \<in> required_capabilities i \<and> \<not> route_preserves i (ce_capability e)
        \<and> (\<forall>c\<in>required_capabilities i. c < ce_capability e \<longrightarrow> route_preserves i c)" for e
    unfolding resolve_cases assms(2) validate_required_iff(1) [OF ok] ..
  fix r
  assume r: "resolve input = Inr r"
  have route: "rs_route i = rs_route input" using assms(2) by (auto simp: usable_input_def)
  have layers: "map_of (rv_values r) c = Some \<lparr>rc_state = fst (layered i (preset_of i) c), rc_source = snd (layered i (preset_of i) c)\<rparr>" for c
    using resolve_cases(2) [OF r] resolved_values_layered [OF ok] by (simp add: assms(2) preset_of_def)
  show "(capability_state r c, source_of r c) = layered i (preset_of i) c" for c
    by (simp add: capability_state_def source_of_def layers)
  have preserved: "route_preserves i c" if "c \<in> required_capabilities i" for c
    using resolve_cases(2) [OF r] validate_required_iff(2) [OF ok] that by (simp add: assms(2))
  show "\<forall>c\<in>required_capabilities i. resolved_supports r c
             \<and> (c \<in> {ReasoningOutput, ReasoningReplay}
                \<longrightarrow> reasoning_carrier_matches_protocol (rv_reasoning_carrier r) (ri_protocol (rs_route input)))"
    using preserved layers resolve_cases(2) [OF r, THEN conjunct2, THEN conjunct2, THEN conjunct1]
    by (simp add: capability_state_def resolved_supports_def route_preserves_def assms(2) route)
qed

definition sample_identity :: route_identity where
  "sample_identity =
    \<lparr>ri_upstream_id = ''u'', ri_key_fingerprint = ''k'', ri_exposed_model_slug = ''m'', ri_runtime_model_slug = ''m'',
     ri_protocol = ChatCompletions, ri_tags = {}\<rparr>"

definition sample_evidence :: "unit upstream_dialect_profile" where
  "sample_evidence = (profile_unknown (key_from_route sample_identity))
    \<lparr>dp_state := ProfileVerified, dp_capabilities := [(FunctionTools, Supported)], dp_extension_evidence := [(''x'', Supported)]\<rparr>"

definition sample_extension :: "unit declarative_probe_case" where
  "sample_extension =
    \<lparr>pc_id = ''x'', pc_protocol = ChatCompletions, pc_prerequisites = {}, pc_request_patch = JObject [(''p'', JNull)],
     pc_response_predicate = \<lparr>rp_path = ''/a'', rp_operator = PredExists, rp_value = None\<rparr>\<rparr>"

definition sample_input :: "string option \<Rightarrow> unit resolution_input" where
  "sample_input preset = (input_baseline sample_identity requested_text_stream)
    \<lparr>rs_profile := Some sample_evidence, rs_policy_extensions := [sample_extension], rs_dialect_preset := preset\<rparr>"

lemma sample_input_ok: "input_ok (sample_input preset)" "usable_input (sample_input preset) = sample_input preset"
  by (simp_all add: sample_input_def input_baseline_def input_ok_def sample_evidence_def bt_sorted_def usable_input_def
      profile_unknown_def filter_option_def)

lemma sample_preserves: "route_preserves (sample_input preset) c" if "c \<in> {TextInput, TextStream}"
  using that
  by (auto simp: route_preserves_def layered_def last_observed_def sample_input_def input_baseline_def sample_evidence_def
      observed_def filter_option_def beneath_def baseline_supported_def)

lemma sample_required: "required_capabilities (sample_input preset) = {TextInput, TextStream}"
  by (simp add: required_capabilities_def sample_input_def input_baseline_def requested_text_stream_def semantic_default_def)

theorem resolution_follows_layers_witness:
  "\<exists>r. resolve (sample_input None) = Inr r \<and> resolved_supports r TextStream \<and> source_of r FunctionTools = ProbeSource"
proof -
  note law = resolution_follows_layers [OF sample_input_ok, of None]
  obtain r where r: "resolve (sample_input None) = Inr r"
  proof (cases "resolve (sample_input None)")
    case (Inl e)
    then show thesis using law sample_preserves by (auto simp: sample_required)
  qed auto
  have "layered (sample_input None) (preset_of (sample_input None)) FunctionTools = (Supported, ProbeSource)"
    by (simp add: layered_def last_observed_def sample_input_def input_baseline_def sample_evidence_def observed_def filter_option_def)
  moreover have "resolved_supports r TextStream" "(capability_state r FunctionTools, source_of r FunctionTools)
      = layered (sample_input None) (preset_of (sample_input None)) FunctionTools"
    using law r by (auto simp: sample_required)
  ultimately show ?thesis using r by auto
qed

text \<open>
  A dialect preset is documented as a fallback that applies only where a route has no usable probe
  profile. The request extensions do not follow it: with a known preset none is sent, whatever the
  profile and the overrides say.
\<close>

theorem preset_drops_probed_extensions:
  assumes "rs_dialect_preset input = Some name" and "compile_dialect_preset name \<noteq> (None :: 'n resolved_capabilities option)"
    and "resolve (input :: 'n resolution_input) = Inr r"
  shows "rv_request_extensions r = []"
proof -
  obtain p :: "'n resolved_capabilities" where p: "compile_dialect_preset name = Some p" using assms(2) by blast
  then have "rv_request_extensions p = []"
    by (auto simp: compile_dialect_preset_def preset_shape_def Let_def split: if_splits)
  moreover have "preset_of (usable_input input) = Some p"
    using assms(1) p by (simp add: preset_of_def usable_input_def)
  ultimately show ?thesis using resolve_cases(2) [OF assms(3)] by (simp add: resolve_extensions_def)
qed

lemma sample_resolves: "\<exists>r. resolve (sample_input preset) = Inr r"
proof (cases "resolve (sample_input preset)")
  case (Inl e)
  then show ?thesis
    using resolve_cases(1) [of "sample_input preset" e] validate_required_iff(1) [OF sample_input_ok(1) [of preset], of e] sample_preserves
    by (auto simp: sample_input_ok sample_required)
qed auto

theorem preset_drops_probed_extensions_witness:
  "\<exists>r r'. resolve (sample_input None) = Inr r \<and> map re_id (rv_request_extensions r) = [''x'']
    \<and> resolve (sample_input (Some ''openai'')) = Inr r' \<and> rv_request_extensions r' = []"
proof -
  obtain r r' where r: "resolve (sample_input None) = Inr r" and r': "resolve (sample_input (Some ''openai'')) = Inr r'"
    using sample_resolves by metis
  have "rv_request_extensions r' = []"
    by (rule preset_drops_probed_extensions [OF _ _ r', of "''openai''"]) (simp_all add: sample_input_def compile_dialect_preset_def)
  moreover have "map re_id (rv_request_extensions r) = [''x'']"
    using resolve_cases(2) [OF r, THEN conjunct2, THEN conjunct2, THEN conjunct2] unfolding sample_input_ok(2)
    by (simp add: preset_of_def sample_input_def input_baseline_def resolve_extensions_def extensions_are_eligible_def
        extension_step_def extension_applies_def sample_extension_def sample_identity_def extension_evidence_for_def
        overridden_def sample_evidence_def filter_option_def)
  ultimately show ?thesis using r r' by (intro exI [of _ r] exI [of _ r'] conjI)
qed

end
