(* ===== verification/Capability_Policy.thy ===== *)
theory Capability_Policy
  imports Capability_Types Upstream_Feedback
begin

text \<open>
  The operator's capability configuration (\<open>src/src/capabilities/policy.rs\<close>): its validation, the
  compilation of selectors, the check that no two policies or overrides of one rank disagree about a
  route they both select, and the queries of a compiled configuration. Globs, URLs, serialisation and
  the digest are code of other packages and given by \<open>policy_ops\<close>; what a writer receives is the list
  of the sizes of its buffers. An ordered set of strings that is iterated is an ascending list.
\<close>

section \<open>Configuration\<close>

datatype agent_client_profile = Codex | Opencode | ClaudeCode | Hermes

record 'n probe_candidates =
  cd_token_limit_fields :: "token_limit_field list"
  cd_reasoning_controls :: "(string \<times> 'n json list) list"
  cd_reasoning_carriers :: "reasoning_carrier list"

definition candidates_default :: "'n probe_candidates" where
  "candidates_default = \<lparr>cd_token_limit_fields = [], cd_reasoning_controls = [], cd_reasoning_carriers = []\<rparr>"

record evidence_reference =
  er_title :: string
  er_url :: string
  er_retrieved_at :: string
  er_version :: "string option"

record https_image_fixture =
  hf_url :: string
  hf_expected_label :: string

record 'n capability_policy =
  cp_id :: string
  cp_priority :: int
  cp_selector :: capability_selector
  cp_semantic :: semantic_policy
  cp_evidence :: "evidence_reference list"
  cp_probe_candidates :: "'n probe_candidates"
  cp_extension_probes :: "'n declarative_probe_case list"

record route_tag_assignment =
  ta_id :: string
  ta_selector :: capability_selector
  ta_tags :: "string list"

record compatibility_bundle =
  cb_id :: string
  cb_required :: "capability set"

record compatibility_expectation =
  ex_id :: string
  ex_selector :: capability_selector
  ex_bundles :: "string list"
  ex_client_profiles :: "agent_client_profile set"
  ex_permitted_optional_downgrades :: "string set"
  ex_https_image_fixture :: "https_image_fixture option"

record probe_configuration =
  pf_enabled :: bool
  pf_refresh_interval_seconds :: nat
  pf_max_global_concurrency :: nat
  pf_max_per_upstream_concurrency :: nat
  pf_output_token_cap :: nat
  pf_https_image_fixture :: "https_image_fixture option"

definition probe_configuration_default :: probe_configuration where
  "probe_configuration_default =
    \<lparr>pf_enabled = True, pf_refresh_interval_seconds = 7 * 24 * 60 * 60, pf_max_global_concurrency = 4,
     pf_max_per_upstream_concurrency = 1, pf_output_token_cap = 64, pf_https_image_fixture = None\<rparr>"

record 'n capability_configuration =
  cf_schema_version :: nat
  cf_revision :: nat
  cf_builtin_policy_version :: nat
  cf_policies :: "'n capability_policy list"
  cf_route_overrides :: "'n route_capability_override list"
  cf_route_tags :: "route_tag_assignment list"
  cf_bundles :: "compatibility_bundle list"
  cf_compatibility_expectations :: "compatibility_expectation list"
  cf_probe :: probe_configuration

definition capability_schema_version :: nat where
  "capability_schema_version = 1"

definition max_capability_collection_entries :: nat where
  "max_capability_collection_entries = 1024"

definition max_capability_configuration_bytes :: nat where
  "max_capability_configuration_bytes = 1048576"

definition max_capability_extension_case_bytes :: nat where
  "max_capability_extension_case_bytes = 16384"

definition max_capability_extension_probes :: nat where
  "max_capability_extension_probes = 1024"

definition max_capability_selector_value_bytes :: nat where
  "max_capability_selector_value_bytes = 1024"

definition max_predicate_path_bytes :: nat where
  "max_predicate_path_bytes = 256"

definition protected_request_paths :: "string list" where
  "protected_request_paths =
    [''/model'', ''/messages'', ''/input'', ''/tools'', ''/stream'', ''/headers'', ''/url'', ''/image_url'', ''/source'', ''/data'']"

definition configuration_default :: "'n capability_configuration" where
  "configuration_default =
    \<lparr>cf_schema_version = capability_schema_version, cf_revision = 0, cf_builtin_policy_version = 0, cf_policies = [],
     cf_route_overrides = [], cf_route_tags = [], cf_bundles = [], cf_compatibility_expectations = [],
     cf_probe = probe_configuration_default\<rparr>"

datatype capability_policy_error =
    UnsupportedSchemaVersion nat nat
  | EmptyCapabilityId
  | DuplicateCapabilityId string
  | UnknownCompatibilityBundle string string
  | InvalidSelectorGlob string string string
  | AmbiguousSemanticField string string string
  | AmbiguousOverrideField string string string
  | InvalidReasoningOverride string string
  | ProtectedRequestPath string string
  | InvalidHttpsFixture string
  | SensitiveUrl
  | InvalidBoundedResponsePredicatePath string string
  | ExtensionCaseTooLarge string nat
  | RouteTagAssignmentSelectsByTag string
  | RouteTagAssignmentHasEmptyTags string
  | CapabilityConfigurationTooLarge nat
  | TooManyEntries string nat nat
  | SelectorValueTooLong string string nat nat
  | Serialization string

record parsed_url =
  pu_scheme :: string
  pu_host_str :: "string option"
  pu_username :: string
  pu_password :: "string option"
  pu_query_pairs :: "(string \<times> string) list"

record 'n policy_ops =
  pl_glob :: "string \<Rightarrow> string + (string \<Rightarrow> bool)"
  pl_parse_url :: "string \<Rightarrow> parsed_url option"
  pl_write_configuration :: "'n capability_configuration \<Rightarrow> nat list \<times> string option"
  pl_write_case :: "'n declarative_probe_case \<Rightarrow> nat list \<times> string option"
  pl_digest :: "'n capability_configuration \<Rightarrow> string + string"

section \<open>Selectors\<close>

record compiled_selector =
  sl_source :: capability_selector
  sl_runtime_model_glob :: "(string \<Rightarrow> bool) option"
  sl_specificity :: nat

definition exact_fields :: "capability_selector \<Rightarrow> nat" where
  "exact_fields selector =
    length (filter (\<lambda>present. present)
      [cs_exposed_model selector \<noteq> None, cs_runtime_model selector \<noteq> None, cs_upstream_id selector \<noteq> None,
       cs_key_fingerprint selector \<noteq> None, cs_protocol selector \<noteq> None, cs_tag selector \<noteq> None])"

definition compile_selector :: "'n policy_ops \<Rightarrow> string \<Rightarrow> capability_selector \<Rightarrow> capability_policy_error + compiled_selector" where
  "compile_selector ops name selector =
    bind_ok
      (case cs_runtime_model_glob selector of
         None \<Rightarrow> Inr None
       | Some pattern \<Rightarrow>
           (case pl_glob ops pattern of
              Inl reason \<Rightarrow> Inl (InvalidSelectorGlob name pattern reason)
            | Inr matcher \<Rightarrow> Inr (Some matcher)))
      (\<lambda>glob. Inr \<lparr>sl_source = selector, sl_runtime_model_glob = glob,
         sl_specificity = exact_fields selector * 2 + (if cs_runtime_model_glob selector \<noteq> None then 1 else 0)\<rparr>)"

definition selector_matches :: "compiled_selector \<Rightarrow> route_identity \<Rightarrow> bool" where
  "selector_matches s route =
    (is_none_or (cs_exposed_model (sl_source s)) (\<lambda>v. v = ri_exposed_model_slug route)
     \<and> is_none_or (cs_runtime_model (sl_source s)) (\<lambda>v. v = ri_runtime_model_slug route)
     \<and> is_none_or (cs_upstream_id (sl_source s)) (\<lambda>v. v = ri_upstream_id route)
     \<and> is_none_or (cs_key_fingerprint (sl_source s)) (\<lambda>v. v = ri_key_fingerprint route)
     \<and> is_none_or (cs_protocol (sl_source s)) (\<lambda>v. v = ri_protocol route)
     \<and> is_none_or (cs_tag (sl_source s)) (\<lambda>tag. tag \<in> ri_tags route)
     \<and> is_none_or (sl_runtime_model_glob s) (\<lambda>glob. glob (ri_runtime_model_slug route)))"

definition is_satisfiable :: "compiled_selector \<Rightarrow> bool" where
  "is_satisfiable s =
    (case (cs_runtime_model (sl_source s), sl_runtime_model_glob s) of
       (Some runtime_model, Some glob) \<Rightarrow> glob runtime_model
     | _ \<Rightarrow> True)"

definition exact_values_differ :: "'a option \<Rightarrow> 'a option \<Rightarrow> bool" where
  "exact_values_differ left right = (case (left, right) of (Some a, Some b) \<Rightarrow> a \<noteq> b | _ \<Rightarrow> False)"

definition glob_excludes :: "compiled_selector \<Rightarrow> compiled_selector \<Rightarrow> bool" where
  "glob_excludes exact globbed =
    (case (cs_runtime_model (sl_source exact), sl_runtime_model_glob globbed) of
       (Some runtime_model, Some glob) \<Rightarrow> \<not> glob runtime_model
     | _ \<Rightarrow> False)"

definition selectors_overlap :: "compiled_selector \<Rightarrow> compiled_selector \<Rightarrow> bool" where
  "selectors_overlap left right =
    (is_satisfiable left \<and> is_satisfiable right
     \<and> \<not> exact_values_differ (cs_exposed_model (sl_source left)) (cs_exposed_model (sl_source right))
     \<and> \<not> exact_values_differ (cs_runtime_model (sl_source left)) (cs_runtime_model (sl_source right))
     \<and> \<not> exact_values_differ (cs_upstream_id (sl_source left)) (cs_upstream_id (sl_source right))
     \<and> \<not> exact_values_differ (cs_key_fingerprint (sl_source left)) (cs_key_fingerprint (sl_source right))
     \<and> \<not> exact_values_differ (cs_protocol (sl_source left)) (cs_protocol (sl_source right))
     \<and> \<not> glob_excludes left right \<and> \<not> glob_excludes right left)"

section \<open>Validation\<close>

fun try_all :: "('a \<Rightarrow> 'e + unit) \<Rightarrow> 'a list \<Rightarrow> 'e + unit" where
  "try_all f [] = Inr ()"
| "try_all f (x # xs) = bind_ok (f x) (\<lambda>_. try_all f xs)"

definition validate_entry_count :: "string \<times> nat \<Rightarrow> nat \<Rightarrow> capability_policy_error + unit" where
  "validate_entry_count entry maximum =
    (if snd entry > maximum then Inl (TooManyEntries (fst entry) (snd entry) maximum) else Inr ())"

definition validate_selector_value_length :: "string \<Rightarrow> string \<Rightarrow> string \<Rightarrow> capability_policy_error + unit" where
  "validate_selector_value_length name field v =
    (if length v > max_capability_selector_value_bytes
     then Inl (SelectorValueTooLong name field (length v) max_capability_selector_value_bytes) else Inr ())"

definition validate_selector_value_lengths :: "string \<Rightarrow> capability_selector \<Rightarrow> capability_policy_error + unit" where
  "validate_selector_value_lengths name selector =
    try_all (\<lambda>(field, v). case v of Some x \<Rightarrow> validate_selector_value_length name field x | None \<Rightarrow> Inr ())
      [(''selector.exposed_model'', cs_exposed_model selector), (''selector.runtime_model'', cs_runtime_model selector),
       (''selector.runtime_model_glob'', cs_runtime_model_glob selector), (''selector.upstream_id'', cs_upstream_id selector),
       (''selector.key_fingerprint'', cs_key_fingerprint selector), (''selector.tag'', cs_tag selector)]"

text \<open>The bounded writer accepts a buffer that fits into what is left of its maximum.\<close>

fun bounded_write :: "nat \<Rightarrow> nat \<Rightarrow> nat list \<Rightarrow> nat option" where
  "bounded_write maximum written [] = Some written"
| "bounded_write maximum written (n # buffers) =
    (if n > maximum - written then None else bounded_write maximum (written + n) buffers)"

definition bounded_serialized_size :: "nat list \<times> string option \<Rightarrow> nat \<Rightarrow> capability_policy_error + nat option" where
  "bounded_serialized_size serialized maximum =
    (case bounded_write maximum 0 (fst serialized) of
       None \<Rightarrow> Inr None
     | Some written \<Rightarrow> (case snd serialized of Some e \<Rightarrow> Inl (Serialization e) | None \<Rightarrow> Inr (Some written)))"

fun count_extension_probes :: "nat \<Rightarrow> nat list \<Rightarrow> capability_policy_error + nat" where
  "count_extension_probes acc [] = Inr acc"
| "count_extension_probes acc (n # ns) =
    (let acc' = u64_saturating_add acc n in
     if acc' > max_capability_extension_probes
     then Inl (TooManyEntries ''extension_probes'' acc' max_capability_extension_probes)
     else count_extension_probes acc' ns)"

definition validate_resource_bounds :: "'n policy_ops \<Rightarrow> 'n capability_configuration \<Rightarrow> capability_policy_error + unit" where
  "validate_resource_bounds ops c =
    bind_ok (try_all (\<lambda>entry. validate_entry_count entry max_capability_collection_entries)
        [(''policies'', length (cf_policies c)), (''route_overrides'', length (cf_route_overrides c)),
         (''route_tags'', length (cf_route_tags c)), (''bundles'', length (cf_bundles c)),
         (''compatibility_expectations'', length (cf_compatibility_expectations c))]) (\<lambda>_.
    bind_ok (count_extension_probes 0 (map (\<lambda>p. length (cp_extension_probes p)) (cf_policies c))) (\<lambda>_.
    bind_ok (try_all (\<lambda>p. validate_selector_value_lengths (cp_id p) (cp_selector p)) (cf_policies c)) (\<lambda>_.
    bind_ok (try_all (\<lambda>o'. validate_selector_value_lengths (ro_id o') (ro_selector o')) (cf_route_overrides c)) (\<lambda>_.
    bind_ok (try_all (\<lambda>a. bind_ok (validate_selector_value_lengths (ta_id a) (ta_selector a)) (\<lambda>_.
        try_all (validate_selector_value_length (ta_id a) ''route_tags.tags'') (ta_tags a))) (cf_route_tags c)) (\<lambda>_.
    bind_ok (try_all (\<lambda>e. validate_selector_value_lengths (ex_id e) (ex_selector e)) (cf_compatibility_expectations c)) (\<lambda>_.
    bind_ok (bounded_serialized_size (pl_write_configuration ops c) max_capability_configuration_bytes) (\<lambda>size.
      if size = None then Inl (CapabilityConfigurationTooLarge max_capability_configuration_bytes) else Inr ())))))))"

definition configuration_ids :: "'n capability_configuration \<Rightarrow> string list" where
  "configuration_ids c =
    map cp_id (cf_policies c) @ map ro_id (cf_route_overrides c) @ map ta_id (cf_route_tags c) @ map cb_id (cf_bundles c)
    @ map ex_id (cf_compatibility_expectations c) @ map pc_id (concat (map cp_extension_probes (cf_policies c)))"

fun check_ids :: "string set \<Rightarrow> string list \<Rightarrow> capability_policy_error + unit" where
  "check_ids seen [] = Inr ()"
| "check_ids seen (name # names) =
    (if trim name = [] then Inl EmptyCapabilityId
     else if name \<in> seen then Inl (DuplicateCapabilityId name)
     else check_ids (insert name seen) names)"

definition validate_ids :: "'n capability_configuration \<Rightarrow> capability_policy_error + unit" where
  "validate_ids c = check_ids {} (configuration_ids c)"

definition sensitive_terms :: "string list" where
  "sensitive_terms = [''token'', ''key'', ''secret'', ''signature'', ''sig'', ''credential'', ''password'', ''passwd'', ''auth'']"

definition is_sensitive_url_query_key :: "string \<Rightarrow> bool" where
  "is_sensitive_url_query_key key =
    list_ex (\<lambda>term'. contains term' (to_ascii_lowercase (filter is_ascii_alphanumeric key))) sensitive_terms"

definition is_sensitive_url :: "'n policy_ops \<Rightarrow> string \<Rightarrow> bool" where
  "is_sensitive_url ops v =
    (case pl_parse_url ops v of
       None \<Rightarrow> False
     | Some url \<Rightarrow> pu_username url \<noteq> [] \<or> pu_password url \<noteq> None
         \<or> list_ex (\<lambda>(key, _). is_sensitive_url_query_key key) (pu_query_pairs url))"

definition validate_public_url :: "'n policy_ops \<Rightarrow> string \<Rightarrow> capability_policy_error + unit" where
  "validate_public_url ops v = (if is_sensitive_url ops v then Inl SensitiveUrl else Inr ())"

definition validate_fixture :: "'n policy_ops \<Rightarrow> string \<Rightarrow> https_image_fixture \<Rightarrow> capability_policy_error + unit" where
  "validate_fixture ops name fixture =
    (let valid_url = is_some_and (pl_parse_url ops (hf_url fixture)) (\<lambda>url. pu_scheme url = ''https'' \<and> pu_host_str url \<noteq> None) in
     if \<not> valid_url \<or> trim (hf_expected_label fixture) = [] then Inl (InvalidHttpsFixture name)
     else validate_public_url ops (hf_url fixture))"

definition validate_fixtures :: "'n policy_ops \<Rightarrow> 'n capability_configuration \<Rightarrow> capability_policy_error + unit" where
  "validate_fixtures ops c =
    bind_ok (case pf_https_image_fixture (cf_probe c) of Some fixture \<Rightarrow> validate_fixture ops ''probe'' fixture | None \<Rightarrow> Inr ()) (\<lambda>_.
    bind_ok (try_all (\<lambda>e. case ex_https_image_fixture e of Some fixture \<Rightarrow> validate_fixture ops (ex_id e) fixture | None \<Rightarrow> Inr ())
        (cf_compatibility_expectations c)) (\<lambda>_.
      try_all (\<lambda>r. validate_public_url ops (er_url r)) (concat (map cp_evidence (cf_policies c)))))"

section \<open>Request patches\<close>

definition replace_char :: "char \<Rightarrow> string \<Rightarrow> string \<Rightarrow> string" where
  "replace_char c by' s = concat (map (\<lambda>x. if x = c then by' else [x]) s)"

definition escape_json_pointer_segment :: "string \<Rightarrow> string" where
  "escape_json_pointer_segment segment = replace_char CHR ''/'' ''~1'' (replace_char CHR ''~'' ''~0'' segment)"

definition is_protected_request_path :: "string \<Rightarrow> bool" where
  "is_protected_request_path path =
    list_ex (\<lambda>protected. path = protected
        \<or> prefix protected path \<and> prefix ''/'' (drop (length protected) path)) protected_request_paths"

fun decimal :: "nat \<Rightarrow> string" where
  "decimal n = (if n < 10 then [char_of (48 + n)] else decimal (n div 10) @ [char_of (48 + n mod 10)])"

declare decimal.simps [simp del]

fun validate_request_patch :: "'n policy_ops \<Rightarrow> string \<Rightarrow> 'n json \<Rightarrow> string \<Rightarrow> capability_policy_error + unit"
  and validate_members :: "'n policy_ops \<Rightarrow> string \<Rightarrow> (string \<times> 'n json) list \<Rightarrow> string \<Rightarrow> capability_policy_error + unit"
  and validate_items :: "'n policy_ops \<Rightarrow> string \<Rightarrow> nat \<Rightarrow> 'n json list \<Rightarrow> string \<Rightarrow> capability_policy_error + unit" where
  "validate_request_patch ops name (JObject members) parent_path = validate_members ops name members parent_path"
| "validate_request_patch ops name (JArray items) parent_path = validate_items ops name 0 items parent_path"
| "validate_request_patch ops name (JString s) parent_path = validate_public_url ops s"
| "validate_request_patch ops name _ parent_path = Inr ()"
| "validate_members ops name [] parent_path = Inr ()"
| "validate_members ops name ((key, v) # members) parent_path =
    (let path = parent_path @ ''/'' @ escape_json_pointer_segment key in
     if is_protected_request_path path then Inl (ProtectedRequestPath name path)
     else bind_ok (validate_request_patch ops name v path) (\<lambda>_. validate_members ops name members parent_path))"
| "validate_items ops name index [] parent_path = Inr ()"
| "validate_items ops name index (v # items) parent_path =
    (let path = parent_path @ ''/'' @ decimal index in
     if is_protected_request_path path then Inl (ProtectedRequestPath name path)
     else bind_ok (validate_request_patch ops name v path) (\<lambda>_. validate_items ops name (index + 1) items parent_path))"

definition validate_extension :: "'n policy_ops \<Rightarrow> 'n declarative_probe_case \<Rightarrow> capability_policy_error + unit" where
  "validate_extension ops case' =
    bind_ok (bounded_serialized_size (pl_write_case ops case') max_capability_extension_case_bytes) (\<lambda>size.
      if size = None then Inl (ExtensionCaseTooLarge (pc_id case') (max_capability_extension_case_bytes + 1))
      else let path = rp_path (pc_response_predicate case') in
        if \<not> prefix ''/'' path \<or> length path > max_predicate_path_bytes
        then Inl (InvalidBoundedResponsePredicatePath (pc_id case') path)
        else validate_request_patch ops (pc_id case') (pc_request_patch case') [])"

definition validate_extensions :: "'n policy_ops \<Rightarrow> 'n capability_configuration \<Rightarrow> capability_policy_error + unit" where
  "validate_extensions ops c = try_all (validate_extension ops) (concat (map cp_extension_probes (cf_policies c)))"

definition validate_route_tag :: "route_tag_assignment \<Rightarrow> capability_policy_error + unit" where
  "validate_route_tag a =
    (if cs_tag (ta_selector a) \<noteq> None then Inl (RouteTagAssignmentSelectsByTag (ta_id a))
     else if ta_tags a = [] \<or> list_ex (\<lambda>tag. trim tag = []) (ta_tags a) then Inl (RouteTagAssignmentHasEmptyTags (ta_id a))
     else Inr ())"

definition validate_route_tags :: "'n capability_configuration \<Rightarrow> capability_policy_error + unit" where
  "validate_route_tags c = try_all validate_route_tag (cf_route_tags c)"

definition validate_reasoning_override :: "'n route_capability_override \<Rightarrow> capability_policy_error + unit" where
  "validate_reasoning_override o' =
    (case (ro_reasoning_control_field o', ro_effort_map o' = []) of
       (Some _, True) \<Rightarrow> Inl (InvalidReasoningOverride (ro_id o') ''reasoning_control_field requires a non-empty effort_map'')
     | (None, False) \<Rightarrow> Inl (InvalidReasoningOverride (ro_id o') ''effort_map requires reasoning_control_field'')
     | _ \<Rightarrow> Inr ())"

definition validate_reasoning_overrides :: "'n capability_configuration \<Rightarrow> capability_policy_error + unit" where
  "validate_reasoning_overrides c = try_all validate_reasoning_override (cf_route_overrides c)"

section \<open>Redaction of stored URLs\<close>

definition sanitize_url :: "'n policy_ops \<Rightarrow> string \<Rightarrow> string \<times> bool" where
  "sanitize_url ops v = (if is_sensitive_url ops v then (''https://redacted.invalid/'', True) else (v, False))"

definition sanitize_fixture_url :: "'n policy_ops \<Rightarrow> https_image_fixture option \<Rightarrow> https_image_fixture option \<times> bool" where
  "sanitize_fixture_url ops fixture =
    (case fixture of
       None \<Rightarrow> (None, False)
     | Some f \<Rightarrow> (let (url, changed) = sanitize_url ops (hf_url f) in (Some (f\<lparr>hf_url := url\<rparr>), changed)))"

fun sanitize_json_urls :: "'n policy_ops \<Rightarrow> 'n json \<Rightarrow> 'n json \<times> bool" where
  "sanitize_json_urls ops (JObject members) =
    (let cleaned = map (\<lambda>(key, v). (key, sanitize_json_urls ops v)) members
     in (JObject (map (\<lambda>(key, r). (key, fst r)) cleaned), list_ex (\<lambda>(_, r). snd r) cleaned))"
| "sanitize_json_urls ops (JArray items) =
    (let cleaned = map (sanitize_json_urls ops) items in (JArray (map fst cleaned), list_ex snd cleaned))"
| "sanitize_json_urls ops (JString s) = (let (s', changed) = sanitize_url ops s in (JString s', changed))"
| "sanitize_json_urls ops v = (v, False)"

definition sanitize_expectation :: "'n policy_ops \<Rightarrow> compatibility_expectation \<Rightarrow> compatibility_expectation \<times> bool" where
  "sanitize_expectation ops e =
    (let (fixture, changed) = sanitize_fixture_url ops (ex_https_image_fixture e)
     in (e\<lparr>ex_https_image_fixture := fixture\<rparr>, changed))"

definition sanitize_evidence :: "'n policy_ops \<Rightarrow> evidence_reference \<Rightarrow> evidence_reference \<times> bool" where
  "sanitize_evidence ops r = (let (url, changed) = sanitize_url ops (er_url r) in (r\<lparr>er_url := url\<rparr>, changed))"

definition sanitize_extension :: "'n policy_ops \<Rightarrow> 'n declarative_probe_case \<Rightarrow> 'n declarative_probe_case \<times> bool" where
  "sanitize_extension ops x =
    (let (patch, changed) = sanitize_json_urls ops (pc_request_patch x) in (x\<lparr>pc_request_patch := patch\<rparr>, changed))"

definition sanitize_policy :: "'n policy_ops \<Rightarrow> 'n capability_policy \<Rightarrow> 'n capability_policy \<times> bool" where
  "sanitize_policy ops p =
    (let evidence = map (sanitize_evidence ops) (cp_evidence p);
         extensions = map (sanitize_extension ops) (cp_extension_probes p)
     in (p\<lparr>cp_evidence := map fst evidence, cp_extension_probes := map fst extensions\<rparr>,
         list_ex snd evidence \<or> list_ex snd extensions))"

definition sanitize_sensitive_urls :: "'n policy_ops \<Rightarrow> 'n capability_configuration \<Rightarrow> 'n capability_configuration \<times> bool" where
  "sanitize_sensitive_urls ops c =
    (let (fixture, changed) = sanitize_fixture_url ops (pf_https_image_fixture (cf_probe c));
         expectations = map (sanitize_expectation ops) (cf_compatibility_expectations c);
         policies = map (sanitize_policy ops) (cf_policies c)
     in (c\<lparr>cf_probe := (cf_probe c)\<lparr>pf_https_image_fixture := fixture\<rparr>,
           cf_compatibility_expectations := map fst expectations, cf_policies := map fst policies\<rparr>,
         changed \<or> list_ex snd expectations \<or> list_ex snd policies))"

section \<open>Conflicts\<close>

record compiled_policy =
  mp_source_index :: nat
  mp_selector :: compiled_selector

definition policy_rank :: "'n capability_configuration \<Rightarrow> compiled_policy \<Rightarrow> int \<times> nat" where
  "policy_rank c p = (cp_priority (cf_policies c ! mp_source_index p), sl_specificity (mp_selector p))"

definition override_rank :: "'n capability_configuration \<Rightarrow> compiled_policy \<Rightarrow> int \<times> nat" where
  "override_rank c p = (ro_priority (cf_route_overrides c ! mp_source_index p), sl_specificity (mp_selector p))"

definition specified_values_conflict :: "'a option \<Rightarrow> 'a option \<Rightarrow> bool" where
  "specified_values_conflict left right = (case (left, right) of (Some a, Some b) \<Rightarrow> a \<noteq> b | _ \<Rightarrow> False)"

text \<open>The first key at which two maps hold different values.\<close>

definition first_difference :: "('k \<times> 'v) list \<Rightarrow> ('k \<times> 'v) list \<Rightarrow> 'k option" where
  "first_difference left right =
    find_map (\<lambda>(k, v). if is_some_and (map_of right k) (\<lambda>w. w \<noteq> v) then Some k else None) left"

definition conflicting_semantic_field :: "'n capability_policy \<Rightarrow> 'n capability_policy \<Rightarrow> string option" where
  "conflicting_semantic_field left right =
    (let l = cp_semantic left; r = cp_semantic right in
     if specified_values_conflict (sp_context_window l) (sp_context_window r) then Some ''context_window''
     else if specified_values_conflict (sp_max_output_tokens l) (sp_max_output_tokens r) then Some ''max_output_tokens''
     else if specified_values_conflict (sp_reasoning_mode l) (sp_reasoning_mode r) then Some ''reasoning_mode''
     else if specified_values_conflict (sp_reasoning_replay_required l) (sp_reasoning_replay_required r)
     then Some ''reasoning_replay_required''
     else map_option (\<lambda>key. ''effort_map.'' @ key) (first_difference (sp_effort_map l) (sp_effort_map r)))"

primrec capability_debug :: "capability \<Rightarrow> string" where
  "capability_debug TextInput = ''TextInput''"
| "capability_debug NonStreamingResponse = ''NonStreamingResponse''"
| "capability_debug ImageHttps = ''ImageHttps''"
| "capability_debug ImageDataUrl = ''ImageDataUrl''"
| "capability_debug ImageDetail = ''ImageDetail''"
| "capability_debug NativeFileId = ''NativeFileId''"
| "capability_debug FunctionTools = ''FunctionTools''"
| "capability_debug NamespaceTools = ''NamespaceTools''"
| "capability_debug CustomTools = ''CustomTools''"
| "capability_debug HostedTools = ''HostedTools''"
| "capability_debug ParallelToolCalls = ''ParallelToolCalls''"
| "capability_debug ForcedToolChoice = ''ForcedToolChoice''"
| "capability_debug ToolContinuation = ''ToolContinuation''"
| "capability_debug ReasoningOutput = ''ReasoningOutput''"
| "capability_debug ReasoningReplay = ''ReasoningReplay''"
| "capability_debug TextStream = ''TextStream''"
| "capability_debug ReasoningStream = ''ReasoningStream''"
| "capability_debug IndexedToolArgumentStream = ''IndexedToolArgumentStream''"
| "capability_debug UsageStream = ''UsageStream''"
| "capability_debug StructuredOutput = ''StructuredOutput''"

definition conflicting_override_field :: "'n route_capability_override \<Rightarrow> 'n route_capability_override \<Rightarrow> string option" where
  "conflicting_override_field left right =
    (case first_difference (ro_capabilities left) (ro_capabilities right) of
       Some c \<Rightarrow> Some (''capabilities.'' @ capability_debug c)
     | None \<Rightarrow>
         (case first_difference (ro_extensions left) (ro_extensions right) of
            Some extension \<Rightarrow> Some (''extensions.'' @ extension)
          | None \<Rightarrow>
              if specified_values_conflict (ro_token_limit_field left) (ro_token_limit_field right) then Some ''token_limit_field''
              else if specified_values_conflict (ro_reasoning_carrier left) (ro_reasoning_carrier right) then Some ''reasoning_carrier''
              else if exact_values_differ (ro_reasoning_control_field left) (ro_reasoning_control_field right)
              then Some ''reasoning_control_field''
              else (case first_difference (ro_effort_map left) (ro_effort_map right) of
                 Some level \<Rightarrow> Some (''effort_map.'' @ level)
               | None \<Rightarrow>
                   if ro_correction_rules left \<noteq> [] \<and> ro_correction_rules right \<noteq> []
                      \<and> ro_correction_rules left \<noteq> ro_correction_rules right
                   then Some ''correction_rules'' else None)))"

text \<open>The two nested loops over pairs of entries, the earlier one first.\<close>

fun check_pairs :: "('a \<Rightarrow> 'a \<Rightarrow> 'e option) \<Rightarrow> 'a list \<Rightarrow> 'e + unit" where
  "check_pairs clash [] = Inr ()"
| "check_pairs clash (x # xs) = (case find_map (clash x) xs of Some e \<Rightarrow> Inl e | None \<Rightarrow> check_pairs clash xs)"

definition policy_clash :: "'n capability_configuration \<Rightarrow> compiled_policy \<Rightarrow> compiled_policy \<Rightarrow> capability_policy_error option" where
  "policy_clash c left right =
    (if policy_rank c left \<noteq> policy_rank c right \<or> \<not> selectors_overlap (mp_selector left) (mp_selector right) then None
     else let l = cf_policies c ! mp_source_index left; r = cf_policies c ! mp_source_index right
          in map_option (\<lambda>field. AmbiguousSemanticField field (cp_id l) (cp_id r)) (conflicting_semantic_field l r))"

definition validate_policy_conflicts :: "'n capability_configuration \<Rightarrow> compiled_policy list \<Rightarrow> capability_policy_error + unit" where
  "validate_policy_conflicts c policies = check_pairs (policy_clash c) policies"

definition override_clash :: "'n capability_configuration \<Rightarrow> compiled_policy \<Rightarrow> compiled_policy \<Rightarrow> capability_policy_error option" where
  "override_clash c left right =
    (if override_rank c left \<noteq> override_rank c right \<or> \<not> selectors_overlap (mp_selector left) (mp_selector right) then None
     else let l = cf_route_overrides c ! mp_source_index left; r = cf_route_overrides c ! mp_source_index right
          in map_option (\<lambda>field. AmbiguousOverrideField field (ro_id l) (ro_id r)) (conflicting_override_field l r))"

definition validate_override_conflicts :: "'n capability_configuration \<Rightarrow> compiled_policy list \<Rightarrow> capability_policy_error + unit" where
  "validate_override_conflicts c overrides = check_pairs (override_clash c) overrides"

section \<open>Compilation\<close>

record compiled_expectation =
  xp_id :: string
  xp_required :: "capability set"
  xp_client_profiles :: "agent_client_profile set"
  xp_permitted_optional_downgrades :: "string set"
  xp_https_image_fixture :: "https_image_fixture option"
  xp_selector :: capability_selector
  xp_compiled_selector :: compiled_selector

record 'n compiled_capability_configuration =
  cc_source :: "'n capability_configuration"
  cc_digest :: string
  cc_policies :: "compiled_policy list"
  cc_route_overrides :: "compiled_policy list"
  cc_ordered_route_overrides :: "'n route_capability_override list"
  cc_route_tags :: "compiled_policy list"
  cc_expectations :: "compiled_expectation list"

fun required_of_bundles ::
  "string \<Rightarrow> (string \<times> capability set) list \<Rightarrow> string list \<Rightarrow> capability set \<Rightarrow> capability_policy_error + capability set" where
  "required_of_bundles expectation bundles [] required = Inr required"
| "required_of_bundles expectation bundles (name # names) required =
    (case map_of bundles name of
       None \<Rightarrow> Inl (UnknownCompatibilityBundle expectation name)
     | Some bundle \<Rightarrow> required_of_bundles expectation bundles names (required \<union> bundle))"

definition compile_expectation ::
  "'n policy_ops \<Rightarrow> (string \<times> capability set) list \<Rightarrow> compatibility_expectation \<Rightarrow> capability_policy_error + compiled_expectation" where
  "compile_expectation ops bundles e =
    bind_ok (required_of_bundles (ex_id e) bundles (ex_bundles e) {}) (\<lambda>required.
    bind_ok (compile_selector ops (ex_id e) (ex_selector e)) (\<lambda>selector.
      Inr \<lparr>xp_id = ex_id e, xp_required = required, xp_client_profiles = ex_client_profiles e,
           xp_permitted_optional_downgrades = ex_permitted_optional_downgrades e,
           xp_https_image_fixture = ex_https_image_fixture e, xp_selector = ex_selector e,
           xp_compiled_selector = selector\<rparr>))"

definition compile_expectations :: "'n policy_ops \<Rightarrow> 'n capability_configuration \<Rightarrow> capability_policy_error + compiled_expectation list" where
  "compile_expectations ops c =
    (let bundles = fold (\<lambda>b. bt_insert (cb_id b) (cb_required b)) (cf_bundles c) []
     in collect_ok (map (compile_expectation ops bundles) (cf_compatibility_expectations c)))"

definition compile_entries ::
  "'n policy_ops \<Rightarrow> ('a \<Rightarrow> string) \<Rightarrow> ('a \<Rightarrow> capability_selector) \<Rightarrow> 'a list \<Rightarrow> capability_policy_error + compiled_policy list" where
  "compile_entries ops name selector entries =
    collect_ok (map (\<lambda>(i, x). bind_ok (compile_selector ops (name x) (selector x))
      (\<lambda>s. Inr \<lparr>mp_source_index = i, mp_selector = s\<rparr>)) (enumerate 0 entries))"

definition compile_configuration ::
  "'n policy_ops \<Rightarrow> 'n capability_configuration \<Rightarrow> capability_policy_error + 'n compiled_capability_configuration" where
  "compile_configuration ops c =
    (if cf_schema_version c \<noteq> capability_schema_version
     then Inl (UnsupportedSchemaVersion (cf_schema_version c) capability_schema_version)
     else
       bind_ok (validate_resource_bounds ops c) (\<lambda>_.
       bind_ok (validate_ids c) (\<lambda>_.
       bind_ok (validate_fixtures ops c) (\<lambda>_.
       bind_ok (validate_extensions ops c) (\<lambda>_.
       bind_ok (validate_route_tags c) (\<lambda>_.
       bind_ok (validate_reasoning_overrides c) (\<lambda>_.
       bind_ok (compile_entries ops cp_id cp_selector (cf_policies c)) (\<lambda>policies.
       bind_ok (compile_entries ops ro_id ro_selector (cf_route_overrides c)) (\<lambda>overrides.
       bind_ok (compile_entries ops ta_id ta_selector (cf_route_tags c)) (\<lambda>tags.
       bind_ok (compile_expectations ops c) (\<lambda>expectations.
       bind_ok (validate_policy_conflicts c policies) (\<lambda>_.
       bind_ok (validate_override_conflicts c overrides) (\<lambda>_.
         let policies' = sort_key (\<lambda>p. (policy_rank c p, cp_id (cf_policies c ! mp_source_index p))) policies;
             overrides' = sort_key (\<lambda>p. (override_rank c p, ro_id (cf_route_overrides c ! mp_source_index p))) overrides
         in bind_ok (case pl_digest ops c of Inl e \<Rightarrow> Inl (Serialization e) | Inr d \<Rightarrow> Inr d) (\<lambda>digest.
           Inr \<lparr>cc_source = c, cc_digest = digest, cc_policies = policies', cc_route_overrides = overrides',
                cc_ordered_route_overrides = map (\<lambda>p. cf_route_overrides c ! mp_source_index p) overrides',
                cc_route_tags = tags, cc_expectations = expectations\<rparr>))))))))))))))"

section \<open>Queries\<close>

definition expectations_for :: "'n compiled_capability_configuration \<Rightarrow> route_identity \<Rightarrow> compiled_expectation list" where
  "expectations_for cc route = filter (\<lambda>e. selector_matches (xp_compiled_selector e) route) (cc_expectations cc)"

definition route_overrides_for :: "'n compiled_capability_configuration \<Rightarrow> route_identity \<Rightarrow> 'n route_capability_override list" where
  "route_overrides_for cc route =
    map (\<lambda>p. cf_route_overrides (cc_source cc) ! mp_source_index p)
      (filter (\<lambda>p. selector_matches (mp_selector p) route) (cc_route_overrides cc))"

definition apply_route_tags :: "'n compiled_capability_configuration \<Rightarrow> route_identity \<Rightarrow> route_identity" where
  "apply_route_tags cc route =
    fold (\<lambda>a r. if selector_matches (mp_selector a) r
                then r\<lparr>ri_tags := ri_tags r \<union> set (ta_tags (cf_route_tags (cc_source cc) ! mp_source_index a))\<rparr> else r)
      (cc_route_tags cc) route"

definition matching_policies :: "'n compiled_capability_configuration \<Rightarrow> route_identity \<Rightarrow> 'n capability_policy list" where
  "matching_policies cc route =
    map (\<lambda>p. cf_policies (cc_source cc) ! mp_source_index p)
      (filter (\<lambda>p. selector_matches (mp_selector p) route) (cc_policies cc))"

definition overlay_semantic :: "'n capability_policy \<Rightarrow> semantic_policy \<Rightarrow> semantic_policy" where
  "overlay_semantic p semantic =
    (let source = cp_semantic p in
     \<lparr>sp_reasoning_mode = or_else (sp_reasoning_mode source) (sp_reasoning_mode semantic),
      sp_reasoning_replay_required = or_else (sp_reasoning_replay_required source) (sp_reasoning_replay_required semantic),
      sp_effort_map = fold (\<lambda>(k, v). bt_insert k v) (sp_effort_map source) (sp_effort_map semantic),
      sp_context_window = or_else (sp_context_window source) (sp_context_window semantic),
      sp_max_output_tokens = or_else (sp_max_output_tokens source) (sp_max_output_tokens semantic),
      sp_omit_sampling_fields = sp_omit_sampling_fields semantic \<union> sp_omit_sampling_fields source\<rparr>)"

definition semantic_for :: "'n compiled_capability_configuration \<Rightarrow> route_identity \<Rightarrow> semantic_policy" where
  "semantic_for cc route = fold overlay_semantic (matching_policies cc route) semantic_default"

definition extensions_for :: "'n compiled_capability_configuration \<Rightarrow> route_identity \<Rightarrow> 'n declarative_probe_case list" where
  "extensions_for cc route = concat (map cp_extension_probes (matching_policies cc route))"

definition add_candidates :: "'n capability_policy \<Rightarrow> 'n probe_candidates \<Rightarrow> 'n probe_candidates" where
  "add_candidates p candidates =
    (let source = cp_probe_candidates p in
     \<lparr>cd_token_limit_fields = fold push_new (cd_token_limit_fields source) (cd_token_limit_fields candidates),
      cd_reasoning_controls =
        fold (\<lambda>(field, vs) m. bt_insert field (fold push_new vs (bt_entry [] field m)) m)
          (cd_reasoning_controls source) (cd_reasoning_controls candidates),
      cd_reasoning_carriers = fold push_new (cd_reasoning_carriers source) (cd_reasoning_carriers candidates)\<rparr>)"

definition probe_candidates_for :: "'n compiled_capability_configuration \<Rightarrow> route_identity \<Rightarrow> 'n probe_candidates" where
  "probe_candidates_for cc route = fold add_candidates (matching_policies cc route) candidates_default"

definition policy_ids_for :: "'n compiled_capability_configuration \<Rightarrow> route_identity \<Rightarrow> string list" where
  "policy_ids_for cc route = map cp_id (matching_policies cc route)"

section \<open>Built-in entries\<close>

definition is_builtin_entry_id :: "string \<Rightarrow> bool" where
  "is_builtin_entry_id name = prefix ''domestic-'' name"

text \<open>Append the entries of a list that qualify and whose identifier is not there yet.\<close>

definition append_missing :: "('a \<Rightarrow> string) \<Rightarrow> ('a \<Rightarrow> bool) \<Rightarrow> 'a list \<Rightarrow> 'a list \<Rightarrow> 'a list \<times> 'a list" where
  "append_missing name p template stored =
    fold (\<lambda>x (stored, added). if p x \<and> name x \<notin> name ` set stored then (stored @ [x], added @ [x]) else (stored, added))
      template (stored, [])"

definition merge_builtin_policy_entries ::
  "'n capability_configuration \<Rightarrow> 'n capability_configuration \<Rightarrow> 'n capability_configuration \<times> string list" where
  "merge_builtin_policy_entries stored template =
    (let (policies, added_policies) = append_missing cp_id (\<lambda>p. is_builtin_entry_id (cp_id p)) (cf_policies template) (cf_policies stored);
         (expectations, added_expectations) =
           append_missing ex_id (\<lambda>e. is_builtin_entry_id (ex_id e)) (cf_compatibility_expectations template) (cf_compatibility_expectations stored);
         referenced = (\<Union>e \<in> set added_expectations. set (ex_bundles e));
         (bundles, added_bundles) = append_missing cb_id (\<lambda>b. cb_id b \<in> referenced) (cf_bundles template) (cf_bundles stored)
     in (stored\<lparr>cf_policies := policies, cf_compatibility_expectations := expectations, cf_bundles := bundles\<rparr>,
         map cp_id added_policies @ map ex_id added_expectations @ map cb_id added_bundles))"

end
