(* ===== verification/Capability_Policy_Properties.thy ===== *)
theory Capability_Policy_Properties
  imports Capability_Policy
begin

text \<open>
  What a compiled configuration guarantees: among the policies that select a route the one of the
  highest rank decides each field, whatever the identifiers and the order of the file; the patches of
  its extension probes leave the protected parts of a request alone; tags are assigned independently of
  the order of the assignments; and the merge of built-in entries only appends.
\<close>

section \<open>Winners among ranked entries\<close>

definition wins :: "('x \<Rightarrow> 'k::linorder) \<Rightarrow> ('x \<Rightarrow> 'v option) \<Rightarrow> 'x set \<Rightarrow> 'v \<Rightarrow> bool" where
  "wins rank field X v = (\<exists>x\<in>X. field x = Some v \<and> (\<forall>y\<in>X. field y \<noteq> None \<longrightarrow> rank y \<le> rank x))"

text \<open>Entries of one rank that both specify a field agree on it.\<close>

definition agree :: "('x \<Rightarrow> 'k) \<Rightarrow> ('x \<Rightarrow> 'v option) \<Rightarrow> 'x set \<Rightarrow> bool" where
  "agree rank field X = (\<forall>x\<in>X. \<forall>y\<in>X. \<forall>v w. rank x = rank y \<and> field x = Some v \<and> field y = Some w \<longrightarrow> v = w)"

lemma agree_subset: "agree rank field Y \<Longrightarrow> X \<subseteq> Y \<Longrightarrow> agree rank field X"
  unfolding agree_def by blast

lemma last_specified_wins:
  assumes "sorted (map rank xs)" and "agree rank field (set xs)"
  shows "fold (\<lambda>x acc. or_else (field x) acc) xs None = Some v \<longleftrightarrow> wins rank field (set xs) v"
  using assms
proof (induction xs rule: rev_induct)
  case Nil
  then show ?case by (simp add: wins_def)
next
  case (snoc x xs)
  have below: "\<forall>y\<in>set xs. rank y \<le> rank x" using snoc.prems(1) by (simp add: sorted_append)
  have agree: "agree rank field (set xs)" using snoc.prems(2) by (rule agree_subset) auto
  have sorted: "sorted (map rank xs)" using snoc.prems(1) by (simp add: sorted_append)
  show ?case
  proof (cases "field x")
    case None
    then show ?thesis using snoc.IH [OF sorted agree] by (simp add: or_else_def wins_def)
  next
    case (Some w)
    have "wins rank field (set (xs @ [x])) v \<longleftrightarrow> w = v"
    proof
      assume "wins rank field (set (xs @ [x])) v"
      then obtain y where y: "y \<in> set (xs @ [x])" "field y = Some v" "rank x \<le> rank y"
        using Some unfolding wins_def by force
      then have "rank y = rank x" using below by force
      then show "w = v" using y Some snoc.prems(2) unfolding agree_def by (metis in_set_conv_decomp)
    next
      assume "w = v"
      then show "wins rank field (set (xs @ [x])) v" using Some below by (auto simp: wins_def)
    qed
    then show ?thesis using Some by (simp add: or_else_def)
  qed
qed

lemma sorted_by_first: "sorted (map (\<lambda>x. (f x, g x)) xs) \<Longrightarrow> sorted (map f xs)" for f :: "'a \<Rightarrow> 'b::linorder" and g :: "'a \<Rightarrow> 'c::linorder"
  by (induction xs) auto

lemma wins_image: "wins rank field (h ` X) v = wins (\<lambda>x. rank (h x)) (\<lambda>x. field (h x)) X v"
  by (auto simp: wins_def)

section \<open>Compiled entries\<close>

lemma try_all_Inr: "try_all f xs = Inr () \<longleftrightarrow> (\<forall>x\<in>set xs. f x = Inr ())"
  by (induction xs) (auto simp: bind_ok_Inr_iff)

lemma collect_ok_Inr:
  "collect_ok rs = Inr xs \<longleftrightarrow> rs = map Inr xs"
proof (induction rs arbitrary: xs)
  case (Cons r rs)
  then show ?case by (cases r; cases xs) (auto simp: bind_ok_Inr_iff)
qed auto

lemma check_pairs_Inr:
  "check_pairs clash xs = Inr () \<longleftrightarrow> sorted_wrt (\<lambda>x y. clash x y = None) xs"
proof (induction xs)
  case (Cons x xs)
  show ?case
  proof (cases "find_map (clash x) xs")
    case None
    then have "\<forall>y\<in>set xs. clash x y = None" by (simp add: find_map_None)
    then show ?thesis using None Cons by simp
  next
    case (Some e)
    then have "\<exists>y\<in>set xs. clash x y \<noteq> None" using find_map_Some by fastforce
    then show ?thesis using Some by auto
  qed
qed simp

lemma check_pairs_either:
  assumes "check_pairs clash xs = Inr ()" "x \<in> set xs" "y \<in> set xs"
  shows "x = y \<or> clash x y = None \<or> clash y x = None"
proof -
  obtain i j where ij: "i < length xs" "xs ! i = x" "j < length xs" "xs ! j = y" using assms(2,3) by (metis in_set_conv_nth)
  have pairs: "sorted_wrt (\<lambda>x y. clash x y = None) xs" using assms(1) by (simp add: check_pairs_Inr)
  consider "i < j" | "i = j" | "j < i" by linarith
  then show ?thesis using ij sorted_wrt_nth_less [OF pairs] by cases auto
qed

definition entry_selected :: "'n policy_ops \<Rightarrow> string \<Rightarrow> capability_selector \<Rightarrow> route_identity \<Rightarrow> bool" where
  "entry_selected ops name selector route =
    (case compile_selector ops name selector of Inr s \<Rightarrow> selector_matches s route | Inl _ \<Rightarrow> False)"

definition specificity :: "capability_selector \<Rightarrow> nat" where
  "specificity selector = exact_fields selector * 2 + (if cs_runtime_model_glob selector \<noteq> None then 1 else 0)"

lemma compile_selector_specificity: "compile_selector ops name selector = Inr s \<Longrightarrow> sl_specificity s = specificity selector"
  by (auto simp: compile_selector_def bind_ok_Inr_iff specificity_def)

lemma compile_selector_source: "compile_selector ops name selector = Inr s \<Longrightarrow> sl_source s = selector"
  by (auto simp: compile_selector_def bind_ok_Inr_iff)

lemma compile_entries_Inr:
  assumes "compile_entries ops name selector entries = Inr cs"
  shows "length cs = length entries"
    and "i < length entries \<Longrightarrow> mp_source_index (cs ! i) = i
      \<and> compile_selector ops (name (entries ! i)) (selector (entries ! i)) = Inr (mp_selector (cs ! i))"
proof -
  let ?f = "\<lambda>(i, x). bind_ok (compile_selector ops (name x) (selector x)) (\<lambda>s. Inr \<lparr>mp_source_index = i, mp_selector = s\<rparr>)"
  have m: "map ?f (enumerate 0 entries) = map Inr cs" using assms by (simp add: compile_entries_def collect_ok_Inr)
  show len: "length cs = length entries" using arg_cong [OF m, of length] by simp
  show "mp_source_index (cs ! i) = i
      \<and> compile_selector ops (name (entries ! i)) (selector (entries ! i)) = Inr (mp_selector (cs ! i))"
    if "i < length entries"
  proof -
    have "?f (i, entries ! i) = Inr (cs ! i)"
      using arg_cong [OF m, of "\<lambda>xs. xs ! i"] that len by (simp add: nth_enumerate_eq)
    then obtain x where "compile_selector ops (name (entries ! i)) (selector (entries ! i)) = Inr x"
      "cs ! i = \<lparr>mp_source_index = i, mp_selector = x\<rparr>"
      by (auto simp: bind_ok_Inr_iff)
    then show ?thesis by simp
  qed
qed

text \<open>The compiled entries that match a route are the entries of the source that are selected.\<close>

lemma matching_entries:
  assumes "compile_entries ops name selector entries = Inr cs"
  shows "(\<lambda>p. entries ! mp_source_index p) ` {p \<in> set cs. selector_matches (mp_selector p) route}
    = {x \<in> set entries. entry_selected ops (name x) (selector x) route}"
    and "p \<in> set cs \<Longrightarrow> sl_specificity (mp_selector p) = specificity (selector (entries ! mp_source_index p))"
proof -
  note len = compile_entries_Inr(1) [OF assms] and nth = compile_entries_Inr(2) [OF assms]
  show "(\<lambda>p. entries ! mp_source_index p) ` {p \<in> set cs. selector_matches (mp_selector p) route}
    = {x \<in> set entries. entry_selected ops (name x) (selector x) route}"
  proof (intro equalityI subsetI)
    fix x
    assume "x \<in> (\<lambda>p. entries ! mp_source_index p) ` {p \<in> set cs. selector_matches (mp_selector p) route}"
    then obtain i where "i < length entries" "selector_matches (mp_selector (cs ! i)) route" "x = entries ! mp_source_index (cs ! i)"
      by (auto simp: in_set_conv_nth len)
    then show "x \<in> {x \<in> set entries. entry_selected ops (name x) (selector x) route}"
      using nth [of i] by (simp add: entry_selected_def)
  next
    fix x
    assume "x \<in> {x \<in> set entries. entry_selected ops (name x) (selector x) route}"
    then obtain i where i: "i < length entries" "x = entries ! i" "entry_selected ops (name x) (selector x) route"
      by (auto simp: in_set_conv_nth)
    then show "x \<in> (\<lambda>p. entries ! mp_source_index p) ` {p \<in> set cs. selector_matches (mp_selector p) route}"
      using nth [of i] len by (intro image_eqI [of _ _ "cs ! i"]) (simp_all add: entry_selected_def)
  qed
  show "p \<in> set cs \<Longrightarrow> sl_specificity (mp_selector p) = specificity (selector (entries ! mp_source_index p))"
    using nth len by (metis compile_selector_specificity in_set_conv_nth)
qed

lemma same_value_not_differ: "is_none_or a (\<lambda>v. v = x) \<Longrightarrow> is_none_or b (\<lambda>v. v = x) \<Longrightarrow> \<not> exact_values_differ a b"
  by (cases a; cases b) (auto simp: exact_values_differ_def)

lemma matches_not_excluded: "selector_matches left route \<Longrightarrow> selector_matches right route \<Longrightarrow> \<not> glob_excludes left right"
  by (cases "cs_runtime_model (sl_source left)"; cases "sl_runtime_model_glob right") (simp_all add: selector_matches_def glob_excludes_def)

lemma matches_satisfiable: "selector_matches s route \<Longrightarrow> is_satisfiable s"
  by (cases "cs_runtime_model (sl_source s)"; cases "sl_runtime_model_glob s") (simp_all add: selector_matches_def is_satisfiable_def)

lemma matches_fields:
  assumes "selector_matches s route"
  shows "is_none_or (cs_exposed_model (sl_source s)) (\<lambda>v. v = ri_exposed_model_slug route)"
    "is_none_or (cs_runtime_model (sl_source s)) (\<lambda>v. v = ri_runtime_model_slug route)"
    "is_none_or (cs_upstream_id (sl_source s)) (\<lambda>v. v = ri_upstream_id route)"
    "is_none_or (cs_key_fingerprint (sl_source s)) (\<lambda>v. v = ri_key_fingerprint route)"
    "is_none_or (cs_protocol (sl_source s)) (\<lambda>v. v = ri_protocol route)"
  using assms by (simp_all add: selector_matches_def)

lemma matches_overlap:
  assumes "selector_matches left route" "selector_matches right route"
  shows "selectors_overlap left right"
proof -
  note same = same_value_not_differ [OF matches_fields(1) [OF assms(1)] matches_fields(1) [OF assms(2)]]
    same_value_not_differ [OF matches_fields(2) [OF assms(1)] matches_fields(2) [OF assms(2)]]
    same_value_not_differ [OF matches_fields(3) [OF assms(1)] matches_fields(3) [OF assms(2)]]
    same_value_not_differ [OF matches_fields(4) [OF assms(1)] matches_fields(4) [OF assms(2)]]
    same_value_not_differ [OF matches_fields(5) [OF assms(1)] matches_fields(5) [OF assms(2)]]
  show ?thesis
    unfolding selectors_overlap_def using assms matches_satisfiable matches_not_excluded same by blast
qed

text \<open>What a successful compilation has checked, and where its tables come from.\<close>

lemma compile_checked:
  assumes "compile_configuration ops c = Inr cc"
  shows "validate_extensions ops c = Inr ()" "validate_route_tags c = Inr ()" "validate_reasoning_overrides c = Inr ()"
    "validate_ids c = Inr ()" "validate_fixtures ops c = Inr ()" "validate_resource_bounds ops c = Inr ()" "cc_source cc = c"
  using assms by (auto simp: compile_configuration_def bind_ok_Inr_iff Let_def split: if_splits)

lemma compile_policies:
  assumes "compile_configuration ops c = Inr cc"
  obtains policies where "compile_entries ops cp_id cp_selector (cf_policies c) = Inr policies"
    "check_pairs (policy_clash c) policies = Inr ()"
    "cc_policies cc = sort_key (\<lambda>p. (policy_rank c p, cp_id (cf_policies c ! mp_source_index p))) policies"
  using assms by (auto simp: compile_configuration_def validate_policy_conflicts_def bind_ok_Inr_iff Let_def split: if_splits)

lemma compile_overrides:
  assumes "compile_configuration ops c = Inr cc"
  obtains overrides where "compile_entries ops ro_id ro_selector (cf_route_overrides c) = Inr overrides"
    "check_pairs (override_clash c) overrides = Inr ()"
    "cc_route_overrides cc = sort_key (\<lambda>p. (override_rank c p, ro_id (cf_route_overrides c ! mp_source_index p))) overrides"
  using assms by (auto simp: compile_configuration_def validate_override_conflicts_def bind_ok_Inr_iff Let_def split: if_splits)

lemma compile_tags:
  assumes "compile_configuration ops c = Inr cc"
  shows "compile_entries ops ta_id ta_selector (cf_route_tags c) = Inr (cc_route_tags cc)"
  using assms by (auto simp: compile_configuration_def bind_ok_Inr_iff Let_def split: if_splits)

section \<open>The policy of the highest rank decides\<close>

definition policy_selected :: "'n policy_ops \<Rightarrow> 'n capability_configuration \<Rightarrow> route_identity \<Rightarrow> 'n capability_policy set" where
  "policy_selected ops c route = {p \<in> set (cf_policies c). entry_selected ops (cp_id p) (cp_selector p) route}"

definition rank_of_policy :: "'n capability_policy \<Rightarrow> int \<times> nat" where
  "rank_of_policy p = (cp_priority p, specificity (cp_selector p))"

text \<open>Fields on which two policies without a conflict agree.\<close>

definition policy_field :: "('n capability_policy \<Rightarrow> 'v option) \<Rightarrow> bool" where
  "policy_field field =
    (\<forall>p q v w. conflicting_semantic_field p q = None \<or> conflicting_semantic_field q p = None
      \<longrightarrow> field p = Some v \<longrightarrow> field q = Some w \<longrightarrow> v = w)"

lemma matching_policies_win:
  assumes "compile_configuration ops c = Inr cc" and "policy_field field"
  shows "fold (\<lambda>p acc. or_else (field p) acc) (matching_policies cc route) None = Some v
    \<longleftrightarrow> wins rank_of_policy field (policy_selected ops c route) v"
proof -
  obtain policies where compiled: "compile_entries ops cp_id cp_selector (cf_policies c) = Inr policies"
    and pairs: "check_pairs (policy_clash c) policies = Inr ()"
    and sorted: "cc_policies cc = sort_key (\<lambda>p. (policy_rank c p, cp_id (cf_policies c ! mp_source_index p))) policies"
    using assms(1) by (rule compile_policies)
  note source = compile_checked(7) [OF assms(1)]
  let ?at = "\<lambda>p. cf_policies c ! mp_source_index p" and ?xs = "filter (\<lambda>p. selector_matches (mp_selector p) route) (cc_policies cc)"
  have set: "set ?xs = {p \<in> set policies. selector_matches (mp_selector p) route}" by (auto simp: sorted)
  have "sorted (map (\<lambda>p. (policy_rank c p, cp_id (?at p))) ?xs)" unfolding sorted by (intro sorted_filter) simp
  then have ranked: "sorted (map (policy_rank c) ?xs)" by (rule sorted_by_first)
  have "agree (policy_rank c) (\<lambda>p. field (?at p)) (set ?xs)"
    unfolding agree_def
  proof (intro ballI allI impI)
    fix p q v w
    assume pq: "p \<in> set ?xs" "q \<in> set ?xs" and vw: "policy_rank c p = policy_rank c q \<and> field (?at p) = Some v \<and> field (?at q) = Some w"
    then have "selectors_overlap (mp_selector p) (mp_selector q)" "selectors_overlap (mp_selector q) (mp_selector p)"
      using matches_overlap by auto
    then have "p = q \<or> conflicting_semantic_field (?at p) (?at q) = None \<or> conflicting_semantic_field (?at q) (?at p) = None"
      using check_pairs_either [OF pairs, of p q] pq vw unfolding set policy_clash_def by (auto simp: Let_def)
    then show "v = w" using assms(2) vw unfolding policy_field_def by (metis option.inject)
  qed
  note win = last_specified_wins [OF ranked this]
  have rank: "policy_rank c p = rank_of_policy (?at p)" if "p \<in> set ?xs" for p
    using matching_entries(2) [OF compiled, of p] that unfolding set by (simp add: policy_rank_def rank_of_policy_def)
  have "fold (\<lambda>p acc. or_else (field p) acc) (matching_policies cc route) None
      = fold (\<lambda>p acc. or_else (field (?at p)) acc) ?xs None"
    by (simp add: matching_policies_def source fold_map o_def)
  also have "\<dots> = Some v \<longleftrightarrow> wins (\<lambda>p. rank_of_policy (?at p)) (\<lambda>p. field (?at p)) (set ?xs) v"
    unfolding win using rank by (auto simp: wins_def)
  also have "\<dots> \<longleftrightarrow> wins rank_of_policy field (policy_selected ops c route) v"
    unfolding wins_image [symmetric, of rank_of_policy ?at field] set
    using matching_entries(1) [OF compiled] by (simp add: policy_selected_def)
  finally show ?thesis .
qed

lemma overlay_fields:
  "sp_reasoning_mode (fold overlay_semantic ps s)
    = fold (\<lambda>p acc. or_else (sp_reasoning_mode (cp_semantic p)) acc) ps (sp_reasoning_mode s)"
  "sp_reasoning_replay_required (fold overlay_semantic ps s)
    = fold (\<lambda>p acc. or_else (sp_reasoning_replay_required (cp_semantic p)) acc) ps (sp_reasoning_replay_required s)"
  "sp_context_window (fold overlay_semantic ps s)
    = fold (\<lambda>p acc. or_else (sp_context_window (cp_semantic p)) acc) ps (sp_context_window s)"
  "sp_max_output_tokens (fold overlay_semantic ps s)
    = fold (\<lambda>p acc. or_else (sp_max_output_tokens (cp_semantic p)) acc) ps (sp_max_output_tokens s)"
  "sp_omit_sampling_fields (fold overlay_semantic ps s)
    = sp_omit_sampling_fields s \<union> (\<Union>p \<in> set ps. sp_omit_sampling_fields (cp_semantic p))"
  by (induction ps arbitrary: s) (auto simp: overlay_semantic_def Let_def)

lemma map_of_extend:
  "distinct (map fst kvs) \<Longrightarrow> map_of (fold (\<lambda>(k, v). bt_insert k v) kvs m) k = or_else (map_of kvs k) (map_of m k)"
proof (induction kvs arbitrary: m)
  case (Cons e kvs)
  obtain k' v where e: "e = (k', v)" by force
  have "k' = k \<Longrightarrow> map_of kvs k = None" using Cons.prems by (simp add: map_of_eq_None_iff e)
  then show ?case using Cons by (auto simp: e map_of_bt_insert or_else_def split: option.split)
qed (simp add: or_else_def)

lemma overlay_effort:
  "\<forall>p\<in>set ps. bt_sorted (sp_effort_map (cp_semantic p)) \<Longrightarrow>
    map_of (sp_effort_map (fold overlay_semantic ps s)) k
      = fold (\<lambda>p acc. or_else (map_of (sp_effort_map (cp_semantic p)) k) acc) ps (map_of (sp_effort_map s) k)"
  by (induction ps arbitrary: s) (simp_all add: overlay_semantic_def Let_def map_of_extend bt_sorted_distinct)

lemma first_difference_agree:
  assumes "first_difference l r = None \<or> first_difference r l = None" "map_of l k = Some v" "map_of r k = Some w"
  shows "v = w"
proof -
  have "(k, v) \<in> set l" "(k, w) \<in> set r" using assms(2,3) by (auto dest: map_of_SomeD)
  then show ?thesis
    using assms by (fastforce simp: first_difference_def find_map_None split: if_splits)
qed

lemma no_conflict_fields:
  assumes "conflicting_semantic_field p q = None \<or> conflicting_semantic_field q p = None"
  shows "\<not> specified_values_conflict (sp_context_window (cp_semantic p)) (sp_context_window (cp_semantic q))"
    "\<not> specified_values_conflict (sp_max_output_tokens (cp_semantic p)) (sp_max_output_tokens (cp_semantic q))"
    "\<not> specified_values_conflict (sp_reasoning_mode (cp_semantic p)) (sp_reasoning_mode (cp_semantic q))"
    "\<not> specified_values_conflict (sp_reasoning_replay_required (cp_semantic p)) (sp_reasoning_replay_required (cp_semantic q))"
    "first_difference (sp_effort_map (cp_semantic p)) (sp_effort_map (cp_semantic q)) = None
      \<or> first_difference (sp_effort_map (cp_semantic q)) (sp_effort_map (cp_semantic p)) = None"
proof -
  have sym: "specified_values_conflict a b = specified_values_conflict b a" for a b :: "'v option"
    by (auto simp: specified_values_conflict_def split: option.split)
  show "\<not> specified_values_conflict (sp_context_window (cp_semantic p)) (sp_context_window (cp_semantic q))"
    "\<not> specified_values_conflict (sp_max_output_tokens (cp_semantic p)) (sp_max_output_tokens (cp_semantic q))"
    "\<not> specified_values_conflict (sp_reasoning_mode (cp_semantic p)) (sp_reasoning_mode (cp_semantic q))"
    "\<not> specified_values_conflict (sp_reasoning_replay_required (cp_semantic p)) (sp_reasoning_replay_required (cp_semantic q))"
    "first_difference (sp_effort_map (cp_semantic p)) (sp_effort_map (cp_semantic q)) = None
      \<or> first_difference (sp_effort_map (cp_semantic q)) (sp_effort_map (cp_semantic p)) = None"
    using assms unfolding conflicting_semantic_field_def Let_def by (auto simp: sym split: if_splits)
qed

lemma not_conflict_eq: "\<not> specified_values_conflict (Some v) (Some w) \<Longrightarrow> v = w"
  by (simp add: specified_values_conflict_def)

lemma semantic_policy_fields:
  "policy_field (\<lambda>p. sp_context_window (cp_semantic p))" "policy_field (\<lambda>p. sp_max_output_tokens (cp_semantic p))"
  "policy_field (\<lambda>p. sp_reasoning_mode (cp_semantic p))" "policy_field (\<lambda>p. sp_reasoning_replay_required (cp_semantic p))"
  "policy_field (\<lambda>p. map_of (sp_effort_map (cp_semantic p)) k)"
  unfolding policy_field_def
  using no_conflict_fields not_conflict_eq first_difference_agree by (metis, metis, metis, metis, metis)

text \<open>
  C15. In a configuration that compiles, every field of the semantic policy of a route is the one of the
  policies of the highest priority, then of the most specific selector, among those that select the route
  and specify the field. Policies of equal rank that both select the route never disagree, so neither the
  identifiers nor the order of the file decide; the fields to omit accumulate.
\<close>

theorem highest_rank_decides:
  assumes "compile_configuration ops c = Inr cc" and "\<forall>p\<in>set (cf_policies c). bt_sorted (sp_effort_map (cp_semantic p))"
  shows "(\<forall>v. sp_context_window (semantic_for cc route) = Some v
        \<longleftrightarrow> wins rank_of_policy (\<lambda>p. sp_context_window (cp_semantic p)) (policy_selected ops c route) v)
    \<and> (\<forall>v. sp_max_output_tokens (semantic_for cc route) = Some v
        \<longleftrightarrow> wins rank_of_policy (\<lambda>p. sp_max_output_tokens (cp_semantic p)) (policy_selected ops c route) v)
    \<and> (\<forall>v. sp_reasoning_mode (semantic_for cc route) = Some v
        \<longleftrightarrow> wins rank_of_policy (\<lambda>p. sp_reasoning_mode (cp_semantic p)) (policy_selected ops c route) v)
    \<and> (\<forall>v. sp_reasoning_replay_required (semantic_for cc route) = Some v
        \<longleftrightarrow> wins rank_of_policy (\<lambda>p. sp_reasoning_replay_required (cp_semantic p)) (policy_selected ops c route) v)
    \<and> (\<forall>k v. map_of (sp_effort_map (semantic_for cc route)) k = Some v
        \<longleftrightarrow> wins rank_of_policy (\<lambda>p. map_of (sp_effort_map (cp_semantic p)) k) (policy_selected ops c route) v)
    \<and> sp_omit_sampling_fields (semantic_for cc route) = (\<Union>p \<in> policy_selected ops c route. sp_omit_sampling_fields (cp_semantic p))"
proof -
  note win = matching_policies_win [OF assms(1)]
  have set: "set (matching_policies cc route) = policy_selected ops c route"
  proof -
    obtain policies where compiled: "compile_entries ops cp_id cp_selector (cf_policies c) = Inr policies"
      and sorted: "cc_policies cc = sort_key (\<lambda>p. (policy_rank c p, cp_id (cf_policies c ! mp_source_index p))) policies"
      using assms(1) by (rule compile_policies)
    show ?thesis
      using matching_entries(1) [OF compiled, of route]
      by (simp add: matching_policies_def policy_selected_def compile_checked(7) [OF assms(1)] sorted)
  qed
  then have maps: "\<forall>p\<in>set (matching_policies cc route). bt_sorted (sp_effort_map (cp_semantic p))"
    using assms(2) by (auto simp: policy_selected_def)
  show ?thesis
    unfolding semantic_for_def overlay_fields overlay_effort [OF maps]
    by (simp add: semantic_default_def win [OF semantic_policy_fields(1)] win [OF semantic_policy_fields(2)]
        win [OF semantic_policy_fields(3)] win [OF semantic_policy_fields(4)] win [OF semantic_policy_fields(5)] set)
qed

section \<open>Protected parts of a request\<close>

definition protected_keys :: "string list" where
  "protected_keys = map tl protected_request_paths"

lemma protected_keys_paths: "list_all (\<lambda>key. is_protected_request_path (''/'' @ escape_json_pointer_segment key)) protected_keys"
  by code_simp

lemma protected_key_path: "key \<in> set protected_keys \<Longrightarrow> is_protected_request_path (''/'' @ escape_json_pointer_segment key)"
  using protected_keys_paths by (simp only: list_all_iff)

lemma validate_members_keys:
  "validate_members ops name members parent_path = Inr () \<Longrightarrow> (key, v) \<in> set members
    \<Longrightarrow> \<not> is_protected_request_path (parent_path @ ''/'' @ escape_json_pointer_segment key)"
  by (induction members) (auto simp: Let_def bind_ok_Inr_iff split: if_splits)

lemma extension_patch_protected:
  assumes "compile_configuration ops c = Inr cc" "p \<in> set (cf_policies c)" "x \<in> set (cp_extension_probes p)"
    "pc_request_patch x = JObject members" "key \<in> set protected_keys"
  shows "map_of members key = None"
proof -
  have "validate_extension ops x = Inr ()"
    using compile_checked(1) [OF assms(1)] assms(2,3) by (auto simp: validate_extensions_def try_all_Inr)
  then have "validate_members ops (pc_id x) members [] = Inr ()"
    using assms(4) by (auto simp: validate_extension_def bind_ok_Inr_iff Let_def split: if_splits)
  then show ?thesis
    using validate_members_keys [of ops _ members "[]" key] protected_key_path [OF assms(5)]
    by (auto simp: map_of_eq_None_iff)
qed

lemma selected_extension_source:
  assumes "compile_configuration ops c = Inr cc" "x \<in> set (extensions_for cc route)"
  shows "\<exists>p\<in>set (cf_policies c). x \<in> set (cp_extension_probes p)"
proof -
  obtain policies where compiled: "compile_entries ops cp_id cp_selector (cf_policies c) = Inr policies"
    and sorted: "cc_policies cc = sort_key (\<lambda>p. (policy_rank c p, cp_id (cf_policies c ! mp_source_index p))) policies"
    using assms(1) by (rule compile_policies)
  have "set (matching_policies cc route) \<subseteq> set (cf_policies c)"
    using matching_entries(1) [OF compiled, of route]
    by (auto simp: matching_policies_def compile_checked(7) [OF assms(1)] sorted)
  then show ?thesis using assms(2) by (auto simp: extensions_for_def)
qed

section \<open>Route tags\<close>

lemma matches_without_tag:
  "cs_tag (sl_source s) = None \<Longrightarrow> selector_matches s (route\<lparr>ri_tags := T\<rparr>) = selector_matches s route"
  by (simp add: selector_matches_def)

lemma fold_tags:
  assumes "\<forall>a\<in>set as. cs_tag (sl_source (mp_selector a)) = None"
  shows "fold (\<lambda>a r. if selector_matches (mp_selector a) r then r\<lparr>ri_tags := ri_tags r \<union> tags a\<rparr> else r) as route
    = route\<lparr>ri_tags := ri_tags route \<union> (\<Union>a \<in> {a \<in> set as. selector_matches (mp_selector a) route}. tags a)\<rparr>"
  using assms
proof (induction as arbitrary: route)
  case (Cons a as)
  then have same: "selector_matches (mp_selector b) (route\<lparr>ri_tags := T\<rparr>) = selector_matches (mp_selector b) route"
    if "b \<in> set as" for b T using that by (simp add: matches_without_tag)
  have "{b \<in> set as. selector_matches (mp_selector b) (route\<lparr>ri_tags := T\<rparr>)} = {b \<in> set as. selector_matches (mp_selector b) route}" for T
    using same by blast
  moreover have "{b \<in> set (a # as). selector_matches (mp_selector b) route}
      = (if selector_matches (mp_selector a) route then {a} else {}) \<union> {b \<in> set as. selector_matches (mp_selector b) route}" by auto
  ultimately show ?case using Cons by (simp add: Un_assoc)
qed simp

text \<open>
  The tags of a route are its own and those of all assignments that select it, whatever the order of
  the assignments: no assignment sees the tags that another gives. Assigning them twice changes nothing,
  and nothing else of the route changes.
\<close>

theorem route_tags_independent_of_order:
  assumes "compile_configuration ops c = Inr cc"
  shows "apply_route_tags cc route
      = route\<lparr>ri_tags := ri_tags route \<union> (\<Union>a \<in> {a \<in> set (cf_route_tags c). entry_selected ops (ta_id a) (ta_selector a) route}. set (ta_tags a))\<rparr>
    \<and> apply_route_tags cc (apply_route_tags cc route) = apply_route_tags cc route"
proof -
  note compiled = compile_tags [OF assms] and source = compile_checked(7) [OF assms]
  have untagged: "\<forall>a\<in>set (cc_route_tags cc). cs_tag (sl_source (mp_selector a)) = None"
  proof
    fix a
    assume "a \<in> set (cc_route_tags cc)"
    then obtain i where i: "i < length (cf_route_tags c)" "a = cc_route_tags cc ! i"
      using compile_entries_Inr(1) [OF compiled] by (metis in_set_conv_nth)
    have "cs_tag (ta_selector (cf_route_tags c ! i)) = None"
      using compile_checked(2) [OF assms] i(1)
      by (auto simp: validate_route_tags_def try_all_Inr validate_route_tag_def split: if_splits)
    moreover have "sl_source (mp_selector a) = ta_selector (cf_route_tags c ! i)"
      using compile_entries_Inr(2) [OF compiled i(1)] compile_selector_source unfolding i(2) by blast
    ultimately show "cs_tag (sl_source (mp_selector a)) = None" by simp
  qed
  have spec: "apply_route_tags cc route
      = route\<lparr>ri_tags := ri_tags route \<union> (\<Union>a \<in> {a \<in> set (cf_route_tags c). entry_selected ops (ta_id a) (ta_selector a) route}. set (ta_tags a))\<rparr>" for route
    unfolding apply_route_tags_def source fold_tags [OF untagged] matching_entries(1) [OF compiled, symmetric] by simp
  have "entry_selected ops (ta_id a) (ta_selector a) (route\<lparr>ri_tags := T\<rparr>) = entry_selected ops (ta_id a) (ta_selector a) route"
    if "a \<in> set (cf_route_tags c)" for a T
  proof -
    have "cs_tag (ta_selector a) = None"
      using compile_checked(2) [OF assms] that by (auto simp: validate_route_tags_def try_all_Inr validate_route_tag_def split: if_splits)
    then show ?thesis
      by (auto simp: entry_selected_def compile_selector_def bind_ok_Inr_iff matches_without_tag split: sum.split option.split)
  qed
  then have "{a \<in> set (cf_route_tags c). entry_selected ops (ta_id a) (ta_selector a) (route\<lparr>ri_tags := T\<rparr>)}
      = {a \<in> set (cf_route_tags c). entry_selected ops (ta_id a) (ta_selector a) route}" for T by blast
  then show ?thesis unfolding spec by simp
qed

section \<open>Built-in entries\<close>

lemma append_missing_spec:
  assumes "append_missing name p template stored = (stored', added)"
  shows "stored' = stored @ added" "set added \<subseteq> {x \<in> set template. p x}"
    "\<forall>x\<in>set template. p x \<longrightarrow> name x \<in> name ` set stored'"
proof -
  let ?step = "\<lambda>x (stored, added). if p x \<and> name x \<notin> name ` set stored then (stored @ [x], added @ [x]) else (stored, added)"
  have "case fold ?step template (s, a) of (s', a') \<Rightarrow>
      (\<exists>new. s' = s @ new \<and> a' = a @ new \<and> set new \<subseteq> {x \<in> set template. p x})
      \<and> (\<forall>x\<in>set template. p x \<longrightarrow> name x \<in> name ` set s')" for s a
  proof (induction template arbitrary: s a)
    case (Cons x template)
    obtain s1 a1 where step: "?step x (s, a) = (s1, a1)" by force
    obtain s' a' where rest: "fold ?step template (s1, a1) = (s', a')" by force
    obtain new where new: "s' = s1 @ new" "a' = a1 @ new" "set new \<subseteq> {x \<in> set template. p x}"
      "\<forall>x\<in>set template. p x \<longrightarrow> name x \<in> name ` set s'"
      using Cons.IH [of s1 a1] rest by auto
    have "(\<exists>first. s1 = s @ first \<and> a1 = a @ first \<and> set first \<subseteq> {x. p x} \<inter> {x}) \<and> (p x \<longrightarrow> name x \<in> name ` set s1)"
      using step by (auto split: if_splits)
    then obtain first where first: "s1 = s @ first" "a1 = a @ first" "set first \<subseteq> {x. p x} \<inter> {x}" "p x \<longrightarrow> name x \<in> name ` set s1"
      by blast
    have "fold ?step (x # template) (s, a) = (s', a')" using step rest by simp
    moreover have "s' = s @ (first @ new) \<and> a' = a @ (first @ new) \<and> set (first @ new) \<subseteq> {y \<in> set (x # template). p y}"
      using new first by auto
    moreover have "\<forall>y\<in>set (x # template). p y \<longrightarrow> name y \<in> name ` set s'" using new first by auto
    ultimately show ?case by (simp only: prod.case) blast
  qed simp
  from this [of stored "[]"] show "stored' = stored @ added" "set added \<subseteq> {x \<in> set template. p x}"
    "\<forall>x\<in>set template. p x \<longrightarrow> name x \<in> name ` set stored'"
    using assms unfolding append_missing_def by auto
qed

lemma append_missing_none:
  "\<forall>x\<in>set template. p x \<longrightarrow> name x \<in> name ` set stored \<Longrightarrow> append_missing name p template stored = (stored, [])"
  unfolding append_missing_def by (induction template) auto

text \<open>
  The merge of the built-in template into a stored configuration only appends: every entry of the
  operator stays in its place, every built-in policy and expectation of the template is then there, and
  merging once more adds nothing.
\<close>

theorem builtin_merge_append_only:
  assumes "merge_builtin_policy_entries stored template = (merged, added)"
  shows "prefix (cf_policies stored) (cf_policies merged) \<and> prefix (cf_bundles stored) (cf_bundles merged)
    \<and> prefix (cf_compatibility_expectations stored) (cf_compatibility_expectations merged)
    \<and> cf_route_overrides merged = cf_route_overrides stored
    \<and> (\<forall>p\<in>set (cf_policies template). is_builtin_entry_id (cp_id p) \<longrightarrow> cp_id p \<in> cp_id ` set (cf_policies merged))
    \<and> (\<forall>e\<in>set (cf_compatibility_expectations template). is_builtin_entry_id (ex_id e)
         \<longrightarrow> ex_id e \<in> ex_id ` set (cf_compatibility_expectations merged))
    \<and> merge_builtin_policy_entries merged template = (merged, [])"
proof -
  obtain ps ap where p: "append_missing cp_id (\<lambda>p. is_builtin_entry_id (cp_id p)) (cf_policies template) (cf_policies stored) = (ps, ap)" by force
  obtain es ae where e: "append_missing ex_id (\<lambda>e. is_builtin_entry_id (ex_id e)) (cf_compatibility_expectations template)
      (cf_compatibility_expectations stored) = (es, ae)" by force
  obtain bs ab where b: "append_missing cb_id (\<lambda>b. cb_id b \<in> (\<Union>e \<in> set ae. set (ex_bundles e))) (cf_bundles template) (cf_bundles stored) = (bs, ab)" by force
  note ps = append_missing_spec [OF p] and es = append_missing_spec [OF e] and bs = append_missing_spec [OF b]
  have merged: "merged = stored\<lparr>cf_policies := ps, cf_compatibility_expectations := es, cf_bundles := bs\<rparr>"
    using assms by (simp add: merge_builtin_policy_entries_def p e b [simplified])
  have "merge_builtin_policy_entries merged template = (merged, [])"
    by (simp add: merge_builtin_policy_entries_def merged append_missing_none [OF ps(3)] append_missing_none [OF es(3)]
        append_missing_none [of _ "\<lambda>b. False"])
  then show ?thesis using ps es bs by (simp add: merged)
qed

section \<open>A configuration that compiles\<close>

definition sample_policy_ops :: "unit policy_ops" where
  "sample_policy_ops =
    \<lparr>pl_glob = (\<lambda>pattern. Inr (\<lambda>name. prefix pattern name)), pl_parse_url = (\<lambda>_. None), pl_write_configuration = (\<lambda>_. ([], None)),
     pl_write_case = (\<lambda>_. ([], None)), pl_digest = (\<lambda>_. Inr [])\<rparr>"

definition sample_policy :: "string \<Rightarrow> int \<Rightarrow> capability_selector \<Rightarrow> reasoning_mode \<Rightarrow> unit capability_policy" where
  "sample_policy name priority selector mode =
    \<lparr>cp_id = name, cp_priority = priority, cp_selector = selector,
     cp_semantic = semantic_default\<lparr>sp_reasoning_mode := Some mode, sp_omit_sampling_fields := {name}\<rparr>, cp_evidence = [],
     cp_probe_candidates = candidates_default,
     cp_extension_probes = [\<lparr>pc_id = name @ ''x'', pc_protocol = ChatCompletions, pc_prerequisites = {},
       pc_request_patch = JObject [(''p'', JNull)],
       pc_response_predicate = \<lparr>rp_path = ''/a'', rp_operator = PredExists, rp_value = None\<rparr>\<rparr>]\<rparr>"

definition sample_configuration :: "unit capability_configuration" where
  "sample_configuration = configuration_default
    \<lparr>cf_policies := [sample_policy ''b'' 0 (selector_default\<lparr>cs_upstream_id := Some ''u''\<rparr>) FixedOn,
                    sample_policy ''a'' 0 selector_default ReasoningOptional],
     cf_route_tags := [\<lparr>ta_id = ''t'', ta_selector = selector_default, ta_tags = [''x'']\<rparr>]\<rparr>"

definition sample_tagged :: route_identity where
  "sample_tagged =
    \<lparr>ri_upstream_id = ''u'', ri_key_fingerprint = ''k'', ri_exposed_model_slug = ''m'', ri_runtime_model_slug = ''m'',
     ri_protocol = ChatCompletions, ri_tags = {}\<rparr>"

lemmas sample_configuration_simps =
  sample_configuration_def configuration_default_def sample_policy_def sample_policy_ops_def selector_default_def probe_configuration_default_def

lemma sample_trim: "trim ''a'' = ''a''" "trim ''b'' = ''b''" "trim ''t'' = ''t''" "trim ''x'' = ''x''" "trim ''ax'' = ''ax''" "trim ''bx'' = ''bx''"
  by (simp_all add: trim_def trim_start_def trim_end_def strip_prefixes.simps whitespace_encodings_def)

lemma sample_bounds: "validate_resource_bounds sample_policy_ops sample_configuration = Inr ()"
  by (simp add: validate_resource_bounds_def sample_configuration_simps validate_entry_count_def max_capability_collection_entries_def
      u64_saturating_add_def u64_max_def max_capability_extension_probes_def validate_selector_value_lengths_def
      validate_selector_value_length_def max_capability_selector_value_bytes_def bounded_serialized_size_def Let_def)

lemma sample_ids: "validate_ids sample_configuration = Inr ()"
  by (simp add: validate_ids_def configuration_ids_def sample_configuration_simps sample_trim)

lemma sample_checks: "validate_fixtures sample_policy_ops sample_configuration = Inr ()" "validate_route_tags sample_configuration = Inr ()"
  "validate_reasoning_overrides sample_configuration = Inr ()"
  by (simp_all add: validate_fixtures_def validate_route_tags_def validate_route_tag_def validate_reasoning_overrides_def
      sample_configuration_simps sample_trim)

lemma sample_extensions: "validate_extensions sample_policy_ops sample_configuration = Inr ()"
proof -
  have "\<not> is_protected_request_path (''/'' @ escape_json_pointer_segment ''p'')" by code_simp
  then show ?thesis
    by (simp add: validate_extensions_def validate_extension_def bounded_serialized_size_def max_predicate_path_bytes_def
        sample_configuration_simps)
qed

lemma sample_entries:
  "compile_entries sample_policy_ops cp_id cp_selector (cf_policies sample_configuration)
    = Inr [\<lparr>mp_source_index = 0, mp_selector = \<lparr>sl_source = selector_default\<lparr>cs_upstream_id := Some ''u''\<rparr>, sl_runtime_model_glob = None, sl_specificity = 2\<rparr>\<rparr>,
           \<lparr>mp_source_index = 1, mp_selector = \<lparr>sl_source = selector_default, sl_runtime_model_glob = None, sl_specificity = 0\<rparr>\<rparr>]"
  by (simp add: compile_entries_def sample_configuration_simps compile_selector_def exact_fields_def)

lemma sample_configuration_compiles: "\<exists>cc. compile_configuration sample_policy_ops sample_configuration = Inr cc"
proof -
  have "check_pairs (policy_clash sample_configuration)
     [\<lparr>mp_source_index = 0, mp_selector = \<lparr>sl_source = selector_default\<lparr>cs_upstream_id := Some ''u''\<rparr>, sl_runtime_model_glob = None, sl_specificity = 2\<rparr>\<rparr>,
      \<lparr>mp_source_index = 1, mp_selector = \<lparr>sl_source = selector_default, sl_runtime_model_glob = None, sl_specificity = 0\<rparr>\<rparr>] = Inr ()"
    by (simp add: policy_clash_def policy_rank_def)
  moreover have "cf_route_overrides sample_configuration = []" "cf_compatibility_expectations sample_configuration = []"
    "cf_schema_version sample_configuration = capability_schema_version" "pl_digest sample_policy_ops sample_configuration = Inr []"
    by (simp_all add: sample_configuration_simps)
  moreover have "\<exists>tags. compile_entries sample_policy_ops ta_id ta_selector (cf_route_tags sample_configuration) = Inr tags"
    by (simp add: compile_entries_def sample_configuration_simps compile_selector_def)
  ultimately show ?thesis
    by (auto simp: compile_configuration_def sample_bounds sample_ids sample_checks sample_extensions sample_entries
        compile_entries_def [of _ ro_id] compile_expectations_def validate_policy_conflicts_def validate_override_conflicts_def Let_def)
qed

lemma sample_selected: "policy_selected sample_policy_ops sample_configuration sample_tagged = set (cf_policies sample_configuration)"
  by (auto simp: policy_selected_def entry_selected_def compile_selector_def selector_matches_def sample_configuration_simps sample_tagged_def)

theorem highest_rank_decides_witness:
  "\<exists>cc. compile_configuration sample_policy_ops sample_configuration = Inr cc
    \<and> sp_reasoning_mode (semantic_for cc sample_tagged) = Some FixedOn \<and> sp_omit_sampling_fields (semantic_for cc sample_tagged) = {''a'', ''b''}"
proof -
  obtain cc where cc: "compile_configuration sample_policy_ops sample_configuration = Inr cc" using sample_configuration_compiles by blast
  have maps: "\<forall>p\<in>set (cf_policies sample_configuration). bt_sorted (sp_effort_map (cp_semantic p))"
    by (simp add: sample_configuration_simps semantic_default_def)
  have "wins rank_of_policy (\<lambda>p. sp_reasoning_mode (cp_semantic p)) (policy_selected sample_policy_ops sample_configuration sample_tagged) FixedOn"
    unfolding sample_selected
    by (simp add: wins_def sample_configuration_simps rank_of_policy_def specificity_def exact_fields_def)
  then show ?thesis
    using cc highest_rank_decides [OF cc maps, of sample_tagged] unfolding sample_selected
    by (auto simp: sample_configuration_simps)
qed

theorem route_tags_independent_of_order_witness:
  "\<exists>cc. compile_configuration sample_policy_ops sample_configuration = Inr cc \<and> ri_tags (apply_route_tags cc sample_tagged) = {''x''}"
proof -
  obtain cc where cc: "compile_configuration sample_policy_ops sample_configuration = Inr cc" using sample_configuration_compiles by blast
  have "entry_selected sample_policy_ops ''t'' selector_default sample_tagged"
    by (simp add: entry_selected_def compile_selector_def selector_matches_def selector_default_def)
  then have "(\<Union>a \<in> {a \<in> set (cf_route_tags sample_configuration). entry_selected sample_policy_ops (ta_id a) (ta_selector a) sample_tagged}. set (ta_tags a)) = {''x''}"
    by (auto simp: sample_configuration_def)
  then show ?thesis using cc route_tags_independent_of_order [OF cc, of sample_tagged] by (simp add: sample_tagged_def)
qed

theorem builtin_merge_append_only_witness:
  "\<exists>merged added. merge_builtin_policy_entries sample_configuration
      (sample_configuration\<lparr>cf_policies := [sample_policy ''domestic-x'' 0 selector_default FixedOn]\<rparr>) = (merged, added)
    \<and> ''domestic-x'' \<in> cp_id ` set (cf_policies merged) \<and> prefix (cf_policies sample_configuration) (cf_policies merged)"
proof -
  let ?t = "sample_configuration\<lparr>cf_policies := [sample_policy ''domestic-x'' 0 selector_default FixedOn]\<rparr>"
  obtain merged added where m: "merge_builtin_policy_entries sample_configuration ?t = (merged, added)" by force
  show ?thesis
    using m builtin_merge_append_only [OF m] by (auto simp: is_builtin_entry_id_def sample_policy_def [of "''domestic-x''"])
qed

end
