(* ===== verification/Capability_Profile.thy ===== *)
theory Capability_Profile
  imports Capability_Types
begin

text \<open>
  The evidence that probes leave in the profile of a route (\<open>src/src/capabilities/profile.rs\<close>):
  conclusive outcomes replace it, partial outcomes are merged into it, operational failures only
  schedule the next attempt. A time is a \<open>u64\<close> of seconds. The digest of a serialised fingerprint
  input is an argument.
\<close>

section \<open>Operations\<close>

definition operational_retry_delays_seconds :: "nat list" where
  "operational_retry_delays_seconds = [5, 15, 60, 300, 900]"

definition next_operational_retry :: "nat \<Rightarrow> nat \<Rightarrow> nat" where
  "next_operational_retry attempted_at failures =
    u64_saturating_add attempted_at
      (operational_retry_delays_seconds ! min (failures - 1) (length operational_retry_delays_seconds - 1))"

record route_fingerprint_input =
  fi_normalized_base_url :: string
  fi_enabled_protocols :: "wire_protocol list"
  fi_runtime_model_slug :: string
  fi_route_override_digest :: string
  fi_probe_schema_version :: nat

definition route_fingerprint :: "(route_fingerprint_input \<Rightarrow> string) \<Rightarrow> route_fingerprint_input \<Rightarrow> string" where
  "route_fingerprint digest input =
    digest (input\<lparr>fi_enabled_protocols := remdups_adj (sort (fi_enabled_protocols input))\<rparr>)"

record 'n conclusive_outcome =
  po_capabilities :: "(capability \<times> evidence_state) list"
  po_token_limit_field :: "token_limit_field option"
  po_reasoning_carrier :: "reasoning_carrier option"
  po_reasoning_controls :: "(string \<times> 'n json list) list"
  po_correction_rules :: "dialect_correction_rule list"
  po_extension_evidence :: "(string \<times> evidence_state) list"
  po_evidence_codes :: "string set"
  po_event_types :: "string set"
  po_http_status :: nat
  po_attempted_at :: nat

datatype 'n probe_outcome =
    Conclusive "'n conclusive_outcome"
  | OperationalFailure string "nat option" nat

fun outcome_capability :: "'n probe_outcome \<Rightarrow> capability \<Rightarrow> evidence_state" where
  "outcome_capability (Conclusive o') c = unwrap_or (map_of (po_capabilities o') c) Unobserved"
| "outcome_capability (OperationalFailure _ _ _) c = Unobserved"

fun outcome_evidence_codes :: "'n probe_outcome \<Rightarrow> string set" where
  "outcome_evidence_codes (Conclusive o') = po_evidence_codes o'"
| "outcome_evidence_codes (OperationalFailure code _ _) = {code}"

definition state_of_evidence :: "(capability \<times> evidence_state) list \<Rightarrow> dialect_profile_state" where
  "state_of_evidence capabilities =
    (let supported = length (filter (\<lambda>(_, s). s = Supported) capabilities);
         rejected = length (filter (\<lambda>(_, s). s = Rejected) capabilities)
     in if supported = 0 \<and> rejected > 0 then ProfileUnsupported
        else if rejected = 0 then ProfileVerified
        else ProfilePartial)"

fun profile_apply_probe_outcome :: "'n probe_outcome \<Rightarrow> 'n upstream_dialect_profile \<Rightarrow> 'n upstream_dialect_profile" where
  "profile_apply_probe_outcome (OperationalFailure code http_status attempted_at) profile =
    (let retries = u32_saturating_add (dp_probe_retry_count profile) 1 in
     profile\<lparr>dp_last_attempt_at := Some attempted_at, dp_http_status := http_status,
             dp_last_operational_failure := Some code, dp_last_probe_outcome := Some OutcomeOperationalFailure,
             dp_probe_retry_count := retries,
             dp_next_probe_at := Some (next_operational_retry attempted_at retries)\<rparr>)"
| "profile_apply_probe_outcome (Conclusive o') profile =
    (let state = state_of_evidence (po_capabilities o') in
     profile\<lparr>dp_capabilities := po_capabilities o', dp_token_limit_field := po_token_limit_field o',
             dp_reasoning_carrier := po_reasoning_carrier o', dp_reasoning_controls := po_reasoning_controls o',
             dp_correction_rules := po_correction_rules o', dp_extension_evidence := po_extension_evidence o',
             dp_evidence_codes := po_evidence_codes o', dp_event_types := po_event_types o',
             dp_http_status := Some (po_http_status o'), dp_last_attempt_at := Some (po_attempted_at o'),
             dp_last_success_at := Some (po_attempted_at o'), dp_last_operational_failure := None,
             dp_probe_retry_count := 0, dp_next_probe_at := None, dp_state := state,
             dp_last_probe_outcome := Some (if state = ProfileUnsupported then OutcomeRejected else OutcomeAccepted)\<rparr>)"

definition merge_observed :: "(capability \<times> evidence_state) list \<Rightarrow> (capability \<times> evidence_state) list \<Rightarrow> (capability \<times> evidence_state) list" where
  "merge_observed evidence known = fold (\<lambda>(c, s) m. if s \<noteq> Unobserved then bt_insert c s m else m) evidence known"

definition merge_controls :: "(string \<times> 'n json list) list \<Rightarrow> (string \<times> 'n json list) list \<Rightarrow> (string \<times> 'n json list) list" where
  "merge_controls controls known =
    fold (\<lambda>(field, vs) m. bt_insert field (fold push_new vs (bt_entry [] field m)) m) controls known"

fun apply_probe_outcome_partial :: "'n probe_outcome \<Rightarrow> 'n upstream_dialect_profile \<Rightarrow> 'n upstream_dialect_profile" where
  "apply_probe_outcome_partial (OperationalFailure _ _ _) profile = profile"
| "apply_probe_outcome_partial (Conclusive o') profile =
    (let merged = merge_observed (po_capabilities o') (dp_capabilities profile) in
     profile\<lparr>dp_capabilities := merged,
             dp_reasoning_controls := merge_controls (po_reasoning_controls o') (dp_reasoning_controls profile),
             dp_reasoning_carrier := or_else (dp_reasoning_carrier profile) (po_reasoning_carrier o'),
             dp_token_limit_field := or_else (dp_token_limit_field profile) (po_token_limit_field o'),
             dp_correction_rules := (if po_correction_rules o' \<noteq> [] then po_correction_rules o' else dp_correction_rules profile),
             dp_extension_evidence :=
               (if po_extension_evidence o' \<noteq> [] then po_extension_evidence o' else dp_extension_evidence profile),
             dp_evidence_codes := dp_evidence_codes profile \<union> po_evidence_codes o',
             dp_event_types := dp_event_types profile \<union> po_event_types o',
             dp_http_status :=
               (if dp_last_operational_failure profile = None then Some (po_http_status o') else dp_http_status profile),
             dp_last_attempt_at := Some (po_attempted_at o'), dp_last_probe_outcome := Some OutcomeDeferred,
             dp_next_probe_at := Some (u64_saturating_add (po_attempted_at o') 1),
             dp_state := state_of_evidence merged\<rparr>)"

definition profile_is_current :: "'n upstream_dialect_profile \<Rightarrow> string \<Rightarrow> nat \<Rightarrow> nat \<Rightarrow> bool" where
  "profile_is_current profile fingerprint now refresh_interval_seconds =
    (dp_configuration_fingerprint profile = fingerprint
     \<and> dp_probe_schema_version profile = dialect_probe_schema_version
     \<and> is_some_and (dp_last_success_at profile) (\<lambda>at. now - at < refresh_interval_seconds))"

section \<open>What incomplete probes leave in place\<close>

text \<open>The probes that do not replace a profile, in any order: partial outcomes and operational failures.\<close>

definition apply_incomplete :: "'n probe_outcome \<Rightarrow> 'n upstream_dialect_profile \<Rightarrow> 'n upstream_dialect_profile" where
  "apply_incomplete o' =
    (case o' of Conclusive _ \<Rightarrow> apply_probe_outcome_partial o' | OperationalFailure _ _ _ \<Rightarrow> profile_apply_probe_outcome o')"

text \<open>What a profile knows at least: observed capabilities, accepted reasoning values, the carrier, the token limit.\<close>

definition knows :: "'n upstream_dialect_profile \<Rightarrow> 'n upstream_dialect_profile \<Rightarrow> bool" where
  "knows after before =
    ((\<forall>c s. map_of (dp_capabilities before) c = Some s \<and> s \<noteq> Unobserved
        \<longrightarrow> (\<exists>s'. map_of (dp_capabilities after) c = Some s' \<and> s' \<noteq> Unobserved))
     \<and> (\<forall>field. set (bt_entry [] field (dp_reasoning_controls before)) \<subseteq> set (bt_entry [] field (dp_reasoning_controls after)))
     \<and> (\<forall>carrier. dp_reasoning_carrier before = Some carrier \<longrightarrow> dp_reasoning_carrier after = Some carrier)
     \<and> (\<forall>field. dp_token_limit_field before = Some field \<longrightarrow> dp_token_limit_field after = Some field)
     \<and> dp_evidence_codes before \<subseteq> dp_evidence_codes after
     \<and> dp_last_success_at after = dp_last_success_at before)"

lemma knows_refl: "knows profile profile"
  by (simp add: knows_def)

lemma knows_trans:
  assumes "knows c b" "knows b a"
  shows "knows c a"
  unfolding knows_def
proof (intro conjI allI impI)
  fix k s
  assume "map_of (dp_capabilities a) k = Some s \<and> s \<noteq> Unobserved"
  then obtain t where "map_of (dp_capabilities b) k = Some t" "t \<noteq> Unobserved" using assms(2) unfolding knows_def by blast
  then show "\<exists>s'. map_of (dp_capabilities c) k = Some s' \<and> s' \<noteq> Unobserved" using assms(1) unfolding knows_def by blast
next
  fix field
  show "set (bt_entry [] field (dp_reasoning_controls a)) \<subseteq> set (bt_entry [] field (dp_reasoning_controls c))"
    using assms unfolding knows_def by (meson subset_trans)
qed (use assms in \<open>auto simp: knows_def\<close>)

lemma merge_observed_keeps:
  "map_of m c = Some s \<Longrightarrow> s \<noteq> Unobserved \<Longrightarrow> \<exists>s'. map_of (merge_observed evidence m) c = Some s' \<and> s' \<noteq> Unobserved"
  unfolding merge_observed_def
proof (induction evidence arbitrary: m s)
  case (Cons e evidence)
  obtain d t where e: "e = (d, t)" by force
  show ?case
  proof (cases "t = Unobserved")
    case True
    then show ?thesis using Cons by (simp add: e)
  next
    case False
    then show ?thesis
      using Cons.prems Cons.IH [of "bt_insert d t m" "if d = c then t else s"] by (simp add: e map_of_bt_insert split: if_splits)
  qed
qed simp

lemma merge_controls_keeps:
  "set (bt_entry [] field m) \<subseteq> set (bt_entry [] field (merge_controls controls m))"
  unfolding merge_controls_def
proof (induction controls arbitrary: m)
  case (Cons c controls)
  obtain f vs where c: "c = (f, vs)" by force
  have "set (bt_entry [] field m) \<subseteq> set (bt_entry [] field (bt_insert f (fold push_new vs (bt_entry [] f m)) m))"
    by (auto simp: bt_entry_def map_of_bt_insert push_new_set)
  also have "\<dots> \<subseteq> set (bt_entry [] field (fold (\<lambda>(field, vs) m. bt_insert field (fold push_new vs (bt_entry [] field m)) m) (c # controls) m))"
    using Cons.IH by (simp add: c)
  finally show ?case .
qed simp

lemma apply_incomplete_knows: "knows (apply_incomplete o' profile) profile"
proof (cases o')
  case (Conclusive x)
  then show ?thesis
    by (simp add: apply_incomplete_def knows_def Let_def or_else_def merge_observed_keeps merge_controls_keeps)
next
  case (OperationalFailure code status at)
  then show ?thesis by (simp add: apply_incomplete_def knows_def Let_def)
qed

text \<open>
  However many probes fail or run only in part, a profile keeps what complete probes have put there:
  no observed capability becomes unobserved, no accepted reasoning value, carrier, token limit field or
  evidence code is lost, and the time of the last complete probe stays, so that the profile does not
  become current by incomplete evidence.
\<close>

theorem incomplete_probes_keep_evidence: "knows (fold apply_incomplete outcomes profile) profile"
proof (induction outcomes rule: rev_induct)
  case (snoc o' outcomes)
  then show ?case using apply_incomplete_knows knows_trans by (metis fold.simps(1) fold_Cons fold_append id_apply o_apply)
qed (simp add: knows_refl)

section \<open>Backoff of failed probes\<close>

definition fail_probe :: "string \<times> nat option \<times> nat \<Rightarrow> 'n upstream_dialect_profile \<Rightarrow> 'n upstream_dialect_profile" where
  "fail_probe f = (case f of (code, status, at) \<Rightarrow> profile_apply_probe_outcome (OperationalFailure code status at))"

lemma fail_probe_count:
  "dp_probe_retry_count (fold fail_probe failures (profile_apply_probe_outcome (Conclusive o') profile)) = min (length failures) u32_max"
proof (induction failures rule: rev_induct)
  case Nil
  then show ?case by (simp add: Let_def)
next
  case (snoc f failures)
  then show ?case by (auto simp: fail_probe_def Let_def u32_saturating_add_def split: prod.split)
qed

text \<open>
  After a complete probe the delays before the following attempts grow as documented with every
  operational failure in a row, 5, 15, 60, 300 and then 900 seconds, and no count of failures
  exceeds them; the next complete probe starts over.
\<close>

theorem probe_backoff_schedule:
  "dp_next_probe_at (fail_probe (code, status, at) (fold fail_probe failures (profile_apply_probe_outcome (Conclusive o') profile)))
    = Some (u64_saturating_add at
        (if length failures = 0 then 5 else if length failures = 1 then 15 else if length failures = 2 then 60
         else if length failures = 3 then 300 else 900))"
proof -
  let ?p = "fold fail_probe failures (profile_apply_probe_outcome (Conclusive o') profile)"
  note profile_apply_probe_outcome.simps [simp del]
  have count: "u32_saturating_add (dp_probe_retry_count ?p) 1 - 1 = (if length failures < u32_max then length failures else u32_max - 1)"
    by (auto simp: fail_probe_count u32_saturating_add_def u32_max_def)
  have index: "min (u32_saturating_add (dp_probe_retry_count ?p) 1 - 1) 4 = min (length failures) 4"
    unfolding count by (simp add: u32_max_def)
  have "dp_next_probe_at (fail_probe (code, status, at) ?p)
      = Some (u64_saturating_add at (operational_retry_delays_seconds ! min (length failures) 4))"
  proof -
    have "length operational_retry_delays_seconds - 1 = 4" by (simp add: operational_retry_delays_seconds_def)
    then show ?thesis
      using index by (simp add: fail_probe_def profile_apply_probe_outcome.simps(1) Let_def next_operational_retry_def)
  qed
  moreover consider "length failures = 0" | "length failures = 1" | "length failures = 2" | "length failures = 3" | "length failures \<ge> 4"
    by linarith
  then have "operational_retry_delays_seconds ! min (length failures) 4
      = (if length failures = 0 then 5 else if length failures = 1 then 15 else if length failures = 2 then 60
         else if length failures = 3 then 300 else 900)"
    by cases (auto simp: operational_retry_delays_seconds_def min_def numeral_eq_Suc)
  ultimately show ?thesis by simp
qed

text \<open>The fingerprint of a route does not depend on the order or repetition of its enabled protocols.\<close>

lemma distinct_remdups_adj_sorted: "sorted xs \<Longrightarrow> distinct (remdups_adj xs)"
  by (induction xs rule: remdups_adj.induct) auto

lemma route_fingerprint_order:
  assumes "set (fi_enabled_protocols a) = set ps"
  shows "route_fingerprint digest (a\<lparr>fi_enabled_protocols := ps\<rparr>) = route_fingerprint digest a"
proof -
  have "remdups_adj (sort ps) = remdups_adj (sort (fi_enabled_protocols a))"
    using assms by (intro sorted_distinct_set_unique) (simp_all add: distinct_remdups_adj_sorted)
  then show ?thesis by (simp add: route_fingerprint_def)
qed

end
