(* ===== verification/Capability_Probe.thy ===== *)
theory Capability_Probe
  imports Capability_Profile Capability_Policy
begin

text \<open>
  Probing a route (\<open>src/src/server/gateway/capability_probe.rs\<close>): the plan of cases derived from the
  configuration, the evidence that the verdicts of the cases add up to, the run of a plan with its
  budget and its early ends, and what a finished job does to the profile and to the runtime hints.
  The requests of a case go over HTTP; what became of each case, and the clocks, are given by the
  executor.
\<close>

section \<open>Cases and plans\<close>

record 'n reasoning_trigger =
  tr_field :: string
  tr_value :: "'n json"

datatype 'n core_probe_case =
    MinimalText bool
  | TokenLimitCase token_limit_field
  | ReasoningControlCase string "'n json"
  | FunctionToolsCase
  | FunctionSelection
  | ToolContinuationCase "reasoning_carrier option" "'n reasoning_trigger option"
  | ParallelToolsCase
  | IndexedToolArguments
  | UsageStreamCase
  | ImageDataUrlCase
  | ImageHttpsCase string string
  | RestrictedResponses
  | Declarative "'n declarative_probe_case"

record 'n probe_plan =
  pp_protocol :: wire_protocol
  pp_cases :: "'n core_probe_case list"
  pp_output_token_cap :: nat

datatype probe_plan_completeness = FullPlan | CapacitySkipped

definition agent_core_plan :: "'n probe_plan" where
  "agent_core_plan =
    \<lparr>pp_protocol = ChatCompletions,
     pp_cases = [MinimalText False, MinimalText True, FunctionToolsCase, FunctionSelection, ToolContinuationCase None None,
                 IndexedToolArguments, UsageStreamCase],
     pp_output_token_cap = 64\<rparr>"

definition reasoning_agent_plan :: "'n probe_plan" where
  "reasoning_agent_plan =
    agent_core_plan\<lparr>pp_cases := pp_cases agent_core_plan @ [ToolContinuationCase (Some ReasoningContent) None]\<rparr>"

definition full_plan :: "'n probe_plan" where
  "full_plan =
    reasoning_agent_plan\<lparr>pp_cases := pp_cases reasoning_agent_plan @ [ParallelToolsCase, ImageDataUrlCase, RestrictedResponses]\<rparr>"

definition push_case :: "'n core_probe_case \<Rightarrow> 'n core_probe_case list \<Rightarrow> 'n core_probe_case list" where
  "push_case c cases = (if c \<in> set cases then cases else cases @ [c])"

definition add_reasoning_controls :: "(string \<times> 'n json list) list \<Rightarrow> 'n core_probe_case list \<Rightarrow> 'n core_probe_case list" where
  "add_reasoning_controls controls cases =
    fold (\<lambda>(field, vs). fold (\<lambda>v. push_case (ReasoningControlCase field v)) vs) controls cases"

definition reasoning_trigger_of :: "'n probe_candidates \<Rightarrow> 'n reasoning_trigger option" where
  "reasoning_trigger_of candidates =
    (case cd_reasoning_controls candidates of
       (field, v # _) # _ \<Rightarrow> Some \<lparr>tr_field = field, tr_value = v\<rparr>
     | _ \<Rightarrow> None)"

text \<open>The first continuation case of a carrier takes the trigger; without one a case is added.\<close>

fun set_trigger :: "reasoning_carrier \<Rightarrow> 'n reasoning_trigger option \<Rightarrow> 'n core_probe_case list \<Rightarrow> 'n core_probe_case list option" where
  "set_trigger carrier trigger [] = None"
| "set_trigger carrier trigger (c # cases) =
    (case c of
       ToolContinuationCase (Some existing) slot \<Rightarrow>
         if existing = carrier
         then Some (ToolContinuationCase (Some existing) (if trigger \<noteq> None then trigger else slot) # cases)
         else map_option ((#) c) (set_trigger carrier trigger cases)
     | _ \<Rightarrow> map_option ((#) c) (set_trigger carrier trigger cases))"

definition add_carrier :: "'n reasoning_trigger option \<Rightarrow> reasoning_carrier \<Rightarrow> 'n core_probe_case list \<Rightarrow> 'n core_probe_case list" where
  "add_carrier trigger carrier cases =
    unwrap_or (set_trigger carrier trigger cases) (cases @ [ToolContinuationCase (Some carrier) trigger])"

definition carrier_fits :: "wire_protocol \<Rightarrow> reasoning_carrier \<Rightarrow> bool" where
  "carrier_fits proto carrier =
    (case proto of
       ChatCompletions \<Rightarrow> carrier = ReasoningContent
     | Responses \<Rightarrow> carrier = ResponsesReasoningItem
     | Messages \<Rightarrow> False)"

definition plan_fixture :: "'n compiled_capability_configuration \<Rightarrow> route_identity \<Rightarrow> https_image_fixture option" where
  "plan_fixture cc route = find_map xp_https_image_fixture (expectations_for cc route)"

definition probe_plan_for_route :: "'n compiled_capability_configuration \<Rightarrow> route_identity \<Rightarrow> 'n probe_plan" where
  "probe_plan_for_route cc route =
    (let cap = min (pf_output_token_cap (cf_probe (cc_source cc))) 64 in
     if ri_protocol route = Messages then \<lparr>pp_protocol = Messages, pp_cases = [], pp_output_token_cap = cap\<rparr>
     else
       let start = (if ri_protocol route = ChatCompletions then pp_cases full_plan else pp_cases agent_core_plan);
           candidates = probe_candidates_for cc route;
           cases1 = fold (\<lambda>field. push_case (TokenLimitCase field)) (cd_token_limit_fields candidates) start;
           cases2 = add_reasoning_controls (cd_reasoning_controls candidates) cases1;
           cases3 = fold (add_carrier (reasoning_trigger_of candidates))
                      (filter (carrier_fits (ri_protocol route)) (cd_reasoning_carriers candidates)) cases2;
           cases4 = cases3 @ map Declarative (filter (\<lambda>x. pc_protocol x = ri_protocol route) (extensions_for cc route));
           cases5 = (case or_else (plan_fixture cc route) (pf_https_image_fixture (cf_probe (cc_source cc))) of
                       None \<Rightarrow> cases4
                     | Some fixture \<Rightarrow> push_case ImageDataUrlCase cases4 @ [ImageHttpsCase (hf_url fixture) (hf_expected_label fixture)])
       in \<lparr>pp_protocol = ri_protocol route, pp_cases = cases5, pp_output_token_cap = cap\<rparr>)"

definition job_route :: "'p probe_job \<Rightarrow> string \<Rightarrow> route_identity" where
  "job_route job exposed =
    \<lparr>ri_upstream_id = dk_upstream_id (pj_key job), ri_key_fingerprint = dk_key_fingerprint (pj_key job),
     ri_exposed_model_slug = exposed, ri_runtime_model_slug = dk_runtime_model_slug (pj_key job),
     ri_protocol = dk_protocol (pj_key job), ri_tags = {}\<rparr>"

fun is_image_https :: "'n core_probe_case \<Rightarrow> bool" where
  "is_image_https (ImageHttpsCase _ _) = True"
| "is_image_https _ = False"

definition probe_plan_for_job :: "'n compiled_capability_configuration probe_job \<Rightarrow> 'n probe_plan" where
  "probe_plan_for_job job =
    (let cc = pj_plan_configuration job;
         slugs = sorted_list_of_set (pj_exposed_model_slugs job);
         route = apply_route_tags cc (job_route job (case slugs of slug # _ \<Rightarrow> slug | [] \<Rightarrow> dk_runtime_model_slug (pj_key job)))
     in if pj_mode job = ReasoningMode
        then \<lparr>pp_protocol = dk_protocol (pj_key job),
              pp_cases = add_reasoning_controls (cd_reasoning_controls (probe_candidates_for cc route)) [MinimalText False],
              pp_output_token_cap = min (pf_output_token_cap (cf_probe (cc_source cc))) 64\<rparr>
        else
          let plan = probe_plan_for_route cc route;
              cases = filter (\<lambda>c. \<not> is_image_https c) (pp_cases plan);
              fixture = or_else (find_map (\<lambda>slug. plan_fixture cc (apply_route_tags cc (job_route job slug))) slugs)
                          (pf_https_image_fixture (cf_probe (cc_source cc)))
          in plan\<lparr>pp_cases := (case fixture of
                 None \<Rightarrow> cases
               | Some f \<Rightarrow> cases @ [ImageHttpsCase (hf_url f) (hf_expected_label f)])\<rparr>)"

section \<open>Verdicts and evidence\<close>

datatype probe_case_verdict =
    VerdictSupported string
  | VerdictRejected string "nat option"
  | VerdictUnobserved string "nat option"

definition verdict_for_status :: "nat \<Rightarrow> string \<Rightarrow> string \<Rightarrow> string \<Rightarrow> probe_case_verdict" where
  "verdict_for_status status accepted_code rejected_code operational_code =
    (if status = 200 then VerdictSupported accepted_code
     else if status \<in> {401, 403, 429} \<or> 500 \<le> status \<and> status \<le> 599 then VerdictUnobserved operational_code (Some status)
     else VerdictRejected rejected_code (Some status))"

fun supported_or_rejected :: "probe_case_verdict \<Rightarrow> evidence_state" where
  "supported_or_rejected (VerdictSupported _) = Supported"
| "supported_or_rejected (VerdictRejected _ _) = Rejected"
| "supported_or_rejected (VerdictUnobserved _ _) = Unobserved"

fun verdict_code :: "probe_case_verdict \<Rightarrow> string" where
  "verdict_code (VerdictSupported code) = code"
| "verdict_code (VerdictRejected code _) = code"
| "verdict_code (VerdictUnobserved code _) = code"

record 'n probe_evidence =
  ev_protocol :: wire_protocol
  ev_capabilities :: "(capability \<times> evidence_state) list"
  ev_token_limit_field :: "token_limit_field option"
  ev_reasoning_carrier :: "reasoning_carrier option"
  ev_reasoning_controls :: "(string \<times> 'n json list) list"
  ev_evidence_codes :: "string set"
  ev_extension_evidence :: "(string \<times> evidence_state) list"
  ev_event_types :: "string set"

definition evidence_new :: "wire_protocol \<Rightarrow> 'n probe_evidence" where
  "evidence_new proto =
    \<lparr>ev_protocol = proto, ev_capabilities = map (\<lambda>c. (c, Unobserved)) capability_all, ev_token_limit_field = None,
     ev_reasoning_carrier = None, ev_reasoning_controls = [], ev_evidence_codes = {}, ev_extension_evidence = [],
     ev_event_types = {}\<rparr>"

definition put_capabilities :: "(capability \<times> evidence_state) list \<Rightarrow> 'n probe_evidence \<Rightarrow> 'n probe_evidence" where
  "put_capabilities kvs e = e\<lparr>ev_capabilities := fold (\<lambda>(c, s). bt_insert c s) kvs (ev_capabilities e)\<rparr>"

definition if_supported :: "evidence_state \<Rightarrow> capability list \<Rightarrow> (capability \<times> evidence_state) list" where
  "if_supported s cs = (if s = Supported then map (\<lambda>c. (c, Supported)) cs else [])"

fun apply_case :: "'n core_probe_case \<Rightarrow> evidence_state \<Rightarrow> 'n probe_evidence \<Rightarrow> 'n probe_evidence" where
  "apply_case (MinimalText stream) s e =
    put_capabilities ((if stream then TextStream else NonStreamingResponse, s) # if_supported s [TextInput]) e"
| "apply_case FunctionToolsCase s e = put_capabilities [(FunctionTools, s)] e"
| "apply_case FunctionSelection s e = put_capabilities ((ForcedToolChoice, s) # if_supported s [FunctionTools]) e"
| "apply_case (ToolContinuationCase carrier _) s e =
    (if carrier = None then put_capabilities ((ToolContinuation, s) # if_supported s [FunctionTools]) e
     else let e1 = put_capabilities ([(ReasoningReplay, s), (ReasoningOutput, s)] @ if_supported s [FunctionTools, ToolContinuation]) e
          in if s = Supported then e1\<lparr>ev_reasoning_carrier := carrier\<rparr> else e1)"
| "apply_case IndexedToolArguments s e = put_capabilities [(IndexedToolArgumentStream, s)] e"
| "apply_case UsageStreamCase s e = put_capabilities [(UsageStream, s)] e"
| "apply_case ParallelToolsCase s e = put_capabilities [(ParallelToolCalls, s)] e"
| "apply_case ImageDataUrlCase s e = put_capabilities [(ImageDataUrl, s)] e"
| "apply_case (ImageHttpsCase _ _) s e = put_capabilities [(ImageHttps, s)] e"
| "apply_case RestrictedResponses s e = e"
| "apply_case (Declarative x) s e = e\<lparr>ev_extension_evidence := bt_insert (pc_id x) s (ev_extension_evidence e)\<rparr>"
| "apply_case (TokenLimitCase field) s e =
    (if s = Supported \<and> ev_token_limit_field e = None then e\<lparr>ev_token_limit_field := Some field\<rparr> else e)"
| "apply_case (ReasoningControlCase field v) s e =
    (if s = Supported
     then e\<lparr>ev_reasoning_controls := bt_insert field (push_new v (bt_entry [] field (ev_reasoning_controls e))) (ev_reasoning_controls e)\<rparr>
     else e)"

definition evidence_apply :: "'n core_probe_case \<Rightarrow> probe_case_verdict \<Rightarrow> 'n probe_evidence \<Rightarrow> 'n probe_evidence" where
  "evidence_apply c verdict e =
    apply_case c (supported_or_rejected verdict) (e\<lparr>ev_evidence_codes := insert (verdict_code verdict) (ev_evidence_codes e)\<rparr>)"

definition into_conclusive_outcome :: "'n probe_evidence \<Rightarrow> nat \<Rightarrow> 'n probe_outcome" where
  "into_conclusive_outcome e attempted_at =
    Conclusive \<lparr>po_capabilities = ev_capabilities e, po_token_limit_field = ev_token_limit_field e,
      po_reasoning_carrier = or_else (ev_reasoning_carrier e)
        (if ev_protocol e = ChatCompletions \<and> map_of (ev_capabilities e) ReasoningReplay = Some Supported
         then Some ReasoningContent else None),
      po_reasoning_controls = ev_reasoning_controls e, po_correction_rules = [],
      po_extension_evidence = ev_extension_evidence e, po_evidence_codes = ev_evidence_codes e,
      po_event_types = ev_event_types e, po_http_status = 200, po_attempted_at = attempted_at\<rparr>"

section \<open>Running a plan\<close>

text \<open>What became of a case: it ran into its timeout, found no capacity, failed in transport, or gave a verdict.\<close>

datatype case_result = CaseTimedOut | CaseWouldBlock | CaseTransportFailed | CaseVerdict probe_case_verdict

record 'n probe_executor =
  px_request_timeout :: duration
  px_reasoning_timeout :: duration
  px_case_delay :: duration
  px_started :: instant
  px_clock :: "nat \<Rightarrow> instant"
  px_run_case :: "nat \<Rightarrow> 'n core_probe_case \<Rightarrow> duration \<Rightarrow> case_result"
  px_unix_seconds :: "nat \<Rightarrow> nat"

fun is_reasoning_case :: "'n core_probe_case \<Rightarrow> bool" where
  "is_reasoning_case (ReasoningControlCase _ _) = True"
| "is_reasoning_case (ToolContinuationCase _ (Some _)) = True"
| "is_reasoning_case _ = False"

definition case_timeout_for :: "'n probe_executor \<Rightarrow> 'n core_probe_case \<Rightarrow> duration" where
  "case_timeout_for x c = (if is_reasoning_case c then px_reasoning_timeout x else px_request_timeout x)"

definition plan_total_budget :: "'n probe_plan \<Rightarrow> duration \<Rightarrow> duration \<Rightarrow> duration \<Rightarrow> duration" where
  "plan_total_budget plan request_timeout reasoning_timeout case_delay =
    (let per_case_seconds = sum_list (map (\<lambda>c. max (as_secs (if is_reasoning_case c then reasoning_timeout else request_timeout)) 1) (pp_cases plan));
         delay = min duration_max (case_delay * (length (pp_cases plan) - 1))
     in min (duration_saturating_add (from_secs (max per_case_seconds 1)) delay) (from_secs 600))"

record 'n plan_state =
  ps_evidence :: "'n probe_evidence"
  ps_completeness :: probe_plan_completeness
  ps_saw_conclusive_evidence :: bool
  ps_saw_capacity_skip :: bool
  ps_saw_case_timeout :: bool
  ps_first_http_status :: "nat option"

definition plan_state_new :: "wire_protocol \<Rightarrow> 'n plan_state" where
  "plan_state_new proto =
    \<lparr>ps_evidence = evidence_new proto, ps_completeness = FullPlan, ps_saw_conclusive_evidence = False,
     ps_saw_capacity_skip = False, ps_saw_case_timeout = False, ps_first_http_status = None\<rparr>"

definition timed_out :: "'n core_probe_case \<Rightarrow> 'n plan_state \<Rightarrow> 'n plan_state" where
  "timed_out c st =
    st\<lparr>ps_saw_case_timeout := True, ps_completeness := CapacitySkipped,
       ps_evidence := evidence_apply c (VerdictUnobserved ''probe_case_timeout'' None) (ps_evidence st)\<rparr>"

definition verdict_step ::
  "'n probe_executor \<Rightarrow> nat \<Rightarrow> 'n core_probe_case \<Rightarrow> probe_case_verdict \<Rightarrow> 'n plan_state
   \<Rightarrow> ('n probe_outcome \<times> probe_plan_completeness) + 'n plan_state" where
  "verdict_step x index c verdict st =
    (case verdict of
       VerdictUnobserved code http_status \<Rightarrow>
         if http_status = Some 401 \<or> http_status = Some 403 \<or> index = 0
         then Inl (OperationalFailure code http_status (px_unix_seconds x index), ps_completeness st)
         else Inr (st\<lparr>ps_completeness := CapacitySkipped, ps_first_http_status := or_else (ps_first_http_status st) http_status,
                      ps_evidence := evidence_apply c verdict (ps_evidence st)\<rparr>)
     | _ \<Rightarrow> Inr (st\<lparr>ps_saw_conclusive_evidence := True, ps_evidence := evidence_apply c verdict (ps_evidence st)\<rparr>))"

definition plan_step ::
  "'n probe_executor \<Rightarrow> instant \<Rightarrow> nat \<Rightarrow> 'n core_probe_case \<Rightarrow> 'n plan_state
   \<Rightarrow> ('n probe_outcome \<times> probe_plan_completeness) + 'n plan_state" where
  "plan_step x deadline index c st =
    (let remaining = saturating_duration_since deadline (px_clock x index) in
     if remaining = 0 then Inr (timed_out c st)
     else case px_run_case x index c (min (case_timeout_for x c) remaining) of
       CaseVerdict verdict \<Rightarrow> verdict_step x index c verdict st
     | CaseWouldBlock \<Rightarrow> Inr (st\<lparr>ps_completeness := CapacitySkipped, ps_saw_capacity_skip := True\<rparr>)
     | CaseTransportFailed \<Rightarrow>
         if index = 0 \<and> \<not> ps_saw_conclusive_evidence st
         then Inl (OperationalFailure ''probe_case_transport_failed'' None (px_unix_seconds x index), CapacitySkipped)
         else Inr (st\<lparr>ps_completeness := CapacitySkipped,
                      ps_evidence := evidence_apply c (VerdictUnobserved ''probe_case_transport_failed'' None) (ps_evidence st)\<rparr>)
     | CaseTimedOut \<Rightarrow> Inr (timed_out c st))"

fun run_cases ::
  "'n probe_executor \<Rightarrow> instant \<Rightarrow> nat \<Rightarrow> 'n core_probe_case list \<Rightarrow> 'n plan_state
   \<Rightarrow> ('n probe_outcome \<times> probe_plan_completeness) + 'n plan_state" where
  "run_cases x deadline index [] st = Inr st"
| "run_cases x deadline index (c # cases) st =
    (case plan_step x deadline index c st of Inl r \<Rightarrow> Inl r | Inr st' \<Rightarrow> run_cases x deadline (index + 1) cases st')"

definition finish_plan :: "nat \<Rightarrow> 'n plan_state \<Rightarrow> 'n probe_outcome \<times> probe_plan_completeness" where
  "finish_plan now st =
    (if ps_saw_conclusive_evidence st \<or> ps_saw_capacity_skip st
     then (into_conclusive_outcome (ps_evidence st) now, ps_completeness st)
     else (OperationalFailure (if ps_saw_case_timeout st then ''probe_timeout'' else ''probe_all_unobserved'')
             (ps_first_http_status st) now, ps_completeness st))"

definition run_plan :: "'n probe_executor \<Rightarrow> 'n probe_plan \<Rightarrow> 'n probe_outcome \<times> probe_plan_completeness" where
  "run_plan x plan =
    (let deadline = px_started x + plan_total_budget plan (px_request_timeout x) (px_reasoning_timeout x) (px_case_delay x) in
     case run_cases x deadline 0 (pp_cases plan) (plan_state_new (pp_protocol plan)) of
       Inl r \<Rightarrow> r
     | Inr st \<Rightarrow> finish_plan (px_unix_seconds x (length (pp_cases plan))) st)"

section \<open>The end of a job\<close>

definition job_profile :: "'p probe_job \<Rightarrow> 'n upstream_dialect_profile option \<Rightarrow> 'n upstream_dialect_profile" where
  "job_profile job stored =
    (unwrap_or stored (profile_unknown (pj_key job)))
      \<lparr>dp_configuration_fingerprint := pb_configuration_fingerprint (pj_configuration job),
       dp_probe_schema_version := pb_probe_schema_version (pj_configuration job)\<rparr>"

definition profile_after_job ::
  "'p probe_job \<Rightarrow> 'n probe_outcome \<times> probe_plan_completeness \<Rightarrow> 'n upstream_dialect_profile option \<Rightarrow> 'n upstream_dialect_profile" where
  "profile_after_job job result stored =
    (case fst result of
       OperationalFailure _ _ _ \<Rightarrow> profile_apply_probe_outcome (fst result) (job_profile job stored)
     | Conclusive _ \<Rightarrow>
         if snd result = FullPlan \<and> pj_mode job = FullMode
         then profile_apply_probe_outcome (fst result) (job_profile job stored)
         else apply_probe_outcome_partial (fst result) (job_profile job stored))"

definition hints_after_job ::
  "'p probe_job \<Rightarrow> 'n probe_outcome \<Rightarrow> bool \<Rightarrow> runtime_capability_hints \<Rightarrow> runtime_capability_hints" where
  "hints_after_job job outcome applied h =
    (case outcome of
       Conclusive o' \<Rightarrow>
         if applied
         then clear_after_conclusive_probe h (pj_key job) (pb_configuration_fingerprint (pj_configuration job))
                (fst ` set (po_capabilities o'))
         else h
     | OperationalFailure _ _ _ \<Rightarrow> h)"

definition capability_profile_is_current_or_retry_pending :: "'n upstream_dialect_profile \<Rightarrow> string \<Rightarrow> nat \<Rightarrow> nat \<Rightarrow> bool" where
  "capability_profile_is_current_or_retry_pending profile fingerprint now refresh_interval_seconds =
    (case dp_next_probe_at profile of
       Some next_probe_at \<Rightarrow> dp_configuration_fingerprint profile = fingerprint
         \<and> dp_probe_schema_version profile = dialect_probe_schema_version \<and> now < next_probe_at
     | None \<Rightarrow> profile_is_current profile fingerprint now refresh_interval_seconds)"

section \<open>Rejected fields\<close>

definition field_error_phrases :: "string list" where
  "field_error_phrases =
    [''unsupported'', ''not supported'', ''unrecognized'', ''unknown field'', ''invalid field'', ''invalid parameter'',
     ''unexpected field'',
     [CHR 0xE5, CHR 0x8F, CHR 0x82, CHR 0xE6, CHR 0x95, CHR 0xB0, CHR 0xE9, CHR 0x9D, CHR 0x9E, CHR 0xE6, CHR 0xB3, CHR 0x95],
     [CHR 0xE5, CHR 0x8F, CHR 0x82, CHR 0xE6, CHR 0x95, CHR 0xB0, CHR 0xE9, CHR 0x94, CHR 0x99, CHR 0xE8, CHR 0xAF, CHR 0xAF],
     [CHR 0xE5, CHR 0x8F, CHR 0x82, CHR 0xE6, CHR 0x95, CHR 0xB0, CHR 0xE6, CHR 0x9C, CHR 0x89, CHR 0xE8, CHR 0xAF, CHR 0xAF],
     [CHR 0xE4, CHR 0xB8, CHR 0x8D, CHR 0xE6, CHR 0x94, CHR 0xAF, CHR 0xE6, CHR 0x8C, CHR 0x81, CHR 0xE8, CHR 0xAF, CHR 0xA5, CHR 0xE5, CHR 0x8F, CHR 0x82, CHR 0xE6, CHR 0x95, CHR 0xB0],
     [CHR 0xE4, CHR 0xB8, CHR 0x8D, CHR 0xE6, CHR 0x94, CHR 0xAF, CHR 0xE6, CHR 0x8C, CHR 0x81],
     [CHR 0xE6, CHR 0x97, CHR 0xA0, CHR 0xE6, CHR 0x95, CHR 0x88, CHR 0xE7, CHR 0x9A, CHR 0x84, CHR 0xE5, CHR 0x8F, CHR 0x82, CHR 0xE6, CHR 0x95, CHR 0xB0],
     [CHR 0xE6, CHR 0x97, CHR 0xA0, CHR 0xE6, CHR 0x95, CHR 0x88, CHR 0xE5, CHR 0x8F, CHR 0x82, CHR 0xE6, CHR 0x95, CHR 0xB0],
     [CHR 0xE7, CHR 0xBC, CHR 0xBA, CHR 0xE5, CHR 0xB0, CHR 0x91, CHR 0xE5, CHR 0xBF, CHR 0x85, CHR 0xE9, CHR 0x9C, CHR 0x80, CHR 0xE5, CHR 0x8F, CHR 0x82, CHR 0xE6, CHR 0x95, CHR 0xB0],
     [CHR 0xE7, CHR 0xBC, CHR 0xBA, CHR 0xE5, CHR 0xB0, CHR 0x91, CHR 0xE5, CHR 0x8F, CHR 0x82, CHR 0xE6, CHR 0x95, CHR 0xB0],
     [CHR 0xE9, CHR 0x9D, CHR 0x9E, CHR 0xE6, CHR 0xB3, CHR 0x95, CHR 0xE5, CHR 0x8F, CHR 0x82, CHR 0xE6, CHR 0x95, CHR 0xB0],
     [CHR 0xE6, CHR 0x9C, CHR 0xAA, CHR 0xE7, CHR 0x9F, CHR 0xA5, CHR 0xE5, CHR 0xAD, CHR 0x97, CHR 0xE6, CHR 0xAE, CHR 0xB5],
     [CHR 0xE6, CHR 0x9C, CHR 0xAA, CHR 0xE7, CHR 0x9F, CHR 0xA5, CHR 0xE5, CHR 0x8F, CHR 0x82, CHR 0xE6, CHR 0x95, CHR 0xB0]]"

definition dialect_fields :: "string list" where
  "dialect_fields =
    [''top_logprobs'', ''max_output_tokens'', ''max_completion_tokens'', ''parallel_tool_calls'', ''service_tier'',
     ''reasoning_effort'', ''stream_options'', ''reasoning_content'', ''tool_choice'', ''verbosity'', ''response_format'',
     ''frequency_penalty'', ''presence_penalty'', ''prompt_cache_key'', ''thinking'', ''metadata'', ''store'', ''top_p'',
     ''seed'', ''logprobs'']"

definition dialect_field_error_hint :: "string \<Rightarrow> string option" where
  "dialect_field_error_hint error_text =
    (let lower = to_ascii_lowercase error_text in
     if \<not> list_ex (\<lambda>phrase. contains phrase lower) field_error_phrases then None
     else List.find (\<lambda>field. contains field lower) dialect_fields)"

definition is_safe_dialect_strip_field :: "string \<Rightarrow> bool" where
  "is_safe_dialect_strip_field field =
    (field \<in> {''parallel_tool_calls'', ''service_tier'', ''reasoning_effort'', ''max_output_tokens'', ''max_completion_tokens'',
       ''stream_options'', ''verbosity'', ''response_format'', ''seed'', ''store'', ''metadata'', ''top_p'',
       ''frequency_penalty'', ''presence_penalty'', ''prompt_cache_key'', ''logprobs'', ''top_logprobs''})"

definition dialect_field_capability :: "string \<Rightarrow> capability option" where
  "dialect_field_capability field =
    (if field = ''parallel_tool_calls'' then Some ParallelToolCalls
     else if field = ''stream_options'' then Some UsageStream
     else if field = ''reasoning_effort'' then Some ReasoningOutput
     else None)"

end
