(* ===== verification/Capability_Probe_Properties.thy ===== *)
theory Capability_Probe_Properties
  imports Capability_Probe
begin

text \<open>
  What a probe job does to a profile. Only a full plan in which every case was decided replaces the
  evidence; every other end of a run leaves what the profile knew. Three places where the code departs
  from that intent are exhibited: stale evidence becomes current by a failed probe, hints about
  capabilities that were not probed are cleared, and known extension evidence is erased.
\<close>

section \<open>Runs\<close>



lemma plan_step_end:
  assumes "plan_step x deadline index c st = Inl (outcome, completeness)"
  shows "\<exists>code status at. outcome = OperationalFailure code status at"
proof -
  let ?r = "px_run_case x index c (min (case_timeout_for x c) (saturating_duration_since deadline (px_clock x index)))"
  have "verdict_step x index c verdict st = Inl (outcome, completeness) \<Longrightarrow> ?thesis" for verdict
    by (cases verdict) (auto simp: verdict_step_def split: if_splits)
  then show ?thesis using assms by (cases ?r) (auto simp: plan_step_def Let_def split: if_splits)
qed

lemma run_cases_end:
  "run_cases x deadline index cases st = Inl (outcome, completeness) \<Longrightarrow> \<exists>code status at. outcome = OperationalFailure code status at"
  by (induction cases arbitrary: index st) (auto dest: plan_step_end split: sum.splits)


lemma run_plan_conclusive:
  assumes "run_plan x plan = (Conclusive o', completeness)"
  obtains st deadline where "run_cases x deadline 0 (pp_cases plan) (plan_state_new (pp_protocol plan)) = Inr st"
    "ps_completeness st = completeness" "\<exists>now. into_conclusive_outcome (ps_evidence st) now = Conclusive o'"
proof -
  let ?d = "px_started x + plan_total_budget plan (px_request_timeout x) (px_reasoning_timeout x) (px_case_delay x)"
  let ?run = "run_cases x ?d 0 (pp_cases plan) (plan_state_new (pp_protocol plan))"
  show thesis
  proof (cases ?run)
    case (Inl r)
    then have "r = (Conclusive o', completeness)" using assms by (simp add: run_plan_def Let_def)
    then show ?thesis using run_cases_end Inl by blast
  next
    case (Inr st)
    then have "finish_plan (px_unix_seconds x (length (pp_cases plan))) st = (Conclusive o', completeness)"
      using assms by (simp add: run_plan_def Let_def)
    then have "ps_completeness st = completeness" "\<exists>now. into_conclusive_outcome (ps_evidence st) now = Conclusive o'"
      by (auto simp: finish_plan_def split: if_splits)
    then show ?thesis using Inr that by blast
  qed
qed



section \<open>Departures\<close>

text \<open>
  A profile is current for a configuration when a complete probe succeeded under it recently. A job
  writes the fingerprint of its configuration before it looks at the outcome, so a probe that fails makes
  the evidence of an older configuration current for the new one.
\<close>

theorem failed_probe_revives_stale_profile:
  assumes "dp_last_success_at profile = Some at" and "now - at < interval"
    and "pb_probe_schema_version (pj_configuration job) = dialect_probe_schema_version"
  shows "profile_is_current (profile_after_job job (OperationalFailure code status attempted_at, completeness) (Some profile))
      (pb_configuration_fingerprint (pj_configuration job)) now interval
    \<and> dp_capabilities (profile_after_job job (OperationalFailure code status attempted_at, completeness) (Some profile)) = dp_capabilities profile"
  using assms by (simp add: profile_after_job_def job_profile_def profile_is_current_def Let_def unwrap_or_def)

definition sample_probe_key :: dialect_profile_key where
  "sample_probe_key = \<lparr>dk_upstream_id = ''u'', dk_key_fingerprint = ''k'', dk_runtime_model_slug = ''m'', dk_protocol = ChatCompletions\<rparr>"

definition sample_probe_job :: "unit probe_job" where
  "sample_probe_job =
    \<lparr>pj_key = sample_probe_key, pj_exposed_model_slugs = {''m''}, pj_reason = ConfigurationChanged, pj_mode = FullMode,
     pj_configuration = \<lparr>pb_configuration_fingerprint = ''new'', pb_configuration_digest = [], pb_configuration_schema_version = 1,
       pb_configuration_revision = 1, pb_probe_schema_version = dialect_probe_schema_version\<rparr>,
     pj_plan_configuration = ()\<rparr>"

definition sample_stale :: "unit upstream_dialect_profile" where
  "sample_stale = (profile_unknown sample_probe_key)
    \<lparr>dp_configuration_fingerprint := ''old'', dp_capabilities := [(FunctionTools, Supported)], dp_last_success_at := Some 100,
     dp_extension_evidence := [(''x'', Supported)]\<rparr>"

theorem failed_probe_revives_stale_profile_witness:
  "\<not> profile_is_current sample_stale ''new'' 150 100
    \<and> profile_is_current (profile_after_job sample_probe_job (OperationalFailure ''probe_timeout'' None 150, FullPlan) (Some sample_stale)) ''new'' 150 100"
proof -
  have "profile_is_current (profile_after_job sample_probe_job (OperationalFailure ''probe_timeout'' None 150, FullPlan) (Some sample_stale))
      (pb_configuration_fingerprint (pj_configuration sample_probe_job)) 150 100"
    by (rule failed_probe_revives_stale_profile [THEN conjunct1, of _ 100]) (simp_all add: sample_stale_def sample_probe_job_def)
  then show ?thesis by (simp add: sample_probe_job_def profile_is_current_def sample_stale_def)
qed

lemma apply_case_keys: "fst ` set (ev_capabilities e) = UNIV \<Longrightarrow> fst ` set (ev_capabilities (apply_case c s e)) = UNIV"
proof -
  assume all: "fst ` set (ev_capabilities e) = UNIV"
  have "fst ` set (fold (\<lambda>(c, s). bt_insert c s) kvs m) = UNIV" if "fst ` set m = UNIV" for kvs and m :: "(capability \<times> evidence_state) list"
    using that by (induction kvs arbitrary: m) (auto simp: bt_insert_keys)
  then have put: "fst ` set (ev_capabilities (put_capabilities kvs e)) = UNIV" for kvs using all by (simp add: put_capabilities_def)
  show ?thesis by (cases c) (auto simp: put all Let_def)
qed

lemma run_cases_keys:
  "run_cases x deadline index cases st = Inr st' \<Longrightarrow> fst ` set (ev_capabilities (ps_evidence st)) = UNIV
    \<Longrightarrow> fst ` set (ev_capabilities (ps_evidence st')) = UNIV"
proof (induction cases arbitrary: index st)
  case (Cons c cases)
  have applied: "fst ` set (ev_capabilities (evidence_apply c v (ps_evidence st))) = UNIV" for v
    unfolding evidence_apply_def using Cons.prems(2) by (intro apply_case_keys) simp
  obtain st1 where st1: "plan_step x deadline index c st = Inr st1" "run_cases x deadline (index + 1) cases st1 = Inr st'"
    using Cons.prems(1) by (auto split: sum.splits)
  have verdict: "verdict_step x index c v st = Inr st1 \<Longrightarrow> fst ` set (ev_capabilities (ps_evidence st1)) = UNIV" for v
    by (cases v) (auto simp: verdict_step_def applied split: if_splits)
  let ?r = "px_run_case x index c (min (case_timeout_for x c) (saturating_duration_since deadline (px_clock x index)))"
  have "fst ` set (ev_capabilities (ps_evidence st1)) = UNIV"
    using st1(1) Cons.prems(2) verdict
    by (cases ?r) (auto simp: plan_step_def Let_def timed_out_def applied split: if_splits)
  then show ?case using Cons.IH st1(2) by blast
qed simp

text \<open>
  A conclusive probe is meant to clear the runtime hints about the capabilities it decided. The evidence
  starts with all capabilities unobserved and all of them are taken for decided, so that every hint of the
  profile is cleared, whatever the plan probed.
\<close>

theorem probe_clears_every_hint:
  assumes "run_plan x plan = (Conclusive o', completeness)"
    and "(key, entry) \<in> set (rh_entries (hints_after_job job (Conclusive o') True h))"
  shows "ck_profile key \<noteq> pj_key job \<or> he_configuration_fingerprint entry \<noteq> pb_configuration_fingerprint (pj_configuration job)"
proof -
  obtain st deadline where run: "run_cases x deadline 0 (pp_cases plan) (plan_state_new (pp_protocol plan)) = Inr st"
    and "\<exists>now. into_conclusive_outcome (ps_evidence st) now = Conclusive o'"
    using assms(1) by (rule run_plan_conclusive)
  then have "po_capabilities o' = ev_capabilities (ps_evidence st)" by (auto simp: into_conclusive_outcome_def)
  moreover have "fst ` set (ev_capabilities (ps_evidence st)) = UNIV"
    using run by (rule run_cases_keys) (simp add: plan_state_new_def evidence_new_def image_image capability_all_UNIV)
  ultimately have "fst ` set (po_capabilities o') = UNIV" by simp
  then show ?thesis
    using assms(2) by (auto simp: hints_after_job_def clear_after_conclusive_probe_def hm_retain_def split: capability_hint_discriminator.splits if_splits)
qed

text \<open>A run of two cases of which the second, an extension, runs into its timeout.\<close>

definition sample_probe_case :: "unit declarative_probe_case" where
  "sample_probe_case =
    \<lparr>pc_id = ''x'', pc_protocol = ChatCompletions, pc_prerequisites = {}, pc_request_patch = JObject [],
     pc_response_predicate = \<lparr>rp_path = ''/a'', rp_operator = PredExists, rp_value = None\<rparr>\<rparr>"

definition sample_plan :: "unit probe_plan" where
  "sample_plan = \<lparr>pp_protocol = ChatCompletions, pp_cases = [MinimalText False, Declarative sample_probe_case], pp_output_token_cap = 64\<rparr>"

definition sample_executor :: "unit probe_executor" where
  "sample_executor =
    \<lparr>px_request_timeout = from_secs 10, px_reasoning_timeout = from_secs 20, px_case_delay = 0, px_started = 0, px_clock = (\<lambda>_. 0),
     px_run_case = (\<lambda>index _ _. if index = 0 then CaseVerdict (VerdictSupported ''minimal_text'') else CaseTimedOut),
     px_unix_seconds = (\<lambda>_. 150)\<rparr>"

lemma sample_probe_run:
  "run_plan sample_executor sample_plan
    = (into_conclusive_outcome (evidence_apply (Declarative sample_probe_case) (VerdictUnobserved ''probe_case_timeout'' None)
         (evidence_apply (MinimalText False) (VerdictSupported ''minimal_text'') (evidence_new ChatCompletions))) 150, CapacitySkipped)"
  by (simp add: run_plan_def sample_executor_def sample_plan_def plan_total_budget_def plan_step_def saturating_duration_since_def
      from_secs_def as_secs_def duration_saturating_add_def duration_max_def u64_max_def verdict_step_def timed_out_def finish_plan_def
      plan_state_new_def case_timeout_for_def Let_def min_def)

theorem probe_clears_every_hint_witness:
  "\<exists>o'. run_plan sample_executor sample_plan = (Conclusive o', CapacitySkipped) \<and> map_of (po_capabilities o') FunctionTools = Some Unobserved
    \<and> rh_entries (hints_after_job sample_probe_job (Conclusive o') True
        \<lparr>rh_entries = [(feature sample_probe_key FunctionTools None, \<lparr>he_configuration_fingerprint = ''new'', he_expires_at = 1\<rparr>)],
         rh_capacity = 1, rh_ttl = 1\<rparr>) = []"
proof -
  let ?h = "\<lparr>rh_entries = [(feature sample_probe_key FunctionTools None, \<lparr>he_configuration_fingerprint = ''new'', he_expires_at = 1\<rparr>)],
         rh_capacity = 1, rh_ttl = 1\<rparr>"
  obtain o' where o': "run_plan sample_executor sample_plan = (Conclusive o', CapacitySkipped)"
    and caps: "po_capabilities o' = bt_insert TextInput Supported (bt_insert NonStreamingResponse Supported (map (\<lambda>c. (c, Unobserved)) capability_all))"
    unfolding sample_probe_run into_conclusive_outcome_def
    by (auto simp: evidence_apply_def evidence_new_def put_capabilities_def if_supported_def)
  have unobserved: "map_of (po_capabilities o') FunctionTools = Some Unobserved"
    by (simp add: caps map_of_bt_insert map_of_map_pair capability_all_UNIV)
  have "(key, entry) \<notin> set (rh_entries (hints_after_job sample_probe_job (Conclusive o') True ?h))" for key entry
  proof
    assume mem: "(key, entry) \<in> set (rh_entries (hints_after_job sample_probe_job (Conclusive o') True ?h))"
    then have "key = feature sample_probe_key FunctionTools None" "he_configuration_fingerprint entry = ''new''"
      by (auto simp: hints_after_job_def clear_after_conclusive_probe_def hm_retain_def split: if_splits)
    then show False
      using probe_clears_every_hint [OF o' mem] by (simp add: feature_def sample_probe_job_def)
  qed
  then have "rh_entries (hints_after_job sample_probe_job (Conclusive o') True ?h) = []"
    by (metis list.set_intros(1) neq_Nil_conv surj_pair)
  then show ?thesis using o' unobserved by blast
qed


text \<open>
  A partial outcome is documented never to erase prior observations. An extension that was known to be
  supported and whose case runs into its timeout is nevertheless unobserved afterwards, because a non-empty
  map of extension evidence replaces the known one.
\<close>

theorem partial_probe_erases_extension_evidence:
  "\<exists>(x :: unit probe_executor) plan (job :: unit probe_job) profile.
      snd (run_plan x plan) = CapacitySkipped \<and> map_of (dp_extension_evidence profile) ''x'' = Some Supported
      \<and> map_of (dp_extension_evidence (profile_after_job job (run_plan x plan) (Some profile))) ''x'' = Some Unobserved"
proof (intro exI conjI)
  show "snd (run_plan sample_executor sample_plan) = CapacitySkipped" by (simp add: sample_probe_run)
  show "map_of (dp_extension_evidence sample_stale) ''x'' = Some Supported" by (simp add: sample_stale_def)
  show "map_of (dp_extension_evidence (profile_after_job sample_probe_job (run_plan sample_executor sample_plan) (Some sample_stale))) ''x'' = Some Unobserved"
    by (simp add: sample_probe_run into_conclusive_outcome_def profile_after_job_def evidence_apply_def evidence_new_def
        sample_probe_case_def put_capabilities_def Let_def)
qed

section \<open>Rejected fields\<close>

text \<open>
  The order of the dialect fields is such that no field is taken for a longer one that contains it, and
  every field that may be stripped is one that an error can name.
\<close>

lemma dialect_fields_specific: "sorted_wrt (\<lambda>a b. \<not> contains a b) dialect_fields"
  unfolding contains_def dialect_fields_def by code_simp

end
