(* ===== verification/Request_Compat.thy ===== *)
theory Request_Compat
  imports Capability_Policy_Properties Capability_Probe_Properties Stream_Aggregate
begin

text \<open>
  Fitting a request body to its route (\<open>src/src/server/gateway/compat.rs\<close>), the order in which the
  passes run before a request is sent (\<open>src/src/server/gateway/upstream.rs\<close>) and the corrections tried
  after a rejection (\<open>src/src/server/gateway/dialect_retry.rs\<close>). A body is changed in place; each pass
  is the function from the body to the changed body.
\<close>

section \<open>Changes to a JSON value in place\<close>

fun as_bool :: "'n json \<Rightarrow> bool option" where
  "as_bool (JBool b) = Some b"
| "as_bool _ = None"

text \<open>
  \<open>Value::get_mut\<close> followed by a change that reports whether anything was removed. Each level
  hands the report up: of an array, whether some element was changed.
\<close>

definition adjust_member :: "string \<Rightarrow> ('n json \<Rightarrow> 'n json \<times> bool) \<Rightarrow> 'n json_map \<Rightarrow> 'n json_map \<times> bool" where
  "adjust_member name f members =
    (case map_of members name of
       None \<Rightarrow> (members, False)
     | Some v \<Rightarrow> (AList.update name (fst (f v)) members, snd (f v)))"

definition adjust_object :: "('n json_map \<Rightarrow> 'n json_map \<times> bool) \<Rightarrow> 'n json \<Rightarrow> 'n json \<times> bool" where
  "adjust_object f v = (case v of JObject members \<Rightarrow> (JObject (fst (f members)), snd (f members)) | _ \<Rightarrow> (v, False))"

definition adjust_items :: "('n json \<Rightarrow> 'n json \<times> bool) \<Rightarrow> 'n json \<Rightarrow> 'n json \<times> bool" where
  "adjust_items f v = (case v of JArray items \<Rightarrow> (JArray (map (fst \<circ> f) items), list_ex (snd \<circ> f) items) | _ \<Rightarrow> (v, False))"

definition drop_member :: "string \<Rightarrow> 'n json_map \<Rightarrow> 'n json_map \<times> bool" where
  "drop_member name members = (AList.delete name members, map_of members name \<noteq> None)"

definition on_object :: "('n json_map \<Rightarrow> 'n json_map) \<Rightarrow> 'n json \<Rightarrow> 'n json" where
  "on_object f body = (case body of JObject members \<Rightarrow> JObject (f members) | _ \<Rightarrow> body)"

definition remove_keys :: "string list \<Rightarrow> 'n json_map \<Rightarrow> 'n json_map" where
  "remove_keys keys members = fold AList.delete keys members"

text \<open>The members of a patch replace those of the target, except that two objects are merged.\<close>

function merge_optional_object :: "'n json_map \<Rightarrow> 'n json_map \<Rightarrow> 'n json_map" where
  "merge_optional_object target [] = target"
| "merge_optional_object target ((key, v) # patch) =
    merge_optional_object
      (case (map_of target key, v) of
         (Some (JObject inner), JObject p) \<Rightarrow> AList.update key (JObject (merge_optional_object inner p)) target
       | _ \<Rightarrow> bt_insert key v target) patch"
  by pat_completeness auto

termination
  by (relation "measure (\<lambda>(_, patch). size (JObject patch))") auto

section \<open>Reasoning effort\<close>

definition normalize_reasoning_effort_for_model :: "string \<Rightarrow> string \<Rightarrow> string option" where
  "normalize_reasoning_effort_for_model model effort =
    (let e = to_ascii_lowercase (trim effort) in
     if e \<in> {''max'', ''xhigh''} then Some ''high''
     else if e \<in> {''high'', ''medium'', ''low''} then Some e
     else None)"

definition codex_reasoning_effort_order :: "string list" where
  "codex_reasoning_effort_order = [''none'', ''low'', ''medium'', ''high'', ''xhigh'', ''max'']"

definition codex_reasoning_effort_rank :: "string \<Rightarrow> nat" where
  "codex_reasoning_effort_rank effort = length (takeWhile (\<lambda>candidate. candidate \<noteq> effort) codex_reasoning_effort_order)"

definition cap_effort_to_supported :: "'n resolved_capabilities \<Rightarrow> string \<Rightarrow> string option" where
  "cap_effort_to_supported resolved requested =
    (if map_of (rv_effort_map resolved) requested \<noteq> None then Some requested
     else max_by_key codex_reasoning_effort_rank
       (filter (\<lambda>key. codex_reasoning_effort_rank key \<le> codex_reasoning_effort_rank requested) (map fst (rv_effort_map resolved))))"

section \<open>The passes\<close>

definition require_array :: "'n json_map \<Rightarrow> 'n json_map" where
  "require_array parameters =
    (case map_of parameters ''required'' of
       Some (JArray _) \<Rightarrow> parameters
     | _ \<Rightarrow> bt_insert ''required'' (JArray []) parameters)"

definition normalize_chat_tool_required_arrays :: "'n json \<Rightarrow> 'n json" where
  "normalize_chat_tool_required_arrays body =
    fst (adjust_object (adjust_member ''tools'' (adjust_items (adjust_object (adjust_member ''function''
      (adjust_object (adjust_member ''parameters'' (adjust_object (\<lambda>m. (require_array m, False))))))))) body)"

definition service_fields :: "string list" where
  "service_fields = [''service_tier'', ''safety_identifier'', ''prompt_cache_key'', ''prompt_cache_retention'',
     ''client_metadata'', ''store'', ''verbosity'', ''text'']"

definition strip_stream_options :: "'n json_map \<Rightarrow> 'n json_map" where
  "strip_stream_options members =
    (let streaming = (Option.bind (map_of members ''stream'') as_bool = Some True);
         needs_usage = (Option.bind (Option.bind (map_of members ''stream_options'') (\<lambda>options. json_get options ''include_usage'')) as_bool
           = Some True)
     in if streaming \<and> needs_usage
        then fst (adjust_member ''stream_options'' (\<lambda>_. (JObject [(''include_usage'', JBool True)], False)) members)
        else AList.delete ''stream_options'' members)"

definition normalize_effort_member :: "string \<Rightarrow> 'n json_map \<Rightarrow> 'n json_map" where
  "normalize_effort_member model members =
    (case Option.bind (map_of members ''reasoning_effort'') as_str of
       None \<Rightarrow> members
     | Some effort \<Rightarrow>
         (case normalize_reasoning_effort_for_model model effort of
            Some normalized \<Rightarrow> if normalized \<noteq> effort then bt_insert ''reasoning_effort'' (JString normalized) members else members
          | None \<Rightarrow> AList.delete ''reasoning_effort'' members))"

definition unify_token_limit :: "'n json_map \<Rightarrow> 'n json_map" where
  "unify_token_limit members =
    (let output_token_limit = map_of members ''max_output_tokens'';
         rest = AList.delete ''max_output_tokens'' members
     in if map_of rest ''max_completion_tokens'' \<noteq> None then AList.delete ''max_tokens'' rest
        else if map_of rest ''max_tokens'' \<noteq> None then AList.delete ''max_completion_tokens'' rest
        else case output_token_limit of Some limit \<Rightarrow> bt_insert ''max_tokens'' limit rest | None \<Rightarrow> rest)"

definition normalize_chat_payload_for_upstream_compatibility :: "string \<Rightarrow> bool \<Rightarrow> 'n json \<Rightarrow> 'n json" where
  "normalize_chat_payload_for_upstream_compatibility model strip_unknown_nonstandard_fields =
    on_object (\<lambda>members.
      unify_token_limit (normalize_effort_member model
        (let base = remove_keys service_fields members
         in if strip_unknown_nonstandard_fields
            then strip_stream_options (remove_keys [''metadata'', ''user'', ''parallel_tool_calls''] base)
            else base)))"

definition optional_extension_fields :: "string list" where
  "optional_extension_fields = [''service_tier'', ''safety_identifier'', ''prompt_cache_key'', ''prompt_cache_retention'',
     ''client_metadata'', ''store'', ''verbosity'', ''metadata'', ''user'', ''text'', ''parallel_tool_calls'']"

text \<open>\<open>Option::or_else\<close> stops at the first limit that is present, so the later ones stay.\<close>

definition take_token_limit :: "'n json_map \<Rightarrow> 'n json option \<times> 'n json_map" where
  "take_token_limit members =
    (case find_map (\<lambda>field. map_option (Pair field) (map_of members field)) [''max_output_tokens'', ''max_completion_tokens'', ''max_tokens''] of
       Some (field, v) \<Rightarrow> (Some v, AList.delete field members)
     | None \<Rightarrow> (None, members))"

definition rename_token_limit :: "token_limit_field \<Rightarrow> 'n json_map \<Rightarrow> 'n json_map" where
  "rename_token_limit field members =
    (if field = OmitLimit then members
     else case take_token_limit members of
            (Some v, rest) \<Rightarrow> (case request_field field of Some key \<Rightarrow> bt_insert key v rest | None \<Rightarrow> rest)
          | (None, rest) \<Rightarrow> rest)"

definition mapped_effort :: "'n resolved_capabilities \<Rightarrow> string \<Rightarrow> 'n json option" where
  "mapped_effort resolved effort =
    or_else (map_of (rv_effort_map resolved) effort)
      (Option.bind (cap_effort_to_supported resolved effort) (map_of (rv_effort_map resolved)))"

definition apply_effort_control :: "'n resolved_capabilities \<Rightarrow> string option \<Rightarrow> 'n json_map \<Rightarrow> 'n json_map" where
  "apply_effort_control resolved requested_effort members =
    (let normalized_effort = Option.bind (map_of members ''reasoning_effort'') as_str;
         rest = AList.delete ''reasoning_effort'' members;
         mapping_effort = or_else requested_effort normalized_effort
     in case rv_reasoning_control_field resolved of
          Some field \<Rightarrow>
            (case Option.bind mapping_effort (mapped_effort resolved) of
               Some v \<Rightarrow> bt_insert field v rest
             | None \<Rightarrow> rest)
        | None \<Rightarrow>
            (case normalized_effort of
               Some effort \<Rightarrow> bt_insert ''reasoning_effort'' (JString effort) rest
             | None \<Rightarrow> rest))"

definition merge_extension :: "'n resolved_request_extension \<Rightarrow> 'n json_map \<Rightarrow> 'n json_map" where
  "merge_extension extension members =
    (case as_object (re_request_patch extension) of
       Some patch \<Rightarrow> merge_optional_object members patch
     | None \<Rightarrow> members)"

definition normalize_chat_payload_for_capabilities_with_requested_effort ::
  "'n resolved_capabilities \<Rightarrow> string option \<Rightarrow> 'n json \<Rightarrow> 'n json" where
  "normalize_chat_payload_for_capabilities_with_requested_effort resolved requested_effort =
    on_object (\<lambda>members.
      let kept = filter (\<lambda>(name, _). name \<notin> rv_omit_sampling_fields resolved) members;
          streamed = (if capability_state resolved UsageStream = Rejected then AList.delete ''stream_options'' kept else kept);
          plain = (if rv_omit_optional_extensions resolved then remove_keys optional_extension_fields streamed else streamed);
          limited = rename_token_limit (rv_token_limit_field resolved) plain;
          controlled = apply_effort_control resolved requested_effort limited
      in fold merge_extension (rv_request_extensions resolved) controlled)"

definition strip_parallel_tool_calls_unconditionally :: "'n json \<Rightarrow> 'n json \<times> bool" where
  "strip_parallel_tool_calls_unconditionally = adjust_object (drop_member ''parallel_tool_calls'')"

definition strip_unsupported_parallel_tool_calls :: "'n resolved_capabilities \<Rightarrow> 'n json \<Rightarrow> 'n json \<times> bool" where
  "strip_unsupported_parallel_tool_calls resolved body =
    (if resolved_supports resolved ParallelToolCalls then (body, False) else strip_parallel_tool_calls_unconditionally body)"

definition strip_unsupported_chat_reasoning_history :: "'n resolved_capabilities \<Rightarrow> 'n json \<Rightarrow> 'n json \<times> bool" where
  "strip_unsupported_chat_reasoning_history resolved body =
    (if resolved_supports resolved ReasoningOutput \<and> resolved_supports resolved ReasoningReplay then (body, False)
     else adjust_object (adjust_member ''messages'' (adjust_items (adjust_object (drop_member ''reasoning_content'')))) body)"

record image_dialect =
  im_https_url :: bool
  im_data_url :: bool
  im_detail :: bool
  im_native_file_id :: bool

definition image_dialect_all :: image_dialect where
  "image_dialect_all = \<lparr>im_https_url = True, im_data_url = True, im_detail = True, im_native_file_id = False\<rparr>"

definition from_resolved :: "'n resolved_capabilities \<Rightarrow> image_dialect" where
  "from_resolved resolved =
    \<lparr>im_https_url = resolved_supports resolved ImageHttps, im_data_url = resolved_supports resolved ImageDataUrl,
     im_detail = resolved_supports resolved ImageDetail, im_native_file_id = resolved_supports resolved NativeFileId\<rparr>"

definition drop_detail :: "image_dialect \<Rightarrow> 'n json_map \<Rightarrow> 'n json_map \<times> bool" where
  "drop_detail dialect part = (if \<not> im_detail dialect then drop_member ''detail'' part else (part, False))"

definition normalize_chat_part :: "image_dialect \<Rightarrow> 'n json_map \<Rightarrow> 'n json_map \<times> bool" where
  "normalize_chat_part dialect part =
    (if map_of part ''type'' = Some (JString ''image_url'')
     then adjust_member ''image_url'' (adjust_object (drop_detail dialect)) part else (part, False))"

definition normalize_responses_part :: "image_dialect \<Rightarrow> 'n json_map \<Rightarrow> 'n json_map \<times> bool" where
  "normalize_responses_part dialect part =
    (if map_of part ''type'' = Some (JString ''input_image'') then drop_detail dialect part else (part, False))"

definition adjust_contents :: "string \<Rightarrow> ('n json_map \<Rightarrow> 'n json_map \<times> bool) \<Rightarrow> 'n json_map \<Rightarrow> 'n json_map \<times> bool" where
  "adjust_contents field f =
    adjust_member field (adjust_items (adjust_object (adjust_member ''content'' (adjust_items (adjust_object f)))))"

definition normalize_image_payload_for_capabilities :: "image_dialect \<Rightarrow> 'n json_map \<Rightarrow> 'n json_map \<times> string option" where
  "normalize_image_payload_for_capabilities dialect members =
    (let (chat, downgraded_chat) = adjust_contents ''messages'' (normalize_chat_part dialect) members;
         (responses, downgraded_responses) = adjust_contents ''input'' (normalize_responses_part dialect) chat
     in (responses, if downgraded_chat \<or> downgraded_responses then Some ''optional_image_detail'' else None))"

definition strip_responses_chat_fallback_extensions :: "'n json \<Rightarrow> 'n json" where
  "strip_responses_chat_fallback_extensions =
    on_object (\<lambda>members.
      let base = remove_keys [''service_tier'', ''safety_identifier'', ''prompt_cache_key'', ''prompt_cache_retention'',
            ''client_metadata'', ''store'', ''verbosity'', ''parallel_tool_calls'', ''text''] members
      in case map_of base ''stream_options'' of
           Some (JObject options) \<Rightarrow>
             let options' = AList.delete ''include_obfuscation'' options
             in if options' = [] then AList.delete ''stream_options'' base
                else AList.update ''stream_options'' (JObject options') base
         | _ \<Rightarrow> base)"

definition strip_response_usage_fields_from_upstream_request :: "'n json \<Rightarrow> 'n json" where
  "strip_response_usage_fields_from_upstream_request =
    on_object (remove_keys [''usage'', ''input_tokens'', ''output_tokens'', ''prompt_tokens'', ''completion_tokens'', ''total_tokens'',
      ''input_tokens_details'', ''output_tokens_details'', ''prompt_tokens_details'', ''completion_tokens_details''])"

section \<open>The order of the passes before a request is sent\<close>

definition requested_chat_reasoning_effort :: "upstream_protocol \<Rightarrow> 'n json \<Rightarrow> string option" where
  "requested_chat_reasoning_effort upstream_protocol body =
    (if upstream_protocol = ProtoChatCompletions then Option.bind (json_get body ''reasoning_effort'') as_str else None)"

definition strips_unknown_fields :: "nonstandard_field_policy \<Rightarrow> 'n resolved_capabilities option \<Rightarrow> bool" where
  "strips_unknown_fields policy resolved_capabilities =
    (case policy of
       AlwaysStrip \<Rightarrow> True
     | ForwardFields \<Rightarrow> False
     | AutoPolicy \<Rightarrow> is_none_or resolved_capabilities (\<lambda>resolved. rv_profile_state resolved = ProfileUnknown))"

definition note_code :: "string \<Rightarrow> bool \<Rightarrow> string set \<Rightarrow> string set" where
  "note_code code happened codes = (if happened then insert code codes else codes)"

definition fit_parallel_tool_calls :: "'n resolved_capabilities option \<Rightarrow> 'n json \<times> string set \<Rightarrow> 'n json \<times> string set" where
  "fit_parallel_tool_calls resolved_capabilities = (\<lambda>(body, codes).
    let (body', stripped) = (case resolved_capabilities of
                               Some resolved \<Rightarrow> strip_unsupported_parallel_tool_calls resolved body
                             | None \<Rightarrow> strip_parallel_tool_calls_unconditionally body)
    in (body', note_code ''optional_parallel_tool_calls'' stripped codes))"

definition fit_chat_payload ::
  "string \<Rightarrow> nonstandard_field_policy \<Rightarrow> 'n resolved_capabilities option \<Rightarrow> string option \<Rightarrow> 'n json \<times> string set \<Rightarrow> 'n json \<times> string set" where
  "fit_chat_payload model policy resolved_capabilities requested_effort = (\<lambda>(body, codes).
    let plain = normalize_chat_payload_for_upstream_compatibility model (strips_unknown_fields policy resolved_capabilities) body
    in case resolved_capabilities of
         None \<Rightarrow> (plain, codes)
       | Some resolved \<Rightarrow>
           let (history, stripped) = strip_unsupported_chat_reasoning_history resolved plain
           in (normalize_chat_payload_for_capabilities_with_requested_effort resolved requested_effort history,
               note_code ''optional_reasoning_history'' stripped codes))"

definition fit_images :: "'n resolved_capabilities option \<Rightarrow> 'n json \<times> string set \<Rightarrow> 'n json \<times> string set" where
  "fit_images resolved_capabilities = (\<lambda>(body, codes).
    case (resolved_capabilities, body) of
      (Some resolved, JObject members) \<Rightarrow>
        (let (members', code) = normalize_image_payload_for_capabilities (from_resolved resolved) members
         in (JObject members', case code of Some c \<Rightarrow> insert c codes | None \<Rightarrow> codes))
    | _ \<Rightarrow> (body, codes))"

definition fit_request_to_route ::
  "upstream_protocol \<Rightarrow> string \<Rightarrow> nonstandard_field_policy \<Rightarrow> 'n resolved_capabilities option \<Rightarrow> 'n json \<times> string set
   \<Rightarrow> 'n json \<times> string set" where
  "fit_request_to_route upstream_protocol model policy resolved_capabilities = (\<lambda>(body, codes).
    let requested_effort = requested_chat_reasoning_effort upstream_protocol body;
        required = (if upstream_protocol = ProtoChatCompletions then normalize_chat_tool_required_arrays body else body);
        serial = fit_parallel_tool_calls resolved_capabilities (required, codes);
        chat = (if upstream_protocol = ProtoChatCompletions
                then fit_chat_payload model policy resolved_capabilities requested_effort serial else serial)
    in fit_images resolved_capabilities chat)"

section \<open>Corrections after a rejection\<close>

definition max_error_body_bytes :: nat where
  "max_error_body_bytes = 65536"

definition json_path :: "'n json \<Rightarrow> string list \<Rightarrow> 'n json option" where
  "json_path v names = fold (\<lambda>name acc. Option.bind acc (\<lambda>w. json_get w name)) names (Some v)"

definition correction_codes :: "string list" where
  "correction_codes = [''unsupported_parameter'', ''invalid_parameter'', ''unknown_field'', ''invalid_request_error'',
     ''invalid_parameter_error'', ''unsupported_value'', ''invalid_value'']"

definition correction_for_response ::
  "(string \<Rightarrow> 'n json option) \<Rightarrow> nat \<Rightarrow> string \<Rightarrow> bool \<Rightarrow> dialect_correction_rule list \<Rightarrow> dialect_correction_rule option" where
  "correction_for_response from_slice status error_body response_started rules =
    (if status \<noteq> 400 \<or> response_started \<or> length error_body > max_error_body_bytes then None
     else Option.bind (from_slice error_body) (\<lambda>v.
       let message = unwrap_or (Option.bind (json_path v [''error'', ''message'']) as_str) [];
           code = unwrap_or (Option.bind (json_path v [''error'', ''code'']) as_str) [];
           code_whitelisted = code \<in> set correction_codes;
           numeric_code = (code \<noteq> [] \<and> list_all (\<lambda>b. CHR ''0'' \<le> b \<and> b \<le> CHR ''9'') code);
           message_field_hint = dialect_field_error_hint message
       in if \<not> (code_whitelisted \<or> numeric_code \<and> message_field_hint \<noteq> None) then None
          else Option.bind
            (or_else (map_option trim (filter_option (\<lambda>param. trim param \<noteq> []) (Option.bind (json_path v [''error'', ''param'']) as_str)))
               message_field_hint)
            (\<lambda>param. List.find (\<lambda>rule. rule_is_safe rule \<and> matches_rejected_field rule param) rules)))"

definition switch_token_limit :: "token_limit_field \<Rightarrow> token_limit_field \<Rightarrow> 'n json_map \<Rightarrow> 'n json_map \<times> bool" where
  "switch_token_limit rejected replacement members =
    (case (request_field rejected, request_field replacement) of
       (Some rejected_field, Some replacement_field) \<Rightarrow>
         (if rejected_field = replacement_field then (members, False)
          else case map_of members rejected_field of
                 None \<Rightarrow> (members, False)
               | Some v \<Rightarrow> (bt_insert replacement_field v (AList.delete rejected_field members), True))
     | _ \<Rightarrow> (members, False))"

definition apply_correction_rule :: "dialect_correction_rule \<Rightarrow> 'n json \<Rightarrow> 'n json \<times> bool" where
  "apply_correction_rule rule =
    adjust_object (case rule of
       SwitchTokenLimit rejected replacement \<Rightarrow> switch_token_limit rejected replacement
     | RemoveOptionalField field \<Rightarrow> drop_member field)"

definition generic_strip_field_for_response :: "nat \<Rightarrow> string \<Rightarrow> bool \<Rightarrow> string option" where
  "generic_strip_field_for_response status error_text request_shape_rejected =
    (if status \<noteq> 400 \<and> \<not> (500 \<le> status \<and> status < 600 \<and> request_shape_rejected) then None
     else if length error_text > max_error_body_bytes then None
     else filter_option is_safe_dialect_strip_field (dialect_field_error_hint error_text))"

definition strip_field_from_body :: "string \<Rightarrow> 'n json \<Rightarrow> 'n json \<times> bool" where
  "strip_field_from_body field = adjust_object (drop_member field)"

end
