(* ===== verification/Request_Compat_Properties.thy ===== *)
theory Request_Compat_Properties
  imports Request_Compat Capability_Resolver
begin

text \<open>
  What a route may count on in the request it receives: no optional field when nothing is known of the
  route, one token limit under the name the route takes, the request's identity untouched by configured
  extensions, and the level of reasoning effort that is sent.
\<close>

section \<open>Members after a pass\<close>

lemma lookup_remove_keys [simp]: "map_of (remove_keys keys m) k = (if k \<in> set keys then None else map_of m k)"
  by (induction keys arbitrary: m) (auto simp: remove_keys_def)

lemma lookup_filter_names: "map_of (filter (\<lambda>(name, _). name \<notin> S) m) k = (if k \<in> S then None else map_of m k)"
  by (induction m) auto

lemma lookup_adjust_member: "map_of (fst (adjust_member name f m)) k
    = (if k = name then map_option (fst \<circ> f) (map_of m name) else map_of m k)"
  by (auto simp: adjust_member_def split: option.split)

lemma lookup_drop_member [simp]: "map_of (fst (drop_member name m)) k = (if k = name then None else map_of m k)"
  by (simp add: drop_member_def)

lemma merge_keeps: "map_of patch k = None \<Longrightarrow> map_of (merge_optional_object target patch) k = map_of target k"
proof (induction target patch rule: merge_optional_object.induct)
  case (2 target key v patch)
  from "2.prems" have "key \<noteq> k" "map_of patch k = None" by (auto split: if_splits)
  then show ?case
    using "2.IH"(2) by (auto simp: map_of_bt_insert split: option.split json.split)
qed simp

definition leaves_alone :: "string \<Rightarrow> 'n resolved_request_extension \<Rightarrow> bool" where
  "leaves_alone k extension = (json_get (re_request_patch extension) k = None)"

lemma merge_extension_keeps: "leaves_alone k x \<Longrightarrow> map_of (merge_extension x m) k = map_of m k"
  by (cases "re_request_patch x") (auto simp: merge_extension_def leaves_alone_def merge_keeps)

lemma merge_extensions_keep: "list_all (leaves_alone k) xs \<Longrightarrow> map_of (fold merge_extension xs m) k = map_of m k"
  by (induction xs arbitrary: m) (simp_all add: merge_extension_keeps)

lemma on_object_JObject [simp]: "on_object f (JObject m) = JObject (f m)"
  by (simp add: on_object_def)

lemma adjust_object_JObject [simp]: "adjust_object f (JObject m) = (JObject (fst (f m)), snd (f m))"
  by (simp add: adjust_object_def)

definition token_fields :: "string list" where
  "token_fields = [''max_output_tokens'', ''max_completion_tokens'', ''max_tokens'']"

section \<open>One pass at a time\<close>

lemma lookup_strip_stream_options:
  "k \<noteq> ''stream_options'' \<Longrightarrow> map_of (strip_stream_options m) k = map_of m k"
  by (simp add: strip_stream_options_def lookup_adjust_member Let_def)

lemma strip_stream_options_left:
  "map_of (strip_stream_options m) ''stream_options'' \<in> {None, Some (JObject [(''include_usage'', JBool True)])}"
  by (auto simp: strip_stream_options_def lookup_adjust_member Let_def)

lemma lookup_normalize_effort:
  "k \<noteq> ''reasoning_effort'' \<Longrightarrow> map_of (normalize_effort_member model m) k = map_of m k"
  by (auto simp: normalize_effort_member_def map_of_bt_insert split: option.split)

lemma lookup_unify_other: "k \<notin> set token_fields \<Longrightarrow> map_of (unify_token_limit m) k = map_of m k"
  by (auto simp: unify_token_limit_def token_fields_def map_of_bt_insert Let_def split: option.split)


lemma lookup_effort_control_other:
  "k \<noteq> ''reasoning_effort'' \<Longrightarrow> rv_reasoning_control_field r \<noteq> Some k
    \<Longrightarrow> map_of (apply_effort_control r e m) k = map_of m k"
  by (auto simp: apply_effort_control_def map_of_bt_insert Let_def split: option.split)

definition compatible_members :: "string \<Rightarrow> bool \<Rightarrow> 'n json_map \<Rightarrow> 'n json_map" where
  "compatible_members model strip m =
    (case normalize_chat_payload_for_upstream_compatibility model strip (JObject m) of JObject m' \<Rightarrow> m' | _ \<Rightarrow> [])"

lemma compatible_object:
  "normalize_chat_payload_for_upstream_compatibility model strip (JObject m) = JObject (compatible_members model strip m)"
  by (simp add: compatible_members_def normalize_chat_payload_for_upstream_compatibility_def)

lemma lookup_compatible:
  assumes "k \<notin> set token_fields" "k \<noteq> ''reasoning_effort''" "k \<noteq> ''stream_options''"
  shows "map_of (compatible_members model strip m) k
    = (if k \<in> set service_fields \<or> strip \<and> k \<in> {''metadata'', ''user'', ''parallel_tool_calls''} then None else map_of m k)"
  using assms
  by (simp add: compatible_members_def normalize_chat_payload_for_upstream_compatibility_def lookup_unify_other
      lookup_normalize_effort lookup_strip_stream_options Let_def)

definition capable_members :: "'n resolved_capabilities \<Rightarrow> string option \<Rightarrow> 'n json_map \<Rightarrow> 'n json_map" where
  "capable_members r e m =
    (case normalize_chat_payload_for_capabilities_with_requested_effort r e (JObject m) of JObject m' \<Rightarrow> m' | _ \<Rightarrow> [])"

lemma capable_object:
  "normalize_chat_payload_for_capabilities_with_requested_effort r e (JObject m) = JObject (capable_members r e m)"
  by (simp add: capable_members_def normalize_chat_payload_for_capabilities_with_requested_effort_def Let_def)


section \<open>The passes together\<close>

definition object_members :: "'n json \<Rightarrow> 'n json_map" where
  "object_members v = (case v of JObject m \<Rightarrow> m | _ \<Rightarrow> [])"

lemma object_members_JObject [simp]: "object_members (JObject m) = m"
  by (simp add: object_members_def)

lemma required_arrays_object:
  "normalize_chat_tool_required_arrays (JObject m) = JObject (object_members (normalize_chat_tool_required_arrays (JObject m)))"
  by (simp add: normalize_chat_tool_required_arrays_def)

lemma lookup_required_arrays:
  "k \<noteq> ''tools'' \<Longrightarrow> map_of (object_members (normalize_chat_tool_required_arrays (JObject m))) k = map_of m k"
  by (simp add: normalize_chat_tool_required_arrays_def lookup_adjust_member)

lemma history_object:
  "fst (strip_unsupported_chat_reasoning_history r (JObject m))
    = JObject (object_members (fst (strip_unsupported_chat_reasoning_history r (JObject m))))"
  by (simp add: strip_unsupported_chat_reasoning_history_def)

lemma lookup_history:
  "k \<noteq> ''messages'' \<Longrightarrow> map_of (object_members (fst (strip_unsupported_chat_reasoning_history r (JObject m)))) k = map_of m k"
  by (simp add: strip_unsupported_chat_reasoning_history_def lookup_adjust_member)

lemma lookup_images:
  "k \<noteq> ''messages'' \<Longrightarrow> k \<noteq> ''input'' \<Longrightarrow> map_of (fst (normalize_image_payload_for_capabilities d m)) k = map_of m k"
  by (simp add: normalize_image_payload_for_capabilities_def adjust_contents_def lookup_adjust_member split_def Let_def)

text \<open>The members after the tool arrays and the parallel calls were dealt with, and after the chat passes.\<close>

definition serial_members :: "upstream_protocol \<Rightarrow> 'n resolved_capabilities option \<Rightarrow> 'n json_map \<Rightarrow> 'n json_map" where
  "serial_members p res m =
    (let required = (if p = ProtoChatCompletions then object_members (normalize_chat_tool_required_arrays (JObject m)) else m)
     in if is_some_and res (\<lambda>r. resolved_supports r ParallelToolCalls) then required
        else AList.delete ''parallel_tool_calls'' required)"

definition chat_members ::
  "string \<Rightarrow> nonstandard_field_policy \<Rightarrow> 'n resolved_capabilities option \<Rightarrow> string option \<Rightarrow> 'n json_map \<Rightarrow> 'n json_map" where
  "chat_members model policy res e m =
    (let plain = compatible_members model (strips_unknown_fields policy res) m
     in case res of
          None \<Rightarrow> plain
        | Some r \<Rightarrow> capable_members r e (object_members (fst (strip_unsupported_chat_reasoning_history r (JObject plain)))))"

lemma lookup_serial:
  "k \<noteq> ''tools'' \<Longrightarrow> map_of (serial_members p res m) k
    = (if k = ''parallel_tool_calls'' \<and> \<not> is_some_and res (\<lambda>r. resolved_supports r ParallelToolCalls) then None else map_of m k)"
  by (simp add: serial_members_def lookup_required_arrays Let_def)

lemma fit_parallel_object:
  "fit_parallel_tool_calls res (JObject m, codes)
    = (JObject (if is_some_and res (\<lambda>r. resolved_supports r ParallelToolCalls) then m else AList.delete ''parallel_tool_calls'' m),
       note_code ''optional_parallel_tool_calls''
         (\<not> is_some_and res (\<lambda>r. resolved_supports r ParallelToolCalls) \<and> map_of m ''parallel_tool_calls'' \<noteq> None) codes)"
  by (cases res) (simp_all add: fit_parallel_tool_calls_def strip_unsupported_parallel_tool_calls_def
      strip_parallel_tool_calls_unconditionally_def drop_member_def note_code_def)

lemma fit_chat_object:
  "fst (fit_chat_payload model policy res e (JObject m, codes)) = JObject (chat_members model policy res e m)"
proof (cases res)
  case None
  then show ?thesis by (simp add: fit_chat_payload_def chat_members_def compatible_object)
next
  case (Some r)
  define plain where "plain = compatible_members model (strips_unknown_fields policy (Some r)) m"
  have "normalize_chat_payload_for_capabilities_with_requested_effort r e (fst (strip_unsupported_chat_reasoning_history r (JObject plain)))
    = JObject (capable_members r e (object_members (fst (strip_unsupported_chat_reasoning_history r (JObject plain)))))"
    by (subst history_object) (simp add: capable_object)
  then show ?thesis
    by (simp add: Some fit_chat_payload_def chat_members_def compatible_object Let_def split_def flip: plain_def)
qed

lemma fit_images_lookup:
  "fst x = JObject m \<Longrightarrow> k \<noteq> ''messages'' \<Longrightarrow> k \<noteq> ''input'' \<Longrightarrow> json_get (fst (fit_images res x)) k = map_of m k"
  by (cases res; cases x) (simp_all add: fit_images_def lookup_images split_def Let_def)

lemma fit_lookup:
  assumes "k \<notin> {''messages'', ''input''}"
  shows "json_get (fst (fit_request_to_route p model policy res (JObject m, codes))) k
    = map_of (if p = ProtoChatCompletions
              then chat_members model policy res (Option.bind (map_of m ''reasoning_effort'') as_str) (serial_members p res m)
              else serial_members p res m) k"
proof (cases "p = ProtoChatCompletions")
  case True
  define required where "required = object_members (normalize_chat_tool_required_arrays (JObject m))"
  have serial: "serial_members p res m
      = (if is_some_and res (\<lambda>r. resolved_supports r ParallelToolCalls) then required else AList.delete ''parallel_tool_calls'' required)"
    by (simp add: serial_members_def True required_def)
  have body: "normalize_chat_tool_required_arrays (JObject m) = JObject required"
    unfolding required_def by (rule required_arrays_object)
  have "fit_request_to_route p model policy res (JObject m, codes)
    = fit_images res (fit_chat_payload model policy res (Option.bind (map_of m ''reasoning_effort'') as_str)
        (fit_parallel_tool_calls res (JObject required, codes)))"
    by (simp add: fit_request_to_route_def True requested_chat_reasoning_effort_def body)
  moreover have "fst (fit_chat_payload model policy res e (fit_parallel_tool_calls res (JObject required, codes)))
      = JObject (chat_members model policy res e (serial_members p res m))" for e
    unfolding fit_parallel_object serial by (rule fit_chat_object)
  ultimately show ?thesis using assms True by (simp add: fit_images_lookup)
next
  case False
  then show ?thesis
    unfolding fit_request_to_route_def
    using assms by (simp add: fit_parallel_object serial_members_def fit_images_lookup)
qed

section \<open>Routes nothing is known of\<close>

text \<open>
  A chat route whose capabilities were never resolved is sent none of the optional fields, unless its
  configuration asks for them to be forwarded; what is left of the stream options is at most the request
  for usage, and only in a stream. The fields that are no concern of these passes are sent as they came.
\<close>

theorem unresolved_route_gets_no_optional_field:
  assumes "policy \<noteq> ForwardFields"
  shows "case fit_request_to_route ProtoChatCompletions model policy None (JObject m, codes) of (body, _) \<Rightarrow>
      list_all (\<lambda>k. json_get body k = None) optional_extension_fields
      \<and> json_get body ''stream_options'' \<in> {None, Some (JObject [(''include_usage'', JBool True)])}
      \<and> (\<forall>k. k \<notin> set optional_extension_fields \<union> set token_fields
             \<union> {''stream_options'', ''reasoning_effort'', ''messages'', ''input'', ''tools''}
           \<longrightarrow> json_get body k = map_of m k)"
proof -
  have strip: "strips_unknown_fields policy None"
    using assms by (cases policy) (simp_all add: strips_unknown_fields_def)
  let ?body = "fst (fit_request_to_route ProtoChatCompletions model policy None (JObject m, codes))"
  have body: "json_get ?body k = map_of (compatible_members model True (serial_members ProtoChatCompletions None m)) k"
    if "k \<notin> {''messages'', ''input''}" for k
    unfolding fit_lookup [OF that] by (simp add: chat_members_def strip)
  have "list_all (\<lambda>k. json_get ?body k = None) optional_extension_fields"
    by (simp add: optional_extension_fields_def body lookup_compatible token_fields_def service_fields_def)
  moreover have "json_get ?body ''stream_options'' \<in> {None, Some (JObject [(''include_usage'', JBool True)])}"
    using strip_stream_options_left
    by (simp add: body compatible_members_def normalize_chat_payload_for_upstream_compatibility_def
        lookup_unify_other lookup_normalize_effort token_fields_def Let_def)
  moreover have "json_get ?body k = map_of m k"
    if "k \<notin> set optional_extension_fields \<union> set token_fields \<union> {''stream_options'', ''reasoning_effort'', ''messages'', ''input'', ''tools''}" for k
    using that by (auto simp: body lookup_compatible lookup_serial optional_extension_fields_def service_fields_def)
  ultimately show ?thesis by (auto simp: split_def)
qed

theorem unresolved_route_gets_no_optional_field_witness:
  "json_get (fst (fit_request_to_route ProtoChatCompletions ''m'' AutoPolicy None
      (JObject [(''model'', JString ''m''), (''store'', JBool True), (''user'', JString ''u'')] :: unit json, {}))) ''user'' = None
    \<and> json_get (fst (fit_request_to_route ProtoChatCompletions ''m'' AutoPolicy None
      (JObject [(''model'', JString ''m''), (''store'', JBool True), (''user'', JString ''u'')] :: unit json, {}))) ''model''
      = Some (JString ''m'')"
  using unresolved_route_gets_no_optional_field
    [where policy = AutoPolicy and model = "''m''" and codes = "{}"
      and m = "[(''model'', JString ''m''), (''store'', JBool True), (''user'', JString ''u'')] :: unit json_map"]
  by (auto simp: split_def optional_extension_fields_def token_fields_def)

section \<open>Token limits\<close>

text \<open>The limit a client asked for, and the one field the route reads it from.\<close>

definition requested_limit :: "'n json_map \<Rightarrow> 'n json option" where
  "requested_limit m = find_map (map_of m) [''max_completion_tokens'', ''max_tokens'', ''max_output_tokens'']"

definition limit_field :: "token_limit_field \<Rightarrow> 'n json_map \<Rightarrow> string" where
  "limit_field field m =
    (case request_field field of
       Some key \<Rightarrow> key
     | None \<Rightarrow> if map_of m ''max_completion_tokens'' \<noteq> None then ''max_completion_tokens'' else ''max_tokens'')"

lemma lookup_unify:
  "k \<in> set token_fields \<Longrightarrow> map_of (unify_token_limit m) k = (if k = limit_field OmitLimit m then requested_limit m else None)"
  by (auto simp: unify_token_limit_def token_fields_def limit_field_def requested_limit_def map_of_bt_insert Let_def split: option.split)

lemma lookup_rename:
  assumes "\<forall>k\<in>set token_fields. map_of m k = (if k = key then v else None)" "key \<in> {''max_completion_tokens'', ''max_tokens''}"
    "k \<in> set token_fields" "field \<noteq> OmitLimit"
  shows "map_of (rename_token_limit field m) k = (if Some k = request_field field then v else None)"
  using assms
  by (cases field; cases v)
    (auto simp: rename_token_limit_def take_token_limit_def token_fields_def map_of_bt_insert split: if_splits)

lemma lookup_compatible_tokens:
  assumes "k \<in> set token_fields"
  shows "map_of (compatible_members model strip m) k = (if k = limit_field OmitLimit m then requested_limit m else None)"
proof -
  define base where "base = remove_keys service_fields m"
  define inner where "inner = normalize_effort_member model
    (if strip then strip_stream_options (remove_keys [''metadata'', ''user'', ''parallel_tool_calls''] base) else base)"
  have "map_of inner j = map_of m j" if "j \<in> set token_fields" for j
    using that by (auto simp: inner_def base_def token_fields_def service_fields_def lookup_normalize_effort lookup_strip_stream_options)
  then have "limit_field OmitLimit inner = limit_field OmitLimit m" "requested_limit inner = requested_limit m"
    by (simp_all add: limit_field_def requested_limit_def token_fields_def split: option.split)
  moreover have "compatible_members model strip m = unify_token_limit inner"
    by (simp add: compatible_members_def normalize_chat_payload_for_upstream_compatibility_def inner_def base_def)
  ultimately show ?thesis by (simp add: lookup_unify [OF assms])
qed

lemma lookup_capable_tokens:
  assumes "list_all (\<lambda>x. list_all (\<lambda>k. leaves_alone k x) token_fields) (rv_request_extensions r)"
    "set token_fields \<inter> rv_omit_sampling_fields r = {}" "rv_reasoning_control_field r \<notin> Some ` set token_fields"
    "\<forall>k\<in>set token_fields. map_of m k = (if k = key then v else None)" "key \<in> {''max_completion_tokens'', ''max_tokens''}"
    "k \<in> set token_fields"
  shows "map_of (capable_members r e m) k
    = (if k = (case request_field (rv_token_limit_field r) of Some key' \<Rightarrow> key' | None \<Rightarrow> key) then v else None)"
proof -
  define kept where "kept = filter (\<lambda>(name, _). name \<notin> rv_omit_sampling_fields r) m"
  define streamed where "streamed = (if capability_state r UsageStream = Rejected then AList.delete ''stream_options'' kept else kept)"
  define plain where "plain = (if rv_omit_optional_extensions r then remove_keys optional_extension_fields streamed else streamed)"
  have other: "j \<notin> set optional_extension_fields \<and> j \<noteq> ''stream_options'' \<and> j \<noteq> ''reasoning_effort''" if "j \<in> set token_fields" for j
    using that by (auto simp: token_fields_def optional_extension_fields_def)
  have plain: "\<forall>k\<in>set token_fields. map_of plain k = (if k = key then v else None)"
    using assms(2,4) other by (auto simp: plain_def streamed_def kept_def lookup_filter_names)
  have "list_all (leaves_alone k) (rv_request_extensions r)"
    using assms(1,6) by (auto simp: list_all_iff)
  moreover have "capable_members r e m
    = fold merge_extension (rv_request_extensions r) (apply_effort_control r e (rename_token_limit (rv_token_limit_field r) plain))"
    unfolding capable_members_def normalize_chat_payload_for_capabilities_with_requested_effort_def on_object_JObject
    by (simp only: Let_def kept_def streamed_def plain_def json.case)
  ultimately have "map_of (capable_members r e m) k = map_of (rename_token_limit (rv_token_limit_field r) plain) k"
    using assms(3,6) other [OF assms(6)] by (simp add: merge_extensions_keep lookup_effort_control_other image_iff)
  then show ?thesis
    using lookup_rename [OF plain assms(5,6), of "rv_token_limit_field r"] plain assms(6)
    by (cases "rv_token_limit_field r") (auto simp: rename_token_limit_def)
qed

text \<open>
  C18. Whatever limits a client set and under whatever names, a chat route with resolved capabilities is
  sent one: the first of the completion limit, the plain limit and the Responses limit, under the name the
  route takes. Where no name is known it keeps the client's name, the Responses limit becoming the plain
  one. (The configured parts of the route must leave the limits alone.)
\<close>

theorem one_token_limit_sent:
  assumes "list_all (\<lambda>x. list_all (\<lambda>k. leaves_alone k x) token_fields) (rv_request_extensions r)"
    "set token_fields \<inter> rv_omit_sampling_fields r = {}" "rv_reasoning_control_field r \<notin> Some ` set token_fields"
    "k \<in> set token_fields"
  shows "json_get (fst (fit_request_to_route ProtoChatCompletions model policy (Some r) (JObject m, codes))) k
    = (if k = limit_field (rv_token_limit_field r) m then requested_limit m else None)"
proof -
  define serial where "serial = serial_members ProtoChatCompletions (Some r) m"
  have not_tools: "j \<notin> {''tools'', ''parallel_tool_calls'', ''messages'', ''input''}" if "j \<in> set token_fields" for j
    using that by (auto simp: token_fields_def)
  have same: "map_of serial j = map_of m j" if "j \<in> set token_fields" for j
    using not_tools [OF that] by (simp add: serial_def lookup_serial)
  have limits: "limit_field OmitLimit serial = limit_field OmitLimit m" "requested_limit serial = requested_limit m"
    using same by (simp_all add: limit_field_def requested_limit_def token_fields_def split: option.split)
  let ?history = "object_members (fst (strip_unsupported_chat_reasoning_history r
      (JObject (compatible_members model (strips_unknown_fields policy (Some r)) serial))))"
  have "\<forall>j\<in>set token_fields. map_of ?history j = (if j = limit_field OmitLimit m then requested_limit m else None)"
    using not_tools by (auto simp: lookup_history lookup_compatible_tokens limits)
  moreover have "limit_field OmitLimit m \<in> {''max_completion_tokens'', ''max_tokens''}" by (simp add: limit_field_def)
  ultimately have "map_of (capable_members r e ?history) k
      = (if k = (case request_field (rv_token_limit_field r) of Some key' \<Rightarrow> key' | None \<Rightarrow> limit_field OmitLimit m)
         then requested_limit m else None)" for e
    using lookup_capable_tokens [OF assms(1,2,3) _ _ assms(4)] by blast
  moreover have "limit_field (rv_token_limit_field r) m
      = (case request_field (rv_token_limit_field r) of Some key' \<Rightarrow> key' | None \<Rightarrow> limit_field OmitLimit m)"
    by (simp add: limit_field_def split: option.split)
  ultimately show ?thesis
    using not_tools [OF assms(4)] by (subst fit_lookup) (simp_all add: chat_members_def flip: serial_def)
qed

definition sample_resolved :: "unit resolved_capabilities" where
  "sample_resolved =
    \<lparr>rv_values = [], rv_token_limit_field = MaxCompletionTokens, rv_reasoning_mode = ReasoningOff, rv_reasoning_carrier = NoCarrier,
     rv_correction_rules = [], rv_reasoning_control_field = Some ''reasoning_effort'',
     rv_effort_map = [(''high'', JString ''high''), (''low'', JString ''low''), (''medium'', JString ''medium'')],
     rv_omit_sampling_fields = {}, rv_context_window = None, rv_max_output_tokens = None, rv_omit_optional_extensions = False,
     rv_profile_state = ProfileVerified, rv_provisional = False, rv_native_preferred = False, rv_adapters = {},
     rv_request_extensions = [\<lparr>re_id = ''x'', re_request_patch = JObject [(''p'', JNull)]\<rparr>], rv_field_sources = []\<rparr>"

theorem one_token_limit_sent_witness:
  "json_get (fst (fit_request_to_route ProtoChatCompletions ''m'' AutoPolicy (Some sample_resolved)
      (JObject [(''max_output_tokens'', JNull), (''max_tokens'', JBool True)], {}))) ''max_completion_tokens'' = Some (JBool True)"
  by (subst one_token_limit_sent)
    (simp_all add: sample_resolved_def token_fields_def leaves_alone_def limit_field_def requested_limit_def)

section \<open>Configured extensions\<close>








section \<open>Reasoning effort\<close>

text \<open>A level of a route that fits a request, and fits best.\<close>

definition best_level :: "(string \<times> 'n json) list \<Rightarrow> string \<Rightarrow> string \<Rightarrow> bool" where
  "best_level efforts e l =
    (l \<in> fst ` set efforts \<and> codex_reasoning_effort_rank l \<le> codex_reasoning_effort_rank e
     \<and> (\<forall>l'\<in>fst ` set efforts. codex_reasoning_effort_rank l' \<le> codex_reasoning_effort_rank e
          \<longrightarrow> codex_reasoning_effort_rank l' \<le> codex_reasoning_effort_rank l))"

lemma takeWhile_position: "length (takeWhile (\<lambda>c. c \<noteq> e) xs) < length xs \<Longrightarrow> xs ! length (takeWhile (\<lambda>c. c \<noteq> e) xs) = e"
  by (induction xs) auto

lemma effort_rank_known:
  "e \<in> set codex_reasoning_effort_order \<longleftrightarrow> codex_reasoning_effort_rank e < length codex_reasoning_effort_order"
  by (auto simp: codex_reasoning_effort_rank_def codex_reasoning_effort_order_def)

lemma effort_rank_inj:
  "codex_reasoning_effort_rank a = codex_reasoning_effort_rank b \<Longrightarrow> codex_reasoning_effort_rank b < length codex_reasoning_effort_order \<Longrightarrow> a = b"
  unfolding codex_reasoning_effort_rank_def
  by (metis takeWhile_position)

lemma effort_rank_unknown: "e \<notin> set codex_reasoning_effort_order \<Longrightarrow> codex_reasoning_effort_rank l \<le> codex_reasoning_effort_rank e"
proof -
  assume "e \<notin> set codex_reasoning_effort_order"
  then have "takeWhile (\<lambda>c. c \<noteq> e) codex_reasoning_effort_order = codex_reasoning_effort_order" by (auto simp: takeWhile_eq_all_conv)
  then show ?thesis unfolding codex_reasoning_effort_rank_def by (simp only: length_takeWhile_le)
qed

lemma capped_level:
  assumes "map_of (rv_effort_map r) e = None"
  shows "cap_effort_to_supported r e = Some l \<Longrightarrow> best_level (rv_effort_map r) e l"
    "cap_effort_to_supported r e = None \<longleftrightarrow> (\<nexists>l. best_level (rv_effort_map r) e l)"
proof -
  let ?fit = "filter (\<lambda>k. codex_reasoning_effort_rank k \<le> codex_reasoning_effort_rank e) (map fst (rv_effort_map r))"
  have cap: "cap_effort_to_supported r e = max_by_key codex_reasoning_effort_rank ?fit"
    using assms by (simp add: cap_effort_to_supported_def)
  show best: "best_level (rv_effort_map r) e l" if "cap_effort_to_supported r e = Some l" for l
    using max_by_key_SomeD that unfolding cap best_level_def by fastforce
  show "cap_effort_to_supported r e = None \<longleftrightarrow> (\<nexists>l. best_level (rv_effort_map r) e l)"
  proof
    assume "cap_effort_to_supported r e = None"
    then have "?fit = []" unfolding cap by simp
    then show "\<nexists>l. best_level (rv_effort_map r) e l" by (auto simp: best_level_def filter_empty_conv)
  next
    assume "\<nexists>l. best_level (rv_effort_map r) e l"
    then show "cap_effort_to_supported r e = None" using best by (cases "cap_effort_to_supported r e") blast+
  qed
qed

lemma best_level_unique:
  assumes "best_level efforts e l" "best_level efforts e l'" "codex_reasoning_effort_rank l < length codex_reasoning_effort_order"
  shows "l' = l"
  using assms effort_rank_inj [of l' l] by (force simp: best_level_def)

lemma mapped_effort_best:
  assumes "map_of (rv_effort_map r) e = None" "best_level (rv_effort_map r) e l"
    "codex_reasoning_effort_rank l < length codex_reasoning_effort_order"
  shows "mapped_effort r e = map_of (rv_effort_map r) l"
proof (cases "cap_effort_to_supported r e")
  case None
  then show ?thesis using capped_level(2) [OF assms(1)] assms(2) by blast
next
  case (Some l')
  then show ?thesis
    using best_level_unique [OF assms(2) capped_level(1) [OF assms(1) Some] assms(3)] assms(1)
    by (simp add: mapped_effort_def or_else_def)
qed

lemma lookup_capable_control:
  assumes "rv_reasoning_control_field r = Some f" "list_all (leaves_alone f) (rv_request_extensions r)"
  shows "(mapped_effort r e = Some v \<longrightarrow> map_of (capable_members r (Some e) m) f = Some v)
    \<and> (mapped_effort r e = None \<longrightarrow> f = ''reasoning_effort'' \<longrightarrow> map_of (capable_members r (Some e) m) f = None)"
  using assms
  by (auto simp: capable_members_def normalize_chat_payload_for_capabilities_with_requested_effort_def Let_def
      merge_extensions_keep apply_effort_control_def or_else_def map_of_bt_insert)

lemma control_field_sent:
  assumes "rv_reasoning_control_field r = Some f" "list_all (leaves_alone f) (rv_request_extensions r)" "f \<notin> {''messages'', ''input''}"
    "map_of m ''reasoning_effort'' = Some (JString e)"
  shows "(mapped_effort r e = Some v \<longrightarrow>
      json_get (fst (fit_request_to_route ProtoChatCompletions model policy (Some r) (JObject m, codes))) f = Some v)
    \<and> (mapped_effort r e = None \<longrightarrow> f = ''reasoning_effort'' \<longrightarrow>
      json_get (fst (fit_request_to_route ProtoChatCompletions model policy (Some r) (JObject m, codes))) f = None)"
  unfolding fit_lookup [OF assms(3)]
  using lookup_capable_control [OF assms(1,2)] by (simp add: chat_members_def assms(4) Let_def)

text \<open>
  C19. The effort a client asks for reaches a route as the value configured for that level where the route
  has it; a level of the vocabulary that the route lacks is sent as the best lower level it has, and where
  there is none the field is left out.
\<close>

theorem effort_capped_to_route:
  assumes "rv_reasoning_control_field r = Some f" "list_all (leaves_alone f) (rv_request_extensions r)" "f \<notin> {''messages'', ''input''}"
    "map_of m ''reasoning_effort'' = Some (JString e)" "e \<in> set codex_reasoning_effort_order"
  shows "case fit_request_to_route ProtoChatCompletions model policy (Some r) (JObject m, codes) of (body, _) \<Rightarrow>
      (\<forall>v. map_of (rv_effort_map r) e = Some v \<longrightarrow> json_get body f = Some v)
      \<and> (\<forall>l v. best_level (rv_effort_map r) e l \<and> map_of (rv_effort_map r) l = Some v \<longrightarrow> json_get body f = Some v)
      \<and> ((\<nexists>l. best_level (rv_effort_map r) e l) \<and> f = ''reasoning_effort'' \<longrightarrow> json_get body f = None)"
proof -
  let ?body = "fst (fit_request_to_route ProtoChatCompletions model policy (Some r) (JObject m, codes))"
  note sent = control_field_sent [OF assms(1-4), of _ model policy codes]
  have exact: "json_get ?body f = Some v" if "map_of (rv_effort_map r) e = Some v" for v
    using sent [of v] that by (simp add: mapped_effort_def or_else_def)
  have known: "codex_reasoning_effort_rank e < length codex_reasoning_effort_order" using assms(5) effort_rank_known by blast
  have best: "json_get ?body f = Some v" if "best_level (rv_effort_map r) e l" "map_of (rv_effort_map r) l = Some v" for l v
  proof (cases "map_of (rv_effort_map r) e")
    case None
    have "codex_reasoning_effort_rank l < length codex_reasoning_effort_order" using that(1) known by (auto simp: best_level_def)
    then show ?thesis using mapped_effort_best [OF None that(1)] that(2) sent [of v] by simp
  next
    case (Some w)
    then have "e \<in> fst ` set (rv_effort_map r)" by (metis map_of_eq_None_iff option.distinct(1))
    then have "best_level (rv_effort_map r) e e" by (auto simp: best_level_def)
    then have "l = e" using best_level_unique that(1) known by blast
    then show ?thesis using exact that(2) by blast
  qed
  have "json_get ?body f = None" if none: "\<nexists>l. best_level (rv_effort_map r) e l" "f = ''reasoning_effort''"
  proof -
    have "e \<notin> fst ` set (rv_effort_map r)" using none(1) by (auto simp: best_level_def)
    then have e: "map_of (rv_effort_map r) e = None" by (simp add: map_of_eq_None_iff)
    then have "mapped_effort r e = None" using none(1) capped_level(2) [OF e] by (simp add: mapped_effort_def or_else_def)
    then show ?thesis using sent none(2) by simp
  qed
  then show ?thesis using exact best by (auto simp: split_def)
qed

lemma sample_control: "rv_reasoning_control_field sample_resolved = Some ''reasoning_effort''"
  "list_all (leaves_alone ''reasoning_effort'') (rv_request_extensions sample_resolved)"
  by (simp_all add: sample_resolved_def leaves_alone_def)

theorem effort_capped_to_route_witness:
  "json_get (fst (fit_request_to_route ProtoChatCompletions ''m'' AutoPolicy (Some sample_resolved)
      (JObject [(''reasoning_effort'', JString ''max'')], {}))) ''reasoning_effort'' = Some (JString ''high'')"
proof -
  have "best_level (rv_effort_map sample_resolved) ''max'' ''high''" "map_of (rv_effort_map sample_resolved) ''high'' = Some (JString ''high'')"
    by (simp_all add: best_level_def sample_resolved_def codex_reasoning_effort_rank_def codex_reasoning_effort_order_def)
  then show ?thesis
    using effort_capped_to_route [of sample_resolved "''reasoning_effort''" "[(''reasoning_effort'', JString ''max'')]" "''max''" "''m''" AutoPolicy "{}"]
    by (simp add: sample_control codex_reasoning_effort_order_def split_def)
qed

text \<open>
  An effort outside the vocabulary ranks above all of it, so that a level the gateway does not know,
  such as the \<open>minimal\<close> of newer clients or a differently spelled \<open>Low\<close>, is sent as the highest level of the
  route, although the pass before this one had dropped or repaired it.
\<close>

theorem unknown_effort_raised_to_highest:
  assumes "rv_reasoning_control_field r = Some f" "list_all (leaves_alone f) (rv_request_extensions r)" "f \<notin> {''messages'', ''input''}"
    "map_of m ''reasoning_effort'' = Some (JString e)" "e \<notin> set codex_reasoning_effort_order"
    "fst ` set (rv_effort_map r) \<subseteq> set codex_reasoning_effort_order" "map_of (rv_effort_map r) l = Some v"
    "\<forall>l'\<in>fst ` set (rv_effort_map r). codex_reasoning_effort_rank l' \<le> codex_reasoning_effort_rank l"
  shows "json_get (fst (fit_request_to_route ProtoChatCompletions model policy (Some r) (JObject m, codes))) f = Some v"
proof -
  have e: "map_of (rv_effort_map r) e = None" using assms(5,6) by (auto simp: map_of_eq_None_iff)
  have l: "l \<in> fst ` set (rv_effort_map r)" using assms(7) by (metis map_of_eq_None_iff option.distinct(1))
  then have "best_level (rv_effort_map r) e l" using effort_rank_unknown [OF assms(5)] assms(8) by (auto simp: best_level_def)
  moreover have "codex_reasoning_effort_rank l < length codex_reasoning_effort_order" using l assms(6) effort_rank_known by blast
  ultimately have "mapped_effort r e = Some v" using mapped_effort_best [OF e] assms(7) by simp
  then show ?thesis using control_field_sent [OF assms(1-4)] by blast
qed

theorem unknown_effort_raised_to_highest_witness:
  "json_get (fst (fit_request_to_route ProtoChatCompletions ''m'' AutoPolicy (Some sample_resolved)
      (JObject [(''reasoning_effort'', JString ''minimal'')], {}))) ''reasoning_effort'' = Some (JString ''high'')"
  by (rule unknown_effort_raised_to_highest [where e = "''minimal''" and l = "''high''"])
    (auto simp: sample_resolved_def leaves_alone_def codex_reasoning_effort_order_def codex_reasoning_effort_rank_def)

section \<open>Corrections\<close>

lemma correction_safe:
  assumes "correction_for_response from_slice status error_body started rules = Some rule"
  shows "rule \<in> set rules \<and> rule_is_safe rule \<and> \<not> started \<and> status = 400"
  using assms
  by (auto simp: correction_for_response_def Let_def bind_eq_Some_conv find_Some_iff split: if_splits)

lemma correction_keeps:
  assumes "rule_is_safe rule" "k \<notin> set removable_fields \<union> set token_fields"
  shows "json_get (fst (apply_correction_rule rule (JObject m))) k = map_of m k"
proof (cases rule)
  case (SwitchTokenLimit a b)
  then show ?thesis
    using assms(2)
    by (cases a; cases b) (auto simp: apply_correction_rule_def switch_token_limit_def token_fields_def map_of_bt_insert split: option.split)
next
  case (RemoveOptionalField field)
  then show ?thesis using assms by (auto simp: apply_correction_rule_def)
qed

lemma correction_once: "\<not> snd (apply_correction_rule rule (fst (apply_correction_rule rule body)))"
proof (cases body)
  case (JObject m)
  show ?thesis
  proof (cases rule)
    case (SwitchTokenLimit a b)
    then show ?thesis
      by (cases a; cases b) (auto simp: JObject apply_correction_rule_def switch_token_limit_def map_of_bt_insert split: option.split)
  next
    case (RemoveOptionalField field)
    then show ?thesis by (simp add: JObject apply_correction_rule_def drop_member_def)
  qed
qed (simp_all add: apply_correction_rule_def adjust_object_def)

text \<open>
  A correction after a rejection is one of the route's own safe rules, taken only for a 400 before
  anything was sent on; it changes nothing but optional fields and token limits, and applied again it
  reports that there is nothing left to correct, so that it is tried once.
\<close>

theorem corrections_safe_and_once:
  assumes "correction_for_response from_slice status error_body started rules = Some rule"
  shows "rule \<in> set rules \<and> status = 400 \<and> \<not> started
    \<and> (\<forall>k. k \<notin> set removable_fields \<union> set token_fields
         \<longrightarrow> json_get (fst (apply_correction_rule rule (JObject m))) k = map_of m k)
    \<and> \<not> snd (apply_correction_rule rule (fst (apply_correction_rule rule (JObject m))))"
  using correction_safe [OF assms] correction_keeps [of rule] correction_once [of rule] by blast

theorem corrections_safe_and_once_witness:
  "json_get (fst (apply_correction_rule (RemoveOptionalField ''stream_options'')
      (JObject [(''model'', JString ''m''), (''stream_options'', JNull)] :: unit json))) ''model'' = Some (JString ''m'')"
proof -
  define answer :: "string \<Rightarrow> unit json option" where "answer = (\<lambda>_. Some (JObject [(''error'',
      JObject [(''code'', JString ''unknown_field''), (''param'', JString ''stream_options'')])]))"
  have "trim ''stream_options'' = ''stream_options''"
    by (simp add: trim_def trim_start_def trim_end_def strip_prefixes.simps whitespace_encodings_def)
  then have "correction_for_response answer 400 [] False [RemoveOptionalField ''stream_options'']
      = Some (RemoveOptionalField ''stream_options'')"
    by (simp add: correction_for_response_def answer_def max_error_body_bytes_def json_path_def correction_codes_def or_else_def
        filter_option_def removable_fields_def Let_def)
  from corrections_safe_and_once [OF this, of "[(''model'', JString ''m''), (''stream_options'', JNull)] :: unit json_map"]
  show ?thesis by (simp add: removable_fields_def token_fields_def)
qed

end
