(* ===== verification/Probe_Cases.thy ===== *)
theory Probe_Cases
  imports Request_Compat_Properties
begin

text \<open>
  The cases of a probe (\<open>src/src/server/gateway/capability_probe.rs\<close>): what a response or an event stream
  must show for a case to count as supported, the reading of a probe's stream, and the requests and verdicts
  of the cases. The client that sends a request is the parameter \<open>probe_transport\<close>; \<open>serde_json\<close> parses, reads
  numbers and follows JSON pointers.
\<close>

section \<open>Usable output of a response\<close>

definition json_index :: "'n json \<Rightarrow> string \<Rightarrow> 'n json" where
  "json_index v name = (case json_get v name of Some w \<Rightarrow> w | None \<Rightarrow> JNull)"

definition first_item :: "'n json \<Rightarrow> 'n json" where
  "first_item v = (case v of JArray (x # _) \<Rightarrow> x | _ \<Rightarrow> JNull)"

definition items_of :: "'n json \<Rightarrow> 'n json list" where
  "items_of v = (case as_array v of Some items \<Rightarrow> items | None \<Rightarrow> [])"

definition non_empty_str :: "'n json \<Rightarrow> bool" where
  "non_empty_str v = is_some_and (as_str v) (\<lambda>s. s \<noteq> [])"

fun typed_field_has_payload :: "'n json \<Rightarrow> bool" where
  "typed_field_has_payload JNull = False"
| "typed_field_has_payload (JString s) = (s \<noteq> [])"
| "typed_field_has_payload (JArray items) = list_ex typed_field_has_payload items"
| "typed_field_has_payload (JObject members) = list_ex (\<lambda>(_, v). typed_field_has_payload v) members"
| "typed_field_has_payload _ = True"

definition typed_output_item_has_payload :: "'n json \<Rightarrow> bool" where
  "typed_output_item_has_payload item =
    (case item of
       JObject members \<Rightarrow>
         list_ex (\<lambda>(field, v). field \<notin> {''type'', ''id'', ''status'', ''object'', ''created_at'', ''completed_at'', ''sequence_number'',
             ''output_index'', ''content_index''} \<and> typed_field_has_payload v) members
     | _ \<Rightarrow> False)"

fun has_text :: "'n json \<Rightarrow> bool" where
  "has_text (JString s) = (s \<noteq> [])"
| "has_text (JArray items) = list_ex has_text items"
| "has_text (JObject members) =
    is_some_and (find_map (map_of members) [''text'', ''refusal'', ''summary_text'', ''reasoning_text'', ''reasoning_content'']) non_empty_str"
| "has_text _ = False"

definition value_has_non_empty_text :: "'n json option \<Rightarrow> bool" where
  "value_has_non_empty_text v = is_some_and v has_text"

definition non_empty_array :: "'n json option \<Rightarrow> bool" where
  "non_empty_array v = is_some_and (Option.bind v as_array) (\<lambda>items. items \<noteq> [])"

definition value_has_payload :: "'n json option \<Rightarrow> bool" where
  "value_has_payload v =
    (case v of
       None \<Rightarrow> False
     | Some JNull \<Rightarrow> False
     | Some (JString s) \<Rightarrow> s \<noteq> []
     | Some (JArray items) \<Rightarrow> items \<noteq> []
     | Some (JObject members) \<Rightarrow> members \<noteq> []
     | Some _ \<Rightarrow> True)"

definition chat_message_has_usable_output :: "'n json \<Rightarrow> bool" where
  "chat_message_has_usable_output message =
    (value_has_non_empty_text (json_get message ''content'') \<or> value_has_non_empty_text (json_get message ''refusal'')
     \<or> value_has_non_empty_text (json_get message ''reasoning_content'') \<or> non_empty_array (json_get message ''tool_calls'')
     \<or> value_has_payload (json_get message ''function_call''))"

definition responses_output_item_has_usable_output :: "'n json \<Rightarrow> bool" where
  "responses_output_item_has_usable_output item =
    (let plain = (value_has_non_empty_text (json_get item ''content'') \<or> non_empty_array (json_get item ''tool_calls'')
                  \<or> value_has_payload (json_get item ''function_call''))
     in case Option.bind (json_get item ''type'') as_str of
          None \<Rightarrow> plain
        | Some kind \<Rightarrow>
            if kind = ''message'' then plain
            else if kind = ''reasoning''
            then value_has_non_empty_text (json_get item ''summary'') \<or> value_has_non_empty_text (json_get item ''content'')
              \<or> is_some_and (json_get item ''encrypted_content'') typed_field_has_payload
            else typed_output_item_has_payload item)"

definition output_message :: "'n json \<Rightarrow> 'n json option" where
  "output_message choice = or_else (json_get choice ''message'') (json_get choice ''delta'')"

definition is_empty_success_response :: "'n json_ops \<Rightarrow> 'n json \<Rightarrow> bool" where
  "is_empty_success_response ops body =
    (let usage = unwrap_or (json_get body ''usage'') JNull;
         tokens = (\<lambda>field. unwrap_or (Option.bind (json_get usage field) (as_u64 ops)) 0)
     in if tokens ''completion_tokens'' \<noteq> 0 \<or> tokens ''output_tokens'' \<noteq> 0 then False
        else case Option.bind (json_get body ''choices'') as_array of
               Some choices \<Rightarrow> \<not> list_ex (\<lambda>choice. is_some_and (output_message choice) chat_message_has_usable_output) choices
             | None \<Rightarrow>
                 (case Option.bind (json_get body ''output'') as_array of
                    Some output \<Rightarrow> \<not> list_ex responses_output_item_has_usable_output output
                  | None \<Rightarrow> True))"

definition has_explicit_zero_output_usage :: "'n json_ops \<Rightarrow> upstream_protocol \<Rightarrow> 'n json \<Rightarrow> bool" where
  "has_explicit_zero_output_usage ops protocol' body =
    (let usage = Option.bind (json_get body ''usage'') as_object;
         field = (case protocol' of ProtoChatCompletions \<Rightarrow> ''completion_tokens'' | ProtoResponses \<Rightarrow> ''output_tokens'')
     in Option.bind (Option.bind usage (\<lambda>u. map_of u field)) (as_u64 ops) = Some 0)"

fun zero_fields :: "'n json_ops \<Rightarrow> 'n json_map \<Rightarrow> bool \<Rightarrow> string list \<Rightarrow> bool" where
  "zero_fields ops usage saw [] = saw"
| "zero_fields ops usage saw (field # names) =
    (case map_of usage field of
       None \<Rightarrow> zero_fields ops usage saw names
     | Some v \<Rightarrow>
         if or_else (map_option unat (as_u64 ops v)) (Option.bind (as_str v) (parse_uint u64_max)) \<noteq> Some 0 then False
         else zero_fields ops usage True names)"

definition has_explicit_zero_output_tokens :: "'n json_ops \<Rightarrow> 'n json \<Rightarrow> bool" where
  "has_explicit_zero_output_tokens ops body =
    (case Option.bind (json_get body ''usage'') as_object of
       None \<Rightarrow> False
     | Some usage \<Rightarrow> zero_fields ops usage False [''completion_tokens'', ''output_tokens''])"

definition chat_has_usable_output :: "'n json \<Rightarrow> bool" where
  "chat_has_usable_output body =
    list_ex (\<lambda>choice. is_some_and (output_message choice) chat_message_has_usable_output) (items_of (json_index body ''choices''))"

definition responses_has_usable_output :: "'n json \<Rightarrow> bool" where
  "responses_has_usable_output body = list_ex responses_output_item_has_usable_output (items_of (json_index body ''output''))"

definition responses_has_output_text :: "'n json \<Rightarrow> bool" where
  "responses_has_output_text body =
    (json_index body ''status'' = JString ''completed''
     \<and> list_ex (\<lambda>part. json_index part ''type'' = JString ''output_text'' \<and> non_empty_str (json_index part ''text''))
         (concat (map (\<lambda>item. items_of (json_index item ''content''))
           (filter (\<lambda>item. json_index item ''type'' = JString ''message'') (items_of (json_index body ''output''))))))"

section \<open>Evidence of reasoning, and predicates of extensions\<close>

record 'n probe_ops =
  pr_json :: "'n json_ops"
  pr_pointer :: "'n json \<Rightarrow> string \<Rightarrow> 'n json option"

definition positive_tokens :: "'n json_ops \<Rightarrow> 'n json option \<Rightarrow> bool" where
  "positive_tokens ops v = is_some_and (Option.bind v (as_u64 ops)) (\<lambda>tokens. tokens > 0)"

definition reasoning_response_has_evidence :: "'n probe_ops \<Rightarrow> 'n json \<Rightarrow> bool" where
  "reasoning_response_has_evidence ops body =
    (is_some_and (pr_pointer ops body ''/choices/0/message'') (\<lambda>message.
        is_some_and (json_get message ''reasoning_content'') non_empty_str
        \<or> is_some_and (json_get message ''reasoning'') (\<lambda>v. \<not> is_null v))
     \<or> positive_tokens (pr_json ops) (pr_pointer ops body ''/usage/completion_tokens_details/reasoning_tokens'')
     \<or> is_some_and (Option.bind (json_get body ''output'') as_array)
         (list_ex (\<lambda>item. json_index item ''type'' = JString ''reasoning''))
     \<or> positive_tokens (pr_json ops) (pr_pointer ops body ''/usage/output_tokens_details/reasoning_tokens''))"

text \<open>The loop over the events, with the number of expected ones seen so far.\<close>

definition event_step :: "'n json list \<Rightarrow> 'n json \<Rightarrow> nat \<Rightarrow> nat" where
  "event_step expected item next' = (if next' < length expected \<and> expected ! next' = item then next' + 1 else next')"

fun value_contains :: "'n json \<Rightarrow> 'n json \<Rightarrow> bool" where
  "value_contains (JString actual) (JString expected) = contains expected actual"
| "value_contains (JArray actual) expected = (expected \<in> set actual)"
| "value_contains (JObject actual) (JString expected) = (map_of actual expected \<noteq> None)"
| "value_contains _ _ = False"

definition response_predicate_matches :: "'n probe_ops \<Rightarrow> 'n json \<Rightarrow> 'n response_predicate \<Rightarrow> bool" where
  "response_predicate_matches ops body predicate =
    (let actual = pr_pointer ops body (rp_path predicate)
     in case rp_operator predicate of
          PredExists \<Rightarrow> actual \<noteq> None
        | PredEquals \<Rightarrow> is_some_and actual (\<lambda>a. rp_value predicate = Some a)
        | PredContains \<Rightarrow> is_some_and actual (\<lambda>a. is_some_and (rp_value predicate) (value_contains a))
        | EventSequence \<Rightarrow>
            is_some_and (Option.bind actual as_array) (\<lambda>events.
              is_some_and (Option.bind (rp_value predicate) as_array) (\<lambda>expected.
                fold (event_step expected) events 0 = length expected)))"

definition merge_json_object :: "'n json \<Rightarrow> 'n json \<Rightarrow> 'n json" where
  "merge_json_object target patch =
    (case (target, patch) of (JObject t, JObject p) \<Rightarrow> JObject (merge_optional_object t p) | _ \<Rightarrow> target)"

section \<open>Events of a probe's stream\<close>

record tool_argument_probe =
  ta_name :: string
  ta_arguments :: string
  ta_has_call_id :: bool

definition tool_probe_default :: tool_argument_probe where
  "tool_probe_default = \<lparr>ta_name = [], ta_arguments = [], ta_has_call_id = False\<rparr>"

type_synonym tool_probes = "(64 word \<times> tool_argument_probe) list"

definition chat_fragment :: "'n json \<Rightarrow> tool_argument_probe \<Rightarrow> tool_argument_probe" where
  "chat_fragment call current =
    \<lparr>ta_name = unwrap_or (as_str (json_index (json_index call ''function'') ''name'')) (ta_name current),
     ta_arguments = ta_arguments current @ unwrap_or (as_str (json_index (json_index call ''function'') ''arguments'')) [],
     ta_has_call_id = (ta_has_call_id current \<or> non_empty_str (json_index call ''id''))\<rparr>"

definition chat_tool_calls :: "'n json \<Rightarrow> 'n json list" where
  "chat_tool_calls event =
    concat (map (\<lambda>choice. items_of (json_index (json_index choice ''delta'') ''tool_calls'')) (items_of (json_index event ''choices'')))"

definition observe_chat_tool_arguments :: "'n json_ops \<Rightarrow> 'n json \<Rightarrow> tool_probes \<Rightarrow> tool_probes" where
  "observe_chat_tool_arguments ops event calls =
    fold (\<lambda>call calls. case as_u64 ops (json_index call ''index'') of
                         None \<Rightarrow> calls
                       | Some index \<Rightarrow> bt_insert index (chat_fragment call (bt_entry tool_probe_default index calls)) calls)
      (chat_tool_calls event) calls"

definition responses_fragment :: "string option \<Rightarrow> 'n json \<Rightarrow> tool_argument_probe \<Rightarrow> tool_argument_probe" where
  "responses_fragment event_type event current =
    (if event_type = Some ''response.output_item.added''
     then \<lparr>ta_name = unwrap_or (as_str (json_index (json_index event ''item'') ''name'')) (ta_name current),
           ta_arguments = ta_arguments current @ unwrap_or (as_str (json_index (json_index event ''item'') ''arguments'')) [],
           ta_has_call_id = (ta_has_call_id current \<or> non_empty_str (json_index (json_index event ''item'') ''call_id''))\<rparr>
     else if event_type = Some ''response.function_call_arguments.delta''
     then current\<lparr>ta_arguments := ta_arguments current @ unwrap_or (as_str (json_index event ''delta'')) []\<rparr>
     else if event_type = Some ''response.function_call_arguments.done''
     then current\<lparr>ta_arguments := unwrap_or (as_str (json_index event ''arguments'')) (ta_arguments current)\<rparr>
     else current)"

definition observe_responses_tool_arguments :: "'n json_ops \<Rightarrow> 'n json \<Rightarrow> string option \<Rightarrow> tool_probes \<Rightarrow> tool_probes" where
  "observe_responses_tool_arguments ops event event_type calls =
    (case as_u64 ops (json_index event ''output_index'') of
       None \<Rightarrow> calls
     | Some index \<Rightarrow> bt_insert index (responses_fragment event_type event (bt_entry tool_probe_default index calls)) calls)"

definition has_valid_tool_argument_probe :: "'n json_ops \<Rightarrow> tool_argument_probe list \<Rightarrow> string \<Rightarrow> bool" where
  "has_valid_tool_argument_probe ops calls nonce =
    list_ex (\<lambda>call. ta_name call = ''gateway_compat_probe'' \<and> ta_has_call_id call
      \<and> json_index (unwrap_or (jo_from_str ops (ta_arguments call)) JNull) ''nonce'' = JString nonce) calls"

definition chat_stream_has_text_delta :: "'n json \<Rightarrow> bool" where
  "chat_stream_has_text_delta event =
    list_ex (\<lambda>choice. non_empty_str (json_index (json_index choice ''delta'') ''content'')) (items_of (json_index event ''choices''))"

definition chat_stream_has_usage :: "'n json \<Rightarrow> bool" where
  "chat_stream_has_usage event =
    is_some_and (Option.bind (json_get event ''usage'') as_object) (\<lambda>usage.
      list_ex (\<lambda>field. map_of usage field \<noteq> None) [''prompt_tokens'', ''completion_tokens'', ''total_tokens''])"

definition responses_usage_has_token_field :: "'n json_map \<Rightarrow> bool" where
  "responses_usage_has_token_field usage =
    list_ex (\<lambda>field. map_of usage field \<noteq> None) [''input_tokens'', ''output_tokens'', ''total_tokens'']"

definition chat_stream_has_reasoning_tokens :: "'n json_ops \<Rightarrow> 'n json \<Rightarrow> bool" where
  "chat_stream_has_reasoning_tokens ops event =
    is_some_and (Option.bind (json_get event ''usage'') as_object) (\<lambda>usage.
      list_ex (\<lambda>field. positive_tokens ops (Option.bind (Option.bind (map_of usage field) as_object) (\<lambda>d. map_of d ''reasoning_tokens'')))
        [''completion_tokens_details'', ''output_tokens_details''])"

definition chat_stream_has_reasoning_delta :: "'n json_ops \<Rightarrow> 'n json \<Rightarrow> bool" where
  "chat_stream_has_reasoning_delta ops event =
    (list_ex (\<lambda>choice. let delta = json_index choice ''delta'' in
        is_some_and (json_get delta ''reasoning_content'') non_empty_str
        \<or> is_some_and (json_get delta ''reasoning'') (\<lambda>v. \<not> is_null v)) (items_of (json_index event ''choices''))
     \<or> chat_stream_has_reasoning_tokens ops event)"

definition responses_stream_has_reasoning_delta :: "'n json_ops \<Rightarrow> 'n json \<Rightarrow> string option \<Rightarrow> bool" where
  "responses_stream_has_reasoning_delta ops event event_type =
    (event_type = Some ''response.reasoning_summary_text.delta'' \<and> is_some_and (json_get event ''delta'') non_empty_str
     \<or> event_type = Some ''response.output_item.added''
         \<and> as_str (json_index (json_index event ''item'') ''type'') = Some ''reasoning''
     \<or> event_type = Some ''response.completed''
         \<and> positive_tokens ops (Some (json_index (json_index (json_index (json_index event ''response'') ''usage'')
             ''output_tokens_details'') ''reasoning_tokens'')))"

record probe_stream_summary =
  ss_saw_chat_done :: bool
  ss_saw_text_delta :: bool
  ss_saw_usage :: bool
  ss_saw_reasoning_delta :: bool
  ss_tool_calls :: tool_probes

definition summary_default :: probe_stream_summary where
  "summary_default = \<lparr>ss_saw_chat_done = False, ss_saw_text_delta = False, ss_saw_usage = False, ss_saw_reasoning_delta = False,
     ss_tool_calls = []\<rparr>"

definition summary_observe :: "'n json_ops \<Rightarrow> upstream_protocol \<Rightarrow> sse_event \<Rightarrow> probe_stream_summary \<Rightarrow> probe_stream_summary" where
  "summary_observe ops protocol' event s =
    (let payload = trim (ev_data event) in
     if payload = [] then s
     else if payload = ''[DONE]'' then s\<lparr>ss_saw_chat_done := (ss_saw_chat_done s \<or> protocol' = ProtoChatCompletions)\<rparr>
     else case jo_from_str ops payload of
            None \<Rightarrow> s
          | Some v \<Rightarrow>
              (case protocol' of
                 ProtoChatCompletions \<Rightarrow>
                   s\<lparr>ss_saw_text_delta := (ss_saw_text_delta s \<or> chat_stream_has_text_delta v),
                     ss_saw_usage := (ss_saw_usage s \<or> chat_stream_has_usage v),
                     ss_saw_reasoning_delta := (ss_saw_reasoning_delta s \<or> chat_stream_has_reasoning_delta ops v),
                     ss_tool_calls := observe_chat_tool_arguments ops v (ss_tool_calls s)\<rparr>
               | ProtoResponses \<Rightarrow>
                   let event_type = or_else (as_str (json_index v ''type'')) (ev_event_type event)
                   in s\<lparr>ss_saw_text_delta := (ss_saw_text_delta s \<or> event_type = Some ''response.output_text.delta''
                           \<and> non_empty_str (json_index v ''delta'')),
                        ss_saw_usage := (ss_saw_usage s \<or> event_type = Some ''response.completed''
                           \<and> is_some_and (as_object (json_index (json_index v ''response'') ''usage'')) responses_usage_has_token_field),
                        ss_saw_reasoning_delta := (ss_saw_reasoning_delta s \<or> responses_stream_has_reasoning_delta ops v event_type),
                        ss_tool_calls := observe_responses_tool_arguments ops v event_type (ss_tool_calls s)\<rparr>))"

record probe_sse_response =
  pq_status :: nat
  pq_saw_done :: bool
  pq_saw_text_delta :: bool
  pq_saw_usage :: bool
  pq_saw_reasoning_delta :: bool
  pq_tool_calls :: tool_probes
  pq_operational_code :: "string option"

definition stream_http_status_is_operational :: "nat \<Rightarrow> bool" where
  "stream_http_status_is_operational status = (status \<in> {401, 403, 429} \<or> 500 \<le> status \<and> status \<le> 599)"

definition sse_empty :: "nat \<Rightarrow> probe_sse_response" where
  "sse_empty status =
    \<lparr>pq_status = status, pq_saw_done = False, pq_saw_text_delta = False, pq_saw_usage = False, pq_saw_reasoning_delta = False,
     pq_tool_calls = [],
     pq_operational_code = (if stream_http_status_is_operational status then Some ''probe_stream_http_failed'' else None)\<rparr>"

definition sse_operational :: "nat \<Rightarrow> string \<Rightarrow> probe_sse_response" where
  "sse_operational status code = (sse_empty status)\<lparr>pq_operational_code := Some code\<rparr>"

definition sse_from_summary :: "nat \<Rightarrow> bool \<Rightarrow> probe_stream_summary \<Rightarrow> probe_sse_response" where
  "sse_from_summary status saw_done s =
    \<lparr>pq_status = status, pq_saw_done = saw_done, pq_saw_text_delta = ss_saw_text_delta s, pq_saw_usage = ss_saw_usage s,
     pq_saw_reasoning_delta = ss_saw_reasoning_delta s, pq_tool_calls = ss_tool_calls s, pq_operational_code = None\<rparr>"

definition sse_incomplete :: "nat \<Rightarrow> probe_stream_summary \<Rightarrow> probe_sse_response" where
  "sse_incomplete status s = sse_from_summary status False s"

definition sse_complete :: "nat \<Rightarrow> upstream_protocol \<Rightarrow> probe_stream_summary \<Rightarrow> probe_sse_response" where
  "sse_complete status protocol' s =
    sse_from_summary status (case protocol' of ProtoChatCompletions \<Rightarrow> ss_saw_chat_done s | ProtoResponses \<Rightarrow> True) s"

definition sse_early_stopped :: "nat \<Rightarrow> probe_stream_summary \<Rightarrow> probe_sse_response" where
  "sse_early_stopped status s = sse_from_summary status False s"

definition operational_verdict :: "probe_sse_response \<Rightarrow> probe_case_verdict option" where
  "operational_verdict response =
    map_option (\<lambda>code. VerdictUnobserved code
        (if stream_http_status_is_operational (pq_status response) then Some (pq_status response) else None))
      (pq_operational_code response)"

definition stream_error_is_incomplete :: "protocol_error \<Rightarrow> bool" where
  "stream_error_is_incomplete e = (case e of InvalidUpstreamStream Incomplete _ \<Rightarrow> True | _ \<Rightarrow> False)"

text \<open>
  The loop of \<open>post_stream\<close> over the chunks the client delivers; None stands for a failed read.
\<close>

fun read_probe_stream ::
  "'n json_ops \<Rightarrow> upstream_protocol \<Rightarrow> (probe_stream_summary \<Rightarrow> bool) \<Rightarrow> nat \<Rightarrow> probe_stream_summary \<Rightarrow> 'n stream_response_aggregator
   \<Rightarrow> string option list \<Rightarrow> probe_sse_response outcome_or_panic" where
  "read_probe_stream ops protocol' early_stop status s a [] =
    bind_ok (finish_observing ops (summary_observe ops protocol') s a) (\<lambda>(r, s1).
      Inr (case r of
             Inr _ \<Rightarrow> sse_complete status protocol' s1
           | Inl e \<Rightarrow> if stream_error_is_incomplete e then sse_incomplete status s1
                      else sse_operational status ''probe_stream_invalid''))"
| "read_probe_stream ops protocol' early_stop status s a (chunk # chunks) =
    (case chunk of
       None \<Rightarrow> Inr (sse_operational status ''probe_stream_transport_failed'')
     | Some bytes \<Rightarrow>
         bind_ok (push_observing ops (summary_observe ops protocol') bytes s a) (\<lambda>(r, s1, a1).
           if early_stop s1 then Inr (sse_early_stopped status s1)
           else case r of
                  Inr (Complete _) \<Rightarrow> Inr (sse_complete status protocol' s1)
                | Inr Pending \<Rightarrow> read_probe_stream ops protocol' early_stop status s1 a1 chunks
                | Inl e \<Rightarrow> Inr (if stream_error_is_incomplete e then sse_incomplete status s1
                               else sse_operational status ''probe_stream_invalid'')))"

definition probe_stream_response ::
  "'n json_ops \<Rightarrow> upstream_protocol \<Rightarrow> (probe_stream_summary \<Rightarrow> bool) \<Rightarrow> nat \<Rightarrow> nat option \<Rightarrow> string option list
   \<Rightarrow> probe_sse_response outcome_or_panic" where
  "probe_stream_response ops protocol' early_stop status content_length chunks =
    (if status \<noteq> 200 then Inr (sse_empty status)
     else if is_some_and content_length (\<lambda>n. n > max_stream_aggregate_total_bytes)
     then Inr (sse_operational status ''probe_stream_byte_limit_exceeded'')
     else read_probe_stream ops protocol' early_stop status summary_default (aggregator_new protocol') chunks)"

section \<open>Requests and verdicts of the cases\<close>

text \<open>
  The client of a probe: what it answers to a body sent to a path, or None when the request failed.
\<close>

record 'n probe_transport =
  pt_protocol :: wire_protocol
  pt_model :: string
  pt_strip_policy :: "nonstandard_field_policy option"
  pt_post :: "string \<Rightarrow> 'n json \<Rightarrow> (nat \<times> 'n json) option"
  pt_stream :: "string \<Rightarrow> 'n json \<Rightarrow> (nat \<times> nat option \<times> string option list) option"

type_synonym io_verdict = "probe_case_verdict option outcome_or_panic"

definition probe_input_prompt :: string where
  "probe_input_prompt =
    [CHR 0xE8, CHR 0xAF, CHR 0xB7, CHR 0xE8, CHR 0xAE, CHR 0xA1, CHR 0xE7, CHR 0xAE, CHR 0x97, CHR 0x20, CHR 0x31, CHR 0x37,
     CHR 0x20, CHR 0xE4, CHR 0xB9, CHR 0x98, CHR 0xE4, CHR 0xBB, CHR 0xA5, CHR 0x20, CHR 0x32, CHR 0x33, CHR 0xEF, CHR 0xBC,
     CHR 0x8C, CHR 0xE5, CHR 0xB9, CHR 0xB6, CHR 0xE7, CHR 0xBB, CHR 0x99, CHR 0xE5, CHR 0x87, CHR 0xBA, CHR 0xE6, CHR 0x9C,
     CHR 0x80, CHR 0xE7, CHR 0xBB, CHR 0x88, CHR 0xE7, CHR 0xAD, CHR 0x94, CHR 0xE6, CHR 0xA1, CHR 0x88, CHR 0xE3, CHR 0x80,
     CHR 0x82]"

definition nonce_prompt :: "string \<Rightarrow> string" where
  "nonce_prompt nonce = ''Call gateway_compat_probe with nonce exactly '' @ nonce @ ''.''"

text \<open>The policy of the upstream, where the executor has one, on a route without a profile.\<close>

fun strips_on_unprobed_route :: "nonstandard_field_policy \<Rightarrow> bool" where
  "strips_on_unprobed_route ForwardFields = False"
| "strips_on_unprobed_route _ = True"

definition pt_strips :: "'n probe_transport \<Rightarrow> bool" where
  "pt_strips tp = is_some_and (pt_strip_policy tp) strips_on_unprobed_route"

definition normalize_probe_chat_body :: "'n probe_transport \<Rightarrow> 'n json \<Rightarrow> 'n json" where
  "normalize_probe_chat_body tp body =
    (let normalized = normalize_chat_payload_for_upstream_compatibility (pt_model tp) (pt_strips tp) body
     in case Option.bind (json_get body ''reasoning_effort'') as_str of
          Some effort \<Rightarrow> on_object (bt_insert ''reasoning_effort'' (JString effort)) normalized
        | None \<Rightarrow> normalized)"

definition post_chat :: "'n probe_transport \<Rightarrow> 'n json \<Rightarrow> (nat \<times> 'n json) option" where
  "post_chat tp body = pt_post tp ''/v1/chat/completions'' (normalize_probe_chat_body tp body)"

definition post_chat_unmodified :: "'n probe_transport \<Rightarrow> 'n json \<Rightarrow> (nat \<times> 'n json) option" where
  "post_chat_unmodified tp body = pt_post tp ''/v1/chat/completions'' body"

definition post_responses :: "'n probe_transport \<Rightarrow> 'n json \<Rightarrow> (nat \<times> 'n json) option" where
  "post_responses tp body = pt_post tp ''/v1/responses'' body"

definition post_stream ::
  "'n json_ops \<Rightarrow> 'n probe_transport \<Rightarrow> 'n json \<Rightarrow> string \<Rightarrow> upstream_protocol \<Rightarrow> (probe_stream_summary \<Rightarrow> bool)
   \<Rightarrow> probe_sse_response option outcome_or_panic" where
  "post_stream ops tp body path protocol' early_stop =
    (case pt_stream tp path body of
       None \<Rightarrow> Inr None
     | Some (status, content_length, chunks) \<Rightarrow>
         bind_ok (probe_stream_response ops protocol' early_stop status content_length chunks) (\<lambda>response. Inr (Some response)))"

definition post_responses_stream :: "'n json_ops \<Rightarrow> 'n probe_transport \<Rightarrow> 'n json \<Rightarrow> probe_sse_response option outcome_or_panic" where
  "post_responses_stream ops tp body = post_stream ops tp body ''/v1/responses'' ProtoResponses (\<lambda>_. False)"

definition post_chat_stream :: "'n json_ops \<Rightarrow> 'n probe_transport \<Rightarrow> 'n json \<Rightarrow> probe_sse_response option outcome_or_panic" where
  "post_chat_stream ops tp body =
    post_stream ops tp (normalize_probe_chat_body tp body) ''/v1/chat/completions'' ProtoChatCompletions (\<lambda>_. False)"

definition with_response :: "'r option outcome_or_panic \<Rightarrow> ('r \<Rightarrow> io_verdict) \<Rightarrow> io_verdict" where
  "with_response r f = bind_ok r (\<lambda>response. case response of None \<Rightarrow> Inr None | Some x \<Rightarrow> f x)"

text \<open>The request of one text turn.\<close>

definition text_request :: "'n probe_transport \<Rightarrow> bool \<Rightarrow> 'n json_map" where
  "text_request tp stream =
    json_object
      (if pt_protocol tp = Responses
       then [(''model'', JString (pt_model tp)), (''input'', JString probe_input_prompt), (''stream'', JBool stream)]
       else [(''model'', JString (pt_model tp)),
             (''messages'', JArray [JObject (json_object [(''role'', JString ''user''), (''content'', JString probe_input_prompt)])]),
             (''stream'', JBool stream)])"

definition include_usage :: "bool \<Rightarrow> 'n json" where
  "include_usage wanted = JObject (json_object [(''include_usage'', JBool wanted)])"

definition stream_verdict :: "string \<Rightarrow> string \<Rightarrow> (probe_sse_response \<Rightarrow> bool) \<Rightarrow> probe_sse_response \<Rightarrow> probe_case_verdict" where
  "stream_verdict supported_code rejected_code shows_it response =
    (case operational_verdict response of
       Some verdict \<Rightarrow> verdict
     | None \<Rightarrow>
         if pq_saw_done response \<and> shows_it response then VerdictSupported supported_code
         else VerdictRejected rejected_code (Some (pq_status response)))"

definition probe_minimal_text :: "'n json_ops \<Rightarrow> 'n probe_transport \<Rightarrow> bool \<Rightarrow> io_verdict" where
  "probe_minimal_text ops tp stream =
    (if stream
     then with_response
       (if pt_protocol tp = Responses then post_responses_stream ops tp (JObject (text_request tp True))
        else post_chat_stream ops tp (JObject (bt_insert ''stream_options'' (include_usage False) (text_request tp True))))
       (\<lambda>response. Inr (Some
          (if operational_verdict response = None \<and> pq_status response \<noteq> 200
           then verdict_for_status (pq_status response) ''minimal_text_stream'' ''minimal_text_stream_rejected'' ''minimal_text_stream_failed''
           else stream_verdict ''minimal_text_stream'' ''minimal_text_stream_incomplete'' pq_saw_text_delta response)))
     else with_response
       (Inr (if pt_protocol tp = Responses then post_responses tp (JObject (text_request tp False))
             else post_chat tp (JObject (text_request tp False))))
       (\<lambda>(status, body). Inr (Some
          (if status \<noteq> 200 then verdict_for_status status ''minimal_text'' ''minimal_text_rejected'' ''minimal_text_failed''
           else if (if pt_protocol tp = Responses then responses_has_usable_output body else chat_has_usable_output body)
           then VerdictSupported ''minimal_text''
           else if has_explicit_zero_output_tokens ops body then VerdictRejected ''minimal_text_nonstream_empty'' (Some status)
           else VerdictUnobserved ''minimal_text_nonstream_empty_unobserved'' (Some status)))))"

definition nonce_tool :: "'n json_map" where
  "nonce_tool = json_object
    [(''name'', JString ''gateway_compat_probe''), (''description'', JString ''compat probe''),
     (''parameters'', JObject (json_object
        [(''type'', JString ''object''), (''properties'', JObject (json_object [(''nonce'', JObject (json_object [(''type'', JString ''string'')]))])),
         (''required'', JArray [JString ''nonce''])]))]"

definition tool_request :: "'n probe_transport \<Rightarrow> string \<Rightarrow> 'n json_map" where
  "tool_request tp prompt =
    json_object
      (if pt_protocol tp = Responses
       then [(''model'', JString (pt_model tp)), (''input'', JString (prompt)),
             (''tools'', JArray [JObject (bt_insert ''type'' (JString ''function'') nonce_tool)])]
       else [(''model'', JString (pt_model tp)),
             (''messages'', JArray [JObject (json_object [(''role'', JString ''user''), (''content'', JString (prompt))])]),
             (''tools'', JArray [JObject (json_object [(''type'', JString ''function''), (''function'', JObject nonce_tool)])])])"

definition nonce_request :: "'n probe_transport \<Rightarrow> string \<Rightarrow> 'n json_map" where
  "nonce_request tp nonce = tool_request tp (nonce_prompt nonce)"

text \<open>The first call of a response, as its name, identifier and arguments.\<close>

definition first_call :: "wire_protocol \<Rightarrow> 'n json \<Rightarrow> ('n json \<times> 'n json \<times> 'n json) option" where
  "first_call p body =
    (if p = Responses
     then map_option (\<lambda>call. (json_index call ''name'', json_index call ''call_id'', json_index call ''arguments''))
            (List.find (\<lambda>item. json_index item ''type'' = JString ''function_call'') (items_of (json_index body ''output'')))
     else map_option (\<lambda>call. (json_index (json_index call ''function'') ''name'', json_index call ''id'',
                              json_index (json_index call ''function'') ''arguments''))
            (case items_of (json_index (json_index (first_item (json_index body ''choices'')) ''message'') ''tool_calls'') of
               call # _ \<Rightarrow> Some call | [] \<Rightarrow> None))"

definition call_carries_nonce :: "'n json_ops \<Rightarrow> string \<Rightarrow> 'n json \<times> 'n json \<times> 'n json \<Rightarrow> bool" where
  "call_carries_nonce ops nonce = (\<lambda>(name, call_id, arguments).
    name = JString ''gateway_compat_probe'' \<and> non_empty_str call_id
    \<and> json_index (unwrap_or (jo_from_str ops (unwrap_or (as_str arguments) [])) JNull) ''nonce'' = JString nonce)"

definition probe_function_tools :: "'n json_ops \<Rightarrow> 'n probe_transport \<Rightarrow> io_verdict" where
  "probe_function_tools ops tp =
    with_response (Inr (if pt_protocol tp = Responses then post_responses tp (JObject (nonce_request tp ''n-17''))
                        else post_chat tp (JObject (nonce_request tp ''n-17''))))
      (\<lambda>(status, body). Inr (Some
         (if status \<noteq> 200 then verdict_for_status status ''function_tools'' ''function_tools_rejected'' ''function_tools_failed''
          else case first_call (pt_protocol tp) body of
                 None \<Rightarrow> VerdictUnobserved ''function_tools_missing_call'' (Some status)
               | Some call \<Rightarrow>
                   if call_carries_nonce ops ''n-17'' call then VerdictSupported ''function_tools''
                   else VerdictRejected ''function_tools_invalid_call'' (Some status))))"

definition tool_choice :: "wire_protocol \<Rightarrow> 'n json" where
  "tool_choice p =
    JObject (json_object
      (if p = Responses then [(''type'', JString ''function''), (''name'', JString ''gateway_compat_probe'')]
       else [(''type'', JString ''function''), (''function'', JObject (json_object [(''name'', JString ''gateway_compat_probe'')]))]))"

text \<open>
  Selection reads the arguments as a text that parses, where the plain tool case takes a missing text as
  the empty one; both end in Null when there is nothing to parse, as the empty text is no JSON.
\<close>

definition selected_call_carries_nonce :: "'n json_ops \<Rightarrow> string \<Rightarrow> 'n json \<times> 'n json \<times> 'n json \<Rightarrow> bool" where
  "selected_call_carries_nonce ops nonce = (\<lambda>(name, call_id, arguments).
    as_str name = Some ''gateway_compat_probe'' \<and> non_empty_str call_id
    \<and> json_index (unwrap_or (Option.bind (as_str arguments) (jo_from_str ops)) JNull) ''nonce'' = JString nonce)"

definition probe_function_selection :: "'n json_ops \<Rightarrow> 'n probe_transport \<Rightarrow> io_verdict" where
  "probe_function_selection ops tp =
    (let request = JObject (bt_insert ''tool_choice'' (tool_choice (pt_protocol tp)) (nonce_request tp ''n-17''))
     in with_response (Inr (if pt_protocol tp = Responses then post_responses tp request else post_chat tp request))
      (\<lambda>(status, body). Inr (Some
         (if status \<noteq> 200
          then verdict_for_status status ''forced_tool_selected'' ''forced_tool_choice_rejected'' ''function_selection_failed''
          else if is_some_and (first_call (pt_protocol tp) body) (selected_call_carries_nonce ops ''n-17'')
          then VerdictSupported ''forced_tool_selected''
          else VerdictRejected ''forced_tool_not_selected'' (Some status)))))"

definition probe_indexed_tool_arguments :: "'n json_ops \<Rightarrow> 'n probe_transport \<Rightarrow> io_verdict" where
  "probe_indexed_tool_arguments ops tp =
    (let request = JObject (bt_insert ''stream'' (JBool True) (nonce_request tp ''n-17''))
     in with_response (if pt_protocol tp = Responses then post_responses_stream ops tp request else post_chat_stream ops tp request)
      (\<lambda>response. Inr (Some (stream_verdict ''indexed_tool_arguments'' ''indexed_tool_arguments_missing''
         (\<lambda>r. has_valid_tool_argument_probe ops (map snd (pq_tool_calls r)) ''n-17'') response))))"

definition probe_usage_stream :: "'n json_ops \<Rightarrow> 'n probe_transport \<Rightarrow> io_verdict" where
  "probe_usage_stream ops tp =
    with_response
      (if pt_protocol tp = Responses then post_responses_stream ops tp (JObject (text_request tp True))
       else post_chat_stream ops tp (JObject (bt_insert ''stream_options'' (include_usage True) (text_request tp True))))
      (\<lambda>response. Inr (Some (stream_verdict ''usage_stream'' ''usage_stream_missing_usage'' pq_saw_usage response)))"

definition plain_tool :: "string \<Rightarrow> string \<Rightarrow> 'n json" where
  "plain_tool name description =
    JObject (json_object [(''type'', JString ''function''), (''function'', JObject (json_object
      [(''name'', JString name), (''description'', JString description),
       (''parameters'', JObject (json_object [(''type'', JString ''object'')]))]))])"

definition parallel_request :: "'n probe_transport \<Rightarrow> 'n json" where
  "parallel_request tp =
    JObject (json_object
      [(''model'', JString (pt_model tp)),
       (''messages'', JArray [JObject (json_object [(''role'', JString ''user''), (''content'', JString ''Call both tools in one turn.'')])]),
       (''parallel_tool_calls'', JBool True),
       (''tools'', JArray [plain_tool ''gateway_compat_probe'' ''compat probe 1'', plain_tool ''gateway_compat_probe_2'' ''compat probe 2''])])"

definition probe_parallel_tools :: "'n probe_transport \<Rightarrow> io_verdict" where
  "probe_parallel_tools tp =
    with_response (Inr (post_chat tp (parallel_request tp)))
      (\<lambda>(status, body). Inr (Some
         (if status \<noteq> 200 then VerdictUnobserved ''parallel_tools_failed'' (Some status)
          else if length (items_of (json_index (json_index (first_item (json_index body ''choices'')) ''message'') ''tool_calls'')) \<ge> 2
          then VerdictSupported ''parallel_tools''
          else VerdictRejected ''parallel_tools_single_call'' (Some status))))"

definition token_limit_request :: "'n json_ops \<Rightarrow> 'n probe_transport \<Rightarrow> token_limit_field \<Rightarrow> nat \<Rightarrow> 'n json" where
  "token_limit_request ops tp field output_token_cap =
    JObject (case request_field field of
               Some key \<Rightarrow> bt_insert key (JNumber (jo_number ops (of_nat output_token_cap))) (text_request tp False)
             | None \<Rightarrow> text_request tp False)"

definition probe_token_limit :: "'n json_ops \<Rightarrow> 'n probe_transport \<Rightarrow> token_limit_field \<Rightarrow> nat \<Rightarrow> io_verdict" where
  "probe_token_limit ops tp field output_token_cap =
    (let request = token_limit_request ops tp field output_token_cap
     in with_response (Inr (if pt_protocol tp = Responses then post_responses tp request else post_chat tp request))
      (\<lambda>(status, _). Inr (Some (verdict_for_status status ''token_limit_accepted'' ''token_limit_rejected'' ''token_limit_failed''))))"

definition put_control :: "'n probe_transport \<Rightarrow> string \<Rightarrow> 'n json \<Rightarrow> 'n json_map \<Rightarrow> 'n json" where
  "put_control tp field v body =
    JObject (if pt_protocol tp = Responses \<and> field = ''reasoning_effort''
             then bt_insert ''reasoning'' (JObject (json_object [(''effort'', v)])) body
             else bt_insert field v body)"

definition control_verdict :: "nat \<Rightarrow> probe_case_verdict" where
  "control_verdict status =
    verdict_for_status status ''reasoning_control_accepted'' ''reasoning_control_rejected'' ''reasoning_control_failed''"

definition probe_reasoning_control :: "'n probe_ops \<Rightarrow> 'n probe_transport \<Rightarrow> string \<Rightarrow> 'n json \<Rightarrow> io_verdict" where
  "probe_reasoning_control ops tp field v =
    with_response
      (if pt_protocol tp = Responses
       then post_stream (pr_json ops) tp (put_control tp field v (text_request tp True)) ''/v1/responses'' ProtoResponses ss_saw_reasoning_delta
       else post_stream (pr_json ops) tp
         (normalize_probe_chat_body tp (put_control tp field v (bt_insert ''stream_options'' (include_usage True) (text_request tp True))))
         ''/v1/chat/completions'' ProtoChatCompletions ss_saw_reasoning_delta)
      (\<lambda>response.
         if pq_saw_reasoning_delta response then Inr (Some (VerdictSupported ''reasoning_control_accepted''))
         else if pq_status response = 400 \<or> pq_status response = 200 \<and> \<not> pq_saw_done response
         then with_response
           (Inr (if pt_protocol tp = Responses then post_responses tp (put_control tp field v (text_request tp False))
                 else post_chat tp (put_control tp field v (text_request tp False))))
           (\<lambda>(status, body). Inr (Some
              (if status = 200
               then if reasoning_response_has_evidence ops body then VerdictSupported ''reasoning_control_accepted''
                    else VerdictRejected ''reasoning_control_ignored'' (Some 200)
               else control_verdict status)))
         else Inr (Some
           (if pq_status response = 200 then VerdictRejected ''reasoning_control_ignored'' (Some 200)
            else control_verdict (pq_status response))))"

definition probe_declarative :: "'n probe_ops \<Rightarrow> 'n probe_transport \<Rightarrow> 'n declarative_probe_case \<Rightarrow> io_verdict" where
  "probe_declarative ops tp c =
    (let request = merge_json_object (JObject (text_request tp False)) (pc_request_patch c)
     in with_response (Inr (if pt_protocol tp = Responses then post_responses tp request else post_chat_unmodified tp request))
      (\<lambda>(status, body). Inr (Some
         (if status \<noteq> 200
          then verdict_for_status status ''extension_probe_supported'' ''extension_probe_rejected'' ''extension_probe_failed''
          else if response_predicate_matches ops body (pc_response_predicate c) then VerdictSupported ''extension_probe_supported''
          else VerdictRejected ''extension_probe_predicate_failed'' (Some status)))))"

text \<open>
  The continuation of a tool call: the model has to compute the nonce before it calls the tool, and the call
  is answered in a second turn that carries the reasoning of the first one along.
\<close>

definition continuation_prompt :: string where
  "continuation_prompt =
    ''First compute 94 * 7 exactly, then call gateway_compat_probe with the exact result as the nonce string.''"

definition tool_result :: string where
  "tool_result = [CHR ''{'', CHR 0x22] @ ''nonce'' @ [CHR 0x22, CHR '':'', CHR 0x22] @ ''658''
     @ [CHR 0x22, CHR '','', CHR 0x22] @ ''ok'' @ [CHR 0x22] @ '':true}''"

definition continuation_request :: "'n probe_transport \<Rightarrow> 'n reasoning_trigger option \<Rightarrow> 'n json" where
  "continuation_request tp trigger =
    (case trigger of
       Some t \<Rightarrow> put_control tp (tr_field t) (tr_value t) (tool_request tp continuation_prompt)
     | None \<Rightarrow> JObject (tool_request tp continuation_prompt))"

definition replayed_items :: "'n json \<Rightarrow> 'n json list" where
  "replayed_items body =
    filter (\<lambda>item. as_str (json_index item ''type'') \<in> {Some ''reasoning'', Some ''function_call''})
      (items_of (json_index body ''output''))"

definition responses_second_turn :: "'n probe_transport \<Rightarrow> 'n json \<Rightarrow> 'n json \<Rightarrow> 'n json" where
  "responses_second_turn tp body call_id =
    JObject (bt_insert ''input'' (JArray (replayed_items body @ [JObject (json_object
        [(''type'', JString ''function_call_output''), (''call_id'', call_id), (''output'', JString tool_result)])]))
      (tool_request tp continuation_prompt))"

definition carrier_rejection :: "reasoning_carrier option \<Rightarrow> 'n json \<Rightarrow> string option" where
  "carrier_rejection carrier body =
    (case carrier of
       None \<Rightarrow> None
     | Some c \<Rightarrow>
         if c \<noteq> ResponsesReasoningItem then Some ''reasoning_replay_carrier_mismatch''
         else if \<not> list_ex (\<lambda>item. json_index item ''type'' = JString ''reasoning'') (items_of (json_index body ''output''))
         then Some ''reasoning_replay_missing'' else None)"

definition chat_reasoning :: "'n json \<Rightarrow> string" where
  "chat_reasoning body =
    unwrap_or (as_str (json_index (json_index (first_item (json_index body ''choices'')) ''message'') ''reasoning_content'')) []"

definition assistant_turn :: "reasoning_carrier option \<Rightarrow> 'n json \<Rightarrow> 'n json" where
  "assistant_turn carrier body =
    JObject (let turn = json_object [(''role'', JString ''assistant''), (''content'', JString []),
                 (''tool_calls'', JArray [first_item (json_index (json_index (first_item (json_index body ''choices'')) ''message'') ''tool_calls'')])]
             in if carrier = Some ReasoningContent \<and> chat_reasoning body \<noteq> []
                then bt_insert ''reasoning_content'' (JString (chat_reasoning body)) turn else turn)"

definition chat_second_turn :: "'n probe_transport \<Rightarrow> reasoning_carrier option \<Rightarrow> 'n json \<Rightarrow> 'n json \<Rightarrow> 'n json" where
  "chat_second_turn tp carrier body call_id =
    JObject (json_object
      [(''model'', JString (pt_model tp)),
       (''messages'', JArray
          [JObject (json_object [(''role'', JString ''user''), (''content'', JString ''compat probe'')]),
           assistant_turn carrier body,
           JObject (json_object [(''role'', JString ''tool''), (''tool_call_id'', call_id), (''content'', JString tool_result)])])])"

definition responses_continuation ::
  "'n probe_transport \<Rightarrow> reasoning_carrier option \<Rightarrow> nat \<Rightarrow> 'n json \<Rightarrow> 'n json \<Rightarrow> io_verdict" where
  "responses_continuation tp carrier status body call_id =
    (case carrier_rejection carrier body of
       Some code \<Rightarrow> Inr (Some (VerdictRejected code (Some status)))
     | None \<Rightarrow>
         with_response (Inr (post_responses tp (responses_second_turn tp body call_id)))
           (\<lambda>(second, answer). Inr (Some
              (if second = 200 \<and> responses_has_output_text answer then VerdictSupported ''tool_continuation_ok''
               else VerdictRejected ''tool_continuation_failed'' (Some second)))))"

definition chat_continuation ::
  "'n probe_transport \<Rightarrow> reasoning_carrier option \<Rightarrow> nat \<Rightarrow> 'n json \<Rightarrow> 'n json \<Rightarrow> io_verdict" where
  "chat_continuation tp carrier status body call_id =
    (if carrier = Some ReasoningContent \<and> chat_reasoning body = []
     then Inr (Some (VerdictRejected ''reasoning_replay_missing'' (Some status)))
     else with_response (Inr (post_chat tp (chat_second_turn tp carrier body call_id)))
       (\<lambda>(second, _). Inr (Some
          (if second = 200 then VerdictSupported ''tool_continuation_ok''
           else VerdictRejected ''tool_continuation_failed'' (Some second)))))"

definition probe_tool_continuation ::
  "'n json_ops \<Rightarrow> 'n probe_transport \<Rightarrow> reasoning_carrier option \<Rightarrow> 'n reasoning_trigger option \<Rightarrow> io_verdict" where
  "probe_tool_continuation ops tp carrier trigger =
    with_response (Inr (if pt_protocol tp = Responses then post_responses tp (continuation_request tp trigger)
                        else post_chat tp (continuation_request tp trigger)))
      (\<lambda>(status, body).
         if status \<noteq> 200 then Inr (Some (VerdictUnobserved ''tool_continuation_failed'' (Some status)))
         else case first_call (pt_protocol tp) body of
                None \<Rightarrow> Inr (Some (VerdictUnobserved ''tool_continuation_missing_call'' (Some status)))
              | Some call \<Rightarrow>
                  if \<not> call_carries_nonce ops ''658'' call
                  then Inr (Some (VerdictRejected ''tool_continuation_invalid_call'' (Some status)))
                  else if pt_protocol tp = Responses then responses_continuation tp carrier status body (fst (snd call))
                  else chat_continuation tp carrier status body (fst (snd call)))"

text \<open>The image cases: the route has to name what an image shows.\<close>

datatype image_probe_contract = DominantColor | GenericLabel

definition data_url_image_fixture :: string where
  "data_url_image_fixture = ''data:image/png;base64,''
     @ ''iVBORw0KGgoAAAANSUhEUgAAACAAAAAgCAIAAAD8GO2jAAAAMElEQVR42mP4T2PAMGoB''
     @ ''aRYwMFAHjVowasGoBaMWjFowasGoBaMWDHULRpuOA2EBAHmBeOr2sW6XAAAAAElFTkSuQmCC''"

definition data_url_image_expected_label :: string where
  "data_url_image_expected_label = ''red''"

fun image_prompt :: "image_probe_contract \<Rightarrow> string" where
  "image_prompt DominantColor = ''Inspect the actual image and report its dominant color via the probe tool. ''
     @ ''Set label to one of the lowercase values allowed by the tool schema.''"
| "image_prompt GenericLabel = ''Inspect the actual image and report one concise label that best describes its ''
     @ ''visible content via the probe tool.''"

fun image_tool_description :: "image_probe_contract \<Rightarrow> string" where
  "image_tool_description DominantColor = ''Report the dominant color observed in the actual image.''"
| "image_tool_description GenericLabel = ''Report a concise label derived from the actual image content.''"

fun label_schema :: "image_probe_contract \<Rightarrow> 'n json" where
  "label_schema DominantColor = JObject (json_object
     [(''type'', JString ''string''),
      (''description'', JString ''The dominant color visible in the actual image, expressed as a lowercase label.''),
      (''enum'', JArray (map JString [''red'', ''green'', ''blue'', ''black'', ''white'']))])"
| "label_schema GenericLabel = JObject (json_object
     [(''type'', JString ''string''),
      (''description'', JString ''A concise label derived only from the actual image content.'')])"

definition label_tool :: "image_probe_contract \<Rightarrow> 'n json_map" where
  "label_tool contract = json_object
    [(''name'', JString ''gateway_compat_probe''), (''description'', JString (image_tool_description contract)),
     (''parameters'', JObject (json_object
        [(''type'', JString ''object''), (''properties'', JObject (json_object [(''label'', label_schema contract)])),
         (''required'', JArray [JString ''label'']), (''additionalProperties'', JBool False)]))]"

definition image_request :: "'n probe_transport \<Rightarrow> image_probe_contract \<Rightarrow> string \<Rightarrow> 'n json" where
  "image_request tp contract url =
    JObject (json_object
      (if pt_protocol tp = Responses
       then [(''model'', JString (pt_model tp)),
             (''input'', JArray [JObject (json_object [(''role'', JString ''user''), (''content'', JArray
                [JObject (json_object [(''type'', JString ''input_text''), (''text'', JString (image_prompt contract))]),
                 JObject (json_object [(''type'', JString ''input_image''), (''image_url'', JString url)])])])]),
             (''tool_choice'', tool_choice Responses),
             (''tools'', JArray [JObject (bt_insert ''type'' (JString ''function'') (label_tool contract))])]
       else [(''model'', JString (pt_model tp)),
             (''messages'', JArray [JObject (json_object [(''role'', JString ''user''), (''content'', JArray
                [JObject (json_object [(''type'', JString ''text''), (''text'', JString (image_prompt contract))]),
                 JObject (json_object [(''type'', JString ''image_url''), (''image_url'', JObject (json_object [(''url'', JString url)]))])])])]),
             (''tool_choice'', tool_choice ChatCompletions),
             (''tools'', JArray [JObject (json_object [(''type'', JString ''function''), (''function'', JObject (label_tool contract))])])]))"

text \<open>Of a Responses call the identifier has to be a text, of a chat call it is not looked at.\<close>

definition call_carries_label :: "'n json_ops \<Rightarrow> wire_protocol \<Rightarrow> string \<Rightarrow> 'n json \<times> 'n json \<times> 'n json \<Rightarrow> bool" where
  "call_carries_label ops p label = (\<lambda>(name, call_id, arguments).
    name = JString ''gateway_compat_probe'' \<and> (p = Responses \<longrightarrow> as_str call_id \<noteq> None)
    \<and> json_index (unwrap_or (jo_from_str ops (unwrap_or (as_str arguments) [])) JNull) ''label'' = JString label)"

definition probe_image ::
  "'n json_ops \<Rightarrow> 'n probe_transport \<Rightarrow> string \<Rightarrow> string \<Rightarrow> string \<Rightarrow> image_probe_contract \<Rightarrow> io_verdict" where
  "probe_image ops tp url expected_label evidence_prefix contract =
    with_response (Inr (if pt_protocol tp = Responses then post_responses tp (image_request tp contract url)
                        else post_chat tp (image_request tp contract url)))
      (\<lambda>(status, body). Inr (Some
         (if status \<noteq> 200 then VerdictUnobserved (evidence_prefix @ ''_failed'') (Some status)
          else case first_call (pt_protocol tp) body of
                 None \<Rightarrow> VerdictRejected (evidence_prefix @ ''_missing_tool'') (Some status)
               | Some call \<Rightarrow>
                   if call_carries_label ops (pt_protocol tp) expected_label call then VerdictSupported evidence_prefix
                   else VerdictRejected (evidence_prefix @ ''_unrecognized'') (Some status))))"

definition run_case :: "'n probe_ops \<Rightarrow> 'n probe_transport \<Rightarrow> 'n core_probe_case \<Rightarrow> nat \<Rightarrow> io_verdict" where
  "run_case ops tp c output_token_cap =
    (case c of
       MinimalText stream \<Rightarrow> probe_minimal_text (pr_json ops) tp stream
     | FunctionToolsCase \<Rightarrow> probe_function_tools (pr_json ops) tp
     | FunctionSelection \<Rightarrow> probe_function_selection (pr_json ops) tp
     | IndexedToolArguments \<Rightarrow> probe_indexed_tool_arguments (pr_json ops) tp
     | UsageStreamCase \<Rightarrow> probe_usage_stream (pr_json ops) tp
     | ParallelToolsCase \<Rightarrow> probe_parallel_tools tp
     | TokenLimitCase field \<Rightarrow> probe_token_limit (pr_json ops) tp field output_token_cap
     | ReasoningControlCase field v \<Rightarrow> probe_reasoning_control ops tp field v
     | Declarative d \<Rightarrow> probe_declarative ops tp d
     | ToolContinuationCase carrier trigger \<Rightarrow> probe_tool_continuation (pr_json ops) tp carrier trigger
     | ImageDataUrlCase \<Rightarrow>
         probe_image (pr_json ops) tp data_url_image_fixture data_url_image_expected_label ''image_data_url'' DominantColor
     | ImageHttpsCase url expected_label \<Rightarrow> probe_image (pr_json ops) tp url expected_label ''image_https'' GenericLabel
     | RestrictedResponses \<Rightarrow> Inr (Some (VerdictRejected ''restricted_responses_unverified'' None)))"

end
