(* ===== verification/Probe_Case_Properties.thy ===== *)
theory Probe_Case_Properties
  imports Probe_Cases
begin

text \<open>
  What the cases of a probe establish: the predicates of extensions, the assembly of streamed arguments, the
  streams a case counts as support, the agreement of the probe with the gateway on empty responses, two
  requests that do not test what their case is named for, and what support of reasoning replay rests on.
\<close>

section \<open>Event sequences\<close>

lemma event_sequence_fold:
  "n \<le> length expected \<Longrightarrow> fold (event_step expected) events n = length expected \<longleftrightarrow> subseq (drop n expected) events"
proof (induction events arbitrary: n)
  case Nil
  then show ?case by (cases "drop n expected") auto
next
  case (Cons e events)
  show ?case
  proof (cases "n < length expected \<and> expected ! n = e")
    case True
    then have "drop n expected = e # drop (Suc n) expected" by (metis Cons_nth_drop_Suc)
    then show ?thesis using True Cons.IH [of "Suc n"] by (simp add: event_step_def)
  next
    case False
    show ?thesis
    proof (cases "n < length expected")
      case True
      then have "drop n expected = expected ! n # drop (Suc n) expected" by (metis Cons_nth_drop_Suc)
      then show ?thesis using False True Cons.IH [of n] Cons.prems by (simp add: event_step_def)
    next
      case False
      then show ?thesis using Cons.IH [of n] Cons.prems by (simp add: event_step_def)
    qed
  qed
qed

text \<open>
  The predicate on event sequences accepts a response exactly when the expected events occur in it in
  their order, with anything between them: the single pass over the events finds them whenever they are there.
\<close>

theorem event_sequence_is_subsequence:
  assumes "rp_operator predicate = EventSequence" "rp_value predicate = Some (JArray expected)"
    "pr_pointer ops body (rp_path predicate) = Some (JArray events)"
  shows "response_predicate_matches ops body predicate \<longleftrightarrow> subseq expected events"
  using event_sequence_fold [of 0 expected events] assms by (simp add: response_predicate_matches_def)

theorem event_sequence_is_subsequence_witness:
  "response_predicate_matches \<lparr>pr_json = \<lparr>jo_from_str = (\<lambda>_. None), jo_as_u64 = (\<lambda>_. None), jo_number = (\<lambda>_. ())\<rparr>,
      pr_pointer = json_get\<rparr> (JObject [(''e'', JArray [JNull, JBool True, JNull])])
      \<lparr>rp_path = ''e'', rp_operator = EventSequence, rp_value = Some (JArray [JNull, JNull])\<rparr>"
  by (subst event_sequence_is_subsequence [where expected = "[JNull, JNull]" and events = "[JNull, JBool True, JNull]"]) simp_all

section \<open>Arguments of streamed calls\<close>

text \<open>The fragments of an event: the calls that name an index.\<close>

definition fragments :: "'n json_ops \<Rightarrow> 'n json \<Rightarrow> (64 word \<times> 'n json) list" where
  "fragments ops event =
    List.map_filter (\<lambda>call. map_option (\<lambda>index. (index, call)) (as_u64 ops (json_index call ''index''))) (chat_tool_calls event)"

lemma observe_as_updates:
  "observe_chat_tool_arguments ops event calls
    = fold (btree.update_at tool_probe_default) (map (\<lambda>(index, call). (index, chat_fragment call)) (fragments ops event)) calls"
proof -
  have "fold (\<lambda>call calls. case as_u64 ops (json_index call ''index'') of
                         None \<Rightarrow> calls
                       | Some index \<Rightarrow> bt_insert index (chat_fragment call (bt_entry tool_probe_default index calls)) calls) cs calls
    = fold (btree.update_at tool_probe_default) (map (\<lambda>(index, call). (index, chat_fragment call))
        (List.map_filter (\<lambda>call. map_option (\<lambda>index. (index, call)) (as_u64 ops (json_index call ''index''))) cs)) calls"
    for cs :: "'a json list"
    by (induction cs arbitrary: calls)
      (auto simp: List.map_filter_simps btree.update_at_def split: option.split)
  then show ?thesis by (simp add: observe_chat_tool_arguments_def fragments_def)
qed

definition fragment_arguments :: "'n json \<Rightarrow> string" where
  "fragment_arguments call = unwrap_or (as_str (json_index (json_index call ''function'') ''arguments'')) []"

lemma fragments_fold:
  "ta_arguments (fold (\<lambda>(_, f). f) (map (\<lambda>(index, call). (index, chat_fragment call)) fs) p)
      = ta_arguments p @ concat (map (fragment_arguments \<circ> snd) fs)"
  "ta_has_call_id (fold (\<lambda>(_, f). f) (map (\<lambda>(index, call). (index, chat_fragment call)) fs) p)
      = (ta_has_call_id p \<or> list_ex (\<lambda>(_, call). non_empty_str (json_index call ''id'')) fs)"
  by (induction fs arbitrary: p) (auto simp: chat_fragment_def fragment_arguments_def)

lemma observe_events:
  "fold (observe_chat_tool_arguments ops) events calls
    = fold (btree.update_at tool_probe_default)
        (map (\<lambda>(index, call). (index, chat_fragment call)) (concat (map (fragments ops) events))) calls"
  by (induction events arbitrary: calls) (simp_all add: observe_as_updates)

text \<open>
  However a route interleaves and cuts the arguments of its tool calls, the probe assembles for every
  index exactly the pieces sent for it, in their order, and knows whether one of them carried an identifier.
\<close>

theorem probe_arguments_assembled:
  "let p = bt_entry tool_probe_default index (fold (observe_chat_tool_arguments ops) events []);
       mine = filter (\<lambda>(i, _). i = index) (concat (map (fragments ops) events))
   in ta_arguments p = concat (map (fragment_arguments \<circ> snd) mine)
     \<and> (ta_has_call_id p \<longleftrightarrow> list_ex (\<lambda>(_, call). non_empty_str (json_index call ''id'')) mine)"
proof -
  let ?fs = "concat (map (fragments ops) events)"
  have mine: "filter (\<lambda>(k', _). k' = index) (map (\<lambda>(index, call). (index, chat_fragment call)) ?fs)
      = map (\<lambda>(index, call). (index, chat_fragment call)) (filter (\<lambda>(i, _). i = index) ?fs)"
    by (simp add: filter_map comp_def split_def)
  have "bt_entry tool_probe_default index (fold (observe_chat_tool_arguments ops) events [])
    = fold (\<lambda>(_, f). f) (map (\<lambda>(index, call). (index, chat_fragment call)) (filter (\<lambda>(i, _). i = index) ?fs)) tool_probe_default"
    unfolding observe_events using btree.entry_fold_updates [of tool_probe_default index _ "[]"] mine
    by (simp add: bt_entry_def [of _ _ "[]"])
  then show ?thesis unfolding Let_def by (simp add: fragments_fold tool_probe_default_def)
qed

section \<open>Support needs a complete stream\<close>

lemma stream_verdict_supported:
  "stream_verdict yes no shows_it response = VerdictSupported code \<longleftrightarrow>
    pq_operational_code response = None \<and> pq_saw_done response \<and> shows_it response \<and> code = yes"
  by (auto simp: stream_verdict_def operational_verdict_def split: option.split)

definition conclusive_when_done :: "probe_sse_response \<Rightarrow> bool" where
  "conclusive_when_done r = (pq_saw_done r \<longrightarrow> pq_operational_code r = None)"

lemma sse_responses [simp]:
  "conclusive_when_done (sse_empty status)" "conclusive_when_done (sse_operational status code)"
  "conclusive_when_done (sse_from_summary status saw s)" "conclusive_when_done (sse_complete status p s)"
  "conclusive_when_done (sse_incomplete status s)" "conclusive_when_done (sse_early_stopped status s)"
  by (simp_all add: conclusive_when_done_def sse_empty_def sse_operational_def sse_from_summary_def sse_complete_def
      sse_incomplete_def sse_early_stopped_def)

lemma read_probe_stream_conclusive:
  "read_probe_stream ops p early_stop status s a chunks = Inr r \<Longrightarrow> conclusive_when_done r"
proof (induction chunks arbitrary: s a)
  case Nil
  obtain q s1 where q: "finish_observing ops (summary_observe ops p) s a = Inr (q, s1)"
    using Nil by (cases "finish_observing ops (summary_observe ops p) s a") auto
  show ?case using Nil by (cases q) (auto simp: q split: if_splits)
next
  case (Cons c chunks)
  show ?case
  proof (cases c)
    case (Some bytes)
    then obtain q s1 a1 where step: "push_observing ops (summary_observe ops p) bytes s a = Inr (q, s1, a1)"
      and r: "(if early_stop s1 then Inr (sse_early_stopped status s1)
           else case q of
                  Inr (Complete _) \<Rightarrow> Inr (sse_complete status p s1)
                | Inr Pending \<Rightarrow> read_probe_stream ops p early_stop status s1 a1 chunks
                | Inl e \<Rightarrow> Inr (if stream_error_is_incomplete e then sse_incomplete status s1
                               else sse_operational status ''probe_stream_invalid'')) = Inr r"
      using Cons.prems by (auto simp: bind_ok_Inr_iff)
    show ?thesis using r Cons.IH [of s1 a1] by (auto split: if_splits sum.splits stream_aggregate_result.splits)
  qed (use Cons.prems in auto)
qed

lemma operational_is_unobserved:
  "stream_verdict yes no shows_it (sse_operational status code)
    = VerdictUnobserved code (if stream_http_status_is_operational status then Some status else None)"
  by (simp add: stream_verdict_def operational_verdict_def sse_operational_def sse_empty_def)

section \<open>Empty responses\<close>

definition billed :: "'n json_ops \<Rightarrow> 'n json \<Rightarrow> bool" where
  "billed ops body = list_ex (\<lambda>field. unwrap_or (Option.bind (json_get (unwrap_or (json_get body ''usage'') JNull) field) (as_u64 ops)) 0 \<noteq> 0)
    [''completion_tokens'', ''output_tokens'']"

text \<open>
  Probe and gateway agree on what an empty answer is: a chat answer that the probe takes as support is
  never treated as an empty success by the gateway, and one without usable output is, unless the route
  billed tokens for it; the same holds of Responses answers.
\<close>

theorem probe_agrees_on_empty_answers:
  "(json_get body ''choices'' = Some (JArray choices) \<longrightarrow>
      is_empty_success_response ops body = (\<not> chat_has_usable_output body \<and> \<not> billed ops body))
    \<and> (Option.bind (json_get body ''choices'') as_array = None \<and> json_get body ''output'' = Some (JArray output) \<longrightarrow>
      is_empty_success_response ops body = (\<not> responses_has_usable_output body \<and> \<not> billed ops body))"
  by (auto simp: is_empty_success_response_def chat_has_usable_output_def responses_has_usable_output_def billed_def
      items_of_def json_index_def Let_def)

theorem probe_agrees_on_empty_answers_witness:
  "is_empty_success_response \<lparr>jo_from_str = (\<lambda>_. None), jo_as_u64 = (\<lambda>_. None), jo_number = (\<lambda>_. ())\<rparr>
      (JObject [(''choices'', JArray [])])"
proof -
  let ?ops = "\<lparr>jo_from_str = (\<lambda>_. None), jo_as_u64 = (\<lambda>_. None), jo_number = (\<lambda>_. ())\<rparr> :: unit json_ops"
  show ?thesis
    using probe_agrees_on_empty_answers [of "JObject [(''choices'', JArray [])]" "[]" ?ops "[]"]
    by (simp add: chat_has_usable_output_def items_of_def json_index_def billed_def)
qed

section \<open>Requests that miss their point\<close>

lemma lookup_probe_body:
  "k \<noteq> ''reasoning_effort'' \<Longrightarrow> json_get (normalize_probe_chat_body tp (JObject m)) k = map_of (compatible_members (pt_model tp) (pt_strips tp) m) k"
  by (auto simp: normalize_probe_chat_body_def compatible_object map_of_bt_insert Let_def split: option.split)


definition sample_transport :: "unit probe_transport" where
  "sample_transport = \<lparr>pt_protocol = ChatCompletions, pt_model = ''m'', pt_strip_policy = Some AutoPolicy, pt_post = (\<lambda>_ _. None), pt_stream = (\<lambda>_ _. None)\<rparr>"


lemma text_request_lookup:
  "map_of (text_request tp stream) k
    = (if k = ''model'' then Some (JString (pt_model tp))
       else if k = ''stream'' then Some (JBool stream)
       else if pt_protocol tp = Responses \<and> k = ''input'' then Some (JString probe_input_prompt)
       else if pt_protocol tp \<noteq> Responses \<and> k = ''messages''
       then Some (JArray [JObject (json_object [(''role'', JString ''user''), (''content'', JString probe_input_prompt)])]) else None)"
  unfolding text_request_def json_object_def by (simp add: map_of_bt_insert)

lemma chat_text_request:
  "pt_protocol tp \<noteq> Responses \<Longrightarrow> text_request tp stream
    = [(''messages'', JArray [JObject (json_object [(''role'', JString ''user''), (''content'', JString probe_input_prompt)])]),
       (''model'', JString (pt_model tp)), (''stream'', JBool stream)]"
  by (simp add: text_request_def json_object_def)

lemma delete_absent: "map_of m k = None \<Longrightarrow> AList.delete k m = m"
  by (simp add: map_of_eq_None_iff)

lemma remove_keys_absent: "\<forall>k\<in>set ks. map_of m k = None \<Longrightarrow> remove_keys ks m = m"
  by (induction ks) (simp_all add: remove_keys_def delete_absent)

lemma compatible_plain:
  assumes "\<forall>k\<in>set service_fields \<union> {''metadata'', ''user'', ''parallel_tool_calls'', ''stream_options'', ''reasoning_effort''}. map_of m k = None"
  shows "compatible_members model strip m = unify_token_limit m"
proof -
  have "remove_keys service_fields m = m" "remove_keys [''metadata'', ''user'', ''parallel_tool_calls''] m = m"
    by (rule remove_keys_absent; use assms in simp)+
  moreover have "strip_stream_options m = m" using assms by (simp add: strip_stream_options_def delete_absent)
  moreover have "normalize_effort_member model m = m" using assms by (simp add: normalize_effort_member_def)
  ultimately show ?thesis
    by (simp add: compatible_members_def normalize_chat_payload_for_upstream_compatibility_def Let_def)
qed

lemma limit_request_members:
  assumes "pt_protocol tp \<noteq> Responses" "request_field field = Some key"
  shows "normalize_probe_chat_body tp (token_limit_request ops tp field cap)
    = JObject (unify_token_limit (bt_insert key (JNumber (jo_number ops (of_nat cap))) (text_request tp False)))"
proof -
  let ?m = "bt_insert key (JNumber (jo_number ops (of_nat cap))) (text_request tp False)"
  have key: "key \<in> {''max_tokens'', ''max_completion_tokens'', ''max_output_tokens''}" using assms(2) by (cases field) auto
  have none: "map_of ?m k = None" if "k \<notin> {''max_tokens'', ''max_completion_tokens'', ''max_output_tokens'', ''messages'', ''model'', ''stream''}" for k
    using that key assms(1) by (auto simp: map_of_bt_insert text_request_lookup)
  have "compatible_members model strip ?m = unify_token_limit ?m" for model strip
    by (rule compatible_plain) (use none in \<open>auto simp: service_fields_def\<close>)
  moreover have "map_of ?m ''reasoning_effort'' = None" by (rule none) simp
  ultimately show ?thesis
    by (simp add: normalize_probe_chat_body_def token_limit_request_def assms(2) compatible_object Let_def)
qed

text \<open>
  A chat route is probed for the limit \<open>max_output_tokens\<close> with a request in which the same normalisation
  has renamed the field to \<open>max_tokens\<close>: the case sends what the case for \<open>max_tokens\<close> sends and ends in the same
  verdict, so that a route which takes only \<open>max_tokens\<close> is recorded as taking \<open>max_output_tokens\<close>.
\<close>

theorem token_limit_probe_misattributed:
  assumes "pt_protocol tp \<noteq> Responses"
  shows "probe_token_limit ops tp MaxOutputTokens cap = probe_token_limit ops tp MaxTokens cap
    \<and> json_get (normalize_probe_chat_body tp (token_limit_request ops tp MaxOutputTokens cap)) ''max_output_tokens'' = None"
proof -
  define v where "v = JNumber (jo_number ops (of_nat cap))"
  have "unify_token_limit (bt_insert ''max_output_tokens'' v (text_request tp False)) = unify_token_limit (bt_insert ''max_tokens'' v (text_request tp False))"
    unfolding chat_text_request [OF assms] by (simp add: unify_token_limit_def)
  then have same: "normalize_probe_chat_body tp (token_limit_request ops tp MaxOutputTokens cap)
      = normalize_probe_chat_body tp (token_limit_request ops tp MaxTokens cap)"
    using limit_request_members [OF assms, of MaxOutputTokens] limit_request_members [OF assms, of MaxTokens] by (simp flip: v_def)
  moreover have "json_get (normalize_probe_chat_body tp (token_limit_request ops tp MaxTokens cap)) ''max_output_tokens'' = None"
    using limit_request_members [OF assms, of MaxTokens]
    by (simp add: lookup_unify token_fields_def limit_field_def map_of_bt_insert)
  ultimately show ?thesis using assms by (simp add: probe_token_limit_def post_chat_def)
qed

theorem token_limit_probe_misattributed_witness:
  "json_get (normalize_probe_chat_body sample_transport (token_limit_request
      \<lparr>jo_from_str = (\<lambda>_. None), jo_as_u64 = (\<lambda>_. None), jo_number = (\<lambda>_. ())\<rparr> sample_transport MaxOutputTokens 64)) ''max_output_tokens'' = None"
proof -
  have "pt_protocol sample_transport \<noteq> Responses" by (simp add: sample_transport_def)
  then show ?thesis using token_limit_probe_misattributed by blast
qed

section \<open>Support of reasoning replay\<close>

text \<open>A request that hands the reasoning of a first answer back to the route.\<close>

definition replays_reasoning :: "wire_protocol \<Rightarrow> 'n json \<Rightarrow> 'n json \<Rightarrow> bool" where
  "replays_reasoning p first request =
    (if p = Responses
     then (let thoughts = filter (\<lambda>item. json_index item ''type'' = JString ''reasoning'') (items_of (json_index first ''output''))
           in thoughts \<noteq> [] \<and> set thoughts \<subseteq> set (items_of (json_index request ''input'')))
     else chat_reasoning first \<noteq> []
       \<and> list_ex (\<lambda>turn. json_get turn ''reasoning_content'' = Some (JString (chat_reasoning first))) (items_of (json_index request ''messages'')))"

lemma assistant_turn_reasoning:
  "chat_reasoning body \<noteq> [] \<Longrightarrow>
    json_get (assistant_turn (Some ReasoningContent) body) ''reasoning_content'' = Some (JString (chat_reasoning body))"
  by (simp add: assistant_turn_def map_of_bt_insert Let_def)

lemma chat_second_turn_replays:
  assumes "pt_protocol tp \<noteq> Responses" "chat_reasoning body \<noteq> []"
  shows "replays_reasoning (pt_protocol tp) body (normalize_probe_chat_body tp (chat_second_turn tp (Some ReasoningContent) body call_id))"
proof -
  have "json_get (normalize_probe_chat_body tp (chat_second_turn tp (Some ReasoningContent) body call_id)) ''messages''
      = json_get (chat_second_turn tp (Some ReasoningContent) body call_id) ''messages''"
    unfolding chat_second_turn_def
    by (subst lookup_probe_body) (simp_all add: lookup_compatible token_fields_def service_fields_def)
  then show ?thesis using assms
    by (simp add: replays_reasoning_def json_index_def chat_second_turn_def json_object_def items_of_def assistant_turn_reasoning)
qed

lemma responses_second_turn_replays:
  assumes "pt_protocol tp = Responses" "carrier_rejection (Some ResponsesReasoningItem) body = None"
  shows "replays_reasoning (pt_protocol tp) body (responses_second_turn tp body call_id)"
  using assms
  by (auto simp: replays_reasoning_def carrier_rejection_def responses_second_turn_def replayed_items_def json_index_def
      map_of_bt_insert items_of_def list_ex_iff filter_empty_conv split: if_splits)

text \<open>
  C21. A route is credited with replaying reasoning only when it did: its first answer carried reasoning in the
  carrier of the protocol, the second request handed that reasoning back, and the route accepted it.
\<close>

theorem replay_support_means_replayed:
  assumes "probe_tool_continuation ops tp (Some carrier) trigger = Inr (Some (VerdictSupported code))" "carrier_fits (pt_protocol tp) carrier"
  shows "\<exists>path first request answer.
    pt_post tp path (if pt_protocol tp = Responses then continuation_request tp trigger
                     else normalize_probe_chat_body tp (continuation_request tp trigger)) = Some (200, first)
    \<and> replays_reasoning (pt_protocol tp) first request \<and> pt_post tp path request = Some (200, answer)"
proof (cases "pt_protocol tp = Responses")
  case True
  then have carrier: "carrier = ResponsesReasoningItem" using assms(2) by (simp add: carrier_fits_def)
  obtain first call where first: "post_responses tp (continuation_request tp trigger) = Some (200, first)"
    and verdict: "responses_continuation tp (Some carrier) 200 first (fst (snd call)) = Inr (Some (VerdictSupported code))"
    using assms(1) True by (auto simp: probe_tool_continuation_def with_response_def split: option.splits if_splits)
  obtain answer where ok: "carrier_rejection (Some carrier) first = None"
    and second: "post_responses tp (responses_second_turn tp first (fst (snd call))) = Some (200, answer)"
    using verdict by (auto simp: responses_continuation_def with_response_def split: option.splits if_splits)
  have "replays_reasoning (pt_protocol tp) first (responses_second_turn tp first (fst (snd call)))"
    using responses_second_turn_replays [OF True] ok carrier by simp
  then show ?thesis using True first second unfolding post_responses_def by (simp, blast)
next
  case False
  then have carrier: "carrier = ReasoningContent" using assms(2) by (cases "pt_protocol tp") (simp_all add: carrier_fits_def)
  obtain first call where first: "post_chat tp (continuation_request tp trigger) = Some (200, first)"
    and verdict: "chat_continuation tp (Some carrier) 200 first (fst (snd call)) = Inr (Some (VerdictSupported code))"
    using assms(1) False by (auto simp: probe_tool_continuation_def with_response_def split: option.splits if_splits)
  obtain answer where ok: "chat_reasoning first \<noteq> []"
    and second: "post_chat tp (chat_second_turn tp (Some carrier) first (fst (snd call))) = Some (200, answer)"
    using verdict carrier by (auto simp: chat_continuation_def with_response_def split: option.splits if_splits)
  have "replays_reasoning (pt_protocol tp) first (normalize_probe_chat_body tp (chat_second_turn tp (Some carrier) first (fst (snd call))))"
    using chat_second_turn_replays [OF False ok] carrier by simp
  then show ?thesis using False first second unfolding post_chat_def by (simp, blast)
qed

definition replaying_transport :: "unit probe_transport" where
  "replaying_transport =
    \<lparr>pt_protocol = ChatCompletions, pt_model = ''m'', pt_strip_policy = Some AutoPolicy,
     pt_post = (\<lambda>_ _. Some (200, JObject [(''choices'', JArray [JObject [(''message'', JObject
       [(''reasoning_content'', JString ''94 * 7''),
        (''tool_calls'', JArray [JObject [(''function'', JObject [(''arguments'', JString ''a''), (''name'', JString ''gateway_compat_probe'')]),
           (''id'', JString ''c'')]])])]])])),
     pt_stream = (\<lambda>_ _. None)\<rparr>"

theorem replay_support_means_replayed_witness:
  "\<exists>path first request answer.
    pt_post replaying_transport path (if pt_protocol replaying_transport = Responses then continuation_request replaying_transport None
       else normalize_probe_chat_body replaying_transport (continuation_request replaying_transport None)) = Some (200, first)
    \<and> replays_reasoning (pt_protocol replaying_transport) first request \<and> pt_post replaying_transport path request = Some (200, answer)"
proof -
  define ops :: "unit json_ops" where
    "ops = \<lparr>jo_from_str = (\<lambda>_. Some (JObject [(''nonce'', JString ''658'')])), jo_as_u64 = (\<lambda>_. None), jo_number = (\<lambda>_. ())\<rparr>"
  have "probe_tool_continuation ops replaying_transport (Some ReasoningContent) None = Inr (Some (VerdictSupported ''tool_continuation_ok''))"
    by (simp add: probe_tool_continuation_def with_response_def post_chat_def replaying_transport_def first_call_def items_of_def
        json_index_def first_item_def call_carries_nonce_def non_empty_str_def ops_def chat_continuation_def chat_reasoning_def)
  then show ?thesis
    by (rule replay_support_means_replayed) (simp add: carrier_fits_def replaying_transport_def)
qed

end
