(* ===== verification/Content_Adapters.thy ===== *)
theory Content_Adapters
  imports Request_Compat
begin

text \<open>
  Adapters for parts of a message: images between the three wire formats
  (\<open>src/src/protocol/image_adapter.rs\<close>), reasoning items (\<open>src/src/protocol/reasoning_adapter.rs\<close>) and
  the signatures the gateway puts on the thinking it hands to a client
  (\<open>src/src/server/gateway/thinking_signature.rs\<close>). The keyed hash and the base64 alphabet belong to
  libraries and are parameters.
\<close>

section \<open>Images\<close>

datatype image_source = HttpsUrl string | DataUrl string | NativeFile string

record image_part =
  ip_source :: image_source
  ip_detail :: "string option"

record 'n image_adaptation =
  ia_value :: "'n json"
  ia_downgrade :: "string option"

text \<open>\<open>str::strip_prefix\<close> and \<open>str::split_once\<close> with a string.\<close>

definition strip_prefix_str :: "string \<Rightarrow> string \<Rightarrow> string option" where
  "strip_prefix_str pattern s = (if prefix pattern s then Some (drop (length pattern) s) else None)"

fun split_once_str :: "string \<Rightarrow> string \<Rightarrow> (string \<times> string) option" where
  "split_once_str pattern [] = (if pattern = [] then Some ([], []) else None)"
| "split_once_str pattern (x # xs) =
    (if prefix pattern (x # xs) then Some ([], drop (length pattern) (x # xs))
     else map_option (\<lambda>(a, b). (x # a, b)) (split_once_str pattern xs))"

definition ok_or :: "'e \<Rightarrow> 'a option \<Rightarrow> 'e + 'a" where
  "ok_or e v = (case v of Some x \<Rightarrow> Inr x | None \<Rightarrow> Inl e)"

definition parse_data_url :: "string \<Rightarrow> protocol_error + (string \<times> string)" where
  "parse_data_url s =
    bind_ok (ok_or UnsupportedImageSource (strip_prefix_str ''data:'' s)) (\<lambda>rest.
    bind_ok (ok_or UnsupportedImageSource (split_once_str '';base64,'' rest)) (\<lambda>(media, data).
      if \<not> prefix ''image/'' media \<or> data = [] then Inl UnsupportedImageSource else Inr (media, data)))"

definition classify_url :: "string \<Rightarrow> protocol_error + image_source" where
  "classify_url s =
    (if prefix ''https://'' s then Inr (HttpsUrl s)
     else if prefix ''data:'' s then bind_ok (parse_data_url s) (\<lambda>_. Inr (DataUrl s))
     else Inl UnsupportedImageSource)"

definition image_url :: "image_dialect \<Rightarrow> image_part \<Rightarrow> protocol_error + string" where
  "image_url dialect img =
    (case ip_source img of
       HttpsUrl s \<Rightarrow> if im_https_url dialect then Inr s else Inl UnsupportedImageSource
     | DataUrl s \<Rightarrow> if im_data_url dialect then Inr s else Inl UnsupportedImageSource
     | NativeFile _ \<Rightarrow> Inl UnsupportedImageSource)"

definition put_detail :: "image_dialect \<Rightarrow> string option \<Rightarrow> 'n json_map \<Rightarrow> 'n json_map \<times> string option" where
  "put_detail dialect detail members =
    (case detail of
       None \<Rightarrow> (members, None)
     | Some d \<Rightarrow> if im_detail dialect then (bt_insert ''detail'' (JString d) members, None)
                 else (members, Some ''optional_image_detail''))"

definition emit_chat_image :: "image_dialect \<Rightarrow> image_part \<Rightarrow> protocol_error + 'n image_adaptation" where
  "emit_chat_image dialect img =
    bind_ok (image_url dialect img) (\<lambda>url.
      let (nested, downgrade) = put_detail dialect (ip_detail img) (json_object [(''url'', JString url)])
      in Inr \<lparr>ia_value = JObject (json_object [(''type'', JString ''image_url''), (''image_url'', JObject nested)]), ia_downgrade = downgrade\<rparr>)"

definition emit_responses_image :: "image_dialect \<Rightarrow> image_part \<Rightarrow> protocol_error + 'n image_adaptation" where
  "emit_responses_image dialect img =
    bind_ok (image_url dialect img) (\<lambda>url.
      let (members, downgrade) = put_detail dialect (ip_detail img)
            (json_object [(''type'', JString ''input_image''), (''image_url'', JString url)])
      in Inr \<lparr>ia_value = JObject members, ia_downgrade = downgrade\<rparr>)"

definition str_member :: "string \<Rightarrow> 'n json_map \<Rightarrow> protocol_error + string" where
  "str_member name members = ok_or (MissingField name) (Option.bind (map_of members name) as_str)"

definition messages_image_to_chat_part :: "'n json \<Rightarrow> image_dialect \<Rightarrow> protocol_error + 'n image_adaptation" where
  "messages_image_to_chat_part block dialect =
    bind_ok (ok_or (MissingField ''source'') (Option.bind (json_get block ''source'') as_object)) (\<lambda>source.
    bind_ok
      (if Option.bind (map_of source ''type'') as_str = Some ''url''
       then bind_ok (str_member ''url'' source) (\<lambda>url.
            bind_ok (classify_url url) (\<lambda>classified. Inr \<lparr>ip_source = classified, ip_detail = None\<rparr>))
       else if Option.bind (map_of source ''type'') as_str = Some ''base64''
       then bind_ok (str_member ''media_type'' source) (\<lambda>media.
            bind_ok (str_member ''data'' source) (\<lambda>data.
              let url = ''data:'' @ media @ '';base64,'' @ data
              in bind_ok (parse_data_url url) (\<lambda>_. Inr \<lparr>ip_source = DataUrl url, ip_detail = None\<rparr>)))
       else Inl UnsupportedImageSource)
      (emit_chat_image dialect))"

definition chat_image_to_responses_part :: "'n json \<Rightarrow> image_dialect \<Rightarrow> protocol_error + 'n image_adaptation" where
  "chat_image_to_responses_part part dialect =
    bind_ok (ok_or (MissingField ''image_url'') (json_get part ''image_url'')) (\<lambda>image_url'.
    bind_ok
      (case image_url' of
         JString url \<Rightarrow> Inr (url, None)
       | JObject members \<Rightarrow>
           bind_ok (str_member ''url'' members) (\<lambda>url. Inr (url, Option.bind (map_of members ''detail'') as_str))
       | _ \<Rightarrow> Inl UnsupportedImageSource)
      (\<lambda>(url, detail). bind_ok (classify_url url) (\<lambda>classified.
         emit_responses_image dialect \<lparr>ip_source = classified, ip_detail = detail\<rparr>)))"

definition responses_image_to_chat_part :: "'n json \<Rightarrow> image_dialect \<Rightarrow> protocol_error + 'n image_adaptation" where
  "responses_image_to_chat_part part dialect =
    bind_ok (ok_or (MissingField ''image_url'') (Option.bind (json_get part ''image_url'') as_str)) (\<lambda>url.
    bind_ok (classify_url url) (\<lambda>classified.
      emit_chat_image dialect \<lparr>ip_source = classified, ip_detail = Option.bind (json_get part ''detail'') as_str\<rparr>))"

section \<open>Reasoning items\<close>

definition chat_reasoning_item :: "'n json \<Rightarrow> string \<Rightarrow> reasoning_carrier \<Rightarrow> (reasoning_carrier \<times> 'n json) option" where
  "chat_reasoning_item message item_id carrier =
    (if carrier \<notin> {NoCarrier, ReasoningContent, ResponsesReasoningItem} then None
     else case Option.bind (json_get message ''reasoning_content'') as_str of
            None \<Rightarrow> None
          | Some content \<Rightarrow>
              if content = [] then None
              else Some (ReasoningContent, JObject (json_object
                [(''id'', JString item_id), (''type'', JString ''reasoning''), (''status'', JString ''completed''), (''summary'', JArray []),
                 (''content'', JArray [JObject (json_object [(''type'', JString ''reasoning_text''), (''text'', JString content)])])])))"

fun reasoning_parts :: "'n json list \<Rightarrow> protocol_error + string" where
  "reasoning_parts [] = Inr []"
| "reasoning_parts (part # parts) =
    (if Option.bind (json_get part ''type'') as_str \<noteq> Some ''reasoning_text'' then reasoning_parts parts
     else bind_ok (ok_or (MissingField ''text'') (Option.bind (json_get part ''text'') as_str)) (\<lambda>content.
          bind_ok (reasoning_parts parts) (\<lambda>rest. Inr (content @ rest))))"

definition responses_reasoning_text :: "'n json \<Rightarrow> protocol_error + string option" where
  "responses_reasoning_text item =
    (if Option.bind (json_get item ''type'') as_str \<noteq> Some ''reasoning'' then Inr None
     else bind_ok (ok_or (MissingField ''content'') (Option.bind (json_get item ''content'') as_array)) (\<lambda>content.
          bind_ok (reasoning_parts content) (\<lambda>text'. Inr (Some text'))))"

section \<open>Thinking signatures\<close>

record signature_ops =
  so_hmac :: "string \<Rightarrow> string \<Rightarrow> string"
  so_encode :: "string \<Rightarrow> string"
  so_decode :: "string \<Rightarrow> string option"

record thinking_signature_input =
  ts_thinking :: string
  ts_model :: string
  ts_upstream_id :: string
  ts_protocol :: string
  ts_profile_fingerprint :: string
  ts_call_ids :: "string list"

text \<open>\<open>u64::to_be_bytes\<close> of a length.\<close>

definition to_be_bytes :: "nat \<Rightarrow> string" where
  "to_be_bytes n = map (\<lambda>i. char_of (n div 256 ^ i mod 256)) (rev [0..<8])"

definition len_prefixed :: "string \<Rightarrow> string" where
  "len_prefixed s = to_be_bytes (length s) @ s"

definition route_message :: "thinking_signature_input \<Rightarrow> string" where
  "route_message input = ''chat2responses/claude-thinking-route/v1'' @ [CHR 0x00]
    @ len_prefixed (ts_upstream_id input) @ len_prefixed (ts_protocol input)"

definition thinking_message :: "thinking_signature_input \<Rightarrow> string" where
  "thinking_message input = ''chat2responses/claude-thinking/v1'' @ [CHR 0x00]
    @ concat (map len_prefixed [ts_thinking input, ts_model input, ts_upstream_id input, ts_protocol input, ts_profile_fingerprint input])
    @ to_be_bytes (length (ts_call_ids input)) @ concat (map len_prefixed (ts_call_ids input))"

definition route_binding :: "signature_ops \<Rightarrow> string \<Rightarrow> thinking_signature_input \<Rightarrow> string" where
  "route_binding ops secret input = so_hmac ops secret (route_message input)"

definition thinking_mac :: "signature_ops \<Rightarrow> string \<Rightarrow> thinking_signature_input \<Rightarrow> string" where
  "thinking_mac ops secret input = so_hmac ops secret (thinking_message input)"

definition sign_thinking :: "signature_ops \<Rightarrow> string \<Rightarrow> thinking_signature_input \<Rightarrow> string" where
  "sign_thinking ops secret input =
    ''gw1.'' @ so_encode ops (route_binding ops secret input) @ ''.'' @ so_encode ops (thinking_mac ops secret input)"

definition is_gateway_issued_thinking_signature :: "string \<Rightarrow> bool" where
  "is_gateway_issued_thinking_signature signature = prefix ''gw1.'' signature"

definition verify_thinking :: "signature_ops \<Rightarrow> string \<Rightarrow> thinking_signature_input \<Rightarrow> string \<Rightarrow> bool" where
  "verify_thinking ops secret input signature =
    (case strip_prefix_str ''gw1.'' signature of
       None \<Rightarrow> False
     | Some encoded \<Rightarrow>
         let checked = (\<lambda>encoded_mac. so_decode ops encoded_mac = Some (thinking_mac ops secret input))
         in (case split_on (CHR ''.'') encoded of
               [legacy_mac] \<Rightarrow> checked legacy_mac
             | [encoded_route, encoded_mac] \<Rightarrow>
                 so_decode ops encoded_route = Some (route_binding ops secret input) \<and> checked encoded_mac
             | _ \<Rightarrow> False))"

section \<open>Images keep their source\<close>

definition chat_image :: "string \<Rightarrow> string option \<Rightarrow> 'n json" where
  "chat_image url detail = JObject (json_object [(''type'', JString ''image_url''), (''image_url'',
     JObject (json_object ((''url'', JString url) # (case detail of Some d \<Rightarrow> [(''detail'', JString d)] | None \<Rightarrow> []))))])"

definition responses_image :: "string \<Rightarrow> string option \<Rightarrow> 'n json" where
  "responses_image url detail = JObject (json_object ([(''type'', JString ''input_image''), (''image_url'', JString url)]
     @ (case detail of Some d \<Rightarrow> [(''detail'', JString d)] | None \<Rightarrow> [])))"

text \<open>The sources a dialect takes.\<close>

definition takes_source :: "image_dialect \<Rightarrow> string \<Rightarrow> bool" where
  "takes_source dialect url =
    (prefix ''https://'' url \<and> im_https_url dialect
     \<or> \<not> prefix ''https://'' url \<and> im_data_url dialect \<and> (\<exists>media data. parse_data_url url = Inr (media, data)))"

definition kept_detail :: "image_dialect \<Rightarrow> string option \<Rightarrow> string option" where
  "kept_detail dialect detail = (if im_detail dialect then detail else None)"

definition lost_detail :: "image_dialect \<Rightarrow> string option \<Rightarrow> string option" where
  "lost_detail dialect detail = (if detail \<noteq> None \<and> \<not> im_detail dialect then Some ''optional_image_detail'' else None)"

lemma classified_source:
  "bind_ok (classify_url url) (\<lambda>classified. bind_ok (image_url dialect \<lparr>ip_source = classified, ip_detail = detail\<rparr>) f)
    = (if takes_source dialect url then f url else Inl UnsupportedImageSource)"
proof -
  have "parse_data_url url \<noteq> Inr x \<Longrightarrow> parse_data_url url = Inl UnsupportedImageSource" if "\<nexists>m d. parse_data_url url = Inr (m, d)" for x
    using that by (auto simp: parse_data_url_def ok_or_def split: option.splits if_splits)
  then have bad: "parse_data_url url = Inl UnsupportedImageSource" if "\<nexists>m d. parse_data_url url = Inr (m, d)"
    using that by (cases "parse_data_url url") auto
  have scheme: "prefix ''data:'' url" if "parse_data_url url = Inr x" for x
    using that by (auto simp: parse_data_url_def ok_or_def strip_prefix_str_def split: option.splits if_splits)
  show ?thesis
    using bad scheme
    by (cases "\<exists>m d. parse_data_url url = Inr (m, d)") (auto simp: classify_url_def takes_source_def image_url_def)
qed

lemma put_detail_chat:
  "put_detail dialect detail (json_object [(''url'', JString url)])
    = (json_object ((''url'', JString url) # (case kept_detail dialect detail of Some d \<Rightarrow> [(''detail'', JString d)] | None \<Rightarrow> [])),
       lost_detail dialect detail)"
  by (auto simp: put_detail_def kept_detail_def lost_detail_def json_object_def split: option.split)

lemma put_detail_responses:
  "put_detail dialect detail (json_object [(''type'', JString ''input_image''), (''image_url'', JString url)])
    = (json_object ([(''type'', JString ''input_image''), (''image_url'', JString url)]
         @ (case kept_detail dialect detail of Some d \<Rightarrow> [(''detail'', JString d)] | None \<Rightarrow> [])),
       lost_detail dialect detail)"
  by (auto simp: put_detail_def kept_detail_def lost_detail_def json_object_def split: option.split)

lemma lookup_json_object: "map_of (json_object kvs) k = map_of (rev kvs) k"
proof -
  have "map_of (fold (\<lambda>(k, v). bt_insert k v) kvs m) k = (map_of m ++ map_of (rev kvs)) k" for m :: "'a json_map"
    by (induction kvs arbitrary: m) (auto simp: map_of_bt_insert map_add_def split: option.splits)
  then show ?thesis by (simp add: json_object_def)
qed

lemma chat_to_responses:
  "chat_image_to_responses_part (chat_image url detail) dialect
    = (if takes_source dialect url
       then Inr \<lparr>ia_value = responses_image url (kept_detail dialect detail), ia_downgrade = lost_detail dialect detail\<rparr>
       else Inl UnsupportedImageSource)"
  by (cases detail)
    (simp_all add: chat_image_to_responses_part_def chat_image_def ok_or_def str_member_def lookup_json_object
      emit_responses_image_def classified_source put_detail_responses responses_image_def)

lemma responses_to_chat:
  "responses_image_to_chat_part (responses_image url detail) dialect
    = (if takes_source dialect url
       then Inr \<lparr>ia_value = chat_image url (kept_detail dialect detail), ia_downgrade = lost_detail dialect detail\<rparr>
       else Inl UnsupportedImageSource)"
  by (cases detail)
    (simp_all add: responses_image_to_chat_part_def responses_image_def ok_or_def lookup_json_object emit_chat_image_def
      classified_source put_detail_chat chat_image_def)

text \<open>
  An image of a chat request survives the way to a Responses route and back: the source comes back
  exactly, or both ways refuse it, because a route takes only the sources of its dialect; the detail
  survives where both dialects have it, and each step that drops one reports the downgrade.
\<close>

theorem images_survive_translation:
  "chat_image_to_responses_part (chat_image url detail) d
      = (if takes_source d url
         then Inr \<lparr>ia_value = responses_image url (kept_detail d detail), ia_downgrade = lost_detail d detail\<rparr>
         else Inl UnsupportedImageSource)
    \<and> bind_ok (chat_image_to_responses_part (chat_image url detail) d) (\<lambda>a. responses_image_to_chat_part (ia_value a) d')
      = (if takes_source d url \<and> takes_source d' url
         then Inr \<lparr>ia_value = chat_image url (if im_detail d \<and> im_detail d' then detail else None),
                   ia_downgrade = lost_detail d' (kept_detail d detail)\<rparr>
         else Inl UnsupportedImageSource)"
  by (simp add: chat_to_responses responses_to_chat kept_detail_def)

lemma split_at_pattern: "c \<notin> set media \<Longrightarrow> split_once_str (c # pattern) (media @ (c # pattern) @ data) = Some (media, data)"
proof (induction media)
  case (Cons x media)
  then have "\<not> prefix (c # pattern) ((x # media) @ (c # pattern) @ data)" by auto
  then show ?case using Cons by simp
qed simp

lemma messages_base64:
  assumes "CHR '';'' \<notin> set media"
  shows "messages_image_to_chat_part (JObject (json_object [(''type'', JString ''image''), (''source'',
      JObject (json_object [(''type'', JString ''base64''), (''media_type'', JString media), (''data'', JString data)]))])) d
    = (if prefix ''image/'' media \<and> data \<noteq> [] \<and> im_data_url d
       then Inr \<lparr>ia_value = chat_image (''data:'' @ media @ '';base64,'' @ data) None, ia_downgrade = None\<rparr>
       else Inl UnsupportedImageSource)"
proof -
  have "parse_data_url (''data:'' @ media @ '';base64,'' @ data)
      = (if prefix ''image/'' media \<and> data \<noteq> [] then Inr (media, data) else Inl UnsupportedImageSource)"
    using split_at_pattern [of "CHR '';''" media "''base64,''" data] assms
    by (simp add: parse_data_url_def ok_or_def strip_prefix_str_def)
  then show ?thesis
    by (simp add: messages_image_to_chat_part_def ok_or_def str_member_def lookup_json_object emit_chat_image_def image_url_def
        put_detail_chat chat_image_def kept_detail_def lost_detail_def Let_def)
qed

section \<open>Reasoning comes back\<close>

lemma reasoning_round_trip:
  assumes "chat_reasoning_item message item_id carrier = Some (c, item)"
  shows "c = ReasoningContent \<and> json_get message ''reasoning_content'' = Some (JString content)
    \<longleftrightarrow> responses_reasoning_text item = Inr (Some content)"
  using assms
  by (auto simp: chat_reasoning_item_def responses_reasoning_text_def lookup_json_object ok_or_def bind_eq_Some_conv
      split: if_splits option.splits)

section \<open>Signatures bind what they sign\<close>

lemma div_mod_digits:
  "(\<forall>i<k. n div 256 ^ i mod 256 = m div 256 ^ i mod (256::nat)) \<Longrightarrow> n mod 256 ^ k = m mod 256 ^ k"
proof (induction k)
  case (Suc k)
  then have "n mod 256 ^ k = m mod 256 ^ k" "n div 256 ^ k mod 256 = m div 256 ^ k mod 256" by simp_all
  then show ?case by (simp add: mod_mult2_eq mult.commute [of 256])
qed simp

lemma to_be_bytes_length [simp]: "length (to_be_bytes n) = 8"
  by (simp add: to_be_bytes_def)

lemma to_be_bytes_append: "to_be_bytes n @ s = to_be_bytes m @ t \<longleftrightarrow> to_be_bytes n = to_be_bytes m \<and> s = t"
  by (rule append_eq_append_conv) simp

lemma to_be_bytes_inject:
  assumes "to_be_bytes n = to_be_bytes m" "n < 2 ^ 64" "m < 2 ^ 64"
  shows "n = m"
proof -
  have "n div 256 ^ i mod 256 = m div 256 ^ i mod 256" if "i < 8" for i
  proof -
    have "char_of (n div 256 ^ i mod 256) = (char_of (m div 256 ^ i mod 256) :: char)"
      using assms(1) that by (auto simp: to_be_bytes_def)
    then have "of_char (char_of (n div 256 ^ i mod 256) :: char) = (of_char (char_of (m div 256 ^ i mod 256) :: char) :: nat)" by simp
    then show ?thesis by simp
  qed
  then have "n mod 256 ^ 8 = m mod 256 ^ 8" by (intro div_mod_digits) simp
  then show ?thesis using assms(2,3) by simp
qed

definition fits_u64 :: "string \<Rightarrow> bool" where
  "fits_u64 s = (length s < 2 ^ 64)"

lemma len_prefixed_inject:
  assumes "len_prefixed s @ rest = len_prefixed t @ rest'" "fits_u64 s" "fits_u64 t"
  shows "s = t \<and> rest = rest'"
proof -
  from assms(1) have "to_be_bytes (length s) = to_be_bytes (length t)" "s @ rest = t @ rest'"
    unfolding len_prefixed_def by (simp_all only: append_assoc to_be_bytes_append simp_thms)
  then show ?thesis using to_be_bytes_inject [of "length s" "length t"] assms(2,3) by (simp add: fits_u64_def)
qed

lemma fields_inject:
  assumes "length ss = length ts" "concat (map len_prefixed ss) @ rest = concat (map len_prefixed ts) @ rest'"
    "list_all fits_u64 ss" "list_all fits_u64 ts"
  shows "ss = ts \<and> rest = rest'"
  using assms
proof (induction ss ts rule: list_induct2)
  case (Cons s ss t ts)
  then have "s = t \<and> concat (map len_prefixed ss) @ rest = concat (map len_prefixed ts) @ rest'"
    using len_prefixed_inject [of s "concat (map len_prefixed ss) @ rest" t "concat (map len_prefixed ts) @ rest'"] by simp
  then show ?case using Cons by simp
qed simp

definition signable :: "thinking_signature_input \<Rightarrow> bool" where
  "signable x = (list_all fits_u64 ([ts_thinking x, ts_model x, ts_upstream_id x, ts_protocol x, ts_profile_fingerprint x] @ ts_call_ids x)
    \<and> length (ts_call_ids x) < 2 ^ 64)"

lemma thinking_message_inject:
  assumes "thinking_message x = thinking_message y" "signable x" "signable y"
  shows "x = y"
proof -
  let ?fields = "\<lambda>x. [ts_thinking x, ts_model x, ts_upstream_id x, ts_protocol x, ts_profile_fingerprint x]"
  let ?calls = "\<lambda>x. to_be_bytes (length (ts_call_ids x)) @ concat (map len_prefixed (ts_call_ids x))"
  have "concat (map len_prefixed (?fields x)) @ ?calls x = concat (map len_prefixed (?fields y)) @ ?calls y"
    using assms(1) unfolding thinking_message_def by (simp only: append_assoc same_append_eq)
  then have fields: "?fields x = ?fields y" and calls: "?calls x = ?calls y"
    using fields_inject [of "?fields x" "?fields y" "?calls x" "?calls y"] assms(2,3) by (simp_all add: signable_def)
  from calls have "to_be_bytes (length (ts_call_ids x)) = to_be_bytes (length (ts_call_ids y))"
    and ids: "concat (map len_prefixed (ts_call_ids x)) = concat (map len_prefixed (ts_call_ids y))"
    by (simp_all only: to_be_bytes_append simp_thms)
  then have "length (ts_call_ids x) = length (ts_call_ids y)"
    using to_be_bytes_inject assms(2,3) by (simp add: signable_def)
  then have "ts_call_ids x = ts_call_ids y"
    using fields_inject [of "ts_call_ids x" "ts_call_ids y" "[]" "[]"] ids assms(2,3) by (simp add: signable_def)
  then show ?thesis using fields by (cases x; cases y) simp
qed

lemma split_two: "c \<notin> set a \<Longrightarrow> c \<notin> set b \<Longrightarrow> split_on c (a @ c # b) = [a, b]"
proof -
  assume b: "c \<notin> set b"
  have one: "split_on c b = [b]" using b by (induction b) auto
  assume "c \<notin> set a"
  then show ?thesis by (induction a) (use one in auto)
qed

lemma verify_signed:
  assumes "\<forall>s. so_decode ops (so_encode ops s) = Some s" "\<forall>s. CHR ''.'' \<notin> set (so_encode ops s)"
  shows "verify_thinking ops secret y (sign_thinking ops secret x)
    \<longleftrightarrow> route_binding ops secret x = route_binding ops secret y \<and> thinking_mac ops secret x = thinking_mac ops secret y"
  using split_two [of "CHR ''.''" "so_encode ops (route_binding ops secret x)" "so_encode ops (thinking_mac ops secret x)"] assms
  by (simp add: verify_thinking_def sign_thinking_def strip_prefix_str_def)

text \<open>
  C26. A signature of the gateway is recognised as its own and accepted for the thinking, model, upstream,
  protocol, profile and tool calls it was made for, and for nothing else: the signed message determines
  each of them, however their texts run together, so that another input is accepted only if the keyed hash
  has the same value for two different messages.
\<close>

theorem signature_binds_input:
  assumes decode: "\<forall>s. so_decode ops (so_encode ops s) = Some s" and alphabet: "\<forall>s. CHR ''.'' \<notin> set (so_encode ops s)"
    and "signable x" "signable y"
    and collision_free: "so_hmac ops secret (thinking_message x) = so_hmac ops secret (thinking_message y)
      \<Longrightarrow> thinking_message x = thinking_message y"
  shows "is_gateway_issued_thinking_signature (sign_thinking ops secret x)
    \<and> (verify_thinking ops secret y (sign_thinking ops secret x) \<longleftrightarrow> x = y)"
  using verify_signed [OF decode alphabet, of secret y x] thinking_message_inject [OF _ assms(3,4)] collision_free
  by (auto simp: is_gateway_issued_thinking_signature_def sign_thinking_def thinking_mac_def)

text \<open>A hash and an encoding with the properties used.\<close>

definition escape_dots :: "string \<Rightarrow> string" where
  "escape_dots s = concat (map (\<lambda>c. if c = CHR ''.'' then ''-a'' else if c = CHR ''-'' then ''-b'' else [c]) s)"

fun unescape_dots :: "string \<Rightarrow> string option" where
  "unescape_dots [] = Some []"
| "unescape_dots (c # s) =
    (if c \<noteq> CHR ''-'' then map_option ((#) c) (unescape_dots s)
     else case s of
            d # s' \<Rightarrow> map_option ((#) (if d = CHR ''a'' then CHR ''.'' else CHR ''-'')) (unescape_dots s')
          | [] \<Rightarrow> None)"

definition sample_signature_ops :: signature_ops where
  "sample_signature_ops = \<lparr>so_hmac = (\<lambda>secret message. secret @ message), so_encode = escape_dots, so_decode = unescape_dots\<rparr>"

lemma sample_signature_laws:
  "so_decode sample_signature_ops (so_encode sample_signature_ops s) = Some s" "CHR ''.'' \<notin> set (so_encode sample_signature_ops s)"
  by (induction s) (auto simp: sample_signature_ops_def escape_dots_def)

definition sample_thinking :: "string list \<Rightarrow> thinking_signature_input" where
  "sample_thinking ids = \<lparr>ts_thinking = ''t'', ts_model = ''m'', ts_upstream_id = ''u'', ts_protocol = ''p'',
     ts_profile_fingerprint = ''f'', ts_call_ids = ids\<rparr>"

theorem signature_binds_input_witness:
  "verify_thinking sample_signature_ops ''s'' (sample_thinking [''ab'']) (sign_thinking sample_signature_ops ''s'' (sample_thinking [''ab'']))
    \<and> \<not> verify_thinking sample_signature_ops ''s'' (sample_thinking [''ab'']) (sign_thinking sample_signature_ops ''s'' (sample_thinking [''a'', ''b'']))"
proof -
  have "signable (sample_thinking [''ab''])" "signable (sample_thinking [''a'', ''b''])"
    by (simp_all add: signable_def fits_u64_def sample_thinking_def)
  moreover have "so_hmac sample_signature_ops ''s'' m = so_hmac sample_signature_ops ''s'' m' \<Longrightarrow> m = m'" for m m'
    by (simp add: sample_signature_ops_def)
  ultimately show ?thesis
    using signature_binds_input [of sample_signature_ops, OF _ _ _ _] sample_signature_laws
    by (metis list.inject list.simps(3) thinking_signature_input.select_convs(6) sample_thinking_def)
qed

end
