(* ===== verification/Upstream_Config.thy ===== *)
theory Upstream_Config
  imports Model_Identity Capability_Types Weighted_Routing
begin

text \<open>
  The configuration of an upstream (\<open>UpstreamConfig\<close> of \<open>src/src/state/types.rs\<close> and its operations in
  \<open>src/src/state/normalize.rs\<close>): normalisation before it is stored, validation, and the resolution of the
  models, keys and presets that routing asks for. Looking for the base of a subagent model slices the name
  and panics inside a character, so the operations that do it may panic too.
\<close>

section \<open>Data\<close>

record upstream_model_mapping =
  um_upstream_model :: string
  um_downstream_model :: string

record api_key_model_config =
  ak_api_key :: string
  ak_supported_models :: "string list"

record model_context_config =
  mx_slug :: string
  mx_context_limit :: nat
  mx_output_reserve :: nat
  mx_max_output_tokens :: nat
  mx_context_group :: string

record default_model_context_config =
  dx_context_limit :: nat
  dx_output_reserve :: nat
  dx_max_output_tokens :: nat
  dx_context_group :: string

record upstream_config =
  u_id :: string
  u_name :: string
  u_remark :: string
  u_continuation_provider_group :: "string option"
  u_base_url :: string
  u_api_key :: string
  u_api_keys :: "string list"
  u_api_key_models :: "api_key_model_config list"
  u_protocol :: upstream_protocol
  u_protocols :: "upstream_protocol list"
  u_supported_models :: "string list"
  u_model_mappings :: "upstream_model_mapping list"
  u_model_contexts :: "model_context_config list"
  u_default_model_context :: "default_model_context_config option"
  u_request_quota_window_hours :: nat
  u_request_quota_requests :: nat
  u_requests_per_minute :: nat
  u_max_concurrency :: nat
  u_priority :: nat
  u_weight :: nat
  u_active :: bool
  u_failure_count :: nat
  u_auto_managed :: bool
  u_managed_source :: "string option"
  u_last_synced_at :: nat
  u_strip_nonstandard_chat_fields :: nonstandard_field_policy
  u_dialect_preset :: "string option"
  u_model_dialect_presets :: "(string \<times> string) list"

record downstream_model_entry =
  de_model :: string
  de_from_mapping :: bool

section \<open>Normal forms of lists\<close>

definition parse_upstream_protocol :: "string \<Rightarrow> upstream_protocol" where
  "parse_upstream_protocol s = (if s \<in> {''Responses'', ''responses''} then ProtoResponses else ProtoChatCompletions)"

definition parse_upstream_protocols :: "'n json list \<Rightarrow> upstream_protocol list" where
  "parse_upstream_protocols vs = map parse_upstream_protocol (List.map_filter as_str vs)"

definition dedup_protocols :: "upstream_protocol list \<Rightarrow> upstream_protocol list" where
  "dedup_protocols vs = fold (\<lambda>p normalized. if p \<in> set normalized then normalized else normalized @ [p]) vs []"

fun normalized_strings :: "string set \<Rightarrow> string list \<Rightarrow> string list" where
  "normalized_strings seen [] = []"
| "normalized_strings seen (v # vs) =
    (let s = trim v in
     if s = [] \<or> s \<in> seen then normalized_strings seen vs
     else s # normalized_strings (insert s seen) vs)"

definition normalized_string_list :: "string list \<Rightarrow> string list" where
  "normalized_string_list vs = normalized_strings {} vs"

definition normalized_current_keys :: "string \<Rightarrow> string list \<Rightarrow> string list" where
  "normalized_current_keys api_key api_keys = normalized_string_list (api_key # api_keys)"

text \<open>
  The code remembers the position of each key in the result; a key stands there at most once, so the
  entry at the remembered position is the entry of that key.
\<close>

definition add_key_models :: "string list \<Rightarrow> api_key_model_config \<Rightarrow> api_key_model_config list \<Rightarrow> api_key_model_config list" where
  "add_key_models current_keys v normalized =
    (let api_key = trim (ak_api_key v) in
     if api_key = [] \<or> api_key \<notin> set current_keys then normalized
     else let models = normalized_string_list (ak_supported_models v)
          in if api_key \<in> ak_api_key ` set normalized
             then map (\<lambda>c. if ak_api_key c = api_key
                            then c\<lparr>ak_supported_models := normalized_string_list (ak_supported_models c @ models)\<rparr> else c) normalized
             else normalized @ [\<lparr>ak_api_key = api_key, ak_supported_models = models\<rparr>])"

definition normalized_api_key_models :: "api_key_model_config list \<Rightarrow> string list \<Rightarrow> api_key_model_config list" where
  "normalized_api_key_models vs current_keys =
    (let normalized = fold (add_key_models current_keys) vs []
     in normalized @ map (\<lambda>api_key. \<lparr>ak_api_key = api_key, ak_supported_models = []\<rparr>)
          (filter (\<lambda>api_key. api_key \<notin> ak_api_key ` set normalized) current_keys))"

definition derive_supported_models :: "api_key_model_config list \<Rightarrow> string list" where
  "derive_supported_models key_models = normalized_string_list (concat (map ak_supported_models key_models))"

definition default_model_context_output_reserve :: nat where
  "default_model_context_output_reserve = 2048"

definition bounded_reserve :: "nat \<Rightarrow> nat \<Rightarrow> nat" where
  "bounded_reserve context_limit output_reserve =
    min (if output_reserve = 0 then default_model_context_output_reserve else output_reserve) (max (context_limit - 1) 1)"

fun normalized_contexts :: "string set \<Rightarrow> model_context_config list \<Rightarrow> model_context_config list" where
  "normalized_contexts seen [] = []"
| "normalized_contexts seen (c # cs) =
    (let slug = trim (mx_slug c) in
     if slug = [] \<or> slug \<in> seen then normalized_contexts seen cs
     else let context_limit = max (mx_context_limit c) 2
          in \<lparr>mx_slug = slug, mx_context_limit = context_limit, mx_output_reserve = bounded_reserve context_limit (mx_output_reserve c),
              mx_max_output_tokens = mx_max_output_tokens c, mx_context_group = trim (mx_context_group c)\<rparr>
             # normalized_contexts (insert slug seen) cs)"

definition normalized_model_contexts :: "model_context_config list \<Rightarrow> model_context_config list" where
  "normalized_model_contexts cs = normalized_contexts {} cs"

definition normalized_default_model_context :: "default_model_context_config option \<Rightarrow> default_model_context_config option" where
  "normalized_default_model_context v =
    Option.bind v (\<lambda>c.
      if dx_context_limit c = 0 then None
      else let context_limit = max (dx_context_limit c) 2
           in Some \<lparr>dx_context_limit = context_limit, dx_output_reserve = bounded_reserve context_limit (dx_output_reserve c),
                    dx_max_output_tokens = dx_max_output_tokens c, dx_context_group = trim (dx_context_group c)\<rparr>)"

definition normalized_presets :: "(string \<times> string) list \<Rightarrow> (string \<times> string) list" where
  "normalized_presets presets =
    fold (\<lambda>(pattern, preset). bt_insert pattern preset)
      (filter (\<lambda>(pattern, preset). pattern \<noteq> [] \<and> preset \<noteq> []) (map (\<lambda>(pattern, preset). (trim pattern, trim preset)) presets)) []"

definition trimmed_mapping :: "upstream_model_mapping \<Rightarrow> upstream_model_mapping" where
  "trimmed_mapping m = \<lparr>um_upstream_model = trim (um_upstream_model m), um_downstream_model = trim (um_downstream_model m)\<rparr>"

section \<open>Operations\<close>

definition supported_protocols :: "upstream_config \<Rightarrow> upstream_protocol list" where
  "supported_protocols u = dedup_protocols (if u_protocols u = [] then [u_protocol u] else u_protocols u)"

definition supports_protocol :: "upstream_config \<Rightarrow> upstream_protocol \<Rightarrow> bool" where
  "supports_protocol u p = (p \<in> set (supported_protocols u))"

definition route_models :: "upstream_config \<Rightarrow> string list" where
  "route_models u = normalized_strings {} (u_supported_models u)"

definition available_keys :: "upstream_config \<Rightarrow> string list" where
  "available_keys u = normalized_current_keys (u_api_key u) (u_api_keys u)"

definition account_api_keys :: "upstream_config \<Rightarrow> string list" where
  "account_api_keys u = normalized_strings {} (u_api_key u # u_api_keys u @ map ak_api_key (u_api_key_models u))"

definition normalize_for_storage :: "upstream_config \<Rightarrow> upstream_config" where
  "normalize_for_storage u =
    (let protocols = (if dedup_protocols (u_protocols u) = [] then [u_protocol u] else dedup_protocols (u_protocols u));
         api_key = trim (u_api_key u);
         api_keys = normalized_string_list (u_api_keys u);
         current_keys = normalized_current_keys api_key api_keys;
         key_models = (if u_api_key_models u \<noteq> [] then normalized_api_key_models (u_api_key_models u) current_keys else [])
     in u\<lparr>u_failure_count := 0,
          u_protocols := protocols,
          u_protocol := (case protocols of p # _ \<Rightarrow> p | [] \<Rightarrow> ProtoChatCompletions),
          u_remark := trim (u_remark u),
          u_continuation_provider_group := filter_option (\<lambda>s. s \<noteq> []) (map_option trim (u_continuation_provider_group u)),
          u_api_key := api_key,
          u_api_keys := api_keys,
          u_api_key_models := key_models,
          u_supported_models :=
            (if u_api_key_models u \<noteq> [] then derive_supported_models key_models else normalized_string_list (u_supported_models u)),
          u_model_mappings := map trimmed_mapping (u_model_mappings u),
          u_model_contexts := normalized_model_contexts (u_model_contexts u),
          u_default_model_context := normalized_default_model_context (u_default_model_context u),
          u_model_dialect_presets := normalized_presets (u_model_dialect_presets u)\<rparr>)"

text \<open>\<open>str::trim_end_matches\<close> with a character; \<open>char::is_control\<close> over the encoded text.\<close>

definition trim_end_matches :: "char \<Rightarrow> string \<Rightarrow> string" where
  "trim_end_matches c s = rev (dropWhile (\<lambda>x. x = c) (rev s))"

fun has_control :: "string \<Rightarrow> bool" where
  "has_control [] = False"
| "has_control (c # s) =
    (c < CHR 0x20 \<or> c = CHR 0x7F
     \<or> c = CHR 0xC2 \<and> (case s of d # _ \<Rightarrow> CHR 0x80 \<le> d \<and> d \<le> CHR 0x9F | [] \<Rightarrow> False)
     \<or> has_control s)"

definition dialect_preset_for_model :: "upstream_config \<Rightarrow> string \<Rightarrow> string option" where
  "dialect_preset_for_model u slug =
    (let canonical = canonical_model_id slug;
         exact = List.find (\<lambda>(pattern, _). canonical_model_id (trim pattern) = canonical) (u_model_dialect_presets u);
         wildcard = max_by_key fst (List.map_filter (\<lambda>(pattern, preset).
             let stem = canonical_model_id (trim_end_matches (CHR ''*'') pattern)
             in if stem \<noteq> [] \<and> prefix stem canonical then Some (length stem, preset) else None)
           (filter (\<lambda>(pattern, _). trim_end pattern \<noteq> [] \<and> last (trim_end pattern) = CHR ''*'') (u_model_dialect_presets u)))
     in or_else (map_option snd exact) (or_else (map_option snd wildcard) (u_dialect_preset u)))"

datatype upstream_config_error =
    ZeroMaxConcurrency
  | InvalidProviderGroup
  | EmptyUpstreamModel nat
  | EmptyDownstreamModel nat string
  | UpstreamModelMappedTwice string nat
  | DownstreamModelUsedTwice string nat
  | DownstreamModelCollides string nat string
  | DownstreamModelIsAlias string string

definition named_mappings :: "upstream_config \<Rightarrow> (string \<times> string) list" where
  "named_mappings u =
    filter (\<lambda>(up, down). up \<noteq> [] \<or> down \<noteq> [])
      (map (\<lambda>m. (trim (um_upstream_model m), trim (um_downstream_model m))) (u_model_mappings u))"

fun check_against :: "nat \<Rightarrow> string \<times> string \<Rightarrow> nat \<Rightarrow> (string \<times> string) list \<Rightarrow> upstream_config_error + unit" where
  "check_against index (up, down) other_index [] = Inr ()"
| "check_against index (up, down) other_index ((other_up, other_down) # others) =
    (if index = other_index then check_against index (up, down) (other_index + 1) others
     else if models_equivalent up other_up then Inl (UpstreamModelMappedTwice up other_index)
     else if models_equivalent down other_down then Inl (DownstreamModelUsedTwice down other_index)
     else check_against index (up, down) (other_index + 1) others)"

fun check_each :: "(string \<times> string) list \<Rightarrow> nat \<Rightarrow> (string \<times> string) list \<Rightarrow> upstream_config_error + unit" where
  "check_each mappings index [] = Inr ()"
| "check_each mappings index ((up, down) # rest) =
    (if up = [] then Inl (EmptyUpstreamModel index)
     else if down = [] then Inl (EmptyDownstreamModel index up)
     else bind_ok (check_against index (up, down) 0 mappings) (\<lambda>_. check_each mappings (index + 1) rest))"

fun check_collisions :: "string list \<Rightarrow> string set \<Rightarrow> nat \<Rightarrow> (string \<times> string) list \<Rightarrow> upstream_config_error + unit" where
  "check_collisions models occupied index [] = Inr ()"
| "check_collisions models occupied index ((_, down) # rest) =
    (case List.find (\<lambda>m. canonical_model_id m \<notin> occupied \<and> canonical_model_id m = canonical_model_id down) models of
       Some collision \<Rightarrow> Inl (DownstreamModelCollides down index collision)
     | None \<Rightarrow> check_collisions models occupied (index + 1) rest)"

definition validate_model_mappings :: "upstream_config \<Rightarrow> upstream_config_error + unit" where
  "validate_model_mappings u =
    (let mappings = named_mappings u
     in bind_ok (check_each mappings 0 mappings) (\<lambda>_.
          check_collisions (route_models u) ((canonical_model_id \<circ> fst) ` set mappings) 0 mappings))"

definition validate_configuration :: "upstream_config \<Rightarrow> upstream_config_error + unit" where
  "validate_configuration u =
    (if u_max_concurrency u = 0 then Inl ZeroMaxConcurrency
     else if is_some_and (u_continuation_provider_group u) (\<lambda>s. length s > 128 \<or> has_control s) then Inl InvalidProviderGroup
     else validate_model_mappings u)"

fun check_aliases :: "model_alias_registry \<Rightarrow> upstream_model_mapping list \<Rightarrow> upstream_config_error + unit" where
  "check_aliases registry [] = Inr ()"
| "check_aliases registry (m # ms) =
    (let down = trim (um_downstream_model m) in
     if down = [] then check_aliases registry ms
     else case resolve_alias registry down of
            Some canonical \<Rightarrow> Inl (DownstreamModelIsAlias down canonical)
          | None \<Rightarrow> check_aliases registry ms)"

definition validate_model_mappings_against_aliases :: "model_alias_registry \<Rightarrow> upstream_config \<Rightarrow> upstream_config_error + unit" where
  "validate_model_mappings_against_aliases registry u = check_aliases registry (u_model_mappings u)"

section \<open>Models and keys of a request\<close>

definition mapping_matches :: "bool \<Rightarrow> string \<Rightarrow> upstream_model_mapping \<Rightarrow> bool" where
  "mapping_matches case_insensitive model m =
    (let down = trim (um_downstream_model m)
     in if case_insensitive then models_equivalent_with down model True else down = model)"

definition mapped_model :: "upstream_config \<Rightarrow> string \<Rightarrow> bool \<Rightarrow> string option" where
  "mapped_model u model case_insensitive =
    find_map (\<lambda>m.
      if mapping_matches case_insensitive model m \<and> trim (um_upstream_model m) \<noteq> []
      then find_equivalent_stored (route_models u) (trim (um_upstream_model m)) case_insensitive else None)
      (u_model_mappings u)"

definition occupied :: "upstream_config \<Rightarrow> string set" where
  "occupied u = (\<lambda>m. canonical_model_id (trim (um_upstream_model m))) ` set (u_model_mappings u)"

definition unoccupied_models :: "upstream_config \<Rightarrow> string list" where
  "unoccupied_models u = filter (\<lambda>candidate. canonical_model_id candidate \<notin> occupied u) (route_models u)"

definition canonical_route_model :: "upstream_config \<Rightarrow> string \<Rightarrow> bool \<Rightarrow> string option outcome_or_panic" where
  "canonical_route_model u model0 case_insensitive =
    (let model = trim model0 in
     if model = [] then Inr None
     else case mapped_model u model case_insensitive of
            Some stored \<Rightarrow> Inr (Some stored)
          | None \<Rightarrow>
              if route_models u = []
              then bind_ok (codex_subagent_base_model model) (\<lambda>base. Inr (if base = None then Some model else None))
              else case List.find (\<lambda>candidate. if case_insensitive then models_equivalent_with candidate model True
                                               else trim candidate = model) (unoccupied_models u) of
                     Some candidate \<Rightarrow> Inr (Some candidate)
                   | None \<Rightarrow>
                       bind_ok (codex_subagent_base_model model) (\<lambda>base.
                         case base of
                           None \<Rightarrow> Inr None
                         | Some base_model \<Rightarrow>
                             Inr (List.find (\<lambda>candidate. if case_insensitive then models_equivalent_with candidate base_model True
                                                         else candidate = base_model) (unoccupied_models u))))"

definition supports_model_with :: "upstream_config \<Rightarrow> string \<Rightarrow> bool \<Rightarrow> bool outcome_or_panic" where
  "supports_model_with u model case_insensitive =
    bind_ok (canonical_route_model u model case_insensitive) (\<lambda>stored. Inr (stored \<noteq> None))"

definition resolved_model_name_with :: "upstream_config \<Rightarrow> string \<Rightarrow> bool \<Rightarrow> string option outcome_or_panic" where
  "resolved_model_name_with u model case_insensitive = canonical_route_model u model case_insensitive"

text \<open>\<open>Iterator::any\<close> with a test that may panic.\<close>

fun any_ok :: "('a \<Rightarrow> 'e + bool) \<Rightarrow> 'a list \<Rightarrow> 'e + bool" where
  "any_ok f [] = Inr False"
| "any_ok f (x # xs) = bind_ok (f x) (\<lambda>b. if b then Inr True else any_ok f xs)"

definition key_serves :: "string \<Rightarrow> bool \<Rightarrow> api_key_model_config \<Rightarrow> bool outcome_or_panic" where
  "key_serves model case_insensitive c =
    (if case_insensitive
     then any_ok (\<lambda>candidate.
            if models_equivalent_with candidate model True then Inr True
            else bind_ok (codex_subagent_base_model model) (\<lambda>base.
                   Inr (is_some_and base (\<lambda>b. models_equivalent_with candidate b True)))) (ak_supported_models c)
     else Inr (list_ex (\<lambda>candidate. trim candidate = model) (ak_supported_models c)))"

fun serving_keys :: "string \<Rightarrow> bool \<Rightarrow> string set \<Rightarrow> api_key_model_config list \<Rightarrow> string list \<Rightarrow> string list outcome_or_panic" where
  "serving_keys model case_insensitive current [] keys = Inr keys"
| "serving_keys model case_insensitive current (c # cs) keys =
    bind_ok (key_serves model case_insensitive c) (\<lambda>serves.
      let key = trim (ak_api_key c)
      in serving_keys model case_insensitive current cs
           (if serves \<and> key \<noteq> [] \<and> key \<in> current \<and> key \<notin> set keys then keys @ [key] else keys))"

definition keys_for_model_with :: "upstream_config \<Rightarrow> string \<Rightarrow> bool \<Rightarrow> string list outcome_or_panic" where
  "keys_for_model_with u model0 case_insensitive =
    (let model = trim model0 in
     if u_api_key_models u = [] then Inr (available_keys u)
     else if model = [] then Inr []
     else serving_keys model case_insensitive (set (available_keys u)) (u_api_key_models u) [])"

definition supports_stored_model :: "upstream_config \<Rightarrow> string \<Rightarrow> bool" where
  "supports_stored_model u model0 =
    (let model = trim model0 in model \<noteq> [] \<and> list_ex (\<lambda>stored. models_equivalent_with stored model True) (route_models u))"

definition effective_downstream_models_detailed :: "upstream_config \<Rightarrow> downstream_model_entry list" where
  "effective_downstream_models_detailed u =
    List.map_filter (\<lambda>m.
      let up = trim (um_upstream_model m); down = trim (um_downstream_model m)
      in if up = [] \<or> down = [] \<or> find_equivalent_stored (route_models u) up True = None then None
         else Some \<lparr>de_model = down, de_from_mapping = True\<rparr>) (u_model_mappings u)
    @ map (\<lambda>candidate. \<lparr>de_model = candidate, de_from_mapping = False\<rparr>) (unoccupied_models u)"

definition effective_downstream_models :: "upstream_config \<Rightarrow> string list" where
  "effective_downstream_models u = map de_model (effective_downstream_models_detailed u)"

end
