(* ===== verification/Upstream_Config_Properties.thy ===== *)
theory Upstream_Config_Properties
  imports Upstream_Config
begin

text \<open>
  What holds of a stored upstream: normalising it again changes nothing, every model it lists can be
  routed and has a key, and its model mappings rename exactly the models they name.
\<close>

section \<open>Normal forms\<close>

lemma normalized_strings_props:
  "set (normalized_strings seen vs) = trim ` set vs - insert [] seen"
  "distinct (normalized_strings seen vs)"
  by (induction seen vs rule: normalized_strings.induct) (auto simp: Let_def)

lemma normalized_strings_id:
  "distinct vs \<Longrightarrow> \<forall>v\<in>set vs. trim v = v \<and> v \<noteq> [] \<and> v \<notin> seen \<Longrightarrow> normalized_strings seen vs = vs"
proof (induction vs arbitrary: seen)
  case (Cons v vs)
  then have "normalized_strings (insert v seen) vs = vs" by (intro Cons.IH) auto
  then show ?case using Cons.prems by simp
qed simp

lemma normalized_string_list_props:
  "set (normalized_string_list vs) = trim ` set vs - {[]}" "distinct (normalized_string_list vs)"
  by (simp_all add: normalized_string_list_def normalized_strings_props)

definition normal_strings :: "string list \<Rightarrow> bool" where
  "normal_strings vs = (distinct vs \<and> (\<forall>v\<in>set vs. trim v = v \<and> v \<noteq> []))"

lemma normalized_string_list_normal: "normal_strings (normalized_string_list vs)"
  by (auto simp: normal_strings_def normalized_string_list_props)

lemma normalized_string_list_id: "normal_strings vs \<Longrightarrow> normalized_string_list vs = vs"
  by (auto simp: normalized_string_list_def normal_strings_def intro: normalized_strings_id)

lemma normalized_string_list_idem [simp]: "normalized_string_list (normalized_string_list vs) = normalized_string_list vs"
  by (simp add: normalized_string_list_id normalized_string_list_normal)

lemma current_keys_stable: "normalized_current_keys (trim k) (normalized_string_list ks) = normalized_current_keys k ks"
proof -
  have later: "normalized_strings {k} (normalized_strings {} vs) = normalized_strings {k} vs" if "trim k = k" for k vs
  proof -
    have "normalized_strings seen (normalized_strings seen' vs) = normalized_strings seen vs" if "seen' \<subseteq> seen" for seen seen'
      using that
    proof (induction vs arbitrary: seen seen')
      case (Cons v vs)
      have "normalized_strings seen (normalized_strings seen' vs) = normalized_strings seen vs"
        by (rule Cons.IH [OF Cons.prems])
      moreover have "normalized_strings seen (normalized_strings (insert (trim v) seen') vs) = normalized_strings seen vs" if "trim v \<in> seen"
        by (rule Cons.IH) (use that Cons.prems in simp)
      moreover have "normalized_strings (insert (trim v) seen) (normalized_strings (insert (trim v) seen') vs) = normalized_strings (insert (trim v) seen) vs"
        by (rule Cons.IH) (use Cons.prems in auto)
      ultimately show ?case using Cons.prems by (auto simp: Let_def)
    qed simp
    then show ?thesis by simp
  qed
  show ?thesis
    using later [of "trim k" ks] trim_idem [of k]
    by (cases "trim k = []") (simp_all add: normalized_current_keys_def normalized_string_list_def Let_def
        normalized_string_list_idem [unfolded normalized_string_list_def])
qed

lemma dedup_protocols_props: "set (dedup_protocols vs) = set vs" "distinct (dedup_protocols vs)"
proof -
  have "set (fold (\<lambda>p n. if p \<in> set n then n else n @ [p]) vs acc) = set acc \<union> set vs
    \<and> (distinct acc \<longrightarrow> distinct (fold (\<lambda>p n. if p \<in> set n then n else n @ [p]) vs acc))" for acc :: "upstream_protocol list"
    by (induction vs arbitrary: acc) auto
  then show "set (dedup_protocols vs) = set vs" "distinct (dedup_protocols vs)" by (simp_all add: dedup_protocols_def)
qed

lemma dedup_protocols_id: "distinct vs \<Longrightarrow> dedup_protocols vs = vs"
proof -
  have "distinct (acc @ vs) \<Longrightarrow> fold (\<lambda>p n. if p \<in> set n then n else n @ [p]) vs acc = acc @ vs" for acc :: "upstream_protocol list"
    by (induction vs arbitrary: acc) auto
  then show "distinct vs \<Longrightarrow> ?thesis" by (simp add: dedup_protocols_def)
qed

section \<open>Keys and their models\<close>

text \<open>The entries of the key list once it is normal: one per current key, in any order.\<close>

definition normal_keys :: "string list \<Rightarrow> api_key_model_config list \<Rightarrow> bool" where
  "normal_keys keys cs =
    (distinct (map ak_api_key cs) \<and> ak_api_key ` set cs \<subseteq> set keys \<and> (\<forall>c\<in>set cs. normal_strings (ak_supported_models c)))"

lemma add_key_models_normal:
  assumes "normal_keys keys cs"
  shows "normal_keys keys (add_key_models keys v cs)"
proof -
  have "map ak_api_key (map (\<lambda>c. if ak_api_key c = k then c\<lparr>ak_supported_models := f c\<rparr> else c) cs) = map ak_api_key cs" for k f
    by simp
  then show ?thesis
    using assms normalized_string_list_normal
    by (auto simp: add_key_models_def normal_keys_def Let_def image_iff simp del: map_map)
qed

lemma fold_key_models_normal: "normal_keys keys cs \<Longrightarrow> normal_keys keys (fold (add_key_models keys) vs cs)"
  by (induction vs arbitrary: cs) (simp_all add: add_key_models_normal)

lemma key_models_normal:
  assumes "normal_strings keys"
  shows "normal_keys keys (normalized_api_key_models vs keys)"
    "ak_api_key ` set (normalized_api_key_models vs keys) = set keys"
proof -
  let ?cs = "fold (add_key_models keys) vs []"
  have cs: "normal_keys keys ?cs" by (rule fold_key_models_normal) (simp add: normal_keys_def)
  then show "normal_keys keys (normalized_api_key_models vs keys)"
    using assms by (auto simp: normalized_api_key_models_def normal_keys_def normal_strings_def Let_def comp_def)
  show "ak_api_key ` set (normalized_api_key_models vs keys) = set keys"
    using cs by (auto simp: normalized_api_key_models_def normal_keys_def Let_def image_Un image_image)
qed

lemma fold_key_models_id:
  assumes "normal_keys keys (done' @ cs)" "normal_strings keys"
  shows "fold (add_key_models keys) cs done' = done' @ cs"
  using assms(1)
proof (induction cs arbitrary: done')
  case (Cons c cs)
  then have c: "ak_api_key c \<in> set keys" "ak_api_key c \<notin> ak_api_key ` set done'" "normal_strings (ak_supported_models c)"
    by (auto simp: normal_keys_def)
  then have "trim (ak_api_key c) = ak_api_key c" "ak_api_key c \<noteq> []" using assms(2) by (auto simp: normal_strings_def)
  then have "add_key_models keys c done' = done' @ [c]"
    using c by (simp add: add_key_models_def normalized_string_list_id)
  then show ?case using Cons by simp
qed simp

lemma key_models_id:
  assumes "normal_keys keys cs" "normal_strings keys" "ak_api_key ` set cs = set keys"
  shows "normalized_api_key_models cs keys = cs"
  using fold_key_models_id [of keys "[]" cs] assms by (simp add: normalized_api_key_models_def)

section \<open>Contexts and presets\<close>

lemma bounded_reserve_idem: "bounded_reserve limit (bounded_reserve limit reserve) = bounded_reserve limit reserve"
  by (auto simp: bounded_reserve_def default_model_context_output_reserve_def)

definition normal_context :: "model_context_config \<Rightarrow> bool" where
  "normal_context c = (trim (mx_slug c) = mx_slug c \<and> mx_slug c \<noteq> [] \<and> 2 \<le> mx_context_limit c
    \<and> bounded_reserve (mx_context_limit c) (mx_output_reserve c) = mx_output_reserve c \<and> trim (mx_context_group c) = mx_context_group c)"

lemma normalized_contexts_normal:
  "(\<forall>c\<in>set (normalized_contexts seen cs). normal_context c \<and> mx_slug c \<notin> seen) \<and> distinct (map mx_slug (normalized_contexts seen cs))"
proof (induction cs arbitrary: seen)
  case (Cons c cs)
  show ?case
    using Cons.IH [of seen] Cons.IH [of "insert (trim (mx_slug c)) seen"]
    by (auto simp: Let_def normal_context_def bounded_reserve_idem)
qed simp

lemma normalized_contexts_id:
  "distinct (map mx_slug cs) \<Longrightarrow> \<forall>c\<in>set cs. normal_context c \<and> mx_slug c \<notin> seen \<Longrightarrow> normalized_contexts seen cs = cs"
proof (induction cs arbitrary: seen)
  case (Cons c cs)
  then have "\<forall>c'\<in>set cs. normal_context c' \<and> mx_slug c' \<notin> insert (mx_slug c) seen" by (force simp: image_iff)
  then have "normalized_contexts (insert (mx_slug c) seen) cs = cs" using Cons.prems(1) by (intro Cons.IH) simp_all
  then show ?case using Cons.prems by (simp add: Let_def normal_context_def max_absorb1)
qed simp

lemma normalized_model_contexts_idem: "normalized_model_contexts (normalized_model_contexts cs) = normalized_model_contexts cs"
  using normalized_contexts_normal [of "{}" cs] by (simp add: normalized_model_contexts_def normalized_contexts_id)

lemma normalized_default_idem:
  "normalized_default_model_context (normalized_default_model_context v) = normalized_default_model_context v"
  by (cases v) (auto simp: normalized_default_model_context_def bounded_reserve_idem Let_def)

lemma bt_insert_last: "\<forall>k'\<in>fst ` set m. k' < k \<Longrightarrow> bt_insert k v m = m @ [(k, v)]"
  by (induction m) auto

lemma fold_bt_insert_id: "bt_sorted (m @ kvs) \<Longrightarrow> fold (\<lambda>(k, v). bt_insert k v) kvs m = m @ kvs"
proof (induction kvs arbitrary: m)
  case (Cons kv kvs)
  obtain k v where kv: "kv = (k, v)" by fastforce
  have "\<forall>k'\<in>fst ` set m. k' < k" using Cons.prems by (auto simp: bt_sorted_def kv sorted_wrt_append)
  then show ?case using Cons by (simp add: kv bt_insert_last)
qed simp

lemma fold_bt_insert_props:
  "bt_sorted m \<Longrightarrow> bt_sorted (fold (\<lambda>(k, v). bt_insert k v) kvs m)"
  "set (fold (\<lambda>(k, v). bt_insert k v) kvs m) \<subseteq> set m \<union> set kvs"
proof -
  show "bt_sorted m \<Longrightarrow> bt_sorted (fold (\<lambda>(k, v). bt_insert k v) kvs m)"
    by (induction kvs arbitrary: m) (auto simp: bt_insert_sorted)
  have one: "set (bt_insert k v m) \<subseteq> insert (k, v) (set m)" for k v and m :: "('a \<times> 'b) list"
    by (induction m) (auto split: if_splits)
  show "set (fold (\<lambda>(k, v). bt_insert k v) kvs m) \<subseteq> set m \<union> set kvs"
    by (induction kvs arbitrary: m) (use one in \<open>fastforce+\<close>)
qed

lemma normalized_presets_idem: "normalized_presets (normalized_presets ps) = normalized_presets ps"
proof -
  have "\<forall>(k, v)\<in>set (normalized_presets ps). trim k = k \<and> trim v = v \<and> k \<noteq> [] \<and> v \<noteq> []"
    using fold_bt_insert_props(2) [of "filter (\<lambda>(k, v). k \<noteq> [] \<and> v \<noteq> []) (map (\<lambda>(k, v). (trim k, trim v)) ps)" "[]"]
    unfolding normalized_presets_def by fastforce
  then have "filter (\<lambda>(k, v). k \<noteq> [] \<and> v \<noteq> []) (map (\<lambda>(k, v). (trim k, trim v)) (normalized_presets ps)) = normalized_presets ps"
    by (auto simp: filter_id_conv map_idI split_def)
  moreover have "bt_sorted (normalized_presets ps)" unfolding normalized_presets_def by (rule fold_bt_insert_props) simp
  ultimately show ?thesis unfolding normalized_presets_def [of "normalized_presets ps"] using fold_bt_insert_id [of "[]"] by simp
qed

section \<open>Normalisation\<close>

lemma key_models_stage:
  assumes "keys = normalized_current_keys k ks"
  shows "normalized_api_key_models (normalized_api_key_models vs keys) keys = normalized_api_key_models vs keys"
proof -
  have "normal_strings keys" unfolding assms normalized_current_keys_def by (rule normalized_string_list_normal)
  then show ?thesis by (intro key_models_id key_models_normal)
qed

lemma trimmed_mapping_idem [simp]: "trimmed_mapping (trimmed_mapping m) = trimmed_mapping m"
  by (simp add: trimmed_mapping_def)

lemma derived_models_normal: "normalized_string_list (derive_supported_models cs) = derive_supported_models cs"
  by (simp add: derive_supported_models_def)

lemma stored_protocols:
  "dedup_protocols (if dedup_protocols ps = [] then [p] else dedup_protocols ps) = (if dedup_protocols ps = [] then [p] else dedup_protocols ps)"
  by (rule dedup_protocols_id) (simp add: dedup_protocols_props)

text \<open>
  C25. A configuration that was normalised for storage is stored the same way again: normalising it a
  second time changes nothing.
\<close>

theorem normalize_for_storage_idempotent: "normalize_for_storage (normalize_for_storage u) = normalize_for_storage u"
proof -
  define protocols where "protocols = (if dedup_protocols (u_protocols u) = [] then [u_protocol u] else dedup_protocols (u_protocols u))"
  define keys where "keys = normalized_current_keys (trim (u_api_key u)) (normalized_string_list (u_api_keys u))"
  define models where "models = (if u_api_key_models u \<noteq> [] then normalized_api_key_models (u_api_key_models u) keys else [])"
  let ?v = "normalize_for_storage u"
  have protocols: "dedup_protocols protocols = protocols" "protocols \<noteq> []"
    unfolding protocols_def by (rule stored_protocols) simp
  have group: "filter_option (\<lambda>s. s \<noteq> []) (map_option trim (filter_option (\<lambda>s. s \<noteq> []) (map_option trim g)))
      = filter_option (\<lambda>s. s \<noteq> []) (map_option trim g)" for g
    by (cases g) (auto simp: filter_option_def)
  have keys: "normalized_current_keys (trim (u_api_key ?v)) (normalized_string_list (u_api_keys ?v)) = keys"
    by (simp add: normalize_for_storage_def keys_def Let_def)
  have models: "(if models \<noteq> [] then normalized_api_key_models models keys else []) = models"
    using key_models_stage [OF keys_def] by (auto simp: models_def)
  have supported: "(if models \<noteq> [] then derive_supported_models models
      else normalized_string_list (if u_api_key_models u \<noteq> [] then derive_supported_models models else normalized_string_list (u_supported_models u)))
    = (if u_api_key_models u \<noteq> [] then derive_supported_models models else normalized_string_list (u_supported_models u))"
    by (auto simp: derived_models_normal models_def)
  have fields: "u_protocols ?v = protocols" "u_protocol ?v = hd protocols" "u_api_key_models ?v = models"
    "u_supported_models ?v = (if u_api_key_models u \<noteq> [] then derive_supported_models models else normalized_string_list (u_supported_models u))"
    using protocols(2) by (simp_all add: normalize_for_storage_def Let_def protocols_def keys_def models_def split: list.split)
  have head: "(case protocols of p # _ \<Rightarrow> p | [] \<Rightarrow> ProtoChatCompletions) = hd protocols"
    using protocols(2) by (cases protocols) auto
  show ?thesis
    unfolding normalize_for_storage_def [of ?v] Let_def fields keys protocols(1) models supported
    using protocols(2)
    by (simp add: head group normalized_model_contexts_idem normalized_default_idem normalized_presets_idem comp_def
        normalize_for_storage_def Let_def flip: protocols_def keys_def) (simp add: models_def)
qed

section \<open>Models that can be routed\<close>

lemma route_models_props:
  "set (route_models u) = trim ` set (u_supported_models u) - {[]}" "distinct (route_models u)"
  by (simp_all add: route_models_def normalized_strings_props)

lemma route_model_name: "m \<in> set (route_models u) \<Longrightarrow> trim m = m \<and> m \<noteq> []"
  by (auto simp: route_models_props)

lemma equivalent_iff: "models_equivalent_with a b True \<longleftrightarrow> trim a \<noteq> [] \<and> canonical_model_id a = canonical_model_id b"
  by (simp add: models_equivalent_with_def model_identity_key_with_def)

lemma stored_spelling: "find_equivalent_stored (route_models u) m ci = Some s \<Longrightarrow> s \<in> set (route_models u)"
  by (auto simp: find_equivalent_stored_spec find_Some_iff)

lemma mapped_model_stored: "mapped_model u model ci = Some s \<Longrightarrow> s \<in> set (route_models u)"
  unfolding mapped_model_def by (auto dest!: find_map_Some simp: stored_spelling split: if_splits)

lemma mapped_model_live:
  assumes "m \<in> set (u_model_mappings u)" "mapping_matches ci model m" "trim (um_upstream_model m) \<noteq> []"
    "find_equivalent_stored (route_models u) (trim (um_upstream_model m)) ci \<noteq> None"
  shows "mapped_model u model ci \<noteq> None"
  using assms unfolding mapped_model_def find_map_None by (metis (no_types, lifting) option.distinct(1))

text \<open>
  Every model an upstream lists for clients can be routed on it: matched without regard to case, the
  name resolves, without a panic, to a spelling the upstream itself stores.
\<close>

theorem listed_models_routable:
  assumes "name \<in> set (effective_downstream_models u)"
  shows "\<exists>s. canonical_route_model u name True = Inr (Some s) \<and> s \<in> set (route_models u)"
proof -
  from assms consider
      m where "m \<in> set (u_model_mappings u)" "name = trim (um_downstream_model m)" "name \<noteq> []" "trim (um_upstream_model m) \<noteq> []"
        "find_equivalent_stored (route_models u) (trim (um_upstream_model m)) True \<noteq> None"
    | "name \<in> set (unoccupied_models u)"
    by (auto simp: effective_downstream_models_def effective_downstream_models_detailed_def List.map_filter_def Let_def split: if_splits)
  then show ?thesis
  proof cases
    case 1
    have "mapped_model u name True \<noteq> None"
      by (rule mapped_model_live [OF 1(1) _ 1(4,5)]) (use 1(2,3) trim_idem [of "um_downstream_model m"] in \<open>simp add: mapping_matches_def equivalent_iff\<close>)
    then show ?thesis using 1(2,3) mapped_model_stored by (auto simp: canonical_route_model_def)
  next
    case 2
    then have name: "name \<in> set (route_models u)" "trim name = name" "name \<noteq> []"
      using route_model_name by (auto simp: unoccupied_models_def)
    show ?thesis
    proof (cases "mapped_model u name True")
      case None
      have "List.find (\<lambda>c. models_equivalent_with c name True) (unoccupied_models u) \<noteq> None"
        using 2 name by (auto simp: find_None_iff equivalent_iff)
      then obtain s where s: "List.find (\<lambda>c. models_equivalent_with c name True) (unoccupied_models u) = Some s" by blast
      then have "s \<in> set (route_models u)" by (auto simp: find_Some_iff unoccupied_models_def dest: nth_mem)
      moreover have "canonical_route_model u name True = Inr (Some s)"
        using name None s by (auto simp: canonical_route_model_def)
      ultimately show ?thesis by blast
    qed (use name mapped_model_stored in \<open>auto simp: canonical_route_model_def\<close>)
  qed
qed

definition sample_upstream :: "upstream_model_mapping list \<Rightarrow> upstream_config" where
  "sample_upstream mappings =
    \<lparr>u_id = ''u'', u_name = [], u_remark = [], u_continuation_provider_group = None, u_base_url = [], u_api_key = ''k'', u_api_keys = [],
     u_api_key_models = [\<lparr>ak_api_key = ''k'', ak_supported_models = [''gpt'']\<rparr>], u_protocol = ProtoChatCompletions, u_protocols = [],
     u_supported_models = [''gpt''], u_model_mappings = mappings, u_model_contexts = [], u_default_model_context = None,
     u_request_quota_window_hours = 5, u_request_quota_requests = 1, u_requests_per_minute = 1, u_max_concurrency = 1, u_priority = 0,
     u_weight = 1, u_active = True, u_failure_count = 3, u_auto_managed = False, u_managed_source = None, u_last_synced_at = 0,
     u_strip_nonstandard_chat_fields = AutoPolicy, u_dialect_preset = None, u_model_dialect_presets = []\<rparr>"

definition sample_mapping :: upstream_model_mapping where
  "sample_mapping = \<lparr>um_upstream_model = ''GPT'', um_downstream_model = ''best''\<rparr>"

lemma sample_trims: "trim ''gpt'' = ''gpt''" "trim ''GPT'' = ''GPT''" "trim ''best'' = ''best''" "trim ''k'' = ''k''"
  by (simp_all add: trim_def trim_start_def trim_end_def strip_prefixes.simps whitespace_encodings_def)

lemma sample_canonical: "canonical_model_id ''gpt'' = ''gpt''" "canonical_model_id ''GPT'' = ''gpt''" "canonical_model_id ''best'' = ''best''"
  unfolding canonical_model_id_def sample_trims by code_simp+

lemmas sample_names = sample_trims sample_canonical

lemma sample_fields: "u_model_mappings (sample_upstream ms) = ms" "um_upstream_model sample_mapping = ''GPT''"
  "um_downstream_model sample_mapping = ''best''"
  by (simp_all add: sample_upstream_def sample_mapping_def)

lemma sample_models: "route_models (sample_upstream ms) = [''gpt'']"
  by (simp add: route_models_def sample_upstream_def sample_names)

lemma sample_listed: "''best'' \<in> set (effective_downstream_models (sample_upstream [sample_mapping]))"
  by (simp add: effective_downstream_models_def effective_downstream_models_detailed_def List.map_filter_def sample_models
      find_equivalent_stored_def sample_fields sample_names)

theorem listed_models_routable_witness:
  "canonical_route_model (sample_upstream [sample_mapping]) ''best'' True = Inr (Some ''gpt'')"
  using listed_models_routable [OF sample_listed] by (auto simp: sample_models)

text \<open>
  The list of models takes a mapping as alive when its model is stored in any case, the routing with
  exact case does not: with the case switch off, a listed model may resolve to nothing.
\<close>

theorem listed_model_lost_with_exact_case:
  "\<exists>u name. name \<in> set (effective_downstream_models u) \<and> canonical_route_model u name False = Inr None"
proof -
  have "length ''best'' < length codex_subagent_model_variant_suffix" by (simp add: codex_subagent_model_variant_suffix_def)
  then have "codex_subagent_base_model ''best'' = Inr None" by (simp add: codex_subagent_base_model_def sample_names Let_def)
  moreover have "mapped_model (sample_upstream [sample_mapping]) ''best'' False = None"
    by (simp add: mapped_model_def sample_models find_equivalent_stored_def sample_fields sample_names)
  moreover have "unoccupied_models (sample_upstream [sample_mapping]) = []"
    by (simp add: unoccupied_models_def sample_models occupied_def sample_fields sample_names)
  ultimately have "canonical_route_model (sample_upstream [sample_mapping]) ''best'' False = Inr None"
    by (simp add: canonical_route_model_def sample_names sample_models)
  then show ?thesis using sample_listed by blast
qed

section \<open>Mappings rename\<close>

lemma check_against_Inr:
  "check_against i (up, down) j others = Inr () \<Longrightarrow> k < length others \<Longrightarrow> j + k \<noteq> i
    \<Longrightarrow> \<not> models_equivalent up (fst (others ! k)) \<and> \<not> models_equivalent down (snd (others ! k))"
proof (induction others arbitrary: j k)
  case (Cons o' others)
  obtain a b where o': "o' = (a, b)" by fastforce
  show ?case
  proof (cases k)
    case 0
    then show ?thesis using Cons.prems by (auto simp: o' split: if_splits)
  next
    case (Suc k')
    then have "check_against i (up, down) (j + 1) others = Inr ()" using Cons.prems(1) by (auto simp: o' split: if_splits)
    then show ?thesis using Cons.IH [of "j + 1" k'] Cons.prems(2,3) Suc by simp
  qed
qed simp

lemma check_each_Inr:
  "check_each ms i rest = Inr () \<Longrightarrow> k < length rest
    \<Longrightarrow> fst (rest ! k) \<noteq> [] \<and> snd (rest ! k) \<noteq> [] \<and> check_against (i + k) (rest ! k) 0 ms = Inr ()"
proof (induction rest arbitrary: i k)
  case (Cons m rest)
  obtain a b where m: "m = (a, b)" by fastforce
  have head: "a \<noteq> []" "b \<noteq> []" "check_against i (a, b) 0 ms = Inr ()" "check_each ms (i + 1) rest = Inr ()"
    using Cons.prems(1) by (auto simp: m bind_ok_Inr_iff split: if_splits)
  show ?case using head Cons.IH [OF head(4)] Cons.prems(2) by (cases k) (auto simp: m)
qed simp

lemma valid_mappings_unique:
  assumes "validate_model_mappings u = Inr ()" "m \<in> set (u_model_mappings u)" "m' \<in> set (u_model_mappings u)"
    "mapping_matches True name m" "mapping_matches True name m'"
  shows "trim (um_upstream_model m) = trim (um_upstream_model m')"
proof -
  let ?pair = "\<lambda>m. (trim (um_upstream_model m), trim (um_downstream_model m))"
  let ?ms = "named_mappings u"
  have checked: "check_each ?ms 0 ?ms = Inr ()" using assms(1) by (simp add: validate_model_mappings_def bind_ok_Inr_iff Let_def)
  have named: "?pair m \<in> set ?ms" "?pair m' \<in> set ?ms"
    using assms(2-5) by (auto simp: named_mappings_def mapping_matches_def equivalent_iff Let_def)
  then obtain i j where ij: "i < length ?ms" "?ms ! i = ?pair m" "j < length ?ms" "?ms ! j = ?pair m'"
    by (metis in_set_conv_nth)
  have equivalent: "models_equivalent (trim (um_downstream_model m)) (trim (um_downstream_model m'))"
    using assms(4,5) by (auto simp: mapping_matches_def equivalent_iff models_equivalent_def Let_def)
  have "check_against i (?pair m) 0 ?ms = Inr ()" using check_each_Inr [OF checked ij(1)] ij(2) by simp
  then have "i = j" using check_against_Inr [of i _ _ 0 ?ms j] ij(3,4) equivalent by fastforce
  then show ?thesis using ij(2,4) by simp
qed

lemma mapped_model_exact:
  assumes "validate_model_mappings u = Inr ()" "m \<in> set (u_model_mappings u)" "mapping_matches True name m"
    "find_equivalent_stored (route_models u) (trim (um_upstream_model m)) True = Some s"
  shows "mapped_model u name True = Some s"
proof -
  have up: "trim (um_upstream_model m) \<noteq> []" using assms(4) by (auto simp: find_equivalent_stored_def Let_def split: if_splits)
  have "mapped_model u name True \<noteq> None" by (rule mapped_model_live [OF assms(2,3) up]) (simp add: assms(4))
  then obtain t where t: "mapped_model u name True = Some t" by blast
  then obtain m' where "m' \<in> set (u_model_mappings u)" "mapping_matches True name m'"
      "find_equivalent_stored (route_models u) (trim (um_upstream_model m')) True = Some t"
    unfolding mapped_model_def by (auto dest!: find_map_Some split: if_splits)
  then show ?thesis using valid_mappings_unique [OF assms(1,2) _ assms(3)] assms(4) t by auto
qed

text \<open>
  C23. The mappings of a valid configuration rename models: a name that matches a mapping, in any case,
  resolves to the stored spelling of exactly that mapping's model as long as the model is stored; and a
  model that a mapping has renamed is no longer reachable by its own name (unless another mapping gives
  that name to something).
\<close>

theorem mappings_rename_models:
  assumes "validate_configuration u = Inr ()" "trim name = name" "name \<noteq> []"
  shows "(\<forall>m\<in>set (u_model_mappings u). \<forall>s. mapping_matches True name m
        \<and> find_equivalent_stored (route_models u) (trim (um_upstream_model m)) True = Some s
        \<longrightarrow> canonical_route_model u name True = Inr (Some s))
    \<and> (canonical_model_id name \<in> occupied u \<and> (\<forall>m\<in>set (u_model_mappings u). \<not> mapping_matches True name m)
        \<and> codex_subagent_base_model name = Inr None \<and> route_models u \<noteq> []
        \<longrightarrow> canonical_route_model u name True = Inr None)"
proof -
  have valid: "validate_model_mappings u = Inr ()"
    using assms(1) by (simp add: validate_configuration_def split: if_splits)
  have "canonical_route_model u name True = Inr None"
    if "canonical_model_id name \<in> occupied u" "\<forall>m\<in>set (u_model_mappings u). \<not> mapping_matches True name m"
      "codex_subagent_base_model name = Inr None" "route_models u \<noteq> []"
  proof -
    have "mapped_model u name True = None" using that(2) by (simp add: mapped_model_def find_map_None)
    moreover have "List.find (\<lambda>c. models_equivalent_with c name True) (unoccupied_models u) = None"
      using that(1) by (auto simp: find_None_iff unoccupied_models_def equivalent_iff)
    ultimately show ?thesis using that(3,4) assms(2,3) by (simp add: canonical_route_model_def)
  qed
  moreover have "canonical_route_model u name True = Inr (Some s)"
    if "m \<in> set (u_model_mappings u)" "mapping_matches True name m"
      "find_equivalent_stored (route_models u) (trim (um_upstream_model m)) True = Some s" for m s
    using mapped_model_exact [OF valid that] assms(2,3) by (simp add: canonical_route_model_def)
  ultimately show ?thesis by blast
qed

lemma sample_valid: "validate_configuration (sample_upstream [sample_mapping]) = Inr ()"
  by (simp add: validate_configuration_def validate_model_mappings_def named_mappings_def sample_fields sample_names sample_models)
    (simp add: sample_upstream_def)

theorem mappings_rename_models_witness:
  "canonical_route_model (sample_upstream [sample_mapping]) ''best'' True = Inr (Some ''gpt'')
    \<and> canonical_route_model (sample_upstream [sample_mapping]) ''gpt'' True = Inr None"
proof -
  have base: "codex_subagent_base_model ''gpt'' = Inr None"
    by (simp add: codex_subagent_base_model_def sample_names codex_subagent_model_variant_suffix_def Let_def)
  have facts: "canonical_model_id ''gpt'' \<in> occupied (sample_upstream [sample_mapping])"
    "mapping_matches True ''best'' sample_mapping" "\<not> mapping_matches True ''gpt'' sample_mapping"
    "find_equivalent_stored (route_models (sample_upstream [sample_mapping])) (trim (um_upstream_model sample_mapping)) True = Some ''gpt''"
    by (simp_all add: occupied_def mapping_matches_def equivalent_iff find_equivalent_stored_def sample_fields sample_names sample_models)
  show ?thesis
    using mappings_rename_models [OF sample_valid, of "''best''"] mappings_rename_models [OF sample_valid, of "''gpt''"]
    by (simp add: facts base sample_fields sample_models find_equivalent_stored_def sample_names facts(1) [unfolded sample_canonical])
qed

section \<open>Keys for a model\<close>

lemma serving_keys_Inr:
  assumes "serving_keys model ci current cs keys = Inr ks"
  shows "set ks = set keys \<union> {k. \<exists>c\<in>set cs. k = trim (ak_api_key c) \<and> k \<noteq> [] \<and> k \<in> current \<and> key_serves model ci c = Inr True}"
    "distinct keys \<Longrightarrow> distinct ks"
proof -
  show "set ks = set keys \<union> {k. \<exists>c\<in>set cs. k = trim (ak_api_key c) \<and> k \<noteq> [] \<and> k \<in> current \<and> key_serves model ci c = Inr True}"
    using assms
  proof (induction cs arbitrary: keys)
    case (Cons c cs)
    let ?k = "trim (ak_api_key c)"
    obtain b where b: "key_serves model ci c = Inr b" using Cons.prems by (auto simp: bind_ok_Inr_iff)
    define next' where "next' = (if b \<and> ?k \<noteq> [] \<and> ?k \<in> current \<and> ?k \<notin> set keys then keys @ [?k] else keys)"
    have "serving_keys model ci current cs next' = Inr ks" using Cons.prems by (simp add: b next'_def Let_def split: if_splits)
    moreover have "set next' = set keys \<union> (if b \<and> ?k \<noteq> [] \<and> ?k \<in> current then {?k} else {})" by (auto simp: next'_def)
    ultimately show ?case using Cons.IH [of next'] b by auto
  qed simp
  show "distinct keys \<Longrightarrow> distinct ks"
    using assms
  proof (induction cs arbitrary: keys)
    case (Cons c cs)
    let ?k = "trim (ak_api_key c)"
    have "\<exists>b. serving_keys model ci current cs (if b \<and> ?k \<noteq> [] \<and> ?k \<in> current \<and> ?k \<notin> set keys then keys @ [?k] else keys) = Inr ks"
      using Cons.prems(2) unfolding serving_keys.simps bind_ok_Inr_iff Let_def by blast
    moreover have "distinct (if b \<and> ?k \<noteq> [] \<and> ?k \<in> current \<and> ?k \<notin> set keys then keys @ [?k] else keys)" for b
      using Cons.prems(1) by simp
    ultimately show ?case using Cons.IH by blast
  qed simp
qed

lemma any_ok_total: "(\<And>x. x \<in> set xs \<Longrightarrow> f x = Inr (g x)) \<Longrightarrow> any_ok f xs = Inr (list_ex g xs)"
  by (induction xs) auto

lemma key_serves_total:
  assumes "codex_subagent_base_model model = Inr base"
  shows "key_serves model True c = Inr (list_ex (\<lambda>candidate. models_equivalent_with candidate model True
      \<or> is_some_and base (\<lambda>b. models_equivalent_with candidate b True)) (ak_supported_models c))"
  unfolding key_serves_def using assms by (simp add: any_ok_total [where g = "\<lambda>candidate. models_equivalent_with candidate model True
      \<or> is_some_and base (\<lambda>b. models_equivalent_with candidate b True)"])

lemma serving_keys_total:
  assumes "codex_subagent_base_model model = Inr base"
  shows "\<exists>ks. serving_keys model True current cs keys = Inr ks"
  by (induction cs arbitrary: keys) (simp_all add: key_serves_total [OF assms] Let_def)

text \<open>
  C24. Once stored, an upstream that assigns models to keys can serve every model it has: each stored model
  has a key, and only keys the upstream still has are ever chosen, each once.
\<close>

theorem stored_models_have_keys:
  assumes "u_api_key_models u \<noteq> []" "model \<in> set (route_models (normalize_for_storage u))"
    "codex_subagent_base_model model = Inr base"
  shows "\<exists>ks. keys_for_model_with (normalize_for_storage u) model True = Inr ks \<and> ks \<noteq> [] \<and> distinct ks
    \<and> set ks \<subseteq> set (available_keys (normalize_for_storage u))"
proof -
  let ?v = "normalize_for_storage u"
  define keys where "keys = normalized_current_keys (trim (u_api_key u)) (normalized_string_list (u_api_keys u))"
  define cs where "cs = normalized_api_key_models (u_api_key_models u) keys"
  have fields: "u_api_key_models ?v = cs" "u_supported_models ?v = derive_supported_models cs" "available_keys ?v = keys"
    using assms(1) by (simp_all add: normalize_for_storage_def Let_def cs_def keys_def available_keys_def)
  have keys: "normal_strings keys" unfolding keys_def normalized_current_keys_def by (rule normalized_string_list_normal)
  have model: "trim model = model" "model \<noteq> []" using route_model_name [OF assms(2)] by simp_all
  have "model \<in> trim ` set (derive_supported_models cs)" using assms(2) by (auto simp: route_models_props fields)
  then obtain c m where c: "c \<in> set cs" "m \<in> set (ak_supported_models c)" "trim m = model"
    by (force simp: derive_supported_models_def normalized_string_list_props)
  have key: "ak_api_key c \<in> set keys" "trim (ak_api_key c) = ak_api_key c" "ak_api_key c \<noteq> []"
    using key_models_normal(2) [OF keys, of "u_api_key_models u"] keys c(1) by (auto simp: cs_def normal_strings_def)
  have serves: "key_serves model True c = Inr True"
    using c(2,3) model by (auto simp: key_serves_total [OF assms(3)] list_ex_iff equivalent_iff)
  obtain ks where ks: "serving_keys model True (set keys) cs [] = Inr ks" using serving_keys_total [OF assms(3)] by blast
  have "ak_api_key c \<in> set ks" "set ks \<subseteq> set keys" "distinct ks"
    using serving_keys_Inr [OF ks] c(1) key serves by auto
  moreover have "keys_for_model_with ?v model True = Inr ks"
    using ks c(1) model by (auto simp: keys_for_model_with_def fields)
  ultimately show ?thesis by (auto simp: fields)
qed

theorem stored_models_have_keys_witness:
  "\<exists>ks. keys_for_model_with (normalize_for_storage (sample_upstream [])) ''gpt'' True = Inr ks \<and> ks \<noteq> []"
proof -
  have "''gpt'' \<in> set (route_models (normalize_for_storage (sample_upstream [])))"
    by (simp add: route_models_props normalize_for_storage_def sample_upstream_def Let_def normalized_current_keys_def
        normalized_string_list_def normalized_api_key_models_def add_key_models_def derive_supported_models_def sample_names)
  moreover have "codex_subagent_base_model ''gpt'' = Inr None"
    by (simp add: codex_subagent_base_model_def sample_names codex_subagent_model_variant_suffix_def Let_def)
  moreover have "u_api_key_models (sample_upstream []) \<noteq> []" by (simp add: sample_upstream_def)
  ultimately show ?thesis using stored_models_have_keys by blast
qed

end
