(* ===== verification/Reasoning_Overrides.thy ===== *)
theory Reasoning_Overrides
  imports Upstream_Config_Properties Route_Attempts Capability_Policy_Properties
begin

text \<open>
  Operator overrides of the reasoning levels of a route
  (\<open>src/src/server/gateway/reasoning_overrides.rs\<close>): the request names a route, the gateway checks that it
  is current, and replaces the overrides it manages for that route, or for all routes of the model, in the
  capability configuration. Hashing, and whether the new configuration could be stored, are parameters.
\<close>

section \<open>Requests and routes\<close>

datatype reasoning_override_scope = ScopeRoute | ScopeModelRoutes

record reasoning_override_request =
  rr_upstream_id :: string
  rr_route_id :: string
  rr_exposed_model_slug :: string
  rr_runtime_model_slug :: string
  rr_protocol :: wire_protocol
  rr_levels :: "string list"
  rr_scope :: reasoning_override_scope

record reasoning_route =
  cr_upstream_id :: string
  cr_key_fingerprint :: string
  cr_runtime_model_slug :: string
  cr_protocol :: wire_protocol
  cr_route_id :: string

definition managed_reasoning_override_id :: "string \<Rightarrow> string" where
  "managed_reasoning_override_id route_id = ''operator-reasoning-'' @ route_id"

definition managed_reasoning_override_priority :: int where
  "managed_reasoning_override_priority = 1000000"

definition reasoning_levels :: "string list" where
  "reasoning_levels = [''none'', ''low'', ''medium'', ''high'', ''xhigh'', ''max'']"

definition normalize_reasoning_levels :: "string list \<Rightarrow> string list option" where
  "normalize_reasoning_levels levels =
    (if list_ex (\<lambda>level. level \<notin> set reasoning_levels) levels then None
     else Some (filter (\<lambda>candidate. candidate \<in> set levels) reasoning_levels))"

definition upstream_key_fingerprint :: "(byte list \<Rightarrow> byte list) \<Rightarrow> string \<Rightarrow> string \<Rightarrow> string" where
  "upstream_key_fingerprint sha upstream_id api_key =
    hex_of (sha (as_bytes ''chat2responses:key:v1'' @ [0] @ as_bytes upstream_id @ [0] @ as_bytes (trim api_key)))"

definition current_reasoning_route ::
  "(byte list \<Rightarrow> byte list) \<Rightarrow> upstream_config \<Rightarrow> string \<Rightarrow> string \<Rightarrow> wire_protocol \<Rightarrow> reasoning_route" where
  "current_reasoning_route sha u runtime_model_slug api_key protocol' =
    (let key_fingerprint = upstream_key_fingerprint sha (u_id u) api_key
     in \<lparr>cr_upstream_id = u_id u, cr_key_fingerprint = key_fingerprint, cr_runtime_model_slug = runtime_model_slug,
         cr_protocol = protocol',
         cr_route_id = anonymous_route_id sha \<lparr>rk_upstream_id = u_id u, rk_key_fingerprint = key_fingerprint,
           rk_runtime_model_slug = runtime_model_slug, rk_protocol = protocol'\<rparr>\<rparr>)"

fun upstream_protocol_of :: "wire_protocol \<Rightarrow> upstream_protocol option" where
  "upstream_protocol_of ChatCompletions = Some ProtoChatCompletions"
| "upstream_protocol_of Responses = Some ProtoResponses"
| "upstream_protocol_of Messages = None"

fun wire_protocol_of :: "upstream_protocol \<Rightarrow> wire_protocol" where
  "wire_protocol_of ProtoChatCompletions = ChatCompletions"
| "wire_protocol_of ProtoResponses = Responses"

definition resolve_selected_route ::
  "(byte list \<Rightarrow> byte list) \<Rightarrow> upstream_config list \<Rightarrow> reasoning_override_request \<Rightarrow> bool
   \<Rightarrow> reasoning_route option outcome_or_panic" where
  "resolve_selected_route sha upstreams request case_insensitive =
    (case List.find (\<lambda>u. u_active u \<and> u_id u = rr_upstream_id request) upstreams of
       None \<Rightarrow> Inr None
     | Some u \<Rightarrow>
         bind_ok (resolved_model_name_with u (rr_exposed_model_slug request) case_insensitive) (\<lambda>resolved.
           case resolved of
             None \<Rightarrow> Inr None
           | Some slug \<Rightarrow>
               if slug \<noteq> rr_runtime_model_slug request then Inr None
               else case upstream_protocol_of (rr_protocol request) of
                      None \<Rightarrow> Inr None
                    | Some p \<Rightarrow>
                        if \<not> supports_protocol u p then Inr None
                        else bind_ok (keys_for_model_with u slug case_insensitive) (\<lambda>keys.
                               Inr (List.find (\<lambda>route. cr_route_id route = rr_route_id request)
                                 (map (\<lambda>api_key. current_reasoning_route sha u slug api_key (rr_protocol request)) keys)))))"

fun current_routes_for_exposed_model ::
  "(byte list \<Rightarrow> byte list) \<Rightarrow> upstream_config list \<Rightarrow> string \<Rightarrow> bool \<Rightarrow> reasoning_route list outcome_or_panic" where
  "current_routes_for_exposed_model sha [] slug case_insensitive = Inr []"
| "current_routes_for_exposed_model sha (u # us) slug case_insensitive =
    (if \<not> u_active u then current_routes_for_exposed_model sha us slug case_insensitive
     else bind_ok (resolved_model_name_with u slug case_insensitive) (\<lambda>resolved.
       case resolved of
         None \<Rightarrow> current_routes_for_exposed_model sha us slug case_insensitive
       | Some runtime \<Rightarrow>
           bind_ok (keys_for_model_with u runtime case_insensitive) (\<lambda>keys.
           bind_ok (current_routes_for_exposed_model sha us slug case_insensitive) (\<lambda>rest.
             Inr (concat (map (\<lambda>api_key. map (\<lambda>p. current_reasoning_route sha u runtime api_key (wire_protocol_of p))
                    (supported_protocols u)) keys) @ rest)))))"

definition managed_reasoning_override :: "reasoning_route \<Rightarrow> string list \<Rightarrow> 'n route_capability_override" where
  "managed_reasoning_override route levels =
    \<lparr>ro_id = managed_reasoning_override_id (cr_route_id route), ro_priority = managed_reasoning_override_priority,
     ro_selector = selector_default
       \<lparr>cs_upstream_id := Some (cr_upstream_id route), cs_key_fingerprint := Some (cr_key_fingerprint route),
        cs_runtime_model := Some (cr_runtime_model_slug route), cs_protocol := Some (cr_protocol route)\<rparr>,
     ro_capabilities = [(ReasoningOutput, Supported)], ro_token_limit_field = None, ro_reasoning_carrier = None,
     ro_reasoning_control_field = Some ''reasoning_effort'',
     ro_effort_map = fold (\<lambda>level. bt_insert level (JString level)) levels [],
     ro_correction_rules = [], ro_extensions = []\<rparr>"

section \<open>The update\<close>

text \<open>\<open>Vec::dedup_by\<close> keeps the first of adjacent routes with one identifier.\<close>

fun dedup_routes :: "reasoning_route list \<Rightarrow> reasoning_route list" where
  "dedup_routes (a # b # rest) =
    (if cr_route_id a = cr_route_id b then dedup_routes (a # rest) else a # dedup_routes (b # rest))"
| "dedup_routes rest = rest"

datatype reasoning_override_reply =
    OverrideRefused nat string
  | OverrideStored nat "string list"

definition select_targets ::
  "(byte list \<Rightarrow> byte list) \<Rightarrow> upstream_config list \<Rightarrow> reasoning_override_request \<Rightarrow> bool
   \<Rightarrow> reasoning_route list outcome_or_panic" where
  "select_targets sha upstreams request case_insensitive =
    bind_ok (resolve_selected_route sha upstreams request case_insensitive) (\<lambda>selected.
      case selected of
        None \<Rightarrow> Inr []
      | Some route \<Rightarrow>
          (case rr_scope request of
             ScopeRoute \<Rightarrow> Inr [route]
           | ScopeModelRoutes \<Rightarrow> current_routes_for_exposed_model sha upstreams (rr_exposed_model_slug request) case_insensitive))"

definition override_update :: "string list \<Rightarrow> reasoning_route list \<Rightarrow> 'n capability_configuration \<Rightarrow> 'n capability_configuration" where
  "override_update levels targets c =
    (let managed_ids = (managed_reasoning_override_id \<circ> cr_route_id) ` set targets;
         kept = filter (\<lambda>route_override. ro_id route_override \<notin> managed_ids) (cf_route_overrides c)
     in c\<lparr>cf_route_overrides := kept @ (if levels \<noteq> [] then map (\<lambda>route. managed_reasoning_override route levels) targets else []),
          cf_revision := u64_saturating_add (cf_revision c) 1\<rparr>)"

definition admin_update_reasoning_overrides ::
  "(byte list \<Rightarrow> byte list) \<Rightarrow> 'n policy_ops \<Rightarrow> ('n capability_configuration \<Rightarrow> bool) \<Rightarrow> upstream_config list \<Rightarrow> bool
   \<Rightarrow> reasoning_override_request \<Rightarrow> 'n capability_configuration
   \<Rightarrow> (reasoning_override_reply \<times> 'n capability_configuration) outcome_or_panic" where
  "admin_update_reasoning_overrides sha ops persists upstreams case_insensitive request c =
    (case normalize_reasoning_levels (rr_levels request) of
       None \<Rightarrow> Inr (OverrideRefused 400 ''capability_reasoning_override_invalid_level'', c)
     | Some levels \<Rightarrow>
         bind_ok (select_targets sha upstreams request case_insensitive) (\<lambda>found.
           if found = [] then Inr (OverrideRefused 400 ''capability_reasoning_override_invalid_route'', c)
           else let targets = dedup_routes (sort_key cr_route_id found);
                    updated = override_update levels targets c
                in (case compile_configuration ops updated of
                      Inl _ \<Rightarrow> Inr (OverrideRefused 409 ''capability_reasoning_override_conflict'', c)
                    | Inr _ \<Rightarrow>
                        if \<not> persists updated then Inr (OverrideRefused 500 ''capability_reasoning_override_persist_failed'', c)
                        else Inr (OverrideStored (cf_revision updated) (map cr_route_id targets), updated))))"

section \<open>What an update changes\<close>

lemma dedup_routes_ids: "set (map cr_route_id (dedup_routes rs)) = set (map cr_route_id rs)"
  by (induction rs rule: dedup_routes.induct) auto

lemma dedup_routes_sorted:
  "sorted (map cr_route_id rs) \<Longrightarrow> sorted_wrt (<) (map cr_route_id (dedup_routes rs))"
proof (induction rs rule: dedup_routes.induct)
  case (1 a b rest)
  show ?case
  proof (cases "cr_route_id a = cr_route_id b")
    case False
    then have "cr_route_id a < cr_route_id b" using "1.prems" by auto
    moreover have "\<forall>x\<in>set (b # rest). cr_route_id b \<le> cr_route_id x" using "1.prems" by auto
    ultimately have "\<forall>x\<in>set (map cr_route_id (dedup_routes (b # rest))). cr_route_id a < x" unfolding dedup_routes_ids by auto
    then show ?thesis using False "1.IH"(2) "1.prems" by simp
  qed (use "1.IH"(1) "1.prems" in auto)
qed simp_all

lemma targets_distinct: "distinct (map cr_route_id (dedup_routes (sort_key cr_route_id found)))"
  using dedup_routes_sorted [of "sort_key cr_route_id found"] strict_sorted_iff by force

lemma managed_id_inject [simp]: "managed_reasoning_override_id a = managed_reasoning_override_id b \<longleftrightarrow> a = b"
  by (simp add: managed_reasoning_override_id_def)

lemma managed_override_id [simp]: "ro_id (managed_reasoning_override route levels) = managed_reasoning_override_id (cr_route_id route)"
  by (simp add: managed_reasoning_override_def)

lemma effort_map_levels:
  "map_of (fold (\<lambda>level. bt_insert level (JString level)) levels m) l = (if l \<in> set levels then Some (JString l) else map_of m l)"
  by (induction levels arbitrary: m) (auto simp: map_of_bt_insert)

lemma managed_levels:
  "map_of (ro_effort_map (managed_reasoning_override route levels)) l = (if l \<in> set levels then Some (JString l) else None)"
  by (simp add: managed_reasoning_override_def effort_map_levels)

lemma override_update_kept:
  "filter (\<lambda>r. ro_id r \<notin> managed_reasoning_override_id ` cr_route_id ` set targets) (cf_route_overrides (override_update levels targets c))
    = filter (\<lambda>r. ro_id r \<notin> managed_reasoning_override_id ` cr_route_id ` set targets) (cf_route_overrides c)"
  by (auto simp: override_update_def Let_def image_comp filter_empty_conv)

lemma override_update_managed:
  fixes c :: "'n capability_configuration"
  assumes "distinct (map cr_route_id targets)" "t \<in> set targets"
  shows "filter (\<lambda>r. ro_id r = managed_reasoning_override_id (cr_route_id t)) (cf_route_overrides (override_update levels targets c))
    = (if levels = [] then [] else [managed_reasoning_override t levels])"
proof -
  have one: "filter (\<lambda>r. ro_id r = managed_reasoning_override_id (cr_route_id t)) (map (\<lambda>route. managed_reasoning_override route levels) ts)
    = [managed_reasoning_override t levels :: 'n route_capability_override]" if "distinct (map cr_route_id ts)" "t \<in> set ts" for ts
    using that
  proof (induction ts)
    case (Cons u ts)
    show ?case
    proof (cases "cr_route_id u = cr_route_id t")
      case True
      then have "u = t" using Cons.prems by (auto simp: image_iff)
      moreover have "\<forall>x\<in>set ts. cr_route_id x \<noteq> cr_route_id t" using Cons.prems(1) True by (auto simp: image_iff)
      ultimately show ?thesis by (auto simp: filter_empty_conv)
    qed (use Cons in auto)
  qed simp
  have "filter (\<lambda>r. ro_id r = managed_reasoning_override_id (cr_route_id t))
      (filter (\<lambda>r. ro_id r \<notin> (managed_reasoning_override_id \<circ> cr_route_id) ` set targets) (cf_route_overrides c)) = []"
    using assms(2) by (auto simp: filter_empty_conv)
  then show ?thesis using one [OF assms] by (simp add: override_update_def Let_def)
qed

lemma override_update_again: "cf_route_overrides (override_update levels targets (override_update levels targets c))
    = cf_route_overrides (override_update levels targets c)"
  by (auto simp: override_update_def Let_def filter_empty_conv)

lemma update_stored:
  assumes "admin_update_reasoning_overrides sha ops persists upstreams ci request c = Inr (reply, c')"
  shows "(\<exists>status code. reply = OverrideRefused status code \<and> c' = c)
    \<or> (\<exists>levels found targets cc. normalize_reasoning_levels (rr_levels request) = Some levels
        \<and> select_targets sha upstreams request ci = Inr found \<and> found \<noteq> [] \<and> targets = dedup_routes (sort_key cr_route_id found)
        \<and> c' = override_update levels targets c \<and> compile_configuration ops c' = Inr cc
        \<and> reply = OverrideStored (cf_revision c') (map cr_route_id targets))"
  using assms
  by (auto simp: admin_update_reasoning_overrides_def bind_ok_Inr_iff Let_def split: option.splits sum.splits if_splits)

text \<open>
  C27. An update of the reasoning levels either refuses, and leaves the configuration as it was, or replaces
  the gateway's own overrides of the affected routes: each route has one that offers exactly the requested
  levels, or none where no level was requested; the overrides of others and the rest of the configuration
  stay, the result compiles, and the same request again would leave the overrides as they are.
\<close>

theorem managed_overrides_replaced:
  assumes "admin_update_reasoning_overrides sha ops persists upstreams ci request c = Inr (reply, c')"
  shows "case reply of
      OverrideRefused _ _ \<Rightarrow> c' = c
    | OverrideStored revision ids \<Rightarrow>
        (let own = managed_reasoning_override_id ` set ids in
          ids \<noteq> [] \<and> distinct ids \<and> (\<exists>cc. compile_configuration ops c' = Inr cc)
          \<and> revision = u64_saturating_add (cf_revision c) 1
          \<and> c' = c\<lparr>cf_route_overrides := cf_route_overrides c', cf_revision := revision\<rparr>
          \<and> filter (\<lambda>r. ro_id r \<notin> own) (cf_route_overrides c') = filter (\<lambda>r. ro_id r \<notin> own) (cf_route_overrides c)
          \<and> (\<forall>i\<in>set ids. if rr_levels request = [] then managed_reasoning_override_id i \<notin> ro_id ` set (cf_route_overrides c')
               else \<exists>r. filter (\<lambda>r. ro_id r = managed_reasoning_override_id i) (cf_route_overrides c') = [r]
                 \<and> dom (map_of (ro_effort_map r)) = set (rr_levels request))
          \<and> (\<forall>reply' c''. admin_update_reasoning_overrides sha ops persists upstreams ci request c' = Inr (reply', c'')
               \<longrightarrow> cf_route_overrides c'' = cf_route_overrides c'))"
proof (cases reply)
  case (OverrideRefused status code)
  then show ?thesis using update_stored [OF assms] by auto
next
  case (OverrideStored revision ids)
  then obtain levels found targets cc where levels: "normalize_reasoning_levels (rr_levels request) = Some levels"
    and found: "select_targets sha upstreams request ci = Inr found" "found \<noteq> []"
    and targets: "targets = dedup_routes (sort_key cr_route_id found)"
    and c': "c' = override_update levels targets c" "compile_configuration ops c' = Inr cc"
    and reply: "revision = cf_revision c'" "ids = map cr_route_id targets"
    using update_stored [OF assms] by blast
  have distinct: "distinct (map cr_route_id targets)" unfolding targets by (rule targets_distinct)
  have "ids \<noteq> []" using found(2) dedup_routes_ids [of "sort_key cr_route_id found"] by (auto simp: reply targets)
  have "set levels = set (rr_levels request)"
    using levels by (auto simp: normalize_reasoning_levels_def list_ex_iff split: if_splits)
  then have set_levels: "set levels = set (rr_levels request)" "levels = [] \<longleftrightarrow> rr_levels request = []" by auto
  have own: "managed_reasoning_override_id ` set ids = managed_reasoning_override_id ` cr_route_id ` set targets" by (simp add: reply)
  have each: "if rr_levels request = [] then managed_reasoning_override_id i \<notin> ro_id ` set (cf_route_overrides c')
      else \<exists>r. filter (\<lambda>r. ro_id r = managed_reasoning_override_id i) (cf_route_overrides c') = [r]
        \<and> dom (map_of (ro_effort_map r)) = set (rr_levels request)" if i: "i \<in> set ids" for i
  proof -
    obtain t where t: "t \<in> set targets" "i = cr_route_id t" using i by (auto simp: reply)
    show ?thesis
      using override_update_managed [OF distinct t(1), of levels c] set_levels
      by (auto simp: c'(1) t(2) filter_empty_conv dom_def managed_levels split: if_splits)
  qed
  have again: "cf_route_overrides c'' = cf_route_overrides c'"
    if "admin_update_reasoning_overrides sha ops persists upstreams ci request c' = Inr (reply', c'')" for reply' c''
    using update_stored [OF that] levels found override_update_again [of levels targets c] by (auto simp: c'(1) targets)
  have rest: "c' = c\<lparr>cf_route_overrides := cf_route_overrides c', cf_revision := revision\<rparr>" "revision = u64_saturating_add (cf_revision c) 1"
    by (simp_all add: c'(1) reply(1) override_update_def Let_def)
  show ?thesis
    using \<open>ids \<noteq> []\<close> distinct c'(2) override_update_kept [of targets levels c] each again rest
    by (simp add: OverrideStored own Let_def reply(2) c'(1) [symmetric])
qed

definition sample_request :: reasoning_override_request where
  "sample_request = \<lparr>rr_upstream_id = ''u'', rr_route_id = ''route_'', rr_exposed_model_slug = ''gpt'', rr_runtime_model_slug = ''gpt'',
     rr_protocol = ChatCompletions, rr_levels = [''high''], rr_scope = ScopeRoute\<rparr>"

abbreviation sample_reasoning_route :: reasoning_route where
  "sample_reasoning_route \<equiv> \<lparr>cr_upstream_id = ''u'', cr_key_fingerprint = [], cr_runtime_model_slug = ''gpt'',
     cr_protocol = ChatCompletions, cr_route_id = ''route_''\<rparr>"

lemma sample_target: "select_targets (\<lambda>_. []) [sample_upstream []] sample_request True = Inr [sample_reasoning_route]"
proof -
  have base: "codex_subagent_base_model ''gpt'' = Inr None"
    by (simp add: codex_subagent_base_model_def sample_names codex_subagent_model_variant_suffix_def Let_def)
  have model: "canonical_route_model (sample_upstream []) ''gpt'' True = Inr (Some ''gpt'')"
    by (simp add: canonical_route_model_def mapped_model_def sample_fields sample_models sample_names unoccupied_models_def
        occupied_def equivalent_iff)
  have keys: "keys_for_model_with (sample_upstream []) ''gpt'' True = Inr [''k'']"
    by (simp add: keys_for_model_with_def sample_names)
      (simp add: sample_upstream_def available_keys_def normalized_current_keys_def normalized_string_list_def
        key_serves_total [OF base] equivalent_iff sample_names)
  have up: "u_active (sample_upstream [])" "u_id (sample_upstream []) = ''u''" "supports_protocol (sample_upstream []) ProtoChatCompletions"
    by (simp_all add: sample_upstream_def supports_protocol_def supported_protocols_def dedup_protocols_def)
  show ?thesis
    by (simp add: select_targets_def resolve_selected_route_def resolved_model_name_with_def model keys up sample_request_def
        current_reasoning_route_def upstream_key_fingerprint_def anonymous_route_id_def hex_of_def)
qed

lemma sample_update_compiles:
  "\<exists>cc. compile_configuration sample_policy_ops (override_update [''high''] [sample_reasoning_route] configuration_default) = Inr cc"
proof -
  have trims: "trim ''operator-reasoning-route_'' = ''operator-reasoning-route_''"
    by (simp add: trim_def trim_start_def trim_end_def strip_prefixes.simps whitespace_encodings_def)
  show ?thesis
    by (simp add: compile_configuration_def override_update_def configuration_default_def managed_reasoning_override_def
        managed_reasoning_override_id_def validate_resource_bounds_def validate_entry_count_def max_capability_collection_entries_def
        u64_saturating_add_def u64_max_def max_capability_extension_probes_def validate_selector_value_lengths_def
        validate_selector_value_length_def max_capability_selector_value_bytes_def bounded_serialized_size_def Let_def
        sample_policy_ops_def selector_default_def probe_configuration_default_def validate_ids_def configuration_ids_def trims
        validate_fixtures_def validate_extensions_def validate_route_tags_def validate_reasoning_overrides_def
        validate_reasoning_override_def compile_entries_def compile_selector_def compile_expectations_def
        validate_policy_conflicts_def validate_override_conflicts_def capability_schema_version_def)
qed

theorem managed_overrides_replaced_witness:
  "\<exists>c'. admin_update_reasoning_overrides (\<lambda>_. []) sample_policy_ops (\<lambda>_. True) [sample_upstream []] True sample_request configuration_default
      = Inr (OverrideStored 1 [''route_''], c')
    \<and> (\<exists>r. filter (\<lambda>r. ro_id r = ''operator-reasoning-route_'') (cf_route_overrides c') = [r] \<and> dom (map_of (ro_effort_map r)) = {''high''})"
proof -
  let ?c' = "override_update [''high''] [sample_reasoning_route] configuration_default"
  have levels: "normalize_reasoning_levels (rr_levels sample_request) = Some [''high'']"
    by (simp add: normalize_reasoning_levels_def sample_request_def reasoning_levels_def)
  have "cf_revision ?c' = 1"
    by (simp add: override_update_def configuration_default_def u64_saturating_add_def u64_max_def Let_def)
  then have run: "admin_update_reasoning_overrides (\<lambda>_. []) sample_policy_ops (\<lambda>_. True) [sample_upstream []] True sample_request configuration_default
      = Inr (OverrideStored 1 [''route_''], ?c')"
    using sample_update_compiles
    by (auto simp: admin_update_reasoning_overrides_def levels sample_target Let_def)
  show ?thesis
    using run managed_overrides_replaced [OF run]
    by (simp add: sample_request_def managed_reasoning_override_id_def Let_def)
qed

end
